(* ===== verification/Go_Prelude.thy ===== *)
theory Go_Prelude
  imports Main "HOL-Library.Word"
begin

text \<open>
  Shared vocabulary of the development: machine integers, Go errors and panics as
  values, slices with their bounds checks, and the fixed-width binary codecs of
  \<^verbatim>\<open>encoding/binary\<close>. The locale \<open>fixed_codec\<close> is the contract
  every fixed-size record of the library satisfies (the EA header, the backup stream
  header, the WIM tables, a GUID); its consequences are proved once here.
\<close>

unbundle bit_operations_syntax

named_theorems go_simps \<open>evaluation rules of the Go primitives\<close>
named_theorems codec_simps \<open>lengths and round trips of the binary codecs\<close>

section \<open>Machine integers\<close>

type_synonym byte = "8 word"
type_synonym u16 = "16 word"
type_synonym u32 = "32 word"
type_synonym u64 = "64 word"
type_synonym bytes = "byte list"

text \<open>
  A Go \<^verbatim>\<open>string\<close> is a sequence of bytes. \<open>bs_of\<close> turns a literal into one.
  Go \<^verbatim>\<open>int\<close> and \<^verbatim>\<open>int64\<close> are 64 bits wide: \<open>wrap64\<close> is their
  two's complement wrap-around.
\<close>

type_synonym gostring = bytes

definition bs_of :: "string \<Rightarrow> gostring" where
  "bs_of s = map (\<lambda>c. of_nat (of_char c :: nat)) s"

definition wrap64 :: "int \<Rightarrow> int" where
  "wrap64 x = signed_take_bit 63 x"

lemma wrap64_id [simp]: "- (2 ^ 63) \<le> x \<Longrightarrow> x < 2 ^ 63 \<Longrightarrow> wrap64 x = x"
  unfolding wrap64_def by (rule signed_take_bit_int_eq_self) auto

lemma wrap64_range: "- (2 ^ 63) \<le> wrap64 x \<and> wrap64 x < 2 ^ 63"
  unfolding wrap64_def
  by (rule conjI [OF signed_take_bit_int_greater_eq_minus_exp signed_take_bit_int_less_exp])

lemma sint_word64_of_int [simp]:
  "- (2 ^ 63) \<le> x \<Longrightarrow> x < 2 ^ 63 \<Longrightarrow> sint (word_of_int x :: u64) = x"
  by (simp add: sint_sbintrunc' signed_take_bit_int_eq_self)

lemma unat_of_nat_eq_iff: "unat (of_nat n :: 'a::len word) = n \<longleftrightarrow> n < 2 ^ LENGTH('a)"
  by (simp add: unsigned_of_nat take_bit_nat_eq_self_iff)

lemma length_bs_of [simp]: "length (bs_of s) = length s"
  by (simp add: bs_of_def)

lemma bs_of_Nil [simp]: "bs_of [] = []"
  and bs_of_append: "bs_of (s @ t) = bs_of s @ bs_of t"
  by (simp_all add: bs_of_def)

section \<open>Errors, panics and results\<close>

text \<open>
  \<^verbatim>\<open>EOF\<close> and \<^verbatim>\<open>ErrUnexpectedEOF\<close> are the sentinels of package
  \<^verbatim>\<open>io\<close>; \<open>Errno\<close> is a Win32 error code; \<open>ErrNew\<close> is
  \<^verbatim>\<open>errors.New\<close>; \<open>ErrFmt\<close> is \<^verbatim>\<open>fmt.Errorf\<close> with its
  numeric arguments; \<open>ErrWrap\<close> wraps another error (\<^verbatim>\<open>%w\<close>,
  \<^verbatim>\<open>os.PathError\<close>, \<^verbatim>\<open>wim.ParseError\<close>).
\<close>

datatype go_error =
    EOF
  | ErrUnexpectedEOF
  | Errno u32
  | ErrNew string
  | ErrFmt string "int list"
  | ErrWrap string go_error

text \<open>\<^verbatim>\<open>syscall.EINVAL\<close>, one of the numbers that Go adds to those of the system.\<close>

definition EINVAL :: go_error where "EINVAL = Errno 0x20000027"

datatype 'a res =
    Ok 'a
  | Err go_error
  | Panic string

definition bind_res :: "'a res \<Rightarrow> ('a \<Rightarrow> 'b res) \<Rightarrow> 'b res" where
  "bind_res m f = (case m of Ok x \<Rightarrow> f x | Err e \<Rightarrow> Err e | Panic p \<Rightarrow> Panic p)"

definition map_err :: "(go_error \<Rightarrow> go_error) \<Rightarrow> 'a res \<Rightarrow> 'a res" where
  "map_err g m = (case m of Ok x \<Rightarrow> Ok x | Err e \<Rightarrow> Err (g e) | Panic p \<Rightarrow> Panic p)"

lemma bind_res_simps [simp, go_simps]:
  "bind_res (Ok x) f = f x" "bind_res (Err e) f = Err e" "bind_res (Panic p) f = Panic p"
  by (simp_all add: bind_res_def)

lemma map_err_simps [simp, go_simps]:
  "map_err g (Ok x) = Ok x" "map_err g (Err e) = Err (g e)" "map_err g (Panic p) = Panic p"
  by (simp_all add: map_err_def)

lemma bind_res_cong [fundef_cong]:
  "m = m' \<Longrightarrow> (\<And>x. m' = Ok x \<Longrightarrow> f x = g x) \<Longrightarrow> bind_res m f = bind_res m' g"
  by (cases m') simp_all

lemma bind_res_Ok_iff: "bind_res m f = Ok y \<longleftrightarrow> (\<exists>x. m = Ok x \<and> f x = Ok y)"
  by (cases m) simp_all

lemma bind_res_Err_iff: "bind_res m f = Err e \<longleftrightarrow> m = Err e \<or> (\<exists>x. m = Ok x \<and> f x = Err e)"
  by (cases m) simp_all

lemma bind_res_Panic_iff: "bind_res m f = Panic p \<longleftrightarrow> m = Panic p \<or> (\<exists>x. m = Ok x \<and> f x = Panic p)"
  by (cases m) simp_all

lemma map_err_Ok_iff [simp]: "map_err g m = Ok x \<longleftrightarrow> m = Ok x"
  by (cases m) simp_all

definition panics :: "'a res \<Rightarrow> bool" where
  "panics m = (case m of Panic p \<Rightarrow> True | _ \<Rightarrow> False)"

lemma panics_simps [simp, go_simps]:
  "\<not> panics (Ok x)" "\<not> panics (Err e)" "panics (Panic p)"
  by (simp_all add: panics_def)

text \<open>\<^verbatim>\<open>errors.Is\<close> compares an error and what it wraps with a target.\<close>

fun errors_Is :: "go_error \<Rightarrow> go_error \<Rightarrow> bool" where
  "errors_Is (ErrWrap s e) t \<longleftrightarrow> ErrWrap s e = t \<or> errors_Is e t"
| "errors_Is e t \<longleftrightarrow> e = t"

section \<open>Slices\<close>

text \<open>
  \<^verbatim>\<open>b[i:j]\<close> and \<^verbatim>\<open>b[i]\<close> on a slice whose capacity is its length,
  with the run-time panic Go raises when a bound is violated.
\<close>

definition slice :: "'a list \<Rightarrow> nat \<Rightarrow> nat \<Rightarrow> 'a list res" where
  "slice b i j =
     (if i \<le> j \<and> j \<le> length b then Ok (take (j - i) (drop i b))
      else Panic ''slice bounds out of range'')"

definition index :: "'a list \<Rightarrow> nat \<Rightarrow> 'a res" where
  "index b i = (if i < length b then Ok (b ! i) else Panic ''index out of range'')"

lemma slice_Ok [simp, go_simps]:
  "i \<le> j \<Longrightarrow> j \<le> length b \<Longrightarrow> slice b i j = Ok (take (j - i) (drop i b))"
  by (simp add: slice_def)

lemma slice_Ok_iff: "slice b i j = Ok c \<longleftrightarrow> i \<le> j \<and> j \<le> length b \<and> c = take (j - i) (drop i b)"
  by (auto simp: slice_def)

lemma slice_not_Err [simp]: "slice b i j \<noteq> Err e"
  by (simp add: slice_def)

lemma index_Ok [simp, go_simps]: "i < length b \<Longrightarrow> index b i = Ok (b ! i)"
  by (simp add: index_def)

lemma index_not_Err [simp]: "index b i \<noteq> Err e"
  by (simp add: index_def)

lemma drop_append_eq [simp]: "length a = n \<Longrightarrow> drop n (a @ b) = b"
  and take_append_eq [simp]: "length a = n \<Longrightarrow> take n (a @ b) = a"
  by simp_all

lemma drop_append_ge: "length a \<le> n \<Longrightarrow> drop n (a @ b) = drop (n - length a) b"
  by simp

lemma take_drop_append_mid:
  "length a = i \<Longrightarrow> length b = n \<Longrightarrow> take n (drop i (a @ b @ c)) = b"
  by simp

section \<open>Little- and big-endian integers\<close>

fun le_enc :: "nat \<Rightarrow> 'a::len word \<Rightarrow> bytes" where
  "le_enc 0 w = []"
| "le_enc (Suc n) w = ucast w # le_enc n (drop_bit 8 w)"

fun le_dec :: "bytes \<Rightarrow> 'a::len word" where
  "le_dec [] = 0"
| "le_dec (b # bs) = ucast b OR push_bit 8 (le_dec bs)"

definition be_enc :: "nat \<Rightarrow> 'a::len word \<Rightarrow> bytes" where
  "be_enc n w = rev (le_enc n w)"

definition be_dec :: "bytes \<Rightarrow> 'a::len word" where
  "be_dec bs = le_dec (rev bs)"

lemma length_le_enc [simp, codec_simps]: "length (le_enc n w) = n"
  by (induction n arbitrary: w) simp_all

lemma le_enc_2: "le_enc 2 w = [ucast w, ucast (drop_bit 8 w)]"
  by (simp add: numeral_2_eq_2)

lemma length_be_enc [simp, codec_simps]: "length (be_enc n w) = n"
  by (simp add: be_enc_def)

lemma bit_le_dec:
  "bit (le_dec bs :: 'a::len word) k \<longleftrightarrow>
     k < LENGTH('a) \<and> k < 8 * length bs \<and> bit (bs ! (k div 8)) (k mod 8)"
proof (induction bs arbitrary: k)
  case Nil
  show ?case by simp
next
  case (Cons b bs)
  have low: "\<not> bit b k" if "8 \<le> k"
    using that bit_imp_le_length [of b k] by auto
  have hi: "k div 8 = Suc ((k - 8) div 8) \<and> k mod 8 = (k - 8) mod 8" if "8 \<le> k"
    using that by (simp add: div_if [of k 8] mod_if [of k 8])
  show ?case
    by (cases "k < 8")
      (auto simp: bit_or_iff bit_ucast_iff bit_push_bit_iff Cons.IH low hi)
qed

lemma nth_le_enc: "i < n \<Longrightarrow> le_enc n w ! i = ucast (drop_bit (8 * i) w)"
proof (induction n arbitrary: w i)
  case (Suc n)
  then show ?case by (cases i) (simp_all add: drop_bit_drop_bit add.commute)
qed simp

lemma le_dec_enc: "le_dec (le_enc n w) = take_bit (8 * n) (w :: 'a::len word)"
proof (rule bit_eqI)
  fix k
  show "bit (le_dec (le_enc n w) :: 'a word) k = bit (take_bit (8 * n) w) k"
    by (auto simp: bit_le_dec nth_le_enc less_mult_imp_div_less bit_ucast_iff bit_drop_bit_eq
        bit_take_bit_iff mult.commute bit_imp_le_length)
qed

lemma le_enc_dec:
  assumes "8 * length bs \<le> LENGTH('a::len)"
  shows "le_enc (length bs) (le_dec bs :: 'a word) = bs"
proof (rule nth_equalityI)
  fix i
  assume "i < length (le_enc (length bs) (le_dec bs :: 'a word))"
  then have i: "i < length bs" by simp
  have "bit (ucast (drop_bit (8 * i) (le_dec bs :: 'a word)) :: byte) k = bit (bs ! i) k" for k
  proof (cases "k < 8")
    case True
    then have "(8 * i + k) div 8 = i" "(8 * i + k) mod 8 = k" by simp_all
    with True i assms show ?thesis by (simp add: bit_ucast_iff bit_drop_bit_eq bit_le_dec)
  next
    case False
    then show ?thesis using bit_imp_le_length [of _ k] by (fastforce simp: bit_ucast_iff)
  qed
  then have "(ucast (drop_bit (8 * i) (le_dec bs :: 'a word)) :: byte) = bs ! i"
    by (intro bit_eqI) simp
  then show "le_enc (length bs) (le_dec bs :: 'a word) ! i = bs ! i"
    using i by (simp add: nth_le_enc)
qed simp

lemma be_dec_enc: "be_dec (be_enc n w) = take_bit (8 * n) (w :: 'a::len word)"
  by (simp add: be_dec_def be_enc_def le_dec_enc)

lemma be_enc_dec:
  "8 * length bs \<le> LENGTH('a::len) \<Longrightarrow> be_enc (length bs) (be_dec bs :: 'a word) = bs"
  using le_enc_dec [of "rev bs", where 'a = 'a] by (simp add: be_enc_def be_dec_def)

section \<open>Fixed-width codecs\<close>

text \<open>Sequences of fixed-width items, as \<^verbatim>\<open>binary.Write\<close> lays a slice out.\<close>

definition enc_list :: "('a \<Rightarrow> bytes) \<Rightarrow> 'a list \<Rightarrow> bytes" where
  "enc_list enc xs = concat (map enc xs)"

fun dec_list :: "(bytes \<Rightarrow> 'a) \<Rightarrow> nat \<Rightarrow> nat \<Rightarrow> bytes \<Rightarrow> 'a list" where
  "dec_list dec w 0 bs = []"
| "dec_list dec w (Suc n) bs = dec (take w bs) # dec_list dec w n (drop w bs)"

lemma enc_list_simps [simp, codec_simps]:
  "enc_list enc [] = []" "enc_list enc (x # xs) = enc x @ enc_list enc xs"
  "enc_list enc (xs @ ys) = enc_list enc xs @ enc_list enc ys"
  by (simp_all add: enc_list_def)

lemma length_dec_list [simp, codec_simps]: "length (dec_list dec w n bs) = n"
  by (induction n arbitrary: bs) simp_all

text \<open>
  \<^verbatim>\<open>io.ReadFull\<close> and \<^verbatim>\<open>binary.Read\<close> on an in-memory reader: the
  bytes read and the bytes left, or the error the Go library returns when they run out.
\<close>

definition read_exact :: "nat \<Rightarrow> bytes \<Rightarrow> (bytes \<times> bytes) res" where
  "read_exact n src =
     (if n \<le> length src then Ok (take n src, drop n src)
      else if src = [] then Err EOF
      else Err ErrUnexpectedEOF)"

definition read_fixed :: "(bytes \<Rightarrow> 'a) \<Rightarrow> nat \<Rightarrow> bytes \<Rightarrow> ('a \<times> bytes) res" where
  "read_fixed dec w src = bind_res (read_exact w src) (\<lambda>(b, rest). Ok (dec b, rest))"

definition read_list :: "(bytes \<Rightarrow> 'a) \<Rightarrow> nat \<Rightarrow> nat \<Rightarrow> bytes \<Rightarrow> ('a list \<times> bytes) res" where
  "read_list dec w n src =
     bind_res (read_exact (w * n) src) (\<lambda>(b, rest). Ok (dec_list dec w n b, rest))"

lemma read_exact_append [simp, codec_simps]: "length b = n \<Longrightarrow> read_exact n (b @ r) = Ok (b, r)"
  by (simp add: read_exact_def)

lemma read_exact_Ok_iff:
  "read_exact n src = Ok (b, r) \<longleftrightarrow> length b = n \<and> src = b @ r"
  by (auto simp: read_exact_def)

lemma read_exact_short:
  "length src < n \<Longrightarrow> read_exact n src = Err (if src = [] then EOF else ErrUnexpectedEOF)"
  by (simp add: read_exact_def)

lemma read_exact_not_Panic [simp]: "read_exact n src \<noteq> Panic p"
  by (simp add: read_exact_def)

lemma read_fixed_Ok_iff:
  "read_fixed dec w src = Ok (x, r) \<longleftrightarrow> (\<exists>b. length b = w \<and> src = b @ r \<and> x = dec b)"
  by (auto simp: read_fixed_def bind_res_Ok_iff read_exact_Ok_iff split: prod.splits)

lemma read_fixed_not_Panic [simp]: "read_fixed dec w src \<noteq> Panic p"
  by (auto simp: read_fixed_def bind_res_Panic_iff split: prod.splits)

lemma read_list_not_Panic [simp]: "read_list dec w n src \<noteq> Panic p"
  by (auto simp: read_list_def bind_res_Panic_iff split: prod.splits)

text \<open>
  \<open>valid\<close> is what Go's types guarantee of the value (an array of eight bytes has eight
  elements, an \<^verbatim>\<open>int64\<close> is in range).
\<close>

locale fixed_codec =
  fixes enc :: "'a \<Rightarrow> bytes" and dec :: "bytes \<Rightarrow> 'a" and width :: nat and valid :: "'a \<Rightarrow> bool"
  assumes length_enc: "valid x \<Longrightarrow> length (enc x) = width"
    and dec_enc: "valid x \<Longrightarrow> dec (enc x) = x"
    and valid_dec: "length bs = width \<Longrightarrow> valid (dec bs)"
begin

lemma enc_inject: "valid x \<Longrightarrow> valid y \<Longrightarrow> enc x = enc y \<longleftrightarrow> x = y"
  using dec_enc by metis

lemma read_fixed_enc: "valid x \<Longrightarrow> read_fixed dec width (enc x @ r) = Ok (x, r)"
  by (simp add: read_fixed_def length_enc dec_enc)

lemma read_fixed_valid: "read_fixed dec width src = Ok (x, r) \<Longrightarrow> valid x"
  by (auto simp: read_fixed_Ok_iff valid_dec)

lemma length_enc_list: "list_all valid xs \<Longrightarrow> length (enc_list enc xs) = width * length xs"
  by (induction xs) (simp_all add: length_enc)

lemma dec_list_enc_list:
  "list_all valid xs \<Longrightarrow> dec_list dec width (length xs) (enc_list enc xs @ r) = xs"
  by (induction xs) (simp_all add: length_enc dec_enc)

lemma dec_list_enc:
  "list_all valid xs \<Longrightarrow> n = length xs \<Longrightarrow> dec_list dec width n (enc_list enc xs) = xs"
  using dec_list_enc_list [of xs "[]"] by simp

lemma read_list_enc:
  "list_all valid xs \<Longrightarrow> n = length xs \<Longrightarrow> read_list dec width n (enc_list enc xs @ r) = Ok (xs, r)"
  by (simp add: read_list_def length_enc_list dec_list_enc)

end

locale exact_codec = fixed_codec +
  assumes enc_dec: "length bs = width \<Longrightarrow> enc (dec bs) = bs"
begin

lemma dec_inject: "length a = width \<Longrightarrow> length b = width \<Longrightarrow> dec a = dec b \<longleftrightarrow> a = b"
  using enc_dec by metis

lemma read_fixed_Ok_enc: "read_fixed dec width src = Ok (x, r) \<longleftrightarrow> valid x \<and> src = enc x @ r"
  by (auto simp: read_fixed_Ok_iff enc_dec length_enc dec_enc valid_dec)

lemma enc_list_dec_list: "length bs = width * n \<Longrightarrow> enc_list enc (dec_list dec width n bs) = bs"
proof (induction n arbitrary: bs)
  case (Suc n)
  then have "enc_list enc (dec_list dec width n (drop width bs)) = drop width bs" by simp
  with Suc.prems show ?case by (simp add: enc_dec)
qed simp

end

abbreviation (input) any_value :: "'a \<Rightarrow> bool" where
  "any_value \<equiv> \<lambda>_. True"

lemma le_exact_codec:
  assumes "8 * n = LENGTH('a::len)"
  shows "exact_codec (le_enc n :: 'a word \<Rightarrow> bytes) le_dec n any_value"
proof
  show "le_dec (le_enc n x) = x" for x :: "'a word"
    by (simp add: le_dec_enc assms take_bit_word_eq_self)
  show "le_enc n (le_dec bs :: 'a word) = bs" if "length bs = n" for bs
    using le_enc_dec [of bs, where 'a = 'a] that assms by simp
qed simp_all

lemma be_exact_codec:
  assumes "8 * n = LENGTH('a::len)"
  shows "exact_codec (be_enc n :: 'a word \<Rightarrow> bytes) be_dec n any_value"
proof
  show "be_dec (be_enc n x) = x" for x :: "'a word"
    by (simp add: be_dec_enc assms take_bit_word_eq_self)
  show "be_enc n (be_dec bs :: 'a word) = bs" if "length bs = n" for bs
    using be_enc_dec [of bs, where 'a = 'a] that assms by simp
qed simp_all

interpretation le16: exact_codec "le_enc 2 :: u16 \<Rightarrow> bytes" le_dec 2 any_value
  by (rule le_exact_codec) simp

interpretation le32: exact_codec "le_enc 4 :: u32 \<Rightarrow> bytes" le_dec 4 any_value
  by (rule le_exact_codec) simp

interpretation le64: exact_codec "le_enc 8 :: u64 \<Rightarrow> bytes" le_dec 8 any_value
  by (rule le_exact_codec) simp

interpretation be16: exact_codec "be_enc 2 :: u16 \<Rightarrow> bytes" be_dec 2 any_value
  by (rule be_exact_codec) simp

interpretation be32: exact_codec "be_enc 4 :: u32 \<Rightarrow> bytes" be_dec 4 any_value
  by (rule be_exact_codec) simp

lemmas le_dec_enc_simps [simp, codec_simps] =
  le16.dec_enc [OF TrueI] le32.dec_enc [OF TrueI] le64.dec_enc [OF TrueI]
  be16.dec_enc [OF TrueI] be32.dec_enc [OF TrueI]

lemmas enc_dec_simps =
  le16.enc_dec le32.enc_dec le64.enc_dec be16.enc_dec be32.enc_dec

text \<open>A 64-bit signed field (\<^verbatim>\<open>int64\<close>) travels as its two's complement word.\<close>

definition i64_enc :: "int \<Rightarrow> bytes" where
  "i64_enc x = le_enc 8 (word_of_int x :: u64)"

definition i64_dec :: "bytes \<Rightarrow> int" where
  "i64_dec b = sint (le_dec b :: u64)"

lemma length_i64_enc [simp, codec_simps]: "length (i64_enc x) = 8"
  by (simp add: i64_enc_def)

lemma i64_dec_enc [simp, codec_simps]:
  "- (2 ^ 63) \<le> x \<Longrightarrow> x < 2 ^ 63 \<Longrightarrow> i64_dec (i64_enc x) = x"
  by (simp add: i64_dec_def i64_enc_def)

lemma i64_enc_dec: "length b = 8 \<Longrightarrow> i64_enc (i64_dec b) = b"
  by (simp add: i64_dec_def i64_enc_def le64.enc_dec)

definition int64_ok :: "int \<Rightarrow> bool" where
  "int64_ok x \<longleftrightarrow> - (2 ^ 63) \<le> x \<and> x < 2 ^ 63"

lemma int64_ok_sint [simp]: "int64_ok (sint (w :: u64))"
  using sint_range_size [of w] by (simp add: int64_ok_def word_size)

lemma int64_ok_i64_dec [simp]: "int64_ok (i64_dec b)"
  by (simp add: i64_dec_def)

interpretation i64: exact_codec i64_enc i64_dec 8 int64_ok
proof
  show "i64_dec (i64_enc x) = x" if "int64_ok x" for x
    using that unfolding int64_ok_def by (intro i64_dec_enc) auto
qed (simp_all add: i64_enc_dec)

end
