(* ===== verification/Go_Strconv.thy ===== *)
theory Go_Strconv
  imports Go_Prelude
begin

text \<open>
  The parts of \<^verbatim>\<open>strconv\<close>, \<^verbatim>\<open>fmt\<close> and \<^verbatim>\<open>strings\<close> the
  library calls: hexadecimal and decimal formatting and parsing of integers, prefixes and
  suffixes. The lemmas say that parsing inverts formatting and accepts nothing else.
\<close>

section \<open>Hexadecimal\<close>

definition hex_digit :: "nat \<Rightarrow> byte" where
  "hex_digit d = of_nat (if d < 10 then 48 + d else 87 + d)"

text \<open>\<^verbatim>\<open>%0nx\<close> of a value below \<open>16 ^ n\<close>.\<close>

fun hexn :: "nat \<Rightarrow> nat \<Rightarrow> bytes" where
  "hexn 0 v = []"
| "hexn (Suc n) v = hexn n (v div 16) @ [hex_digit (v mod 16)]"

text \<open>\<^verbatim>\<open>%x\<close> of a byte slice.\<close>

definition hex_bytes :: "bytes \<Rightarrow> bytes" where
  "hex_bytes bs = concat (map (\<lambda>b. hexn 2 (unat b)) bs)"

definition ascii_lower :: "byte \<Rightarrow> byte" where
  "ascii_lower c = (if 65 \<le> c \<and> c \<le> 90 then c + 32 else c)"

definition hex_val :: "byte \<Rightarrow> nat option" where
  "hex_val c =
     (if 48 \<le> c \<and> c \<le> 57 then Some (unat c - 48)
      else if 97 \<le> c \<and> c \<le> 102 then Some (unat c - 87)
      else if 65 \<le> c \<and> c \<le> 70 then Some (unat c - 55)
      else None)"

fun hex_acc :: "nat \<Rightarrow> bytes \<Rightarrow> nat option" where
  "hex_acc a [] = Some a"
| "hex_acc a (c # cs) = (case hex_val c of None \<Rightarrow> None | Some d \<Rightarrow> hex_acc (16 * a + d) cs)"

text \<open>\<^verbatim>\<open>strconv.ParseUint(s, 16, bits)\<close>: no sign, no separators, range checked.\<close>

definition ParseUint16 :: "nat \<Rightarrow> bytes \<Rightarrow> nat option" where
  "ParseUint16 bits s =
     (if s = [] then None
      else case hex_acc 0 s of None \<Rightarrow> None | Some v \<Rightarrow> if v < 2 ^ bits then Some v else None)"

lemma length_hexn [simp]: "length (hexn n v) = n"
  by (induction n arbitrary: v) simp_all

lemma unat_hex_digit: "d < 16 \<Longrightarrow> unat (hex_digit d) = (if d < 10 then 48 + d else 87 + d)"
  by (simp add: hex_digit_def unat_of_nat)

lemma unat_ascii_lower: "unat (ascii_lower c) = (if 65 \<le> unat c \<and> unat c \<le> 90 then unat c + 32 else unat c)"
  by (auto simp: ascii_lower_def word_le_nat_alt unat_word_ariths)

lemma hex_val_iff: "hex_val c = Some d \<longleftrightarrow> d < 16 \<and> ascii_lower c = hex_digit d"
proof (cases "d < 16")
  case True
  then have "ascii_lower c = hex_digit d \<longleftrightarrow>
      (if 65 \<le> unat c \<and> unat c \<le> 90 then unat c + 32 else unat c) =
      (if d < 10 then 48 + d else 87 + d)"
    by (simp add: word_unat_eq_iff unat_ascii_lower unat_hex_digit)
  with True show ?thesis by (auto simp: hex_val_def word_le_nat_alt split: if_splits)
next
  case False
  then show ?thesis by (auto simp: hex_val_def word_le_nat_alt)
qed

lemma hex_val_less: "hex_val c = Some d \<Longrightarrow> d < 16"
  by (simp add: hex_val_iff)

lemma hex_acc_snoc:
  "hex_acc a (s @ [c]) =
     (case hex_acc a s of None \<Rightarrow> None
      | Some v \<Rightarrow> (case hex_val c of None \<Rightarrow> None | Some d \<Rightarrow> Some (16 * v + d)))"
  by (induction s arbitrary: a) (auto split: option.splits)

lemma hex_acc_iff: "hex_acc 0 s = Some v \<longleftrightarrow> map ascii_lower s = hexn (length s) v \<and> v < 16 ^ length s"
proof (induction s arbitrary: v rule: rev_induct)
  case (snoc c s)
  have "hex_acc 0 (s @ [c]) = Some v \<longleftrightarrow>
      (\<exists>u d. hex_acc 0 s = Some u \<and> hex_val c = Some d \<and> v = 16 * u + d)"
    by (auto simp: hex_acc_snoc split: option.splits)
  also have "\<dots> \<longleftrightarrow> hex_acc 0 s = Some (v div 16) \<and> hex_val c = Some (v mod 16)"
    using hex_val_less by (fastforce intro: exI [of _ "v div 16"] exI [of _ "v mod 16"])
  also have "\<dots> \<longleftrightarrow> map ascii_lower (s @ [c]) = hexn (length (s @ [c])) v \<and> v < 16 ^ length (s @ [c])"
    by (auto simp: snoc.IH hex_val_iff div_less_iff_less_mult)
  finally show ?case .
qed auto

lemma ParseUint16_iff:
  "s \<noteq> [] \<Longrightarrow> 4 * length s \<le> bits \<Longrightarrow>
    ParseUint16 bits s = Some v \<longleftrightarrow> map ascii_lower s = hexn (length s) v \<and> v < 16 ^ length s"
proof -
  assume "s \<noteq> []" and "4 * length s \<le> bits"
  then have "(16::nat) ^ length s \<le> 2 ^ bits"
    using power_increasing [of "4 * length s" bits "2::nat"] by (simp add: power_mult)
  then have "hex_acc 0 s = Some v \<longleftrightarrow> ParseUint16 bits s = Some v"
    using \<open>s \<noteq> []\<close> hex_acc_iff [of s v]
    by (auto simp: ParseUint16_def split: option.splits if_splits)
  then show ?thesis using hex_acc_iff by simp
qed

lemma hexn_inject: "u < 16 ^ n \<Longrightarrow> v < 16 ^ n \<Longrightarrow> hexn n u = hexn n v \<longleftrightarrow> u = v"
proof (induction n arbitrary: u v)
  case (Suc n)
  have d: "hex_digit (u mod 16) = hex_digit (v mod 16) \<longleftrightarrow> u mod 16 = v mod 16"
    using hex_val_iff [of _ "u mod 16"] hex_val_iff [of _ "v mod 16"] unat_hex_digit
    by (auto dest!: arg_cong [of _ _ unat] simp: split: if_splits)
  have "u div 16 < 16 ^ n" "v div 16 < 16 ^ n" using Suc.prems by (simp_all add: div_less_iff_less_mult)
  then show ?case using Suc.IH d by (auto) (metis div_mult_mod_eq)
qed simp

section \<open>Decimal\<close>

text \<open>\<^verbatim>\<open>strconv.FormatUint(n, 10)\<close>.\<close>

fun FormatUint :: "nat \<Rightarrow> bytes" where
  "FormatUint n = (if n < 10 then [of_nat (48 + n)] else FormatUint (n div 10) @ [of_nat (48 + n mod 10)])"

declare FormatUint.simps [simp del]

definition FormatInt :: "int \<Rightarrow> bytes" where
  "FormatInt x = (if x < 0 then 45 # FormatUint (nat (- x)) else FormatUint (nat x))"

section \<open>Prefixes and suffixes\<close>

definition HasPrefix :: "gostring \<Rightarrow> gostring \<Rightarrow> bool" where
  "HasPrefix s p \<longleftrightarrow> length p \<le> length s \<and> take (length p) s = p"

definition HasSuffix :: "gostring \<Rightarrow> gostring \<Rightarrow> bool" where
  "HasSuffix s p \<longleftrightarrow> length p \<le> length s \<and> drop (length s - length p) s = p"

lemma HasPrefix_iff: "HasPrefix s p \<longleftrightarrow> (\<exists>r. s = p @ r)"
  by (auto simp: HasPrefix_def) (metis append_take_drop_id)

lemma HasPrefix_append [simp]: "HasPrefix (p @ r) p"
  by (simp add: HasPrefix_def)

end
