(* ===== verification/Guid.thy ===== *)
theory Guid
  imports Go_Strconv
begin

text \<open>
  Package \<^verbatim>\<open>guid\<close> (\<^verbatim>\<open>src/pkg/guid\<close>): the GUID record, its big-endian and
  Windows (mixed-endian) encodings, its text form, its variant and version bits, and the
  constructors \<^verbatim>\<open>NewV4\<close> and \<^verbatim>\<open>NewV5\<close>. Randomness and SHA-1 are
  parameters of the model.
\<close>

section \<open>The record and its binary encodings\<close>

record GUID =
  Data1 :: u32
  Data2 :: u16
  Data3 :: u16
  Data4 :: bytes

text \<open>\<^verbatim>\<open>Data4\<close> is the Go array \<^verbatim>\<open>[8]byte\<close>.\<close>

definition guid_ok :: "GUID \<Rightarrow> bool" where
  "guid_ok g \<longleftrightarrow> length (Data4 g) = 8"

definition zero_guid :: GUID where
  "zero_guid = \<lparr>Data1 = 0, Data2 = 0, Data3 = 0, Data4 = replicate 8 0\<rparr>"

datatype ByteOrder = BigEndian | LittleEndian

fun PutUint32 :: "ByteOrder \<Rightarrow> u32 \<Rightarrow> bytes" where
  "PutUint32 BigEndian w = be_enc 4 w"
| "PutUint32 LittleEndian w = le_enc 4 w"

fun PutUint16 :: "ByteOrder \<Rightarrow> u16 \<Rightarrow> bytes" where
  "PutUint16 BigEndian w = be_enc 2 w"
| "PutUint16 LittleEndian w = le_enc 2 w"

fun Uint32 :: "ByteOrder \<Rightarrow> bytes \<Rightarrow> u32" where
  "Uint32 BigEndian b = be_dec b"
| "Uint32 LittleEndian b = le_dec b"

fun Uint16 :: "ByteOrder \<Rightarrow> bytes \<Rightarrow> u16" where
  "Uint16 BigEndian b = be_dec b"
| "Uint16 LittleEndian b = le_dec b"

definition fromArray :: "bytes \<Rightarrow> ByteOrder \<Rightarrow> GUID" where
  "fromArray b order =
     \<lparr>Data1 = Uint32 order (take 4 b),
      Data2 = Uint16 order (take 2 (drop 4 b)),
      Data3 = Uint16 order (take 2 (drop 6 b)),
      Data4 = take 8 (drop 8 b)\<rparr>"

definition toArray :: "GUID \<Rightarrow> ByteOrder \<Rightarrow> bytes" where
  "toArray g order =
     PutUint32 order (Data1 g) @ PutUint16 order (Data2 g) @ PutUint16 order (Data3 g) @ Data4 g"

definition FromArray :: "bytes \<Rightarrow> GUID" where
  "FromArray b = fromArray b BigEndian"

definition ToArray :: "GUID \<Rightarrow> bytes" where
  "ToArray g = toArray g BigEndian"

definition FromWindowsArray :: "bytes \<Rightarrow> GUID" where
  "FromWindowsArray b = fromArray b LittleEndian"

definition ToWindowsArray :: "GUID \<Rightarrow> bytes" where
  "ToWindowsArray g = toArray g LittleEndian"

section \<open>Text form\<close>

definition GUID_String :: "GUID \<Rightarrow> gostring" where
  "GUID_String g =
     hexn 8 (unat (Data1 g)) @ [45] @ hexn 4 (unat (Data2 g)) @ [45] @
     hexn 4 (unat (Data3 g)) @ [45] @ hex_bytes (take 2 (Data4 g)) @ [45] @
     hex_bytes (drop 2 (Data4 g))"

definition invalid_guid :: go_error where
  "invalid_guid = ErrNew ''invalid GUID''"

text \<open>The loop over the eight offsets that fill \<^verbatim>\<open>Data4\<close>.\<close>

fun parse_data4 :: "gostring \<Rightarrow> nat list \<Rightarrow> bytes res" where
  "parse_data4 s [] = Ok []"
| "parse_data4 s (x # xs) =
     (case ParseUint16 8 (take 2 (drop x s)) of
        None \<Rightarrow> Err invalid_guid
      | Some v \<Rightarrow> bind_res (parse_data4 s xs) (\<lambda>vs. Ok (of_nat v # vs)))"

definition FromString :: "gostring \<Rightarrow> GUID res" where
  "FromString s =
     (if length s \<noteq> 36 then Err invalid_guid
      else if s ! 8 \<noteq> 45 \<or> s ! 13 \<noteq> 45 \<or> s ! 18 \<noteq> 45 \<or> s ! 23 \<noteq> 45 then Err invalid_guid
      else case ParseUint16 32 (take 8 s) of None \<Rightarrow> Err invalid_guid
      | Some data1 \<Rightarrow> (case ParseUint16 16 (take 4 (drop 9 s)) of None \<Rightarrow> Err invalid_guid
      | Some data2 \<Rightarrow> (case ParseUint16 16 (take 4 (drop 14 s)) of None \<Rightarrow> Err invalid_guid
      | Some data3 \<Rightarrow> bind_res (parse_data4 s [19, 21, 24, 26, 28, 30, 32, 34])
          (\<lambda>data4. Ok \<lparr>Data1 = of_nat data1, Data2 = of_nat data2, Data3 = of_nat data3,
                       Data4 = data4\<rparr>))))"

definition MarshalText :: "GUID \<Rightarrow> bytes res" where
  "MarshalText g = Ok (GUID_String g)"

text \<open>The receiver after the call, and the error returned.\<close>

definition UnmarshalText :: "GUID \<Rightarrow> bytes \<Rightarrow> (GUID \<times> go_error option) res" where
  "UnmarshalText g text =
     (case FromString text of
        Ok g2 \<Rightarrow> Ok (g2, None)
      | Err e \<Rightarrow> Ok (g, Some e)
      | Panic p \<Rightarrow> Panic p)"

section \<open>Variant and version\<close>

type_synonym Variant = byte
type_synonym Version = byte

definition VariantUnknown :: Variant where "VariantUnknown = 0"
definition VariantNCS :: Variant where "VariantNCS = 1"
definition VariantRFC4122 :: Variant where "VariantRFC4122 = 2"
definition VariantMicrosoft :: Variant where "VariantMicrosoft = 3"
definition VariantFuture :: Variant where "VariantFuture = 4"

lemmas variant_defs =
  VariantUnknown_def VariantNCS_def VariantRFC4122_def VariantMicrosoft_def VariantFuture_def

definition setVariant :: "GUID \<Rightarrow> Variant \<Rightarrow> GUID res" where
  "setVariant g v =
     bind_res (index (Data4 g) 0) (\<lambda>d.
     bind_res
       (if v = VariantNCS then Ok (d AND 0x7f)
        else if v = VariantRFC4122 then Ok ((d AND 0x3f) OR 0x80)
        else if v = VariantMicrosoft then Ok ((d AND 0x1f) OR 0xc0)
        else if v = VariantFuture then Ok ((d AND 0x0f) OR 0xe0)
        else Panic ''invalid variant'')
       (\<lambda>d. Ok (g\<lparr>Data4 := (Data4 g)[0 := d]\<rparr>)))"

definition GUID_Variant :: "GUID \<Rightarrow> Variant" where
  "GUID_Variant g =
     (let b = Data4 g ! 0 in
      if b AND 0x80 = 0 then VariantNCS
      else if b AND 0xc0 = 0x80 then VariantRFC4122
      else if b AND 0xe0 = 0xc0 then VariantMicrosoft
      else if b AND 0xe0 = 0xe0 then VariantFuture
      else VariantUnknown)"

definition setVersion :: "GUID \<Rightarrow> Version \<Rightarrow> GUID" where
  "setVersion g v = g\<lparr>Data3 := (Data3 g AND 0x0fff) OR push_bit 12 (ucast v)\<rparr>"

definition GUID_Version :: "GUID \<Rightarrow> Version" where
  "GUID_Version g = ucast (drop_bit 12 (Data3 g AND 0xF000))"

definition Version_String :: "Version \<Rightarrow> gostring" where
  "Version_String v = FormatUint (unat v)"

definition Variant_name :: gostring where
  "Variant_name = bs_of ''UnknownNCSRFC 4122MicrosoftFuture''"

definition Variant_index :: "nat list" where
  "Variant_index = [0, 7, 10, 18, 27, 33]"

definition Variant_String :: "Variant \<Rightarrow> gostring" where
  "Variant_String i =
     (if of_nat (length Variant_index - 1) \<le> i
      then bs_of ''Variant('' @ FormatInt (uint i) @ bs_of '')''
      else take (Variant_index ! (unat i + 1) - Variant_index ! unat i)
             (drop (Variant_index ! unat i) Variant_name))"

section \<open>Constructors\<close>

text \<open>\<open>rand\<close> is what \<^verbatim>\<open>rand.Read\<close> returned for a 16-byte buffer.\<close>

definition NewV4 :: "bytes res \<Rightarrow> GUID res" where
  "NewV4 rand = bind_res rand (\<lambda>b. setVariant (setVersion (FromArray b) 4) VariantRFC4122)"

text \<open>\<^verbatim>\<open>copy(a[:], src)\<close> into an array of \<open>n\<close> zero bytes.\<close>

definition copy_into :: "nat \<Rightarrow> bytes \<Rightarrow> bytes" where
  "copy_into n src = take n (src @ replicate n 0)"

definition NewV5 :: "(bytes \<Rightarrow> bytes) \<Rightarrow> GUID \<Rightarrow> bytes \<Rightarrow> GUID res" where
  "NewV5 sha1 namespace name =
     (let a = copy_into 16 (sha1 (ToArray namespace @ name))
      in setVariant (setVersion (FromArray a) 5) VariantRFC4122)"

section \<open>The encodings are inverse bijections\<close>

lemma length_Put [simp, codec_simps]:
  "length (PutUint32 order w) = 4" "length (PutUint16 order v) = 2"
  by (cases order; simp)+

lemma Uint_Put [simp, codec_simps]:
  "Uint32 order (PutUint32 order w) = w" "Uint16 order (PutUint16 order v) = v"
  by (cases order; simp)+

lemma Put_Uint:
  "length b = 4 \<Longrightarrow> PutUint32 order (Uint32 order b) = b"
  "length c = 2 \<Longrightarrow> PutUint16 order (Uint16 order c) = c"
  by (cases order; simp add: enc_dec_simps)+

lemma guid_exact_codec: "exact_codec (\<lambda>g. toArray g order) (\<lambda>b. fromArray b order) 16 guid_ok"
proof
  show "fromArray (toArray g order) order = g" if "guid_ok g" for g
    using that by (simp add: fromArray_def toArray_def guid_ok_def)
  show "toArray (fromArray b order) order = b" if "length b = 16" for b
  proof -
    have "b = take 4 b @ take 2 (drop 4 b) @ take 2 (drop 6 b) @ take 8 (drop 8 b)"
      using that append_take_drop_id [of 4 b] append_take_drop_id [of 2 "drop 4 b"]
        append_take_drop_id [of 2 "drop 6 b"] by simp
    with that show ?thesis by (simp add: fromArray_def toArray_def Put_Uint)
  qed
qed (simp_all add: toArray_def fromArray_def guid_ok_def)

interpretation guid_be: exact_codec ToArray FromArray 16 guid_ok
  using guid_exact_codec [of BigEndian] by (simp add: ToArray_def [abs_def] FromArray_def [abs_def])

interpretation guid_le: exact_codec ToWindowsArray FromWindowsArray 16 guid_ok
  using guid_exact_codec [of LittleEndian]
  by (simp add: ToWindowsArray_def [abs_def] FromWindowsArray_def [abs_def])

section \<open>Parsing accepts exactly the printed form, in either case\<close>

lemma parse_data4_Ok_iff:
  "list_all (\<lambda>x. x + 2 \<le> length s) xs \<Longrightarrow>
    parse_data4 s xs = Ok d \<longleftrightarrow>
      length d = length xs \<and>
      list_all2 (\<lambda>x b. map ascii_lower (take 2 (drop x s)) = hexn 2 (unat b)) xs d"
proof (induction xs arbitrary: d)
  case (Cons x xs)
  have len: "length (take 2 (drop x s)) = 2" using Cons.prems by (auto simp: min_def)
  have P: "ParseUint16 8 (take 2 (drop x s)) = Some v \<longleftrightarrow>
      map ascii_lower (take 2 (drop x s)) = hexn 2 v \<and> v < 256" for v
    using ParseUint16_iff [of "take 2 (drop x s)" 8 v] len by fastforce
  have "parse_data4 s (x # xs) = Ok d \<longleftrightarrow>
      (\<exists>v vs. ParseUint16 8 (take 2 (drop x s)) = Some v \<and> parse_data4 s xs = Ok vs \<and> d = of_nat v # vs)"
    by (auto simp: bind_res_Ok_iff split: option.splits)
  also have "\<dots> \<longleftrightarrow> (\<exists>b vs. map ascii_lower (take 2 (drop x s)) = hexn 2 (unat (b :: byte))
      \<and> parse_data4 s xs = Ok vs \<and> d = b # vs)" (is "?l \<longleftrightarrow> ?r")
  proof
    assume ?l
    then obtain v vs where "map ascii_lower (take 2 (drop x s)) = hexn 2 v" "v < 256"
      "parse_data4 s xs = Ok vs" "d = of_nat v # vs" using P by auto
    then show ?r by (intro exI [of _ "of_nat v"] exI [of _ vs]) (simp add: unat_of_nat)
  next
    assume ?r
    then obtain b vs where "map ascii_lower (take 2 (drop x s)) = hexn 2 (unat (b :: byte))"
      "parse_data4 s xs = Ok vs" "d = b # vs" by auto
    then show ?l using P [of "unat b"] unsigned_less [of b, where 'a = nat]
      by (intro exI [of _ "unat b"] exI [of _ vs]) simp
  qed
  also have "\<dots> \<longleftrightarrow> length d = length (x # xs) \<and>
      list_all2 (\<lambda>x b. map ascii_lower (take 2 (drop x s)) = hexn 2 (unat b)) (x # xs) d"
    using Cons by (cases d) auto
  finally show ?case .
qed auto

lemma parse_data4_length: "parse_data4 s xs = Ok d \<Longrightarrow> length d = length xs"
  by (induction xs arbitrary: d) (auto simp: bind_res_Ok_iff split: option.splits)

lemma FromString_guid_ok: "FromString s = Ok g \<Longrightarrow> guid_ok g"
  by (auto simp: FromString_def guid_ok_def bind_res_Ok_iff simp del: parse_data4.simps
      dest: parse_data4_length split: if_splits option.splits)

lemma ascii_lower_dash [simp]: "ascii_lower c = 45 \<longleftrightarrow> c = 45"
proof -
  have "ascii_lower c = 45 \<longleftrightarrow> unat (ascii_lower c) = 45" by (simp add: word_unat_eq_iff)
  then show ?thesis by (auto simp: unat_ascii_lower word_unat_eq_iff)
qed

lemma guid_text_split:
  assumes "length s = 36"
  shows "s = take 8 s @ [s ! 8] @ take 4 (drop 9 s) @ [s ! 13] @ take 4 (drop 14 s) @ [s ! 18] @
    take 2 (drop 19 s) @ take 2 (drop 21 s) @ [s ! 23] @ take 2 (drop 24 s) @ take 2 (drop 26 s) @
    take 2 (drop 28 s) @ take 2 (drop 30 s) @ take 2 (drop 32 s) @ take 2 (drop 34 s)"
proof -
  note nd = Cons_nth_drop_Suc [symmetric]
  have "s = take 8 s @ drop 8 s" by simp
  also have "drop 8 s = [s ! 8] @ take 4 (drop 9 s) @ drop 13 s"
    using assms append_take_drop_id [of 4 "drop 9 s"] by (simp add: nd [of 8 s])
  also have "drop 13 s = [s ! 13] @ take 4 (drop 14 s) @ drop 18 s"
    using assms append_take_drop_id [of 4 "drop 14 s"] by (simp add: nd [of 13 s])
  also have "drop 18 s = [s ! 18] @ take 2 (drop 19 s) @ drop 21 s"
    using assms append_take_drop_id [of 2 "drop 19 s"] by (simp add: nd [of 18 s])
  also have "drop 21 s = take 2 (drop 21 s) @ drop 23 s"
    using append_take_drop_id [of 2 "drop 21 s"] by simp
  also have "drop 23 s = [s ! 23] @ take 2 (drop 24 s) @ drop 26 s"
    using assms append_take_drop_id [of 2 "drop 24 s"] by (simp add: nd [of 23 s])
  also have "drop 26 s = take 2 (drop 26 s) @ take 2 (drop 28 s) @ drop 30 s"
    using append_take_drop_id [of 2 "drop 26 s"] append_take_drop_id [of 2 "drop 28 s"] by simp
  also have "drop 30 s = take 2 (drop 30 s) @ take 2 (drop 32 s) @ take 2 (drop 34 s)"
    using append_take_drop_id [of 2 "drop 30 s"] append_take_drop_id [of 2 "drop 32 s"] assms by simp
  finally show ?thesis .
qed

lemma GUID_String_pieces:
  assumes "Data4 g = [d0, d1, d2, d3, d4, d5, d6, d7]"
  shows "GUID_String g = hexn 8 (unat (Data1 g)) @ [45] @ hexn 4 (unat (Data2 g)) @ [45] @
    hexn 4 (unat (Data3 g)) @ [45] @ hexn 2 (unat d0) @ hexn 2 (unat d1) @ [45] @
    hexn 2 (unat d2) @ hexn 2 (unat d3) @ hexn 2 (unat d4) @ hexn 2 (unat d5) @
    hexn 2 (unat d6) @ hexn 2 (unat d7)"
  using assms by (simp add: GUID_String_def hex_bytes_def del: hexn.simps)

lemma append_pieces_eq:
  "length a = length a' \<Longrightarrow> a @ r = a' @ r' \<longleftrightarrow> a = a' \<and> r = r'"
  by simp

lemma guid_ok_pieces:
  "guid_ok g \<Longrightarrow> \<exists>d0 d1 d2 d3 d4 d5 d6 d7. Data4 g = [d0, d1, d2, d3, d4, d5, d6, d7]"
proof -
  assume "guid_ok g"
  then have "Data4 g = [Data4 g ! 0, Data4 g ! 1, Data4 g ! 2, Data4 g ! 3,
      Data4 g ! 4, Data4 g ! 5, Data4 g ! 6, Data4 g ! 7]"
    by (simp add: guid_ok_def list_eq_iff_nth_eq eval_nat_numeral less_Suc_eq)
  then show ?thesis by blast
qed

lemma FromString_Ok_iff:
  assumes "length s = 36"
  shows "FromString s = Ok g \<longleftrightarrow>
    s ! 8 = 45 \<and> s ! 13 = 45 \<and> s ! 18 = 45 \<and> s ! 23 = 45 \<and>
    map ascii_lower (take 8 s) = hexn 8 (unat (Data1 g)) \<and>
    map ascii_lower (take 4 (drop 9 s)) = hexn 4 (unat (Data2 g)) \<and>
    map ascii_lower (take 4 (drop 14 s)) = hexn 4 (unat (Data3 g)) \<and>
    parse_data4 s [19, 21, 24, 26, 28, 30, 32, 34] = Ok (Data4 g)"
proof -
  have P: "(\<exists>v. ParseUint16 LENGTH('a) u = Some v \<and> of_nat v = (w :: 'a::len word)) \<longleftrightarrow>
      map ascii_lower u = hexn (length u) (unat w)"
    if "u \<noteq> []" "4 * length u = LENGTH('a)" for u and w :: "'a::len word"
  proof -
    have b: "(16::nat) ^ length u = 2 ^ LENGTH('a)" using that(2) by (simp flip: that(2) add: power_mult)
    have "ParseUint16 LENGTH('a) u = Some v \<longleftrightarrow> map ascii_lower u = hexn (length u) v \<and> v < 2 ^ LENGTH('a)" for v
      using ParseUint16_iff [of u "LENGTH('a)" v] that b by simp
    moreover have "unat (of_nat v :: 'a word) = v" if "v < 2 ^ LENGTH('a)" for v
      using that by (simp add: unat_of_nat)
    ultimately show ?thesis
      using unsigned_less [of w, where 'a = nat] by (metis of_nat_unat ucast_id)
  qed
  have P1: "(\<exists>v. ParseUint16 32 (take 8 s) = Some v \<and> of_nat v = Data1 g) \<longleftrightarrow>
      map ascii_lower (take 8 s) = hexn 8 (unat (Data1 g))"
    using P [of "take 8 s" "Data1 g"] assms by fastforce
  have P2: "(\<exists>v. ParseUint16 16 (take 4 (drop i s)) = Some v \<and> of_nat v = w) \<longleftrightarrow>
      map ascii_lower (take 4 (drop i s)) = hexn 4 (unat w)" if "i \<le> 32" for i and w :: u16
    using P [of "take 4 (drop i s)" w] assms that by fastforce
  show ?thesis
    unfolding FromString_def
    using assms P1 P2 [of 9 "Data2 g"] P2 [of 14 "Data3 g"]
    by (cases g) (auto simp: bind_res_Ok_iff simp del: hexn.simps parse_data4.simps split: option.splits)
qed

text \<open>
  C2: Parsing a GUID accepts exactly its printed form, up to the case of the hexadecimal
  digits, and returns the GUID that prints so: \<^verbatim>\<open>FromString(s)\<close> succeeds with
  \<open>g\<close> if and only if \<open>s\<close> in lower case is \<^verbatim>\<open>g.String()\<close>. In particular
  every other string is refused and parsing inverts printing.
\<close>

theorem FromString_iff_String:
  "FromString s = Ok g \<longleftrightarrow> guid_ok g \<and> map ascii_lower s = GUID_String g"
proof (cases "length s = 36 \<and> guid_ok g")
  case False
  have "length (GUID_String g) = 36" if "guid_ok g"
    using guid_ok_pieces [OF that] GUID_String_pieces by fastforce
  moreover have "guid_ok g" if "FromString s = Ok g"
    using that by (rule FromString_guid_ok)
  ultimately show ?thesis using False by (metis FromString_def length_map res.distinct(1))
next
  case True
  then obtain d0 d1 d2 d3 d4 d5 d6 d7 where d: "Data4 g = [d0, d1, d2, d3, d4, d5, d6, d7]"
    using guid_ok_pieces by blast
  have "map ascii_lower s = GUID_String g \<longleftrightarrow>
      map ascii_lower (take 8 s @ [s ! 8] @ take 4 (drop 9 s) @ [s ! 13] @ take 4 (drop 14 s) @ [s ! 18] @
    take 2 (drop 19 s) @ take 2 (drop 21 s) @ [s ! 23] @ take 2 (drop 24 s) @ take 2 (drop 26 s) @
    take 2 (drop 28 s) @ take 2 (drop 30 s) @ take 2 (drop 32 s) @ take 2 (drop 34 s)) = GUID_String g"
    using guid_text_split [of s] True by metis
  also have "\<dots> \<longleftrightarrow> FromString s = Ok g"
    using True parse_data4_Ok_iff [of s "[19, 21, 24, 26, 28, 30, 32, 34]" "Data4 g"]
    by (simp add: FromString_Ok_iff GUID_String_pieces [OF d] append_pieces_eq d
        del: hexn.simps parse_data4.simps) blast
  finally show ?thesis using True by simp
qed

section \<open>Array forms, variant and version\<close>

text \<open>
  The big-endian and the Windows encodings are bijections between GUIDs and 16-byte
  arrays, and the Windows encoding is the big-endian one with the bytes of
  \<^verbatim>\<open>Data1\<close>, \<^verbatim>\<open>Data2\<close> and \<^verbatim>\<open>Data3\<close> reversed.
\<close>

theorem guid_arrays_bijective:
  assumes "guid_ok g" and "length b = 16"
  shows "FromArray (ToArray g) = g \<and> ToArray (FromArray b) = b \<and>
    FromWindowsArray (ToWindowsArray g) = g \<and> ToWindowsArray (FromWindowsArray b) = b \<and>
    ToWindowsArray g = rev (take 4 (ToArray g)) @ rev (take 2 (drop 4 (ToArray g))) @
      rev (take 2 (drop 6 (ToArray g))) @ drop 8 (ToArray g)"
proof -
  have "ToWindowsArray g = rev (take 4 (ToArray g)) @ rev (take 2 (drop 4 (ToArray g))) @
      rev (take 2 (drop 6 (ToArray g))) @ drop 8 (ToArray g)"
    by (simp add: ToWindowsArray_def ToArray_def toArray_def be_enc_def)
  then show ?thesis
    using assms guid_be.dec_enc guid_be.enc_dec guid_le.dec_enc guid_le.enc_dec by blast
qed

theorem guid_arrays_bijective_witness:
  "FromArray (ToArray zero_guid) = zero_guid \<and> ToArray (FromArray (replicate 16 7)) = replicate 16 7"
  using guid_arrays_bijective [of zero_guid "replicate 16 7"] by (simp add: guid_ok_def zero_guid_def)

lemma version_masks: "(0x0fff :: u16) = mask 12" "(0x0f :: byte) = mask 4"
    "(0xF000 :: u16) = push_bit 12 (mask 4)"
  by (simp_all add: mask_eq_exp_minus_1)

lemma be_enc_2: "be_enc 2 (w :: u16) = [ucast (drop_bit 8 w), ucast w]"
  by (simp add: be_enc_def numeral_2_eq_2)

lemma be_enc_version:
  "be_enc 2 ((be_dec [a, b] AND 0x0fff) OR push_bit 12 (ucast v) :: u16) =
     [(a AND 0x0f) OR push_bit 4 v, b]"
proof -
  have "(ucast (drop_bit 8 ((be_dec [a, b] AND mask 12) OR push_bit 12 (ucast v) :: u16)) :: byte)
      = (a AND mask 4) OR push_bit 4 v"
    by (rule bit_word_eqI) (auto simp: be_dec_def bit_simps dest: bit_imp_le_length)
  moreover have "(ucast ((be_dec [a, b] AND mask 12) OR push_bit 12 (ucast v) :: u16) :: byte) = b"
    by (rule bit_word_eqI) (auto simp: be_dec_def bit_simps)
  ultimately show ?thesis by (simp add: be_enc_2 version_masks)
qed

lemma Version_setVersion: "GUID_Version (setVersion g v) = v AND 0x0f"
  unfolding GUID_Version_def setVersion_def version_masks
  by (rule bit_word_eqI) (auto simp: bit_simps)

lemma Version_Data4 [simp]: "GUID_Version (g\<lparr>Data4 := d\<rparr>) = GUID_Version g"
  by (simp add: GUID_Version_def)

lemma setVersion_simps [simp]:
  "Data1 (setVersion g v) = Data1 g" "Data2 (setVersion g v) = Data2 g"
  "Data4 (setVersion g v) = Data4 g" "guid_ok (setVersion g v) = guid_ok g"
  by (simp_all add: setVersion_def guid_ok_def)

lemma variant_bits:
  "((d AND 0x7f) AND 0x80 :: byte) = 0"
  "(((d AND 0x3f) OR 0x80) AND 0x80 :: byte) = 0x80"
  "(((d AND 0x3f) OR 0x80) AND 0xc0 :: byte) = 0x80"
  "(((d AND 0x1f) OR 0xc0) AND 0x80 :: byte) = 0x80"
  "(((d AND 0x1f) OR 0xc0) AND 0xc0 :: byte) = 0xc0"
  "(((d AND 0x1f) OR 0xc0) AND 0xe0 :: byte) = 0xc0"
  "(((d AND 0x0f) OR 0xe0) AND 0x80 :: byte) = 0x80"
  "(((d AND 0x0f) OR 0xe0) AND 0xc0 :: byte) = 0xc0"
  "(((d AND 0x0f) OR 0xe0) AND 0xe0 :: byte) = 0xe0"
  by (simp_all add: bit.conj_disj_distrib2 and.assoc)

text \<open>
  \<^verbatim>\<open>setVariant\<close> writes the variant that \<^verbatim>\<open>Variant\<close> reads back, for
  each of the four RFC 4122 variants, leaving every other field and byte alone, and panics
  for every other value (\<^verbatim>\<open>VariantUnknown\<close> included).
\<close>

theorem setVariant_Variant:
  assumes "guid_ok g"
  shows "if v \<in> {VariantNCS, VariantRFC4122, VariantMicrosoft, VariantFuture}
    then \<exists>g'. setVariant g v = Ok g' \<and> GUID_Variant g' = v \<and> guid_ok g' \<and>
      g' = g\<lparr>Data4 := (Data4 g)[0 := Data4 g' ! 0]\<rparr>
    else panics (setVariant g v)"
  using assms
  by (auto simp: setVariant_def GUID_Variant_def guid_ok_def variant_defs variant_bits Let_def)

theorem setVariant_Variant_witness:
  "\<exists>g'. setVariant zero_guid VariantMicrosoft = Ok g' \<and> GUID_Variant g' = VariantMicrosoft"
  using setVariant_Variant [of zero_guid VariantMicrosoft]
  by (auto simp: guid_ok_def zero_guid_def)

lemma length_copy_into [simp]: "length (copy_into n src) = n"
  by (simp add: copy_into_def)

lemma guid_from_bytes:
  assumes "length h = 16"
  shows "\<exists>g'. setVariant (setVersion (FromArray h) v) VariantRFC4122 = Ok g' \<and>
    GUID_Version g' = v AND 0x0f \<and> GUID_Variant g' = VariantRFC4122 \<and> guid_ok g' \<and>
    ToArray g' = h[6 := (h ! 6 AND 0x0f) OR push_bit 4 v, 8 := (h ! 8 AND 0x3f) OR 0x80]"
proof -
  let ?g = "setVersion (FromArray h) v"
  let ?d = "(h ! 8 AND 0x3f) OR 0x80"
  have d4: "Data4 ?g = drop 8 h" "drop 8 h ! 0 = h ! 8" "length (drop 8 h) = 8"
    using assms by (simp_all add: FromArray_def fromArray_def)
  have ok: "setVariant ?g VariantRFC4122 = Ok (?g\<lparr>Data4 := (drop 8 h)[0 := ?d]\<rparr>)"
    using d4 by (simp add: setVariant_def variant_defs)
  have h: "h = take 6 h @ [h ! 6, h ! 7] @ drop 8 h"
    using assms append_take_drop_id [of 6 h] Cons_nth_drop_Suc [of 6 h] Cons_nth_drop_Suc [of 7 h]
    by simp
  have d3: "take 2 (drop 6 h) = [h ! 6, h ! 7]"
    using assms by (simp add: take_Suc_conv_app_nth numeral_2_eq_2)
  have "take 6 h = take 4 h @ take 2 (drop 4 h)"
    by (simp add: take_add [symmetric])
  then have arr: "ToArray (?g\<lparr>Data4 := (drop 8 h)[0 := ?d]\<rparr>) =
      take 6 h @ [(h ! 6 AND 0x0f) OR push_bit 4 v, h ! 7] @ (drop 8 h)[0 := ?d]"
    using assms by (simp add: ToArray_def toArray_def FromArray_def fromArray_def setVersion_def
        be_enc_version d3 be32.enc_dec be16.enc_dec)
  have "h[6 := x, 8 := y] = take 6 h @ [x, h ! 7] @ (drop 8 h)[0 := y]" for x y
    by (subst h) (simp add: list_update_append assms)
  with ok arr d4 show ?thesis
    by (auto simp: GUID_Variant_def guid_ok_def variant_defs variant_bits Let_def
        Version_setVersion)
qed

text \<open>
  For every hash function, \<^verbatim>\<open>NewV5\<close> returns a GUID of version 5 and variant
  RFC 4122 whose big-endian bytes are the first 16 bytes of the hash of namespace and name,
  changed only in the four version bits of byte 6 and the two variant bits of byte 8.
\<close>

theorem NewV5_layout:
  "\<exists>g. NewV5 sha1 namespace name = Ok g \<and> GUID_Version g = 5 \<and> GUID_Variant g = VariantRFC4122 \<and>
    (let h = copy_into 16 (sha1 (ToArray namespace @ name)) in
     ToArray g = h[6 := (h ! 6 AND 0x0f) OR 0x50, 8 := (h ! 8 AND 0x3f) OR 0x80])"
  using guid_from_bytes [of "copy_into 16 (sha1 (ToArray namespace @ name))" 5]
  by (auto simp: NewV5_def Let_def)

end
