(* ===== verification/Ea.thy ===== *)
theory Ea
  imports Go_Prelude
begin

text \<open>
  Extended attributes (\<^verbatim>\<open>src/ea.go\<close>): the \<^verbatim>\<open>FILE_FULL_EA_INFORMATION\<close>
  buffer, its parser \<^verbatim>\<open>parseEa\<close> and \<^verbatim>\<open>DecodeExtendedAttributes\<close>, and
  its printer \<^verbatim>\<open>writeEa\<close> and \<^verbatim>\<open>EncodeExtendedAttributes\<close>. The parser
  is total on hostile buffers (no panic, no endless loop), and inverts the printer.
\<close>

section \<open>The entry header\<close>

record fileFullEaInformation =
  NextEntryOffset :: u32
  info_Flags :: byte
  NameLength :: byte
  ValueLength :: u16

definition ea_info_enc :: "fileFullEaInformation \<Rightarrow> bytes" where
  "ea_info_enc i =
     le_enc 4 (NextEntryOffset i) @ [info_Flags i, NameLength i] @ le_enc 2 (ValueLength i)"

definition ea_info_dec :: "bytes \<Rightarrow> fileFullEaInformation" where
  "ea_info_dec b =
     \<lparr>NextEntryOffset = le_dec (take 4 b), info_Flags = b ! 4, NameLength = b ! 5,
      ValueLength = le_dec (take 2 (drop 6 b))\<rparr>"

definition fileFullEaInformationSize :: nat where
  "fileFullEaInformationSize = 8"

definition errInvalidEaBuffer :: go_error where
  "errInvalidEaBuffer = ErrNew ''invalid extended attribute buffer''"

definition errEaNameTooLarge :: go_error where
  "errEaNameTooLarge = ErrNew ''extended attribute name too large''"

definition errEaValueTooLarge :: go_error where
  "errEaValueTooLarge = ErrNew ''extended attribute value too large''"

record ExtendedAttribute =
  ea_Name :: gostring
  ea_Value :: bytes
  ea_Flags :: byte

section \<open>Parsing\<close>

definition parseEa :: "bytes \<Rightarrow> (ExtendedAttribute \<times> bytes) res" where
  "parseEa b =
     bind_res (map_err (\<lambda>_. errInvalidEaBuffer) (read_fixed ea_info_dec fileFullEaInformationSize b))
       (\<lambda>(info, _).
        let nameOffset = fileFullEaInformationSize;
            nameLen = unat (NameLength info);
            valueOffset = nameOffset + unat (NameLength info) + 1;
            valueLen = unat (ValueLength info);
            nextOffset = unat (NextEntryOffset info)
        in if valueLen + valueOffset > length b \<or> nextOffset > length b then Err errInvalidEaBuffer
           else bind_res (slice b nameOffset (nameOffset + nameLen)) (\<lambda>name.
                bind_res (slice b valueOffset (valueOffset + valueLen)) (\<lambda>value.
                bind_res (if NextEntryOffset info \<noteq> 0 then slice b nextOffset (length b) else Ok [])
                  (\<lambda>nb. Ok (\<lparr>ea_Name = name, ea_Value = value, ea_Flags = info_Flags info\<rparr>, nb)))))"

lemma parseEa_shrinks:
  assumes "parseEa b = Ok (ea, nb)" and "b \<noteq> []"
  shows "length nb < length b"
  using assms
  by (auto simp: parseEa_def bind_res_Ok_iff slice_Ok_iff Let_def unat_gt_0
      intro!: diff_less split: prod.splits if_splits)

function decode_loop :: "bytes \<Rightarrow> ExtendedAttribute list \<Rightarrow> ExtendedAttribute list res" where
  "decode_loop b eas =
     (if b = [] then Ok eas
      else bind_res (parseEa b) (\<lambda>r. decode_loop (snd r) (eas @ [fst r])))"
  by pat_completeness auto
termination
  by (relation "measure (\<lambda>(b, eas). length b)") (auto dest: parseEa_shrinks)

declare decode_loop.simps [simp del]

definition DecodeExtendedAttributes :: "bytes \<Rightarrow> ExtendedAttribute list res" where
  "DecodeExtendedAttributes b = decode_loop b []"

section \<open>Printing\<close>

definition writeEa :: "bytes \<Rightarrow> ExtendedAttribute \<Rightarrow> bool \<Rightarrow> bytes res" where
  "writeEa buf ea is_last =
     (if unat (of_nat (length (ea_Name ea)) :: byte) \<noteq> length (ea_Name ea) then Err errEaNameTooLarge
      else if unat (of_nat (length (ea_Value ea)) :: u16) \<noteq> length (ea_Value ea)
      then Err errEaValueTooLarge
      else
        let entrySize = (of_nat (fileFullEaInformationSize + length (ea_Name ea) + 1 +
                                 length (ea_Value ea)) :: u32);
            withPadding = (entrySize + 3) AND NOT 3;
            nextOffset = (if is_last then 0 else withPadding);
            info = \<lparr>NextEntryOffset = nextOffset, info_Flags = ea_Flags ea,
                    NameLength = of_nat (length (ea_Name ea)),
                    ValueLength = of_nat (length (ea_Value ea))\<rparr>
        in bind_res (slice [0, 0, 0] 0 (unat (withPadding - entrySize))) (\<lambda>pad.
           Ok (buf @ ea_info_enc info @ ea_Name ea @ [0] @ ea_Value ea @ pad)))"

fun encode_loop :: "bytes \<Rightarrow> ExtendedAttribute list \<Rightarrow> bytes res" where
  "encode_loop buf [] = Ok buf"
| "encode_loop buf (ea # eas) =
     bind_res (writeEa buf ea (eas = [])) (\<lambda>buf. encode_loop buf eas)"

definition EncodeExtendedAttributes :: "ExtendedAttribute list \<Rightarrow> bytes res" where
  "EncodeExtendedAttributes eas = encode_loop [] eas"

section \<open>The header codec\<close>

interpretation ea_info: exact_codec ea_info_enc ea_info_dec fileFullEaInformationSize any_value
proof
  show "ea_info_dec (ea_info_enc i) = i" for i
    by (simp add: ea_info_dec_def ea_info_enc_def nth_append)
  show "ea_info_enc (ea_info_dec b) = b" if "length b = fileFullEaInformationSize" for b
  proof -
    have len: "length b = 8" using that by (simp add: fileFullEaInformationSize_def)
    have "b = take 4 b @ [b ! 4, b ! 5] @ take 2 (drop 6 b)"
      using len append_take_drop_id [of 4 b] Cons_nth_drop_Suc [of 4 b] Cons_nth_drop_Suc [of 5 b]
      by simp
    then show ?thesis using len by (simp add: ea_info_dec_def ea_info_enc_def enc_dec_simps)
  qed
qed (simp_all add: ea_info_enc_def fileFullEaInformationSize_def)

section \<open>What one entry looks like\<close>

definition ea_fits :: "ExtendedAttribute \<Rightarrow> bool" where
  "ea_fits ea \<longleftrightarrow> length (ea_Name ea) < 256 \<and> length (ea_Value ea) < 65536"

definition entry_size :: "ExtendedAttribute \<Rightarrow> nat" where
  "entry_size ea = 9 + length (ea_Name ea) + length (ea_Value ea)"

definition padded_size :: "ExtendedAttribute \<Rightarrow> nat" where
  "padded_size ea = (entry_size ea + 3) div 4 * 4"

definition entry_bytes :: "ExtendedAttribute \<Rightarrow> bool \<Rightarrow> bytes" where
  "entry_bytes ea is_last =
     ea_info_enc \<lparr>NextEntryOffset = (if is_last then 0 else of_nat (padded_size ea)),
                  info_Flags = ea_Flags ea, NameLength = of_nat (length (ea_Name ea)),
                  ValueLength = of_nat (length (ea_Value ea))\<rparr> @
     ea_Name ea @ [0] @ ea_Value ea @ replicate (padded_size ea - entry_size ea) 0"

lemma padded_size_bounds: "entry_size ea \<le> padded_size ea" "padded_size ea \<le> entry_size ea + 3"
  by (simp_all add: padded_size_def)

lemma ea_fits_sizes: "ea_fits ea \<Longrightarrow> padded_size ea < 2 ^ 32"
  using padded_size_bounds(2) [of ea] by (simp add: ea_fits_def entry_size_def)

lemma length_entry_bytes: "length (entry_bytes ea is_last) = padded_size ea"
  using padded_size_bounds [of ea]
  by (simp add: entry_bytes_def ea_info.length_enc [OF TrueI] fileFullEaInformationSize_def
      entry_size_def)

lemma word_align4: "unat ((w + 3) AND NOT 3 :: u32) = (unat w + 3) div 4 * 4"
  if "unat w + 3 < 2 ^ 32" for w :: u32
proof -
  have m: "(3 :: u32) = mask 2" by (simp add: mask_eq_exp_minus_1)
  have "(w + 3) AND NOT 3 = push_bit 2 (drop_bit 2 (w + 3))"
    unfolding m by (rule bit_word_eqI) (auto simp: bit_simps simp del: add_2_eq_Suc add_2_eq_Suc')
  moreover have "unat (w + 3) = unat w + 3" using that by (simp add: unat_word_ariths)
  moreover have "(unat w + 3) div 4 * 4 < 2 ^ 32"
    using that by (meson div_times_less_eq_dividend le_less_trans)
  ultimately show ?thesis
    by (simp add: push_bit_eq_mult drop_bit_eq_div unat_word_ariths unat_div)
qed


lemma slice_zeros: "n \<le> 3 \<Longrightarrow> slice [0, 0, 0 :: byte] 0 n = Ok (replicate n 0)"
  by (auto simp: slice_def numeral_3_eq_3 le_Suc_eq)

lemma writeEa_eq:
  "writeEa buf ea is_last =
     (if 256 \<le> length (ea_Name ea) then Err errEaNameTooLarge
      else if 65536 \<le> length (ea_Value ea) then Err errEaValueTooLarge
      else Ok (buf @ entry_bytes ea is_last))"
proof (cases "ea_fits ea")
  case True
  let ?n = "entry_size ea"
  let ?w = "of_nat (entry_size ea) :: u32"
  have sz: "fileFullEaInformationSize + length (ea_Name ea) + 1 + length (ea_Value ea) = entry_size ea"
    by (simp add: fileFullEaInformationSize_def entry_size_def)
  have bound: "?n + 3 < 2 ^ 32" using True by (simp add: ea_fits_def entry_size_def)
  have w: "unat ?w = ?n"
    using bound by (simp add: unat_of_nat)
  then have p: "unat ((?w + 3) AND NOT 3) = padded_size ea"
    using word_align4 [of ?w] bound by (simp add: padded_size_def)
  then have pw: "(?w + 3) AND NOT 3 = of_nat (padded_size ea)"
    by (metis of_nat_unat ucast_id)
  have le: "?w \<le> of_nat (padded_size ea)"
    unfolding pw [symmetric] word_le_nat_alt p w by (rule padded_size_bounds(1))
  have "unat (of_nat (padded_size ea) - ?w) = padded_size ea - ?n"
    using unat_sub [OF le] p w unfolding pw by simp
  moreover have "slice [0, 0, 0 :: byte] 0 (padded_size ea - ?n) = Ok (replicate (padded_size ea - ?n) 0)"
    using padded_size_bounds [of ea] slice_zeros [of "padded_size ea - ?n"] by simp
  ultimately show ?thesis
    using True unfolding writeEa_def Let_def sz pw
    by (simp add: unat_of_nat ea_fits_def entry_bytes_def)
next
  case False
  then show ?thesis by (auto simp: writeEa_def ea_fits_def unat_of_nat_eq_iff)
qed

lemma encode_loop_Ok_iff:
  "encode_loop buf eas = Ok out \<longleftrightarrow>
     list_all ea_fits eas \<and>
     out = buf @ concat (map (\<lambda>ea. entry_bytes ea False) (butlast eas)) @
       (if eas = [] then [] else entry_bytes (last eas) True)"
  by (induction eas arbitrary: buf) (auto simp: writeEa_eq ea_fits_def)

lemma encode_loop_errors:
  "encode_loop buf eas = Err e \<Longrightarrow> e = errEaNameTooLarge \<or> e = errEaValueTooLarge"
  "encode_loop buf eas \<noteq> Panic p"
  by (induction eas arbitrary: buf) (auto simp: writeEa_eq split: if_splits)

section \<open>The parser inverts the printer\<close>

lemma parseEa_entry:
  assumes "ea_fits ea" and "is_last \<Longrightarrow> rest = []"
  shows "parseEa (entry_bytes ea is_last @ rest) = Ok (ea, rest)"
proof -
  let ?i = "\<lparr>NextEntryOffset = (if is_last then 0 else of_nat (padded_size ea)),
    info_Flags = ea_Flags ea, NameLength = of_nat (length (ea_Name ea)),
    ValueLength = of_nat (length (ea_Value ea))\<rparr>"
  let ?t = "ea_Name ea @ [0] @ ea_Value ea @ replicate (padded_size ea - entry_size ea) 0 @ rest"
  have b: "entry_bytes ea is_last @ rest = ea_info_enc ?i @ ?t"
    by (simp add: entry_bytes_def)
  have hl: "length (ea_info_enc i) = 8" for i
    using ea_info.length_enc by (simp add: fileFullEaInformationSize_def)
  have pos: "0 < padded_size ea" using padded_size_bounds(1) [of ea] by (simp add: entry_size_def)
  have nz: "(of_nat (padded_size ea) :: u32) \<noteq> 0" "unat (of_nat (padded_size ea) :: u32) = padded_size ea"
    using ea_fits_sizes [OF assms(1)] pos by (simp_all add: unat_of_nat word_unat_eq_iff)
  have len: "length (entry_bytes ea is_last @ rest) = padded_size ea + length rest"
    by (simp add: length_entry_bytes)
  have nx: "drop (padded_size ea) (ea_info_enc ?i @ ?t) = rest"
    unfolding b [symmetric] by (simp add: length_entry_bytes)
  have rd: "read_fixed ea_info_dec fileFullEaInformationSize (ea_info_enc ?i @ ?t) = Ok (?i, ?t)"
    by (rule ea_info.read_fixed_enc [OF TrueI])
  show ?thesis
    using assms pos len nz nx padded_size_bounds(1) [of ea]
    unfolding b parseEa_def rd
    by (auto simp: Let_def hl ea_fits_def unat_of_nat fileFullEaInformationSize_def entry_size_def
        drop_append_ge)
qed

lemma decode_loop_entries:
  "list_all ea_fits eas \<Longrightarrow>
    decode_loop (concat (map (\<lambda>ea. entry_bytes ea False) (butlast eas)) @
      (if eas = [] then [] else entry_bytes (last eas) True)) acc = Ok (acc @ eas)"
proof (induction eas arbitrary: acc)
  case Nil
  show ?case by (simp add: decode_loop.simps)
next
  case (Cons ea eas)
  have ne: "entry_bytes ea x @ r \<noteq> []" for x r
    using length_entry_bytes [of ea x] padded_size_bounds(1) [of ea] by (auto simp: entry_size_def)
  show ?case
  proof (cases "eas = []")
    case True
    then show ?thesis
      using Cons.prems parseEa_entry [of ea True "[]"] ne [of True "[]"]
      by (simp add: decode_loop.simps [of "entry_bytes ea True"] decode_loop.simps [of "[]"])
  next
    case False
    let ?r = "concat (map (\<lambda>ea. entry_bytes ea False) (butlast eas)) @ entry_bytes (last eas) True"
    have "decode_loop ?r (acc @ [ea]) = Ok ((acc @ [ea]) @ eas)"
      using Cons.IH [of "acc @ [ea]"] Cons.prems False by simp
    then show ?thesis
      using Cons.prems False parseEa_entry [of ea False ?r] ne [of False ?r]
      by (simp add: decode_loop.simps [of "entry_bytes ea False @ ?r"])
  qed
qed

text \<open>
  C1: Every list of extended attributes the encoder accepts is read back unchanged by the
  decoder: names, values, flags and order.
\<close>

theorem ea_decode_encode:
  assumes "EncodeExtendedAttributes eas = Ok b"
  shows "DecodeExtendedAttributes b = Ok eas"
  using assms decode_loop_entries [of eas "[]"]
  by (simp add: EncodeExtendedAttributes_def DecodeExtendedAttributes_def encode_loop_Ok_iff)

definition ea_sample :: "ExtendedAttribute list" where
  "ea_sample = [\<lparr>ea_Name = [102, 111, 111], ea_Value = [1, 2], ea_Flags = 0\<rparr>,
                \<lparr>ea_Name = [98], ea_Value = [], ea_Flags = 0x80\<rparr>]"

theorem ea_decode_encode_witness:
  "\<exists>b. EncodeExtendedAttributes ea_sample = Ok b \<and> DecodeExtendedAttributes b = Ok ea_sample"
proof -
  have "list_all ea_fits ea_sample" by (simp add: ea_sample_def ea_fits_def)
  then obtain b where "EncodeExtendedAttributes ea_sample = Ok b"
    by (auto simp: EncodeExtendedAttributes_def encode_loop_Ok_iff)
  with ea_decode_encode [OF this] show ?thesis by blast
qed

section \<open>Encoding succeeds exactly when the sizes fit\<close>

lemma encode_length:
  "length (concat (map (\<lambda>ea. entry_bytes ea False) eas)) = sum_list (map padded_size eas)"
  by (induction eas) (simp_all add: length_entry_bytes)

lemma sum_list_butlast_last:
  "xs \<noteq> [] \<Longrightarrow> sum_list (map f (butlast xs)) + f (last xs) = sum_list (map f xs :: nat list)"
  by (induction xs) auto

lemma padded_sizes_aligned: "4 dvd sum_list (map padded_size eas)"
  by (induction eas) (auto simp: padded_size_def)

text \<open>
  The encoder fails exactly when some name is longer than 255 bytes or some value
  longer than 65535, with one of its two named errors; it never panics, and every entry of
  its output is padded to four bytes.
\<close>

theorem ea_encode_result:
  "case EncodeExtendedAttributes eas of
     Ok b \<Rightarrow> list_all ea_fits eas \<and> length b = sum_list (map padded_size eas) \<and> 4 dvd length b
   | Err e \<Rightarrow> \<not> list_all ea_fits eas \<and> (e = errEaNameTooLarge \<or> e = errEaValueTooLarge)
   | Panic p \<Rightarrow> False"
proof (cases "EncodeExtendedAttributes eas")
  case (Ok b)
  then have "list_all ea_fits eas" and b: "b = concat (map (\<lambda>ea. entry_bytes ea False) (butlast eas)) @
      (if eas = [] then [] else entry_bytes (last eas) True)"
    by (simp_all add: EncodeExtendedAttributes_def encode_loop_Ok_iff)
  moreover have "length b = sum_list (map padded_size eas)"
    unfolding b by (simp add: encode_length length_entry_bytes sum_list_butlast_last)
  ultimately show ?thesis using Ok padded_sizes_aligned [of eas] by simp
next
  case (Err e)
  moreover have "\<not> list_all ea_fits eas"
    using Err encode_loop_Ok_iff [of "[]" eas] by (auto simp: EncodeExtendedAttributes_def)
  ultimately show ?thesis using encode_loop_errors(1) by (auto simp: EncodeExtendedAttributes_def)
next
  case (Panic p)
  then show ?thesis using encode_loop_errors(2) by (simp add: EncodeExtendedAttributes_def)
qed

section \<open>Decoding an arbitrary buffer\<close>

lemma parseEa_cases:
  "case parseEa b of
     Ok (ea, nb) \<Rightarrow> ea_fits ea
   | Err e \<Rightarrow> e = errInvalidEaBuffer
   | Panic p \<Rightarrow> False"
proof (cases "read_fixed ea_info_dec fileFullEaInformationSize b")
  case (Ok r)
  have "unat (NameLength i) < 256" "unat (ValueLength i) < 65536" for i
    using unsigned_less [of "NameLength i", where 'a = nat]
      unsigned_less [of "ValueLength i", where 'a = nat] by simp_all
  with Ok show ?thesis
    by (cases r) (auto simp: parseEa_def Let_def slice_def ea_fits_def)
qed (simp_all add: parseEa_def)

lemma decode_loop_cases:
  "case decode_loop b acc of
     Ok r \<Rightarrow> \<exists>eas. r = acc @ eas \<and> list_all ea_fits eas \<and> length eas \<le> length b
   | Err e \<Rightarrow> e = errInvalidEaBuffer
   | Panic p \<Rightarrow> False"
proof (induction b acc rule: decode_loop.induct)
  case (1 b acc)
  show ?case
  proof (cases "b = []")
    case True
    then show ?thesis by (simp add: decode_loop.simps)
  next
    case False
    show ?thesis
    proof (cases "parseEa b")
      case (Ok r)
      obtain ea nb where r: "r = (ea, nb)" by fastforce
      have "length nb < length b" "ea_fits ea"
        using parseEa_shrinks [of b ea nb] parseEa_cases [of b] Ok False r by simp_all
      with "1.IH" [OF False Ok] False Ok r show ?thesis
        by (subst decode_loop.simps) (auto split: res.splits)
    qed (use False parseEa_cases [of b] in \<open>simp_all add: decode_loop.simps\<close>)
  qed
qed


end
