(* ===== verification/Go_Utf.thy ===== *)
theory Go_Utf
  imports Go_Prelude
begin

text \<open>
  Go's string conversions: \<^verbatim>\<open>[]rune(s)\<close> and \<^verbatim>\<open>string(runes)\<close> (UTF-8
  with U+FFFD for malformed input) and package \<^verbatim>\<open>unicode/utf16\<close>. The library
  passes every path and stream name to Windows through them.
\<close>

type_synonym rune = nat

definition RuneError :: rune where "RuneError = 0xFFFD"

text \<open>A Unicode scalar value: a code point that is not a surrogate.\<close>

definition scalar :: "rune \<Rightarrow> bool" where
  "scalar r \<longleftrightarrow> r < 0xD800 \<or> (0xE000 \<le> r \<and> r < 0x110000)"

section \<open>UTF-8\<close>

definition cont :: "nat \<Rightarrow> nat \<Rightarrow> byte list \<Rightarrow> nat \<Rightarrow> bool" where
  "cont lo hi b i \<longleftrightarrow> i < length b \<and> lo \<le> unat (b ! i) \<and> unat (b ! i) \<le> hi"

text \<open>\<^verbatim>\<open>utf8.DecodeRune\<close>: the rune and its width, on a non-empty string.\<close>

definition DecodeRune :: "gostring \<Rightarrow> rune \<times> nat" where
  "DecodeRune b =
     (let c = unat (b ! 0); x = (\<lambda>i. unat (b ! i) mod 64) in
      if c < 0x80 then (c, 1)
      else if 0xC2 \<le> c \<and> c \<le> 0xDF \<and> cont 0x80 0xBF b 1 then ((c - 0xC0) * 64 + x 1, 2)
      else if 0xE0 \<le> c \<and> c \<le> 0xEF \<and>
              cont (if c = 0xE0 then 0xA0 else 0x80) (if c = 0xED then 0x9F else 0xBF) b 1 \<and>
              cont 0x80 0xBF b 2
      then ((c - 0xE0) * 4096 + x 1 * 64 + x 2, 3)
      else if 0xF0 \<le> c \<and> c \<le> 0xF4 \<and>
              cont (if c = 0xF0 then 0x90 else 0x80) (if c = 0xF4 then 0x8F else 0xBF) b 1 \<and>
              cont 0x80 0xBF b 2 \<and> cont 0x80 0xBF b 3
      then ((c - 0xF0) * 262144 + x 1 * 4096 + x 2 * 64 + x 3, 4)
      else (RuneError, 1))"

lemma DecodeRune_width: "0 < snd (DecodeRune b)"
  by (simp add: DecodeRune_def Let_def)

function runes :: "gostring \<Rightarrow> rune list" where
  "runes b = (if b = [] then [] else fst (DecodeRune b) # runes (drop (snd (DecodeRune b)) b))"
  by pat_completeness auto
termination
  by (relation "measure length") (auto intro!: diff_less DecodeRune_width)

declare runes.simps [simp del]

text \<open>\<^verbatim>\<open>utf8.EncodeRune\<close>.\<close>

definition EncodeRune :: "rune \<Rightarrow> gostring" where
  "EncodeRune r0 =
     (let r = (if scalar r0 then r0 else RuneError) in
      if r < 0x80 then [of_nat r]
      else if r < 0x800 then [of_nat (0xC0 + r div 64), of_nat (0x80 + r mod 64)]
      else if r < 0x10000 then
        [of_nat (0xE0 + r div 4096), of_nat (0x80 + r div 64 mod 64), of_nat (0x80 + r mod 64)]
      else
        [of_nat (0xF0 + r div 262144), of_nat (0x80 + r div 4096 mod 64),
         of_nat (0x80 + r div 64 mod 64), of_nat (0x80 + r mod 64)])"

definition string_of_runes :: "rune list \<Rightarrow> gostring" where
  "string_of_runes rs = concat (map EncodeRune rs)"

text \<open>A string is valid UTF-8 when the round trip through runes keeps it.\<close>

definition utf8_valid :: "gostring \<Rightarrow> bool" where
  "utf8_valid s \<longleftrightarrow> string_of_runes (runes s) = s"

lemma scalar_RuneError [simp]: "scalar RuneError"
  by (simp add: scalar_def RuneError_def)

lemma scalar_2bytes: "c \<le> 0xDF \<Longrightarrow> x < 64 \<Longrightarrow> scalar ((c - 0xC0) * 64 + x)"
  unfolding scalar_def by linarith

lemma scalar_3bytes:
  assumes "c \<le> 0xEF" "x < 64" "y < 64" "c = 0xED \<longrightarrow> x \<le> 31"
  shows "scalar ((c - 0xE0) * 4096 + x * 64 + y)"
proof -
  consider "c \<le> 0xEC" | "c = 0xED" | "0xEE \<le> c" by linarith
  then show ?thesis using assms unfolding scalar_def by cases linarith+
qed

lemma scalar_4bytes:
  assumes "0xF0 \<le> c" "c \<le> 0xF4" "x < 64" "y < 64" "z < 64" "c = 0xF0 \<longrightarrow> 16 \<le> x" "c = 0xF4 \<longrightarrow> x \<le> 15"
  shows "scalar ((c - 0xF0) * 262144 + x * 4096 + y * 64 + z)"
proof -
  consider "c = 0xF0" | "0xF1 \<le> c" "c \<le> 0xF3" | "c = 0xF4" using assms(1,2) by linarith
  then show ?thesis using assms unfolding scalar_def by cases linarith+
qed

lemma cont_mod:
  "cont lo hi b i \<Longrightarrow> 0x80 \<le> lo \<Longrightarrow> hi \<le> 0xBF \<Longrightarrow>
    unat (b ! i) mod 64 < 64 \<and> lo - 0x80 \<le> unat (b ! i) mod 64 \<and> unat (b ! i) mod 64 \<le> hi - 0x80"
proof -
  assume "cont lo hi b i" and "0x80 \<le> lo" and "hi \<le> 0xBF"
  then have "0x80 \<le> unat (b ! i)" "unat (b ! i) \<le> 0xBF" "lo \<le> unat (b ! i)" "unat (b ! i) \<le> hi"
    by (auto simp: cont_def)
  moreover from this(1) obtain k where k: "unat (b ! i) = 128 + k"
    using le_Suc_ex [of "0x80" "unat (b ! i)"] by auto
  moreover have "(128 + k) mod 64 = k mod 64"
    using mod_mult_self1 [of k 2 64] by (simp add: add.commute)
  ultimately show ?thesis by (simp, linarith)
qed

lemma scalar_DecodeRune: "scalar (fst (DecodeRune b))"
  unfolding DecodeRune_def Let_def
  by (simp only: split: if_split, intro conjI impI)
    (auto dest!: cont_mod simp: scalar_def [of "unat _"] intro!: scalar_2bytes scalar_3bytes scalar_4bytes,
      unfold scalar_def, linarith+)

lemma scalar_runes: "list_all scalar (runes b)"
proof (induction b rule: runes.induct)
  case (1 b)
  then show ?case by (subst runes.simps) (auto simp: scalar_DecodeRune)
qed

lemma runes_Nil [simp]: "runes [] = []"
  by (simp add: runes.simps)

text \<open>ASCII strings are their own runes.\<close>

lemma runes_ascii: "list_all (\<lambda>c. unat c < 0x80) s \<Longrightarrow> runes (s @ t) = map unat s @ runes t"
proof (induction s)
  case (Cons c s)
  then have "DecodeRune (c # s @ t) = (unat c, 1)" by (simp add: DecodeRune_def Let_def)
  with Cons show ?case by (simp add: runes.simps [of "c # s @ t"])
qed simp

text \<open>A NUL appended to a string is a rune of its own, even after malformed input.\<close>

lemma cont_snoc: "0 < lo \<Longrightarrow> cont lo hi (b @ [0]) i \<longleftrightarrow> cont lo hi b i"
  by (auto simp: cont_def nth_append)

lemma DecodeRune_snoc: "b \<noteq> [] \<Longrightarrow> DecodeRune (b @ [0]) = DecodeRune b"
proof -
  assume "b \<noteq> []"
  then have h: "(b @ [0]) ! 0 = b ! 0" by (simp add: nth_append)
  show ?thesis
    unfolding DecodeRune_def Let_def h
    by (simp add: cont_snoc cont_def [of _ _ b] nth_append cong: if_cong)
qed

lemma DecodeRune_width_le: "b \<noteq> [] \<Longrightarrow> snd (DecodeRune b) \<le> length b"
  by (cases "length b") (auto simp: DecodeRune_def Let_def cont_def)

lemma runes_snoc_NUL: "runes (b @ [0]) = runes b @ [0]"
proof (induction b rule: runes.induct)
  case (1 b)
  show ?case
  proof (cases "b = []")
    case True
    then show ?thesis by (simp add: runes.simps [of "[0]"] DecodeRune_def)
  next
    case False
    then show ?thesis
      using 1 DecodeRune_width_le [OF False]
      by (simp add: runes.simps [of "b @ [0]"] runes.simps [of b] DecodeRune_snoc)
  qed
qed

section \<open>UTF-16\<close>

definition EncodeRune16 :: "rune \<Rightarrow> u16 list" where
  "EncodeRune16 v =
     (if v < 0xD800 \<or> (0xE000 \<le> v \<and> v < 0x10000) then [of_nat v]
      else if 0x10000 \<le> v \<and> v \<le> 0x10FFFF then
        [of_nat (0xD800 + (v - 0x10000) div 1024), of_nat (0xDC00 + (v - 0x10000) mod 1024)]
      else [0xFFFD])"

definition utf16_Encode :: "rune list \<Rightarrow> u16 list" where
  "utf16_Encode rs = concat (map EncodeRune16 rs)"

fun utf16_Decode :: "u16 list \<Rightarrow> rune list" where
  "utf16_Decode [] = []"
| "utf16_Decode [r] =
     [if unat r < 0xD800 \<or> 0xE000 \<le> unat r then unat r else RuneError]"
| "utf16_Decode (r # r2 # s) =
     (if unat r < 0xD800 \<or> 0xE000 \<le> unat r then unat r # utf16_Decode (r2 # s)
      else if unat r < 0xDC00 \<and> 0xDC00 \<le> unat r2 \<and> unat r2 < 0xE000
      then ((unat r - 0xD800) * 1024 + (unat r2 - 0xDC00) + 0x10000) # utf16_Decode s
      else RuneError # utf16_Decode (r2 # s))"

lemma utf16_Encode_simps [simp]:
  "utf16_Encode [] = []" "utf16_Encode (r # rs) = EncodeRune16 r @ utf16_Encode rs"
  "utf16_Encode (rs @ qs) = utf16_Encode rs @ utf16_Encode qs"
  by (simp_all add: utf16_Encode_def)

lemma utf16_Decode_plain:
  "unat r < 0xD800 \<or> 0xE000 \<le> unat r \<Longrightarrow> utf16_Decode (r # s) = unat r # utf16_Decode s"
  by (cases s) auto

lemma utf16_Decode_EncodeRune:
  assumes "scalar r"
  shows "utf16_Decode (EncodeRune16 r @ s) = r # utf16_Decode s"
proof (cases "r < 0x10000")
  case True
  then have "unat (of_nat r :: u16) = r" by (simp add: unat_of_nat_eq_iff)
  with True assms show ?thesis
    by (auto simp: EncodeRune16_def scalar_def utf16_Decode_plain)
next
  case False
  let ?v = "r - 0x10000"
  have v: "?v < 0x100000" using assms False by (auto simp: scalar_def)
  then have "?v div 1024 < 1024" by simp
  then have "unat (of_nat (0xD800 + ?v div 1024) :: u16) = 0xD800 + ?v div 1024"
    "unat (of_nat (0xDC00 + ?v mod 1024) :: u16) = 0xDC00 + ?v mod 1024"
    using mod_less_divisor [of 1024 ?v] by (simp_all only: unat_of_nat_eq_iff) simp_all
  moreover have "?v div 1024 * 1024 + ?v mod 1024 + 0x10000 = r" using False by simp
  ultimately show ?thesis
    using assms False \<open>?v div 1024 < 1024\<close> mod_less_divisor [of 1024 ?v]
    by (simp add: EncodeRune16_def scalar_def del: of_nat_add)
qed

lemma utf16_Decode_Encode: "list_all scalar rs \<Longrightarrow> utf16_Decode (utf16_Encode rs) = rs"
  by (induction rs) (simp_all add: utf16_Decode_EncodeRune)

lemma utf16_roundtrip [simp]: "utf16_Decode (utf16_Encode (runes s)) = runes s"
  by (rule utf16_Decode_Encode [OF scalar_runes])

section \<open>NUL characters\<close>

text \<open>Neither decoding nor UTF-16 introduces a NUL.\<close>

lemma DecodeRune_NUL: "fst (DecodeRune b) = 0 \<Longrightarrow> b ! 0 = 0"
  unfolding DecodeRune_def Let_def
  by (auto simp: RuneError_def unat_eq_0 dest!: cont_mod split: if_splits)

lemma NUL_in_runes: "0 \<in> set (runes b) \<Longrightarrow> 0 \<in> set b"
proof (induction b rule: runes.induct)
  case (1 b)
  show ?case
  proof (cases "b = []")
    case True
    with 1 show ?thesis by simp
  next
    case False
    then have "fst (DecodeRune b) = 0 \<or> 0 \<in> set (runes (drop (snd (DecodeRune b)) b))"
      using 1(2) by (subst (asm) runes.simps) auto
    then show ?thesis
    proof
      assume "fst (DecodeRune b) = 0"
      then have "b ! 0 = 0" by (rule DecodeRune_NUL)
      then show ?thesis using False by (metis length_greater_0_conv nth_mem)
    next
      assume "0 \<in> set (runes (drop (snd (DecodeRune b)) b))"
      then show ?thesis using 1(1) False by (blast dest: in_set_dropD)
    qed
  qed
qed

lemma NUL_in_utf16: "0 \<in> set (utf16_Encode rs) \<Longrightarrow> list_all scalar rs \<Longrightarrow> 0 \<in> set rs"
proof (induction rs)
  case (Cons r rs)
  have "r = 0" if "0 \<in> set (EncodeRune16 r)"
  proof -
    have nz: "of_nat (Suc n) \<noteq> (0 :: u16)" if "Suc n < 65536" for n
    proof
      assume "of_nat (Suc n) = (0 :: u16)"
      then have "unat (of_nat (Suc n) :: u16) = 0" by simp
      with that show False using unat_of_nat_eq_iff [of "Suc n", where 'a = 16] by simp
    qed
    have "of_nat n = (0 :: u16) \<longleftrightarrow> n = 0" if "n < 65536" for n
      using nz [of "n - 1"] that by (cases n) auto
    from this [of r] this [of "0xD800 + (r - 0x10000) div 1024"] this [of "0xDC00 + (r - 0x10000) mod 1024"]
    show ?thesis using that by (auto simp: EncodeRune16_def split: if_splits)
  qed
  with Cons show ?case by auto
qed simp

lemma utf16_Encode_Nil_iff [simp]: "utf16_Encode rs = [] \<longleftrightarrow> rs = []"
  by (cases rs) (auto simp: EncodeRune16_def)

lemma runes_Nil_iff [simp]: "runes b = [] \<longleftrightarrow> b = []"
  by (subst runes.simps) simp

end
