(* ===== verification/Reparse.thy ===== *)
theory Reparse
  imports Go_Strconv Go_Utf
begin

text \<open>
  Reparse points (\<^verbatim>\<open>src/reparse.go\<close>): encoding a symlink or mount point as a
  \<^verbatim>\<open>REPARSE_DATA_BUFFER\<close> with its NT path, and decoding its print name. Slices
  are taken on buffers whose capacity is their length.
\<close>

section \<open>The buffer header\<close>

definition reparseTagMountPoint :: u32 where "reparseTagMountPoint = 0xA0000003"
definition reparseTagSymlink :: u32 where "reparseTagSymlink = 0xA000000C"

record reparseDataBuffer =
  ReparseTag :: u32
  ReparseDataLength :: u16
  Reserved :: u16
  SubstituteNameOffset :: u16
  SubstituteNameLength :: u16
  PrintNameOffset :: u16
  PrintNameLength :: u16

definition reparse_enc :: "reparseDataBuffer \<Rightarrow> bytes" where
  "reparse_enc d =
     le_enc 4 (ReparseTag d) @ le_enc 2 (ReparseDataLength d) @ le_enc 2 (Reserved d) @
     le_enc 2 (SubstituteNameOffset d) @ le_enc 2 (SubstituteNameLength d) @
     le_enc 2 (PrintNameOffset d) @ le_enc 2 (PrintNameLength d)"

record ReparsePoint =
  Target :: gostring
  IsMountPoint :: bool

definition UnsupportedReparsePointError :: "u32 \<Rightarrow> go_error" where
  "UnsupportedReparsePointError tag = ErrFmt ''unsupported reparse point %x'' [uint tag]"

section \<open>Decoding\<close>

definition DecodeReparsePointData :: "u32 \<Rightarrow> bytes \<Rightarrow> ReparsePoint res" where
  "DecodeReparsePointData tag b =
     (if tag \<noteq> reparseTagMountPoint \<and> tag \<noteq> reparseTagSymlink
      then Err (UnsupportedReparsePointError tag)
      else
        let isMountPoint = (tag = reparseTagMountPoint) in
        bind_res (slice b 4 6) (\<lambda>po.
        let nameOffset = (8 + le_dec po :: u16) + (if isMountPoint then 0 else 4) in
        bind_res (slice b 6 8) (\<lambda>pl.
        let nameLength = (le_dec pl :: u16) in
        bind_res (slice b (unat nameOffset) (unat (nameOffset + nameLength))) (\<lambda>raw.
        bind_res (read_list le_dec 2 (unat nameLength div 2) raw) (\<lambda>(name, _).
        Ok \<lparr>Target = string_of_runes (utf16_Decode name), IsMountPoint = isMountPoint\<rparr>)))))"

definition DecodeReparsePoint :: "bytes \<Rightarrow> ReparsePoint res" where
  "DecodeReparsePoint b =
     bind_res (slice b 0 4) (\<lambda>t.
     bind_res (slice b 8 (length b)) (\<lambda>rest.
     DecodeReparsePointData (le_dec t) rest))"

section \<open>Encoding\<close>

definition isDriveLetter :: "byte \<Rightarrow> bool" where
  "isDriveLetter c \<longleftrightarrow> (97 \<le> c \<and> c \<le> 122) \<or> (65 \<le> c \<and> c \<le> 90)"

text \<open>The NT path of a target and whether the target is relative (lines 83 to 94).\<close>

definition nt_target :: "gostring \<Rightarrow> gostring \<times> bool" where
  "nt_target t =
     (if HasPrefix t [92, 92, 63, 92] then ([92, 63, 63, 92] @ drop 4 t, False)
      else if HasPrefix t [92, 92] then ([92, 63, 63, 92, 85, 78, 67, 92] @ drop 2 t, False)
      else if 2 \<le> length t \<and> isDriveLetter (t ! 0) \<and> t ! 1 = 58 then ([92, 63, 63, 92] @ t, False)
      else (t, True))"

definition EncodeReparsePoint :: "ReparsePoint \<Rightarrow> bytes" where
  "EncodeReparsePoint rp =
     (let (ntTarget, relative) = nt_target (Target rp);
          target16 = utf16_Encode (runes (Target rp @ [0]));
          ntTarget16 = utf16_Encode (runes (ntTarget @ [0]));
          size0 = 16 - 8 + length ntTarget16 * 2 + length target16 * 2;
          tag = (if IsMountPoint rp then reparseTagMountPoint else reparseTagSymlink);
          size = (if IsMountPoint rp then size0 else size0 + 4);
          data = \<lparr>ReparseTag = tag, ReparseDataLength = of_nat size, Reserved = 0,
                  SubstituteNameOffset = 0,
                  SubstituteNameLength = of_nat ((length ntTarget16 - 1) * 2),
                  PrintNameOffset = of_nat (length ntTarget16 * 2),
                  PrintNameLength = of_nat ((length target16 - 1) * 2)\<rparr>;
          flags = (if relative then 1 else 0 :: u32)
      in reparse_enc data @ (if IsMountPoint rp then [] else le_enc 4 flags) @
         enc_list (le_enc 2) ntTarget16 @ enc_list (le_enc 2) target16)"

section \<open>The decoder reads the print name back\<close>

lemma length_reparse_enc [simp]: "length (reparse_enc d) = 16"
  by (simp add: reparse_enc_def)

lemma dec_names [simp]:
  "dec_list le_dec 2 (length xs) (enc_list (le_enc 2) xs @ r) = (xs :: u16 list)"
  using le16.dec_list_enc_list [of xs r] by (simp add: list_all_iff)

lemma length_names [simp]: "length (enc_list (le_enc 2) (xs :: u16 list)) = 2 * length xs"
  using le16.length_enc_list [of xs] by (simp add: list_all_iff)

lemma reparse_fields:
  "take 4 (reparse_enc d @ r) = le_enc 4 (ReparseTag d)"
  "take 2 (drop 4 (drop 8 (reparse_enc d @ r))) = le_enc 2 (PrintNameOffset d)"
  "take 2 (drop 6 (drop 8 (reparse_enc d @ r))) = le_enc 2 (PrintNameLength d)"
  by (simp_all add: reparse_enc_def)

lemma DecodeReparsePointData_eval:
  fixes po pl off :: u16
  assumes "slice b 4 6 = Ok (le_enc 2 po)" and "slice b 6 8 = Ok (le_enc 2 pl)"
    and "off = 8 + po + (if mp then 0 else 4)" and "unat pl = 2 * length nm"
    and "slice b (unat off) (unat (off + pl)) = Ok (enc_list (le_enc 2) nm)"
  shows "DecodeReparsePointData (if mp then reparseTagMountPoint else reparseTagSymlink) b =
    Ok \<lparr>Target = string_of_runes (utf16_Decode nm), IsMountPoint = mp\<rparr>"
proof -
  have tags: "reparseTagSymlink \<noteq> reparseTagMountPoint"
    by (simp add: reparseTagSymlink_def reparseTagMountPoint_def)
  have rd: "read_list le_dec 2 (length nm) (enc_list (le_enc 2) nm) = Ok (nm, [])"
    using le16.read_list_enc [of nm "length nm" "[]"] by (simp add: list_all_iff)
  show ?thesis
    using assms(1,2,5) assms(3) tags unfolding DecodeReparsePointData_def Let_def
    by (cases mp) (simp_all add: assms(4) rd add.assoc)
qed

text \<open>Where the print name of the encoded buffer lies, and what it holds.\<close>

lemma decode_print_name:
  assumes off: "unat (PrintNameOffset d) + k = length pre" and k: "k = (if mp then 0 else 4)"
    and len: "unat (PrintNameLength d) = 2 * length nm" and fit: "8 + length pre + 2 * length nm < 65536"
    and tag: "ReparseTag d = (if mp then reparseTagMountPoint else reparseTagSymlink)"
  shows "DecodeReparsePoint (reparse_enc d @ pre @ enc_list (le_enc 2) nm @ post) =
    Ok \<lparr>Target = string_of_runes (utf16_Decode nm), IsMountPoint = mp\<rparr>"
proof -
  let ?b = "reparse_enc d @ pre @ enc_list (le_enc 2) nm @ post"
  let ?off = "8 + PrintNameOffset d + (if mp then 0 else 4)"
  have o: "unat ?off = 8 + length pre"
    using off k fit by (auto simp: unat_word_ariths)
  then have e: "unat (?off + PrintNameLength d) = 8 + length pre + 2 * length nm"
    using len fit by (simp add: unat_word_ariths)
  have "slice (drop 8 ?b) (unat ?off) (unat (?off + PrintNameLength d)) = Ok (enc_list (le_enc 2) nm)"
    unfolding o e by simp
  moreover have "slice (drop 8 ?b) 4 6 = Ok (le_enc 2 (PrintNameOffset d))"
    "slice (drop 8 ?b) 6 8 = Ok (le_enc 2 (PrintNameLength d))"
    by (simp_all add: reparse_enc_def)
  ultimately have "DecodeReparsePointData (ReparseTag d) (drop 8 ?b) =
      Ok \<lparr>Target = string_of_runes (utf16_Decode nm), IsMountPoint = mp\<rparr>"
    unfolding tag using len by (intro DecodeReparsePointData_eval) auto
  then show ?thesis
    by (simp add: DecodeReparsePoint_def reparse_fields(1) [simplified])
qed

text \<open>The terminating NUL is one code unit, so the counted lengths leave it out.\<close>

lemma utf16_NUL [simp]: "utf16_Encode (runes (s @ [0])) = utf16_Encode (runes s) @ [0]"
  by (simp add: runes_snoc_NUL EncodeRune16_def)

lemma EncodeReparsePoint_layout:
  fixes rp :: ReparsePoint
  defines "nt \<equiv> utf16_Encode (runes (fst (nt_target (Target rp))))"
    and "t \<equiv> utf16_Encode (runes (Target rp))" and "mp \<equiv> IsMountPoint rp"
  obtains d flags where
    "EncodeReparsePoint rp = reparse_enc d @ (flags @ enc_list (le_enc 2) (nt @ [0])) @
       enc_list (le_enc 2) t @ le_enc 2 (0 :: u16)"
    "length flags = (if mp then 0 else 4)"
    "ReparseTag d = (if mp then reparseTagMountPoint else reparseTagSymlink)"
    "ReparseDataLength d = of_nat (12 + 2 * (length nt + length t) + (if mp then 0 else 4))"
    "PrintNameOffset d = of_nat (2 * length nt + 2)" "PrintNameLength d = of_nat (2 * length t)"
proof -
  define d where "d = \<lparr>ReparseTag = if mp then reparseTagMountPoint else reparseTagSymlink,
      ReparseDataLength = of_nat (12 + 2 * (length nt + length t) + (if mp then 0 else 4)), Reserved = 0,
      SubstituteNameOffset = 0, SubstituteNameLength = of_nat (2 * length nt),
      PrintNameOffset = of_nat (2 * length nt + 2), PrintNameLength = of_nat (2 * length t)\<rparr>"
  define flags where "flags = (if mp then [] else le_enc 4 (if snd (nt_target (Target rp)) then 1 else 0 :: u32))"
  have "EncodeReparsePoint rp = reparse_enc d @ (flags @ enc_list (le_enc 2) (nt @ [0])) @
       enc_list (le_enc 2) t @ le_enc 2 (0 :: u16)"
    unfolding EncodeReparsePoint_def Let_def d_def flags_def assms
    by (cases "IsMountPoint rp"; simp add: case_prod_beta algebra_simps)
  then show thesis
    by (rule that) (simp_all add: d_def flags_def)
qed

lemma length_EncodeReparsePoint:
  "length (EncodeReparsePoint rp) = 20 + (if IsMountPoint rp then 0 else 4) +
     2 * (length (utf16_Encode (runes (fst (nt_target (Target rp))))) + length (utf16_Encode (runes (Target rp))))"
  by (rule EncodeReparsePoint_layout [of rp]) simp

text \<open>
  C4: For a target that is valid UTF-8 and a buffer whose data length fits the 16-bit
  length field, \<^verbatim>\<open>DecodeReparsePoint\<close> returns exactly the reparse point given to
  \<^verbatim>\<open>EncodeReparsePoint\<close>, and the length field of the header is the number of bytes
  that follow the first eight.
\<close>

theorem reparse_decode_encode:
  assumes "utf8_valid (Target rp)" and "length (EncodeReparsePoint rp) - 8 < 65536"
  shows "DecodeReparsePoint (EncodeReparsePoint rp) = Ok rp \<and>
    unat (le_dec (take 2 (drop 4 (EncodeReparsePoint rp))) :: u16) + 8 = length (EncodeReparsePoint rp)"
proof -
  let ?nt = "utf16_Encode (runes (fst (nt_target (Target rp))))"
  let ?t = "utf16_Encode (runes (Target rp))"
  obtain d flags where enc: "EncodeReparsePoint rp =
      reparse_enc d @ (flags @ enc_list (le_enc 2) (?nt @ [0])) @ enc_list (le_enc 2) ?t @ le_enc 2 (0 :: u16)"
    and fl: "length flags = (if IsMountPoint rp then 0 else 4)"
    and d: "ReparseTag d = (if IsMountPoint rp then reparseTagMountPoint else reparseTagSymlink)"
      "ReparseDataLength d = of_nat (12 + 2 * (length ?nt + length ?t) + (if IsMountPoint rp then 0 else 4))"
      "PrintNameOffset d = of_nat (2 * length ?nt + 2)" "PrintNameLength d = of_nat (2 * length ?t)"
    by (rule EncodeReparsePoint_layout)
  have fit: "12 + 2 * (length ?nt + length ?t) + (if IsMountPoint rp then 0 else 4) < 65536"
    using assms(2) by (auto simp: length_EncodeReparsePoint split: if_splits)
  have u: "unat (PrintNameOffset d) = 2 * length ?nt + 2" "unat (PrintNameLength d) = 2 * length ?t"
    "unat (ReparseDataLength d) = 12 + 2 * (length ?nt + length ?t) + (if IsMountPoint rp then 0 else 4)"
    unfolding d(2-4) using fit by (simp_all only: unat_of_nat_eq_iff) (auto split: if_splits)
  have "DecodeReparsePoint (EncodeReparsePoint rp) =
      Ok \<lparr>Target = string_of_runes (utf16_Decode ?t), IsMountPoint = IsMountPoint rp\<rparr>"
    unfolding enc
    by (rule decode_print_name [OF _ refl _ _ d(1)]) (use fit fl u in auto)
  then have "DecodeReparsePoint (EncodeReparsePoint rp) = Ok rp"
    using assms(1) by (simp add: utf8_valid_def)
  moreover have "take 2 (drop 4 (EncodeReparsePoint rp)) = le_enc 2 (ReparseDataLength d)"
    unfolding enc by (simp add: reparse_enc_def)
  then have "unat (le_dec (take 2 (drop 4 (EncodeReparsePoint rp))) :: u16) + 8 = length (EncodeReparsePoint rp)"
    using u(3) by (simp add: length_EncodeReparsePoint)
  ultimately show ?thesis ..
qed

text \<open>The mount point \<^verbatim>\<open>C:\x\<close>.\<close>

lemma sample_valid: "utf8_valid [67, 58, 92, 120]"
  using runes_ascii [of "[67, 58, 92, 120]" "[]"]
  by (simp add: utf8_valid_def string_of_runes_def EncodeRune_def scalar_def)

theorem reparse_decode_encode_witness:
  "DecodeReparsePoint (EncodeReparsePoint \<lparr>Target = [67, 58, 92, 120], IsMountPoint = True\<rparr>) =
     Ok \<lparr>Target = [67, 58, 92, 120], IsMountPoint = True\<rparr>"
proof (rule conjunct1 [OF reparse_decode_encode])
  show "utf8_valid (Target \<lparr>Target = [67, 58, 92, 120], IsMountPoint = True\<rparr>)"
    by (simp add: sample_valid)
  have "nt_target [67, 58, 92, 120] = ([92, 63, 63, 92, 67, 58, 92, 120], False)"
    by (simp add: nt_target_def HasPrefix_def isDriveLetter_def)
  moreover have "runes [92, 63, 63, 92, 67, 58, 92, 120] = [92, 63, 63, 92, 67, 58, 92, 120]"
    "runes [67, 58, 92, 120] = [67, 58, 92, 120]"
    using runes_ascii [of "[92, 63, 63, 92, 67, 58, 92, 120]" "[]"]
      runes_ascii [of "[67, 58, 92, 120]" "[]"] by simp_all
  ultimately show
    "length (EncodeReparsePoint \<lparr>Target = [67, 58, 92, 120], IsMountPoint = True\<rparr>) - 8 < 65536"
    by (simp add: length_EncodeReparsePoint EncodeRune16_def)
qed

section \<open>Buffers that were not produced by the encoder\<close>

text \<open>
  Where the decoder looks for the print name: 16-bit arithmetic, from the start of the
  data (the buffer without its first eight bytes).
\<close>

definition print_name_offset :: "u32 \<Rightarrow> bytes \<Rightarrow> u16" where
  "print_name_offset tag b = 8 + le_dec (take 2 (drop 4 b)) + (if tag = reparseTagMountPoint then 0 else 4)"

definition print_name_in_bounds :: "u32 \<Rightarrow> bytes \<Rightarrow> bool" where
  "print_name_in_bounds tag b \<longleftrightarrow>
     (let off = print_name_offset tag b; fin = off + le_dec (take 2 (drop 6 b))
      in 8 \<le> length b \<and> off \<le> fin \<and> unat fin \<le> length b)"

lemma DecodeReparsePointData_cases:
  assumes "tag = reparseTagMountPoint \<or> tag = reparseTagSymlink"
  shows "panics (DecodeReparsePointData tag b) \<longleftrightarrow> \<not> print_name_in_bounds tag b"
    and "DecodeReparsePointData tag b \<noteq> Err e"
proof -
  let ?off = "print_name_offset tag b" and ?len = "le_dec (take 2 (drop 6 b)) :: u16"
  consider "length b < 6" | "6 \<le> length b" "length b < 8" | "8 \<le> length b" by linarith
  then have "(panics (DecodeReparsePointData tag b) \<longleftrightarrow> \<not> print_name_in_bounds tag b) \<and>
      (\<forall>e. DecodeReparsePointData tag b \<noteq> Err e)"
  proof cases
    case 1
    then have "slice b 4 6 = Panic ''slice bounds out of range''" by (simp add: slice_def)
    with 1 assms show ?thesis
      by (auto simp: DecodeReparsePointData_def print_name_in_bounds_def Let_def)
  next
    case 2
    then have "slice b 6 8 = Panic ''slice bounds out of range''" by (simp add: slice_def)
    with 2 assms show ?thesis
      by (auto simp: DecodeReparsePointData_def print_name_in_bounds_def Let_def)
  next
    case 3
    then have eval: "DecodeReparsePointData tag b =
        bind_res (slice b (unat ?off) (unat (?off + ?len))) (\<lambda>raw.
        bind_res (read_list le_dec 2 (unat ?len div 2) raw) (\<lambda>(name, _).
        Ok \<lparr>Target = string_of_runes (utf16_Decode name), IsMountPoint = (tag = reparseTagMountPoint)\<rparr>))"
      using assms by (auto simp: DecodeReparsePointData_def print_name_offset_def Let_def)
    show ?thesis
    proof (cases "?off \<le> ?off + ?len \<and> unat (?off + ?len) \<le> length b")
      case True
      then have sz: "unat (?off + ?len) - unat ?off = unat ?len"
        by (metis add_diff_cancel_left' unat_sub)
      define raw where "raw = take (unat ?len) (drop (unat ?off) b)"
      have "slice b (unat ?off) (unat (?off + ?len)) = Ok raw"
        using True by (simp add: raw_def sz word_le_nat_alt)
      moreover have "length raw = unat ?len"
        using True sz unfolding raw_def word_le_nat_alt length_take length_drop by linarith
      then have "2 * (unat ?len div 2) \<le> length raw" by simp
      then have "read_list (le_dec :: bytes \<Rightarrow> u16) 2 (unat ?len div 2) raw =
          Ok (dec_list le_dec 2 (unat ?len div 2) (take (2 * (unat ?len div 2)) raw), drop (2 * (unat ?len div 2)) raw)"
        by (simp add: read_list_def read_exact_def)
      ultimately show ?thesis
        using True 3 by (simp add: eval print_name_in_bounds_def Let_def)
    next
      case False
      then have "slice b (unat ?off) (unat (?off + ?len)) = Panic ''slice bounds out of range''"
        by (auto simp: slice_def word_le_nat_alt)
      with False show ?thesis by (auto simp: eval print_name_in_bounds_def Let_def)
    qed
  qed
  then show "panics (DecodeReparsePointData tag b) \<longleftrightarrow> \<not> print_name_in_bounds tag b" 
    "DecodeReparsePointData tag b \<noteq> Err e" by auto
qed

text \<open>
  \<^verbatim>\<open>DecodeReparsePoint\<close> on an arbitrary buffer: it panics exactly when the
  buffer is shorter than eight bytes, or its tag is a symlink or mount point and the print
  name (16-bit offset and length) is not inside the buffer; the only error it returns is
  \<^verbatim>\<open>UnsupportedReparsePointError\<close>, exactly for the other tags.
\<close>

theorem reparse_decode_any_buffer:
  "(panics (DecodeReparsePoint b) \<longleftrightarrow>
     length b < 8 \<or>
     (le_dec (take 4 b) \<in> {reparseTagMountPoint, reparseTagSymlink} \<and>
      \<not> print_name_in_bounds (le_dec (take 4 b)) (drop 8 b))) \<and>
   (DecodeReparsePoint b = Err e \<longleftrightarrow>
     8 \<le> length b \<and> le_dec (take 4 b) \<notin> {reparseTagMountPoint, reparseTagSymlink} \<and>
     e = UnsupportedReparsePointError (le_dec (take 4 b)))"
proof (cases "length b < 8")
  case True
  then have "panics (DecodeReparsePoint b)"
    by (simp add: DecodeReparsePoint_def slice_def bind_res_def)
  with True show ?thesis by (cases "DecodeReparsePoint b") auto
next
  case False
  let ?tag = "le_dec (take 4 b) :: u32"
  from False have eq: "DecodeReparsePoint b = DecodeReparsePointData ?tag (drop 8 b)"
    by (simp add: DecodeReparsePoint_def)
  show ?thesis
  proof (cases "?tag = reparseTagMountPoint \<or> ?tag = reparseTagSymlink")
    case True
    then show ?thesis using False DecodeReparsePointData_cases [OF True] by (auto simp: eq)
  next
    case False': False
    with False show ?thesis by (auto simp: eq DecodeReparsePointData_def)
  qed
qed

end
