(* ===== verification/Go_IO.thy ===== *)
theory Go_IO
  imports Go_Prelude
begin

text \<open>
  The streaming interfaces of package \<^verbatim>\<open>io\<close> that the library builds on. A reader
  is a state with one operation, \<^verbatim>\<open>Read\<close>, that may return fewer bytes than asked;
  the loops over it (\<^verbatim>\<open>io.ReadFull\<close>, \<^verbatim>\<open>io.Copy\<close>) are partial functions
  whose value \<open>None\<close> means that they never return. The locale \<open>io_reader\<close> is the
  documented contract of \<^verbatim>\<open>Read\<close>; the loops are proved to return, and what, once
  for every reader that keeps it.
\<close>

type_synonym 's reader = "'s \<Rightarrow> nat \<Rightarrow> (bytes \<times> go_error option \<times> 's) res"

type_synonym 'w writer = "'w \<Rightarrow> bytes \<Rightarrow> nat \<times> go_error option \<times> 'w"

section \<open>The loops over a reader\<close>

text \<open>
  \<^verbatim>\<open>io.ReadFull\<close>: \<open>n\<close> bytes are still missing and \<open>acc\<close> are read. Every byte read
  counts even when it comes with an error; an error is reported only when bytes are missing.
\<close>

partial_function (option) read_full ::
  "'s reader \<Rightarrow> 's \<Rightarrow> nat \<Rightarrow> bytes \<Rightarrow> (bytes \<times> go_error option \<times> 's) res option"
where
  "read_full rd s n acc =
     (if n = 0 then Some (Ok (acc, None, s))
      else (case rd s n of
          Err e \<Rightarrow> Some (Err e)
        | Panic p \<Rightarrow> Some (Panic p)
        | Ok (b, None, s') \<Rightarrow> read_full rd s' (n - length b) (acc @ b)
        | Ok (b, Some e, s') \<Rightarrow>
            Some (Ok (acc @ b,
              (if n \<le> length b then None
               else if acc @ b \<noteq> [] \<and> e = EOF then Some ErrUnexpectedEOF
               else Some e), s'))))"

definition ReadFull :: "'s reader \<Rightarrow> 's \<Rightarrow> nat \<Rightarrow> (bytes \<times> go_error option \<times> 's) res option" where
  "ReadFull rd s n = read_full rd s n []"

text \<open>
  \<^verbatim>\<open>io.Copy\<close>: reads with a buffer of \<open>sz\<close> bytes until an error; the end of the
  stream is not one. The bytes copied are returned.
\<close>

partial_function (option) io_copy ::
  "'s reader \<Rightarrow> nat \<Rightarrow> 's \<Rightarrow> bytes \<Rightarrow> (bytes \<times> go_error option \<times> 's) res option"
where
  "io_copy rd sz s acc =
     (case rd s sz of
        Err e \<Rightarrow> Some (Err e)
      | Panic p \<Rightarrow> Some (Panic p)
      | Ok (b, None, s') \<Rightarrow> io_copy rd sz s' (acc @ b)
      | Ok (b, Some e, s') \<Rightarrow> Some (Ok (acc @ b, if e = EOF then None else Some e, s')))"

text \<open>
  A computation that may not return, may fail or panic, and leaves a state behind in any
  case; \<open>io_bind\<close> stops at the first failure.
\<close>

type_synonym ('a, 's) io = "('a res \<times> 's) option"

definition io_bind :: "('a, 's) io \<Rightarrow> ('a \<Rightarrow> 's \<Rightarrow> ('b, 's) io) \<Rightarrow> ('b, 's) io" where
  "io_bind m f =
     (case m of
        None \<Rightarrow> None
      | Some (Ok x, s) \<Rightarrow> f x s
      | Some (Err e, s) \<Rightarrow> Some (Err e, s)
      | Some (Panic p, s) \<Rightarrow> Some (Panic p, s))"

lemma io_bind_simps [simp, go_simps]:
  "io_bind None f = None" "io_bind (Some (Ok x, s)) f = f x s"
  "io_bind (Some (Err e, s)) f = Some (Err e, s)" "io_bind (Some (Panic p, s)) f = Some (Panic p, s)"
  by (simp_all add: io_bind_def)

text \<open>\<^verbatim>\<open>binary.Read\<close> of a value of \<open>w\<close> bytes.\<close>

definition binary_Read :: "'s reader \<Rightarrow> (bytes \<Rightarrow> 'a) \<Rightarrow> nat \<Rightarrow> 's \<Rightarrow> ('a, 's) io" where
  "binary_Read rd dec w s =
     (case ReadFull rd s w of
        None \<Rightarrow> None
      | Some (Ok (b, None, s')) \<Rightarrow> Some (Ok (dec b), s')
      | Some (Ok (b, Some e, s')) \<Rightarrow> Some (Err e, s')
      | Some (Err e) \<Rightarrow> Some (Err e, s)
      | Some (Panic p) \<Rightarrow> Some (Panic p, s))"

text \<open>
  \<^verbatim>\<open>io.LimitReader\<close>, and \<^verbatim>\<open>io.CopyN\<close> to \<^verbatim>\<open>io.Discard\<close>, which
  reads with a buffer of 8192 bytes; \<^verbatim>\<open>io.ReadAll\<close> starts with one of 512.
\<close>

definition limited_Read :: "'s reader \<Rightarrow> ('s \<times> int) reader" where
  "limited_Read rd st n =
     (case st of (s, left) \<Rightarrow>
       if left \<le> 0 then Ok ([], Some EOF, st)
       else bind_res (rd s (if int n > left then nat left else n)) (\<lambda>(b, err, s').
            Ok (b, err, (s', left - int (length b)))))"

definition CopyN :: "'s reader \<Rightarrow> int \<Rightarrow> 's \<Rightarrow> (unit, 's) io" where
  "CopyN rd n s =
     (case io_copy (limited_Read rd) 8192 (s, n) [] of
        None \<Rightarrow> None
      | Some (Ok (b, err, (s', _))) \<Rightarrow>
          Some (if int (length b) = n then Ok ()
                else if int (length b) < n \<and> err = None then Err EOF
                else case err of None \<Rightarrow> Ok () | Some e \<Rightarrow> Err e, s')
      | Some (Err e) \<Rightarrow> Some (Err e, s)
      | Some (Panic p) \<Rightarrow> Some (Panic p, s))"

definition ReadAll :: "'s reader \<Rightarrow> 's \<Rightarrow> (bytes \<times> go_error option \<times> 's) res option" where
  "ReadAll rd s = io_copy rd 512 s []"

text \<open>\<^verbatim>\<open>binary.Write\<close> hands the encoding to one \<^verbatim>\<open>Write\<close> and keeps its error.\<close>

definition binary_Write :: "'w writer \<Rightarrow> 'w \<Rightarrow> bytes \<Rightarrow> go_error option \<times> 'w" where
  "binary_Write wr w b = (case wr w b of (_, e, w') \<Rightarrow> (e, w'))"

section \<open>The contract of a reader\<close>

text \<open>
  \<open>content s\<close> is what the reader in state \<open>s\<close> has still to deliver and \<open>fin s\<close> the error
  that follows it. A read of \<open>n > 0\<close> bytes without an error delivers a byte or decreases
  \<open>rank\<close>: the reader may return nothing, but not for ever.
\<close>

locale io_reader =
  fixes rd :: "'s reader" and inv :: "'s \<Rightarrow> bool" and content :: "'s \<Rightarrow> bytes"
    and fin :: "'s \<Rightarrow> go_error" and rank :: "'s \<Rightarrow> nat"
  assumes rd_total: "inv s \<Longrightarrow> \<exists>b e s'. rd s n = Ok (b, e, s')"
    and rd_inv: "inv s \<Longrightarrow> rd s n = Ok (b, e, s') \<Longrightarrow> inv s' \<and> fin s' = fin s"
    and rd_prefix: "inv s \<Longrightarrow> rd s n = Ok (b, e, s') \<Longrightarrow> length b \<le> n \<and> content s = b @ content s'"
    and rd_end: "inv s \<Longrightarrow> rd s n = Ok (b, Some x, s') \<Longrightarrow> x = fin s \<and> content s' = []"
    and rd_progress: "inv s \<Longrightarrow> 0 < n \<Longrightarrow> rd s n = Ok (b, None, s') \<Longrightarrow> b \<noteq> [] \<or> rank s' < rank s"
begin

lemma rd_cases:
  assumes "inv s"
  obtains (data) b s' where "rd s n = Ok (b, None, s')" "inv s'" "fin s' = fin s" "length b \<le> n"
      "content s = b @ content s'" "0 < n \<Longrightarrow> b \<noteq> [] \<or> rank s' < rank s"
    | (fin) b s' where "rd s n = Ok (b, Some (fin s), s')" "inv s'" "fin s' = fin s" "length b \<le> n"
      "content s = b" "content s' = []"
proof -
  obtain b e s' where *: "rd s n = Ok (b, e, s')" using rd_total [OF assms] by blast
  show thesis
  proof (cases e)
    case None
    with * that(1) rd_inv rd_prefix rd_progress assms show ?thesis by blast
  next
    case (Some x)
    with * that(2) rd_inv rd_prefix rd_end assms show ?thesis by fastforce
  qed
qed

text \<open>Induction on what is left to read, then on the number of empty reads.\<close>

lemma reader_induct [case_names less]:
  assumes "\<And>s. (\<And>t. length (content t) < length (content s) \<or> content t = content s \<and> rank t < rank s \<Longrightarrow> P t) \<Longrightarrow> P s"
  shows "P s"
proof (induction s rule: wf_induct_rule
    [OF wf_inv_image [OF wf_lex_prod [OF wf_less_than wf_less_than], of "\<lambda>s. (length (content s), rank s)"]])
  case (1 s)
  show ?case
  proof (rule assms)
    fix t
    assume "length (content t) < length (content s) \<or> content t = content s \<and> rank t < rank s"
    then show "P t" by (intro 1) auto
  qed
qed

lemma read_full_correct:
  assumes "inv s"
  shows "\<exists>s'. inv s' \<and> fin s' = fin s \<and> content s' = drop n (content s) \<and>
    read_full rd s n acc = Some (Ok (acc @ take n (content s),
      (if n \<le> length (content s) then None
       else if acc @ content s \<noteq> [] \<and> fin s = EOF then Some ErrUnexpectedEOF
       else Some (fin s)), s'))"
  using assms
proof (induction s arbitrary: n acc rule: reader_induct)
  case (less s)
  show ?case
  proof (cases "n = 0")
    case True
    then show ?thesis using less.prems by (subst read_full.simps) auto
  next
    case False
    from less.prems show ?thesis
    proof (cases rule: rd_cases [where n = n])
      case (data b s')
      then have "length (content s') < length (content s) \<or> content s' = content s \<and> rank s' < rank s"
        using False by (cases b) auto
      from less.IH [OF this data(2), of "n - length b" "acc @ b"] data False
      show ?thesis by (subst read_full.simps) (auto simp: le_diff_conv2)
    next
      case (fin b s')
      then show ?thesis using False by (subst read_full.simps) (auto intro!: exI [of _ s'])
    qed
  qed
qed

lemma io_copy_correct:
  assumes "inv s" and "0 < sz"
  shows "\<exists>s'. inv s' \<and> fin s' = fin s \<and> content s' = [] \<and>
    io_copy rd sz s acc = Some (Ok (acc @ content s, if fin s = EOF then None else Some (fin s), s'))"
  using assms(1)
proof (induction s arbitrary: acc rule: reader_induct)
  case (less s)
  from less.prems show ?case
  proof (cases rule: rd_cases [where n = sz])
    case (data b s')
    then have "length (content s') < length (content s) \<or> content s' = content s \<and> rank s' < rank s"
      using assms(2) by (cases b) auto
    from less.IH [OF this data(2), of "acc @ b"] data
    show ?thesis by (subst io_copy.simps) auto
  next
    case (fin b s')
    then show ?thesis by (subst io_copy.simps) (auto intro!: exI [of _ s'])
  qed
qed

lemma binary_Read_enough:
  assumes "inv s" and "content s = b @ r" and "length b = w"
  obtains s' where "inv s'" "fin s' = fin s" "content s' = r" "binary_Read rd dec w s = Some (Ok (dec b), s')"
  using read_full_correct [OF assms(1), of w "[]"] assms(2,3)
  by (auto simp: binary_Read_def ReadFull_def)

lemma binary_Read_short:
  assumes "inv s" and "length (content s) < w"
  obtains s' where "inv s'" "fin s' = fin s" "content s' = []"
    "binary_Read rd dec w s =
       Some (Err (if content s \<noteq> [] \<and> fin s = EOF then ErrUnexpectedEOF else fin s), s')"
  using read_full_correct [OF assms(1), of w "[]"] assms(2)
  by (auto simp: binary_Read_def ReadFull_def)

end

text \<open>A reader that never hands out bytes together with an error.\<close>

locale clean_reader = io_reader +
  assumes rd_clean: "inv s \<Longrightarrow> rd s n = Ok (b, Some x, s') \<Longrightarrow> b = []"

context clean_reader
begin

lemma limited_copy:
  assumes "inv s" and "0 < sz"
  shows "\<exists>s'. inv s' \<and> fin s' = fin s \<and> content s' = drop n (content s) \<and>
    io_copy (limited_Read rd) sz (s, int n) acc =
      Some (Ok (acc @ take n (content s),
        (if n \<le> length (content s) \<or> fin s = EOF then None else Some (fin s)),
        (s', int (n - length (content s)))))"
  using assms(1)
proof (induction s arbitrary: n acc rule: reader_induct)
  case (less s)
  show ?case
  proof (cases "n = 0")
    case True
    then show ?thesis using less.prems by (subst io_copy.simps) (auto simp: limited_Read_def)
  next
    case False
    let ?m = "if int sz > int n then nat (int n) else sz"
    have m: "0 < ?m" "?m \<le> n" using False assms(2) by auto
    from less.prems show ?thesis
    proof (cases rule: rd_cases [where n = ?m])
      case (data b s')
      then have "length (content s') < length (content s) \<or> content s' = content s \<and> rank s' < rank s"
        using m by (cases b) auto
      have le: "length b \<le> n" using data(4) m(2) by (rule order_trans)
      then have diff_le: "n - length b \<le> length (content s') \<longleftrightarrow> n \<le> length (content s)"
        using data(5) by auto
      from less.IH [OF \<open>_ \<or> _\<close> data(2), of "n - length b" "acc @ b", unfolded diff_le data(3)]
      obtain s'' where *: "inv s''" "fin s'' = fin s" "content s'' = drop (n - length b) (content s')"
        "io_copy (limited_Read rd) sz (s', int (n - length b)) (acc @ b) =
          Some (Ok ((acc @ b) @ take (n - length b) (content s'),
            (if n \<le> length (content s) \<or> fin s = EOF then None else Some (fin s)),
            (s'', int (n - length b - length (content s')))))"
        by blast
      have eqs: "drop (n - length b) (content s') = drop n (content s)"
        "(acc @ b) @ take (n - length b) (content s') = acc @ take n (content s)"
        "n - length b - length (content s') = n - length (content s)"
        using data(5) le by simp_all
      have "limited_Read rd (s, int n) sz = Ok (b, None, (s', int (n - length b)))"
        using False data(1) le by (simp add: limited_Read_def of_nat_diff)
      then show ?thesis
        using * unfolding eqs by (subst io_copy.simps) (intro exI [of _ s''], simp)
    next
      case (fin b s')
      then have "b = []" using rd_clean [OF less.prems fin(1)] by simp
      then have "limited_Read rd (s, int n) sz = Ok ([], Some (fin s), (s', int n))"
        using False fin(1) by (simp add: limited_Read_def)
      then show ?thesis
        using fin \<open>b = []\<close> False by (subst io_copy.simps) (auto intro!: exI [of _ s'])
    qed
  qed
qed

lemma CopyN_enough:
  assumes "inv s" and "content s = a @ r" and "int (length a) = n"
  obtains s' where "inv s'" "fin s' = fin s" "content s' = r" "CopyN rd n s = Some (Ok (), s')"
proof -
  from limited_copy [OF assms(1), of 8192 "length a" "[]"] obtain s' where
    "inv s'" "fin s' = fin s" "content s' = r"
    "io_copy (limited_Read rd) 8192 (s, n) [] = Some (Ok (a, None, (s', 0)))"
    using assms(2,3) by auto
  with that assms(3) show ?thesis by (simp add: CopyN_def)
qed

lemma CopyN_short:
  assumes "inv s" and "int (length (content s)) < n"
  obtains s' where "inv s'" "fin s' = fin s" "content s' = []" "CopyN rd n s = Some (Err (fin s), s')"
proof -
  have n: "int (nat n) = n" "length (content s) < nat n" using assms(2) by auto
  from limited_copy [OF assms(1), of 8192 "nat n" "[]"] obtain s' left where
    s': "inv s'" "fin s' = fin s" "content s' = []"
    "io_copy (limited_Read rd) 8192 (s, n) [] = Some (Ok (content s, (if fin s = EOF then None else Some (fin s)), (s', left)))"
    using n by auto
  then have "CopyN rd n s = Some (Err (fin s), s')" using assms(2) by (simp add: CopyN_def)
  with s' that show ?thesis by blast
qed

end

section \<open>A reader over memory\<close>

text \<open>
  Bytes delivered in portions: each \<^verbatim>\<open>Read\<close> returns at most the next size of the
  list, and as much as fits once the list is used up. With the empty list this is
  \<^verbatim>\<open>bytes.Reader\<close>.
\<close>

type_synonym portions = "bytes \<times> nat list"

definition mem_read :: "portions reader" where
  "mem_read s n =
     (case s of (src, sizes) \<Rightarrow>
       if n = 0 then Ok ([], None, s)
       else if src = [] then Ok ([], Some EOF, s)
       else let k = (case sizes of [] \<Rightarrow> n | m # _ \<Rightarrow> min n m)
            in Ok (take k src, None, (drop k src, tl sizes)))"

interpretation mem: clean_reader mem_read any_value fst "\<lambda>_. EOF" "\<lambda>s. length (snd s)"
proof
  fix s :: portions and n b e s'
  show "\<exists>b e s'. mem_read s n = Ok (b, e, s')"
    by (auto simp: mem_read_def Let_def split: prod.splits)
  assume *: "mem_read s n = Ok (b, e, s')"
  then show "length b \<le> n \<and> fst s = b @ fst s'"
    by (cases "snd s") (auto simp: mem_read_def Let_def split: prod.splits if_splits)
next
  fix s :: portions and n b s'
  assume "0 < n" and "mem_read s n = Ok (b, None, s')"
  then show "b \<noteq> [] \<or> length (snd s') < length (snd s)"
    by (cases "snd s") (auto simp: mem_read_def Let_def split: prod.splits if_splits)
qed (auto simp: mem_read_def Let_def split: prod.splits if_splits)

text \<open>The in-memory writer, \<^verbatim>\<open>bytes.Buffer\<close>.\<close>

definition buf_write :: "bytes writer" where
  "buf_write w b = (length b, None, w @ b)"

end
