(* ===== verification/Backup.thy ===== *)
theory Backup
  imports Go_IO Go_Utf
begin

text \<open>
  Win32 backup streams (\<^verbatim>\<open>src/backup.go\<close>): the reader that splits the output of
  \<^verbatim>\<open>BackupRead\<close> into headers and data, the writer for \<^verbatim>\<open>BackupWrite\<close>, and the
  file reader and writer over the two system calls. The underlying \<^verbatim>\<open>io.Reader\<close>,
  its optional \<^verbatim>\<open>io.Seeker\<close>, the underlying \<^verbatim>\<open>io.Writer\<close>,
  \<^verbatim>\<open>windows.UTF16ToString\<close> and the system calls are parameters.
\<close>

section \<open>Headers\<close>

definition BackupData :: u32 where "BackupData = 1"
definition BackupEaData :: u32 where "BackupEaData = 2"
definition BackupSecurity :: u32 where "BackupSecurity = 3"
definition BackupAlternateData :: u32 where "BackupAlternateData = 4"
definition BackupLink :: u32 where "BackupLink = 5"
definition BackupPropertyData :: u32 where "BackupPropertyData = 6"
definition BackupObjectId :: u32 where "BackupObjectId = 7"
definition BackupReparseData :: u32 where "BackupReparseData = 8"
definition BackupSparseBlock :: u32 where "BackupSparseBlock = 9"
definition BackupTxfsData :: u32 where "BackupTxfsData = 10"
definition StreamSparseAttributes :: u32 where "StreamSparseAttributes = 8"

record BackupHeader =
  Id :: u32
  Attributes :: u32
  Size :: int
  Name :: gostring
  Offset :: int

record win32StreamID =
  wsi_StreamID :: u32
  wsi_Attributes :: u32
  wsi_Size :: u64
  wsi_NameSize :: u32

definition wsi_enc :: "win32StreamID \<Rightarrow> bytes" where
  "wsi_enc w = le_enc 4 (wsi_StreamID w) @ le_enc 4 (wsi_Attributes w) @
     le_enc 8 (wsi_Size w) @ le_enc 4 (wsi_NameSize w)"

definition wsi_dec :: "bytes \<Rightarrow> win32StreamID" where
  "wsi_dec b =
     \<lparr>wsi_StreamID = le_dec (take 4 b), wsi_Attributes = le_dec (take 4 (drop 4 b)),
      wsi_Size = le_dec (take 8 (drop 8 b)), wsi_NameSize = le_dec (take 4 (drop 16 b))\<rparr>"

interpretation wsi: exact_codec wsi_enc wsi_dec 20 any_value
proof
  fix bs :: bytes
  assume "length bs = 20"
  then have "le_enc 4 (le_dec (take 4 bs) :: u32) = take 4 bs"
    "le_enc 4 (le_dec (take 4 (drop 4 bs)) :: u32) = take 4 (drop 4 bs)"
    "le_enc 8 (le_dec (take 8 (drop 8 bs)) :: u64) = take 8 (drop 8 bs)"
    "le_enc 4 (le_dec (take 4 (drop 16 bs)) :: u32) = drop 16 bs"
    by (simp_all add: enc_dec_simps)
  moreover have "take 4 bs @ take 4 (drop 4 bs) @ take 8 (drop 8 bs) @ drop 16 bs = bs"
    by (metis (no_types, lifting) add_numeral_left append_take_drop_id drop_drop numeral_Bit0)
  ultimately show "wsi_enc (wsi_dec bs) = bs"
    by (simp add: wsi_enc_def wsi_dec_def)
qed (simp_all add: wsi_enc_def wsi_dec_def)

section \<open>The stream reader\<close>

record 's BackupStreamReader =
  bsr_r :: 's
  bsr_bytesLeft :: int

definition NewBackupStreamReader :: "'s \<Rightarrow> 's BackupStreamReader" where
  "NewBackupStreamReader r = \<lparr>bsr_r = r, bsr_bytesLeft = 0\<rparr>"

text \<open>
  \<^verbatim>\<open>Read\<close>. Slicing the buffer to a negative \<^verbatim>\<open>bytesLeft\<close> panics.
\<close>

definition BSR_Read :: "'s reader \<Rightarrow> 's BackupStreamReader reader" where
  "BSR_Read rd st n =
     (if bsr_bytesLeft st = 0 then Ok ([], Some EOF, st)
      else if bsr_bytesLeft st < 0 then Panic ''slice bounds out of range''
      else
        let m = (if int n > bsr_bytesLeft st then nat (bsr_bytesLeft st) else n) in
        bind_res (rd (bsr_r st) m) (\<lambda>(b, err, r').
        let left = bsr_bytesLeft st - int (length b);
            err' = (if err = Some EOF then Some ErrUnexpectedEOF
                    else if left = 0 \<and> err = None then Some EOF
                    else err)
        in Ok (b, err', \<lparr>bsr_r = r', bsr_bytesLeft = left\<rparr>)))"

text \<open>
  Skipping the rest of the current stream: \<^verbatim>\<open>Seek\<close> relative to the current position
  when the reader offers it and a seek by nothing succeeds, then copying to
  \<^verbatim>\<open>io.Discard\<close>, which reads with a buffer of 8192 bytes.
\<close>

type_synonym 's seeker = "'s \<Rightarrow> int \<Rightarrow> go_error option \<times> 's"

definition seek_rest ::
  "'s seeker option \<Rightarrow> 's BackupStreamReader \<Rightarrow> (unit, 's BackupStreamReader) io" where
  "seek_rest seek st =
     (case seek of
        None \<Rightarrow> Some (Ok (), st)
      | Some sk \<Rightarrow>
          (case sk (bsr_r st) 0 of
             (Some _, s1) \<Rightarrow> Some (Ok (), st\<lparr>bsr_r := s1\<rparr>)
           | (None, s1) \<Rightarrow>
               (case sk s1 (bsr_bytesLeft st) of
                  (Some e, s2) \<Rightarrow> Some (Err e, st\<lparr>bsr_r := s2\<rparr>)
                | (None, s2) \<Rightarrow> Some (Ok (), st\<lparr>bsr_r := s2, bsr_bytesLeft := 0\<rparr>))))"

definition discard_rest :: "'s reader \<Rightarrow> 's BackupStreamReader \<Rightarrow> (unit, 's BackupStreamReader) io" where
  "discard_rest rd st =
     (case io_copy (BSR_Read rd) 8192 st [] of
        None \<Rightarrow> None
      | Some (Ok (_, None, st')) \<Rightarrow> Some (Ok (), st')
      | Some (Ok (_, Some e, st')) \<Rightarrow> Some (Err e, st')
      | Some (Err e) \<Rightarrow> Some (Err e, st)
      | Some (Panic p) \<Rightarrow> Some (Panic p, st))"

definition skip_rest ::
  "'s reader \<Rightarrow> 's seeker option \<Rightarrow> 's BackupStreamReader \<Rightarrow> (unit, 's BackupStreamReader) io" where
  "skip_rest rd seek st =
     (if bsr_bytesLeft st > 0 then io_bind (seek_rest seek st) (\<lambda>_ st. discard_rest rd st)
      else Some (Ok (), st))"

definition on_r :: "('s \<Rightarrow> ('a, 's) io) \<Rightarrow> 's BackupStreamReader \<Rightarrow> ('a, 's BackupStreamReader) io" where
  "on_r f st = map_option (\<lambda>(x, r'). (x, st\<lparr>bsr_r := r'\<rparr>)) (f (bsr_r st))"

definition read_name ::
  "'s reader \<Rightarrow> (u16 list \<Rightarrow> gostring) \<Rightarrow> u32 \<Rightarrow> 's BackupStreamReader \<Rightarrow> (gostring, 's BackupStreamReader) io" where
  "read_name rd u16str namesize st =
     (if namesize \<noteq> 0 then
        let k = unat (namesize div 2) in
        io_bind (on_r (binary_Read rd (dec_list le_dec 2 k) (2 * k)) st) (\<lambda>name st.
        Some (Ok (u16str name), st))
      else Some (Ok [], st))"

definition read_offset ::
  "'s reader \<Rightarrow> u32 \<Rightarrow> int \<Rightarrow> 's BackupStreamReader \<Rightarrow> (int \<times> int, 's BackupStreamReader) io" where
  "read_offset rd sid sz st =
     (if sid = BackupSparseBlock then
        io_bind (on_r (binary_Read rd i64_dec 8) st) (\<lambda>off st. Some (Ok (off, wrap64 (sz - 8)), st))
      else Some (Ok (0, sz), st))"

definition Next ::
  "'s reader \<Rightarrow> 's seeker option \<Rightarrow> (u16 list \<Rightarrow> gostring) \<Rightarrow> 's BackupStreamReader \<Rightarrow>
     (BackupHeader, 's BackupStreamReader) io" where
  "Next rd seek u16str st =
     io_bind (skip_rest rd seek st) (\<lambda>_ st.
     io_bind (on_r (binary_Read rd wsi_dec 20) st) (\<lambda>wsi st.
     io_bind (read_name rd u16str (wsi_NameSize wsi) st) (\<lambda>name st.
     io_bind (read_offset rd (wsi_StreamID wsi) (sint (wsi_Size wsi)) st) (\<lambda>(off, sz) st.
     Some (Ok \<lparr>Id = wsi_StreamID wsi, Attributes = wsi_Attributes wsi, Size = sz, Name = name, Offset = off\<rparr>,
           st\<lparr>bsr_bytesLeft := sz\<rparr>)))))"

section \<open>The stream writer\<close>

record 'w BackupStreamWriter =
  bsw_w :: 'w
  bsw_bytesLeft :: int

definition NewBackupStreamWriter :: "'w \<Rightarrow> 'w BackupStreamWriter" where
  "NewBackupStreamWriter w = \<lparr>bsw_w = w, bsw_bytesLeft = 0\<rparr>"

fun write_parts :: "'w writer \<Rightarrow> 'w \<Rightarrow> bytes list \<Rightarrow> go_error option \<times> 'w" where
  "write_parts wr w [] = (None, w)"
| "write_parts wr w (p # ps) =
     (case binary_Write wr w p of
        (Some e, w') \<Rightarrow> (Some e, w')
      | (None, w') \<Rightarrow> write_parts wr w' ps)"

definition header_parts :: "BackupHeader \<Rightarrow> bytes list" where
  "header_parts hdr =
     (let name = utf16_Encode (runes (Name hdr));
          wsi = \<lparr>wsi_StreamID = Id hdr, wsi_Attributes = Attributes hdr,
                 wsi_Size = word_of_int (Size hdr) + (if Id hdr = BackupSparseBlock then 8 else 0),
                 wsi_NameSize = of_nat (length name * 2)\<rparr>
      in [wsi_enc wsi] @
         (if name \<noteq> [] then [enc_list (le_enc 2) name] else []) @
         (if Id hdr = BackupSparseBlock then [i64_enc (Offset hdr)] else []))"

definition WriteHeader ::
  "'w writer \<Rightarrow> 'w BackupStreamWriter \<Rightarrow> BackupHeader \<Rightarrow> go_error option \<times> 'w BackupStreamWriter" where
  "WriteHeader wr w hdr =
     (if bsw_bytesLeft w \<noteq> 0 then (Some (ErrFmt ''missing %d bytes'' [bsw_bytesLeft w]), w)
      else (case write_parts wr (bsw_w w) (header_parts hdr) of
          (Some e, w') \<Rightarrow> (Some e, w\<lparr>bsw_w := w'\<rparr>)
        | (None, w') \<Rightarrow> (None, \<lparr>bsw_w = w', bsw_bytesLeft = Size hdr\<rparr>)))"

definition BSW_Write ::
  "'w writer \<Rightarrow> 'w BackupStreamWriter \<Rightarrow> bytes \<Rightarrow> nat \<times> go_error option \<times> 'w BackupStreamWriter" where
  "BSW_Write wr w b =
     (if bsw_bytesLeft w < int (length b) then
        (0, Some (ErrFmt ''too many bytes by %d'' [wrap64 (int (length b) - bsw_bytesLeft w)]), w)
      else (case wr (bsw_w w) b of
          (n, err, w') \<Rightarrow> (n, err, \<lparr>bsw_w = w', bsw_bytesLeft = bsw_bytesLeft w - int n\<rparr>)))"

section \<open>The file reader and writer\<close>

text \<open>
  The system calls are functions of the state \<open>'o\<close> of the system, the handle, the buffer
  (its length, or its contents), the abort and security flags and the context, and return
  an error, what was transferred, the new context and the new state.
\<close>

type_synonym ('o, 'h) backup_read =
  "'o \<Rightarrow> 'h \<Rightarrow> nat \<Rightarrow> bool \<Rightarrow> bool \<Rightarrow> u64 \<Rightarrow> go_error option \<times> bytes \<times> u64 \<times> 'o"

type_synonym ('o, 'h) backup_write =
  "'o \<Rightarrow> 'h \<Rightarrow> bytes \<Rightarrow> bool \<Rightarrow> bool \<Rightarrow> u64 \<Rightarrow> go_error option \<times> u32 \<times> u64 \<times> 'o"

record 'h BackupFileReader =
  bfr_f :: 'h
  bfr_includeSecurity :: bool
  bfr_ctx :: u64

definition NewBackupFileReader :: "'h \<Rightarrow> bool \<Rightarrow> 'h BackupFileReader" where
  "NewBackupFileReader f sec = \<lparr>bfr_f = f, bfr_includeSecurity = sec, bfr_ctx = 0\<rparr>"

definition BFR_Read :: "('o, 'h) backup_read \<Rightarrow> ('o \<times> 'h BackupFileReader) reader" where
  "BFR_Read backupRead s n =
     (case s of (os, r) \<Rightarrow>
      case backupRead os (bfr_f r) n False (bfr_includeSecurity r) (bfr_ctx r) of
        (Some e, _, ctx, os') \<Rightarrow> Ok ([], Some (ErrWrap ''BackupRead'' e), (os', r\<lparr>bfr_ctx := ctx\<rparr>))
      | (None, b, ctx, os') \<Rightarrow>
          if b = [] then Ok ([], Some EOF, (os', r\<lparr>bfr_ctx := ctx\<rparr>))
          else Ok (b, None, (os', r\<lparr>bfr_ctx := ctx\<rparr>)))"

definition BFR_Close ::
  "('o, 'h) backup_read \<Rightarrow> 'o \<times> 'h BackupFileReader \<Rightarrow> go_error option \<times> 'o \<times> 'h BackupFileReader" where
  "BFR_Close backupRead s =
     (case s of (os, r) \<Rightarrow>
      if bfr_ctx r \<noteq> 0 then
        case backupRead os (bfr_f r) 0 True False (bfr_ctx r) of
          (_, _, _, os') \<Rightarrow> (None, os', r\<lparr>bfr_ctx := 0\<rparr>)
      else (None, os, r))"

record 'h BackupFileWriter =
  bfw_f :: 'h
  bfw_includeSecurity :: bool
  bfw_ctx :: u64

definition NewBackupFileWriter :: "'h \<Rightarrow> bool \<Rightarrow> 'h BackupFileWriter" where
  "NewBackupFileWriter f sec = \<lparr>bfw_f = f, bfw_includeSecurity = sec, bfw_ctx = 0\<rparr>"

definition BFW_Write :: "('o, 'h) backup_write \<Rightarrow> ('o \<times> 'h BackupFileWriter) writer" where
  "BFW_Write backupWrite s b =
     (case s of (os, w) \<Rightarrow>
      case backupWrite os (bfw_f w) b False (bfw_includeSecurity w) (bfw_ctx w) of
        (Some e, _, ctx, os') \<Rightarrow> (0, Some (ErrWrap ''BackupWrite'' e), (os', w\<lparr>bfw_ctx := ctx\<rparr>))
      | (None, n, ctx, os') \<Rightarrow>
          if unat n \<noteq> length b then
            (unat n, Some (ErrNew ''not all bytes could be written''), (os', w\<lparr>bfw_ctx := ctx\<rparr>))
          else (length b, None, (os', w\<lparr>bfw_ctx := ctx\<rparr>)))"

definition BFW_Close ::
  "('o, 'h) backup_write \<Rightarrow> 'o \<times> 'h BackupFileWriter \<Rightarrow> go_error option \<times> 'o \<times> 'h BackupFileWriter" where
  "BFW_Close backupWrite s =
     (case s of (os, w) \<Rightarrow>
      if bfw_ctx w \<noteq> 0 then
        case backupWrite os (bfw_f w) [] True False (bfw_ctx w) of
          (_, _, _, os') \<Rightarrow> (None, os', w\<lparr>bfw_ctx := 0\<rparr>)
      else (None, os, w))"

text \<open>\<^verbatim>\<open>OpenForBackup\<close>: the call to \<^verbatim>\<open>CreateFile\<close> and the wrapped error.\<close>

definition FILE_FLAG_OPEN_REPARSE_POINT :: u32 where "FILE_FLAG_OPEN_REPARSE_POINT = 0x00200000"
definition FILE_FLAG_BACKUP_SEMANTICS :: u32 where "FILE_FLAG_BACKUP_SEMANTICS = 0x02000000"

definition OpenForBackup ::
  "(gostring \<Rightarrow> u32 \<Rightarrow> u32 \<Rightarrow> u32 \<Rightarrow> u32 \<Rightarrow> 'h res) \<Rightarrow> gostring \<Rightarrow> u32 \<Rightarrow> u32 \<Rightarrow> u32 \<Rightarrow> ('h \<times> gostring) res" where
  "OpenForBackup createFile path access share createmode =
     (case createFile path access share createmode
        (FILE_FLAG_BACKUP_SEMANTICS OR FILE_FLAG_OPEN_REPARSE_POINT) of
        Ok h \<Rightarrow> Ok (h, path)
      | Err e \<Rightarrow> Err (ErrWrap ''open'' e)
      | Panic p \<Rightarrow> Panic p)"

section \<open>The current stream is itself a reader\<close>

text \<open>
  What \<^verbatim>\<open>Read\<close> has still to deliver of the current stream, and the error after it:
  the end of the stream, or an unexpected one when the underlying reader ends earlier.
\<close>

definition stream_content :: "('s \<Rightarrow> bytes) \<Rightarrow> 's BackupStreamReader \<Rightarrow> bytes" where
  "stream_content content st = take (nat (bsr_bytesLeft st)) (content (bsr_r st))"

definition stream_fin ::
  "('s \<Rightarrow> bytes) \<Rightarrow> ('s \<Rightarrow> go_error) \<Rightarrow> 's BackupStreamReader \<Rightarrow> go_error" where
  "stream_fin content fin st =
     (if bsr_bytesLeft st \<le> int (length (content (bsr_r st))) then EOF
      else if fin (bsr_r st) = EOF then ErrUnexpectedEOF
      else fin (bsr_r st))"

text \<open>What a read keeps: \<open>G\<close> follows the stream, \<open>D\<close> bytes of it are missing.\<close>

definition stream_inv ::
  "('s \<Rightarrow> bool) \<Rightarrow> ('s \<Rightarrow> bytes) \<Rightarrow> ('s \<Rightarrow> go_error) \<Rightarrow> bytes \<Rightarrow> int \<Rightarrow> go_error \<Rightarrow>
     's BackupStreamReader \<Rightarrow> bool" where
  "stream_inv ok content fin G D F st \<longleftrightarrow>
     ok (bsr_r st) \<and> 0 \<le> bsr_bytesLeft st \<and> fin (bsr_r st) = F \<and>
     drop (nat (bsr_bytesLeft st)) (content (bsr_r st)) = G \<and>
     bsr_bytesLeft st - int (length (content (bsr_r st))) = D"

text \<open>
  The documented behaviour of the two parameters: \<^verbatim>\<open>Seek\<close> from the current position
  skips as many bytes, and \<^verbatim>\<open>windows.UTF16ToString\<close> decodes a sequence without a NUL.
\<close>

definition good_seeker ::
  "('s \<Rightarrow> bool) \<Rightarrow> ('s \<Rightarrow> bytes) \<Rightarrow> ('s \<Rightarrow> go_error) \<Rightarrow> 's seeker \<Rightarrow> bool" where
  "good_seeker ok content fin sk \<longleftrightarrow> (\<forall>s k. ok s \<and> 0 \<le> k \<and> k \<le> int (length (content s)) \<longrightarrow>
     (\<exists>s'. sk s k = (None, s') \<and> ok s' \<and> fin s' = fin s \<and> content s' = drop (nat k) (content s)))"

definition utf16_law :: "(u16 list \<Rightarrow> gostring) \<Rightarrow> bool" where
  "utf16_law u16str \<longleftrightarrow> (\<forall>xs. 0 \<notin> set xs \<longrightarrow> u16str xs = string_of_runes (utf16_Decode xs))"

text \<open>
  The headers whose fields survive the wire format: 64-bit sizes, a name that is valid UTF-8
  without NUL and whose length in bytes fits 32 bits, an offset only on sparse blocks.
\<close>

definition header_ok :: "BackupHeader \<Rightarrow> bool" where
  "header_ok hdr \<longleftrightarrow>
     int64_ok (Size hdr) \<and> utf8_valid (Name hdr) \<and> 0 \<notin> set (Name hdr) \<and>
     length (utf16_Encode (runes (Name hdr))) * 2 < 2 ^ 32 \<and>
     (if Id hdr = BackupSparseBlock then int64_ok (Offset hdr) else Offset hdr = 0)"

lemma header_ok_name:
  assumes "header_ok hdr" and "utf16_law u16str"
  shows "u16str (utf16_Encode (runes (Name hdr))) = Name hdr"
proof -
  have "0 \<notin> set (utf16_Encode (runes (Name hdr)))"
    using assms(1) NUL_in_utf16 [OF _ scalar_runes] NUL_in_runes by (auto simp: header_ok_def)
  then show ?thesis using assms by (simp add: utf16_law_def header_ok_def utf8_valid_def)
qed

lemma wrap64_sparse: "int64_ok x \<Longrightarrow> wrap64 (sint (word_of_int x + 8 :: u64) - 8) = x"
proof -
  assume x: "int64_ok x"
  have "wrap64 y = sint (word_of_int y :: u64)" for y by (simp add: wrap64_def sint_sbintrunc')
  then have "wrap64 (sint w - 8) = sint (w - 8)" for w :: u64 by (simp add: of_int_diff)
  then show ?thesis using x by (simp add: int64_ok_def)
qed

lemmas stream_defs = stream_content_def stream_fin_def stream_inv_def

context clean_reader
begin

lemma BSR_Read_step:
  assumes st: "stream_inv inv content fin G D F st" and *: "BSR_Read rd st n = Ok (b, e, st')"
  shows "stream_inv inv content fin G D F st' \<and> stream_fin content fin st' = stream_fin content fin st \<and>
    length b \<le> n \<and> stream_content content st = b @ stream_content content st' \<and>
    (e \<noteq> None \<longrightarrow> e = Some (stream_fin content fin st) \<and> stream_content content st' = []) \<and>
    (e = None \<longrightarrow> 0 < n \<longrightarrow> b \<noteq> [] \<or> rank (bsr_r st') < rank (bsr_r st))"
proof (cases "bsr_bytesLeft st = 0")
  case True
  then show ?thesis using * st by (auto simp: BSR_Read_def stream_defs)
next
  case False
  let ?left = "bsr_bytesLeft st" and ?m = "if int n > bsr_bytesLeft st then nat (bsr_bytesLeft st) else n"
  from st False have pos: "0 < ?left" and i: "inv (bsr_r st)" by (auto simp: stream_defs)
  then obtain err r' where r: "rd (bsr_r st) ?m = Ok (b, err, r')"
    and e: "e = (if err = Some EOF then Some ErrUnexpectedEOF
                 else if ?left = int (length b) \<and> err = None then Some EOF else err)"
    and st': "st' = \<lparr>bsr_r = r', bsr_bytesLeft = ?left - int (length b)\<rparr>"
    using * False unfolding BSR_Read_def Let_def by (auto simp: bind_res_Ok_iff)
  have lb: "length b \<le> ?m" and c: "content (bsr_r st) = b @ content r'"
    and i': "inv r'" "fin r' = fin (bsr_r st)"
    using rd_prefix [OF i r] rd_inv [OF i r] by auto
  have le: "int (length b) \<le> ?left" "length b \<le> n" using lb pos by (auto split: if_splits)
  then have nl: "nat (?left - int (length b)) = nat ?left - length b" "length b \<le> nat ?left"
    by linarith+
  have base: "stream_inv inv content fin G D F st'" "stream_fin content fin st' = stream_fin content fin st"
      "stream_content content st = b @ stream_content content st'"
    using st c i' le nl by (auto simp: stream_defs st')
  show ?thesis
  proof (cases err)
    case None
    have "b \<noteq> [] \<or> rank r' < rank (bsr_r st)" if "0 < n"
      using rd_progress [OF i _ r [unfolded None]] that pos by (auto split: if_splits)
    with base e None le c show ?thesis by (auto simp: st' stream_content_def stream_fin_def)
  next
    case (Some x)
    then have "b = []" "x = fin (bsr_r st)" "content r' = []"
      using rd_clean [OF i] rd_end [OF i] r by auto
    with base e Some le c pos show ?thesis by (auto simp: st' stream_content_def stream_fin_def)
  qed
qed

lemma BSR_Read_total:
  "stream_inv inv content fin G D F st \<Longrightarrow> \<exists>b e st'. BSR_Read rd st n = Ok (b, e, st')"
proof -
  assume "stream_inv inv content fin G D F st"
  then have i: "inv (bsr_r st)" and "0 \<le> bsr_bytesLeft st" by (simp_all add: stream_inv_def)
  moreover obtain b e s' where "rd (bsr_r st) (if int n > bsr_bytesLeft st then nat (bsr_bytesLeft st) else n) = Ok (b, e, s')"
    using rd_total [OF i] by blast
  ultimately show ?thesis by (simp add: BSR_Read_def Let_def)
qed

lemma BSR_Read_reader:
  "io_reader (BSR_Read rd) (stream_inv inv content fin G D F) (stream_content content)
     (stream_fin content fin) (\<lambda>st. rank (bsr_r st))"
  proof
  fix st :: "'a BackupStreamReader" and n b e x st'
  assume st: "stream_inv inv content fin G D F st"
  then show "\<exists>b e s'. BSR_Read rd st n = Ok (b, e, s')" by (rule BSR_Read_total)
  show "BSR_Read rd st n = Ok (b, e, st') \<Longrightarrow> stream_inv inv content fin G D F st' \<and> stream_fin content fin st' = stream_fin content fin st"
    "BSR_Read rd st n = Ok (b, e, st') \<Longrightarrow> length b \<le> n \<and> stream_content content st = b @ stream_content content st'"
    "BSR_Read rd st n = Ok (b, Some x, st') \<Longrightarrow> x = stream_fin content fin st \<and> stream_content content st' = []"
    "0 < n \<Longrightarrow> BSR_Read rd st n = Ok (b, None, st') \<Longrightarrow> b \<noteq> [] \<or> rank (bsr_r st') < rank (bsr_r st)"
    by (auto dest!: BSR_Read_step [OF st])
qed

lemma io_copy_stream:
  assumes "inv (bsr_r st)" and "0 \<le> bsr_bytesLeft st" and "0 < sz"
  defines "c \<equiv> content (bsr_r st)" and "k \<equiv> bsr_bytesLeft st"
  obtains r' where "inv r'" "fin r' = fin (bsr_r st)" "content r' = drop (nat k) c"
    "io_copy (BSR_Read rd) sz st acc =
       Some (Ok (acc @ take (nat k) c,
         (if k \<le> int (length c) then None else Some (stream_fin content fin st)),
         \<lparr>bsr_r = r', bsr_bytesLeft = max 0 (k - int (length c))\<rparr>))"
proof -
  let ?G = "drop (nat k) c" and ?D = "k - int (length c)"
  have "stream_inv inv content fin ?G ?D (fin (bsr_r st)) st"
    using assms by (simp add: stream_inv_def)
  from io_reader.io_copy_correct [OF BSR_Read_reader this assms(3), of acc]
  obtain st' where st': "stream_inv inv content fin ?G ?D (fin (bsr_r st)) st'"
    and e: "stream_content content st' = []"
    and r: "io_copy (BSR_Read rd) sz st acc = Some (Ok (acc @ stream_content content st,
      if stream_fin content fin st = EOF then None else Some (stream_fin content fin st), st'))"
    by blast
  have "content (bsr_r st') = ?G" and "bsr_bytesLeft st' = max 0 ?D"
    using st' e by (auto simp: stream_inv_def stream_content_def)
  moreover have "stream_fin content fin st = EOF \<longleftrightarrow> k \<le> int (length c)"
    by (auto simp: stream_fin_def assms)
  ultimately show thesis
    using st' r by (intro that [of "bsr_r st'"]) (auto simp: stream_inv_def stream_content_def assms)
qed

lemma on_r_read:
  assumes "inv (bsr_r st)" and "content (bsr_r st) = b @ r" and "length b = w"
  obtains r' where "inv r'" "fin r' = fin (bsr_r st)" "content r' = r"
    "on_r (binary_Read rd dec w) st = Some (Ok (dec b), st\<lparr>bsr_r := r'\<rparr>)"
  using binary_Read_enough [OF assms, of dec thesis] by (auto simp: on_r_def)

text \<open>After the rest of the current stream is skipped, the next header follows.\<close>

lemma skip_rest_correct:
  assumes i: "inv (bsr_r st)" "0 \<le> bsr_bytesLeft st"
    and c: "content (bsr_r st) = old @ r" "int (length old) = bsr_bytesLeft st"
    and sk: "pred_option (good_seeker inv content fin) seek"
  obtains r' where "inv r'" "fin r' = fin (bsr_r st)" "content r' = r"
    "skip_rest rd seek st = Some (Ok (), \<lparr>bsr_r = r', bsr_bytesLeft = 0\<rparr>)"
proof (cases "bsr_bytesLeft st > 0")
  case False
  then have "bsr_bytesLeft st = 0" using i(2) by simp
  with i c show thesis by (intro that [of "bsr_r st"]) (auto simp: skip_rest_def)
next
  case pos: True
  note found = that
  have len: "nat (bsr_bytesLeft st) = length old" using c(2) by simp
  have discard: thesis if u: "inv (bsr_r u)" "fin (bsr_r u) = fin (bsr_r st)" "content (bsr_r u) = old' @ r"
    "bsr_bytesLeft u = int (length old')" "seek_rest seek st = Some (Ok (), u)" for u old'
  proof -
    have "(0 :: nat) < 8192" by simp
    then obtain r' where "inv r'" "fin r' = fin (bsr_r u)" "content r' = drop (nat (bsr_bytesLeft u)) (content (bsr_r u))"
      "io_copy (BSR_Read rd) 8192 u [] = Some (Ok ([] @ take (nat (bsr_bytesLeft u)) (content (bsr_r u)),
         (if bsr_bytesLeft u \<le> int (length (content (bsr_r u))) then None else Some (stream_fin content fin u)),
         \<lparr>bsr_r = r', bsr_bytesLeft = max 0 (bsr_bytesLeft u - int (length (content (bsr_r u))))\<rparr>))"
      using io_copy_stream [where st = u and sz = 8192 and acc = "[]"] u by auto
    then show thesis using pos u
      by (intro found [of r']) (auto simp: skip_rest_def discard_rest_def)
  qed
  show thesis
  proof (cases seek)
    case None
    then show thesis using i c by (intro discard [of st old]) (auto simp: seek_rest_def)
  next
    case (Some f)
    then have good: "good_seeker inv content fin f" using sk by simp
    from good i(1) obtain s1 where s1: "f (bsr_r st) 0 = (None, s1)" "inv s1" "fin s1 = fin (bsr_r st)"
      "content s1 = content (bsr_r st)" unfolding good_seeker_def by fastforce
    moreover from good this(2) c obtain s2 where "f s1 (bsr_bytesLeft st) = (None, s2)" "inv s2"
      "fin s2 = fin s1" "content s2 = r"
      unfolding good_seeker_def using i(2) s1(4) len by fastforce
    ultimately show thesis using Some
      by (intro discard [of "st\<lparr>bsr_r := s2, bsr_bytesLeft := 0\<rparr>" "[]"]) (auto simp: seek_rest_def)
  qed
qed

lemma Next_correct:
  assumes i: "inv (bsr_r st)" "0 \<le> bsr_bytesLeft st"
    and c: "content (bsr_r st) = old @ concat (header_parts hdr) @ r" "int (length old) = bsr_bytesLeft st"
    and sk: "pred_option (good_seeker inv content fin) seek"
    and ok: "header_ok hdr" and u: "utf16_law u16str"
  obtains r' where "inv r'" "fin r' = fin (bsr_r st)" "content r' = r"
    "Next rd seek u16str st = Some (Ok hdr, \<lparr>bsr_r = r', bsr_bytesLeft = Size hdr\<rparr>)"
proof -
  let ?name = "utf16_Encode (runes (Name hdr))"
  let ?sparse = "Id hdr = BackupSparseBlock"
  define wsi where "wsi = \<lparr>wsi_StreamID = Id hdr, wsi_Attributes = Attributes hdr,
     wsi_Size = word_of_int (Size hdr) + (if ?sparse then 8 else 0), wsi_NameSize = of_nat (length ?name * 2)\<rparr>"
  define off where "off = (if ?sparse then i64_enc (Offset hdr) else [])"
  have parts: "concat (header_parts hdr) = wsi_enc wsi @ enc_list (le_enc 2) ?name @ off"
    by (simp add: header_parts_def Let_def wsi_def off_def)
  obtain r0 where r0: "inv r0" "fin r0 = fin (bsr_r st)" "content r0 = concat (header_parts hdr) @ r"
    "skip_rest rd seek st = Some (Ok (), \<lparr>bsr_r = r0, bsr_bytesLeft = 0\<rparr>)"
    by (rule skip_rest_correct [OF i c sk])
  obtain r1 where r1: "inv r1" "fin r1 = fin r0" "content r1 = enc_list (le_enc 2) ?name @ off @ r"
    "on_r (binary_Read rd wsi_dec 20) \<lparr>bsr_r = r0, bsr_bytesLeft = 0\<rparr> = Some (Ok wsi, \<lparr>bsr_r = r1, bsr_bytesLeft = 0\<rparr>)"
    using on_r_read [of "\<lparr>bsr_r = r0, bsr_bytesLeft = 0\<rparr>" "wsi_enc wsi" "enc_list (le_enc 2) ?name @ off @ r" 20 wsi_dec thesis]
      r0(1,3) parts by (auto simp: wsi.length_enc wsi.dec_enc)
  have name: "u16str ?name = Name hdr" by (rule header_ok_name [OF ok u])
  have k: "unat (of_nat (length ?name * 2) :: u32) = length ?name * 2"
    using ok by (simp only: unat_of_nat_eq_iff) (simp add: header_ok_def)
  obtain r2 where r2: "inv r2" "fin r2 = fin r0" "content r2 = off @ r"
    "read_name rd u16str (wsi_NameSize wsi) \<lparr>bsr_r = r1, bsr_bytesLeft = 0\<rparr> =
       Some (Ok (Name hdr), \<lparr>bsr_r = r2, bsr_bytesLeft = 0\<rparr>)"
  proof (cases "?name = []")
    case True
    with r1 show thesis by (intro that [of r1]) (auto simp: read_name_def wsi_def)
  next
    case False
    have "unat (wsi_NameSize wsi div 2) = length ?name" "wsi_NameSize wsi \<noteq> 0"
      using k False unfolding unat_eq_0 [symmetric] by (auto simp: wsi_def unat_div simp del: of_nat_mult)
    moreover obtain r2 where "inv r2" "fin r2 = fin r1" "content r2 = off @ r"
      "on_r (binary_Read rd (dec_list le_dec 2 (length ?name)) (2 * length ?name)) \<lparr>bsr_r = r1, bsr_bytesLeft = 0\<rparr> =
         Some (Ok ?name, \<lparr>bsr_r = r2, bsr_bytesLeft = 0\<rparr>)"
      using on_r_read [of "\<lparr>bsr_r = r1, bsr_bytesLeft = 0\<rparr>" "enc_list (le_enc 2) ?name" "off @ r" "2 * length ?name"
          "dec_list (le_dec :: bytes \<Rightarrow> u16) 2 (length ?name)" thesis] r1(1,3)
      by (auto simp: le16.length_enc_list le16.dec_list_enc list_all_iff)
    ultimately show thesis using name r1(2) by (intro that [of r2]) (auto simp: read_name_def)
  qed
  obtain r3 where r3: "inv r3" "fin r3 = fin r0" "content r3 = r"
    "read_offset rd (wsi_StreamID wsi) (sint (wsi_Size wsi)) \<lparr>bsr_r = r2, bsr_bytesLeft = 0\<rparr> =
       Some (Ok (Offset hdr, Size hdr), \<lparr>bsr_r = r3, bsr_bytesLeft = 0\<rparr>)"
  proof (cases ?sparse)
    case True
    obtain r3 where "inv r3" "fin r3 = fin r2" "content r3 = r"
      "on_r (binary_Read rd i64_dec 8) \<lparr>bsr_r = r2, bsr_bytesLeft = 0\<rparr> = Some (Ok (Offset hdr), \<lparr>bsr_r = r3, bsr_bytesLeft = 0\<rparr>)"
      using on_r_read [of "\<lparr>bsr_r = r2, bsr_bytesLeft = 0\<rparr>" off r 8 i64_dec thesis] r2(1,3) ok True
      by (auto simp: off_def header_ok_def i64.dec_enc)
    with True ok r2(2) show thesis
      by (intro that [of r3]) (auto simp: read_offset_def wsi_def wrap64_sparse header_ok_def)
  next
    case False
    with ok r2 show thesis
      by (intro that [of r2]) (auto simp: read_offset_def wsi_def off_def header_ok_def int64_ok_def)
  qed
  have "Next rd seek u16str st = Some (Ok hdr, \<lparr>bsr_r = r3, bsr_bytesLeft = Size hdr\<rparr>)"
    using r0(4) r1(4) r2(4) r3(4) by (simp add: Next_def wsi_def)
  then show thesis using r0(2) r3 by (intro that) auto
qed

end

sublocale clean_reader \<subseteq> bsr: io_reader "BSR_Read rd"
  "\<lambda>st. stream_inv inv content fin (drop (nat (bsr_bytesLeft st)) (content (bsr_r st)))
     (bsr_bytesLeft st - int (length (content (bsr_r st)))) (fin (bsr_r st)) st"
  "stream_content content" "stream_fin content fin" "\<lambda>st. rank (bsr_r st)"
proof
  fix st :: "'a BackupStreamReader" and n b e x st'
  let ?G = "drop (nat (bsr_bytesLeft st)) (content (bsr_r st))"
    and ?D = "bsr_bytesLeft st - int (length (content (bsr_r st)))"
  assume st: "stream_inv inv content fin ?G ?D (fin (bsr_r st)) st"
  then show "\<exists>b e s'. BSR_Read rd st n = Ok (b, e, s')" by (rule BSR_Read_total)
  note step = BSR_Read_step [OF st]
  show "BSR_Read rd st n = Ok (b, e, st') \<Longrightarrow>
      stream_inv inv content fin (drop (nat (bsr_bytesLeft st')) (content (bsr_r st')))
        (bsr_bytesLeft st' - int (length (content (bsr_r st')))) (fin (bsr_r st')) st' \<and>
      stream_fin content fin st' = stream_fin content fin st"
    using step [of n b e st'] by (auto simp: stream_inv_def)
  show "BSR_Read rd st n = Ok (b, e, st') \<Longrightarrow> length b \<le> n \<and> stream_content content st = b @ stream_content content st'"
    "BSR_Read rd st n = Ok (b, Some x, st') \<Longrightarrow> x = stream_fin content fin st \<and> stream_content content st' = []"
    "0 < n \<Longrightarrow> BSR_Read rd st n = Ok (b, None, st') \<Longrightarrow> b \<noteq> [] \<or> rank (bsr_r st') < rank (bsr_r st)"
    by (auto dest!: step)
qed

section \<open>Whole backup streams\<close>

text \<open>A client that writes, and one that reads, a sequence of streams.\<close>

fun write_streams ::
  "'w writer \<Rightarrow> 'w BackupStreamWriter \<Rightarrow> (BackupHeader \<times> bytes) list \<Rightarrow> go_error option \<times> 'w BackupStreamWriter"
where
  "write_streams wr w [] = (None, w)"
| "write_streams wr w ((hdr, data) # ss) =
     (case WriteHeader wr w hdr of
        (Some e, w') \<Rightarrow> (Some e, w')
      | (None, w') \<Rightarrow>
          (case BSW_Write wr w' data of
             (_, Some e, w'') \<Rightarrow> (Some e, w'')
           | (_, None, w'') \<Rightarrow> write_streams wr w'' ss))"

definition copy_stream ::
  "'s reader \<Rightarrow> nat \<Rightarrow> 's BackupStreamReader \<Rightarrow> (bytes, 's BackupStreamReader) io" where
  "copy_stream rd sz st =
     (case io_copy (BSR_Read rd) sz st [] of
        None \<Rightarrow> None
      | Some (Ok (b, None, st')) \<Rightarrow> Some (Ok b, st')
      | Some (Ok (b, Some e, st')) \<Rightarrow> Some (Err e, st')
      | Some (Err e) \<Rightarrow> Some (Err e, st)
      | Some (Panic p) \<Rightarrow> Some (Panic p, st))"

fun read_streams ::
  "'s reader \<Rightarrow> 's seeker option \<Rightarrow> (u16 list \<Rightarrow> gostring) \<Rightarrow> nat \<Rightarrow> nat \<Rightarrow> 's BackupStreamReader \<Rightarrow>
     ((BackupHeader \<times> bytes) list, 's BackupStreamReader) io"
where
  "read_streams rd seek u16str sz 0 st = Some (Ok [], st)"
| "read_streams rd seek u16str sz (Suc n) st =
     io_bind (Next rd seek u16str st) (\<lambda>hdr st.
     io_bind (copy_stream rd sz st) (\<lambda>data st.
     io_bind (read_streams rd seek u16str sz n st) (\<lambda>ss st.
     Some (Ok ((hdr, data) # ss), st))))"

definition stream_ok :: "BackupHeader \<times> bytes \<Rightarrow> bool" where
  "stream_ok s \<longleftrightarrow> header_ok (fst s) \<and> Size (fst s) = int (length (snd s))"

definition stream_image :: "(BackupHeader \<times> bytes) list \<Rightarrow> bytes" where
  "stream_image ss = concat (map (\<lambda>(hdr, data). concat (header_parts hdr) @ data) ss)"

lemma write_parts_buf: "write_parts buf_write w ps = (None, w @ concat ps)"
  by (induction ps arbitrary: w) (simp_all add: binary_Write_def buf_write_def)

lemma write_streams_buf:
  "list_all stream_ok ss \<Longrightarrow>
     write_streams buf_write \<lparr>bsw_w = w, bsw_bytesLeft = 0\<rparr> ss =
       (None, \<lparr>bsw_w = w @ stream_image ss, bsw_bytesLeft = 0\<rparr>)"
  by (induction ss arbitrary: w)
    (auto simp: WriteHeader_def BSW_Write_def write_parts_buf buf_write_def stream_image_def stream_ok_def)

context clean_reader
begin

lemma read_streams_correct:
  assumes "list_all stream_ok ss" and "0 < sz"
    and "pred_option (good_seeker inv content fin) seek" and "utf16_law u16str"
    and "inv r" and "content r = stream_image ss @ rest"
  shows "\<exists>r'. inv r' \<and> fin r' = fin r \<and> content r' = rest \<and>
    read_streams rd seek u16str sz (length ss) \<lparr>bsr_r = r, bsr_bytesLeft = 0\<rparr> =
      Some (Ok ss, \<lparr>bsr_r = r', bsr_bytesLeft = 0\<rparr>)"
  using assms(1,5,6)
proof (induction ss arbitrary: r)
  case Nil
  then show ?case by (auto simp: stream_image_def)
next
  case (Cons s ss)
  obtain hdr data where s: "s = (hdr, data)" by (cases s)
  let ?st = "\<lparr>bsr_r = r, bsr_bytesLeft = 0\<rparr>"
  from Cons.prems have ok: "header_ok hdr" "Size hdr = int (length data)" "list_all stream_ok ss"
    and c: "content (bsr_r ?st) = [] @ concat (header_parts hdr) @ data @ stream_image ss @ rest"
    by (simp_all add: s stream_ok_def [of "(hdr, data)"] stream_image_def)
  obtain r1 where r1: "inv r1" "fin r1 = fin r" "content r1 = data @ stream_image ss @ rest"
    "Next rd seek u16str ?st = Some (Ok hdr, \<lparr>bsr_r = r1, bsr_bytesLeft = Size hdr\<rparr>)"
    using Next_correct [OF _ _ c _ assms(3) ok(1) assms(4), of thesis] Cons.prems(2) by auto
  obtain r2 where r2: "inv r2" "fin r2 = fin r1" "content r2 = stream_image ss @ rest"
    "io_copy (BSR_Read rd) sz \<lparr>bsr_r = r1, bsr_bytesLeft = Size hdr\<rparr> [] =
       Some (Ok (data, None, \<lparr>bsr_r = r2, bsr_bytesLeft = 0\<rparr>))"
    using io_copy_stream [where st = "\<lparr>bsr_r = r1, bsr_bytesLeft = Size hdr\<rparr>" and sz = sz
        and acc = "[]" and thesis = thesis] r1 ok(2) assms(2) by auto
  from Cons.IH [OF ok(3) r2(1,3)] r1 r2 show ?case
    by (auto simp: s copy_stream_def)
qed

lemma Next_at_end:
  assumes "inv r" and "content r = []" and "fin r = EOF"
  shows "\<exists>r'. Next rd seek u16str \<lparr>bsr_r = r, bsr_bytesLeft = 0\<rparr> =
    Some (Err EOF, \<lparr>bsr_r = r', bsr_bytesLeft = 0\<rparr>)"
proof -
  have "length (content r) < 20" using assms by simp
  then obtain r' where "binary_Read rd wsi_dec 20 r = Some (Err EOF, r')"
    using binary_Read_short [OF assms(1), of 20 wsi_dec thesis] assms by auto
  then show ?thesis by (simp add: Next_def skip_rest_def on_r_def)
qed

end

text \<open>
  C27: A sequence of backup streams written through \<^verbatim>\<open>BackupStreamWriter\<close> is accepted
  without an error, and \<^verbatim>\<open>BackupStreamReader\<close> over any reader of the bytes written
  (whatever the sizes of its reads, with or without \<^verbatim>\<open>Seek\<close>) returns the same headers
  and data, after which \<^verbatim>\<open>Next\<close> reports the end of the input.
\<close>

theorem backup_write_read:
  assumes "clean_reader rd ok content fin rank" and "pred_option (good_seeker ok content fin) seek"
    and "utf16_law u16str" and "0 < sz" and "list_all stream_ok ss" and "ok r" and "fin r = EOF"
    and "content r = bsw_w (snd (write_streams buf_write (NewBackupStreamWriter []) ss))"
  shows "fst (write_streams buf_write (NewBackupStreamWriter []) ss) = None \<and>
    (\<exists>st. read_streams rd seek u16str sz (length ss) (NewBackupStreamReader r) = Some (Ok ss, st) \<and>
       map_option fst (Next rd seek u16str st) = Some (Err EOF))"
proof -
  note w = write_streams_buf [OF assms(5), of "[]"]
  then have c: "content r = stream_image ss @ []"
    using assms(8) by (simp add: NewBackupStreamWriter_def)
  from clean_reader.read_streams_correct [OF assms(1,5,4,2,3,6) c]
  obtain r' where r': "ok r'" "fin r' = fin r" "content r' = []"
    "read_streams rd seek u16str sz (length ss) \<lparr>bsr_r = r, bsr_bytesLeft = 0\<rparr> =
       Some (Ok ss, \<lparr>bsr_r = r', bsr_bytesLeft = 0\<rparr>)" by blast
  from clean_reader.Next_at_end [OF assms(1) r'(1,3)] r'(2) assms(7)
  have "map_option fst (Next rd seek u16str \<lparr>bsr_r = r', bsr_bytesLeft = 0\<rparr>) = Some (Err EOF)" by fastforce
  with r'(4) w show ?thesis by (simp add: NewBackupStreamReader_def NewBackupStreamWriter_def)
qed

text \<open>A sparse block and an alternate data stream, read three bytes at a time.\<close>

definition sample_streams :: "(BackupHeader \<times> bytes) list" where
  "sample_streams =
     [(\<lparr>Id = BackupSparseBlock, Attributes = 8, Size = 2, Name = [], Offset = 4096\<rparr>, [1, 2]),
      (\<lparr>Id = BackupAlternateData, Attributes = 0, Size = 1, Name = [58, 97], Offset = 0\<rparr>, [7])]"

definition sample_seek :: "portions seeker" where
  "sample_seek s k = (None, (drop (nat k) (fst s), snd s))"

definition sample_utf16 :: "u16 list \<Rightarrow> gostring" where
  "sample_utf16 xs = string_of_runes (utf16_Decode (takeWhile (\<lambda>x. x \<noteq> 0) xs))"

lemma sample_utf16_law: "utf16_law sample_utf16"
proof -
  have "takeWhile (\<lambda>x. x \<noteq> 0) xs = xs" if "0 \<notin> set xs" for xs :: "u16 list"
    using that by (induction xs) auto
  then show ?thesis unfolding utf16_law_def sample_utf16_def by presburger
qed

lemma sample_seek_good: "good_seeker any_value fst (\<lambda>_. EOF) sample_seek"
  by (auto simp: good_seeker_def sample_seek_def)

lemma sample_streams_ok: "list_all stream_ok sample_streams"
proof -
  have "runes [58, 97] = [58, 97]" using runes_ascii [of "[58, 97]" "[]"] by simp
  then show ?thesis
    by (simp add: sample_streams_def stream_ok_def header_ok_def utf8_valid_def string_of_runes_def
        EncodeRune_def scalar_def EncodeRune16_def BackupSparseBlock_def BackupAlternateData_def int64_ok_def)
qed

theorem backup_write_read_witness:
  "fst (write_streams buf_write (NewBackupStreamWriter []) sample_streams) = None \<and>
    (\<exists>st. read_streams mem_read (Some sample_seek) sample_utf16 3 (length sample_streams)
         (NewBackupStreamReader (bsw_w (snd (write_streams buf_write (NewBackupStreamWriter []) sample_streams)), [3, 0, 1]))
         = Some (Ok sample_streams, st) \<and>
       map_option fst (Next mem_read (Some sample_seek) sample_utf16 st) = Some (Err EOF))"
  using backup_write_read [OF mem.clean_reader_axioms _ sample_utf16_law _ sample_streams_ok, of "Some sample_seek" 3
      "(bsw_w (snd (write_streams buf_write (NewBackupStreamWriter []) sample_streams)), [3, 0, 1])"]
  by (simp add: sample_seek_good)

text \<open>
  \<^verbatim>\<open>Next\<close> called in the middle of a stream skips what is left of it, by seeking or
  by reading, and returns the header that follows; \<^verbatim>\<open>Read\<close> is then set up for exactly
  the data of the new stream.
\<close>

theorem backup_Next_skips:
  assumes "clean_reader rd ok content fin rank" and "pred_option (good_seeker ok content fin) seek"
    and "utf16_law u16str" and "header_ok hdr" and "ok (bsr_r st)"
    and "content (bsr_r st) = left @ concat (header_parts hdr) @ rest" and "bsr_bytesLeft st = int (length left)"
  shows "\<exists>r'. ok r' \<and> content r' = rest \<and>
    Next rd seek u16str st = Some (Ok hdr, \<lparr>bsr_r = r', bsr_bytesLeft = Size hdr\<rparr>)"
  using clean_reader.Next_correct [OF assms(1,5) _ assms(6) _ assms(2,4,3)] assms(7) by (metis of_nat_0_le_iff)

theorem backup_Next_skips_witness:
  "\<exists>r'. fst r' = [9] \<and>
    Next mem_read None sample_utf16 \<lparr>bsr_r = ([5, 6] @ concat (header_parts (fst (hd sample_streams))) @ [9], [1]), bsr_bytesLeft = 2\<rparr>
      = Some (Ok (fst (hd sample_streams)), \<lparr>bsr_r = r', bsr_bytesLeft = 2\<rparr>)"
proof -
  have "header_ok (fst (hd sample_streams))"
    using sample_streams_ok by (simp add: sample_streams_def stream_ok_def)
  then show ?thesis
    using backup_Next_skips [OF mem.clean_reader_axioms _ sample_utf16_law, of None "fst (hd sample_streams)"
        "\<lparr>bsr_r = ([5, 6] @ concat (header_parts (fst (hd sample_streams))) @ [9], [1]), bsr_bytesLeft = 2\<rparr>" "[5, 6]" "[9]"]
    by (simp add: sample_streams_def)
qed

text \<open>
  Copying the current stream delivers exactly its \<^verbatim>\<open>bytesLeft\<close> bytes and stops
  without an error at its end, leaving the rest of the input unread; when the input ends
  earlier it delivers what there is and fails with \<^verbatim>\<open>io.ErrUnexpectedEOF\<close> (or with the
  underlying error), never silently.
\<close>

theorem backup_Read_stream:
  assumes "clean_reader rd ok content fin rank" and "ok (bsr_r st)" and "0 \<le> bsr_bytesLeft st" and "0 < sz"
  shows "\<exists>r'. ok r' \<and> content r' = drop (nat (bsr_bytesLeft st)) (content (bsr_r st)) \<and>
    io_copy (BSR_Read rd) sz st [] =
      Some (Ok (take (nat (bsr_bytesLeft st)) (content (bsr_r st)),
        (if bsr_bytesLeft st \<le> int (length (content (bsr_r st))) then None
         else if fin (bsr_r st) = EOF then Some ErrUnexpectedEOF else Some (fin (bsr_r st))),
        \<lparr>bsr_r = r', bsr_bytesLeft = max 0 (bsr_bytesLeft st - int (length (content (bsr_r st))))\<rparr>))"
proof -
  obtain r' where "ok r'" "content r' = drop (nat (bsr_bytesLeft st)) (content (bsr_r st))"
    "io_copy (BSR_Read rd) sz st [] = Some (Ok ([] @ take (nat (bsr_bytesLeft st)) (content (bsr_r st)),
        (if bsr_bytesLeft st \<le> int (length (content (bsr_r st))) then None else Some (stream_fin content fin st)),
        \<lparr>bsr_r = r', bsr_bytesLeft = max 0 (bsr_bytesLeft st - int (length (content (bsr_r st))))\<rparr>))"
    by (rule clean_reader.io_copy_stream [OF assms])
  then show ?thesis by (auto simp: stream_fin_def)
qed

theorem backup_Read_stream_witness:
  "\<exists>r'. fst r' = [] \<and>
    io_copy (BSR_Read mem_read) 2 \<lparr>bsr_r = ([1, 2, 3], []), bsr_bytesLeft = 5\<rparr> [] =
      Some (Ok ([1, 2, 3], Some ErrUnexpectedEOF, \<lparr>bsr_r = r', bsr_bytesLeft = 2\<rparr>))"
  using backup_Read_stream [OF mem.clean_reader_axioms, of "\<lparr>bsr_r = ([1, 2, 3], []), bsr_bytesLeft = 5\<rparr>" 2]
  by (simp add: eval_nat_numeral)

section \<open>Where the reader departs from its intent\<close>

text \<open>
  A reader may return its last bytes together with \<^verbatim>\<open>io.EOF\<close>. \<open>eager_read\<close> does,
  and keeps the contract of \<^verbatim>\<open>io.Reader\<close>.
\<close>

definition eager_read :: "bytes reader" where
  "eager_read s n = Ok (take n s, if length s \<le> n then Some EOF else None, drop n s)"

interpretation eager: io_reader eager_read any_value id "\<lambda>_. EOF" "\<lambda>_. 0"
  by unfold_locales (auto simp: eager_read_def split: if_splits)

text \<open>
  Over a reader that returns its last bytes together with \<^verbatim>\<open>io.EOF\<close>, as the contract
  of \<^verbatim>\<open>io.Reader\<close> allows, reading a stream that ends with the input delivers all of
  its bytes and nevertheless fails with \<^verbatim>\<open>io.ErrUnexpectedEOF\<close>.
\<close>

theorem backup_Read_eager_eof:
  "io_reader eager_read any_value id (\<lambda>_. EOF) (\<lambda>_. 0) \<and>
   io_copy (BSR_Read eager_read) (length (x # xs) + k) \<lparr>bsr_r = x # xs, bsr_bytesLeft = int (length (x # xs))\<rparr> [] =
     Some (Ok (x # xs, Some ErrUnexpectedEOF, \<lparr>bsr_r = [], bsr_bytesLeft = 0\<rparr>))"
proof
  show "io_reader eager_read any_value id (\<lambda>_. EOF) (\<lambda>_. 0)" by (rule eager.io_reader_axioms)
  have "nat (int (length (x # xs))) = length (x # xs)" by (rule nat_int)
  then have "BSR_Read eager_read \<lparr>bsr_r = x # xs, bsr_bytesLeft = int (length (x # xs))\<rparr> (length (x # xs) + k) =
      Ok (x # xs, Some ErrUnexpectedEOF, \<lparr>bsr_r = [], bsr_bytesLeft = 0\<rparr>)"
    by (cases "k = 0") (simp_all add: BSR_Read_def eager_read_def Let_def)
  then show "io_copy (BSR_Read eager_read) (length (x # xs) + k) \<lparr>bsr_r = x # xs, bsr_bytesLeft = int (length (x # xs))\<rparr> [] =
     Some (Ok (x # xs, Some ErrUnexpectedEOF, \<lparr>bsr_r = [], bsr_bytesLeft = 0\<rparr>))"
    by (subst io_copy.simps) simp
qed

lemma panics_BSR_Read_mem: "panics (BSR_Read mem_read st n) \<longleftrightarrow> bsr_bytesLeft st < 0"
proof (cases "bsr_bytesLeft st \<le> 0")
  case False
  obtain b e s' where "mem_read (bsr_r st) (if int n > bsr_bytesLeft st then nat (bsr_bytesLeft st) else n) = Ok (b, e, s')"
    using mem.rd_total [OF TrueI] by blast
  with False show ?thesis by (simp add: BSR_Read_def Let_def)
qed (auto simp: BSR_Read_def)

text \<open>
  A header is accepted whatever its size field: \<^verbatim>\<open>Next\<close> succeeds, and a later
  \<^verbatim>\<open>Read\<close> panics exactly when the size, as a signed 64-bit number and less the eight
  bytes of the offset of a sparse block, is negative. (A header without a name is shown.)
\<close>

theorem backup_negative_size_panics:
  "\<exists>hdr st. Next mem_read None u16str
      (NewBackupStreamReader
        (wsi_enc \<lparr>wsi_StreamID = sid, wsi_Attributes = attrs, wsi_Size = sz, wsi_NameSize = 0\<rparr> @ i64_enc off @ rest, [])) =
      Some (Ok hdr, st) \<and>
    (panics (BSR_Read mem_read st n) \<longleftrightarrow>
       (if sid = BackupSparseBlock then wrap64 (sint sz - 8) < 0 else sint sz < 0))"
proof -
  define w where "w = \<lparr>wsi_StreamID = sid, wsi_Attributes = attrs, wsi_Size = sz, wsi_NameSize = 0\<rparr>"
  let ?st = "\<lambda>r. \<lparr>bsr_r = r, bsr_bytesLeft = 0\<rparr>"
  obtain r1 where r1: "fst r1 = i64_enc off @ rest"
    "on_r (binary_Read mem_read wsi_dec 20) (?st (wsi_enc w @ i64_enc off @ rest, [])) = Some (Ok w, ?st r1)"
    using mem.on_r_read [of "?st (wsi_enc w @ i64_enc off @ rest, [])" "wsi_enc w" "i64_enc off @ rest" 20 wsi_dec thesis]
    by (auto simp: wsi.length_enc wsi.dec_enc)
  obtain r2 where r2: "on_r (binary_Read mem_read i64_dec 8) (?st r1) = Some (Ok (i64_dec (i64_enc off)), ?st r2)"
    using mem.on_r_read [of "?st r1" "i64_enc off" rest 8 i64_dec thesis] r1(1) by auto
  have "\<exists>hdr st. Next mem_read None u16str (?st (wsi_enc w @ i64_enc off @ rest, [])) = Some (Ok hdr, st) \<and>
      bsr_bytesLeft st = (if sid = BackupSparseBlock then wrap64 (sint sz - 8) else sint sz)"
    by (simp add: Next_def skip_rest_def r1(2) r2 read_name_def read_offset_def w_def [symmetric])
      (simp add: w_def)
  then show ?thesis
    by (auto simp: panics_BSR_Read_mem NewBackupStreamReader_def w_def)
qed

section \<open>The writer's accounting\<close>

text \<open>A client that offers chunks in turn; the chunks accepted are returned.\<close>

fun write_chunks :: "'w writer \<Rightarrow> 'w BackupStreamWriter \<Rightarrow> bytes list \<Rightarrow> bytes list \<times> 'w BackupStreamWriter" where
  "write_chunks wr w [] = ([], w)"
| "write_chunks wr w (c # cs) =
     (case BSW_Write wr w c of
        (_, err, w') \<Rightarrow> (case write_chunks wr w' cs of (acc, w'') \<Rightarrow> (if err = None then c # acc else acc, w'')))"

text \<open>
  Whatever chunks are offered to \<^verbatim>\<open>Write\<close> after a header of \<open>n\<close> bytes, the output is
  the accepted chunks in order, \<^verbatim>\<open>bytesLeft\<close> is what they leave of the \<open>n\<close> bytes and never
  negative, and the next \<^verbatim>\<open>WriteHeader\<close> succeeds exactly when all \<open>n\<close> bytes were written;
  otherwise it writes nothing.
\<close>

theorem backup_writer_accounting:
  "\<exists>acc w. write_chunks buf_write \<lparr>bsw_w = out, bsw_bytesLeft = int n\<rparr> cs = (acc, w) \<and>
    bsw_w w = out @ concat acc \<and> length (concat acc) \<le> n \<and>
    bsw_bytesLeft w = int (n - length (concat acc)) \<and>
    (fst (WriteHeader buf_write w hdr) = None \<longleftrightarrow> length (concat acc) = n) \<and>
    (fst (WriteHeader buf_write w hdr) = None \<or> snd (WriteHeader buf_write w hdr) = w)"
proof (induction cs arbitrary: out n)
  case Nil
  show ?case by (simp add: WriteHeader_def write_parts_buf)
next
  case (Cons c cs)
  show ?case
  proof (cases "length c \<le> n")
    case True
    then have "BSW_Write buf_write \<lparr>bsw_w = out, bsw_bytesLeft = int n\<rparr> c =
        (length c, None, \<lparr>bsw_w = out @ c, bsw_bytesLeft = int (n - length c)\<rparr>)"
      by (simp add: BSW_Write_def buf_write_def of_nat_diff)
    with Cons.IH [of "out @ c" "n - length c"] True show ?thesis by auto
  next
    case False
    then have "\<exists>e. BSW_Write buf_write \<lparr>bsw_w = out, bsw_bytesLeft = int n\<rparr> c =
        (0, Some e, \<lparr>bsw_w = out, bsw_bytesLeft = int n\<rparr>)"
      by (simp add: BSW_Write_def)
    with Cons.IH [of out n] show ?thesis by auto
  qed
qed

section \<open>The context of the file reader and writer\<close>

text \<open>
  \<^verbatim>\<open>Close\<close> never fails, makes the aborting system call exactly when the context is
  set, and clears the context, so that closing again changes nothing; for the reader and for
  the writer.
\<close>

theorem backup_file_close:
  "fst (BFR_Close br (os, r)) = None \<and>
   bfr_ctx (snd (snd (BFR_Close br (os, r)))) = 0 \<and>
   fst (snd (BFR_Close br (os, r))) =
     (if bfr_ctx r = 0 then os else snd (snd (snd (br os (bfr_f r) 0 True False (bfr_ctx r))))) \<and>
   BFR_Close br (snd (BFR_Close br (os, r))) = BFR_Close br (os, r) \<and>
   BFW_Close bw (snd (BFW_Close bw (os, w))) = BFW_Close bw (os, w) \<and>
   bfw_ctx (snd (snd (BFW_Close bw (os, w)))) = 0"
  by (simp add: BFR_Close_def BFW_Close_def split: prod.splits)

end
