(* ===== verification/Etw_Event.thy ===== *)
theory Etw_Event
  imports Go_Prelude
begin

text \<open>
  Building the metadata and data of an ETW TraceLogging event
  (\<^verbatim>\<open>src/pkg/etw/eventdata.go\<close>, \<^verbatim>\<open>eventmetadata.go\<close>,
  \<^verbatim>\<open>fieldopt.go\<close>): the two append-only buffers, the field types, the tags, and one
  option per field type. A decoder of the format is defined as the specification: it reads
  back the fields that the options write.
\<close>

named_theorems etw_types \<open>values of the TraceLogging type codes\<close>

section \<open>Type codes\<close>

definition inTypeNull :: byte where [etw_types]: "inTypeNull = 0"
definition inTypeUnicodeString :: byte where [etw_types]: "inTypeUnicodeString = 1"
definition inTypeANSIString :: byte where [etw_types]: "inTypeANSIString = 2"
definition inTypeInt8 :: byte where [etw_types]: "inTypeInt8 = 3"
definition inTypeUint8 :: byte where [etw_types]: "inTypeUint8 = 4"
definition inTypeInt16 :: byte where [etw_types]: "inTypeInt16 = 5"
definition inTypeUint16 :: byte where [etw_types]: "inTypeUint16 = 6"
definition inTypeInt32 :: byte where [etw_types]: "inTypeInt32 = 7"
definition inTypeUint32 :: byte where [etw_types]: "inTypeUint32 = 8"
definition inTypeInt64 :: byte where [etw_types]: "inTypeInt64 = 9"
definition inTypeUint64 :: byte where [etw_types]: "inTypeUint64 = 10"
definition inTypeFloat :: byte where [etw_types]: "inTypeFloat = 11"
definition inTypeDouble :: byte where [etw_types]: "inTypeDouble = 12"
definition inTypeBool32 :: byte where [etw_types]: "inTypeBool32 = 13"
definition inTypeBinary :: byte where [etw_types]: "inTypeBinary = 14"
definition inTypeGUID :: byte where [etw_types]: "inTypeGUID = 15"
definition inTypePointerUnsupported :: byte where [etw_types]: "inTypePointerUnsupported = 16"
definition inTypeFileTime :: byte where [etw_types]: "inTypeFileTime = 17"
definition inTypeSystemTime :: byte where [etw_types]: "inTypeSystemTime = 18"
definition inTypeSID :: byte where [etw_types]: "inTypeSID = 19"
definition inTypeHexInt32 :: byte where [etw_types]: "inTypeHexInt32 = 20"
definition inTypeHexInt64 :: byte where [etw_types]: "inTypeHexInt64 = 21"
definition inTypeCountedString :: byte where [etw_types]: "inTypeCountedString = 22"
definition inTypeCountedANSIString :: byte where [etw_types]: "inTypeCountedANSIString = 23"
definition inTypeStruct :: byte where [etw_types]: "inTypeStruct = 24"
definition inTypeCountedBinary :: byte where [etw_types]: "inTypeCountedBinary = 25"
definition inTypeCountedArray :: byte where [etw_types]: "inTypeCountedArray = 32"
definition inTypeArray :: byte where [etw_types]: "inTypeArray = 64"
definition outTypeDefault :: byte where [etw_types]: "outTypeDefault = 0"
definition outTypeNoPrint :: byte where [etw_types]: "outTypeNoPrint = 1"
definition outTypeString :: byte where [etw_types]: "outTypeString = 2"
definition outTypeBoolean :: byte where [etw_types]: "outTypeBoolean = 3"
definition outTypeHex :: byte where [etw_types]: "outTypeHex = 4"
definition outTypePID :: byte where [etw_types]: "outTypePID = 5"
definition outTypeTID :: byte where [etw_types]: "outTypeTID = 6"
definition outTypePort :: byte where [etw_types]: "outTypePort = 7"
definition outTypeIPv4 :: byte where [etw_types]: "outTypeIPv4 = 8"
definition outTypeIPv6 :: byte where [etw_types]: "outTypeIPv6 = 9"
definition outTypeSocketAddress :: byte where [etw_types]: "outTypeSocketAddress = 10"
definition outTypeXML :: byte where [etw_types]: "outTypeXML = 11"
definition outTypeJSON :: byte where [etw_types]: "outTypeJSON = 12"
definition outTypeWin32Error :: byte where [etw_types]: "outTypeWin32Error = 13"
definition outTypeNTStatus :: byte where [etw_types]: "outTypeNTStatus = 14"
definition outTypeHResult :: byte where [etw_types]: "outTypeHResult = 15"
definition outTypeFileTime :: byte where [etw_types]: "outTypeFileTime = 16"
definition outTypeSigned :: byte where [etw_types]: "outTypeSigned = 17"
definition outTypeUnsigned :: byte where [etw_types]: "outTypeUnsigned = 18"
definition outTypeUTF8 :: byte where [etw_types]: "outTypeUTF8 = 35"
definition outTypePKCS7WithTypeInfo :: byte where [etw_types]: "outTypePKCS7WithTypeInfo = 36"
definition outTypeCodePointer :: byte where [etw_types]: "outTypeCodePointer = 37"
definition outTypeDateTimeUTC :: byte where [etw_types]: "outTypeDateTimeUTC = 38"

section \<open>Event data\<close>

text \<open>Both buffers are \<^verbatim>\<open>bytes.Buffer\<close>s that only grow: their contents is the state.\<close>

type_synonym eventData = bytes
type_synonym eventMetadata = bytes

definition ed_toBytes :: "eventData \<Rightarrow> bytes" where "ed_toBytes ed = ed"
definition writeString :: "eventData \<Rightarrow> gostring \<Rightarrow> eventData" where "writeString ed s = ed @ s @ [0]"
definition writeInt8 :: "eventData \<Rightarrow> byte \<Rightarrow> eventData" where "writeInt8 ed v = ed @ [v]"
definition writeInt16 :: "eventData \<Rightarrow> u16 \<Rightarrow> eventData" where "writeInt16 ed v = ed @ le_enc 2 v"
definition writeInt32 :: "eventData \<Rightarrow> u32 \<Rightarrow> eventData" where "writeInt32 ed v = ed @ le_enc 4 v"
definition writeInt64 :: "eventData \<Rightarrow> u64 \<Rightarrow> eventData" where "writeInt64 ed v = ed @ le_enc 8 v"
definition writeUint8 :: "eventData \<Rightarrow> byte \<Rightarrow> eventData" where "writeUint8 ed v = ed @ [v]"
definition writeUint16 :: "eventData \<Rightarrow> u16 \<Rightarrow> eventData" where "writeUint16 ed v = ed @ le_enc 2 v"
definition writeUint32 :: "eventData \<Rightarrow> u32 \<Rightarrow> eventData" where "writeUint32 ed v = ed @ le_enc 4 v"
definition writeUint64 :: "eventData \<Rightarrow> u64 \<Rightarrow> eventData" where "writeUint64 ed v = ed @ le_enc 8 v"

text \<open>A \<^verbatim>\<open>windows.Filetime\<close> is its low and its high half.\<close>

definition writeFiletime :: "eventData \<Rightarrow> u32 \<times> u32 \<Rightarrow> eventData" where
  "writeFiletime ed t = ed @ le_enc 4 (fst t) @ le_enc 4 (snd t)"

section \<open>Event metadata\<close>

lemma low21: "tags AND 0x1fffff = take_bit 21 (tags :: u32)"
  by (simp add: take_bit_eq_mask mask_eq_exp_minus_1)

definition tags_left :: "u32 \<Rightarrow> nat" where
  "tags_left t = (if take_bit 21 t = 0 then 0 else if take_bit 14 t = 0 then 1 else if take_bit 7 t = 0 then 2 else 3)"

lemma take_bit_push_7: "take_bit (m + 7) (push_bit 7 (t :: u32)) = 0 \<longleftrightarrow> take_bit m t = 0" if "m + 7 < 32"
proof -
  have "take_bit (m + 7) (push_bit 7 t) = push_bit 7 (take_bit m t)"
    by (simp add: take_bit_push_bit add.commute)
  moreover have "push_bit 7 (take_bit m t) = 0 \<longleftrightarrow> take_bit m t = 0"
  proof
    assume *: "push_bit 7 (take_bit m t) = 0"
    have "\<not> bit (take_bit m t) n" for n
    proof
      assume n: "bit (take_bit m t) n"
      then have "n < m" by (simp add: bit_take_bit_iff)
      with n that have "bit (push_bit 7 (take_bit m t)) (n + 7)" by (simp add: bit_simps)
      with * show False by simp
    qed
    then show "take_bit m t = 0" by (simp add: bit_eq_iff)
  qed simp
  ultimately show ?thesis by simp
qed

text \<open>
  \<^verbatim>\<open>writeTags\<close>: seven bits at a time from bit 27 down, the high bit of a byte telling
  that another follows. The loop ends because each turn shifts seven bits out of the low 21.
\<close>

function tags_loop :: "u32 \<Rightarrow> bytes" where
  "tags_loop tags =
     (let val = drop_bit 21 tags in
      if tags AND 0x1fffff = 0 then [ucast (val AND 0x7f)]
      else ucast (val OR 0x80) # tags_loop (push_bit 7 tags))"
  by pat_completeness auto

termination
proof (relation "measure tags_left", simp)
  fix tags :: u32 and val
  assume "tags AND 0x1fffff \<noteq> 0"
  then have "take_bit 21 tags \<noteq> 0" by (simp add: low21)
  moreover have "take_bit 21 (push_bit 7 tags) = 0 \<longleftrightarrow> take_bit 14 tags = 0"
    "take_bit 14 (push_bit 7 tags) = 0 \<longleftrightarrow> take_bit 7 tags = 0" "take_bit 7 (push_bit 7 tags) = 0"
    using take_bit_push_7 [of 14 tags] take_bit_push_7 [of 7 tags] take_bit_push_7 [of 0 tags] by simp_all
  ultimately show "(push_bit 7 tags, tags) \<in> measure tags_left"
    by (auto simp: tags_left_def)
qed

declare tags_loop.simps [simp del]

definition writeTags :: "eventMetadata \<Rightarrow> u32 \<Rightarrow> eventMetadata" where
  "writeTags em tags = em @ tags_loop (tags AND 0xfffffff)"

definition writeEventHeader :: "eventMetadata \<Rightarrow> gostring \<Rightarrow> u32 \<Rightarrow> eventMetadata" where
  "writeEventHeader em name tags = writeTags (em @ le_enc 2 (0 :: u16)) tags @ name @ [0]"

definition writeFieldInner :: "eventMetadata \<Rightarrow> gostring \<Rightarrow> byte \<Rightarrow> byte \<Rightarrow> u32 \<Rightarrow> u16 \<Rightarrow> eventMetadata" where
  "writeFieldInner em name it ot tags arrSize =
     (let em1 = em @ name @ [0];
          em2 = (if ot = outTypeDefault \<and> tags = 0 then em1 @ [it]
                 else if tags = 0 then em1 @ [it OR 128] @ [ot]
                 else writeTags (em1 @ [it OR 128] @ [ot OR 128]) tags)
      in if arrSize \<noteq> 0 then em2 @ le_enc 2 arrSize else em2)"

definition writeField :: "eventMetadata \<Rightarrow> gostring \<Rightarrow> byte \<Rightarrow> byte \<Rightarrow> u32 \<Rightarrow> eventMetadata" where
  "writeField em name it ot tags = writeFieldInner em name it ot tags 0"

definition writeArray :: "eventMetadata \<Rightarrow> gostring \<Rightarrow> byte \<Rightarrow> byte \<Rightarrow> u32 \<Rightarrow> eventMetadata" where
  "writeArray em name it ot tags = writeFieldInner em name (it OR inTypeArray) ot tags 0"

definition writeCountedArray :: "eventMetadata \<Rightarrow> gostring \<Rightarrow> u16 \<Rightarrow> byte \<Rightarrow> byte \<Rightarrow> u32 \<Rightarrow> eventMetadata" where
  "writeCountedArray em name count it ot tags = writeFieldInner em name (it OR inTypeCountedArray) ot tags count"

definition writeStruct :: "eventMetadata \<Rightarrow> gostring \<Rightarrow> byte \<Rightarrow> u32 \<Rightarrow> eventMetadata" where
  "writeStruct em name fieldCount tags = writeFieldInner em name inTypeStruct fieldCount tags 0"

text \<open>
  \<^verbatim>\<open>toBytes\<close> writes the length over the first two bytes; \<^verbatim>\<open>PutUint16\<close> panics on
  a shorter buffer.
\<close>

definition em_toBytes :: "eventMetadata \<Rightarrow> bytes res" where
  "em_toBytes em =
     (if length em < 2 then Panic ''index out of range''
      else Ok (le_enc 2 (of_nat (length em) :: u16) @ drop 2 em))"

section \<open>Field options\<close>

text \<open>
  A \<^verbatim>\<open>FieldOpt\<close> appends to both buffers. Signed integers are words in two's
  complement and floating point numbers are the bit patterns of
  \<^verbatim>\<open>math.Float32bits\<close> and \<^verbatim>\<open>math.Float64bits\<close>. \<^verbatim>\<open>int\<close>,
  \<^verbatim>\<open>uint\<close> and \<^verbatim>\<open>uintptr\<close> are eight bytes wide, so the switches on
  \<^verbatim>\<open>unsafe.Sizeof\<close> take their second case.
\<close>

type_synonym FieldOpt = "eventMetadata \<times> eventData \<Rightarrow> eventMetadata \<times> eventData"

definition bool8 :: "bool \<Rightarrow> byte" where "bool8 v = (if v then 1 else 0)"

definition sizeof_int :: nat where "sizeof_int = 8"

definition BoolField :: "gostring \<Rightarrow> bool \<Rightarrow> FieldOpt" where
  "BoolField name v = (\<lambda>(em, ed). (writeField em name inTypeUint8 outTypeBoolean 0, writeUint8 ed (bool8 v)))"

definition BoolArray :: "gostring \<Rightarrow> bool list \<Rightarrow> FieldOpt" where
  "BoolArray name vs = (\<lambda>(em, ed).
     (writeArray em name inTypeUint8 outTypeBoolean 0,
      foldl (\<lambda>ed v. writeUint8 ed (bool8 v)) (writeUint16 ed (of_nat (length vs))) vs))"

definition StringField :: "gostring \<Rightarrow> gostring \<Rightarrow> FieldOpt" where
  "StringField name v = (\<lambda>(em, ed). (writeField em name inTypeANSIString outTypeUTF8 0, writeString ed v))"

definition JSONStringField :: "gostring \<Rightarrow> gostring \<Rightarrow> FieldOpt" where
  "JSONStringField name v = (\<lambda>(em, ed). (writeField em name inTypeANSIString outTypeJSON 0, writeString ed v))"

definition StringArray :: "gostring \<Rightarrow> gostring list \<Rightarrow> FieldOpt" where
  "StringArray name vs = (\<lambda>(em, ed).
     (writeArray em name inTypeANSIString outTypeUTF8 0,
      foldl writeString (writeUint16 ed (of_nat (length vs))) vs))"

definition Int8Field :: "gostring \<Rightarrow> byte \<Rightarrow> FieldOpt" where
  "Int8Field name v = (\<lambda>(em, ed). (writeField em name inTypeInt8 outTypeDefault 0, writeInt8 ed v))"

definition Int8Array :: "gostring \<Rightarrow> byte list \<Rightarrow> FieldOpt" where
  "Int8Array name vs = (\<lambda>(em, ed).
     (writeArray em name inTypeInt8 outTypeDefault 0,
      foldl writeInt8 (writeUint16 ed (of_nat (length vs))) vs))"

definition Int16Field :: "gostring \<Rightarrow> u16 \<Rightarrow> FieldOpt" where
  "Int16Field name v = (\<lambda>(em, ed). (writeField em name inTypeInt16 outTypeDefault 0, writeInt16 ed v))"

definition Int16Array :: "gostring \<Rightarrow> u16 list \<Rightarrow> FieldOpt" where
  "Int16Array name vs = (\<lambda>(em, ed).
     (writeArray em name inTypeInt16 outTypeDefault 0,
      foldl writeInt16 (writeUint16 ed (of_nat (length vs))) vs))"

definition Int32Field :: "gostring \<Rightarrow> u32 \<Rightarrow> FieldOpt" where
  "Int32Field name v = (\<lambda>(em, ed). (writeField em name inTypeInt32 outTypeDefault 0, writeInt32 ed v))"

definition Int32Array :: "gostring \<Rightarrow> u32 list \<Rightarrow> FieldOpt" where
  "Int32Array name vs = (\<lambda>(em, ed).
     (writeArray em name inTypeInt32 outTypeDefault 0,
      foldl writeInt32 (writeUint16 ed (of_nat (length vs))) vs))"

definition Int64Field :: "gostring \<Rightarrow> u64 \<Rightarrow> FieldOpt" where
  "Int64Field name v = (\<lambda>(em, ed). (writeField em name inTypeInt64 outTypeDefault 0, writeInt64 ed v))"

definition Int64Array :: "gostring \<Rightarrow> u64 list \<Rightarrow> FieldOpt" where
  "Int64Array name vs = (\<lambda>(em, ed).
     (writeArray em name inTypeInt64 outTypeDefault 0,
      foldl writeInt64 (writeUint16 ed (of_nat (length vs))) vs))"

definition Uint8Field :: "gostring \<Rightarrow> byte \<Rightarrow> FieldOpt" where
  "Uint8Field name v = (\<lambda>(em, ed). (writeField em name inTypeUint8 outTypeDefault 0, writeUint8 ed v))"

definition Uint8Array :: "gostring \<Rightarrow> byte list \<Rightarrow> FieldOpt" where
  "Uint8Array name vs = (\<lambda>(em, ed).
     (writeArray em name inTypeUint8 outTypeDefault 0,
      foldl writeUint8 (writeUint16 ed (of_nat (length vs))) vs))"

definition Uint16Field :: "gostring \<Rightarrow> u16 \<Rightarrow> FieldOpt" where
  "Uint16Field name v = (\<lambda>(em, ed). (writeField em name inTypeUint16 outTypeDefault 0, writeUint16 ed v))"

definition Uint16Array :: "gostring \<Rightarrow> u16 list \<Rightarrow> FieldOpt" where
  "Uint16Array name vs = (\<lambda>(em, ed).
     (writeArray em name inTypeUint16 outTypeDefault 0,
      foldl writeUint16 (writeUint16 ed (of_nat (length vs))) vs))"

definition Uint32Field :: "gostring \<Rightarrow> u32 \<Rightarrow> FieldOpt" where
  "Uint32Field name v = (\<lambda>(em, ed). (writeField em name inTypeUint32 outTypeDefault 0, writeUint32 ed v))"

definition Uint32Array :: "gostring \<Rightarrow> u32 list \<Rightarrow> FieldOpt" where
  "Uint32Array name vs = (\<lambda>(em, ed).
     (writeArray em name inTypeUint32 outTypeDefault 0,
      foldl writeUint32 (writeUint16 ed (of_nat (length vs))) vs))"

definition Uint64Field :: "gostring \<Rightarrow> u64 \<Rightarrow> FieldOpt" where
  "Uint64Field name v = (\<lambda>(em, ed). (writeField em name inTypeUint64 outTypeDefault 0, writeUint64 ed v))"

definition Uint64Array :: "gostring \<Rightarrow> u64 list \<Rightarrow> FieldOpt" where
  "Uint64Array name vs = (\<lambda>(em, ed).
     (writeArray em name inTypeUint64 outTypeDefault 0,
      foldl writeUint64 (writeUint16 ed (of_nat (length vs))) vs))"

definition IntField :: "gostring \<Rightarrow> u64 \<Rightarrow> FieldOpt res" where
  "IntField name v =
     (if sizeof_int = 4 then Ok (Int32Field name (ucast v))
      else if sizeof_int = 8 then Ok (Int64Field name v)
      else Panic ''Unsupported int size'')"

definition IntArray :: "gostring \<Rightarrow> u64 list \<Rightarrow> FieldOpt res" where
  "IntArray name vs =
     (if sizeof_int = 4 then Ok (Int32Array name (map ucast vs))
      else if sizeof_int = 8 then Ok (Int64Array name vs)
      else Panic ''Unsupported int size'')"

definition UintField :: "gostring \<Rightarrow> u64 \<Rightarrow> FieldOpt res" where
  "UintField name v =
     (if sizeof_int = 4 then Ok (Uint32Field name (ucast v))
      else if sizeof_int = 8 then Ok (Uint64Field name v)
      else Panic ''Unsupported uint size'')"

definition UintArray :: "gostring \<Rightarrow> u64 list \<Rightarrow> FieldOpt res" where
  "UintArray name vs =
     (if sizeof_int = 4 then Ok (Uint32Array name (map ucast vs))
      else if sizeof_int = 8 then Ok (Uint64Array name vs)
      else Panic ''Unsupported uint size'')"

definition UintptrField :: "gostring \<Rightarrow> u64 \<Rightarrow> FieldOpt res" where
  "UintptrField name v =
     (if sizeof_int = 4 then
        Ok (\<lambda>(em, ed). (writeField em name inTypeHexInt32 outTypeDefault 0, writeUint32 ed (ucast v)))
      else if sizeof_int = 8 then
        Ok (\<lambda>(em, ed). (writeField em name inTypeHexInt64 outTypeDefault 0, writeUint64 ed v))
      else Panic ''Unsupported uintptr size'')"

definition UintptrArray :: "gostring \<Rightarrow> u64 list \<Rightarrow> FieldOpt res" where
  "UintptrArray name vs =
     (if sizeof_int = 4 then
        Ok (\<lambda>(em, ed). (writeArray em name inTypeHexInt32 outTypeDefault 0,
              foldl (\<lambda>ed v. writeUint32 ed (ucast v)) (writeUint16 ed (of_nat (length vs))) vs))
      else if sizeof_int = 8 then
        Ok (\<lambda>(em, ed). (writeArray em name inTypeHexInt64 outTypeDefault 0,
              foldl writeUint64 (writeUint16 ed (of_nat (length vs))) vs))
      else Panic ''Unsupported uintptr size'')"

definition Float32Field :: "gostring \<Rightarrow> u32 \<Rightarrow> FieldOpt" where
  "Float32Field name v = (\<lambda>(em, ed). (writeField em name inTypeFloat outTypeDefault 0, writeUint32 ed v))"

definition Float32Array :: "gostring \<Rightarrow> u32 list \<Rightarrow> FieldOpt" where
  "Float32Array name vs = (\<lambda>(em, ed).
     (writeArray em name inTypeFloat outTypeDefault 0,
      foldl writeUint32 (writeUint16 ed (of_nat (length vs))) vs))"

definition Float64Field :: "gostring \<Rightarrow> u64 \<Rightarrow> FieldOpt" where
  "Float64Field name v = (\<lambda>(em, ed). (writeField em name inTypeDouble outTypeDefault 0, writeUint64 ed v))"

definition Float64Array :: "gostring \<Rightarrow> u64 list \<Rightarrow> FieldOpt" where
  "Float64Array name vs = (\<lambda>(em, ed).
     (writeArray em name inTypeDouble outTypeDefault 0,
      foldl writeUint64 (writeUint16 ed (of_nat (length vs))) vs))"

definition Struct :: "gostring \<Rightarrow> FieldOpt list \<Rightarrow> FieldOpt" where
  "Struct name opts = (\<lambda>(em, ed).
     fold (\<lambda>opt s. opt s) opts (writeStruct em name (of_nat (length opts)) 0, ed))"

text \<open>\<^verbatim>\<open>windows.NsecToFiletime\<close> is a parameter; the time is its \<^verbatim>\<open>UnixNano\<close>.\<close>

definition Time :: "(int \<Rightarrow> u32 \<times> u32) \<Rightarrow> gostring \<Rightarrow> int \<Rightarrow> FieldOpt" where
  "Time NsecToFiletime name nsec = (\<lambda>(em, ed).
     (writeField em name inTypeFileTime outTypeDateTimeUTC 0, writeFiletime ed (NsecToFiletime nsec)))"

section \<open>Fields of any Go value\<close>

text \<open>
  The dynamic types \<^verbatim>\<open>SmartField\<close> distinguishes. \<open>VDerived k v txt\<close> is a value of a
  named type that is neither an \<^verbatim>\<open>error\<close> nor a \<^verbatim>\<open>time.Time\<close>: its underlying
  value, when its kind is one of the basic ones, and the text of
  \<^verbatim>\<open>fmt.Sprintf("(Unsupported: %T) %v", v, v)\<close>. A struct lists its fields with whether
  they are exported; \<open>VOther\<close> is everything else, with that text.
\<close>

datatype govalue =
    VBool bool | VBools "bool list" | VString gostring | VStrings "gostring list"
  | VInt u64 | VInts "u64 list" | VInt8 byte | VInt8s "byte list" | VInt16 u16 | VInt16s "u16 list"
  | VInt32 u32 | VInt32s "u32 list" | VInt64 u64 | VInt64s "u64 list"
  | VUint u64 | VUints "u64 list" | VUint8 byte | VUint8s "byte list" | VUint16 u16 | VUint16s "u16 list"
  | VUint32 u32 | VUint32s "u32 list" | VUint64 u64 | VUint64s "u64 list"
  | VUintptr u64 | VUintptrs "u64 list" | VFloat32 u32 | VFloat32s "u32 list" | VFloat64 u64 | VFloat64s "u64 list"
  | VError gostring | VTime int
  | VDerived govalue gostring | VStruct "(bool \<times> govalue) list" | VOther gostring

fun basic_kind :: "govalue \<Rightarrow> bool" where
  "basic_kind (VBool _) = True" | "basic_kind (VString _) = True"
| "basic_kind (VInt _) = True" | "basic_kind (VInt8 _) = True" | "basic_kind (VInt16 _) = True"
| "basic_kind (VInt32 _) = True" | "basic_kind (VInt64 _) = True"
| "basic_kind (VUint _) = True" | "basic_kind (VUint8 _) = True" | "basic_kind (VUint16 _) = True"
| "basic_kind (VUint32 _) = True" | "basic_kind (VUint64 _) = True" | "basic_kind (VUintptr _) = True"
| "basic_kind (VFloat32 _) = True" | "basic_kind (VFloat64 _) = True"
| "basic_kind _ = False"

fun SmartField :: "(int \<Rightarrow> u32 \<times> u32) \<Rightarrow> gostring \<Rightarrow> govalue \<Rightarrow> FieldOpt res"
and smart_fields :: "(int \<Rightarrow> u32 \<times> u32) \<Rightarrow> gostring \<Rightarrow> (bool \<times> govalue) list \<Rightarrow> FieldOpt list res"
where
  "SmartField ft name (VBool v) = Ok (BoolField name v)"
| "SmartField ft name (VBools v) = Ok (BoolArray name v)"
| "SmartField ft name (VString v) = Ok (StringField name v)"
| "SmartField ft name (VStrings v) = Ok (StringArray name v)"
| "SmartField ft name (VInt v) = IntField name v"
| "SmartField ft name (VInts v) = IntArray name v"
| "SmartField ft name (VInt8 v) = Ok (Int8Field name v)"
| "SmartField ft name (VInt8s v) = Ok (Int8Array name v)"
| "SmartField ft name (VInt16 v) = Ok (Int16Field name v)"
| "SmartField ft name (VInt16s v) = Ok (Int16Array name v)"
| "SmartField ft name (VInt32 v) = Ok (Int32Field name v)"
| "SmartField ft name (VInt32s v) = Ok (Int32Array name v)"
| "SmartField ft name (VInt64 v) = Ok (Int64Field name v)"
| "SmartField ft name (VInt64s v) = Ok (Int64Array name v)"
| "SmartField ft name (VUint v) = UintField name v"
| "SmartField ft name (VUints v) = UintArray name v"
| "SmartField ft name (VUint8 v) = Ok (Uint8Field name v)"
| "SmartField ft name (VUint8s v) = Ok (Uint8Array name v)"
| "SmartField ft name (VUint16 v) = Ok (Uint16Field name v)"
| "SmartField ft name (VUint16s v) = Ok (Uint16Array name v)"
| "SmartField ft name (VUint32 v) = Ok (Uint32Field name v)"
| "SmartField ft name (VUint32s v) = Ok (Uint32Array name v)"
| "SmartField ft name (VUint64 v) = Ok (Uint64Field name v)"
| "SmartField ft name (VUint64s v) = Ok (Uint64Array name v)"
| "SmartField ft name (VUintptr v) = UintptrField name v"
| "SmartField ft name (VUintptrs v) = UintptrArray name v"
| "SmartField ft name (VFloat32 v) = Ok (Float32Field name v)"
| "SmartField ft name (VFloat32s v) = Ok (Float32Array name v)"
| "SmartField ft name (VFloat64 v) = Ok (Float64Field name v)"
| "SmartField ft name (VFloat64s v) = Ok (Float64Array name v)"
| "SmartField ft name (VError v) = Ok (StringField name v)"
| "SmartField ft name (VTime t) = Ok (Time ft name t)"
| "SmartField ft name (VDerived v txt) =
     (if basic_kind v then SmartField ft name v else Ok (StringField name txt))"
| "SmartField ft name (VStruct fs) =
     bind_res (smart_fields ft name fs) (\<lambda>opts. Ok (Struct name opts))"
| "SmartField ft name (VOther txt) = Ok (StringField name txt)"
| "smart_fields ft name [] = Ok []"
| "smart_fields ft name (f # fs) =
     (if fst f then
        bind_res (SmartField ft name (snd f)) (\<lambda>opt.
        bind_res (smart_fields ft name fs) (\<lambda>opts. Ok (opt # opts)))
      else smart_fields ft name fs)"

section \<open>Flag bits of the type codes\<close>

lemma small_bits: 
  assumes "(it :: byte) < 2 ^ m" "m \<le> n" shows "\<not> bit it n"
proof
  assume b: "bit it n"
  then have n: "n < 8" using bit_imp_le_length by fastforce
  have "unat ((2 :: byte) ^ m) = 2 ^ m"
    using unat_of_nat_eq_iff [of "2 ^ m", where 'a = 8] power_strict_increasing [of m 8 "2 :: nat"] n assms(2) by simp
  then have "unat it < 2 ^ m"
    using assms(1) by (simp add: word_less_nat_alt)
  also have "(2::nat) ^ m \<le> 2 ^ n" using assms(2) by simp
  finally have "unat it < 2 ^ n" .
  then have "\<not> bit (unat it) n" by (simp add: bit_nat_iff  bit_iff_odd)
  with b n show False by (simp add: bit_unsigned_iff)
qed

lemma bit_128: "bit (128 :: byte) n \<longleftrightarrow> n = 7"
  using bit_exp_iff [of 7 n, where 'a = byte] by auto
lemma bit_64: "bit (64 :: byte) n \<longleftrightarrow> n = 6"
  using bit_exp_iff [of 6 n, where 'a = byte] by auto
lemma and_127: "(w :: byte) AND 127 = take_bit 7 w"  by (simp add: take_bit_eq_mask mask_eq_exp_minus_1)
lemma and_63: "(w :: byte) AND 63 = take_bit 6 w"  by (simp add: take_bit_eq_mask mask_eq_exp_minus_1)

text \<open>Type codes leave the three high bits of a byte to flags.\<close>

lemma code_bits:
  assumes "(it :: byte) < 32"
  shows "\<not> bit it 7" "\<not> bit it 6" "\<not> bit (it OR 64) 7" "bit (it OR 64) 6" "bit (it OR 128) 7"
    "bit (it OR 64 OR 128) 7" "(it OR 128) AND 127 = it" "(it OR 64 OR 128) AND 127 = it OR 64" "(it OR 64) AND 63 = it"
proof -
  have s: "\<not> bit it n" if "5 \<le> n" for n using small_bits [of it 5 n] assms that by simp
  show "\<not> bit it 7" "\<not> bit it 6" using s by simp_all
  show "\<not> bit (it OR 64) 7" "bit (it OR 64) 6" "bit (it OR 128) 7" "bit (it OR 64 OR 128) 7"
    using s by (simp_all add: bit_or_iff bit_128 bit_64)
  have lt: "n < 5" if "bit it n" for n using s [of n] that by force
  show "(it OR 128) AND 127 = it" "(it OR 64 OR 128) AND 127 = it OR 64" "(it OR 64) AND 63 = it"
    by (auto simp: and_127 and_63 bit_eq_iff bit_or_iff bit_take_bit_iff bit_128 bit_64 dest: lt)
qed

lemma out_bits: "(ot :: byte) < 128 \<Longrightarrow> \<not> bit ot 7"
  using small_bits [of ot 7 7] by simp

section \<open>Reading tags\<close>

fun dec_tags :: "nat \<Rightarrow> u32 \<Rightarrow> bytes \<Rightarrow> (u32 \<times> bytes) option" where
  "dec_tags sh acc [] = None"
| "dec_tags sh acc (b # bs) =
     (let acc' = acc OR push_bit sh (ucast (b AND 0x7f)) in
      if bit b 7 then dec_tags (sh - 7) acc' bs else Some (acc', bs))"

lemma bit_0x80: "bit (0x80 :: u32) k \<longleftrightarrow> k = 7"
  using bit_exp_iff [of 7 k, where 'a = u32] by auto

lemma and_0x7f: "(x :: u32) AND 0x7f = take_bit 7 x"
  by (simp add: take_bit_eq_mask mask_eq_exp_minus_1)

lemma bit_group_byte:
  fixes w :: u32
  shows "bit ((ucast (drop_bit 21 w AND 0x7f) :: byte) AND 0x7f) k \<longleftrightarrow> k < 7 \<and> bit w (k + 21)"
    and "bit ((ucast (drop_bit 21 w OR 0x80) :: byte) AND 0x7f) k \<longleftrightarrow> k < 7 \<and> bit w (k + 21)"
proof -
  show "bit ((ucast (drop_bit 21 w AND 0x7f) :: byte) AND 0x7f) k \<longleftrightarrow> k < 7 \<and> bit w (k + 21)"
    by (cases "k < 7") (simp_all add: and_127 and_0x7f bit_take_bit_iff bit_ucast_iff bit_drop_bit_eq add.commute)
  show "bit ((ucast (drop_bit 21 w OR 0x80) :: byte) AND 0x7f) k \<longleftrightarrow> k < 7 \<and> bit w (k + 21)"
    unfolding and_127 bit_take_bit_iff bit_ucast_iff bit_or_iff bit_0x80 bit_drop_bit_eq comp_def
    by (cases "k < 7") (simp_all add: add.commute)
qed

lemma bit_group:
  assumes "\<And>k. bit (g :: byte) k \<longleftrightarrow> k < 7 \<and> bit (w :: u32) (k + 21)"
  shows "bit (push_bit sh (ucast g) :: u32) n \<longleftrightarrow> n < 32 \<and> sh \<le> n \<and> n < sh + 7 \<and> bit w (n - sh + 21)"
  by (auto simp: bit_push_bit_iff bit_ucast_iff assms)

lemmas bit_groups = bit_group [OF bit_group_byte(1)] bit_group [OF bit_group_byte(2)]

lemma flag_bit: "bit (ucast (w OR 0x80 :: u32) :: byte) 7" "\<not> bit (ucast (w AND 0x7f :: u32) :: byte) 7"
proof -
  have "bit (0x80 :: u32) 7" using bit_exp_iff [of 7 7, where 'a = u32] by auto
  moreover have "w AND 0x7f = take_bit 7 w" by (simp add: take_bit_eq_mask mask_eq_exp_minus_1)
  ultimately show "bit (ucast (w OR 0x80 :: u32) :: byte) 7" "\<not> bit (ucast (w AND 0x7f :: u32) :: byte) 7"
    by (simp_all add: bit_simps)
qed

lemma push_take_zero: "n + m \<le> 32 \<Longrightarrow> push_bit n (take_bit m (t :: u32)) = 0 \<longleftrightarrow> take_bit m t = 0"
proof
  assume nm: "n + m \<le> 32" and *: "push_bit n (take_bit m t) = 0"
  have "\<not> bit (take_bit m t) k" for k
  proof
    assume k: "bit (take_bit m t) k"
    then have "k < m" by (simp add: bit_take_bit_iff)
    with k nm have "bit (push_bit n (take_bit m t)) (k + n)" by (simp add: bit_simps)
    with * show False by simp
  qed
  then show "take_bit m t = 0" by (simp add: bit_eq_iff)
qed simp

lemma group_bit:
  assumes "Suc j \<le> 3" and "7 * Suc j \<le> n" "n < 7 * Suc j + 7"
  shows "bit (push_bit (21 - 7 * Suc j) (t :: u32)) (n - 7 * Suc j + 21) = bit t n"
proof -
  define d where "d = 21 - 7 * Suc j"
  have "n - 7 * Suc j + 21 = n + d" "n + d < 32" using assms unfolding d_def by arith+
  then show ?thesis unfolding d_def [symmetric] by (simp add: bit_push_bit_iff)
qed

lemma dec_tags_loop:
  "j \<le> 3 \<Longrightarrow> dec_tags (7 * j) acc (tags_loop (push_bit (21 - 7 * j) t) @ r) =
     Some (acc OR take_bit (7 * j + 7) t, r)"
proof (induction j arbitrary: acc)
  case 0
  have "push_bit 21 t AND 0x1fffff = 0" by (simp add: low21 take_bit_push_bit)
  moreover have "push_bit 0 (ucast ((ucast (drop_bit 21 (push_bit 21 t) AND 0x7f) :: byte) AND 0x7f)) = take_bit 7 t"
    by (rule bit_word_eqI, unfold bit_groups) (auto simp: bit_simps)
  ultimately show ?case
    by (simp add: tags_loop.simps flag_bit)
next
  case (Suc j)
  let ?w = "push_bit (21 - 7 * Suc j) t"
  have z: "?w AND 0x1fffff = 0 \<longleftrightarrow> take_bit (7 * Suc j) t = 0"
  proof -
    have "?w AND 0x1fffff = push_bit (21 - 7 * Suc j) (take_bit (7 * Suc j) t)"
      using Suc.prems by (simp add: low21 take_bit_push_bit)
    also have "\<dots> = 0 \<longleftrightarrow> take_bit (7 * Suc j) t = 0"
      by (rule push_take_zero) (use Suc.prems in simp)
    finally show ?thesis .
  qed
  show ?case
  proof (cases "?w AND 0x1fffff = 0")
    case True
    have low: "7 * Suc j \<le> n" if "bit t n" for n
      using True that unfolding z by (metis bit_0_eq bit_take_bit_iff bot_apply bot_bool_def not_less)
    have "push_bit (7 * Suc j) (ucast ((ucast (drop_bit 21 ?w AND 0x7f) :: byte) AND 0x7f)) = take_bit (7 * Suc j + 7) t"
    proof (rule bit_word_eqI, unfold bit_groups bit_take_bit_iff)
      fix n
      assume "n < LENGTH(32)"
      have "bit ?w (n - 7 * Suc j + 21) = bit t n" if "7 * Suc j \<le> n" "n < 7 * Suc j + 7"
        by (rule group_bit [OF Suc.prems that])
      then show "(n < 32 \<and> 7 * Suc j \<le> n \<and> n < 7 * Suc j + 7 \<and> bit ?w (n - 7 * Suc j + 21)) =
          (n < 7 * Suc j + 7 \<and> bit t n)"
        using low [of n] \<open>n < LENGTH(32)\<close> by auto
    qed
    with True show ?thesis by (simp add: tags_loop.simps [of ?w] flag_bit del: mult_Suc_right)
  next
    case False
    have "push_bit 7 ?w = push_bit (21 - 7 * j) t" using Suc.prems by (simp add: push_bit_push_bit)
    moreover have "(acc OR push_bit (7 * Suc j) (ucast ((ucast (drop_bit 21 ?w OR 0x80) :: byte) AND 0x7f))) OR
        take_bit (7 * j + 7) t = acc OR take_bit (7 * Suc j + 7) t"
    proof (rule bit_word_eqI, unfold bit_or_iff bit_groups bit_take_bit_iff)
      fix n
      assume "n < LENGTH(32)"
      have "bit ?w (n - 7 * Suc j + 21) = bit t n" if "7 * Suc j \<le> n" "n < 7 * Suc j + 7"
        by (rule group_bit [OF Suc.prems that])
      then show "((bit acc n \<or> n < 32 \<and> 7 * Suc j \<le> n \<and> n < 7 * Suc j + 7 \<and> bit ?w (n - 7 * Suc j + 21)) \<or>
          n < 7 * j + 7 \<and> bit t n) = (bit acc n \<or> n < 7 * Suc j + 7 \<and> bit t n)"
        using \<open>n < LENGTH(32)\<close> by auto
    qed
    moreover have "7 * Suc j - 7 = 7 * j" by simp
    ultimately show ?thesis using False Suc.IH Suc.prems
      by (simp add: tags_loop.simps [of ?w] flag_bit del: mult_Suc_right)
  qed
qed

lemma dec_tags_writeTags: "dec_tags 21 0 (tags_loop (t AND 0xfffffff) @ r) = Some (t AND 0xfffffff, r)"
proof -
  have "take_bit 28 (t AND 0xfffffff) = t AND 0xfffffff"
    using take_bit_eq_mask [of 28 "t AND 0xfffffff"] by (simp add: mask_eq_exp_minus_1 and.assoc)
  then show ?thesis using dec_tags_loop [of 3 0 "t AND 0xfffffff" r] by simp
qed

lemma tags_left_push: "take_bit 21 t \<noteq> 0 \<Longrightarrow> tags_left t = Suc (tags_left (push_bit 7 t))"
  using take_bit_push_7 [of 14 t] take_bit_push_7 [of 7 t] take_bit_push_7 [of 0 t] by (simp add: tags_left_def)

lemma tags_loop_length: "length (tags_loop t) \<le> 4"
proof -
  have "length (tags_loop t) = Suc (tags_left t)"
  proof (induction t rule: tags_loop.induct)
    case (1 t)
    have "tags_left t = 0" if "take_bit 21 t = 0" using that by (simp add: tags_left_def)
    with 1 tags_left_push [of t] show ?case by (subst tags_loop.simps) (auto simp: Let_def low21)
  qed
  then show ?thesis by (simp add: tags_left_def)
qed

section \<open>The format as a specification\<close>

text \<open>
  A field of an event as a consumer sees it: name, type codes and values of a scalar, an
  array or a nested struct; and the metadata and the data that describe it.
\<close>

datatype item = Fixed bytes | Str gostring

datatype fld =
    Scalar gostring byte byte item
  | Arr gostring byte byte "item list"
  | Struc gostring "fld list"

fun item_bytes :: "item \<Rightarrow> bytes" where
  "item_bytes (Fixed b) = b"
| "item_bytes (Str s) = s @ [0]"

definition type_bytes :: "byte \<Rightarrow> byte \<Rightarrow> bytes" where
  "type_bytes it ot = (if ot = 0 then [it] else [it OR 128, ot])"

fun md :: "fld \<Rightarrow> bytes" where
  "md (Scalar n it ot x) = n @ [0] @ type_bytes it ot"
| "md (Arr n it ot xs) = n @ [0] @ type_bytes (it OR 64) ot"
| "md (Struc n fs) = n @ [0] @ type_bytes inTypeStruct (of_nat (length fs)) @ concat (map md fs)"

fun dat :: "fld \<Rightarrow> bytes" where
  "dat (Scalar n it ot x) = item_bytes x"
| "dat (Arr n it ot xs) = le_enc 2 (of_nat (length xs) :: u16) @ concat (map item_bytes xs)"
| "dat (Struc n fs) = concat (map dat fs)"

text \<open>The consumer: reads fields from the two buffers.\<close>

fun split0 :: "bytes \<Rightarrow> (bytes \<times> bytes) option" where
  "split0 [] = None"
| "split0 (b # bs) = (if b = 0 then Some ([], bs) else map_option (\<lambda>(s, r). (b # s, r)) (split0 bs))"

fun parse_types :: "bytes \<Rightarrow> (byte \<times> byte \<times> bytes) option" where
  "parse_types [] = None"
| "parse_types (b # bs) =
     (if \<not> bit b 7 then Some (b, 0, bs)
      else (case bs of
          [] \<Rightarrow> None
        | ot # r \<Rightarrow>
            if \<not> bit ot 7 then Some (b AND 127, ot, r)
            else map_option (\<lambda>(_, r'). (b AND 127, ot AND 127, r')) (dec_tags 21 0 r)))"

definition width :: "byte \<Rightarrow> nat" where
  "width it =
     (if it \<in> {inTypeInt8, inTypeUint8} then 1
      else if it \<in> {inTypeInt16, inTypeUint16} then 2
      else if it \<in> {inTypeInt32, inTypeUint32, inTypeFloat, inTypeHexInt32} then 4
      else if it \<in> {inTypeInt64, inTypeUint64, inTypeDouble, inTypeHexInt64, inTypeFileTime} then 8
      else 0)"

definition parse_item :: "byte \<Rightarrow> bytes \<Rightarrow> (item \<times> bytes) option" where
  "parse_item it d =
     (if it = inTypeANSIString then map_option (\<lambda>(s, r). (Str s, r)) (split0 d)
      else if 0 < width it \<and> width it \<le> length d then Some (Fixed (take (width it) d), drop (width it) d)
      else None)"

fun parse_items :: "byte \<Rightarrow> nat \<Rightarrow> bytes \<Rightarrow> (item list \<times> bytes) option" where
  "parse_items it 0 d = Some ([], d)"
| "parse_items it (Suc n) d =
     (case parse_item it d of
        None \<Rightarrow> None
      | Some (x, d') \<Rightarrow> map_option (\<lambda>(xs, r). (x # xs, r)) (parse_items it n d'))"

text \<open>One scalar or array, whose type is \<open>it\<close> with the array flag.\<close>

definition parse_value :: "gostring \<Rightarrow> byte \<Rightarrow> byte \<Rightarrow> bytes \<Rightarrow> (fld \<times> bytes) option" where
  "parse_value n it ot d =
     (if bit it 6 then
        if length d < 2 then None
        else map_option (\<lambda>(xs, r). (Arr n (it AND 63) ot xs, r))
               (parse_items (it AND 63) (unat (le_dec (take 2 d) :: u16)) (drop 2 d))
      else map_option (\<lambda>(x, r). (Scalar n it ot x, r)) (parse_item it d))"

text \<open>\<open>n\<close> fields; the fuel bounds the nesting and the number of fields.\<close>

fun parse_fields :: "nat \<Rightarrow> nat \<Rightarrow> bytes \<Rightarrow> bytes \<Rightarrow> (fld list \<times> bytes \<times> bytes) option" where
  "parse_fields fuel 0 m d = Some ([], m, d)"
| "parse_fields 0 (Suc n) m d = None"
| "parse_fields (Suc fuel) (Suc n) m d =
     (case split0 m of
        None \<Rightarrow> None
      | Some (name, m1) \<Rightarrow>
          (case parse_types m1 of
             None \<Rightarrow> None
           | Some (it, ot, m2) \<Rightarrow>
               (case (if it = inTypeStruct then
                        map_option (\<lambda>(fs, m3, d3). (Struc name fs, m3, d3)) (parse_fields fuel (unat ot) m2 d)
                      else map_option (\<lambda>(f, d3). (f, m2, d3)) (parse_value name it ot d)) of
                  None \<Rightarrow> None
                | Some (f, m3, d3) \<Rightarrow>
                    map_option (\<lambda>(fs, r). (f # fs, r)) (parse_fields fuel n m3 d3))))"

text \<open>
  The fields the format can carry: NUL-terminated names and strings, 16-bit array counts
  and at most 127 fields in a struct.
\<close>

definition item_ok :: "byte \<Rightarrow> item \<Rightarrow> bool" where
  "item_ok it x =
     (case x of
        Str s \<Rightarrow> it = inTypeANSIString \<and> 0 \<notin> set s
      | Fixed b \<Rightarrow> it \<noteq> inTypeANSIString \<and> 0 < width it \<and> length b = width it)"

fun fld_ok :: "fld \<Rightarrow> bool" where
  "fld_ok (Scalar n it ot x) \<longleftrightarrow> 0 \<notin> set n \<and> it < 24 \<and> ot < 128 \<and> item_ok it x"
| "fld_ok (Arr n it ot xs) \<longleftrightarrow> 0 \<notin> set n \<and> it < 24 \<and> ot < 128 \<and> length xs < 65536 \<and> list_all (item_ok it) xs"
| "fld_ok (Struc n fs) \<longleftrightarrow> 0 \<notin> set n \<and> length fs < 128 \<and> list_all fld_ok fs"

fun fsize :: "fld \<Rightarrow> nat" where
  "fsize (Struc n fs) = Suc (sum_list (map fsize fs))"
| "fsize _ = 1"

section \<open>The consumer reads the format back\<close>

lemma split0_name [simp]: "0 \<notin> set n \<Longrightarrow> split0 (n @ 0 # r) = Some (n, r)"
  by (induction n) auto

lemma parse_types_bytes:
  assumes "\<not> bit it 7" "bit (it OR 128) 7" "(it OR 128) AND 127 = it" "ot < 128"
  shows "parse_types (type_bytes it ot @ r) = Some (it, ot, r)"
  using assms out_bits [OF assms(4)] by (simp add: type_bytes_def)

lemma parse_item_bytes: "item_ok it x \<Longrightarrow> parse_item it (item_bytes x @ r) = Some (x, r)"
  by (cases x) (auto simp: item_ok_def parse_item_def)

lemma parse_items_bytes:
  "list_all (item_ok it) xs \<Longrightarrow> parse_items it (length xs) (concat (map item_bytes xs) @ r) = Some (xs, r)"
  by (induction xs) (simp_all add: parse_item_bytes)

lemma parse_array:
  assumes "it < 32" "length xs < 65536" "list_all (item_ok it) xs"
  shows "parse_value n (it OR 64) ot (dat (Arr n it ot xs) @ r) = Some (Arr n it ot xs, r)"
proof -
  have "unat (of_nat (length xs) :: u16) = length xs" using assms(2) by (simp add: unat_of_nat_eq_iff)
  then show ?thesis using parse_items_bytes [OF assms(3), of r] code_bits [OF assms(1)]
    by (simp add: parse_value_def)
qed

lemma struct_code: "it < 24 \<Longrightarrow> it < 32 \<and> it \<noteq> inTypeStruct \<and> it OR 64 \<noteq> inTypeStruct" for it :: byte
proof -
  assume it: "it < 24"
  then have l: "it < 32" by (simp add: word_less_nat_alt)
  have "bit (it OR 64) 6" "\<not> bit (24 :: byte) 6" using code_bits [OF l] code_bits(2) [of 24] by simp_all
  with it l show ?thesis by (auto simp: etw_types)
qed

lemma parse_fields_correct:
  "list_all fld_ok fs \<Longrightarrow> sum_list (map fsize fs) \<le> fuel \<Longrightarrow>
     parse_fields fuel (length fs) (concat (map md fs) @ mr) (concat (map dat fs) @ dr) = Some (fs, mr, dr)"
proof (induction fuel arbitrary: fs mr dr)
  case 0
  then show ?case by (cases fs; cases "hd fs") auto
next
  case (Suc fuel)
  show ?case
  proof (cases fs)
    case (Cons f gs)
    with Suc.prems have f: "fld_ok f" and gs: "list_all fld_ok gs" "sum_list (map fsize gs) \<le> fuel"
      by (cases f; simp)+
    have rest: "parse_fields fuel (length gs) (concat (map md gs) @ mr) (concat (map dat gs) @ dr) = Some (gs, mr, dr)"
      by (rule Suc.IH [OF gs])
    show ?thesis
    proof (cases f)
      case (Scalar n it ot x)
      with f struct_code [of it] have it: "it < 32" "it \<noteq> inTypeStruct" by auto
      note b = code_bits [OF it(1)]
      have "parse_value n it ot (item_bytes x @ concat (map dat gs) @ dr) = Some (Scalar n it ot x, concat (map dat gs) @ dr)"
        using f Scalar b by (simp add: parse_value_def parse_item_bytes)
      with f it rest Scalar Cons b show ?thesis by (simp add: parse_types_bytes)
    next
      case (Arr n it ot xs)
      with f struct_code [of it] have it: "it < 32" "it OR 64 \<noteq> inTypeStruct" by auto
      note b = code_bits [OF it(1)]
      have "parse_value n (it OR 64) ot (dat (Arr n it ot xs) @ concat (map dat gs) @ dr) =
          Some (Arr n it ot xs, concat (map dat gs) @ dr)"
        using f Arr it(1) by (intro parse_array) auto
      moreover have "parse_types (type_bytes (it OR 64) ot @ r) = Some (it OR 64, ot, r)" for r
        by (rule parse_types_bytes) (use b f Arr in \<open>simp_all add: or.assoc\<close>)
      ultimately show ?thesis using f it rest Arr Cons by simp
    next
      case (Struc n hs)
      have s: "inTypeStruct < 32" by (simp add: etw_types)
      note b = code_bits [OF s]
      from f Struc have "length hs < 128" by simp
      then have u: "unat (of_nat (length hs) :: byte) = length hs" by (simp add: unat_of_nat_eq_iff)
      with \<open>length hs < 128\<close> have "(of_nat (length hs) :: byte) < 128" by (simp add: word_less_nat_alt)
      note u = u this
      have "parse_fields fuel (length hs) (concat (map md hs) @ concat (map md gs) @ mr)
          (concat (map dat hs) @ concat (map dat gs) @ dr) = Some (hs, concat (map md gs) @ mr, concat (map dat gs) @ dr)"
        using f Struc Suc.prems(2) Cons by (intro Suc.IH) auto
      with f rest Struc Cons b u show ?thesis by (simp add: parse_types_bytes)
    qed
  qed simp
qed

section \<open>The options write the fields of their values\<close>

fun smart_fld :: "(int \<Rightarrow> u32 \<times> u32) \<Rightarrow> gostring \<Rightarrow> govalue \<Rightarrow> fld"
and smart_flds :: "(int \<Rightarrow> u32 \<times> u32) \<Rightarrow> gostring \<Rightarrow> (bool \<times> govalue) list \<Rightarrow> fld list"
where
  "smart_fld ft n (VBool v) = Scalar n inTypeUint8 outTypeBoolean (Fixed [bool8 v])"
| "smart_fld ft n (VBools vs) = Arr n inTypeUint8 outTypeBoolean (map (\<lambda>v. Fixed [bool8 v]) vs)"
| "smart_fld ft n (VString v) = Scalar n inTypeANSIString outTypeUTF8 (Str v)"
| "smart_fld ft n (VStrings vs) = Arr n inTypeANSIString outTypeUTF8 (map (\<lambda>v. Str v) vs)"
| "smart_fld ft n (VInt8 v) = Scalar n inTypeInt8 outTypeDefault (Fixed [v])"
| "smart_fld ft n (VInt8s vs) = Arr n inTypeInt8 outTypeDefault (map (\<lambda>v. Fixed [v]) vs)"
| "smart_fld ft n (VInt16 v) = Scalar n inTypeInt16 outTypeDefault (Fixed (le_enc 2 v))"
| "smart_fld ft n (VInt16s vs) = Arr n inTypeInt16 outTypeDefault (map (\<lambda>v. Fixed (le_enc 2 v)) vs)"
| "smart_fld ft n (VInt32 v) = Scalar n inTypeInt32 outTypeDefault (Fixed (le_enc 4 v))"
| "smart_fld ft n (VInt32s vs) = Arr n inTypeInt32 outTypeDefault (map (\<lambda>v. Fixed (le_enc 4 v)) vs)"
| "smart_fld ft n (VInt64 v) = Scalar n inTypeInt64 outTypeDefault (Fixed (le_enc 8 v))"
| "smart_fld ft n (VInt64s vs) = Arr n inTypeInt64 outTypeDefault (map (\<lambda>v. Fixed (le_enc 8 v)) vs)"
| "smart_fld ft n (VUint8 v) = Scalar n inTypeUint8 outTypeDefault (Fixed [v])"
| "smart_fld ft n (VUint8s vs) = Arr n inTypeUint8 outTypeDefault (map (\<lambda>v. Fixed [v]) vs)"
| "smart_fld ft n (VUint16 v) = Scalar n inTypeUint16 outTypeDefault (Fixed (le_enc 2 v))"
| "smart_fld ft n (VUint16s vs) = Arr n inTypeUint16 outTypeDefault (map (\<lambda>v. Fixed (le_enc 2 v)) vs)"
| "smart_fld ft n (VUint32 v) = Scalar n inTypeUint32 outTypeDefault (Fixed (le_enc 4 v))"
| "smart_fld ft n (VUint32s vs) = Arr n inTypeUint32 outTypeDefault (map (\<lambda>v. Fixed (le_enc 4 v)) vs)"
| "smart_fld ft n (VUint64 v) = Scalar n inTypeUint64 outTypeDefault (Fixed (le_enc 8 v))"
| "smart_fld ft n (VUint64s vs) = Arr n inTypeUint64 outTypeDefault (map (\<lambda>v. Fixed (le_enc 8 v)) vs)"
| "smart_fld ft n (VInt v) = Scalar n inTypeInt64 outTypeDefault (Fixed (le_enc 8 v))"
| "smart_fld ft n (VInts vs) = Arr n inTypeInt64 outTypeDefault (map (\<lambda>v. Fixed (le_enc 8 v)) vs)"
| "smart_fld ft n (VUint v) = Scalar n inTypeUint64 outTypeDefault (Fixed (le_enc 8 v))"
| "smart_fld ft n (VUints vs) = Arr n inTypeUint64 outTypeDefault (map (\<lambda>v. Fixed (le_enc 8 v)) vs)"
| "smart_fld ft n (VUintptr v) = Scalar n inTypeHexInt64 outTypeDefault (Fixed (le_enc 8 v))"
| "smart_fld ft n (VUintptrs vs) = Arr n inTypeHexInt64 outTypeDefault (map (\<lambda>v. Fixed (le_enc 8 v)) vs)"
| "smart_fld ft n (VFloat32 v) = Scalar n inTypeFloat outTypeDefault (Fixed (le_enc 4 v))"
| "smart_fld ft n (VFloat32s vs) = Arr n inTypeFloat outTypeDefault (map (\<lambda>v. Fixed (le_enc 4 v)) vs)"
| "smart_fld ft n (VFloat64 v) = Scalar n inTypeDouble outTypeDefault (Fixed (le_enc 8 v))"
| "smart_fld ft n (VFloat64s vs) = Arr n inTypeDouble outTypeDefault (map (\<lambda>v. Fixed (le_enc 8 v)) vs)"
| "smart_fld ft n (VError v) = Scalar n inTypeANSIString outTypeUTF8 (Str v)"
| "smart_fld ft n (VTime t) = Scalar n inTypeFileTime outTypeDateTimeUTC
     (Fixed (le_enc 4 (fst (ft t)) @ le_enc 4 (snd (ft t))))"
| "smart_fld ft n (VDerived v txt) =
     (if basic_kind v then smart_fld ft n v else Scalar n inTypeANSIString outTypeUTF8 (Str txt))"
| "smart_fld ft n (VStruct fs) = Struc n (smart_flds ft n fs)"
| "smart_fld ft n (VOther txt) = Scalar n inTypeANSIString outTypeUTF8 (Str txt)"
| "smart_flds ft n [] = []"
| "smart_flds ft n (f # fs) = (if fst f then smart_fld ft n (snd f) # smart_flds ft n fs else smart_flds ft n fs)"

text \<open>The values whose fields the format can carry.\<close>

fun value_ok :: "govalue \<Rightarrow> bool" where
  "value_ok (VString s) \<longleftrightarrow> 0 \<notin> set s"
| "value_ok (VError s) \<longleftrightarrow> 0 \<notin> set s"
| "value_ok (VOther s) \<longleftrightarrow> 0 \<notin> set s"
| "value_ok (VStrings ss) \<longleftrightarrow> length ss < 65536 \<and> list_all (\<lambda>s. 0 \<notin> set s) ss"
| "value_ok (VDerived v txt) \<longleftrightarrow> (if basic_kind v then value_ok v else 0 \<notin> set txt)"
| "value_ok (VStruct fs) \<longleftrightarrow> length (filter fst fs) < 128 \<and> list_all (\<lambda>f. fst f \<longrightarrow> value_ok (snd f)) fs"
| "value_ok (VBools vs) \<longleftrightarrow> length vs < 65536"
| "value_ok (VInt8s vs) \<longleftrightarrow> length vs < 65536"
| "value_ok (VInt16s vs) \<longleftrightarrow> length vs < 65536"
| "value_ok (VInt32s vs) \<longleftrightarrow> length vs < 65536"
| "value_ok (VInt64s vs) \<longleftrightarrow> length vs < 65536"
| "value_ok (VUint8s vs) \<longleftrightarrow> length vs < 65536"
| "value_ok (VUint16s vs) \<longleftrightarrow> length vs < 65536"
| "value_ok (VUint32s vs) \<longleftrightarrow> length vs < 65536"
| "value_ok (VUint64s vs) \<longleftrightarrow> length vs < 65536"
| "value_ok (VInts vs) \<longleftrightarrow> length vs < 65536"
| "value_ok (VUints vs) \<longleftrightarrow> length vs < 65536"
| "value_ok (VUintptrs vs) \<longleftrightarrow> length vs < 65536"
| "value_ok (VFloat32s vs) \<longleftrightarrow> length vs < 65536"
| "value_ok (VFloat64s vs) \<longleftrightarrow> length vs < 65536"
| "value_ok _ \<longleftrightarrow> True"

definition emits :: "FieldOpt \<Rightarrow> fld \<Rightarrow> bool" where
  "emits opt f \<longleftrightarrow> (\<forall>em ed. opt (em, ed) = (em @ md f, ed @ dat f))"

lemma emits_scalar:
  assumes "\<And>em ed. opt (em, ed) = (writeField em n it ot 0, ed @ item_bytes x)"
  shows "emits opt (Scalar n it ot x)"
  using assms by (simp add: emits_def writeField_def writeFieldInner_def type_bytes_def Let_def outTypeDefault_def)

lemma foldl_emit: "(\<And>ed v. w ed v = ed @ g v) \<Longrightarrow> foldl w ed vs = ed @ concat (map g vs)"
  by (induction vs arbitrary: ed) simp_all

lemma emits_array:
  assumes "\<And>em ed. opt (em, ed) =
      (writeArray em n it ot 0, foldl w (writeUint16 ed (of_nat (length vs))) vs)"
    and "\<And>ed v. w ed v = ed @ item_bytes (g v)"
  shows "emits opt (Arr n it ot (map g vs))"
proof -
  have "foldl w ed vs = ed @ concat (map (\<lambda>v. item_bytes (g v)) vs)" for ed
    by (rule foldl_emit) (rule assms(2))
  then show ?thesis using assms(1)
    by (simp add: emits_def writeArray_def writeFieldInner_def type_bytes_def Let_def outTypeDefault_def
        writeUint16_def comp_def inTypeArray_def)
qed

lemmas write_defs =
  writeString_def writeInt8_def writeInt16_def writeInt32_def writeInt64_def
  writeUint8_def writeUint16_def writeUint32_def writeUint64_def writeFiletime_def

lemma emits_struct:
  assumes "list_all2 emits opts fs"
  shows "emits (Struct n opts) (Struc n fs)"
proof -
  have "fold (\<lambda>opt s. opt s) opts (em, ed) = (em @ concat (map md fs), ed @ concat (map dat fs))" for em ed
    using assms by (induction opts fs arbitrary: em ed) (auto simp: emits_def)
  moreover have "length opts = length fs" using assms by (rule list_all2_lengthD)
  ultimately show ?thesis
    by (simp add: emits_def Struct_def writeStruct_def writeFieldInner_def type_bytes_def Let_def outTypeDefault_def)
qed

lemma SmartField_emits:
  "\<exists>opt. SmartField ft n v = Ok opt \<and> emits opt (smart_fld ft n v)"
  "\<exists>opts. smart_fields ft n vs = Ok opts \<and> list_all2 emits opts (smart_flds ft n vs)"
proof (induction ft n v and ft n vs rule: SmartField_smart_fields.induct)
  case (33 ft name v t)
  then show ?case
    by (auto simp: StringField_def write_defs intro!: emits_scalar)
next
  case (34 ft name fs)
  then obtain opts where "smart_fields ft name fs = Ok opts" "list_all2 emits opts (smart_flds ft name fs)" by blast
  then show ?case by (simp add: emits_struct)
next
  case (37 ft name f fs)
  show ?case
  proof (cases "fst f")
    case True
    with 37(1) obtain o1 where "SmartField ft name (snd f) = Ok o1" "emits o1 (smart_fld ft name (snd f))" by blast
    moreover from 37(2) [OF True this(1)] obtain os where
      "smart_fields ft name fs = Ok os" "list_all2 emits os (smart_flds ft name fs)" by blast
    ultimately show ?thesis using True by simp
  next
    case False
    with 37(3) show ?thesis by simp
  qed
qed (auto simp: BoolField_def StringField_def IntField_def UintField_def UintptrField_def Time_def
      Int8Field_def Int16Field_def Int32Field_def Int64Field_def
      Uint8Field_def Uint16Field_def Uint32Field_def Uint64Field_def Float32Field_def Float64Field_def
      BoolArray_def StringArray_def IntArray_def UintArray_def UintptrArray_def
      Int8Array_def Int16Array_def Int32Array_def Int64Array_def
      Uint8Array_def Uint16Array_def Uint32Array_def Uint64Array_def Float32Array_def Float64Array_def
      sizeof_int_def write_defs intro!: emits_scalar emits_array)

lemma smart_fld_ok:
  "0 \<notin> set n \<Longrightarrow> value_ok v \<Longrightarrow> fld_ok (smart_fld ft n v)"
  "0 \<notin> set n \<Longrightarrow> list_all (\<lambda>f. fst f \<longrightarrow> value_ok (snd f)) vs \<Longrightarrow>
     list_all fld_ok (smart_flds ft n vs) \<and> length (smart_flds ft n vs) = length (filter fst vs)"
  by (induction ft n v and ft n vs rule: smart_fld_smart_flds.induct)
    (simp_all add: item_ok_def width_def etw_types list_all_iff)

fun smart_opts :: "(int \<Rightarrow> u32 \<times> u32) \<Rightarrow> (gostring \<times> govalue) list \<Rightarrow> FieldOpt list res" where
  "smart_opts ft [] = Ok []"
| "smart_opts ft ((n, v) # fs) =
     bind_res (SmartField ft n v) (\<lambda>opt. bind_res (smart_opts ft fs) (\<lambda>opts. Ok (opt # opts)))"

lemma smart_opts_emits:
  "\<exists>opts. smart_opts ft fs = Ok opts \<and> list_all2 emits opts (map (\<lambda>(n, v). smart_fld ft n v) fs)"
proof (induction fs)
  case (Cons f fs)
  obtain n v where "f = (n, v)" by (cases f)
  with Cons SmartField_emits(1) [of ft n v] show ?case by auto
qed simp

lemma fold_emits:
  "list_all2 emits opts fs \<Longrightarrow>
     fold (\<lambda>opt s. opt s) opts (em, ed) = (em @ concat (map md fs), ed @ concat (map dat fs))"
  by (induction opts fs arbitrary: em ed rule: list_all2_induct) (auto simp: emits_def)

text \<open>
  C32: For every list of named Go values without NUL characters in their names and strings,
  with arrays of fewer than 65536 elements and structs of fewer than 128 exported fields,
  \<^verbatim>\<open>SmartField\<close> never panics and the metadata and data its options append to the event
  are read back by a TraceLogging consumer as exactly those fields.
\<close>

theorem etw_fields_read_back:
  assumes "list_all (\<lambda>(n, v). 0 \<notin> set n \<and> value_ok v) fs"
  shows "\<exists>opts m d fuel. smart_opts ft fs = Ok opts \<and>
    fold (\<lambda>opt s. opt s) opts (em, ed) = (em @ m, ed @ d) \<and>
    parse_fields fuel (length fs) m d = Some (map (\<lambda>(n, v). smart_fld ft n v) fs, [], [])"
proof -
  let ?fs = "map (\<lambda>(n, v). smart_fld ft n v) fs"
  obtain opts where o: "smart_opts ft fs = Ok opts" "list_all2 emits opts ?fs"
    using smart_opts_emits by blast
  have "list_all fld_ok ?fs" using assms by (auto simp: list_all_iff intro!: smart_fld_ok(1))
  from parse_fields_correct [OF this order_refl, of "[]" "[]"] fold_emits [OF o(2), of em ed] o(1)
  show ?thesis by force
qed

definition sample_fields :: "(gostring \<times> govalue) list" where
  "sample_fields = [([97], VStruct [(True, VInt8s [1, 2]), (False, VOther [])]), ([98], VString [99])]"

theorem etw_fields_read_back_witness:
  "\<exists>opts m d fuel. smart_opts (\<lambda>t. (0, 0)) sample_fields = Ok opts \<and>
    fold (\<lambda>opt s. opt s) opts ([], []) = ([] @ m, [] @ d) \<and>
    parse_fields fuel (length sample_fields) m d = Some (map (\<lambda>(n, v). smart_fld (\<lambda>t. (0, 0)) n v) sample_fields, [], [])"
  by (rule etw_fields_read_back) (simp add: sample_fields_def)

text \<open>
  The tags of an event or field take one to four bytes, and a consumer reads from them
  the low 28 bits of the value given, whatever follows.
\<close>

theorem etw_tags_read_back:
  "\<exists>bs. writeTags em t = em @ bs \<and> 1 \<le> length bs \<and> length bs \<le> 4 \<and>
     dec_tags 21 0 (bs @ r) = Some (t AND 0xfffffff, r)"
proof -
  have "tags_loop x \<noteq> []" for x by (subst tags_loop.simps) (simp add: Let_def)
  then show ?thesis using tags_loop_length dec_tags_writeTags [of t r]
    by (simp add: writeTags_def Suc_le_eq)
qed

text \<open>
  A struct of 128 fields is written with a type byte that a consumer takes for the flag
  that tags follow: it sees a struct of no fields, and reads the names of the fields as tags.
  A struct of 256 fields is written as one of no fields.
\<close>

theorem etw_struct_128_fields:
  "\<exists>types. fst (Struct n (replicate 128 opt) (em, ed)) =
      fst (fold (\<lambda>opt s. opt s) (replicate 128 opt) (em @ n @ [0] @ types, ed)) \<and>
    parse_types (types @ r) = map_option (\<lambda>(_, r'). (inTypeStruct, 0, r')) (dec_tags 21 0 r) \<and>
    writeStruct em n (of_nat (length (replicate 256 opt))) 0 = em @ n @ [0, inTypeStruct]"
proof (intro exI [of _ "[inTypeStruct OR 128, 128]"] conjI)
  have s: "inTypeStruct < 32" by (simp add: etw_types)
  have "bit (128 :: byte) 7" "(128 :: byte) AND 127 = 0" by (simp_all add: bit_128)
  then show "parse_types ([inTypeStruct OR 128, 128] @ r) = map_option (\<lambda>(_, r'). (inTypeStruct, 0, r')) (dec_tags 21 0 r)"
    using code_bits [OF s] by simp
  define opts where "opts = replicate 128 opt"
  have "length opts = 128" by (simp add: opts_def)
  then show "fst (Struct n (replicate 128 opt) (em, ed)) =
      fst (fold (\<lambda>opt s. opt s) (replicate 128 opt) (em @ n @ [0] @ [inTypeStruct OR 128, 128], ed))"
    unfolding opts_def [symmetric]
    by (simp add: Struct_def writeStruct_def writeFieldInner_def Let_def outTypeDefault_def)
  have "(of_nat (length (replicate 256 opt)) :: byte) = 0" unfolding length_replicate by simp
  then show "writeStruct em n (of_nat (length (replicate 256 opt))) 0 = em @ n @ [0, inTypeStruct]"
    by (simp add: writeStruct_def writeFieldInner_def Let_def outTypeDefault_def)
qed

end
