(* ===== verification/Etw_Provider.thy ===== *)
theory Etw_Provider
  imports Etw_Event Guid Go_Utf
begin

text \<open>
  ETW providers (\<^verbatim>\<open>src/pkg/etw/provider.go\<close>, \<^verbatim>\<open>providerglobal.go\<close>,
  \<^verbatim>\<open>newprovider.go\<close>, \<^verbatim>\<open>eventdescriptor.go\<close>, \<^verbatim>\<open>eventopt.go\<close>,
  \<^verbatim>\<open>eventdatadescriptor.go\<close>): the global map from callback contexts to providers,
  registration, the enable callback, the enabled check and event writing. The state is the
  map together with the heap of provider objects, which the map and the callers share; the
  ETW system calls are parameters.
\<close>

section \<open>Event descriptors and options\<close>

definition ChannelTraceLogging :: byte where "ChannelTraceLogging = 11"
definition LevelAlways :: byte where "LevelAlways = 0"
definition LevelCritical :: byte where "LevelCritical = 1"
definition LevelError :: byte where "LevelError = 2"
definition LevelWarning :: byte where "LevelWarning = 3"
definition LevelInfo :: byte where "LevelInfo = 4"
definition LevelVerbose :: byte where "LevelVerbose = 5"
definition OpcodeInfo :: byte where "OpcodeInfo = 0"
definition OpcodeStart :: byte where "OpcodeStart = 1"
definition OpcodeStop :: byte where "OpcodeStop = 2"
definition OpcodeDCStart :: byte where "OpcodeDCStart = 3"
definition OpcodeDCStop :: byte where "OpcodeDCStop = 4"

record eventDescriptor =
  ev_id :: u16
  ev_version :: byte
  ev_channel :: byte
  ev_level :: byte
  ev_opcode :: byte
  ev_task :: u16
  ev_keyword :: u64

definition newEventDescriptor :: eventDescriptor where
  "newEventDescriptor =
     \<lparr>ev_id = 0, ev_version = 0, ev_channel = ChannelTraceLogging, ev_level = LevelVerbose,
      ev_opcode = 0, ev_task = 0, ev_keyword = 0\<rparr>"

definition identity :: "eventDescriptor \<Rightarrow> u32" where
  "identity ed = push_bit 16 (ucast (ev_version ed)) OR ucast (ev_id ed)"

definition setIdentity :: "eventDescriptor \<Rightarrow> u32 \<Rightarrow> eventDescriptor" where
  "setIdentity ed i = ed\<lparr>ev_id := ucast i, ev_version := ucast (drop_bit 16 i)\<rparr>"

record eventOptions =
  descriptor :: eventDescriptor
  activityID :: GUID
  relatedActivityID :: GUID
  tags :: u32

type_synonym EventOpt = "eventOptions \<Rightarrow> eventOptions"

definition WithLevel :: "byte \<Rightarrow> EventOpt" where
  "WithLevel l o1 = o1\<lparr>descriptor := (descriptor o1)\<lparr>ev_level := l\<rparr>\<rparr>"

definition WithKeyword :: "u64 \<Rightarrow> EventOpt" where
  "WithKeyword k o1 = o1\<lparr>descriptor := (descriptor o1)\<lparr>ev_keyword := ev_keyword (descriptor o1) OR k\<rparr>\<rparr>"

definition WithChannel :: "byte \<Rightarrow> EventOpt" where
  "WithChannel c o1 = o1\<lparr>descriptor := (descriptor o1)\<lparr>ev_channel := c\<rparr>\<rparr>"

definition WithOpcode :: "byte \<Rightarrow> EventOpt" where
  "WithOpcode c o1 = o1\<lparr>descriptor := (descriptor o1)\<lparr>ev_opcode := c\<rparr>\<rparr>"

definition WithTags :: "u32 \<Rightarrow> EventOpt" where
  "WithTags t o1 = o1\<lparr>tags := tags o1 OR t\<rparr>"

definition WithActivityID :: "GUID \<Rightarrow> EventOpt" where
  "WithActivityID g o1 = o1\<lparr>activityID := g\<rparr>"

definition WithRelatedActivityID :: "GUID \<Rightarrow> EventOpt" where
  "WithRelatedActivityID g o1 = o1\<lparr>relatedActivityID := g\<rparr>"

section \<open>Providers and the global map\<close>

record 'c Provider =
  ID :: GUID
  handle :: u64
  metadata :: bytes
  callback :: "'c option"
  index :: u64
  enabled :: bool
  level :: byte
  keywordAny :: u64
  keywordAll :: u64

text \<open>
  \<^verbatim>\<open>providerMap\<close> and the heap: \<open>heap a\<close> is the provider at address \<open>a\<close>, for the addresses
  below \<open>allocated\<close>. Each operation of the map holds its lock throughout.
\<close>

record 'c providers =
  pm_m :: "u64 \<rightharpoonup> nat"
  pm_i :: u64
  heap :: "nat \<Rightarrow> 'c Provider"
  allocated :: nat

definition newProvider :: "'c providers \<Rightarrow> nat \<times> 'c providers" where
  "newProvider p =
     (let a = allocated p;
          pr = \<lparr>ID = zero_guid, handle = 0, metadata = [], callback = None, index = pm_i p,
                enabled = False, level = 0, keywordAny = 0, keywordAll = 0\<rparr>
      in (a, p\<lparr>pm_m := (pm_m p)(pm_i p \<mapsto> a), pm_i := pm_i p + 1, heap := (heap p)(a := pr), allocated := a + 1\<rparr>))"

definition removeProvider :: "'c providers \<Rightarrow> nat \<Rightarrow> 'c providers" where
  "removeProvider p a = p\<lparr>pm_m := (pm_m p)(index (heap p a) := None)\<rparr>"

definition getProvider :: "'c providers \<Rightarrow> u64 \<Rightarrow> nat option" where
  "getProvider p idx = pm_m p idx"

definition upd_provider :: "'c providers \<Rightarrow> nat \<Rightarrow> ('c Provider \<Rightarrow> 'c Provider) \<Rightarrow> 'c providers" where
  "upd_provider p a f = p\<lparr>heap := (heap p)(a := f (heap p a))\<rparr>"

definition ProviderStateDisable :: u32 where "ProviderStateDisable = 0"
definition ProviderStateEnable :: u32 where "ProviderStateEnable = 1"
definition ProviderStateCaptureState :: u32 where "ProviderStateCaptureState = 2"

text \<open>
  \<^verbatim>\<open>providerCallback\<close>, entered through \<^verbatim>\<open>providerCallbackAdapter\<close>: the new state
  and the user's callback to be invoked. A context without a provider is a nil dereference.
\<close>

definition notify_provider :: "u32 \<Rightarrow> byte \<Rightarrow> u64 \<Rightarrow> u64 \<Rightarrow> 'c Provider \<Rightarrow> 'c Provider" where
  "notify_provider st lvl any all pr =
     (if st = ProviderStateDisable then pr\<lparr>enabled := False\<rparr>
      else if st = ProviderStateEnable then
        pr\<lparr>enabled := True, level := lvl, keywordAny := any, keywordAll := all\<rparr>
      else pr)"

definition providerCallback ::
  "'c providers \<Rightarrow> u32 \<Rightarrow> byte \<Rightarrow> u64 \<Rightarrow> u64 \<Rightarrow> u64 \<Rightarrow> ('c providers \<times> 'c option) res" where
  "providerCallback p st lvl any all idx =
     (case getProvider p idx of
        None \<Rightarrow> Panic ''nil pointer dereference''
      | Some a \<Rightarrow> Ok (upd_provider p a (notify_provider st lvl any all), callback (heap p a)))"

definition providerCallbackAdapter ::
  "'c providers \<Rightarrow> u64 \<Rightarrow> u64 \<Rightarrow> u64 \<Rightarrow> u64 \<Rightarrow> u64 \<Rightarrow> ('c providers \<times> 'c option) res" where
  "providerCallbackAdapter p st lvl any all idx =
     providerCallback p (ucast st) (ucast lvl) any all idx"

section \<open>Creating and closing a provider\<close>

text \<open>
  \<^verbatim>\<open>providerIDFromName\<close>, for given SHA-1 and \<^verbatim>\<open>strings.ToUpper\<close>.
\<close>

definition etw_namespace :: GUID where
  "etw_namespace = \<lparr>Data1 = 0x482C2DB2, Data2 = 0xC390, Data3 = 0x47C8,
     Data4 = [0x87, 0xF8, 0x1A, 0x15, 0xBF, 0xC1, 0x30, 0xFB]\<rparr>"

definition providerIDFromName :: "(bytes \<Rightarrow> bytes) \<Rightarrow> (gostring \<Rightarrow> gostring) \<Rightarrow> gostring \<Rightarrow> GUID res" where
  "providerIDFromName sha1 ToUpper name =
     (let hash = sha1 (ToArray etw_namespace @ enc_list (be_enc 2) (utf16_Encode (runes (ToUpper name)))) in
      bind_res (Go_Prelude.index hash 7) (\<lambda>b.
      Ok (FromWindowsArray (copy_into 16 (hash[7 := (b AND 0xf) OR 0x50])))))"

record 'c providerOpts =
  opt_callback :: "'c option"
  opt_id :: GUID
  opt_group :: GUID

type_synonym 'c ProviderOpt = "'c providerOpts \<Rightarrow> 'c providerOpts"

definition WithCallback :: "'c option \<Rightarrow> 'c ProviderOpt" where "WithCallback cb o1 = o1\<lparr>opt_callback := cb\<rparr>"
definition WithID :: "GUID \<Rightarrow> 'c ProviderOpt" where "WithID g o1 = o1\<lparr>opt_id := g\<rparr>"
definition WithGroup :: "GUID \<Rightarrow> 'c ProviderOpt" where "WithGroup g o1 = o1\<lparr>opt_group := g\<rparr>"

text \<open>The provider metadata with its length and, for a group, the trait with its own.\<close>

definition put_length :: "bytes \<Rightarrow> bytes" where
  "put_length b = le_enc 2 (of_nat (length b) :: u16) @ drop 2 b"

definition group_trait :: "GUID \<Rightarrow> bytes" where
  "group_trait g = (if g \<noteq> zero_guid then put_length (le_enc 2 (0 :: u16) @ [1] @ ToWindowsArray g) else [])"

definition provider_metadata :: "gostring \<Rightarrow> GUID \<Rightarrow> bytes" where
  "provider_metadata name g = put_length (le_enc 2 (0 :: u16) @ name @ [0] @ group_trait g)"

text \<open>
  The system calls: \<^verbatim>\<open>eventRegister\<close> of an ID and a context returns a handle,
  \<^verbatim>\<open>eventSetInformation\<close> sets the traits.
\<close>

type_synonym 'o event_register = "'o \<Rightarrow> GUID \<Rightarrow> u64 \<Rightarrow> go_error option \<times> u64 \<times> 'o"
type_synonym 'o event_set_information = "'o \<Rightarrow> u64 \<Rightarrow> bytes \<Rightarrow> go_error option \<times> 'o"

definition NewProviderWithOptions ::
  "(bytes \<Rightarrow> bytes) \<Rightarrow> (gostring \<Rightarrow> gostring) \<Rightarrow> 'o event_register \<Rightarrow> 'o event_set_information \<Rightarrow>
     'o \<times> 'c providers \<Rightarrow> gostring \<Rightarrow> 'c ProviderOpt list \<Rightarrow> nat res \<times> 'o \<times> 'c providers" where
  "NewProviderWithOptions sha1 ToUpper eventRegister eventSetInformation s name options =
     (case s of (os, p) \<Rightarrow>
      let opts = fold (\<lambda>opt o1. opt o1) options \<lparr>opt_callback = None, opt_id = zero_guid, opt_group = zero_guid\<rparr>;
          id_res = (if opt_id opts = zero_guid then providerIDFromName sha1 ToUpper name else Ok (opt_id opts))
      in case id_res of
           Err e \<Rightarrow> (Err e, os, p)
         | Panic x \<Rightarrow> (Panic x, os, p)
         | Ok gid \<Rightarrow>
             let (a, p1) = newProvider p;
                 p2 = upd_provider p1 a (\<lambda>pr. pr\<lparr>ID := gid, callback := opt_callback opts\<rparr>)
             in case eventRegister os gid (index (heap p2 a)) of
                  (Some e, _, os1) \<Rightarrow> (Err e, os1, removeProvider p2 a)
                | (None, h, os1) \<Rightarrow>
                    let md = provider_metadata name (opt_group opts);
                        p3 = upd_provider p2 a (\<lambda>pr. pr\<lparr>handle := h, metadata := md\<rparr>)
                    in case eventSetInformation os1 h md of
                         (Some e, os2) \<Rightarrow> (Err e, os2, removeProvider p3 a)
                       | (None, os2) \<Rightarrow> (Ok a, os2, p3))"

definition NewProviderWithID where
  "NewProviderWithID sha1 ToUpper er esi s name gid cb =
     NewProviderWithOptions sha1 ToUpper er esi s name [WithID gid, WithCallback cb]"

definition NewProvider where
  "NewProvider sha1 ToUpper er esi s name cb = NewProviderWithOptions sha1 ToUpper er esi s name [WithCallback cb]"

text \<open>\<^verbatim>\<open>Close\<close>, on a provider pointer that may be nil.\<close>

definition Close ::
  "('o \<Rightarrow> u64 \<Rightarrow> go_error option \<times> 'o) \<Rightarrow> 'o \<times> 'c providers \<Rightarrow> nat option \<Rightarrow> go_error option \<times> 'o \<times> 'c providers" where
  "Close eventUnregister s ptr =
     (case s of (os, p) \<Rightarrow>
      case ptr of
        None \<Rightarrow> (None, os, p)
      | Some a \<Rightarrow>
          (case eventUnregister os (handle (heap p a)) of (e, os') \<Rightarrow> (e, os', removeProvider p a)))"

section \<open>Writing events\<close>

definition IsEnabledForLevelAndKeywords :: "'c Provider option \<Rightarrow> byte \<Rightarrow> u64 \<Rightarrow> bool" where
  "IsEnabledForLevelAndKeywords provider lvl keywords =
     (case provider of
        None \<Rightarrow> False
      | Some pr \<Rightarrow>
          if \<not> enabled pr then False
          else if level pr < lvl then False
          else if keywords \<noteq> 0 \<and> (keywords AND keywordAny pr = 0 \<or> keywords AND keywordAll pr \<noteq> keywordAll pr)
          then False
          else True)"

definition IsEnabledForLevel :: "'c Provider option \<Rightarrow> byte \<Rightarrow> bool" where
  "IsEnabledForLevel provider lvl = IsEnabledForLevelAndKeywords provider lvl (NOT 0)"

definition IsEnabled :: "'c Provider option \<Rightarrow> bool" where
  "IsEnabled provider = IsEnabledForLevelAndKeywords provider LevelAlways (NOT 0)"

definition Provider_String :: "'c Provider option \<Rightarrow> gostring" where
  "Provider_String provider = (case provider of None \<Rightarrow> bs_of ''<nil>'' | Some pr \<Rightarrow> GUID_String (ID pr))"

text \<open>A data descriptor is the blob it points to, its size and its type.\<close>

record eventDataDescriptor =
  dd_ptr :: bytes
  dd_size :: u32
  dd_dataType :: byte

definition eventDataDescriptorTypeUserData :: byte where "eventDataDescriptorTypeUserData = 0"
definition eventDataDescriptorTypeEventMetadata :: byte where "eventDataDescriptorTypeEventMetadata = 1"
definition eventDataDescriptorTypeProviderMetadata :: byte where "eventDataDescriptorTypeProviderMetadata = 2"

definition newEventDataDescriptor :: "byte \<Rightarrow> bytes \<Rightarrow> eventDataDescriptor res" where
  "newEventDataDescriptor ty b =
     bind_res (Go_Prelude.index b 0) (\<lambda>_. Ok \<lparr>dd_ptr = b, dd_size = of_nat (length b), dd_dataType = ty\<rparr>)"

fun descriptors :: "(byte \<times> bytes) list \<Rightarrow> eventDataDescriptor list res" where
  "descriptors [] = Ok []"
| "descriptors ((ty, b) # bs) =
     bind_res (newEventDataDescriptor ty b) (\<lambda>d. bind_res (descriptors bs) (\<lambda>ds. Ok (d # ds)))"

type_synonym 'o event_write =
  "'o \<Rightarrow> u64 \<Rightarrow> eventDescriptor \<Rightarrow> GUID \<Rightarrow> GUID \<Rightarrow> u32 \<Rightarrow> eventDataDescriptor list \<Rightarrow> go_error option \<times> 'o"

definition writeEventRaw ::
  "'o event_write \<Rightarrow> 'o \<Rightarrow> 'c Provider \<Rightarrow> eventDescriptor \<Rightarrow> GUID \<Rightarrow> GUID \<Rightarrow> bytes list \<Rightarrow> bytes list \<Rightarrow>
     (go_error option \<times> 'o) res" where
  "writeEventRaw eventWriteTransfer os pr desc act rel metadataBlobs dataBlobs =
     (let count = of_nat (1 + length metadataBlobs + length dataBlobs) in
      bind_res (descriptors
        ((eventDataDescriptorTypeProviderMetadata, metadata pr) #
         map (Pair eventDataDescriptorTypeEventMetadata) metadataBlobs @
         map (Pair eventDataDescriptorTypeUserData) dataBlobs)) (\<lambda>ds.
      Ok (eventWriteTransfer os (handle pr) desc act rel count ds)))"

definition WriteEvent ::
  "'o event_write \<Rightarrow> 'o \<Rightarrow> 'c Provider option \<Rightarrow> gostring \<Rightarrow> EventOpt list \<Rightarrow> FieldOpt list \<Rightarrow>
     (go_error option \<times> 'o) res" where
  "WriteEvent eventWriteTransfer os provider name eventOpts fieldOpts =
     (case provider of
        None \<Rightarrow> Ok (None, os)
      | Some pr \<Rightarrow>
          let options = fold (\<lambda>opt o1. opt o1) eventOpts
                \<lparr>descriptor = newEventDescriptor, activityID = zero_guid, relatedActivityID = zero_guid, tags = 0\<rparr>
          in if \<not> IsEnabledForLevelAndKeywords provider (ev_level (descriptor options)) (ev_keyword (descriptor options))
             then Ok (None, os)
             else
               let (em, ed) = fold (\<lambda>opt s. opt s) fieldOpts (writeEventHeader [] name (tags options), [])
               in bind_res (em_toBytes em) (\<lambda>emb.
                  writeEventRaw eventWriteTransfer os pr (descriptor options) (activityID options)
                    (relatedActivityID options) [emb] (if length (ed_toBytes ed) > 0 then [ed_toBytes ed] else [])))"

section \<open>Every open provider stays reachable from its callback context\<close>

text \<open>
  The programs that use the package: any sequence of creations (with any options and any
  outcome of the system calls), closes (of any provider ever created, open or not) and
  callbacks. The second component is the set of providers returned and not yet closed. The
  64-bit counter does not wrap.
\<close>

definition providers_init :: "(nat \<Rightarrow> 'c Provider) \<Rightarrow> 'c providers" where
  "providers_init h = \<lparr>pm_m = Map.empty, pm_i = 0, heap = h, allocated = 0\<rparr>"

inductive reach :: "'c providers \<Rightarrow> nat set \<Rightarrow> bool" where
  init: "reach (providers_init h) {}"
| new: "reach p opn \<Longrightarrow> pm_i p + 1 \<noteq> 0 \<Longrightarrow>
    NewProviderWithOptions sha1 ToUpper er esi ((), p) name opts = (r, os', p') \<Longrightarrow>
    reach p' (case r of Ok a \<Rightarrow> insert a opn | _ \<Rightarrow> opn)"
| close: "reach p opn \<Longrightarrow> a < allocated p \<Longrightarrow> Close eu ((), p) (Some a) = (e, os', p') \<Longrightarrow>
    reach p' (opn - {a})"
| notify: "reach p opn \<Longrightarrow> providerCallback p st lvl any all idx = Ok (p', cb) \<Longrightarrow> reach p' opn"

definition idx :: "'c providers \<Rightarrow> nat \<Rightarrow> u64" where
  "idx p a = index (heap p a)"

definition map_ok :: "'c providers \<Rightarrow> bool" where
  "map_ok p \<longleftrightarrow> (\<forall>x a. pm_m p x = Some a \<longrightarrow> a < allocated p \<and> idx p a = x)"

definition idx_ok :: "'c providers \<Rightarrow> bool" where
  "idx_ok p \<longleftrightarrow> (\<forall>a < allocated p. idx p a < pm_i p) \<and> inj_on (idx p) {..<allocated p}"

definition open_ok :: "'c providers \<Rightarrow> nat set \<Rightarrow> bool" where
  "open_ok p opn \<longleftrightarrow> (\<forall>a \<in> opn. a < allocated p \<and> pm_m p (idx p a) = Some a)"

definition providers_ok :: "'c providers \<Rightarrow> nat set \<Rightarrow> bool" where
  "providers_ok p opn \<longleftrightarrow> map_ok p \<and> idx_ok p \<and> open_ok p opn"

lemma providers_ok_cong:
  assumes "pm_m p' = pm_m p" "pm_i p' = pm_i p" "allocated p' = allocated p" "idx p' = idx p"
  shows "providers_ok p' opn = providers_ok p opn"
  by (simp add: providers_ok_def map_ok_def idx_ok_def open_ok_def assms)

lemma providers_ok_upd:
  assumes "\<And>pr. index (f pr) = index pr"
  shows "providers_ok (upd_provider p a f) opn = providers_ok p opn"
  by (rule providers_ok_cong) (auto simp: upd_provider_def idx_def assms)

lemma word_less_succ:
  "y + 1 \<noteq> 0 \<Longrightarrow> y < y + 1" "(x :: u64) < y \<Longrightarrow> y + 1 \<noteq> 0 \<Longrightarrow> x < y + 1"
  using unatSuc [of y] by (simp_all add: word_less_nat_alt add.commute)

lemma providers_ok_new:
  assumes ok: "providers_ok p opn" and i: "pm_i p + 1 \<noteq> 0" and np: "newProvider p = (a, p')"
  shows "providers_ok p' (insert a opn)"
proof -
  have a: "a = allocated p" and p': "pm_m p' = (pm_m p)(pm_i p \<mapsto> a)" "pm_i p' = pm_i p + 1"
      "allocated p' = Suc a" "idx p' = (idx p)(a := pm_i p)"
    using np by (auto simp: newProvider_def Let_def idx_def)
  have lt: "idx p b < pm_i p" if "b < a" for b
    using ok that by (simp add: providers_ok_def idx_ok_def a)
  have fresh: "pm_m p (pm_i p) = None"
  proof (rule ccontr)
    assume "pm_m p (pm_i p) \<noteq> None"
    then obtain b where "b < a" "idx p b = pm_i p"
      using ok by (auto simp: providers_ok_def map_ok_def a)
    with lt [of b] show False by simp
  qed
  have "map_ok p'"
    using ok by (auto simp: providers_ok_def map_ok_def p' a less_Suc_eq)
  moreover have "idx_ok p'"
  proof -
    have "inj_on (idx p') {..<a}"
      using ok inj_on_cong [of "{..<a}" "idx p'" "idx p"] by (simp add: providers_ok_def idx_ok_def p' a)
    moreover have "pm_i p \<notin> idx p' ` {..<a}"
    proof
      assume "pm_i p \<in> idx p' ` {..<a}"
      then obtain b where b: "b < a" "pm_i p = idx p' b" by blast
      have "idx p' b = idx p b" using b(1) unfolding p' by simp
      with lt [OF b(1)] b(2) show False by simp
    qed
    ultimately have "inj_on (idx p') {..<allocated p'}"
      by (simp add: p' lessThan_Suc)
    moreover have "idx p' b < pm_i p'" if "b < allocated p'" for b
      using that lt [of b] word_less_succ(1) [OF i] word_less_succ(2) [OF _ i, of "idx p b"]
      by (cases "b = a") (simp_all add: p')
    ultimately show ?thesis by (simp add: idx_ok_def)
  qed
  moreover have "open_ok p' (insert a opn)"
    unfolding open_ok_def
  proof
    fix b
    assume "b \<in> insert a opn"
    then consider "b = a" | "b < a" "pm_m p (idx p b) = Some b"
      using ok by (auto simp: providers_ok_def open_ok_def a)
    then show "b < allocated p' \<and> pm_m p' (idx p' b) = Some b"
      by cases (use lt [of b] in \<open>auto simp: p'\<close>)
  qed
  ultimately show ?thesis by (simp add: providers_ok_def)
qed

lemma providers_ok_remove:
  assumes ok: "providers_ok p opn" and a: "a < allocated p"
  shows "providers_ok (removeProvider p a) (opn - {a})"
proof -
  have r: "idx (removeProvider p a) = idx p" "allocated (removeProvider p a) = allocated p"
    "pm_i (removeProvider p a) = pm_i p" "pm_m (removeProvider p a) = (pm_m p)(idx p a := None)"
    by (auto simp: removeProvider_def idx_def)
  have "idx p b \<noteq> idx p a" if "b \<in> opn" "b \<noteq> a" for b
    using ok a that by (auto simp: providers_ok_def idx_ok_def open_ok_def inj_on_def)
  then show ?thesis
    using ok by (simp add: providers_ok_def map_ok_def idx_ok_def open_ok_def r)
qed

text \<open>Creating a provider either changes nothing, or allocates one and keeps or removes it.\<close>

lemma upd_upd: "upd_provider (upd_provider p a f) a g = upd_provider p a (\<lambda>pr. g (f pr))"
  by (simp add: upd_provider_def)

lemma NewProviderWithOptions_cases:
  assumes "NewProviderWithOptions sha1 ToUpper er esi (os, p) name opts = (r, os', p')"
  obtains (none) "\<And>x. r \<noteq> Ok x" "p' = p"
    | (alloc) a p1 f where "newProvider p = (a, p1)" "\<And>pr. index (f pr) = index pr"
        "(r = Ok a \<and> p' = upd_provider p1 a f) \<or> ((\<forall>x. r \<noteq> Ok x) \<and> p' = removeProvider (upd_provider p1 a f) a)"
proof -
  let ?o = "fold (\<lambda>opt o1. opt o1) opts \<lparr>opt_callback = None, opt_id = zero_guid, opt_group = zero_guid\<rparr>"
  let ?id = "if opt_id ?o = zero_guid then providerIDFromName sha1 ToUpper name else Ok (opt_id ?o)"
  obtain a p1 where np: "newProvider p = (a, p1)" by (cases "newProvider p")
  show thesis
  proof (cases ?id)
    case (Ok gid)
    let ?f = "\<lambda>pr. pr\<lparr>ID := gid, callback := opt_callback ?o\<rparr>"
    obtain e1 h os1 where er: "er os gid (index (heap (upd_provider p1 a ?f) a)) = (e1, h, os1)"
      by (cases "er os gid (index (heap (upd_provider p1 a ?f) a))")
    let ?md = "provider_metadata name (opt_group ?o)"
    obtain e2 os2 where esi: "esi os1 h ?md = (e2, os2)" by (cases "esi os1 h ?md")
    let ?g = "\<lambda>pr. (?f pr)\<lparr>handle := h, metadata := ?md\<rparr>"
    show thesis
    proof (cases e1)
      case (Some e)
      then have "r = Err e" "p' = removeProvider (upd_provider p1 a ?f) a"
        using assms np Ok er by (simp_all add: NewProviderWithOptions_def)
      then show thesis by (intro alloc [of a p1 ?f] np) simp_all
    next
      case None
      then have "(r = Ok a \<and> p' = upd_provider p1 a ?g) \<or> ((\<forall>x. r \<noteq> Ok x) \<and> p' = removeProvider (upd_provider p1 a ?g) a)"
        using assms np Ok er esi by (cases e2) (auto simp: NewProviderWithOptions_def Let_def upd_upd)
      then show thesis by (intro alloc [of a p1 ?g] np) simp_all
    qed
  qed (use assms none in \<open>auto simp: NewProviderWithOptions_def Let_def\<close>)
qed

lemma reach_ok: "reach p opn \<Longrightarrow> providers_ok p opn"
proof (induction rule: reach.induct)
  case (init h)
  show ?case by (simp add: providers_ok_def providers_init_def map_ok_def idx_ok_def open_ok_def)
next
  case (new p opn sha1 ToUpper er esi name opts r os' p')
  from new.hyps(3) show ?case
  proof (cases rule: NewProviderWithOptions_cases)
    case none
    with new.IH show ?thesis by (cases r) auto
  next
    case (alloc a p1 f)
    have ok: "providers_ok (upd_provider p1 a f) (insert a opn)"
      using providers_ok_new [OF new.IH new.hyps(2) alloc(1)] by (simp add: providers_ok_upd alloc(2))
    then have al: "a < allocated (upd_provider p1 a f)" by (auto simp: providers_ok_def open_ok_def)
    have "a \<notin> opn"
      using new.IH alloc(1) by (auto simp: providers_ok_def open_ok_def newProvider_def Let_def)
    then have "insert a opn - {a} = opn" by auto
    with providers_ok_remove [OF ok al] ok alloc(3) show ?thesis by (cases r) auto
  qed
next
  case (close p opn a eu e os' p')
  then have "p' = removeProvider p a" by (auto simp: Close_def split: prod.splits)
  with close show ?case by (simp add: providers_ok_remove)
next
  case (notify p opn st lvl any all idx p' cb)
  then obtain a where "p' = upd_provider p a (notify_provider st lvl any all)"
    by (auto simp: providerCallback_def split: option.splits)
  with notify show ?case by (simp add: providers_ok_upd notify_provider_def)
qed

text \<open>
  C34: In every reachable state, the callback context of an open provider leads back to that
  provider and to no other, and a callback in that context does not panic.
\<close>

theorem etw_open_providers_reachable:
  assumes "reach p opn" and "a \<in> opn"
  shows "getProvider p (index (heap p a)) = Some a \<and>
    (\<forall>b. getProvider p (index (heap p b)) = Some b \<and> b \<noteq> a \<longrightarrow> index (heap p b) \<noteq> index (heap p a)) \<and>
    providerCallback p st lvl any all (index (heap p a)) =
      Ok (upd_provider p a (notify_provider st lvl any all), callback (heap p a))"
  using reach_ok [OF assms(1)] assms(2)
  by (auto simp: providers_ok_def open_ok_def idx_def getProvider_def providerCallback_def)

definition sample_provider :: "unit Provider" where
  "sample_provider = \<lparr>ID = zero_guid, handle = 0, metadata = [], callback = None, index = 0,
     enabled = False, level = 0, keywordAny = 0, keywordAll = 0\<rparr>"

definition sample_new :: "nat res \<times> unit \<times> unit providers" where
  "sample_new = NewProviderWithOptions (\<lambda>_. []) id (\<lambda>os g c. (None, 7, os)) (\<lambda>os h b. (None, os))
     ((), providers_init (\<lambda>_. sample_provider)) [] [WithID etw_namespace]"

lemma etw_namespace_nonzero: "etw_namespace \<noteq> zero_guid"
  by (simp add: etw_namespace_def zero_guid_def)

lemma sample_new_eval: "fst sample_new = Ok 0" "index (heap (snd (snd sample_new)) 0) = 0"
  using etw_namespace_nonzero
  by (simp_all add: sample_new_def NewProviderWithOptions_def WithID_def newProvider_def upd_provider_def
      providers_init_def Let_def)

lemma sample_reach: "reach (snd (snd sample_new)) {0}"
proof -
  obtain r os p where "sample_new = (r, os, p)" by (cases sample_new)
  moreover have "pm_i (providers_init (\<lambda>_. sample_provider)) + 1 \<noteq> 0" by (simp add: providers_init_def)
  ultimately have "reach p (case r of Ok a \<Rightarrow> insert a {} | _ \<Rightarrow> {})"
    using reach.new [OF reach.init] unfolding sample_new_def by blast
  moreover have "r = Ok 0" "p = snd (snd sample_new)"
    using sample_new_eval(1) unfolding \<open>sample_new = (r, os, p)\<close> by simp_all
  ultimately show ?thesis by simp
qed

theorem etw_open_providers_reachable_witness:
  "getProvider (snd (snd sample_new)) 0 = Some 0 \<and>
   \<not> panics (providerCallback (snd (snd sample_new)) ProviderStateEnable 5 1 0 0)"
  using etw_open_providers_reachable [OF sample_reach, of 0 ProviderStateEnable 5 1 0]
  by (simp add: sample_new_eval(2))

section \<open>The enabled check\<close>

text \<open>
  A provider is enabled for a level and keywords exactly as the last notification says:
  after an enabling one, for the levels up to its level and for no keyword, or keywords that
  meet the any-mask and contain the all-mask; never after a disabling one; a capture-state
  notification (or an unknown one) changes nothing. A nil provider is never enabled.
\<close>

theorem etw_enabled_after_notification:
  "IsEnabledForLevelAndKeywords (Some (notify_provider st lvl any all pr)) l k \<longleftrightarrow>
     (if st = ProviderStateDisable then False
      else if st = ProviderStateEnable then
        l \<le> lvl \<and> (k = 0 \<or> (k AND any \<noteq> 0 \<and> k AND all = all))
      else IsEnabledForLevelAndKeywords (Some pr) l k) \<and>
   \<not> IsEnabledForLevelAndKeywords None l k"
  by (auto simp: IsEnabledForLevelAndKeywords_def notify_provider_def ProviderStateDisable_def
      ProviderStateEnable_def)

section \<open>Events reach the system as described\<close>

definition event_options :: "EventOpt list \<Rightarrow> eventOptions" where
  "event_options eos = fold (\<lambda>opt o1. opt o1) eos
     \<lparr>descriptor = newEventDescriptor, activityID = zero_guid, relatedActivityID = zero_guid, tags = 0\<rparr>"

text \<open>
  C33: \<^verbatim>\<open>WriteEvent\<close> with fields made by \<^verbatim>\<open>SmartField\<close> never panics. It makes no
  system call when the provider is not enabled for the event's level and keywords. Otherwise
  it makes exactly one, with the descriptor and activities of the event options, the provider
  metadata, the event metadata (its 16-bit length, the tags, the name and the fields) and,
  unless it is empty, the event data; and a consumer reads the fields back from the last two.
\<close>

theorem etw_WriteEvent:
  assumes "metadata pr \<noteq> []" and "list_all (\<lambda>(n, v). 0 \<notin> set n \<and> value_ok v) fs"
  shows "\<exists>opts md d tg fuel. smart_opts ft fs = Ok opts \<and>
    WriteEvent ewt os (Some pr) name eos opts =
      Ok (if IsEnabledForLevelAndKeywords (Some pr)
              (ev_level (descriptor (event_options eos))) (ev_keyword (descriptor (event_options eos)))
          then ewt os (handle pr) (descriptor (event_options eos)) (activityID (event_options eos))
                 (relatedActivityID (event_options eos)) (if d = [] then 2 else 3)
                 ([\<lparr>dd_ptr = metadata pr, dd_size = of_nat (length (metadata pr)), dd_dataType = 2\<rparr>,
                   \<lparr>dd_ptr = le_enc 2 (of_nat (2 + length (tg @ name @ [0] @ md)) :: u16) @ tg @ name @ [0] @ md,
                    dd_size = of_nat (2 + length (tg @ name @ [0] @ md)), dd_dataType = 1\<rparr>] @
                  (if d = [] then [] else [\<lparr>dd_ptr = d, dd_size = of_nat (length d), dd_dataType = 0\<rparr>]))
          else (None, os)) \<and>
    dec_tags 21 0 (tg @ name @ [0] @ md) = Some (tags (event_options eos) AND 0xfffffff, name @ [0] @ md) \<and>
    parse_fields fuel (length fs) md d = Some (map (\<lambda>(n, v). smart_fld ft n v) fs, [], [])"
proof -
  let ?fs = "map (\<lambda>(n, v). smart_fld ft n v) fs"
  let ?md = "concat (map md ?fs)" and ?d = "concat (map dat ?fs)"
  let ?tg = "tags_loop (tags (event_options eos) AND 0xfffffff)"
  obtain opts where o: "smart_opts ft fs = Ok opts" "list_all2 emits opts ?fs"
    using smart_opts_emits by blast
  have "list_all fld_ok ?fs" using assms(2) by (auto simp: list_all_iff intro!: smart_fld_ok(1))
  from parse_fields_correct [OF this order_refl, of "[]" "[]"]
  have p: "parse_fields (sum_list (map fsize ?fs)) (length fs) ?md ?d = Some (?fs, [], [])" by simp
  have hd: "writeEventHeader [] name (tags (event_options eos)) = le_enc 2 (0 :: u16) @ ?tg @ name @ [0]"
    by (simp add: writeEventHeader_def writeTags_def)
  have w: "WriteEvent ewt os (Some pr) name eos opts =
      Ok (if IsEnabledForLevelAndKeywords (Some pr)
              (ev_level (descriptor (event_options eos))) (ev_keyword (descriptor (event_options eos)))
          then ewt os (handle pr) (descriptor (event_options eos)) (activityID (event_options eos))
                 (relatedActivityID (event_options eos)) (if ?d = [] then 2 else 3)
                 ([\<lparr>dd_ptr = metadata pr, dd_size = of_nat (length (metadata pr)), dd_dataType = 2\<rparr>,
                   \<lparr>dd_ptr = le_enc 2 (of_nat (2 + length (?tg @ name @ [0] @ ?md)) :: u16) @ ?tg @ name @ [0] @ ?md,
                    dd_size = of_nat (2 + length (?tg @ name @ [0] @ ?md)), dd_dataType = 1\<rparr>] @
                  (if ?d = [] then [] else [\<lparr>dd_ptr = ?d, dd_size = of_nat (length ?d), dd_dataType = 0\<rparr>]))
          else (None, os))"
    unfolding WriteEvent_def event_options_def [symmetric] option.case Let_def hd fold_emits [OF o(2)]
    by (simp add: em_toBytes_def ed_toBytes_def writeEventRaw_def newEventDataDescriptor_def assms(1)
        eventDataDescriptorTypeUserData_def eventDataDescriptorTypeEventMetadata_def
        eventDataDescriptorTypeProviderMetadata_def)
  have t: "dec_tags 21 0 (?tg @ name @ [0] @ ?md) = Some (tags (event_options eos) AND 0xfffffff, name @ [0] @ ?md)"
    by (rule dec_tags_writeTags)
  from o(1) w t p show ?thesis by blast
qed

definition sample_log :: "nat event_write" where
  "sample_log n h desc act rel count ds = (None, n + length ds)"

theorem etw_WriteEvent_witness:
  "\<exists>opts n. smart_opts (\<lambda>t. (0, 0)) sample_fields = Ok opts \<and>
    WriteEvent sample_log 0 (Some (sample_provider\<lparr>metadata := [3, 0, 0], enabled := True, level := 5\<rparr>)) [101] [] opts = Ok (None, n)"
  using etw_WriteEvent [of "sample_provider\<lparr>metadata := [3, 0, 0], enabled := True, level := 5\<rparr>" sample_fields
      "\<lambda>t. (0, 0)" sample_log 0 "[101]" "[]"]
  by (fastforce simp: sample_log_def sample_fields_def)

section \<open>Provider metadata and identifiers\<close>

text \<open>
  The metadata a provider registers starts with its own length, followed by the name,
  a NUL and, when the provider is in a group, a trait of 19 bytes from which the group is
  read back; for names that leave the length within 16 bits.
\<close>

theorem etw_provider_metadata_layout:
  assumes "guid_ok g" and "length name + 22 < 65536"
  shows "\<exists>trait. provider_metadata name g =
      le_enc 2 (of_nat (length (provider_metadata name g)) :: u16) @ name @ [0] @ trait \<and>
    unat (le_dec (take 2 (provider_metadata name g)) :: u16) = length (provider_metadata name g) \<and>
    (if g = zero_guid then trait = []
     else length trait = 19 \<and> take 3 trait = [19, 0, 1] \<and> FromWindowsArray (drop 3 trait) = g)"
proof -
  have len: "length (ToWindowsArray g) = 16"
    using guid_le.length_enc [OF assms(1)] by (simp add: ToWindowsArray_def)
  have inv: "FromWindowsArray (ToWindowsArray g) = g"
    using guid_le.dec_enc [OF assms(1)] by (simp add: FromWindowsArray_def ToWindowsArray_def)
  have "le_enc 2 (19 :: u16) = [19, 0]" unfolding numeral_2_eq_2 by simp
  moreover have "length (le_enc 2 (0 :: u16) @ [1] @ ToWindowsArray g) = 19" by (simp add: len)
  ultimately have tr: "group_trait g = (if g = zero_guid then [] else [19, 0, 1] @ ToWindowsArray g)"
    unfolding group_trait_def put_length_def by simp
  have l: "length (provider_metadata name g) = 3 + length name + (if g = zero_guid then 0 else 19)"
    by (simp add: provider_metadata_def put_length_def tr len)
  then have "unat (of_nat (length (provider_metadata name g)) :: u16) = length (provider_metadata name g)"
    using assms(2) by (simp only: unat_of_nat_eq_iff) (simp split: if_splits)
  moreover have eq: "provider_metadata name g =
      le_enc 2 (of_nat (length (provider_metadata name g)) :: u16) @ name @ [0] @ group_trait g"
    unfolding l by (simp add: provider_metadata_def put_length_def tr len)
  then have "take 2 (provider_metadata name g) = le_enc 2 (of_nat (length (provider_metadata name g)) :: u16)"
    by (metis length_le_enc take_append_eq)
  ultimately show ?thesis using eq by (intro exI [of _ "group_trait g"]) (simp add: tr len inv, simp add: group_trait_def)
qed

theorem etw_provider_metadata_layout_witness:
  "\<exists>trait. provider_metadata [97] etw_namespace =
      le_enc 2 (of_nat (length (provider_metadata [97] etw_namespace)) :: u16) @ [97] @ [0] @ trait \<and>
    FromWindowsArray (drop 3 trait) = etw_namespace"
proof -
  have "guid_ok etw_namespace" by (simp add: guid_ok_def etw_namespace_def)
  with etw_provider_metadata_layout [of etw_namespace "[97]"] etw_namespace_nonzero show ?thesis by fastforce
qed

lemma version_nibble: "(ucast (drop_bit 12 (le_dec [x, (y AND 0xf) OR 0x50] AND 0xF000 :: u16)) :: byte) = 5"
proof -
  have "drop_bit 12 (w AND 0xF000) = drop_bit 12 w AND 15" for w :: u16
    by (simp add: drop_bit_and)
  moreover have "drop_bit 12 (le_dec [x, b] :: u16) = ucast (drop_bit 4 b)" for b
    by (rule bit_word_eqI) (auto simp: bit_simps dest: bit_imp_le_length)
  moreover have "drop_bit 4 ((y AND 0xf) OR 0x50) = 5"
    by (simp add: drop_bit_or drop_bit_and)
  ultimately show ?thesis by simp
qed

text \<open>
  The provider ID derived from a name has version 5, for every hash of at least 16
  bytes; apart from the version bits of byte 7 its Windows encoding is the beginning of
  the hash.
\<close>

theorem etw_provider_id_version:
  assumes "\<And>x. 16 \<le> length (sha1 x)"
  shows "\<exists>g h. providerIDFromName sha1 ToUpper name = Ok g \<and> guid_ok g \<and> GUID_Version g = 5 \<and>
    ToWindowsArray g = (take 16 h)[7 := (h ! 7 AND 0xf) OR 0x50] \<and>
    h = sha1 (ToArray etw_namespace @ enc_list (be_enc 2) (utf16_Encode (runes (ToUpper name))))"
proof -
  define h where "h = sha1 (ToArray etw_namespace @ enc_list (be_enc 2) (utf16_Encode (runes (ToUpper name))))"
  let ?b = "(h ! 7 AND 0xf) OR 0x50"
  let ?a = "(take 16 h)[7 := ?b]"
  have len: "16 \<le> length h" by (simp add: h_def assms)
  then have ok: "providerIDFromName sha1 ToUpper name = Ok (FromWindowsArray ?a)"
    by (simp add: providerIDFromName_def h_def [symmetric] copy_into_def take_update_swap Let_def)
  have a: "length ?a = 16" using len by simp
  have "take 2 (drop 6 ?a) = [?a ! 6, ?b]"
    using len by (simp add: take_Suc_conv_app_nth numeral_2_eq_2)
  then have "Data3 (FromWindowsArray ?a) = le_dec [?a ! 6, ?b]"
    by (simp add: FromWindowsArray_def fromArray_def)
  moreover have "(ucast (drop_bit 12 (le_dec [x, (y AND 0xf) OR 0x50] AND 0xF000 :: u16)) :: byte) = 5" for x y :: byte
    by (rule version_nibble)
  ultimately have "GUID_Version (FromWindowsArray ?a) = 5" by (simp add: GUID_Version_def)
  moreover have "guid_ok (FromWindowsArray ?a)" "ToWindowsArray (FromWindowsArray ?a) = ?a"
    using guid_le.valid_dec [OF a] guid_le.enc_dec [OF a] by (simp_all add: FromWindowsArray_def ToWindowsArray_def)
  ultimately show ?thesis using ok h_def by blast
qed

theorem etw_provider_id_version_witness:
  "\<exists>g. providerIDFromName (\<lambda>x. replicate 20 (of_nat (length x))) id [97] = Ok g \<and> GUID_Version g = 5"
  using etw_provider_id_version [of "\<lambda>x. replicate 20 (of_nat (length x))" id "[97]"] by auto

section \<open>Callbacks without a provider\<close>

text \<open>
  When the last system call of \<^verbatim>\<open>NewProviderWithOptions\<close> fails, the function has
  removed the provider from the map but not unregistered it: any later notification for the
  registered context panics. The same holds between the two steps of \<^verbatim>\<open>Close\<close>, which
  removes the provider from the map before it unregisters.
\<close>

theorem etw_stale_registration_panics:
  assumes "gid \<noteq> zero_guid"
  shows "\<exists>ctx p'. NewProviderWithOptions sha1 ToUpper (\<lambda>log g c. (None, h, log @ [c])) (\<lambda>log hd b. (Some e, log))
      ([], p) name [WithID gid] = (Err e, [ctx], p') \<and>
    panics (providerCallback p' st lvl any all ctx) \<and>
    panics (providerCallback (removeProvider p a) st lvl any all (index (heap p a)))"
  using assms
  by (simp add: NewProviderWithOptions_def WithID_def newProvider_def Let_def upd_provider_def
      removeProvider_def providerCallback_def getProvider_def)

theorem etw_stale_registration_panics_witness:
  "\<exists>ctx p'. NewProviderWithOptions (\<lambda>_. []) id (\<lambda>log g c. (None, 7, log @ [c])) (\<lambda>log hd b. (Some EOF, log))
      ([], providers_init (\<lambda>_. sample_provider)) [97] [WithID etw_namespace] = (Err EOF, [ctx], p') \<and>
    panics (providerCallback p' ProviderStateEnable 5 0 0 ctx)"
  using etw_stale_registration_panics [OF etw_namespace_nonzero] by blast

end
