(* ===== verification/File.thy ===== *)
theory File
  imports Go_Prelude
begin

text \<open>
  Asynchronous I/O on a Win32 handle (\<^verbatim>\<open>src/file.go\<close>): the translation of the results of
  an operation, the life of a \<^verbatim>\<open>win32File\<close> used by any number of goroutines
  (\<^verbatim>\<open>prepareIO\<close>, \<^verbatim>\<open>asyncIO\<close>, \<^verbatim>\<open>Read\<close>, \<^verbatim>\<open>Write\<close>,
  \<^verbatim>\<open>closeHandle\<close>) as a step relation, and the \<^verbatim>\<open>deadlineHandler\<close> with its timer
  as another. The regions under \<^verbatim>\<open>wgLock\<close> are atomic steps.
\<close>

section \<open>Results of an operation\<close>

definition ErrFileClosed :: go_error where "ErrFileClosed = ErrNew ''file has already been closed''"
definition ErrTimeout :: go_error where "ErrTimeout = ErrNew ''i/o timeout''"
definition ERROR_IO_PENDING :: go_error where "ERROR_IO_PENDING = Errno 997"
definition ERROR_OPERATION_ABORTED :: go_error where "ERROR_OPERATION_ABORTED = Errno 995"
definition ERROR_BROKEN_PIPE :: go_error where "ERROR_BROKEN_PIPE = Errno 109"

type_synonym io_result = "nat \<times> go_error option"

text \<open>
  The error after a completion: an abort of a closing file, or on a socket the error of
  \<^verbatim>\<open>wsaGetOverlappedResult\<close> (\<open>wsa\<close>); after a timeout, an abort is the timeout.
\<close>

definition io_completed :: "bool \<Rightarrow> bool \<Rightarrow> go_error option \<Rightarrow> go_error option \<Rightarrow> go_error option" where
  "io_completed closing socket err wsa =
     (if err = Some ERROR_OPERATION_ABORTED then (if closing then Some ErrFileClosed else err)
      else if err \<noteq> None \<and> socket then wsa
      else err)"

definition io_timed_out :: "go_error option \<Rightarrow> go_error option" where
  "io_timed_out err = (if err = Some ERROR_OPERATION_ABORTED then Some ErrTimeout else err)"

datatype io_op = OpRead nat | OpWrite nat

text \<open>What \<^verbatim>\<open>Read\<close> makes of the result for a buffer of \<open>len\<close> bytes, and \<^verbatim>\<open>Write\<close>.\<close>

fun op_result :: "io_op \<Rightarrow> io_result \<Rightarrow> io_result" where
  "op_result (OpRead len) (n, err) =
     (if err = None \<and> n = 0 \<and> len \<noteq> 0 then (0, Some EOF)
      else if err = Some ERROR_BROKEN_PIPE then (0, Some EOF)
      else (n, err))"
| "op_result (OpWrite len) (n, err) = (n, err)"

section \<open>A file and its goroutines\<close>

text \<open>
  Where a goroutine is. \<open>Prep\<close>: \<^verbatim>\<open>prepareIO\<close> has succeeded; \<open>Issued\<close>: the system call
  returned \<^verbatim>\<open>ERROR_IO_PENDING\<close>; \<open>Selecting\<close>: in the \<^verbatim>\<open>select\<close>; \<open>TimedWait\<close>:
  after the timeout, waiting for the cancelled operation; \<open>Ret\<close>: about to run the deferred
  \<^verbatim>\<open>wg.Done\<close>. The flag tells that the pending operation has been cancelled.
  \<open>CCancel\<close>, \<open>CWait\<close> and \<open>CFinal\<close> are the stages of \<^verbatim>\<open>closeHandle\<close>.
\<close>

datatype pc =
    Idle
  | Prep io_op
  | Issued io_op bool
  | Selecting io_op bool
  | TimedWait io_op
  | Ret io_result
  | Finished io_result
  | CCancel
  | CWait
  | CFinal

record win32File =
  handle :: nat
  wg :: nat
  closing :: bool
  socket :: bool
  readTimedout :: bool
  writeTimedout :: bool
  pcs :: "nat \<Rightarrow> pc"
  closes :: nat
  misused :: bool

text \<open>
  \<open>closes\<close> counts the calls of \<^verbatim>\<open>windows.Close\<close> and \<open>misused\<close> records that some system
  call got a handle after it was closed; the program does not have them.
\<close>

definition new_win32File :: "nat \<Rightarrow> win32File" where
  "new_win32File h = \<lparr>handle = h, wg = 0, closing = False, socket = False, readTimedout = False,
     writeTimedout = False, pcs = (\<lambda>_. Idle), closes = 0, misused = False\<rparr>"

definition goto :: "win32File \<Rightarrow> nat \<Rightarrow> pc \<Rightarrow> win32File" where
  "goto f t p = f\<lparr>pcs := (pcs f)(t := p)\<rparr>"

definition use_handle :: "win32File \<Rightarrow> win32File" where
  "use_handle f = f\<lparr>misused := (misused f \<or> handle f = 0)\<rparr>"

definition cancel_pc :: "pc \<Rightarrow> pc" where
  "cancel_pc p = (case p of Issued o1 _ \<Rightarrow> Issued o1 True | Selecting o1 _ \<Rightarrow> Selecting o1 True | _ \<Rightarrow> p)"

fun timedout :: "win32File \<Rightarrow> io_op \<Rightarrow> bool" where
  "timedout f (OpRead _) = readTimedout f"
| "timedout f (OpWrite _) = writeTimedout f"

text \<open>
  One step of one goroutine, or of the environment. The label is \<open>True\<close> for the steps that
  are bound to happen: those of the program itself, and the completion of a cancelled
  operation. It is \<open>False\<close> for new calls, data that arrives and deadlines.
\<close>

inductive file_step :: "bool \<Rightarrow> win32File \<Rightarrow> win32File \<Rightarrow> bool" where
  prepare: "pcs f t = Idle \<Longrightarrow> \<not> closing f \<Longrightarrow>
    file_step False f (goto (f\<lparr>wg := wg f + 1\<rparr>) t (Prep o1))"
| prepare_closed: "pcs f t = Idle \<Longrightarrow> closing f \<Longrightarrow>
    file_step False f (goto f t (Finished (0, Some ErrFileClosed)))"
| timed_out: "pcs f t = Prep o1 \<Longrightarrow> timedout f o1 \<Longrightarrow>
    file_step True f (goto f t (Ret (0, Some ErrTimeout)))"
| issue_sync: "pcs f t = Prep o1 \<Longrightarrow> \<not> timedout f o1 \<Longrightarrow> err \<noteq> Some ERROR_IO_PENDING \<Longrightarrow>
    file_step True f (goto (use_handle f) t (Ret (op_result o1 (n, err))))"
| issue_pending: "pcs f t = Prep o1 \<Longrightarrow> \<not> timedout f o1 \<Longrightarrow>
    file_step True f (goto (use_handle f) t (Issued o1 False))"
| cancel_closing: "pcs f t = Issued o1 c \<Longrightarrow> closing f \<Longrightarrow>
    file_step True f (goto (use_handle f) t (Selecting o1 True))"
| not_closing: "pcs f t = Issued o1 c \<Longrightarrow> \<not> closing f \<Longrightarrow>
    file_step True f (goto f t (Selecting o1 c))"
| complete: "pcs f t = Selecting o1 c \<Longrightarrow>
    file_step c f
      (goto (if err \<noteq> None \<and> err \<noteq> Some ERROR_OPERATION_ABORTED \<and> socket f then use_handle f else f) t
        (Ret (op_result o1 (n, io_completed (closing f) (socket f) err wsa))))"
| timeout: "pcs f t = Selecting o1 c \<Longrightarrow>
    file_step False f (goto (use_handle f) t (TimedWait o1))"
| complete_timed_out: "pcs f t = TimedWait o1 \<Longrightarrow>
    file_step True f (goto f t (Ret (op_result o1 (n, io_timed_out err))))"
| wg_done: "pcs f t = Ret r \<Longrightarrow>
    file_step True f (goto (f\<lparr>wg := wg f - 1\<rparr>) t (Finished r))"
| call_again: "pcs f t = Finished r \<Longrightarrow> file_step False f (goto f t Idle)"
| close_first: "pcs f t = Idle \<Longrightarrow> \<not> closing f \<Longrightarrow>
    file_step False f (goto (f\<lparr>closing := True\<rparr>) t CCancel)"
| close_again: "pcs f t = Idle \<Longrightarrow> closing f \<Longrightarrow>
    file_step False f (goto f t (Finished (0, None)))"
| close_cancel: "pcs f t = CCancel \<Longrightarrow>
    file_step True f (goto ((use_handle f)\<lparr>pcs := \<lambda>u. cancel_pc (pcs f u)\<rparr>) t CWait)"
| close_wait: "pcs f t = CWait \<Longrightarrow> wg f = 0 \<Longrightarrow> file_step True f (goto f t CFinal)"
| close_final: "pcs f t = CFinal \<Longrightarrow>
    file_step True f (goto ((use_handle f)\<lparr>closes := closes f + 1, handle := 0\<rparr>) t (Finished (0, None)))"
| deadline: "file_step False f (f\<lparr>readTimedout := a, writeTimedout := b\<rparr>)"

inductive_cases file_stepE: "file_step c f f'"

inductive file_reach :: "nat \<Rightarrow> win32File \<Rightarrow> bool" for h :: nat where
  file_init: "file_reach h ((new_win32File h)\<lparr>socket := s\<rparr>)"
| file_next: "file_reach h f \<Longrightarrow> file_step c f f' \<Longrightarrow> file_reach h f'"

section \<open>Invariant\<close>

fun inflight :: "pc \<Rightarrow> bool" where
  "inflight (Prep _) = True" | "inflight (Issued _ _) = True" | "inflight (Selecting _ _) = True"
| "inflight (TimedWait _) = True" | "inflight (Ret _) = True" | "inflight _ = False"

fun closer :: "pc \<Rightarrow> bool" where
  "closer CCancel = True" | "closer CWait = True" | "closer CFinal = True" | "closer _ = False"

definition busy :: "win32File \<Rightarrow> nat set" where
  "busy f = {t. inflight (pcs f t)}"

text \<open>The wait group counts the goroutines with an operation in flight.\<close>

definition wg_inv :: "win32File \<Rightarrow> bool" where
  "wg_inv f \<longleftrightarrow> finite (busy f) \<and> wg f = card (busy f)"

text \<open>
  One goroutine at most is closing the file, and exactly one while it is marked as closing
  and the handle is still open; it passes the wait only when nothing is in flight.
\<close>

definition closer_inv :: "win32File \<Rightarrow> bool" where
  "closer_inv f \<longleftrightarrow>
     (\<forall>t u. closer (pcs f t) \<longrightarrow> closer (pcs f u) \<longrightarrow> t = u) \<and>
     (\<forall>t. closer (pcs f t) \<longrightarrow> closing f \<and> handle f \<noteq> 0) \<and>
     (\<forall>t. pcs f t = CFinal \<longrightarrow> wg f = 0) \<and>
     (closing f \<longrightarrow> handle f \<noteq> 0 \<longrightarrow> (\<exists>t. closer (pcs f t)))"

definition handle_inv :: "nat \<Rightarrow> win32File \<Rightarrow> bool" where
  "handle_inv h f \<longleftrightarrow>
     \<not> misused f \<and>
     (handle f = h \<and> closes f = 0 \<or> handle f = 0 \<and> closes f = 1 \<and> closing f \<and> wg f = 0)"

text \<open>Once the closing goroutine waits, every operation in the \<^verbatim>\<open>select\<close> is cancelled.\<close>

definition cancel_inv :: "win32File \<Rightarrow> bool" where
  "cancel_inv f \<longleftrightarrow> (\<forall>u t o1. pcs f u = CWait \<or> pcs f u = CFinal \<longrightarrow> pcs f t \<noteq> Selecting o1 False)"

definition file_inv :: "nat \<Rightarrow> win32File \<Rightarrow> bool" where
  "file_inv h f \<longleftrightarrow> wg_inv f \<and> closer_inv f \<and> handle_inv h f \<and> cancel_inv f"

lemma goto_simps [simp]:
  "handle (goto f t p) = handle f" "wg (goto f t p) = wg f" "closing (goto f t p) = closing f"
  "socket (goto f t p) = socket f" "closes (goto f t p) = closes f" "misused (goto f t p) = misused f"
  "pcs (goto f t p) = (pcs f)(t := p)" "readTimedout (goto f t p) = readTimedout f"
  "writeTimedout (goto f t p) = writeTimedout f"
  by (simp_all add: goto_def)

lemma use_handle_simps [simp]:
  "handle (use_handle f) = handle f" "wg (use_handle f) = wg f" "closing (use_handle f) = closing f"
  "socket (use_handle f) = socket f" "closes (use_handle f) = closes f" "pcs (use_handle f) = pcs f"
  "misused (use_handle f) \<longleftrightarrow> misused f \<or> handle f = 0"
  by (simp_all add: use_handle_def)

lemma busy_goto: "busy (goto f t p) = (if inflight p then insert t (busy f) else busy f - {t})"
  by (auto simp: busy_def)

lemma busy_cong: "pcs f = pcs g \<Longrightarrow> busy f = busy g"
  by (simp add: busy_def)

lemma inflight_cancel [simp]: "inflight (cancel_pc p) = inflight p"
  and closer_cancel [simp]: "closer (cancel_pc p) = closer p"
  and cancel_pc_CFinal [simp]: "cancel_pc p = CFinal \<longleftrightarrow> p = CFinal"
  and cancel_pc_Selecting [simp]: "cancel_pc p \<noteq> Selecting o1 False"
  by (cases p; simp add: cancel_pc_def)+

lemma cancel_pc_Idle: "cancel_pc p = Idle \<longleftrightarrow> p = Idle" "cancel_pc Idle = Idle"
  by (cases p; simp add: cancel_pc_def)+

lemma busy_pos: "wg_inv f \<Longrightarrow> inflight (pcs f t) \<Longrightarrow> t \<in> busy f \<and> 0 < wg f"
  by (auto simp: wg_inv_def busy_def card_gt_0_iff)

lemma wg_keep:
  "wg_inv f \<Longrightarrow> pcs g = pcs f \<Longrightarrow> wg g = wg f \<Longrightarrow> inflight p = inflight (pcs f t) \<Longrightarrow> wg_inv (goto g t p)"
proof -
  assume "wg_inv f" "pcs g = pcs f" "wg g = wg f" "inflight p = inflight (pcs f t)"
  moreover from this have "busy (goto g t p) = busy f" by (auto simp: busy_def)
  ultimately show ?thesis by (simp add: wg_inv_def)
qed

lemma wg_step: "file_step c f f' \<Longrightarrow> wg_inv f \<Longrightarrow> wg_inv f'"
proof (induction rule: file_step.induct)
  case (prepare f t o1)
  then have "t \<notin> busy f" by (simp add: busy_def)
  with prepare show ?case by (simp add: wg_inv_def busy_goto busy_cong [of "f\<lparr>wg := _\<rparr>" f])
next
  case (wg_done f t r)
  then have "t \<in> busy f" by (simp add: busy_def)
  with wg_done show ?case by (simp add: wg_inv_def busy_goto busy_cong [of "f\<lparr>wg := _\<rparr>" f])
next
  case (close_cancel f t)
  then have "t \<notin> busy f" by (simp add: busy_def)
  moreover have "busy ((use_handle f)\<lparr>pcs := \<lambda>u. cancel_pc (pcs f u)\<rparr>) = busy f" by (simp add: busy_def)
  ultimately show ?case using close_cancel by (simp add: wg_inv_def busy_goto)
next
  case (deadline f a b)
  then show ?case by (simp add: wg_inv_def busy_def)
qed (erule wg_keep; simp)+

lemma closer_invD:
  assumes "closer_inv f" and "closer (pcs f t)"
  shows "closing f" and "handle f \<noteq> 0" and "u \<noteq> t \<Longrightarrow> \<not> closer (pcs f u)"
    and "u \<noteq> t \<Longrightarrow> pcs f u \<noteq> CCancel \<and> pcs f u \<noteq> CWait \<and> pcs f u \<noteq> CFinal"
proof -
  show *: "closing f" "handle f \<noteq> 0" "u \<noteq> t \<Longrightarrow> \<not> closer (pcs f u)"
    using assms unfolding closer_inv_def by blast+
  show "u \<noteq> t \<Longrightarrow> pcs f u \<noteq> CCancel \<and> pcs f u \<noteq> CWait \<and> pcs f u \<noteq> CFinal"
    using *(3) by (cases "pcs f u") auto
qed

lemma closer_invI:
  assumes "\<And>u. closer (pcs f u) \<Longrightarrow> u = t \<and> closing f \<and> handle f \<noteq> 0"
    and "\<And>u. pcs f u = CFinal \<Longrightarrow> wg f = 0" and "closing f \<Longrightarrow> handle f \<noteq> 0 \<Longrightarrow> closer (pcs f t)"
  shows "closer_inv f"
  using assms unfolding closer_inv_def by blast

text \<open>A step of a goroutine that is not closing the file, without closing it.\<close>

lemma closer_keep:
  assumes "closer_inv f" and "pcs g = pcs f" and "closing g = closing f" and "handle g = handle f"
    and "\<And>u. pcs f u = CFinal \<Longrightarrow> wg g = 0" and "\<not> closer (pcs f t)" and "\<not> closer p"
  shows "closer_inv (goto g t p)"
proof (cases "\<exists>v. closer (pcs f v)")
  case True
  then obtain v where v: "closer (pcs f v)" by blast
  with assms(6) have vt: "v \<noteq> t" by auto
  show ?thesis
  proof (rule closer_invI [of _ v])
    fix u
    assume "closer (pcs (goto g t p) u)"
    then show "u = v \<and> closing (goto g t p) \<and> handle (goto g t p) \<noteq> 0"
      using closer_invD [OF assms(1) v] assms(2,3,4,7) by (auto split: if_splits)
  qed (use assms v vt in \<open>auto split: if_splits\<close>)
next
  case False
  then have "\<not> (closing f \<and> handle f \<noteq> 0)" using assms(1) unfolding closer_inv_def by blast
  then show ?thesis using False assms by (intro closer_invI [of _ t]) (auto split: if_splits)
qed

lemma closer_advance:
  assumes "closer_inv f" and "closer (pcs f t)" and "\<And>u. closer (pcs g u) = closer (pcs f u)"
    and "closing g" and "handle g \<noteq> 0" and "p = CFinal \<Longrightarrow> wg g = 0" and "closer p"
  shows "closer_inv (goto g t p)"
proof (rule closer_invI [of _ t])
  fix u
  assume u: "closer (pcs (goto g t p) u)"
  then show "u = t \<and> closing (goto g t p) \<and> handle (goto g t p) \<noteq> 0"
    using closer_invD(3) [OF assms(1,2), of u] assms(3,4,5) by (auto split: if_splits)
next
  fix u
  assume u: "pcs (goto g t p) u = CFinal"
  then have "u = t" using closer_invD(3) [OF assms(1,2), of u] assms(3) [of u] by (auto split: if_splits)
  with u assms(6) show "wg (goto g t p) = 0" by simp
qed (use assms in simp)

lemma closer_step:
  assumes "file_step c f f'" and w: "wg_inv f" and cl: "closer_inv f" and hi: "handle_inv h f" and "h \<noteq> 0"
  shows "closer_inv f'"
proof -
  have fin: "wg f = 0" if "pcs f u = CFinal" for u using cl that unfolding closer_inv_def by blast
  show ?thesis
    using assms(1)
  proof (cases rule: file_step.cases)
    case (prepare t o1)
    then have "pcs f u \<noteq> CFinal" for u
      using closer_invD(1) [OF cl, of u] by auto
    with prepare show ?thesis by (auto intro!: closer_keep [OF cl])
  next
    case (close_first t)
    then have "\<not> closer (pcs f u)" for u using closer_invD(1) [OF cl, of u] by auto
    moreover from this have "pcs f u \<noteq> CFinal" for u by (metis closer.simps(3))
    ultimately show ?thesis using close_first hi \<open>h \<noteq> 0\<close>
      by (auto simp: handle_inv_def intro!: closer_invI [of _ t] split: if_splits)
  next
    case (close_cancel t)
    then show ?thesis using closer_invD [OF cl, of t] by (auto intro!: closer_advance [OF cl])
  next
    case (close_wait t)
    then show ?thesis using closer_invD [OF cl, of t] by (auto intro!: closer_advance [OF cl])
  next
    case (close_final t)
    then have "\<not> closer (pcs f u)" if "u \<noteq> t" for u using closer_invD(3) [OF cl, of t u] that by auto
    moreover from this have "pcs f u \<noteq> CFinal" if "u \<noteq> t" for u using that by (metis closer.simps(3))
    ultimately show ?thesis using close_final
      by (auto intro!: closer_invI [of _ t] split: if_splits)
  next
    case (deadline a b)
    then show ?thesis using cl by (simp add: closer_inv_def)
  qed (auto intro!: closer_keep [OF cl] dest: fin)
qed

lemma handle_step:
  assumes "file_step c f f'" and "wg_inv f" and "closer_inv f" and "handle_inv h f" and "h \<noteq> 0"
  shows "handle_inv h f'"
proof -
  have open_io: "handle f \<noteq> 0" if "inflight (pcs f t)" for t
    using busy_pos [OF assms(2) that] assms(4,5) by (auto simp: handle_inv_def)
  then have open_pc: "\<And>t o1. pcs f t = Prep o1 \<Longrightarrow> 0 < handle f" "\<And>t o1 b. pcs f t = Issued o1 b \<Longrightarrow> 0 < handle f"
      "\<And>t o1 b. pcs f t = Selecting o1 b \<Longrightarrow> 0 < handle f" "\<And>t r. pcs f t = Ret r \<Longrightarrow> 0 < handle f"
    by (metis inflight.simps neq0_conv)+
  note open_cl = closer_invD(1,2) [OF assms(3)]
  have fin: "wg f = 0" if "pcs f u = CFinal" for u using assms(3) that unfolding closer_inv_def by blast
  show ?thesis
    using assms(1)
  proof (cases rule: file_step.cases)
    case (close_final t)
    then show ?thesis using open_cl [of t] fin [of t] assms(4) by (auto simp: handle_inv_def)
  next
    case (close_cancel t)
    then show ?thesis using open_cl [of t] assms(4) by (auto simp: handle_inv_def)
  next
    case (close_first t)
    then show ?thesis using assms(4) by (auto simp: handle_inv_def)
  next
    case (prepare t o1)
    then show ?thesis using assms(4) by (auto simp: handle_inv_def)
  next
    case (complete t o1 err n wsa)
    then show ?thesis using open_io [of t] assms(4) by (auto simp: handle_inv_def)
  qed (use assms(4) in \<open>auto simp: handle_inv_def dest: open_pc\<close>)
qed

lemma cancel_step:
  assumes "file_step c f f'" and "cancel_inv f" and "closer_inv f"
  shows "cancel_inv f'"
proof -
  have cl: "closing f" if "pcs f u = CWait \<or> pcs f u = CFinal" for u
    using closer_invD(1) [OF assms(3), of u] that by auto
  show ?thesis
    using assms(1)
  proof (cases rule: file_step.cases)
    case (not_closing t o1 b)
    then show ?thesis using assms(2) cl by (auto simp: cancel_inv_def)
  next
    case (close_cancel t)
    then show ?thesis by (auto simp: cancel_inv_def)
  qed (use assms(2) in \<open>auto simp: cancel_inv_def\<close>)
qed

lemma file_reach_inv: "file_reach h f \<Longrightarrow> h \<noteq> 0 \<Longrightarrow> file_inv h f"
proof (induction rule: file_reach.induct)
  case (file_init s)
  then show ?case
    by (simp add: file_inv_def new_win32File_def wg_inv_def busy_def closer_inv_def handle_inv_def cancel_inv_def)
next
  case (file_next f c f')
  then show ?case
    unfolding file_inv_def using wg_step closer_step handle_step cancel_step by blast
qed

section \<open>Closing\<close>


text \<open>Two goroutines; one has a read in flight while the other closes the file.\<close>

definition sample_file :: win32File where
  "sample_file = goto (goto (new_win32File 5) 0 (Prep (OpRead 8))\<lparr>wg := 1\<rparr>\<lparr>closing := True\<rparr>) 1 CCancel"

lemma sample_file_reach: "file_reach 5 sample_file"
proof -
  let ?f0 = "new_win32File 5\<lparr>socket := False\<rparr>"
  let ?f1 = "goto (?f0\<lparr>wg := wg ?f0 + 1\<rparr>) 0 (Prep (OpRead 8))"
  let ?f2 = "goto (?f1\<lparr>closing := True\<rparr>) 1 CCancel"
  have "file_step False ?f0 ?f1" by (rule prepare) (simp_all add: new_win32File_def)
  moreover have "file_step False ?f1 ?f2" by (rule close_first) (simp_all add: new_win32File_def)
  ultimately have "file_reach 5 ?f2" using file_init file_next by blast
  then show ?thesis by (simp add: sample_file_def goto_def new_win32File_def)
qed




text \<open>How many bound steps a goroutine can take before it is done.\<close>

fun rank :: "pc \<Rightarrow> nat" where
  "rank (Prep _) = 5" | "rank (Issued _ _) = 4" | "rank (Selecting _ _) = 3" | "rank (TimedWait _) = 2"
| "rank (Ret _) = 1" | "rank CCancel = 3" | "rank CWait = 2" | "rank CFinal = 1" | "rank _ = 0"

definition active :: "win32File \<Rightarrow> nat set" where
  "active f = {t. 0 < rank (pcs f t)}"

definition work :: "win32File \<Rightarrow> nat" where
  "work f = (\<Sum>t \<in> active f. rank (pcs f t))"

lemma rank_cancel [simp]: "rank (cancel_pc p) = rank p"
  by (cases p) (simp_all add: cancel_pc_def)

lemma rank_pos: "0 < rank p \<longleftrightarrow> inflight p \<or> closer p"
  by (cases p) simp_all

lemma active_finite: "file_inv h f \<Longrightarrow> finite (active f)"
proof -
  assume inv: "file_inv h f"
  have "finite {t. closer (pcs f t)}"
  proof (cases "\<exists>t. closer (pcs f t)")
    case True
    then obtain t where "closer (pcs f t)" by blast
    then have "{u. closer (pcs f u)} \<subseteq> {t}"
      using inv closer_invD(3) [of f t] by (auto simp: file_inv_def)
    then show ?thesis by (rule finite_subset) simp
  qed simp
  moreover have "active f = busy f \<union> {t. closer (pcs f t)}" by (auto simp: active_def busy_def rank_pos)
  ultimately show ?thesis using inv by (simp add: file_inv_def wg_inv_def)
qed

lemma work_decreases:
  assumes "finite (active f)" and "\<And>u. u \<noteq> t \<Longrightarrow> rank (pcs f' u) = rank (pcs f u)"
    and "rank (pcs f' t) < rank (pcs f t)"
  shows "work f' < work f"
proof -
  have le: "rank (pcs f' u) \<le> rank (pcs f u)" for u
    using assms(2,3) by (cases "u = t") simp_all
  then have sub: "active f' \<subseteq> active f"
    unfolding active_def using less_le_trans by blast
  have "work f' = (\<Sum>u \<in> active f. rank (pcs f' u))"
    unfolding work_def using assms(1) sub by (rule sum.mono_neutral_left) (auto simp: active_def)
  also have "\<dots> < work f"
    unfolding work_def
  proof (rule sum_strict_mono_ex1 [OF assms(1)])
    show "\<forall>u\<in>active f. rank (pcs f' u) \<le> rank (pcs f u)"
      using le by blast
    show "\<exists>u\<in>active f. rank (pcs f' u) < rank (pcs f u)"
      using assms(3) unfolding active_def by (intro bexI [of _ t]) auto
  qed
  finally show ?thesis .
qed

lemma forced_step_work:
  assumes "file_step True f f'" and "finite (active f)"
  shows "work f' < work f"
  using assms(1)
  by (cases rule: file_step.cases)
    (auto intro!: work_decreases [OF assms(2)] split: if_splits)

text \<open>While the file is closing, some bound step is always possible until the handle is closed.\<close>

lemma forced_step_exists:
  assumes "file_inv h f" and "closing f" and "handle f \<noteq> 0"
  shows "\<exists>f'. file_step True f f'"
proof -
  have w: "wg_inv f" and c: "closer_inv f" and k: "cancel_inv f" using assms(1) by (simp_all add: file_inv_def)
  from c assms(2,3) obtain t where "closer (pcs f t)" unfolding closer_inv_def by blast
  then consider "pcs f t = CCancel" | "pcs f t = CWait" | "pcs f t = CFinal" by (cases "pcs f t") auto
  then show ?thesis
  proof cases
    case 2
    show ?thesis
    proof (cases "wg f = 0")
      case False
      then obtain u where u: "inflight (pcs f u)"
        using w by (auto simp: wg_inv_def busy_def card_gt_0_iff)
      then show ?thesis
      proof (cases "pcs f u")
        case (Prep o1)
        then show ?thesis by (cases "timedout f o1") (blast intro: timed_out issue_pending)+
      next
        case (Selecting o1 b)
        then have "b" using k 2 unfolding cancel_inv_def by (metis (full_types))
        then show ?thesis using complete [of f u o1 True None] Selecting by simp blast
      qed (use assms(2) in \<open>auto intro: cancel_closing complete_timed_out wg_done\<close>)
    qed (use 2 close_wait in blast)
  qed (blast intro: close_cancel close_final)+
qed

lemma file_reach_forced: "(file_step True)\<^sup>*\<^sup>* f f' \<Longrightarrow> file_reach h f \<Longrightarrow> file_reach h f'"
  by (induction rule: rtranclp_induct) (auto intro: file_next)

lemma closing_forced: "(file_step True)\<^sup>*\<^sup>* f f' \<Longrightarrow> closing f \<Longrightarrow> closing f'"
proof (induction rule: rtranclp_induct)
  case (step y z)
  from step.hyps(2) step.IH [OF step.prems] show ?case by (cases rule: file_step.cases) auto
qed

text \<open>
  C8: \<^verbatim>\<open>Close\<close> completes: from any state in which the file is closing there is no infinite
  sequence of bound steps (steps of the program, and completions of cancelled operations),
  and whenever none is left to take the handle has been closed. In particular an operation
  that is issued after the closing goroutine has cancelled all others is cancelled as well.
\<close>

theorem file_close_completes:
  assumes "file_reach h f" and "h \<noteq> 0" and "closing f"
  shows "\<not> (\<exists>g. g 0 = f \<and> (\<forall>i. file_step True (g i) (g (Suc i)))) \<and>
    (\<forall>f'. (file_step True)\<^sup>*\<^sup>* f f' \<and> (\<nexists>f''. file_step True f' f'') \<longrightarrow> handle f' = 0 \<and> closes f' = 1)"
proof (intro conjI allI impI notI)
  assume "\<exists>g. g 0 = f \<and> (\<forall>i. file_step True (g i) (g (Suc i)))"
  then obtain g where g: "g 0 = f" "\<And>i. file_step True (g i) (g (Suc i))" by blast
  have "file_reach h (g i)" for i by (induction i) (use g assms(1) in \<open>auto intro: file_next\<close>)
  then have "work (g (Suc i)) < work (g i)" for i
    using forced_step_work [OF g(2)] active_finite [OF file_reach_inv [OF _ assms(2)]] by blast
  then have "work (g i) + i \<le> work (g 0)" for i
  proof (induction i)
    case (Suc i)
    then show ?case using Suc.prems [of i] by fastforce
  qed simp
  from this [of "Suc (work (g 0))"] show False by simp
next
  fix f'
  assume f': "(file_step True)\<^sup>*\<^sup>* f f' \<and> (\<nexists>f''. file_step True f' f'')"
  then have r: "file_reach h f'" and "closing f'"
    using file_reach_forced assms(1) closing_forced assms(3) by blast+
  moreover have inv: "file_inv h f'" by (rule file_reach_inv [OF r assms(2)])
  ultimately show "handle f' = 0" using forced_step_exists f' by blast
  then show "closes f' = 1" using inv assms(2) by (auto simp: file_inv_def handle_inv_def)
qed

theorem file_close_completes_witness:
  "\<not> (\<exists>g. g 0 = sample_file \<and> (\<forall>i. file_step True (g i) (g (Suc i))))"
proof -
  have "closing sample_file" by (simp add: sample_file_def)
  with file_close_completes [OF sample_file_reach] show ?thesis by simp
qed

end
