(* ===== verification/Deadline.thy ===== *)
theory Deadline
  imports Go_Prelude
begin

text \<open>
  The deadline of a file (\<^verbatim>\<open>deadlineHandler\<close> in \<^verbatim>\<open>src/file.go\<close>): \<^verbatim>\<open>set\<close> and
  the timer's function run concurrently, statement by statement, as a step relation.
  \<^verbatim>\<open>setLock\<close> makes the calls of \<^verbatim>\<open>set\<close> run one after the other.
\<close>

section \<open>State\<close>

text \<open>
  The timer: not running (never started, or stopped in time), armed, started (about to set
  \<^verbatim>\<open>timedout\<close>, then to close the channel), or finished.
\<close>

datatype timer_state = Off | Armed | Started | Flagged | Fired

datatype deadline = NoDeadline | InFuture | InPast

text \<open>
  Where the running call of \<^verbatim>\<open>set\<close> is: stopping the timer, receiving from the channel
  when it was too late to stop it, clearing the flag, replacing a closed channel, starting
  the new deadline, and \<^verbatim>\<open>timeoutIO\<close> of a deadline in the past in its two statements.
\<close>

datatype set_pc =
    NotSetting
  | Stopping deadline
  | Receiving deadline
  | Clearing deadline
  | Renewing deadline
  | Starting deadline
  | PastFlag
  | PastClose

record deadlineHandler =
  timer :: bool \<comment> \<open>\<^verbatim>\<open>d.timer\<close> is not nil\<close>
  tstate :: timer_state
  chan :: nat \<comment> \<open>which channel \<^verbatim>\<open>d.channel\<close> is\<close>
  chanClosed :: bool
  timedout :: bool
  spc :: set_pc
  doubleClose :: bool \<comment> \<open>a closed channel was closed again, which panics\<close>

definition new_deadlineHandler :: deadlineHandler where
  "new_deadlineHandler = \<lparr>timer = False, tstate = Off, chan = 0, chanClosed = False, timedout = False,
     spc = NotSetting, doubleClose = False\<rparr>"

definition close_chan :: "deadlineHandler \<Rightarrow> deadlineHandler" where
  "close_chan d = (if chanClosed d then d\<lparr>doubleClose := True\<rparr> else d\<lparr>chanClosed := True\<rparr>)"

section \<open>Steps\<close>

inductive dl_step :: "deadlineHandler \<Rightarrow> deadlineHandler \<Rightarrow> bool" where
  call_set: "spc d = NotSetting \<Longrightarrow> dl_step d (d\<lparr>spc := Stopping x\<rparr>)"
| no_timer: "spc d = Stopping x \<Longrightarrow> \<not> timer d \<Longrightarrow> dl_step d (d\<lparr>spc := Clearing x\<rparr>)"
| stop_in_time: "spc d = Stopping x \<Longrightarrow> timer d \<Longrightarrow> tstate d = Armed \<Longrightarrow>
    dl_step d (d\<lparr>timer := False, tstate := Off, spc := Clearing x\<rparr>)"
| stop_too_late: "spc d = Stopping x \<Longrightarrow> timer d \<Longrightarrow> tstate d \<noteq> Armed \<Longrightarrow> dl_step d (d\<lparr>spc := Receiving x\<rparr>)"
| receive: "spc d = Receiving x \<Longrightarrow> chanClosed d \<Longrightarrow> dl_step d (d\<lparr>timer := False, spc := Clearing x\<rparr>)"
| clear: "spc d = Clearing x \<Longrightarrow> dl_step d (d\<lparr>timedout := False, spc := Renewing x\<rparr>)"
| renew: "spc d = Renewing x \<Longrightarrow> chanClosed d \<Longrightarrow>
    dl_step d (d\<lparr>chan := chan d + 1, chanClosed := False, spc := Starting x\<rparr>)"
| keep_channel: "spc d = Renewing x \<Longrightarrow> \<not> chanClosed d \<Longrightarrow> dl_step d (d\<lparr>spc := Starting x\<rparr>)"
| start_none: "spc d = Starting NoDeadline \<Longrightarrow> dl_step d (d\<lparr>spc := NotSetting\<rparr>)"
| start_timer: "spc d = Starting InFuture \<Longrightarrow>
    dl_step d (d\<lparr>timer := True, tstate := Armed, spc := NotSetting\<rparr>)"
| start_past: "spc d = Starting InPast \<Longrightarrow> dl_step d (d\<lparr>spc := PastFlag\<rparr>)"
| past_flag: "spc d = PastFlag \<Longrightarrow> dl_step d (d\<lparr>timedout := True, spc := PastClose\<rparr>)"
| past_close: "spc d = PastClose \<Longrightarrow> dl_step d ((close_chan d)\<lparr>spc := NotSetting\<rparr>)"
| expire: "tstate d = Armed \<Longrightarrow> dl_step d (d\<lparr>tstate := Started\<rparr>)"
| timer_flag: "tstate d = Started \<Longrightarrow> dl_step d (d\<lparr>timedout := True, tstate := Flagged\<rparr>)"
| timer_close: "tstate d = Flagged \<Longrightarrow> dl_step d ((close_chan d)\<lparr>tstate := Fired\<rparr>)"

inductive dl_reach :: "deadlineHandler \<Rightarrow> bool" where
  dl_init: "dl_reach new_deadlineHandler"
| dl_next: "dl_reach d \<Longrightarrow> dl_step d d' \<Longrightarrow> dl_reach d'"

section \<open>Invariant\<close>

definition timer_running :: "deadlineHandler \<Rightarrow> bool" where
  "timer_running d \<longleftrightarrow> tstate d \<in> {Armed, Started, Flagged}"

text \<open>
  A running timer is the one \<^verbatim>\<open>d.timer\<close> points to, and the channel is open; it is closed
  once the timer has fired while \<^verbatim>\<open>set\<close> has not renewed it. Past the stopping phase no
  timer runs, so that the flag and the channel are only changed by \<^verbatim>\<open>set\<close>.
\<close>

definition dl_inv :: "deadlineHandler \<Rightarrow> bool" where
  "dl_inv d \<longleftrightarrow>
     \<not> doubleClose d \<and>
     (timer_running d \<longrightarrow> timer d \<and> \<not> chanClosed d) \<and>
     (timer d \<longrightarrow> tstate d \<noteq> Off) \<and>
     (case spc d of
        NotSetting \<Rightarrow> (timer d \<longrightarrow> timer_running d \<or> chanClosed d) \<and> (timedout d \<longleftrightarrow> chanClosed d \<or> tstate d = Flagged)
      | Stopping _ \<Rightarrow> (timer d \<longrightarrow> timer_running d \<or> chanClosed d) \<and> (timedout d \<longleftrightarrow> chanClosed d \<or> tstate d = Flagged)
      | Receiving _ \<Rightarrow> timer d \<and> (tstate d \<in> {Started, Flagged} \<or> chanClosed d)
      | Clearing _ \<Rightarrow> \<not> timer d
      | Renewing _ \<Rightarrow> \<not> timer d \<and> \<not> timedout d
      | Starting _ \<Rightarrow> \<not> timer d \<and> \<not> timedout d \<and> \<not> chanClosed d
      | PastFlag \<Rightarrow> \<not> timer d \<and> \<not> timedout d \<and> \<not> chanClosed d
      | PastClose \<Rightarrow> \<not> timer d \<and> timedout d \<and> \<not> chanClosed d)"

lemma dl_step_inv: "dl_step d d' \<Longrightarrow> dl_inv d \<Longrightarrow> dl_inv d'"
  by (induction rule: dl_step.induct)
    (auto simp: dl_inv_def timer_running_def close_chan_def split: set_pc.splits)

lemma dl_reach_inv: "dl_reach d \<Longrightarrow> dl_inv d"
proof (induction rule: dl_reach.induct)
  case dl_init
  show ?case by (simp add: new_deadlineHandler_def dl_inv_def timer_running_def)
next
  case (dl_next d d')
  then show ?case using dl_step_inv by blast
qed

text \<open>
  C10: However \<^verbatim>\<open>set\<close> and the timers interleave: the channel is never closed twice (which
  would panic); when no call of \<^verbatim>\<open>set\<close> is running and no timer function is half way, the
  flag that new operations check and the channel that pending ones watch agree; a call of
  \<^verbatim>\<open>set\<close> starts its deadline with no timer running, the flag clear and an open channel;
  and a call that waits for a timer it could not stop is never stuck: the channel is closed
  or the timer's function is about to close it.
\<close>

theorem deadline_handler_safe:
  assumes "dl_reach d"
  shows "\<not> doubleClose d \<and>
    (spc d = NotSetting \<and> tstate d \<noteq> Flagged \<longrightarrow> (timedout d \<longleftrightarrow> chanClosed d)) \<and>
    (\<forall>x. spc d = Starting x \<longrightarrow> \<not> timer_running d \<and> \<not> timedout d \<and> \<not> chanClosed d) \<and>
    (\<forall>x. spc d = Receiving x \<longrightarrow> chanClosed d \<or> tstate d = Started \<or> tstate d = Flagged)"
  using dl_reach_inv [OF assms] by (auto simp: dl_inv_def timer_running_def split: set_pc.splits)

text \<open>A deadline in the future that expires while \<^verbatim>\<open>set\<close> is called again.\<close>

lemma sample_deadline_reach:
  "dl_reach \<lparr>timer = True, tstate = Flagged, chan = 0, chanClosed = False, timedout = True,
     spc = Receiving NoDeadline, doubleClose = False\<rparr>"
proof -
  let ?S = "\<lambda>t ts cc to p. \<lparr>timer = t, tstate = ts, chan = 0, chanClosed = cc, timedout = to,
      spc = p, doubleClose = False\<rparr>"
  have s0: "dl_reach (?S False Off False False (NotSetting))" using dl_init by (simp add: new_deadlineHandler_def)
  have s1: "dl_reach (?S False Off False False (Stopping InFuture))" using dl_next [OF s0 call_set [of "?S False Off False False (NotSetting)" "InFuture"]] by simp
  have s2: "dl_reach (?S False Off False False (Clearing InFuture))" using dl_next [OF s1 no_timer [of "?S False Off False False (Stopping InFuture)"]] by simp
  have s3: "dl_reach (?S False Off False False (Renewing InFuture))" using dl_next [OF s2 clear [of "?S False Off False False (Clearing InFuture)"]] by simp
  have s4: "dl_reach (?S False Off False False (Starting InFuture))" using dl_next [OF s3 keep_channel [of "?S False Off False False (Renewing InFuture)"]] by simp
  have s5: "dl_reach (?S True Armed False False (NotSetting))" using dl_next [OF s4 start_timer [of "?S False Off False False (Starting InFuture)"]] by simp
  have s6: "dl_reach (?S True Armed False False (Stopping NoDeadline))" using dl_next [OF s5 call_set [of "?S True Armed False False (NotSetting)" "NoDeadline"]] by simp
  have s7: "dl_reach (?S True Started False False (Stopping NoDeadline))" using dl_next [OF s6 expire [of "?S True Armed False False (Stopping NoDeadline)"]] by simp
  have s8: "dl_reach (?S True Started False False (Receiving NoDeadline))" using dl_next [OF s7 stop_too_late [of "?S True Started False False (Stopping NoDeadline)"]] by simp
  have s9: "dl_reach (?S True Flagged False True (Receiving NoDeadline))" using dl_next [OF s8 timer_flag [of "?S True Started False False (Receiving NoDeadline)"]] by simp
  from s9 show ?thesis by simp
qed

theorem deadline_handler_safe_witness:
  "\<not> doubleClose \<lparr>timer = True, tstate = Flagged, chan = 0, chanClosed = False, timedout = True,
     spc = Receiving NoDeadline, doubleClose = False\<rparr>"
  using deadline_handler_safe [OF sample_deadline_reach] by simp

end
