(* ===== verification/Lzx.thy ===== *)
theory Lzx
  imports Go_Prelude
begin

text \<open>
  The LZX decompressor of WIM images (\<^verbatim>\<open>src/wim/lzx/lzx.go\<close>): the bit reader over a
  4096-byte buffer, canonical Huffman tables, the tree and block readers, and the x86 call
  translation. The input \<^verbatim>\<open>io.Reader\<close> is the bytes it has left: it fills the buffer
  it is given or delivers all that is left. A Go error is a value, a run-time panic is
  \<open>Panic\<close>.
\<close>

section \<open>Constants\<close>

definition maincodecount :: nat where "maincodecount = 496"
definition maincodesplit :: nat where "maincodesplit = 256"
definition lencodecount :: nat where "lencodecount = 249"
definition lenshift :: nat where "lenshift = 9"
definition codemask :: u16 where "codemask = 0x1ff"
definition tablebits :: nat where "tablebits = 9"
definition tablesize :: nat where "tablesize = 512"
definition maxBlockSize :: u16 where "maxBlockSize = 32768"
definition windowSize :: nat where "windowSize = 32768"
definition maxTreePathLen :: nat where "maxTreePathLen = 16"
definition e8filesize :: int where "e8filesize = 12000000"
definition maxe8offset :: int where "maxe8offset = 0x3fffffff"
definition verbatimBlock :: u16 where "verbatimBlock = 1"
definition alignedOffsetBlock :: u16 where "alignedOffsetBlock = 2"
definition uncompressedBlock :: u16 where "uncompressedBlock = 3"

definition footerBits :: "byte list" where
  "footerBits = [0, 0, 0, 0, 1, 1, 2, 2, 3, 3, 4, 4, 5, 5, 6, 6, 7, 7, 8, 8, 9, 9, 10, 10,
     11, 11, 12, 12, 13, 13, 14]"

definition basePosition :: "u16 list" where
  "basePosition = [0, 1, 2, 3, 4, 6, 8, 12, 16, 24, 32, 48, 64, 96, 128, 192, 256, 384, 512, 768,
     1024, 1536, 2048, 3072, 4096, 6144, 8192, 12288, 16384, 24576, 32768]"

definition errCorrupt :: go_error where "errCorrupt = ErrNew ''LZX data corrupt''"

section \<open>The decompressor\<close>

record decompressor =
  d_r :: bytes
  d_err :: "go_error option"
  unaligned :: bool
  nbits :: byte
  d_c :: u32
  lru :: "u16 list"
  uncompressed :: nat
  windowReader :: "bytes option"
  mainlens :: bytes
  lenlens :: bytes
  window :: bytes
  d_b :: bytes
  bv :: nat
  bo :: nat

text \<open>A method of the decompressor: its result and the new state, or a panic.\<close>

type_synonym 'a decomp = "decompressor \<Rightarrow> ('a \<times> decompressor) res"

definition bind_m :: "'a decomp \<Rightarrow> ('a \<Rightarrow> 'b decomp) \<Rightarrow> 'b decomp" where
  "bind_m m k f = bind_res (m f) (\<lambda>(x, f'). k x f')"

definition ret :: "'a \<Rightarrow> 'a decomp" where "ret x f = Ok (x, f)"

definition lift :: "'a res \<Rightarrow> 'a decomp" where "lift r f = bind_res r (\<lambda>x. Ok (x, f))"

definition fail :: "go_error \<Rightarrow> decompressor \<Rightarrow> decompressor" where
  "fail e f = f\<lparr>d_err := (if d_err f = None then Some e else d_err f), bo := 0, bv := 0\<rparr>"

definition fail_m :: "go_error \<Rightarrow> unit decomp" where "fail_m e f = Ok ((), fail e f)"

text \<open>
  \<^verbatim>\<open>ensureAtLeast\<close>: the bytes left in the buffer move to its front and
  \<^verbatim>\<open>io.ReadAtLeast\<close> reads \<open>n\<close> further bytes at least.
\<close>

definition ensureAtLeast :: "nat \<Rightarrow> go_error option decomp" where
  "ensureAtLeast n f =
     (if n \<le> bv f - bo f then Ok (None, f)
      else if d_err f \<noteq> None then Ok (d_err f, f)
      else
        let k = bv f - bo f;
            moved = take k (drop (bo f) (d_b f)) @ drop k (d_b f);
            got = take (length (d_b f) - k) (d_r f);
            f1 = f\<lparr>d_b := take k moved @ got @ drop (k + length got) moved, d_r := drop (length got) (d_r f)\<rparr>
        in if n \<le> length got then Ok (None, f1\<lparr>bv := k + length got, bo := 0\<rparr>)
           else if got = [] then Ok (Some ErrUnexpectedEOF, f1)
           else Ok (Some ErrUnexpectedEOF, fail ErrUnexpectedEOF f1))"

definition feed :: "bool decomp" where
  "feed = bind_m (ensureAtLeast 2) (\<lambda>err.
     if err = Some ErrUnexpectedEOF then ret False
     else (\<lambda>f.
       bind_res (index (d_b f) (bo f + 1)) (\<lambda>hi.
       bind_res (index (d_b f) (bo f)) (\<lambda>lo.
       let w = push_bit 8 (ucast hi) OR ucast lo :: u32 in
       Ok (True, f\<lparr>d_c := d_c f OR push_bit (unat (16 - nbits f)) w, nbits := nbits f + 16, bo := bo f + 2\<rparr>)))))"

definition getBits :: "byte \<Rightarrow> u16 decomp" where
  "getBits n =
     bind_m (\<lambda>f. if nbits f < n then
               bind_m feed (\<lambda>ok. if ok then ret () else fail_m ErrUnexpectedEOF) f
             else Ok ((), f)) (\<lambda>_ f.
     Ok (ucast (drop_bit (unat (32 - n)) (d_c f)),
         f\<lparr>d_c := push_bit (unat n) (d_c f), nbits := nbits f - n\<rparr>))"

section \<open>Huffman tables\<close>

record huffman =
  extra :: "u16 list list"
  maxbits :: nat
  table :: "u16 list"

definition code_count :: "bytes \<Rightarrow> nat \<Rightarrow> nat" where
  "code_count codelens n = length (filter (\<lambda>cl. unat cl = n) codelens)"

text \<open>The code after the last one of length \<open>n\<close>, and the first code of each length.\<close>

fun code_end :: "bytes \<Rightarrow> nat \<Rightarrow> nat" where
  "code_end codelens 0 = 0"
| "code_end codelens (Suc n) = 2 * code_end codelens n + code_count codelens (Suc n)"

definition first_code :: "bytes \<Rightarrow> nat \<Rightarrow> nat" where
  "first_code codelens n = 2 * code_end codelens (n - 1)"

definition max_len :: "bytes \<Rightarrow> nat" where
  "max_len codelens = foldl (\<lambda>m cl. max m (unat cl)) 0 codelens"

fun store :: "'a list \<Rightarrow> nat \<Rightarrow> nat \<Rightarrow> 'a \<Rightarrow> 'a list res" where
  "store xs i 0 v = Ok xs"
| "store xs i (Suc n) v =
     (if i < length xs then store (xs[i := v]) (i + 1) n v else Panic ''index out of range'')"

text \<open>The second loop of \<^verbatim>\<open>buildTable\<close>: \<open>i\<close> is the symbol, \<open>next\<close> the next code of each length.\<close>

fun fill_codes :: "nat \<Rightarrow> nat \<Rightarrow> bytes \<Rightarrow> (nat \<Rightarrow> nat) \<Rightarrow> huffman \<Rightarrow> huffman res" where
  "fill_codes mx i [] nxt h = Ok h"
| "fill_codes mx i (l # ls) nxt h =
     (if l = 0 then fill_codes mx (i + 1) ls nxt h
      else
        let cl = unat l; code = nxt cl; nxt' = nxt(cl := code + 1);
            v = push_bit lenshift (of_nat cl) OR of_nat i :: u16
        in if cl \<le> tablebits then
             bind_res (store (table h) (code * 2 ^ (tablebits - cl)) (2 ^ (tablebits - cl)) v) (\<lambda>t.
             fill_codes mx (i + 1) ls nxt' (h\<lparr>table := t\<rparr>))
           else
             let prefix = code div 2 ^ (cl - tablebits); suffix = code mod 2 ^ (cl - tablebits) in
             bind_res (index (table h) prefix) (\<lambda>e.
             bind_res (index (extra h) (unat e)) (\<lambda>xs.
             bind_res (store xs (suffix * 2 ^ (mx - cl)) (2 ^ (mx - cl)) v) (\<lambda>xs'.
             fill_codes mx (i + 1) ls nxt' (h\<lparr>extra := (extra h)[unat e := xs']\<rparr>)))))"

definition empty_huffman :: huffman where
  "empty_huffman = \<lparr>extra = [], maxbits = 0, table = replicate tablesize 0\<rparr>"

text \<open>The tables before the codes are filled in: long codes get an extra table per prefix.\<close>

definition start_huffman :: "nat \<Rightarrow> nat \<Rightarrow> huffman" where
  "start_huffman mx core =
     (if tablebits < mx then
        \<lparr>extra = replicate (2 ^ tablebits - core) (replicate (2 ^ (mx - tablebits)) 0), maxbits = mx,
         table = map (\<lambda>code. if core \<le> code then of_nat (code - core) else 0) [0..<tablesize]\<rparr>
      else \<lparr>extra = [], maxbits = mx, table = replicate tablesize 0\<rparr>)"

definition buildTable :: "bytes \<Rightarrow> huffman option res" where
  "buildTable codelens =
     (if list_ex (\<lambda>cl. maxTreePathLen < unat cl) codelens then Panic ''index out of range''
      else
        let mx = max_len codelens in
        if mx = 0 then Ok (Some empty_huffman)
        else if code_end codelens mx \<noteq> 2 ^ mx then Ok None
        else bind_res (fill_codes mx 0 codelens (first_code codelens)
               (start_huffman mx (first_code codelens (tablebits + 1) div 2))) (\<lambda>h. Ok (Some h)))"

text \<open>\<^verbatim>\<open>getCode\<close>, on a tree pointer that may be nil.\<close>

definition lookup_code :: "huffman \<Rightarrow> u32 \<Rightarrow> u16 res" where
  "lookup_code h w =
     bind_res (index (table h) (unat (drop_bit (32 - tablebits) w))) (\<lambda>e.
     if 2 ^ lenshift \<le> unat e then Ok e
     else bind_res (index (extra h) (unat e)) (\<lambda>xs.
          index xs (unat (drop_bit (32 - (maxbits h - tablebits)) (push_bit tablebits w)))))"

definition getCode :: "huffman option \<Rightarrow> u16 decomp" where
  "getCode ptr =
     (case ptr of
        None \<Rightarrow> (\<lambda>_. Panic ''nil pointer dereference'')
      | Some h \<Rightarrow>
          if maxbits h > 0 then
            bind_m (\<lambda>f. if unat (nbits f) < maxTreePathLen then bind_m feed (\<lambda>_. ret ()) f else Ok ((), f)) (\<lambda>_ f.
            bind_res (lookup_code h (d_c f)) (\<lambda>e.
            let n = ucast (drop_bit lenshift e) :: byte in
            if n \<le> nbits f then
              Ok (e AND codemask, f\<lparr>d_c := push_bit (unat n) (d_c f), nbits := nbits f - n\<rparr>)
            else Ok (0, fail ErrUnexpectedEOF f)))
          else (\<lambda>f. Ok (0, fail errCorrupt f)))"

section \<open>Trees\<close>

text \<open>\<open>k\<close> calls of \<^verbatim>\<open>getBits(n)\<close>, as bytes.\<close>

fun getBits_list :: "byte \<Rightarrow> nat \<Rightarrow> bytes decomp" where
  "getBits_list n 0 = ret []"
| "getBits_list n (Suc k) = bind_m (getBits n) (\<lambda>x. bind_m (getBits_list n k) (\<lambda>xs. ret (ucast x # xs)))"

definition delta_len :: "byte \<Rightarrow> byte \<Rightarrow> byte" where
  "delta_len old c = (old + 17 - c) mod 17"

definition set_range :: "'a list \<Rightarrow> nat \<Rightarrow> nat \<Rightarrow> 'a \<Rightarrow> 'a list" where
  "set_range xs i n v = take i xs @ replicate n v @ drop (i + n) xs"

text \<open>
  The loop of \<^verbatim>\<open>readTree\<close> over the lengths, with its error and the lengths as far as they
  were changed. A turn advances \<open>i\<close>, so \<open>length lens\<close> turns are enough.
\<close>

fun read_lens :: "nat \<Rightarrow> huffman option \<Rightarrow> nat \<Rightarrow> bytes \<Rightarrow> (go_error option \<times> bytes) decomp" where
  "read_lens 0 h i lens = ret (None, lens)"
| "read_lens (Suc k) h i lens =
     (if length lens \<le> i then ret (None, lens)
      else bind_m (getCode h) (\<lambda>code f.
        let c = ucast code :: byte in
        if d_err f \<noteq> None then Ok ((d_err f, lens), f)
        else if c \<le> 16 then read_lens k h (i + 1) (lens[i := delta_len (lens ! i) c]) f
        else if c = 17 \<or> c = 18 then
          bind_m (getBits (if c = 17 then 4 else 5)) (\<lambda>z.
          let zeroes = unat z + (if c = 17 then 4 else 20) in
          if length lens < i + zeroes then ret (Some errCorrupt, lens)
          else read_lens k h (i + zeroes) (set_range lens i zeroes 0)) f
        else if c = 19 then
          bind_m (getBits 1) (\<lambda>z.
          let same = unat z + 4 in
          if length lens < i + same then ret (Some errCorrupt, lens)
          else bind_m (getCode h) (\<lambda>code2.
            let c2 = ucast code2 :: byte in
            if 16 < c2 then ret (Some errCorrupt, lens)
            else read_lens k h (i + same) (set_range lens i same (delta_len (lens ! i) c2)))) f
        else Ok ((Some errCorrupt, lens), f)))"

definition readTree :: "bytes \<Rightarrow> (go_error option \<times> bytes) decomp" where
  "readTree lens =
     bind_m (getBits_list 4 20) (\<lambda>pre f.
     if d_err f \<noteq> None then Ok ((d_err f, lens), f)
     else bind_m (lift (buildTable pre)) (\<lambda>h.
          bind_m (read_lens (length lens) h 0 lens) (\<lambda>(err, lens') f.
          Ok ((if err \<noteq> None then err else d_err f, lens'), f))) f)"

text \<open>\<^verbatim>\<open>readTrees\<close>: the main, length and aligned offset trees, or an error.\<close>

definition errCorruptTree :: go_error where "errCorruptTree = ErrNew ''corrupt''"

definition readTrees ::
  "bool \<Rightarrow> ((huffman option \<times> huffman option \<times> huffman option) \<times> go_error option) decomp" where
  "readTrees readAligned =
     bind_m (if readAligned then bind_m (getBits_list 3 8) (\<lambda>lens. lift (buildTable lens)) else ret None) (\<lambda>aligned.
     if readAligned \<and> aligned = None then ret ((None, None, aligned), Some errCorruptTree)
     else
       bind_m (\<lambda>f. readTree (take maincodesplit (mainlens f)) f) (\<lambda>(err, lo) f.
       let f1 = f\<lparr>mainlens := lo @ drop maincodesplit (mainlens f)\<rparr> in
       if err \<noteq> None then Ok (((None, None, aligned), err), f1)
       else bind_m (\<lambda>f. readTree (drop maincodesplit (mainlens f)) f) (\<lambda>(err, hi) f.
         let f2 = f\<lparr>mainlens := take maincodesplit (mainlens f) @ hi\<rparr> in
         if err \<noteq> None then Ok (((None, None, aligned), err), f2)
         else bind_m (\<lambda>f. lift (buildTable (mainlens f)) f) (\<lambda>main.
           if main = None then ret ((main, None, aligned), Some errCorruptTree)
           else bind_m (\<lambda>f. readTree (lenlens f) f) (\<lambda>(err, ll) f.
             let f3 = f\<lparr>lenlens := ll\<rparr> in
             if err \<noteq> None then Ok (((main, None, aligned), err), f3)
             else bind_m (lift (buildTable ll)) (\<lambda>len f.
               if len = None then Ok (((main, len, aligned), Some errCorruptTree), f)
               else Ok (((main, len, aligned), d_err f), f)) f3)) f2) f1))"

section \<open>Blocks\<close>

definition le32_at :: "bytes \<Rightarrow> nat \<Rightarrow> u32 res" where
  "le32_at b i = bind_res (slice b i (i + 4)) (\<lambda>x. Ok (le_dec x))"

definition readBlockHeader :: "((u16 \<times> u16) \<times> go_error option) decomp" where
  "readBlockHeader =
     bind_m (\<lambda>f. if unaligned f then
               bind_m (ensureAtLeast 1) (\<lambda>err f.
               if err \<noteq> None then Ok (err, f) else Ok (None, f\<lparr>bo := bo f + 1, unaligned := False\<rparr>)) f
             else Ok (None, f)) (\<lambda>err.
     if err \<noteq> None then ret ((0, 0), err)
     else
       bind_m (getBits 3) (\<lambda>blockType.
       bind_m (getBits 1) (\<lambda>full.
       bind_m (if full \<noteq> 0 then ret maxBlockSize else getBits 16) (\<lambda>blockSize f.
       if full = 0 \<and> maxBlockSize < blockSize then Ok (((0, 0), Some errCorrupt), f)
       else if d_err f \<noteq> None then Ok (((0, 0), d_err f), f)
       else if blockType = verbatimBlock \<or> blockType = alignedOffsetBlock then Ok (((blockType, blockSize), None), f)
       else if blockType = uncompressedBlock then
         if 16 < nbits f then Panic ''impossible: more than one 16-bit word remains''
         else
           bind_m (getBits (if nbits f = 0 then 16 else nbits f)) (\<lambda>_.
           bind_m (ensureAtLeast 12) (\<lambda>err f.
           if err \<noteq> None then Ok (((0, 0), err), f)
           else
             bind_res (le32_at (d_b f) (bo f)) (\<lambda>l0.
             bind_res (le32_at (d_b f) (bo f + 4)) (\<lambda>l1.
             bind_res (le32_at (d_b f) (bo f + 8)) (\<lambda>l2.
             Ok (((blockType, blockSize), None), f\<lparr>lru := [ucast l0, ucast l1, ucast l2], bo := bo f + 12\<rparr>)))))) f
       else Ok (((0, 0), Some errCorrupt), f)))))"

text \<open>Copying a match inside the window, one byte at a time.\<close>

fun copy_match :: "bytes \<Rightarrow> nat \<Rightarrow> nat \<Rightarrow> nat \<Rightarrow> bytes res" where
  "copy_match w i off 0 = Ok w"
| "copy_match w i off (Suc n) =
     bind_res (index w (i - off)) (\<lambda>x.
     if i < length w then copy_match (w[i := x]) (i + 1) off n else Panic ''index out of range'')"

text \<open>The offset of a match in slot \<open>slot\<close>, and the updated recently used offsets.\<close>

definition match_offset :: "u16 \<Rightarrow> huffman option \<Rightarrow> u16 decomp" where
  "match_offset slot haligned =
     (if slot < 3 then (\<lambda>f.
        let off = lru f ! unat slot in
        Ok (off, f\<lparr>lru := (lru f)[unat slot := lru f ! 0, 0 := off]\<rparr>))
      else
        bind_m (lift (index footerBits (unat slot))) (\<lambda>offsetbits.
        bind_m (if offsetbits > 0 then
                  if haligned \<noteq> None \<and> 3 \<le> offsetbits then
                    bind_m (getBits (offsetbits - 3)) (\<lambda>vb. bind_m (getCode haligned) (\<lambda>ab. ret (vb * 8 + ab)))
                  else getBits offsetbits
                else ret 0) (\<lambda>bits.
        bind_m (lift (index basePosition (unat slot))) (\<lambda>base f.
        let off = base + bits - 2 in
        Ok (off, f\<lparr>lru := [off, lru f ! 0, lru f ! 1]\<rparr>)))))"

text \<open>The loop of \<^verbatim>\<open>readCompressedBlock\<close>; a turn that goes on advances \<open>i\<close>.\<close>

fun block_loop :: "nat \<Rightarrow> u16 \<Rightarrow> u16 \<Rightarrow> huffman option \<Rightarrow> huffman option \<Rightarrow> huffman option \<Rightarrow> u16 decomp" where
  "block_loop 0 i e hmain hlength haligned = ret i"
| "block_loop (Suc k) i e hmain hlength haligned =
     (if \<not> i < e then ret i
      else bind_m (getCode hmain) (\<lambda>main f.
        if d_err f \<noteq> None then Ok (i, f)
        else if main < 256 then
          if unat i < length (window f) then
            block_loop k (i + 1) e hmain hlength haligned (f\<lparr>window := (window f)[unat i := ucast main]\<rparr>)
          else Panic ''index out of range''
        else
          bind_m (if (main - 256) mod 8 = 7 then bind_m (getCode hlength) (\<lambda>l. ret (7 + l + 2))
                  else ret ((main - 256) mod 8 + 2)) (\<lambda>matchlen.
          bind_m (match_offset ((main - 256) div 8) haligned) (\<lambda>off f.
          if \<not> (off \<le> i \<and> matchlen \<le> e - i) then Ok (i, fail errCorrupt f)
          else bind_res (copy_match (window f) (unat i) (unat off) (unat matchlen)) (\<lambda>w.
               block_loop k (i + matchlen) e hmain hlength haligned (f\<lparr>window := w\<rparr>)))) f))"

definition readCompressedBlock ::
  "u16 \<Rightarrow> u16 \<Rightarrow> huffman option \<Rightarrow> huffman option \<Rightarrow> huffman option \<Rightarrow> (nat \<times> go_error option) decomp" where
  "readCompressedBlock start e hmain hlength haligned =
     bind_m (block_loop (unat e - unat start) start e hmain hlength haligned) (\<lambda>i f.
     Ok ((unat (i - start), d_err f), f))"

text \<open>
  The uncompressed block of \<^verbatim>\<open>readBlock\<close>: what the buffer holds is copied, the rest is
  read into the window by \<^verbatim>\<open>io.ReadFull\<close>.
\<close>

definition read_stored :: "u16 \<Rightarrow> u16 \<Rightarrow> (nat \<times> go_error option) decomp" where
  "read_stored start sz f0 =
      (let f = f0\<lparr>unaligned := (unaligned f0 \<or> odd sz)\<rparr>;
           s = unat start;
           copied = (if bo f < bv f then min (unat sz) (bv f - bo f) else 0)
       in bind_res (if bo f < bv f then slice (window f) s (s + copied) else Ok []) (\<lambda>_.
          let w1 = take s (window f) @ take copied (drop (bo f) (d_b f)) @ drop (s + copied) (window f) in
          bind_res (slice w1 (unat (start + of_nat copied)) (unat (start + sz))) (\<lambda>dst.
          let want = length dst; got = take want (d_r f);
              err = (if length got = want then None else if got = [] then Some EOF else Some ErrUnexpectedEOF);
              a = unat (start + of_nat copied)
          in Ok ((copied + length got, err),
                 f\<lparr>bo := bo f + copied, d_r := drop (length got) (d_r f),
                    window := take a w1 @ got @ drop (a + length got) w1\<rparr>))))"

definition readBlock :: "u16 \<Rightarrow> (nat \<times> go_error option) decomp" where
  "readBlock start =
     bind_m readBlockHeader (\<lambda>((blockType, sz), err).
     if err \<noteq> None then ret (0, err)
     else if blockType = uncompressedBlock then read_stored start sz
     else
       bind_m (readTrees (blockType = alignedOffsetBlock)) (\<lambda>((hmain, hlength, haligned), err).
       if err \<noteq> None then ret (0, err)
       else readCompressedBlock start (start + sz) hmain hlength haligned))"

section \<open>The x86 call translation\<close>

definition e8_rel :: "u32 \<Rightarrow> u32 \<Rightarrow> u32" where
  "e8_rel cur a =
     (if sint (- cur) \<le> sint a \<and> sint a < e8filesize then
        if 0 \<le> sint a then a - cur else a + word_of_int e8filesize
      else a)"

text \<open>The loop over the bytes from \<open>i\<close> on; a translated call is skipped.\<close>

function e8_loop :: "bytes \<Rightarrow> u32 \<Rightarrow> nat \<Rightarrow> bytes" where
  "e8_loop b off i =
     (if i + 10 < length b then
        if b ! i = 0xe8 then
          e8_loop (take (i + 1) b @ le_enc 4 (e8_rel (off + of_nat i) (le_dec (take 4 (drop (i + 1) b)))) @ drop (i + 5) b)
            off (i + 5)
        else e8_loop b off (i + 1)
      else b)"
  by pat_completeness auto
termination
  by (relation "measure (\<lambda>(b, off, i). length b - i)") auto

declare e8_loop.simps [simp del]

definition decodeE8 :: "bytes \<Rightarrow> int \<Rightarrow> bytes" where
  "decodeE8 b off = (if maxe8offset < off \<or> length b < 10 then b else e8_loop b (word_of_int off) 0)"

section \<open>Reading\<close>

text \<open>
  \<^verbatim>\<open>Read\<close>: the first call decompresses everything; the loop over the blocks may not end,
  which is \<open>None\<close>.
\<close>

partial_function (option) read_blocks :: "nat \<Rightarrow> decompressor \<Rightarrow> (go_error option \<times> decompressor) res option" where
  "read_blocks n f =
     (if n < uncompressed f then
        (case readBlock (of_nat n) f of
           Panic p \<Rightarrow> Some (Panic p)
         | Err e \<Rightarrow> Some (Err e)
         | Ok ((k, Some e), f') \<Rightarrow> Some (Ok (Some e, f'))
         | Ok ((k, None), f') \<Rightarrow> read_blocks (n + k) f')
      else Some (Ok (None, f)))"

definition lzx_Read :: "nat \<Rightarrow> decompressor \<Rightarrow> ((bytes \<times> go_error option) \<times> decompressor) res option" where
  "lzx_Read len f =
     (let give = (\<lambda>f w. Some (Ok ((if w = [] then ([], Some EOF) else (take len w, None)),
                              f\<lparr>windowReader := Some (drop len w)\<rparr>)))
      in case windowReader f of
        Some w \<Rightarrow> give f w
      | None \<Rightarrow>
          (case read_blocks 0 f of
             None \<Rightarrow> None
           | Some (Panic p) \<Rightarrow> Some (Panic p)
           | Some (Err e) \<Rightarrow> Some (Err e)
           | Some (Ok (Some e, f')) \<Rightarrow> Some (Ok (([], Some e), f'))
           | Some (Ok (None, f')) \<Rightarrow>
               let w = decodeE8 (take (uncompressed f') (window f')) 0 in
               give (f'\<lparr>window := w @ drop (uncompressed f') (window f')\<rparr>) w))"

definition NewReader :: "bytes \<Rightarrow> nat \<Rightarrow> decompressor res" where
  "NewReader r uncompressedSize =
     (if windowSize < uncompressedSize then Err (ErrNew ''uncompressed size is limited to 32KB'')
      else Ok \<lparr>d_r = r, d_err = None, unaligned = False, nbits = 0, d_c = 0, lru = [1, 1, 1],
               uncompressed = uncompressedSize, windowReader = None,
               mainlens = replicate maincodecount 0, lenlens = replicate lencodecount 0,
               window = replicate windowSize 0, d_b = replicate 4096 0, bv = 0, bo = 0\<rparr>)"

end
