(* ===== verification/Lzx_Huffman.thy ===== *)
theory Lzx_Huffman
  imports Lzx
begin

text \<open>
  Correctness of the Huffman tables of the LZX decompressor: \<^verbatim>\<open>buildTable\<close> accepts
  exactly the complete sets of code lengths, and looking bits up in the two-level tables
  finds the one symbol whose canonical code starts them.
\<close>

section \<open>Canonical codes\<close>

definition code_len :: "bytes \<Rightarrow> nat \<Rightarrow> nat" where
  "code_len cs i = unat (cs ! i)"

text \<open>
  The canonical code of symbol \<open>i\<close>: codes of the same length are numbered in the order of
  the symbols, after all shorter codes.
\<close>

definition sym_code :: "bytes \<Rightarrow> nat \<Rightarrow> nat" where
  "sym_code cs i = first_code cs (code_len cs i) + code_count (take i cs) (code_len cs i)"

text \<open>The numbers of \<open>R\<close> bits that start with the code of symbol \<open>i\<close>.\<close>

definition cell :: "bytes \<Rightarrow> nat \<Rightarrow> nat \<Rightarrow> nat set" where
  "cell cs R i = {sym_code cs i * 2 ^ (R - code_len cs i) ..< (sym_code cs i + 1) * 2 ^ (R - code_len cs i)}"

text \<open>The end of the codes of length \<open>n\<close> among the numbers of \<open>R\<close> bits.\<close>

definition code_bound :: "bytes \<Rightarrow> nat \<Rightarrow> nat \<Rightarrow> nat" where
  "code_bound cs R n = code_end cs n * 2 ^ (R - n)"

lemma code_count_take_Suc:
  "i < length cs \<Longrightarrow> code_count (take (Suc i) cs) n = code_count (take i cs) n + (if code_len cs i = n then 1 else 0)"
  by (simp add: code_count_def code_len_def take_Suc_conv_app_nth)

lemma code_count_take_mono: "i \<le> j \<Longrightarrow> code_count (take i cs) n \<le> code_count (take j cs) n"
proof -
  assume "i \<le> j"
  then have "take j cs = take i cs @ take (j - i) (drop i cs)" by (simp add: take_add [symmetric])
  then show ?thesis by (simp add: code_count_def)
qed

lemma code_count_take_le: "code_count (take i cs) n \<le> code_count cs n"
  using append_take_drop_id [of i cs] by (metis code_count_def filter_append le_add1 length_append)

lemma rank_less:
  "i < j \<Longrightarrow> j \<le> length cs \<Longrightarrow> code_len cs i = n \<Longrightarrow> code_count (take i cs) n < code_count (take j cs) n"
  using code_count_take_mono [of "Suc i" j cs n] by (simp add: code_count_take_Suc)

lemma rank_exists:
  "k < code_count cs n \<Longrightarrow> \<exists>i < length cs. code_len cs i = n \<and> code_count (take i cs) n = k"
proof (induction cs rule: rev_induct)
  case (snoc c cs)
  show ?case
  proof (cases "k < code_count cs n")
    case True
    then obtain i where "i < length cs" "code_len cs i = n" "code_count (take i cs) n = k"
      using snoc.IH by blast
    then show ?thesis by (intro exI [of _ i]) (simp add: code_len_def nth_append)
  next
    case False
    then have "unat c = n" "k = code_count cs n" using snoc.prems by (auto simp: code_count_def split: if_splits)
    then show ?thesis by (intro exI [of _ "length cs"]) (simp add: code_len_def)
  qed
qed (simp add: code_count_def)

section \<open>The cells partition the numbers of \<open>R\<close> bits\<close>

lemma code_bound_Suc:
  "n < R \<Longrightarrow> code_bound cs R (Suc n) = code_bound cs R n + code_count cs (Suc n) * 2 ^ (R - Suc n)"
proof -
  assume "n < R"
  then have "2 ^ (R - n) = 2 * (2 :: nat) ^ (R - Suc n)" by (simp add: Suc_diff_Suc [symmetric])
  then show ?thesis by (simp add: code_bound_def algebra_simps)
qed

lemma code_bound_mono: "n \<le> m \<Longrightarrow> m \<le> R \<Longrightarrow> code_bound cs R n \<le> code_bound cs R m"
proof (induction m)
  case (Suc m)
  then show ?case by (cases "n = Suc m") (auto simp: code_bound_Suc)
qed simp

lemma cell_bounds:
  assumes "i < length cs" and "code_len cs i = Suc n" and "Suc n \<le> R"
  shows "sym_code cs i * 2 ^ (R - Suc n) = code_bound cs R n + code_count (take i cs) (Suc n) * 2 ^ (R - Suc n)"
    and "(sym_code cs i + 1) * 2 ^ (R - Suc n) \<le> code_bound cs R (Suc n)"
proof -
  have "2 ^ (R - n) = 2 * (2 :: nat) ^ (R - Suc n)" using assms(3) by (simp add: Suc_diff_Suc [symmetric])
  then show eq: "sym_code cs i * 2 ^ (R - Suc n) = code_bound cs R n + code_count (take i cs) (Suc n) * 2 ^ (R - Suc n)"
    by (simp add: sym_code_def first_code_def code_bound_def assms(2) algebra_simps)
  have "Suc (code_count (take i cs) (Suc n)) \<le> code_count cs (Suc n)"
    using rank_less [of i "length cs" cs "Suc n"] assms(1,2) by simp
  then have "Suc (code_count (take i cs) (Suc n)) * 2 ^ (R - Suc n) \<le> code_count cs (Suc n) * 2 ^ (R - Suc n)"
    by (rule mult_le_mono1)
  then show "(sym_code cs i + 1) * 2 ^ (R - Suc n) \<le> code_bound cs R (Suc n)"
    using eq assms(3) by (simp add: code_bound_Suc)
qed

lemma cell_within:
  assumes "i < length cs" and "code_len cs i = Suc n" and "Suc n \<le> R" and "x \<in> cell cs R i"
  shows "code_bound cs R n \<le> x" and "x < code_bound cs R (Suc n)"
  using cell_bounds [OF assms(1-3)] assms(2,4) by (auto simp: cell_def)

lemma cells_disjoint:
  assumes i: "i < length cs" "0 < code_len cs i" "code_len cs i \<le> R" "x \<in> cell cs R i"
    and j: "j < length cs" "0 < code_len cs j" "code_len cs j \<le> R" "x \<in> cell cs R j"
  shows "i = j"
proof -
  obtain n m where n: "code_len cs i = Suc n" and m: "code_len cs j = Suc m"
    using i(2) j(2) by (metis gr0_conv_Suc)
  note wi = cell_within [OF i(1) n i(3) [unfolded n] i(4)] and wj = cell_within [OF j(1) m j(3) [unfolded m] j(4)]
  have "n = m"
  proof (rule ccontr)
    assume "n \<noteq> m"
    then consider "Suc n \<le> m" | "Suc m \<le> n" by linarith
    then show False
      using wi wj code_bound_mono [of "Suc n" m R cs] code_bound_mono [of "Suc m" n R cs] i(3) j(3) n m
      by cases linarith+
  qed
  then have "sym_code cs i = sym_code cs j"
    using i(4) j(4) n m by (auto simp: cell_def) (metis less_Suc_eq_le linorder_neqE_nat mult_Suc mult_le_mono1 not_less order_less_le_trans)
  then have "code_count (take i cs) (Suc n) = code_count (take j cs) (Suc n)"
    by (simp add: sym_code_def n m \<open>n = m\<close>)
  then show ?thesis
    using rank_less [of i j cs "Suc n"] rank_less [of j i cs "Suc n"] i(1) j(1) n m \<open>n = m\<close>
    by (metis less_imp_le less_irrefl linorder_neqE_nat)
qed

lemma cells_cover:
  assumes "x < code_bound cs R m" and "m \<le> R"
  shows "\<exists>i < length cs. 0 < code_len cs i \<and> code_len cs i \<le> m \<and> x \<in> cell cs R i"
  using assms
proof (induction m)
  case 0
  then show ?case by (simp add: code_bound_def)
next
  case (Suc m)
  show ?case
  proof (cases "x < code_bound cs R m")
    case True
    with Suc.IH Suc.prems(2) show ?thesis by (metis Suc_leD le_SucI)
  next
    case False
    let ?s = "(2 :: nat) ^ (R - Suc m)"
    define k where "k = (x - code_bound cs R m) div ?s"
    have "x - code_bound cs R m < code_count cs (Suc m) * ?s"
      using Suc.prems False by (simp add: code_bound_Suc less_diff_conv2)
    then have "k < code_count cs (Suc m)" by (simp add: k_def less_mult_imp_div_less)
    then obtain i where i: "i < length cs" "code_len cs i = Suc m" "code_count (take i cs) (Suc m) = k"
      using rank_exists by blast
    have "k * ?s \<le> x - code_bound cs R m" "x - code_bound cs R m < (k + 1) * ?s"
      using div_times_less_eq_dividend [of "x - code_bound cs R m" ?s]
        dividend_less_div_times [of ?s "x - code_bound cs R m"]
      by (simp_all add: k_def algebra_simps)
    then have "x \<in> cell cs R i"
      using cell_bounds(1) [OF i(1,2) Suc.prems(2)] i False by (simp add: cell_def algebra_simps, linarith)
    with i show ?thesis by (intro exI [of _ i]) simp
  qed
qed

section \<open>The table entries\<close>

definition sym_val :: "bytes \<Rightarrow> nat \<Rightarrow> u16" where
  "sym_val cs i = push_bit lenshift (of_nat (code_len cs i)) OR of_nat i"

lemma sym_val_fields:
  assumes "code_len cs i \<le> 16" and "i < 512"
  shows "unat (sym_val cs i) = code_len cs i * 512 + i"
    and "unat (drop_bit lenshift (sym_val cs i)) = code_len cs i" and "unat (sym_val cs i AND codemask) = i"
proof -
  let ?l = "code_len cs i"
  have d: "push_bit 9 (of_nat ?l) AND (of_nat i :: u16) = 0"
  proof (rule bit_word_eqI)
    fix n
    have "\<not> bit (of_nat i :: u16) n" if "9 \<le> n"
    proof -
      have "(2 :: nat) ^ 9 \<le> 2 ^ n" using that by (rule power_increasing) simp
      then have "i < 2 ^ n" using assms(2) by simp
      then have "\<not> bit i n" by (simp add: bit_iff_odd)
      then show ?thesis by (simp add: bit_of_nat_iff)
    qed
    then show "bit (push_bit 9 (of_nat ?l) AND (of_nat i :: u16)) n = bit (0 :: u16) n"
      by (auto simp: bit_and_iff bit_push_bit_iff)
  qed
  then have "sym_val cs i = push_bit 9 (of_nat ?l) + of_nat i"
    using disjunctive_add_eq_or [OF d] by (simp add: sym_val_def lenshift_def)
  then have v: "sym_val cs i = of_nat (?l * 512 + i)" by (simp add: push_bit_eq_mult mult.commute)
  have lt: "?l * 512 + i < 65536" using assms by linarith
  then show u: "unat (sym_val cs i) = ?l * 512 + i" unfolding v by (simp only: unat_of_nat_eq_iff) simp
  then show "unat (drop_bit lenshift (sym_val cs i)) = ?l"
    using assms(2) by (simp add: lenshift_def drop_bit_eq_div unat_div)
  have "sym_val cs i AND codemask = take_bit 9 (sym_val cs i)"
    by (simp add: codemask_def take_bit_eq_mask mask_eq_exp_minus_1)
  then show "unat (sym_val cs i AND codemask) = i"
    using u assms(2) by (simp add: take_bit_eq_mod unat_mod)
qed

text \<open>\<^verbatim>\<open>store\<close> writes a range.\<close>

lemma store_Ok:
  "i + n \<le> length xs \<Longrightarrow>
     \<exists>ys. store xs i n v = Ok ys \<and> length ys = length xs \<and>
       (\<forall>k < length xs. ys ! k = (if i \<le> k \<and> k < i + n then v else xs ! k))"
proof (induction n arbitrary: xs i)
  case (Suc n)
  then have "Suc i + n \<le> length (xs[i := v])" by simp
  from Suc.IH [OF this] obtain ys where "store (xs[i := v]) (Suc i) n v = Ok ys" "length ys = length xs"
    "\<forall>k < length xs. ys ! k = (if Suc i \<le> k \<and> k < Suc i + n then v else xs[i := v] ! k)" by auto
  with Suc.prems show ?case by (intro exI [of _ ys]) (auto simp: nth_list_update)
qed auto

text \<open>The entry for a number of \<open>max 9 mx\<close> bits, through the extra tables for long codes.\<close>

definition entry :: "nat \<Rightarrow> huffman \<Rightarrow> nat \<Rightarrow> u16" where
  "entry mx h x =
     (if mx \<le> 9 then table h ! x
      else let e = table h ! (x div 2 ^ (mx - 9)) in
           if 512 \<le> unat e then e else extra h ! unat e ! (x mod 2 ^ (mx - 9)))"

definition table_ok :: "nat \<Rightarrow> nat \<Rightarrow> huffman \<Rightarrow> bool" where
  "table_ok mx core h \<longleftrightarrow>
     length (table h) = 512 \<and> maxbits h = mx \<and>
     (9 < mx \<longrightarrow> core \<le> 512 \<and> length (extra h) = 512 - core \<and>
        (\<forall>r \<in> set (extra h). length r = 2 ^ (mx - 9)) \<and>
        (\<forall>p. core \<le> p \<longrightarrow> p < 512 \<longrightarrow> table h ! p = of_nat (p - core)))"

lemma table_ok_start: "core \<le> 512 \<Longrightarrow> table_ok mx core (start_huffman mx core)"
  by (auto simp: table_ok_def start_huffman_def tablebits_def tablesize_def)

lemma extra_index:
  assumes "table_ok mx core h" and "9 < mx" and "core \<le> p" and "p < 512"
  shows "unat (table h ! p) = p - core" and "p - core < length (extra h)"
proof -
  have "table h ! p = of_nat (p - core)" using assms by (simp add: table_ok_def)
  moreover have "unat (of_nat (p - core) :: u16) = p - core" using assms(4) by (simp add: unat_of_nat_eq_iff)
  ultimately show "unat (table h ! p) = p - core" by simp
  show "p - core < length (extra h)" using assms by (auto simp: table_ok_def)
qed

section \<open>Filling the tables\<close>

text \<open>A complete set of code lengths, its longest length and the number of short prefixes.\<close>

definition complete :: "bytes \<Rightarrow> nat \<Rightarrow> nat \<Rightarrow> bool" where
  "complete cs mx core \<longleftrightarrow>
     0 < mx \<and> mx \<le> 16 \<and> length cs \<le> 512 \<and> (\<forall>i < length cs. code_len cs i \<le> mx) \<and>
     code_end cs mx = 2 ^ mx \<and> core = code_end cs 9"

lemma completeD:
  assumes "complete cs mx core"
  shows "code_bound cs (max 9 mx) mx = 2 ^ max 9 mx"
    and "i < length cs \<Longrightarrow> code_len cs i \<le> mx \<and> code_len cs i \<le> max 9 mx"
    and "9 < mx \<Longrightarrow> core \<le> 512"
    and "i < length cs \<Longrightarrow> 0 < code_len cs i \<Longrightarrow> x \<in> cell cs (max 9 mx) i \<Longrightarrow> x < 2 ^ max 9 mx"
proof -
  show b: "code_bound cs (max 9 mx) mx = 2 ^ max 9 mx"
    using assms by (simp add: complete_def code_bound_def power_add [symmetric])
  show l: "code_len cs i \<le> mx \<and> code_len cs i \<le> max 9 mx" if "i < length cs" for i
    using assms that by (auto simp: complete_def le_max_iff_disj)
  show "core \<le> 512" if "9 < mx"
  proof -
    have "code_end cs 9 * 2 ^ (mx - 9) \<le> 2 ^ mx"
      using code_bound_mono [of 9 mx mx cs] that b assms by (simp add: code_bound_def complete_def max_def)
    also have "(2 :: nat) ^ mx = 512 * 2 ^ (mx - 9)" using that power_add [of "2 :: nat" 9 "mx - 9"] by simp
    finally show ?thesis using assms by (simp add: complete_def)
  qed
  assume i: "i < length cs" "0 < code_len cs i" "x \<in> cell cs (max 9 mx) i"
  then obtain n where n: "code_len cs i = Suc n" by (metis gr0_conv_Suc)
  have "x < code_bound cs (max 9 mx) (Suc n)"
    using cell_within(2) [OF i(1) n _ i(3)] l [OF i(1)] n by simp
  also have "\<dots> \<le> code_bound cs (max 9 mx) mx"
    by (rule code_bound_mono) (use l [OF i(1)] n in auto)
  finally show "x < 2 ^ max 9 mx" by (simp add: b)
qed

lemma short_code_bound:
  assumes c: "complete cs mx core" and i: "i < length cs" "0 < code_len cs i" "code_len cs i \<le> 9"
  shows "(sym_code cs i + 1) * 2 ^ (9 - code_len cs i) \<le> (if 9 < mx then core else 512)"
proof -
  obtain n where n: "code_len cs i = Suc n" using i(2) by (metis gr0_conv_Suc)
  have b: "(sym_code cs i + 1) * 2 ^ (9 - Suc n) \<le> code_bound cs 9 (Suc n)"
    by (rule cell_bounds(2) [OF i(1) n]) (use i(3) n in simp)
  show ?thesis
  proof (cases "9 < mx")
    case True
    have "code_bound cs 9 (Suc n) \<le> code_bound cs 9 9" by (rule code_bound_mono) (use i(3) n in auto)
    with b True c n show ?thesis by (simp add: code_bound_def complete_def)
  next
    case False
    have "code_bound cs 9 (Suc n) \<le> code_bound cs 9 mx"
      by (rule code_bound_mono) (use completeD(2) [OF c i(1)] n False in auto)
    also have "\<dots> = 512" using completeD(1) [OF c] max_absorb1 [of mx 9] False by simp
    finally show ?thesis using b False n by simp
  qed
qed

lemma pow_split: "(a :: nat) \<le> b \<Longrightarrow> b \<le> c \<Longrightarrow> (2 :: nat) ^ (c - a) = 2 ^ (b - a) * 2 ^ (c - b)"
  by (simp add: power_add [symmetric])

text \<open>
  An entry that later codes leave alone: its first nine bits are those of long codes, or the
  code of a symbol is in the first table already.
\<close>

definition settled :: "nat \<Rightarrow> nat \<Rightarrow> huffman \<Rightarrow> nat \<Rightarrow> bool" where
  "settled mx core h x \<longleftrightarrow>
     mx \<le> 9 \<or> core \<le> x div 2 ^ (mx - 9) \<or> 512 \<le> unat (table h ! (x div 2 ^ (mx - 9)))"

lemma fill_short:
  assumes c: "complete cs mx core" and ok: "table_ok mx core h"
    and i: "i < length cs" "0 < code_len cs i" "code_len cs i \<le> 9"
  shows "\<exists>t. store (table h) (sym_code cs i * 2 ^ (9 - code_len cs i)) (2 ^ (9 - code_len cs i)) (sym_val cs i) = Ok t \<and>
    table_ok mx core (h\<lparr>table := t\<rparr>) \<and>
    (\<forall>x < 2 ^ max 9 mx. entry mx (h\<lparr>table := t\<rparr>) x =
       (if x \<in> cell cs (max 9 mx) i then sym_val cs i else entry mx h x) \<and>
       (x \<in> cell cs (max 9 mx) i \<or> settled mx core h x \<longrightarrow> settled mx core (h\<lparr>table := t\<rparr>) x))"
proof -
  let ?l = "code_len cs i" and ?v = "sym_val cs i"
  let ?s = "(2 :: nat) ^ (9 - ?l)"
  let ?a = "sym_code cs i * ?s"
  have top: "?a + ?s \<le> (if 9 < mx then core else 512)"
    using short_code_bound [OF c i] by (simp add: algebra_simps)
  have core: "9 < mx \<Longrightarrow> core \<le> 512" by (rule completeD(3) [OF c])
  have len: "length (table h) = 512" using ok by (simp add: table_ok_def)
  have "?a + ?s \<le> length (table h)" using top core len by (cases "9 < mx") auto
  from store_Ok [OF this, of ?v] obtain t where t: "store (table h) ?a ?s ?v = Ok t" "length t = 512"
    "\<And>k. k < 512 \<Longrightarrow> t ! k = (if ?a \<le> k \<and> k < ?a + ?s then ?v else table h ! k)"
    using len by auto
  have tok: "table_ok mx core (h\<lparr>table := t\<rparr>)"
    using ok t(2,3) top by (auto simp: table_ok_def)
  have v512: "512 \<le> unat ?v"
    using sym_val_fields(1) [of cs i] i c by (simp add: complete_def)
  have "entry mx (h\<lparr>table := t\<rparr>) x = (if x \<in> cell cs (max 9 mx) i then ?v else entry mx h x) \<and>
       (x \<in> cell cs (max 9 mx) i \<or> settled mx core h x \<longrightarrow> settled mx core (h\<lparr>table := t\<rparr>) x)"
    if x: "x < 2 ^ max 9 mx" for x
  proof (cases "9 < mx")
    case False
    then have nine: "max 9 mx = 9" by simp
    then have "x < 512" using x by simp
    from t(3) [OF this] show ?thesis using False by (simp add: entry_def settled_def cell_def nine algebra_simps)
  next
    case True
    let ?d = "(2 :: nat) ^ (mx - 9)"
    have xd: "x div ?d < 512"
      using x True power_add [of "2 :: nat" 9 "mx - 9"] by (simp add: less_mult_imp_div_less max_def mult.commute)
    have p: "(2 :: nat) ^ (mx - ?l) = ?s * ?d" using pow_split [of ?l 9 mx] i(3) True by simp
    have "x \<in> cell cs (max 9 mx) i \<longleftrightarrow> ?a * ?d \<le> x \<and> x < (?a + ?s) * ?d"
      using True by (simp add: cell_def p max_def algebra_simps)
    also have "\<dots> \<longleftrightarrow> ?a \<le> x div ?d \<and> x div ?d < ?a + ?s"
      by (simp add: less_eq_div_iff_mult_less_eq div_less_iff_less_mult)
    finally have "x \<in> cell cs (max 9 mx) i \<longleftrightarrow> ?a \<le> x div ?d \<and> x div ?d < ?a + ?s" .
    then show ?thesis using t(3) [OF xd] True v512 by (auto simp: entry_def settled_def Let_def)
  qed
  with t(1) tok show ?thesis by blast
qed

text \<open>A code longer than nine bits goes to the extra table of its first nine bits.\<close>

lemma long_code_prefix:
  assumes c: "complete cs mx core" and i: "i < length cs" "9 < code_len cs i"
  shows "core \<le> sym_code cs i div 2 ^ (code_len cs i - 9)" and "sym_code cs i div 2 ^ (code_len cs i - 9) < 512"
proof -
  let ?l = "code_len cs i"
  obtain n where n: "?l = Suc n" using i(2) by (cases "code_len cs i") auto
  have "code_bound cs ?l 9 \<le> code_bound cs ?l n" by (rule code_bound_mono) (use i(2) n in auto)
  also have "\<dots> \<le> sym_code cs i" using cell_bounds(1) [OF i(1) n, of ?l] n by simp
  finally have "core * 2 ^ (?l - 9) \<le> sym_code cs i" using c by (simp add: code_bound_def complete_def)
  then show "core \<le> sym_code cs i div 2 ^ (?l - 9)" by (simp only: less_eq_div_iff_mult_less_eq zero_less_power zero_less_numeral)
  have "sym_code cs i * 2 ^ (max 9 mx - ?l) \<in> cell cs (max 9 mx) i" by (simp add: cell_def)
  then have "sym_code cs i * 2 ^ (max 9 mx - ?l) < 2 ^ max 9 mx" using completeD(4) [OF c i(1)] i(2) by simp
  also have "(2 :: nat) ^ max 9 mx = 2 ^ (9 + (?l - 9) + (max 9 mx - ?l))"
    using i(2) completeD(2) [OF c i(1)] by simp
  also have "\<dots> = (512 * 2 ^ (?l - 9)) * 2 ^ (max 9 mx - ?l)" unfolding power_add by simp
  finally have "sym_code cs i < 512 * 2 ^ (?l - 9)" by simp
  then show "sym_code cs i div 2 ^ (?l - 9) < 512" by (rule less_mult_imp_div_less)
qed

lemma split_interval:
  assumes d: "(d :: nat) = e * s" and sf: "sf < e"
  shows "(x \<in> {(p * e + sf) * s ..< (p * e + sf + 1) * s}) \<longleftrightarrow> x div d = p \<and> sf * s \<le> x mod d \<and> x mod d < sf * s + s"
proof -
  have "0 < e" using sf by simp
  show ?thesis
  proof (cases "s = 0")
    case False
    then have "0 < d" using d \<open>0 < e\<close> by simp
    have "(sf + 1) * s \<le> e * s" using sf by (intro mult_le_mono1) simp
    then have le: "sf * s + s \<le> d" using d by simp
    have dist: "(p * e + sf) * s = p * d + sf * s" "(p * e + sf + 1) * s = p * d + (sf * s + s)"
      by (simp_all add: d algebra_simps)
    have xq: "x = x div d * d + x mod d" by (rule div_mult_mod_eq [symmetric])
    show ?thesis
    proof
      assume "x \<in> {(p * e + sf) * s ..< (p * e + sf + 1) * s}"
      then have a: "p * d + sf * s \<le> x" "x < p * d + (sf * s + s)" unfolding dist by auto
      define y where "y = x - p * d"
      have "x = p * d + y" "y < d" "sf * s \<le> y" "y < sf * s + s" using a le by (auto simp: y_def)
      then show "x div d = p \<and> sf * s \<le> x mod d \<and> x mod d < sf * s + s" by simp
    next
      assume "x div d = p \<and> sf * s \<le> x mod d \<and> x mod d < sf * s + s"
      with xq show "x \<in> {(p * e + sf) * s ..< (p * e + sf + 1) * s}" unfolding dist by auto
    qed
  qed auto
qed

lemma fill_long:
  assumes c: "complete cs mx core" and ok: "table_ok mx core h"
    and i: "i < length cs" "9 < code_len cs i"
  defines "p \<equiv> sym_code cs i div 2 ^ (code_len cs i - 9)"
    and "sf \<equiv> sym_code cs i mod 2 ^ (code_len cs i - 9)"
  shows "\<exists>xs. store (extra h ! (p - core)) (sf * 2 ^ (mx - code_len cs i)) (2 ^ (mx - code_len cs i)) (sym_val cs i) = Ok xs \<and>
    table_ok mx core (h\<lparr>extra := (extra h)[p - core := xs]\<rparr>) \<and>
    (\<forall>x < 2 ^ max 9 mx. x \<in> cell cs (max 9 mx) i \<or> settled mx core h x \<longrightarrow>
       settled mx core (h\<lparr>extra := (extra h)[p - core := xs]\<rparr>) x \<and>
       entry mx (h\<lparr>extra := (extra h)[p - core := xs]\<rparr>) x =
         (if x \<in> cell cs (max 9 mx) i then sym_val cs i else entry mx h x))"
proof -
  let ?l = "code_len cs i" and ?v = "sym_val cs i"
  let ?e = "(2 :: nat) ^ (?l - 9)" and ?s = "(2 :: nat) ^ (mx - ?l)" and ?d = "(2 :: nat) ^ (mx - 9)"
  have p: "core \<le> p" "p < 512" using long_code_prefix [OF c i] by (simp_all add: p_def)
  have mx: "9 < mx" "?l \<le> mx" using i completeD(2) [OF c i(1)] by auto
  have d: "?d = ?e * ?s" using pow_split [of 9 ?l mx] i(2) mx by simp
  note ix = extra_index [OF ok mx(1) p]
  have len: "length (extra h ! (p - core)) = ?d" using ok mx ix(2) by (simp add: table_ok_def)
  have sf: "sf < ?e" by (simp add: sf_def)
  then have "(sf + 1) * ?s \<le> ?e * ?s" by (intro mult_le_mono1) simp
  then have "sf * ?s + ?s \<le> length (extra h ! (p - core))" by (simp add: len d)
  from store_Ok [OF this, of ?v] obtain xs where t: "store (extra h ! (p - core)) (sf * ?s) ?s ?v = Ok xs" "length xs = ?d"
    "\<And>k. k < ?d \<Longrightarrow> xs ! k = (if sf * ?s \<le> k \<and> k < sf * ?s + ?s then ?v else extra h ! (p - core) ! k)"
    using len by auto
  let ?h = "h\<lparr>extra := (extra h)[p - core := xs]\<rparr>"
  have tok: "table_ok mx core ?h"
    using ok t(2) set_update_subset_insert [of "extra h" "p - core" xs] by (auto simp: table_ok_def)
  have code: "sym_code cs i = p * ?e + sf" unfolding p_def sf_def by (rule div_mult_mod_eq [symmetric])
  have "settled mx core ?h x \<and> entry mx ?h x = (if x \<in> cell cs (max 9 mx) i then ?v else entry mx h x)"
    if x: "x < 2 ^ max 9 mx" and st: "x \<in> cell cs (max 9 mx) i \<or> settled mx core h x" for x
  proof -
    let ?q = "x div ?d" and ?r = "x mod ?d"
    have xd: "?q < 512"
      using x mx(1) power_add [of "2 :: nat" 9 "mx - 9"] by (simp add: less_mult_imp_div_less max_def mult.commute)
    have r: "?r < ?d" by simp
    have cellx: "x \<in> cell cs (max 9 mx) i \<longleftrightarrow> ?q = p \<and> sf * ?s \<le> ?r \<and> ?r < sf * ?s + ?s"
      using split_interval [OF d sf, of x p] mx(1) unfolding cell_def code by (simp only: max_absorb2 less_imp_le)
    show ?thesis
    proof (cases "?q = p")
      case True
      have "\<not> 512 \<le> p - core" using p(2) by simp
      with True show ?thesis using ix t(3) [OF r] p mx(1) cellx by (simp add: entry_def settled_def Let_def)
    next
      case False
      then have "settled mx core h x" using st cellx by simp
      then have "core \<le> ?q \<or> 512 \<le> unat (table h ! ?q)" using mx(1) by (simp add: settled_def)
      moreover have "unat (table h ! ?q) \<noteq> p - core" if "core \<le> ?q"
        using extra_index(1) [OF ok mx(1) that xd] p(1) that False by simp
      ultimately show ?thesis using mx(1) cellx False by (auto simp: entry_def settled_def Let_def)
    qed
  qed
  with t(1) tok show ?thesis by blast
qed

section \<open>All codes\<close>

text \<open>The tables after the symbols below \<open>i\<close> are in.\<close>

definition filled :: "bytes \<Rightarrow> nat \<Rightarrow> nat \<Rightarrow> nat \<Rightarrow> huffman \<Rightarrow> bool" where
  "filled cs mx core i h \<longleftrightarrow>
     table_ok mx core h \<and>
     (\<forall>j < i. 0 < code_len cs j \<longrightarrow>
        (\<forall>x \<in> cell cs (max 9 mx) j. settled mx core h x \<and> entry mx h x = sym_val cs j))"

lemma filled_step:
  assumes c: "complete cs mx core" and f: "filled cs mx core i h" and i: "i < length cs" "0 < code_len cs i"
    and ok: "table_ok mx core h'"
    and upd: "\<forall>x < 2 ^ max 9 mx. x \<in> cell cs (max 9 mx) i \<or> settled mx core h x \<longrightarrow>
       settled mx core h' x \<and> entry mx h' x = (if x \<in> cell cs (max 9 mx) i then sym_val cs i else entry mx h x)"
  shows "filled cs mx core (Suc i) h'"
proof -
  have "settled mx core h' x \<and> entry mx h' x = sym_val cs j"
    if j: "j < Suc i" "0 < code_len cs j" and x: "x \<in> cell cs (max 9 mx) j" for j x
  proof -
    have lt: "x < 2 ^ max 9 mx" using completeD(4) [OF c _ j(2) x] j(1) i(1) by simp
    show ?thesis
    proof (cases "x \<in> cell cs (max 9 mx) i")
      case True
      then have "i = j"
        using cells_disjoint [OF i _ True _ j(2) _ x] completeD(2) [OF c] i(1) j(1) by simp
      then show ?thesis using upd lt True by simp
    next
      case False
      then have "j < i" using j(1) x by (metis less_antisym)
      then show ?thesis using upd lt False f j(2) x by (simp add: filled_def)
    qed
  qed
  with ok show ?thesis by (simp add: filled_def)
qed

lemma fill_codes_correct:
  assumes c: "complete cs mx core"
  shows "ls = drop i cs \<Longrightarrow> i \<le> length cs \<Longrightarrow> filled cs mx core i h \<Longrightarrow>
    (\<And>n. 0 < n \<Longrightarrow> nxt n = first_code cs n + code_count (take i cs) n) \<Longrightarrow>
    \<exists>h'. fill_codes mx i ls nxt h = Ok h' \<and> filled cs mx core (length cs) h'"
proof (induction ls arbitrary: i nxt h)
  case Nil
  then show ?case by auto
next
  case (Cons l ls)
  have i: "i < length cs" using Cons.prems(1) by (metis drop_all list.distinct(1) not_le_imp_less)
  have l: "unat l = code_len cs i" and ls: "ls = drop (Suc i) cs"
    using Cons.prems(1) i by (auto simp: code_len_def Cons_nth_drop_Suc [symmetric])
  have ok: "table_ok mx core h" using Cons.prems(3) by (simp add: filled_def)
  show ?case
  proof (cases "l = 0")
    case True
    then have z: "code_len cs i = 0" using l by simp
    have "filled cs mx core (Suc i) h"
      using Cons.prems(3) z by (auto simp: filled_def less_Suc_eq)
    moreover have "nxt n = first_code cs n + code_count (take (Suc i) cs) n" if "0 < n" for n
      using Cons.prems(4) [OF that] that z by (simp add: code_count_take_Suc [OF i])
    ultimately show ?thesis using Cons.IH [OF ls] i True by simp
  next
    case False
    then have pos: "0 < code_len cs i" using l by (metis gr0I unat_eq_zero)
    let ?n = "nxt(code_len cs i := sym_code cs i + 1)"
    have code: "nxt (code_len cs i) = sym_code cs i" using Cons.prems(4) [OF pos] by (simp add: l sym_code_def)
    have nxt: "?n n = first_code cs n + code_count (take (Suc i) cs) n" if "0 < n" for n
      using Cons.prems(4) [OF that] code Cons.prems(4) [OF pos] by (simp add: code_count_take_Suc [OF i])
    have v: "push_bit lenshift (of_nat (unat l)) OR of_nat i = sym_val cs i" by (simp add: sym_val_def l)
    show ?thesis
    proof (cases "code_len cs i \<le> 9")
      case True
      from fill_short [OF c ok i pos True] obtain t where
        t: "store (table h) (sym_code cs i * 2 ^ (9 - code_len cs i)) (2 ^ (9 - code_len cs i)) (sym_val cs i) = Ok t"
        and f: "filled cs mx core (Suc i) (h\<lparr>table := t\<rparr>)"
        using filled_step [OF c Cons.prems(3) i pos] by meson
      have "\<exists>h'. fill_codes mx (Suc i) ls ?n (h\<lparr>table := t\<rparr>) = Ok h' \<and> filled cs mx core (length cs) h'"
        by (rule Cons.IH [OF ls _ f]) (use i nxt in simp_all)
      then show ?thesis using True False t v by (simp add: Let_def code l tablebits_def)
    next
      case False
      from fill_long [OF c ok i] obtain xs where
        t: "store (extra h ! (sym_code cs i div 2 ^ (code_len cs i - 9) - core)) (sym_code cs i mod 2 ^ (code_len cs i - 9) * 2 ^ (mx - code_len cs i)) (2 ^ (mx - code_len cs i)) (sym_val cs i) = Ok xs"
        and f: "filled cs mx core (Suc i) (h\<lparr>extra := (extra h)[sym_code cs i div 2 ^ (code_len cs i - 9) - core := xs]\<rparr>)"
        using filled_step [OF c Cons.prems(3) i pos] False by (meson not_le)
      have mx: "9 < mx" using False completeD(2) [OF c i] by simp
      have len: "length (table h) = 512" using ok by (simp add: table_ok_def)
      note p = long_code_prefix [OF c i] False
      note ix = extra_index [OF ok mx p(1,2)]
      have "\<exists>h'. fill_codes mx (Suc i) ls ?n (h\<lparr>extra := (extra h)[sym_code cs i div 2 ^ (code_len cs i - 9) - core := xs]\<rparr>) = Ok h' \<and>
          filled cs mx core (length cs) h'"
        by (rule Cons.IH [OF ls _ f]) (use i nxt in simp_all)
      then show ?thesis using False \<open>l \<noteq> 0\<close> t v ix p len
        by (simp add: Let_def code l tablebits_def index_def)
    qed
  qed
qed

section \<open>Building and looking up\<close>

lemma max_len_ge: "i < length cs \<Longrightarrow> code_len cs i \<le> max_len cs"
proof (induction cs rule: rev_induct)
  case (snoc c cs)
  then show ?case by (auto simp: max_len_def code_len_def nth_append less_Suc_eq le_max_iff_disj)
qed simp

lemma max_len_le: "(\<And>c. c \<in> set cs \<Longrightarrow> unat c \<le> m) \<Longrightarrow> max_len cs \<le> m"
  by (induction cs rule: rev_induct) (auto simp: max_len_def)

text \<open>The bits that \<^verbatim>\<open>getCode\<close> takes for the first and the second table.\<close>

lemma first_bits: "unat (drop_bit (32 - tablebits) (w :: u32)) = unat w div 2 ^ 23"
  by (simp add: drop_bit_eq_div tablebits_def unat_div)

lemma further_bits:
  assumes "9 < mx" and "mx \<le> 16"
  shows "unat (drop_bit (32 - (mx - tablebits)) (push_bit tablebits (w :: u32))) =
    unat w div 2 ^ (32 - mx) mod 2 ^ (mx - 9)"
proof -
  have "unat (drop_bit (32 - (mx - 9)) (push_bit 9 w)) = drop_bit (32 - (mx - 9)) (take_bit 32 (push_bit 9 (unat w)))"
    by (simp add: unat_drop_bit_eq unsigned_push_bit_eq)
  also have "\<dots> = drop_bit (32 - mx) (take_bit 23 (unat w))"
    using assms by (simp add: take_bit_push_bit drop_bit_push_bit)
  also have "\<dots> = take_bit (mx - 9) (drop_bit (32 - mx) (unat w))"
    using assms by (simp add: drop_bit_take_bit)
  finally show ?thesis by (simp add: take_bit_eq_mod drop_bit_eq_div tablebits_def)
qed

lemma lookup_code_entry:
  assumes ok: "table_ok mx core h" and mx: "mx \<le> 16"
    and x: "x = unat w div 2 ^ (32 - max 9 mx)"
    and st: "settled mx core h x" and v: "512 \<le> unat (entry mx h x)"
  shows "lookup_code h w = Ok (entry mx h x)"
proof -
  have q: "unat w div 2 ^ 23 < 512" using unsigned_less [of w, where 'a = nat] by (simp add: less_mult_imp_div_less)
  have len: "length (table h) = 512" and mb: "maxbits h = mx" using ok by (auto simp: table_ok_def)
  show ?thesis
  proof (cases "9 < mx")
    case False
    then have "max 9 mx = 9" by simp
    then show ?thesis using x v q len False by (simp add: lookup_code_def first_bits entry_def lenshift_def)
  next
    case True
    have "(2 :: nat) ^ 23 = 2 ^ (32 - mx) * 2 ^ (mx - 9)" using True mx by (simp add: power_add [symmetric])
    then have d: "x div 2 ^ (mx - 9) = unat w div 2 ^ 23" using True x by (simp only: div_mult2_eq max_absorb2 less_imp_le)
    show ?thesis
    proof (cases "512 \<le> unat (table h ! (unat w div 2 ^ 23))")
      case True
      then show ?thesis using d q len \<open>9 < mx\<close> by (simp add: lookup_code_def first_bits entry_def lenshift_def)
    next
      case False
      then have c: "core \<le> unat w div 2 ^ 23" using st d True by (simp add: settled_def)
      note ix = extra_index [OF ok True c q]
      have r: "length (extra h ! (unat w div 2 ^ 23 - core)) = 2 ^ (mx - 9)"
        using ok True ix(2) by (simp add: table_ok_def)
      show ?thesis
        using d q len True mx False ix r x
        by (simp add: lookup_code_def first_bits further_bits entry_def lenshift_def mb)
    qed
  qed
qed

text \<open>
  The Kraft sum of the code lengths, in units of \<open>2 ^ -16\<close>; it is \<open>2 ^ 16\<close> for a complete
  prefix code.
\<close>

definition kraft :: "bytes \<Rightarrow> nat" where
  "kraft cs = (\<Sum>c \<leftarrow> filter (\<lambda>c. c \<noteq> 0) cs. 2 ^ (16 - unat c))"

lemma code_end_Nil: "code_end [] n = 0"
  by (induction n) (simp_all add: code_count_def)

lemma code_count_Cons: "code_count (c # cs) n = (if unat c = n then 1 else 0) + code_count cs n"
  by (simp add: code_count_def)

lemma code_end_Cons:
  "code_end (c # cs) n = (if c \<noteq> 0 \<and> unat c \<le> n then 2 ^ (n - unat c) else 0) + code_end cs n"
proof (induction n)
  case 0
  then show ?case by (auto simp: unat_eq_zero)
next
  case (Suc n)
  have "(2 :: nat) ^ (Suc n - unat c) = 2 * 2 ^ (n - unat c)" if "unat c \<le> n"
    using that by (simp add: Suc_diff_le)
  then show ?case using Suc by (auto simp: code_count_Cons le_Suc_eq)
qed

lemma code_end_kraft: "\<forall>c \<in> set cs. unat c \<le> 16 \<Longrightarrow> code_end cs 16 = kraft cs"
  by (induction cs) (simp_all add: code_end_Nil code_end_Cons kraft_def)

lemma code_end_above:
  assumes "\<And>i. i < length cs \<Longrightarrow> code_len cs i \<le> m" and "m \<le> n"
  shows "code_end cs n = code_end cs m * 2 ^ (n - m)"
  using assms(2)
proof (induction n)
  case (Suc n)
  show ?case
  proof (cases "m = Suc n")
    case False
    have "code_count cs (Suc n) = 0"
      using assms(1) Suc.prems False by (fastforce simp: code_count_def filter_empty_conv in_set_conv_nth code_len_def)
    moreover have "(2 :: nat) ^ (Suc n - m) = 2 * 2 ^ (n - m)" using Suc.prems False by (simp add: Suc_diff_le)
    ultimately show ?thesis using Suc False by simp
  qed simp
qed simp

lemma kraft_complete:
  assumes "\<forall>c \<in> set cs. unat c \<le> 16"
  shows "code_end cs (max_len cs) = 2 ^ max_len cs \<longleftrightarrow> kraft cs = 2 ^ 16"
proof -
  have m: "max_len cs \<le> 16" by (rule max_len_le) (use assms in simp)
  have "kraft cs = code_end cs (max_len cs) * 2 ^ (16 - max_len cs)"
    using code_end_above [OF max_len_ge m] code_end_kraft [OF assms] by simp
  moreover have "(2 :: nat) ^ 16 = 2 ^ max_len cs * 2 ^ (16 - max_len cs)"
    using m by (simp only: power_add [symmetric] le_add_diff_inverse)
  ultimately show ?thesis by (metis mult_right_cancel power_not_zero zero_neq_numeral)
qed

lemma div_nat_interval: "0 < (d :: nat) \<Longrightarrow> x div d = c \<longleftrightarrow> c * d \<le> x \<and> x < (c + 1) * d"
  using less_eq_div_iff_mult_less_eq [of d c x] div_less_iff_less_mult [of d x "c + 1"] by linarith

lemma in_cell_iff:
  assumes "code_len cs i \<le> R" and "R \<le> 32"
  shows "unat (w :: u32) div 2 ^ (32 - R) \<in> cell cs R i \<longleftrightarrow> unat w div 2 ^ (32 - code_len cs i) = sym_code cs i"
proof -
  have "(2 :: nat) ^ (32 - code_len cs i) = 2 ^ (32 - R) * 2 ^ (R - code_len cs i)"
    using assms by (simp only: power_add [symmetric]) simp
  then have "unat w div 2 ^ (32 - code_len cs i) = unat w div 2 ^ (32 - R) div 2 ^ (R - code_len cs i)"
    by (simp only: div_mult2_eq)
  then show ?thesis
    using div_nat_interval [of "2 ^ (R - code_len cs i)" "unat w div 2 ^ (32 - R)" "sym_code cs i"] by (simp add: cell_def)
qed

text \<open>Word \<open>w\<close> starts with the canonical code of symbol \<open>i\<close>.\<close>

definition starts_with_code :: "bytes \<Rightarrow> nat \<Rightarrow> u32 \<Rightarrow> bool" where
  "starts_with_code cs i w \<longleftrightarrow>
     i < length cs \<and> 0 < code_len cs i \<and> unat w div 2 ^ (32 - code_len cs i) = sym_code cs i"

lemma one_code:
  assumes c: "complete cs mx core"
  shows "\<exists>!i. starts_with_code cs i w"
proof -
  let ?R = "max 9 mx" and ?x = "unat w div 2 ^ (32 - max 9 mx)"
  have R: "?R \<le> 32" "mx \<le> ?R" using c by (auto simp: complete_def)
  have cell: "i < length cs \<Longrightarrow> ?x \<in> cell cs ?R i \<longleftrightarrow> unat w div 2 ^ (32 - code_len cs i) = sym_code cs i" for i
    using in_cell_iff [of cs i ?R w] completeD(2) [OF c] R(1) by simp
  have "(2 :: nat) ^ 32 = 2 ^ ?R * 2 ^ (32 - ?R)" using R(1) by (simp only: power_add [symmetric]) simp
  then have "?x < 2 ^ ?R" using unsigned_less [of w, where 'a = nat] by (intro less_mult_imp_div_less) simp
  then obtain i where i: "i < length cs" "0 < code_len cs i" "?x \<in> cell cs ?R i"
    using cells_cover [of ?x cs ?R mx] completeD(1) [OF c] R(2) by auto
  show ?thesis
  proof (rule ex1I [of _ i])
    show "starts_with_code cs i w" using i cell by (simp add: starts_with_code_def)
  next
    fix j
    assume "starts_with_code cs j w"
    then have "j < length cs" "0 < code_len cs j" "?x \<in> cell cs ?R j" using cell by (auto simp: starts_with_code_def)
    then show "j = i" using cells_disjoint [OF _ _ _ _ i(1,2) _ i(3)] completeD(2) [OF c] i(1) by simp
  qed
qed

lemma buildTable_complete:
  assumes le: "\<forall>c \<in> set cs. unat c \<le> 16" and len: "length cs \<le> 512" and nz: "\<exists>c \<in> set cs. c \<noteq> 0"
    and k: "kraft cs = 2 ^ 16"
  obtains h mx core where "buildTable cs = Ok (Some h)" and "complete cs mx core"
    and "filled cs mx core (length cs) h" and "0 < maxbits h"
proof -
  let ?mx = "max_len cs" and ?core = "code_end cs 9"
  obtain i where "i < length cs" "code_len cs i \<noteq> 0"
    using nz by (metis code_len_def in_set_conv_nth unat_eq_zero)
  then have pos: "0 < ?mx" using max_len_ge [of i cs] by simp
  have c: "complete cs ?mx ?core"
    using pos le len max_len_ge [of _ cs] kraft_complete [OF le] k max_len_le [of cs 16]
    by (simp add: complete_def)
  have core: "first_code cs (Suc tablebits) div 2 = ?core" by (simp add: first_code_def tablebits_def)
  have "table_ok ?mx ?core (start_huffman ?mx ?core)"
  proof (cases "9 < ?mx")
    case True
    then show ?thesis using completeD(3) [OF c] by (simp add: table_ok_start)
  next
    case False
    then show ?thesis by (simp add: table_ok_def start_huffman_def tablebits_def tablesize_def)
  qed
  then have "filled cs ?mx ?core 0 (start_huffman ?mx ?core)" by (simp add: filled_def)
  with fill_codes_correct [OF c, of cs 0 "start_huffman ?mx ?core" "first_code cs"]
  obtain h where h: "fill_codes ?mx 0 cs (first_code cs) (start_huffman ?mx ?core) = Ok h" "filled cs ?mx ?core (length cs) h"
    by (auto simp: code_count_def)
  have "\<not> list_ex (\<lambda>cl. maxTreePathLen < unat cl) cs" using le by (auto simp: list_ex_iff maxTreePathLen_def)
  then have "buildTable cs = Ok (Some h)"
    using h(1) pos c by (simp add: buildTable_def core complete_def Let_def)
  moreover have "0 < maxbits h" using h(2) pos by (simp add: filled_def table_ok_def)
  ultimately show ?thesis using that c h(2) by blast
qed

lemma buildTable_nil:
  assumes le: "\<forall>c \<in> set cs. unat c \<le> 16" and nz: "\<exists>c \<in> set cs. c \<noteq> 0" and k: "kraft cs \<noteq> 2 ^ 16"
  shows "buildTable cs = Ok None"
proof -
  have "\<not> list_ex (\<lambda>cl. maxTreePathLen < unat cl) cs" using le by (auto simp: list_ex_iff maxTreePathLen_def)
  moreover have "max_len cs \<noteq> 0"
    using nz max_len_ge [of _ cs] by (metis code_len_def in_set_conv_nth le_zero_eq unat_eq_zero)
  ultimately show ?thesis using k kraft_complete [OF le] by (simp add: buildTable_def Let_def)
qed

lemma filled_lookup:
  assumes c: "complete cs mx core" and f: "filled cs mx core (length cs) h" and i: "starts_with_code cs i w"
  shows "lookup_code h w = Ok (sym_val cs i)" and "code_len cs i \<le> 16" and "i < 512"
proof -
  let ?x = "unat w div 2 ^ (32 - max 9 mx)"
  have len: "i < length cs" "0 < code_len cs i" using i by (auto simp: starts_with_code_def)
  have mx: "mx \<le> 16" using c by (simp add: complete_def)
  show b: "code_len cs i \<le> 16" "i < 512" using c len completeD(2) [OF c len(1)] by (auto simp: complete_def)
  have "?x \<in> cell cs (max 9 mx) i"
    using i in_cell_iff [of cs i "max 9 mx" w] completeD(2) [OF c len(1)] mx by (simp add: starts_with_code_def)
  then have "settled mx core h ?x" and e: "entry mx h ?x = sym_val cs i"
    using f len by (auto simp: filled_def)
  moreover have "512 \<le> unat (sym_val cs i)" using sym_val_fields(1) [OF b] len(2) by simp
  ultimately show "lookup_code h w = Ok (sym_val cs i)"
    using lookup_code_entry [OF _ mx refl, of core h w] f by (simp add: filled_def)
qed

section \<open>The properties\<close>

text \<open>
  C31: \<^verbatim>\<open>buildTable\<close> accepts a set of code lengths exactly if its Kraft sum is one, it never
  panics, and the two-level table that it builds decodes the canonical code: whatever the next
  32 bits are, exactly one symbol's code starts them, and the lookup gives this symbol with its
  length. An incomplete or oversubscribed set gives nil.
\<close>

theorem buildTable_decodes:
  assumes "\<forall>c \<in> set codelens. unat c \<le> maxTreePathLen" and "length codelens \<le> 512" and "\<exists>c \<in> set codelens. c \<noteq> 0"
  shows "if kraft codelens = 2 ^ 16
    then \<exists>h. buildTable codelens = Ok (Some h) \<and>
      (\<forall>w. \<exists>!i. starts_with_code codelens i w) \<and>
      (\<forall>w i. starts_with_code codelens i w \<longrightarrow> lookup_code h w = Ok (sym_val codelens i))
    else buildTable codelens = Ok None"
proof -
  have le: "\<forall>c \<in> set codelens. unat c \<le> 16" using assms(1) by (simp add: maxTreePathLen_def)
  show ?thesis
  proof (cases "kraft codelens = 2 ^ 16")
    case True
    from buildTable_complete [OF le assms(2,3) True] obtain h mx core where
      "buildTable codelens = Ok (Some h)" "complete codelens mx core" "filled codelens mx core (length codelens) h" .
    with True one_code filled_lookup(1) show ?thesis by (metis (no_types, lifting))
  next
    case False
    then show ?thesis using buildTable_nil [OF le assms(3)] by simp
  qed
qed

theorem buildTable_decodes_witness:
  "if kraft [1, 2, 2] = 2 ^ 16
    then \<exists>h. buildTable [1, 2, 2] = Ok (Some h) \<and>
      (\<forall>w. \<exists>!i. starts_with_code [1, 2, 2] i w) \<and>
      (\<forall>w i. starts_with_code [1, 2, 2] i w \<longrightarrow> lookup_code h w = Ok (sym_val [1, 2, 2] i))
    else buildTable [1, 2, 2] = Ok None"
  by (rule buildTable_decodes) (simp_all add: maxTreePathLen_def)

text \<open>
  With 16 bits or more at hand, \<^verbatim>\<open>getCode\<close> on a table built from a complete set of code
  lengths returns the symbol whose canonical code comes next and consumes just the bits of that
  code; it does not fail and does not touch the input.
\<close>

theorem getCode_decodes:
  assumes "\<forall>c \<in> set codelens. unat c \<le> maxTreePathLen" and "length codelens \<le> 512"
    and "buildTable codelens = Ok (Some h)" and "\<exists>c \<in> set codelens. c \<noteq> 0"
    and "16 \<le> nbits f" and "starts_with_code codelens i (d_c f)"
  shows "getCode (Some h) f =
    Ok (of_nat i, f\<lparr>d_c := push_bit (code_len codelens i) (d_c f), nbits := nbits f - of_nat (code_len codelens i)\<rparr>)"
proof -
  have le: "\<forall>c \<in> set codelens. unat c \<le> 16" using assms(1) by (simp add: maxTreePathLen_def)
  have k: "kraft codelens = 2 ^ 16"
    using buildTable_nil [OF le assms(4)] assms(3) by fastforce
  from buildTable_complete [OF le assms(2,4) k] assms(3) obtain mx core where
    c: "complete codelens mx core" and f: "filled codelens mx core (length codelens) h" and mb: "0 < maxbits h"
    by (metis option.inject res.inject(1))
  note lk = filled_lookup [OF c f assms(6)]
  note v = sym_val_fields [OF lk(2,3)]
  define e where "e = sym_val codelens i"
  let ?n = "ucast (drop_bit lenshift e) :: byte"
  have "?n = of_nat (unat (drop_bit lenshift e))" by (rule of_nat_unat [symmetric])
  then have n: "?n = of_nat (code_len codelens i)" by (simp only: e_def v(2))
  have nu: "unat ?n = code_len codelens i" using lk(2) unfolding n by (simp add: unat_of_nat_eq_iff)
  have nle: "?n \<le> nbits f" using nu lk(2) assms(5) by (simp add: word_le_nat_alt)
  have em: "e AND codemask = of_nat i" unfolding e_def using v(3) by (metis of_nat_unat ucast_id)
  have nf: "\<not> unat (nbits f) < maxTreePathLen" using assms(5) by (simp add: word_le_nat_alt maxTreePathLen_def)
  have "getCode (Some h) f = bind_res (lookup_code h (d_c f)) (\<lambda>e.
      let n = ucast (drop_bit lenshift e) :: byte in
      if n \<le> nbits f then Ok (e AND codemask, f\<lparr>d_c := push_bit (unat n) (d_c f), nbits := nbits f - n\<rparr>)
      else Ok (0, fail ErrUnexpectedEOF f))"
    by (simp add: getCode_def bind_m_def mb nf)
  also have "\<dots> = Ok (e AND codemask, f\<lparr>d_c := push_bit (unat ?n) (d_c f), nbits := nbits f - ?n\<rparr>)"
    unfolding lk(1) [folded e_def] by (simp only: Let_def nle if_True bind_res_simps)
  also have "\<dots> = Ok (of_nat i, f\<lparr>d_c := push_bit (code_len codelens i) (d_c f), nbits := nbits f - of_nat (code_len codelens i)\<rparr>)"
    unfolding em nu unfolding n ..
  finally show ?thesis .
qed

theorem getCode_decodes_witness:
  "\<exists>h f. buildTable [1, 2, 2] = Ok (Some h) \<and> d_c f = 0x80000000 \<and> getCode (Some h) f = Ok (1, f\<lparr>d_c := 0, nbits := 14\<rparr>)"
proof -
  define f where "f = \<lparr>d_r = [], d_err = None, unaligned = False, nbits = 16, d_c = 0x80000000, lru = [1, 1, 1],
    uncompressed = 1, windowReader = None, mainlens = [], lenlens = [], window = [], d_b = [], bv = 0, bo = 0\<rparr>"
  have k: "kraft [1, 2, 2] = 2 ^ 16" by (simp add: kraft_def)
  from buildTable_complete [OF _ _ _ k] obtain h where h: "buildTable [1, 2, 2] = Ok (Some h)" by auto
  have l: "code_len [1, 2, 2] (Suc 0) = 2" by (simp add: code_len_def)
  have "starts_with_code [1, 2, 2] 1 (d_c f)"
    by (simp add: starts_with_code_def l sym_code_def first_code_def code_count_def f_def)
  from getCode_decodes [OF _ _ h _ _ this] have "getCode (Some h) f = Ok (1, f\<lparr>d_c := 0, nbits := 14\<rparr>)"
    by (simp add: maxTreePathLen_def f_def l)
  then show ?thesis using h by (intro exI [of _ h] exI [of _ f]) (simp add: f_def)
qed

end
