(* ===== verification/Lzx_Terminates.thy ===== *)
theory Lzx_Terminates
  imports Lzx
begin

text \<open>
  The decompressor returns on every input: a block that it accepts takes bits from the input.
\<close>

section \<open>The bits left\<close>

text \<open>
  The bits that the decompressor has still to read, and the state of its buffer: it is empty
  after an error.
\<close>

definition avail :: "decompressor \<Rightarrow> nat" where
  "avail f = unat (nbits f) + 8 * (bv f - bo f) + 8 * length (d_r f)"

definition good :: "decompressor \<Rightarrow> bool" where
  "good f \<longleftrightarrow>
     length (d_b f) = 4096 \<and>
     (if d_err f = None then unat (nbits f) \<le> 31 \<and> bo f \<le> bv f \<and> bv f \<le> 4096 else bv f \<le> bo f)"

definition sound_at :: "'a decomp \<Rightarrow> decompressor \<Rightarrow> bool" where
  "sound_at m f \<longleftrightarrow>
     (good f \<longrightarrow> (\<forall>x f'. m f = Ok (x, f') \<longrightarrow>
        good f' \<and> (d_err f' = None \<longrightarrow> d_err f = None \<and> avail f' \<le> avail f)))"

definition sound :: "'a decomp \<Rightarrow> bool" where
  "sound m \<longleftrightarrow> (\<forall>f. sound_at m f)"

definition same :: "decompressor \<Rightarrow> decompressor \<Rightarrow> bool" where
  "same f g \<longleftrightarrow> d_err g = d_err f \<and> nbits g = nbits f \<and> bo g = bo f \<and> bv g = bv f \<and> d_b g = d_b f \<and> d_r g = d_r f"

lemma soundD: "sound m \<Longrightarrow> sound_at m f"
  by (simp add: sound_def)

lemma soundI: "(\<And>f. sound_at m f) \<Longrightarrow> sound m"
  by (simp add: sound_def)

lemma sound_atD:
  assumes "sound_at m f" and "good f" and "m f = Ok (x, f')"
  shows "good f'" and "d_err f' = None \<Longrightarrow> d_err f = None" and "d_err f' = None \<Longrightarrow> avail f' \<le> avail f"
  using assms by (auto simp: sound_at_def)

lemma sound_at_bind [intro]:
  assumes "sound_at m f" and "\<And>x f'. m f = Ok (x, f') \<Longrightarrow> sound_at (k x) f'"
  shows "sound_at (bind_m m k) f"
  unfolding sound_at_def bind_m_def
proof (intro impI allI)
  fix y f''
  assume g: "good f" and "bind_res (m f) (\<lambda>(x, f'). k x f') = Ok (y, f'')"
  then obtain x f' where m: "m f = Ok (x, f')" and k: "k x f' = Ok (y, f'')" by (auto simp: bind_res_Ok_iff)
  note a = sound_atD [OF assms(1) g m]
  note b = sound_atD [OF assms(2) [OF m] a(1) k]
  show "good f'' \<and> (d_err f'' = None \<longrightarrow> d_err f = None \<and> avail f'' \<le> avail f)"
    using a b by (meson order_trans)
qed

lemma sound_bind [intro]: "sound m \<Longrightarrow> (\<And>x. sound (k x)) \<Longrightarrow> sound (bind_m m k)"
  by (auto simp: sound_def)

lemma sound_at_Ok: "m f = Ok (x, g) \<Longrightarrow> same f g \<Longrightarrow> sound_at m f"
  by (auto simp: sound_at_def same_def good_def avail_def)

lemma sound_ret [intro]: "sound (ret x)"
  by (auto simp: sound_def same_def ret_def intro: sound_at_Ok)

lemma sound_lift [intro]: "sound (lift r)"
  by (cases r) (auto simp: sound_def sound_at_def lift_def)

lemma good_fail: "good f \<Longrightarrow> good (fail e f)"
  by (auto simp: good_def fail_def)

lemma sound_fail [intro]: "sound (fail_m e)"
  by (auto simp: sound_def sound_at_def fail_m_def good_def fail_def split: if_splits)

lemma sound_at_fail: "m f = Ok (x, fail e f) \<Longrightarrow> sound_at m f"
  by (auto simp: sound_at_def good_def fail_def split: if_splits)

text \<open>The same of a result in a state; conditionals split, and binds compose.\<close>

definition sound_val :: "decompressor \<Rightarrow> ('a \<times> decompressor) res \<Rightarrow> bool" where
  "sound_val f r \<longleftrightarrow> sound_at (\<lambda>_. r) f"

lemma sound_at_val: "sound_at m f \<longleftrightarrow> sound_val f (m f)"
  by (simp add: sound_val_def sound_at_def)

lemma sound_val_method: "sound m \<Longrightarrow> sound_val f (m f)"
  by (simp add: sound_def sound_at_val)

lemma sound_val_Ok: "same f g \<Longrightarrow> sound_val f (Ok (x, g))"
  by (auto simp: sound_val_def intro: sound_at_Ok)

lemma sound_val_Panic: "sound_val f (Panic p)" and sound_val_fail: "sound_val f (Ok (x, fail e f))"
  by (auto simp: sound_val_def sound_at_def good_def fail_def split: if_splits)

lemma sound_val_bind: "sound_val f (m f) \<Longrightarrow> (\<And>x f'. sound_val f' (k x f')) \<Longrightarrow> sound_val f (bind_m m k f)"
  using sound_at_bind [of m f k] by (simp add: sound_at_val)

lemma sound_val_bind_res: "(\<And>x. r = Ok x \<Longrightarrow> sound_val f (k x)) \<Longrightarrow> (\<And>e. r \<noteq> Err e) \<Longrightarrow> sound_val f (bind_res r k)"
  by (cases r) (auto simp: sound_val_Panic)

lemma sound_valI: "(\<And>f. sound_val f (m f)) \<Longrightarrow> sound m"
  by (simp add: sound_def sound_at_val)

lemma same_simps [simp]:
  "same f f" "same f (f\<lparr>lru := l\<rparr>)" "same f (f\<lparr>window := w\<rparr>)" "same f (f\<lparr>mainlens := m\<rparr>)" "same f (f\<lparr>lenlens := m\<rparr>)"
  by (simp_all add: same_def)

lemma sound_val_if: "(P \<Longrightarrow> sound_val f a) \<Longrightarrow> (\<not> P \<Longrightarrow> sound_val f b) \<Longrightarrow> sound_val f (if P then a else b)"
  by simp

lemma sound_val_app_if:
  "(P \<Longrightarrow> sound_val f (a f)) \<Longrightarrow> (\<not> P \<Longrightarrow> sound_val f (b f)) \<Longrightarrow> sound_val f ((if P then a else b) f)"
  by simp

lemma same_good: "same f g \<Longrightarrow> good g = good f \<and> avail g = avail f \<and> d_err g = d_err f"
  by (simp add: same_def good_def avail_def)

lemma sound_val_same: "same f g \<Longrightarrow> sound_val g r \<Longrightarrow> sound_val f r"
  by (drule same_good) (simp add: sound_val_def sound_at_def)

lemma sound_val_lens:
  "sound_val (f\<lparr>mainlens := m\<rparr>) (bind_m a k (f\<lparr>mainlens := m\<rparr>)) \<Longrightarrow> sound_val f (bind_m a k (f\<lparr>mainlens := m\<rparr>))"
  "sound_val (f\<lparr>lenlens := m\<rparr>) (bind_m a j (f\<lparr>lenlens := m\<rparr>)) \<Longrightarrow> sound_val f (bind_m a j (f\<lparr>lenlens := m\<rparr>))"
  by (erule sound_val_same [OF same_simps(4)]) (erule sound_val_same [OF same_simps(5)])

lemmas sound_rules = sound_val_bind sound_val_Ok sound_val_Panic sound_val_fail
  sound_val_method [OF sound_ret] sound_val_method [OF sound_lift] sound_val_method [OF sound_fail]

section \<open>The bit reader\<close>

lemma ensureAtLeast_states:
  assumes "good f" and "0 < n" and e: "ensureAtLeast n f = Ok (err, f')"
  shows "err = None \<and> f' = f \<and> d_err f = None \<and> n \<le> bv f - bo f \<or>
    err \<noteq> None \<and> f' = f \<and> err = d_err f \<or>
    err = None \<and> d_err f = None \<and> d_err f' = None \<and> nbits f' = nbits f \<and> bo f' = 0 \<and> length (d_b f') = 4096 \<and>
      n \<le> bv f' \<and> bv f' \<le> 4096 \<and> bv f' + length (d_r f') = bv f - bo f + length (d_r f) \<or>
    err = Some ErrUnexpectedEOF \<and> d_err f = None \<and> d_err f' = None \<and> nbits f' = nbits f \<and> bo f' = bo f \<and> bv f' = bv f \<and>
      length (d_b f') = 4096 \<and> d_r f' = d_r f \<or>
    err = Some ErrUnexpectedEOF \<and> d_err f' = Some ErrUnexpectedEOF \<and> bo f' = 0 \<and> bv f' = 0 \<and> length (d_b f') = 4096"
proof -
  consider "n \<le> bv f - bo f" | "\<not> n \<le> bv f - bo f" "d_err f \<noteq> None" | "\<not> n \<le> bv f - bo f" "d_err f = None" by blast
  then show ?thesis
  proof cases
    case 1
    then show ?thesis using e assms(1,2) by (auto simp: ensureAtLeast_def good_def split: if_splits)
  next
    case 2
    then show ?thesis using e by (auto simp: ensureAtLeast_def)
  next
    case 3
    define k got where "k = bv f - bo f" and "got = take (4096 - k) (d_r f)"
    define moved where "moved = take k (drop (bo f) (d_b f)) @ drop k (d_b f)"
    define f1 where "f1 = f\<lparr>d_b := take k moved @ got @ drop (k + length got) moved, d_r := drop (length got) (d_r f)\<rparr>"
    have g: "length (d_b f) = 4096" "bo f \<le> bv f" "bv f \<le> 4096" using assms(1) 3(2) by (auto simp: good_def)
    then have "k \<le> 4096" "length moved = 4096" by (auto simp: k_def moved_def)
    then have got: "length got \<le> 4096 - k" "length (d_b f1) = 4096" by (auto simp: got_def f1_def)
    have rest: "length got + length (d_r f1) = length (d_r f)" by (simp add: f1_def got_def)
    have keep: "d_err f1 = None" "nbits f1 = nbits f" "bo f1 = bo f" "bv f1 = bv f" using 3(2) by (simp_all add: f1_def)
    have eq: "ensureAtLeast n f = (if n \<le> length got then Ok (None, f1\<lparr>bv := k + length got, bo := 0\<rparr>)
           else if got = [] then Ok (Some ErrUnexpectedEOF, f1)
           else Ok (Some ErrUnexpectedEOF, fail ErrUnexpectedEOF f1))"
      using 3 unfolding ensureAtLeast_def Let_def f1_def got_def moved_def k_def g(1) by simp
    consider "n \<le> length got" | "\<not> n \<le> length got" "got = []" | "\<not> n \<le> length got" "got \<noteq> []" by blast
    then show ?thesis
    proof cases
      case 1
      then have "err = None" "f' = f1\<lparr>bv := k + length got, bo := 0\<rparr>" using e eq by simp_all
      moreover have "k + length got \<le> 4096" using got(1) \<open>k \<le> 4096\<close> by simp
      ultimately show ?thesis using 1 3(2) keep got rest by (simp add: k_def)
    next
      case 2
      then have "err = Some ErrUnexpectedEOF" "f' = f1" using e eq by simp_all
      moreover have "d_r f1 = d_r f" using 2 by (simp add: f1_def)
      ultimately show ?thesis using 3(2) keep got by simp
    next
      case 3
      then have "err = Some ErrUnexpectedEOF" "f' = fail ErrUnexpectedEOF f1" using e eq by simp_all
      then show ?thesis using keep got by (simp add: fail_def)
    qed
  qed
qed

lemma ensureAtLeast_cases:
  assumes "good f" and "0 < n" and "ensureAtLeast n f = Ok (err, f')"
  shows "good f'" and "d_err f' = None \<Longrightarrow> d_err f = None" and "d_err f' = None \<Longrightarrow> avail f' = avail f"
    and "d_err f' = None \<Longrightarrow> nbits f' = nbits f"
    and "err = None \<Longrightarrow> d_err f' = None" and "err = None \<Longrightarrow> n \<le> bv f' - bo f'"
    and "d_err f' = None \<Longrightarrow> err \<noteq> Some ErrUnexpectedEOF \<Longrightarrow> err = None"
proof -
  note st = ensureAtLeast_states [OF assms]
  show "good f'" using st assms(1) by (elim disjE conjE) (simp_all add: good_def)
  show "d_err f' = None \<Longrightarrow> d_err f = None" using st by auto
  show "d_err f' = None \<Longrightarrow> avail f' = avail f"
    using st by (elim disjE conjE) (simp_all add: avail_def algebra_simps flip: add_mult_distrib2)
  show "d_err f' = None \<Longrightarrow> nbits f' = nbits f" using st by auto
  show "err = None \<Longrightarrow> d_err f' = None" using st by auto
  show "err = None \<Longrightarrow> n \<le> bv f' - bo f'" using st by auto
  show "d_err f' = None \<Longrightarrow> err \<noteq> Some ErrUnexpectedEOF \<Longrightarrow> err = None" using st by auto
qed

lemma sound_ensureAtLeast:
  assumes "0 < n" shows "sound (ensureAtLeast n)"
  unfolding sound_def sound_at_def
proof (intro allI impI)
  fix f x f'
  assume *: "good f" "ensureAtLeast n f = Ok (x, f')"
  show "good f' \<and> (d_err f' = None \<longrightarrow> d_err f = None \<and> avail f' \<le> avail f)"
    using ensureAtLeast_cases(1-3) [OF *(1) assms *(2)] by auto
qed

lemma feed_cases:
  assumes g: "good f" and f: "feed f = Ok (ok, f')" and n: "d_err f = None \<Longrightarrow> unat (nbits f) < 16"
  shows "good f'" and "d_err f' = None \<Longrightarrow> d_err f = None \<and> avail f' = avail f \<and>
      unat (nbits f') = (if ok then unat (nbits f) + 16 else unat (nbits f))"
proof -
  obtain err f1 where e: "ensureAtLeast 2 f = Ok (err, f1)"
    and r: "(if err = Some ErrUnexpectedEOF then ret False
       else (\<lambda>f. bind_res (index (d_b f) (bo f + 1)) (\<lambda>hi. bind_res (index (d_b f) (bo f)) (\<lambda>lo.
         let w = push_bit 8 (ucast hi) OR ucast lo :: u32 in
         Ok (True, f\<lparr>d_c := d_c f OR push_bit (unat (16 - nbits f)) w, nbits := nbits f + 16, bo := bo f + 2\<rparr>))))) f1 = Ok (ok, f')"
    using f unfolding feed_def bind_m_def bind_res_Ok_iff by auto
  have "0 < (2 :: nat)" by simp
  note c = ensureAtLeast_cases [OF g this e]
  have w16: "unat (nbits f1 + 16) = unat (nbits f1) + 16" if "d_err f1 = None"
    using c(2,4) [OF that] n by (simp add: unat_word_ariths)
  have "good f' \<and> (d_err f' = None \<longrightarrow> d_err f = None \<and> avail f' = avail f \<and>
      unat (nbits f') = (if ok then unat (nbits f) + 16 else unat (nbits f)))"
  proof (cases "err = Some ErrUnexpectedEOF")
    case True
    then show ?thesis using r c(1,2,3,4) by (simp add: ret_def)
  next
    case False
    obtain w where f': "f' = f1\<lparr>d_c := w, nbits := nbits f1 + 16, bo := bo f1 + 2\<rparr>" and t: "ok"
      using r False by (auto simp: bind_res_Ok_iff Let_def)
    show ?thesis
    proof (cases "d_err f1 = None")
      case True
      then have "2 \<le> bv f1 - bo f1" using False c(6,7) by blast
      then obtain d where "bv f1 = bo f1 + 2 + d" by (metis add.commute add.left_commute diff_is_0_eq' le_add_diff_inverse nat_le_linear not_numeral_le_zero)
      with True show ?thesis using c(1,2,3,4) n w16 f' t by (simp add: good_def avail_def)
    next
      case False
      then obtain y where "d_err f1 = Some y" by auto
      with c(1) f' show ?thesis by (simp add: good_def)
    qed
  qed
  then show "good f'" "d_err f' = None \<Longrightarrow> d_err f = None \<and> avail f' = avail f \<and>
      unat (nbits f') = (if ok then unat (nbits f) + 16 else unat (nbits f))" by blast+
qed

lemma getBits_cases:
  assumes g: "good f" and n: "unat n \<le> 16" and f: "getBits n f = Ok (x, f')"
  shows "good f'" and "d_err f' = None \<Longrightarrow> d_err f = None \<and> avail f' + unat n = avail f"
proof -
  obtain f1 where m: "(if nbits f < n then bind_m feed (\<lambda>ok. if ok then ret () else fail_m ErrUnexpectedEOF) f else Ok ((), f)) = Ok ((), f1)"
    and f': "f' = f1\<lparr>d_c := push_bit (unat n) (d_c f1), nbits := nbits f1 - n\<rparr>"
    using f by (auto simp: getBits_def bind_m_def bind_res_Ok_iff)
  have *: "good f1 \<and> (d_err f1 = None \<longrightarrow> d_err f = None \<and> avail f1 = avail f \<and> n \<le> nbits f1)"
  proof (cases "nbits f < n")
    case False
    then show ?thesis using m g by (simp add: word_le_nat_alt word_less_nat_alt)
  next
    case True
    then have lt: "unat (nbits f) < 16" using n by (simp add: word_less_nat_alt)
    obtain ok f2 where f2: "feed f = Ok (ok, f2)" "(if ok then ret () else fail_m ErrUnexpectedEOF) f2 = Ok ((), f1)"
      using m True by (auto simp: bind_m_def bind_res_Ok_iff)
    note c = feed_cases [OF g f2(1)]
    show ?thesis
    proof (cases ok)
      case True
      then have "f1 = f2" using f2(2) by (simp add: ret_def)
      then show ?thesis using c lt n True by (auto simp: word_le_nat_alt)
    next
      case False
      then have "f1 = fail ErrUnexpectedEOF f2" using f2(2) by (simp add: fail_m_def)
      then show ?thesis using c(1) lt good_fail by (auto simp: fail_def split: if_splits)
    qed
  qed
  show "good f'"
    using * f' by (auto simp: good_def unat_sub)
  show "d_err f = None \<and> avail f' + unat n = avail f" if "d_err f' = None"
    using that * f' by (auto simp: avail_def unat_sub word_le_nat_alt)
qed

lemma sound_getBits: "unat n \<le> 16 \<Longrightarrow> sound (getBits n)"
  unfolding sound_def sound_at_def
proof (intro allI impI)
  fix f x f'
  assume *: "unat n \<le> 16" "good f" "getBits n f = Ok (x, f')"
  show "good f' \<and> (d_err f' = None \<longrightarrow> d_err f = None \<and> avail f' \<le> avail f)"
    using getBits_cases [OF *(2,1,3)] by auto
qed


lemma sound_getCode: "sound (getCode h)"
proof (rule soundI)
  fix f
  show "sound_at (getCode h) f"
    unfolding sound_at_def
  proof (intro impI allI)
    fix x f'
    assume g: "good f" and r: "getCode h f = Ok (x, f')"
    then obtain t where t: "h = Some t" by (cases h) (auto simp: getCode_def)
    show "good f' \<and> (d_err f' = None \<longrightarrow> d_err f = None \<and> avail f' \<le> avail f)"
    proof (cases "maxbits t > 0")
      case False
      then have "f' = fail errCorrupt f" using r t by (simp add: getCode_def)
      then show ?thesis using good_fail [OF g] by (auto simp: fail_def split: if_splits)
    next
      case True
      let ?feed = "\<lambda>f. if unat (nbits f) < maxTreePathLen then bind_m feed (\<lambda>_. ret ()) f else Ok ((), f)"
      obtain f1 e where m: "?feed f = Ok ((), f1)"
        and k: "(let n = ucast (drop_bit lenshift e) :: byte in
            if n \<le> nbits f1 then Ok (e AND codemask, f1\<lparr>d_c := push_bit (unat n) (d_c f1), nbits := nbits f1 - n\<rparr>)
            else Ok (0, fail ErrUnexpectedEOF f1)) = Ok (x, f')"
        using r t True by (auto simp: getCode_def bind_m_def bind_res_Ok_iff split: if_splits)
      have *: "good f1 \<and> (d_err f1 = None \<longrightarrow> d_err f = None \<and> avail f1 = avail f)"
      proof (cases "unat (nbits f) < maxTreePathLen")
        case True
        then obtain ok where "feed f = Ok (ok, f1)" using m by (auto simp: bind_m_def bind_res_Ok_iff ret_def)
        from feed_cases [OF g this] True show ?thesis by (auto simp: maxTreePathLen_def)
      next
        case False
        then show ?thesis using m g by simp
      qed
      define n where "n = (ucast (drop_bit lenshift e) :: byte)"
      show ?thesis
      proof (cases "n \<le> nbits f1")
        case True
        then have "f' = f1\<lparr>d_c := push_bit (unat n) (d_c f1), nbits := nbits f1 - n\<rparr>"
          using k by (simp add: Let_def flip: n_def)
        moreover have "unat (nbits f1 - n) \<le> unat (nbits f1)" using True by (simp add: unat_sub)
        ultimately show ?thesis using * by (auto simp: good_def avail_def)
      next
        case False
        then have "f' = fail ErrUnexpectedEOF f1" using k by (simp add: Let_def flip: n_def)
        then show ?thesis using * good_fail [of f1] by (auto simp: fail_def split: if_splits)
      qed
    qed
  qed
qed

section \<open>Trees and blocks\<close>

lemma sound_getBits_list: "unat n \<le> 16 \<Longrightarrow> sound (getBits_list n k)"
  by (induction k) (auto intro!: sound_getBits)

lemmas sound_bits = sound_val_method [OF sound_getBits] sound_val_method [OF sound_getCode]
  sound_val_method [OF sound_getBits_list] sound_val_method [OF sound_ensureAtLeast]

lemma sound_read_lens: "sound (read_lens k h i lens)"
proof (induction k arbitrary: i lens)
  case (Suc k)
  show ?case
    unfolding read_lens.simps Let_def
    by (rule sound_valI) (auto intro!: sound_rules sound_bits sound_val_method [OF Suc.IH])
qed (simp add: sound_ret)

lemma sound_readTree: "sound (readTree lens)"
  unfolding readTree_def split_def
  by (rule sound_valI) (auto intro!: sound_rules sound_bits sound_val_method [OF sound_read_lens])

lemma sound_val_bind_eq:
  "sound_val f (m f) \<Longrightarrow> (\<And>x f'. m f = Ok (x, f') \<Longrightarrow> sound_val f' (k x f')) \<Longrightarrow> sound_val f (bind_m m k f)"
  using sound_at_bind [of m f k] by (simp add: sound_at_val)

lemma sound_readTrees: "sound (readTrees al)"
  unfolding readTrees_def split_def Let_def
  by (rule sound_valI)
    (auto intro!: sound_rules sound_bits sound_val_method [OF sound_readTree] sound_val_lens)

lemma footerBits_small: "index footerBits i = Ok b \<Longrightarrow> unat b \<le> 14"
proof -
  assume "index footerBits i = Ok b"
  then have "b \<in> set footerBits" by (auto simp: index_def split: if_splits)
  then show ?thesis by (auto simp: footerBits_def)
qed

lemma sound_match_offset: "sound (match_offset slot haligned)"
proof (rule sound_valI)
  fix f
  have bits: "sound_val f' ((if b > 0 then
          if haligned \<noteq> None \<and> 3 \<le> b then
            bind_m (getBits (b - 3)) (\<lambda>vb. bind_m (getCode haligned) (\<lambda>ab. ret (vb * 8 + ab)))
          else getBits b
        else ret 0) f')" if "unat b \<le> 14" for b f'
    using that by (auto intro!: sound_rules sound_bits simp: unat_sub)
  show "sound_val f (match_offset slot haligned f)"
    unfolding match_offset_def Let_def
    by (auto intro!: sound_val_bind_eq sound_val_method [OF sound_lift] bits sound_val_Ok footerBits_small
        simp: lift_def bind_res_Ok_iff)
qed

lemma copy_match_no_err: "copy_match w i off n \<noteq> Err e"
  by (induction n arbitrary: w i) (auto simp: bind_res_Err_iff)

lemma sound_block_loop: "sound (block_loop k i e hm hl ha)"
proof (induction k arbitrary: i)
  case (Suc k)
  have upd: "sound_val f (block_loop k j e hm hl ha (f\<lparr>window := w\<rparr>))" for f j w
    by (rule sound_val_same [OF same_simps(3) sound_val_method [OF Suc.IH]])
  show ?case
    unfolding block_loop.simps
    by (rule sound_valI, intro sound_val_app_if sound_val_if sound_rules sound_bits sound_val_method [OF sound_match_offset] upd
        sound_val_bind_res copy_match_no_err same_simps)
qed (simp add: sound_ret)

text \<open>A header that is accepted takes three bits at least.\<close>

lemma bind_m_Ok: "bind_m m k f = Ok (y, f'') \<longleftrightarrow> (\<exists>x f'. m f = Ok (x, f') \<and> k x f' = Ok (y, f''))"
  by (auto simp: bind_m_def bind_res_Ok_iff)

lemma sound_methodD:
  assumes "sound m" and "good f" and "m f = Ok (x, f')"
  shows "good f'" and "d_err f' = None \<Longrightarrow> d_err f = None \<and> avail f' \<le> avail f"
  using sound_atD [OF soundD [OF assms(1)] assms(2,3)] by auto

lemma uncompressed_header:
  assumes g: "good f" and n: "unat n \<le> 16"
    and r: "bind_m (getBits n) (\<lambda>_. bind_m (ensureAtLeast 12) (\<lambda>err f.
        if err \<noteq> None then Ok (((0, 0), err), f)
        else
          bind_res (le32_at (d_b f) (bo f)) (\<lambda>l0.
          bind_res (le32_at (d_b f) (bo f + 4)) (\<lambda>l1.
          bind_res (le32_at (d_b f) (bo f + 8)) (\<lambda>l2.
          Ok (((bt, sz), None), f\<lparr>lru := [ucast l0, ucast l1, ucast l2], bo := bo f + 12\<rparr>)))))) f = Ok ((h, err), f')"
  shows "good f' \<and> (err = None \<longrightarrow> d_err f' = None) \<and> (d_err f' = None \<longrightarrow> d_err f = None \<and> avail f' \<le> avail f)"
proof -
  obtain x f1 e f2 where f1: "getBits n f = Ok (x, f1)" and f2: "ensureAtLeast 12 f1 = Ok (e, f2)"
    and k: "(if e \<noteq> None then Ok (((0, 0), e), f2)
        else
          bind_res (le32_at (d_b f2) (bo f2)) (\<lambda>l0.
          bind_res (le32_at (d_b f2) (bo f2 + 4)) (\<lambda>l1.
          bind_res (le32_at (d_b f2) (bo f2 + 8)) (\<lambda>l2.
          Ok (((bt, sz), None), f2\<lparr>lru := [ucast l0, ucast l1, ucast l2], bo := bo f2 + 12\<rparr>))))) = Ok ((h, err), f')"
    using r by (auto simp: bind_m_Ok)
  note g1 = getBits_cases [OF g n f1]
  have "0 < (12 :: nat)" by simp
  note g2 = ensureAtLeast_cases [OF g1(1) this f2]
  show ?thesis
  proof (cases "e = None")
    case False
    then have "err = e" "f' = f2" using k by simp_all
    then show ?thesis using False g1 g2(1,2,3) by auto
  next
    case True
    then obtain l where f': "f' = f2\<lparr>lru := l, bo := bo f2 + 12\<rparr>" using k by (auto simp: bind_res_Ok_iff)
    have "12 \<le> bv f2 - bo f2" "d_err f2 = None" using g2(5,6) True by auto
    then show ?thesis using g1 g2(1,2,3) f' by (auto simp: good_def avail_def)
  qed
qed

lemma align_cases:
  assumes g: "good f" and r: "(if unaligned f then
       bind_m (ensureAtLeast 1) (\<lambda>err f.
       if err \<noteq> None then Ok (err, f) else Ok (None, f\<lparr>bo := bo f + 1, unaligned := False\<rparr>)) f
     else Ok (None, f)) = Ok (e, f1)"
  shows "good f1 \<and> (d_err f1 = None \<longrightarrow> d_err f = None \<and> avail f1 \<le> avail f)"
proof (cases "unaligned f")
  case False
  then show ?thesis using g r by simp
next
  case True
  then obtain x f2 where f2: "ensureAtLeast 1 f = Ok (x, f2)"
    "(if x \<noteq> None then Ok (x, f2) else Ok (None, f2\<lparr>bo := bo f2 + 1, unaligned := False\<rparr>)) = Ok (e, f1)"
    using r by (auto simp: bind_m_Ok)
  have "0 < (1 :: nat)" by simp
  note c = ensureAtLeast_cases [OF g this f2(1)]
  show ?thesis
  proof (cases "x = None")
    case True
    then have "f1 = f2\<lparr>bo := bo f2 + 1, unaligned := False\<rparr>" "1 \<le> bv f2 - bo f2" "d_err f2 = None"
      using f2(2) c(5,6) by auto
    then show ?thesis using c(1,2,3) by (auto simp: good_def avail_def)
  next
    case False
    then show ?thesis using f2(2) c(1,2,3) by auto
  qed
qed

lemma readBlockHeader_cases:
  assumes g: "good f" and r: "readBlockHeader f = Ok ((h, err), f')"
  shows "good f' \<and> (err = None \<longrightarrow> d_err f' = None \<and> d_err f = None \<and> avail f' < avail f)"
proof -
  obtain e f1 where al: "(if unaligned f then
       bind_m (ensureAtLeast 1) (\<lambda>err f.
       if err \<noteq> None then Ok (err, f) else Ok (None, f\<lparr>bo := bo f + 1, unaligned := False\<rparr>)) f
     else Ok (None, f)) = Ok (e, f1)"
    and body: "(if e \<noteq> None then ret ((0, 0), e)
     else
       bind_m (getBits 3) (\<lambda>blockType.
       bind_m (getBits 1) (\<lambda>full.
       bind_m (if full \<noteq> 0 then ret maxBlockSize else getBits 16) (\<lambda>blockSize f.
       if full = 0 \<and> maxBlockSize < blockSize then Ok (((0, 0), Some errCorrupt), f)
       else if d_err f \<noteq> None then Ok (((0, 0), d_err f), f)
       else if blockType = verbatimBlock \<or> blockType = alignedOffsetBlock then Ok (((blockType, blockSize), None), f)
       else if blockType = uncompressedBlock then
         if 16 < nbits f then Panic ''impossible: more than one 16-bit word remains''
         else
           bind_m (getBits (if nbits f = 0 then 16 else nbits f)) (\<lambda>_.
           bind_m (ensureAtLeast 12) (\<lambda>err f.
           if err \<noteq> None then Ok (((0, 0), err), f)
           else
             bind_res (le32_at (d_b f) (bo f)) (\<lambda>l0.
             bind_res (le32_at (d_b f) (bo f + 4)) (\<lambda>l1.
             bind_res (le32_at (d_b f) (bo f + 8)) (\<lambda>l2.
             Ok (((blockType, blockSize), None), f\<lparr>lru := [ucast l0, ucast l1, ucast l2], bo := bo f + 12\<rparr>)))))) f
       else Ok (((0, 0), Some errCorrupt), f))))) f1 = Ok ((h, err), f')"
    using r unfolding readBlockHeader_def bind_m_Ok [where f = f] by blast
  note g1 = align_cases [OF g al]
  show ?thesis
  proof (cases "e = None")
    case False
    then show ?thesis using body g1 by (auto simp: ret_def)
  next
    case True
    from body obtain bt f2 full f3 sz f4 where f2: "getBits 3 f1 = Ok (bt, f2)" and f3: "getBits 1 f2 = Ok (full, f3)"
      and f4: "(if full \<noteq> 0 then ret maxBlockSize else getBits 16) f3 = Ok (sz, f4)"
      and last: "(if full = 0 \<and> maxBlockSize < sz then Ok (((0, 0), Some errCorrupt), f4)
       else if d_err f4 \<noteq> None then Ok (((0, 0), d_err f4), f4)
       else if bt = verbatimBlock \<or> bt = alignedOffsetBlock then Ok (((bt, sz), None), f4)
       else if bt = uncompressedBlock then
         if 16 < nbits f4 then Panic ''impossible: more than one 16-bit word remains''
         else
           bind_m (getBits (if nbits f4 = 0 then 16 else nbits f4)) (\<lambda>_.
           bind_m (ensureAtLeast 12) (\<lambda>err f.
           if err \<noteq> None then Ok (((0, 0), err), f)
           else
             bind_res (le32_at (d_b f) (bo f)) (\<lambda>l0.
             bind_res (le32_at (d_b f) (bo f + 4)) (\<lambda>l1.
             bind_res (le32_at (d_b f) (bo f + 8)) (\<lambda>l2.
             Ok (((bt, sz), None), f\<lparr>lru := [ucast l0, ucast l1, ucast l2], bo := bo f + 12\<rparr>)))))) f4
       else Ok (((0, 0), Some errCorrupt), f4)) = Ok ((h, err), f')"
      unfolding True by (simp only: not_True_eq_False if_False simp_thms bind_m_Ok) blast
    have small: "unat (3 :: byte) \<le> 16" "unat (1 :: byte) \<le> 16" "unat (16 :: byte) \<le> 16" by simp_all
    note c2 = getBits_cases [OF conjunct1 [OF g1] small(1) f2]
    note c3 = getBits_cases [OF c2(1) small(2) f3]
    have "sound (if full \<noteq> 0 then ret maxBlockSize else getBits 16)"
      by (cases "full = 0") (simp_all add: sound_ret sound_getBits)
    note c4 = sound_methodD [OF this c3(1) f4]
    have base: "good f4 \<and> (d_err f4 = None \<longrightarrow> d_err f = None \<and> avail f4 < avail f)"
      using g1 c2 c3 c4 by auto
    show ?thesis
    proof (cases "bt = uncompressedBlock \<and> d_err f4 = None \<and> \<not> 16 < nbits f4 \<and> \<not> (full = 0 \<and> maxBlockSize < sz)")
      case False
      then show ?thesis using last base by (auto split: if_splits)
    next
      case True
      then have n: "unat (if nbits f4 = 0 then 16 else nbits f4) \<le> 16" by (auto simp: word_less_nat_alt)
      have bt: "\<not> (bt = verbatimBlock \<or> bt = alignedOffsetBlock)"
        using True by (simp add: uncompressedBlock_def verbatimBlock_def alignedOffsetBlock_def)
      show ?thesis
        using uncompressed_header [OF conjunct1 [OF base] n, of bt sz h err f'] last True bt base by auto
    qed
  qed
qed


section \<open>Reading returns\<close>

lemma readCompressedBlock_Ok:
  assumes "good f" and "readCompressedBlock start e hm hl ha f = Ok ((k, err), f')"
  shows "good f' \<and> err = d_err f' \<and> (d_err f' = None \<longrightarrow> d_err f = None \<and> avail f' \<le> avail f)"
proof -
  obtain i where "block_loop (unat e - unat start) start e hm hl ha f = Ok (i, f')" and "err = d_err f'"
    using assms(2) by (auto simp: readCompressedBlock_def bind_m_Ok)
  then show ?thesis using sound_methodD [OF sound_block_loop assms(1)] by blast
qed

lemma stored_copy:
  assumes "bind_res (if bo f < bv f then slice (window f) s (s + copied) else Ok []) (\<lambda>_.
          let w1 = take s (window f) @ take copied (drop (bo f) (d_b f)) @ drop (s + copied) (window f) in
          bind_res (slice w1 (unat (start + of_nat copied)) (unat (start + sz))) (\<lambda>dst.
          let want = length dst; got = take want (d_r f);
              err = (if length got = want then None else if got = [] then Some EOF else Some ErrUnexpectedEOF);
              a = unat (start + of_nat copied)
          in Ok ((copied + length got, err),
                 f\<lparr>bo := bo f + copied, d_r := drop (length got) (d_r f),
                    window := take a w1 @ got @ drop (a + length got) w1\<rparr>))) = Ok ((k, err), f')"
  obtains j w where "f' = f\<lparr>bo := bo f + copied, d_r := drop j (d_r f), window := w\<rparr>"
  using assms unfolding Let_def bind_res_Ok_iff res.inject prod.inject by blast

lemma read_stored_Ok:
  assumes "good f0" and "d_err f0 = None" and "read_stored start sz f0 = Ok ((k, err), f')"
  shows "good f' \<and> d_err f' = None \<and> avail f' \<le> avail f0"
proof -
  define f where "f = f0\<lparr>unaligned := (unaligned f0 \<or> odd sz)\<rparr>"
  define c where "c = (if bo f < bv f then min (unat sz) (bv f - bo f) else 0)"
  obtain j w where f': "f' = f\<lparr>bo := bo f + c, d_r := drop j (d_r f), window := w\<rparr>"
    by (rule stored_copy [OF assms(3) [unfolded read_stored_def Let_def [of "f0\<lparr>unaligned := (unaligned f0 \<or> odd sz)\<rparr>"],
          folded f_def, unfolded Let_def [of "unat start"] Let_def [of "if bo f < bv f then min (unat sz) (bv f - bo f) else 0"], folded c_def]])
  have c: "c \<le> bv f - bo f" by (simp add: c_def)
  show ?thesis using assms(1,2) c unfolding f' by (auto simp: good_def avail_def f_def)
qed

lemma readBlock_Ok:
  assumes g: "good f" and r: "readBlock start f = Ok ((k, None), f')"
  shows "good f' \<and> avail f' < avail f"
proof -
  obtain bt sz err f1 where h: "readBlockHeader f = Ok (((bt, sz), err), f1)"
  proof -
    from r obtain x f1 where x: "readBlockHeader f = Ok (x, f1)" unfolding readBlock_def bind_m_Ok by blast
    then show ?thesis by (cases x, cases "fst x") (auto intro: that)
  qed
  note hd = readBlockHeader_cases [OF g h]
  have body: "(if err \<noteq> None then ret (0, err)
     else if bt = uncompressedBlock then read_stored start sz
     else
       bind_m (readTrees (bt = alignedOffsetBlock)) (\<lambda>((hmain, hlength, haligned), err).
       if err \<noteq> None then ret (0, err)
       else readCompressedBlock start (start + sz) hmain hlength haligned)) f1 = Ok ((k, None), f')"
    using r h by (simp add: readBlock_def bind_m_def)
  then have err: "err = None" by (cases err) (simp_all add: ret_def)
  show ?thesis
  proof (cases "bt = uncompressedBlock")
    case True
    then show ?thesis using read_stored_Ok [of f1 start sz k None f'] body hd err by simp
  next
    case False
    then obtain hm hl ha e f2 where t: "readTrees (bt = alignedOffsetBlock) f1 = Ok (((hm, hl, ha), e), f2)"
      and c: "(if e \<noteq> None then ret (0, e) else readCompressedBlock start (start + sz) hm hl ha) f2 = Ok ((k, None), f')"
      using body err by (auto simp: bind_m_Ok)
    then have e: "e = None" by (cases e) (simp_all add: ret_def)
    note s = sound_methodD [OF sound_readTrees conjunct1 [OF hd] t]
    have "readCompressedBlock start (start + sz) hm hl ha f2 = Ok ((k, None), f')" using c e by simp
    then show ?thesis using readCompressedBlock_Ok [OF s(1)] s hd err by fastforce
  qed
qed

lemma read_blocks_returns: "good f \<Longrightarrow> \<exists>r. read_blocks n f = Some r"
proof (induction "avail f" arbitrary: f n rule: less_induct)
  case less
  show ?case
  proof (cases "n < uncompressed f")
    case False
    then show ?thesis by (subst read_blocks.simps) simp
  next
    case True
    show ?thesis
    proof (cases "\<exists>k f'. readBlock (of_nat n) f = Ok ((k, None), f')")
      case True
      then obtain k f' where r: "readBlock (of_nat n) f = Ok ((k, None), f')" by blast
      note b = readBlock_Ok [OF less.prems r]
      have "\<exists>r. read_blocks (n + k) f' = Some r" using less.hyps [of f'] b by blast
      then show ?thesis using r by (subst read_blocks.simps) simp
    next
      case False
      then show ?thesis by (subst read_blocks.simps) (auto split: res.split option.split)
    qed
  qed
qed

lemma NewReader_good: "NewReader r n = Ok f \<Longrightarrow> good f"
  by (auto simp: NewReader_def good_def split: if_splits)

text \<open>
  C29: The LZX decompressor never hangs. Whatever bytes its source holds, every call of
  \<^verbatim>\<open>Read\<close> on the reader that \<^verbatim>\<open>NewReader\<close> made returns (with data, an error
  or a panic): each block that is accepted has taken bits of the input, so the loop over the
  blocks ends although it does not count its turns and a block may be empty.
\<close>

theorem lzx_Read_returns:
  assumes "NewReader r n = Ok f"
  shows "\<exists>res. lzx_Read len f = Some res"
proof -
  obtain x where x: "read_blocks 0 f = Some x" using read_blocks_returns [OF NewReader_good [OF assms]] by blast
  have "windowReader f = None" using assms by (auto simp: NewReader_def split: if_splits)
  then show ?thesis using x by (cases x) (auto simp: lzx_Read_def Let_def split: option.split)
qed

theorem lzx_Read_returns_witness: "\<exists>f. NewReader [0, 0] 10 = Ok f \<and> (\<exists>res. lzx_Read 5 f = Some res)"
proof -
  obtain f where "NewReader [0, 0] 10 = Ok f" by (simp add: NewReader_def windowSize_def)
  then show ?thesis using lzx_Read_returns by blast
qed

end
