(* ===== verification/Wim_Resource.thy ===== *)
theory Wim_Resource
  imports Go_IO Lzx "HOL-Library.Signed_Division"
begin

text \<open>
  Resources of a WIM file (\<^verbatim>\<open>src/wim/decompress.go\<close> and the resource readers of
  \<^verbatim>\<open>src/wim/wim.go\<close>): a section of the file, read directly or through the reader of
  compressed resources with its table of chunks. The file is an \<^verbatim>\<open>io.ReaderAt\<close>, a
  function from an offset and a length to the bytes read and an error.
\<close>

section \<open>Sections of a file\<close>

type_synonym readerAt = "int \<Rightarrow> nat \<Rightarrow> bytes \<times> go_error option"

text \<open>\<^verbatim>\<open>io.SectionReader\<close>.\<close>

record section_reader =
  s_r :: readerAt
  s_base :: int
  s_off :: int
  s_limit :: int

definition NewSectionReader :: "readerAt \<Rightarrow> int \<Rightarrow> int \<Rightarrow> section_reader" where
  "NewSectionReader r off n =
     \<lparr>s_r = r, s_base = off, s_off = off,
      s_limit = (if off \<le> wrap64 (2 ^ 63 - 1 - n) then wrap64 (off + n) else 2 ^ 63 - 1)\<rparr>"

definition section_Size :: "section_reader \<Rightarrow> int" where
  "section_Size s = wrap64 (s_limit s - s_base s)"

definition section_Read :: "section_reader reader" where
  "section_Read s n =
     (if s_limit s \<le> s_off s then Ok ([], Some EOF, s)
      else
        let m = (if int n > s_limit s - s_off s then nat (s_limit s - s_off s) else n) in
        case s_r s (s_off s) m of (b, err) \<Rightarrow> Ok (b, err, s\<lparr>s_off := s_off s + int (length b)\<rparr>))"

definition section_ReadAt :: "section_reader \<Rightarrow> readerAt" where
  "section_ReadAt s off n =
     (if off < 0 \<or> section_Size s \<le> off then ([], Some EOF)
      else
        let o1 = wrap64 (off + s_base s); left = s_limit s - o1 in
        if int n > left then
          (case s_r s o1 (nat left) of (b, err) \<Rightarrow> (b, if err = None then Some EOF else err))
        else s_r s o1 n)"

definition section_Seek :: "section_reader \<Rightarrow> int \<Rightarrow> section_reader" where
  "section_Seek s off =
     (let o1 = wrap64 (off + s_base s) in if o1 < s_base s then s else s\<lparr>s_off := o1\<rparr>)"

text \<open>All the bytes that a section has to deliver.\<close>

definition section_bytes :: "section_reader \<Rightarrow> bytes" where
  "section_bytes s = (if s_limit s \<le> s_off s then [] else fst (s_r s (s_off s) (nat (s_limit s - s_off s))))"

section \<open>The reader of compressed resources\<close>

definition chunkSize :: int where "chunkSize = 32768"

text \<open>
  A chunk is read by the decompressor or, when it is as long as what it stands for, directly.
  A decompressor that does not return has no value in this type; there is none.
\<close>

datatype chunk_reader = Stored section_reader | Compressed decompressor

fun chunk_Read :: "chunk_reader reader" where
  "chunk_Read (Stored s) n =
     bind_res (section_Read s n) (\<lambda>(b, err, s'). Ok (b, err, Stored s'))"
| "chunk_Read (Compressed d) n =
     (case lzx_Read n d of
        None \<Rightarrow> Panic ''does not return''
      | Some r \<Rightarrow> bind_res r (\<lambda>((b, err), d'). Ok (b, err, Compressed d')))"

record compressedReader =
  cr_r :: section_reader
  cr_d :: "chunk_reader option"
  chunks :: "int list"
  curChunk :: int
  originalSize :: int

definition chunkOffset :: "compressedReader \<Rightarrow> int \<Rightarrow> int res" where
  "chunkOffset r n =
     (if n = int (length (chunks r)) then Ok (section_Size (cr_r r))
      else if n < 0 then Panic ''index out of range''
      else index (chunks r) (nat n))"

definition chunk_size :: "compressedReader \<Rightarrow> int \<Rightarrow> int res" where
  "chunk_size r n =
     bind_res (chunkOffset r (n + 1)) (\<lambda>e. bind_res (chunkOffset r n) (\<lambda>s. Ok (wrap64 (e - s))))"

definition uncompressedSize :: "compressedReader \<Rightarrow> int \<Rightarrow> int" where
  "uncompressedSize r n =
     (if n < int (length (chunks r)) - 1 then chunkSize
      else let sz = originalSize r smod chunkSize in if sz = 0 then chunkSize else sz)"

definition cr_reset :: "compressedReader \<Rightarrow> int \<Rightarrow> (go_error option \<times> compressedReader) res" where
  "cr_reset r n =
     (if int (length (chunks r)) \<le> n then Ok (Some EOF, r)
      else
        bind_res (chunk_size r n) (\<lambda>sz.
        bind_res (chunkOffset r n) (\<lambda>off.
        let r1 = r\<lparr>curChunk := n\<rparr>;
            us = uncompressedSize r n;
            sec = NewSectionReader (section_ReadAt (cr_r r)) off sz
        in if sz \<noteq> us then
             (case NewReader (section_bytes sec) (nat us) of
                Ok d \<Rightarrow> Ok (None, r1\<lparr>cr_d := Some (Compressed d)\<rparr>)
              | Err e \<Rightarrow> Ok (Some e, r1)
              | Panic p \<Rightarrow> Panic p)
           else Ok (None, r1\<lparr>cr_d := Some (Stored sec)\<rparr>))))"

lemma cr_reset_keeps:
  "cr_reset r n = Ok (None, r') \<Longrightarrow>
     n < int (length (chunks r)) \<and> curChunk r' = n \<and> chunks r' = chunks r \<and> cr_r r' = cr_r r \<and> originalSize r' = originalSize r"
  by (auto simp: cr_reset_def Let_def bind_res_Ok_iff split: if_splits res.splits)

text \<open>\<^verbatim>\<open>Read\<close> goes on with the next chunk at the end of one.\<close>

function cr_Read :: "compressedReader reader" where
  "cr_Read r n =
     (case cr_d r of
        None \<Rightarrow> Panic ''nil pointer dereference''
      | Some d \<Rightarrow>
          bind_res (chunk_Read d n) (\<lambda>(b, err, d').
          let r1 = r\<lparr>cr_d := Some d'\<rparr> in
          if err \<noteq> Some EOF then Ok (b, err, r1)
          else
            (case cr_reset r1 (curChunk r1 + 1) of
               Ok (Some e, r2) \<Rightarrow> Ok (b, Some e, r2)
             | Ok (None, r2) \<Rightarrow> cr_Read r2 n
             | Err e \<Rightarrow> Err e
             | Panic p \<Rightarrow> Panic p)))"
  by pat_completeness auto
termination
  by (relation "measure (\<lambda>(r, n). nat (int (length (chunks r)) - curChunk r))")
    (auto dest!: cr_reset_keeps)

declare cr_Read.simps [simp del]

definition cr_Close :: "compressedReader \<Rightarrow> compressedReader" where
  "cr_Close r = r\<lparr>cr_d := None\<rparr>"

text \<open>Opening a compressed resource at an offset: the chunk table, then the chunk of the offset.\<close>

definition read_chunks :: "section_reader \<Rightarrow> int \<Rightarrow> (int list, section_reader) io" where
  "read_chunks sec osize =
     (let nchunks = wrap64 (osize + chunkSize - 1) sdiv chunkSize; k = nat (nchunks - 1) in
      if nchunks < 0 then Some (Panic ''makeslice: len out of range'', sec)
      else if osize \<le> 0xffffffff then
        if nchunks - 1 < 0 then Some (Panic ''makeslice: len out of range'', sec)
        else io_bind (binary_Read section_Read (dec_list (le_dec :: bytes \<Rightarrow> u32) 4 k) (4 * k) sec) (\<lambda>cs sec'.
             Some (Ok (map (\<lambda>c. wrap64 (c + (nchunks - 1) * 4)) (0 # map uint cs)), sec'))
      else if nchunks - 1 < 0 then Some (Panic ''slice bounds out of range'', sec)
      else io_bind (binary_Read section_Read (dec_list i64_dec 8 k) (8 * k) sec) (\<lambda>cs sec'.
           Some (Ok (map (\<lambda>c. wrap64 (c + (nchunks - 1) * 8)) (0 # cs)), sec')))"

definition newCompressedReader :: "section_reader \<Rightarrow> int \<Rightarrow> int \<Rightarrow> compressedReader res option" where
  "newCompressedReader sec osize off =
     (case read_chunks sec osize of
        None \<Rightarrow> None
      | Some (Err e, _) \<Rightarrow> Some (Err e)
      | Some (Panic p, _) \<Rightarrow> Some (Panic p)
      | Some (Ok cs, sec') \<Rightarrow>
          (case cr_reset \<lparr>cr_r = sec', cr_d = None, chunks = cs, curChunk = 0, originalSize = osize\<rparr> (off sdiv chunkSize) of
             Err e \<Rightarrow> Some (Err e)
           | Panic p \<Rightarrow> Some (Panic p)
           | Ok (Some e, cr) \<Rightarrow> Some (Err e)
           | Ok (None, cr) \<Rightarrow>
               let suboff = off smod chunkSize in
               if suboff = 0 then Some (Ok cr)
               else
                 (case CopyN chunk_Read suboff (the (cr_d cr)) of
                    None \<Rightarrow> None
                  | Some (Err e, _) \<Rightarrow> Some (Err e)
                  | Some (Panic p, _) \<Rightarrow> Some (Panic p)
                  | Some (Ok _, d) \<Rightarrow> Some (Ok (cr\<lparr>cr_d := Some d\<rparr>)))))"

section \<open>Resources\<close>

record resourceDescriptor =
  FlagsAndCompressedSize :: u64
  rd_Offset :: int
  OriginalSize :: int

definition resFlagFree :: byte where "resFlagFree = 1"
definition resFlagMetadata :: byte where "resFlagMetadata = 2"
definition resFlagCompressed :: byte where "resFlagCompressed = 4"
definition resFlagSpanned :: byte where "resFlagSpanned = 8"
definition supportedResFlags :: byte where "supportedResFlags = resFlagMetadata OR resFlagCompressed"

definition Flags :: "resourceDescriptor \<Rightarrow> byte" where
  "Flags r = ucast (drop_bit 56 (FlagsAndCompressedSize r))"

definition CompressedSize :: "resourceDescriptor \<Rightarrow> int" where
  "CompressedSize r = sint (FlagsAndCompressedSize r AND 0xffffffffffffff)"

datatype resource = Plain section_reader | CompressedResource compressedReader

fun resource_Read :: "resource reader" where
  "resource_Read (Plain s) n = bind_res (section_Read s n) (\<lambda>(b, err, s'). Ok (b, err, Plain s'))"
| "resource_Read (CompressedResource r) n =
     bind_res (cr_Read r n) (\<lambda>(b, err, r'). Ok (b, err, CompressedResource r'))"

definition resourceReaderWithOffset :: "readerAt \<Rightarrow> resourceDescriptor \<Rightarrow> int \<Rightarrow> resource res option" where
  "resourceReaderWithOffset r hdr offset =
     (let sec = NewSectionReader r (rd_Offset hdr) (CompressedSize hdr) in
      if Flags hdr AND resFlagCompressed = 0 then Some (Ok (Plain (section_Seek sec offset)))
      else map_option (\<lambda>m. bind_res m (\<lambda>cr. Ok (CompressedResource cr))) (newCompressedReader sec (OriginalSize hdr) offset))"

definition resourceReader :: "readerAt \<Rightarrow> resourceDescriptor \<Rightarrow> resource res option" where
  "resourceReader r hdr = resourceReaderWithOffset r hdr 0"

definition readResource :: "readerAt \<Rightarrow> resourceDescriptor \<Rightarrow> bytes res option" where
  "readResource r hdr =
     (case resourceReader r hdr of
        None \<Rightarrow> None
      | Some (Err e) \<Rightarrow> Some (Err e)
      | Some (Panic p) \<Rightarrow> Some (Panic p)
      | Some (Ok rsrc) \<Rightarrow>
          map_option (\<lambda>m. bind_res m (\<lambda>(b, err, _). case err of None \<Rightarrow> Ok b | Some e \<Rightarrow> Err e)) (ReadAll resource_Read rsrc))"

section \<open>Files\<close>

text \<open>
  The documented behaviour of an \<^verbatim>\<open>io.ReaderAt\<close> over the bytes \<open>F\<close>: a read inside them
  is complete, one past their end reports the end of the input. (At the very end the
  interface allows an empty read to do either.)
\<close>

definition sec_ok :: "readerAt \<Rightarrow> bytes \<Rightarrow> int \<Rightarrow> int \<Rightarrow> section_reader \<Rightarrow> bool" where
  "sec_ok ra F B L s \<longleftrightarrow>
     s_r s = ra \<and> s_base s = B \<and> s_limit s = L \<and> 0 \<le> s_off s \<and> L \<le> int (length F)"

definition sec_content :: "bytes \<Rightarrow> section_reader \<Rightarrow> bytes" where
  "sec_content F s = take (nat (s_limit s - s_off s)) (drop (nat (s_off s)) F)"

locale file_at =
  fixes ra :: readerAt and F :: bytes
  assumes ra_read: "0 \<le> off \<Longrightarrow> 0 < n \<or> nat off < length F \<Longrightarrow>
    ra off n = (take n (drop (nat off) F), if nat off + n \<le> length F then None else Some EOF)"
begin

lemma section_Read_data:
  assumes "sec_ok ra F B L s" and "s_off s < s_limit s"
  shows "section_Read s n = Ok (take n (sec_content F s), None, s\<lparr>s_off := s_off s + int (length (take n (sec_content F s)))\<rparr>)"
    and "sec_content F (s\<lparr>s_off := s_off s + int (length (take n (sec_content F s)))\<rparr>) = drop n (sec_content F s)"
    and "sec_content F s \<noteq> []" and "length (sec_content F s) = nat (s_limit s - s_off s)"
proof -
  define o1 where "o1 = nat (s_off s)"
  define l where "l = nat (s_limit s - s_off s)"
  have o1: "s_off s = int o1" "s_limit s = int (o1 + l)" "0 < l" "o1 + l \<le> length F" "s_r s = ra"
    using assms by (auto simp: sec_ok_def o1_def l_def)
  have c: "sec_content F s = take l (drop o1 F)" by (simp add: sec_content_def o1)
  have len: "length (sec_content F s) = l" using o1 by (simp add: c)
  show "length (sec_content F s) = nat (s_limit s - s_off s)" "sec_content F s \<noteq> []" using len o1 by auto
  have "ra (int o1) (min n l) = (take (min n l) (drop o1 F), None)"
    using ra_read [of "int o1" "min n l"] o1 by simp
  then show "section_Read s n = Ok (take n (sec_content F s), None, s\<lparr>s_off := s_off s + int (length (take n (sec_content F s)))\<rparr>)"
    using o1 by (cases "l < n") (simp_all add: section_Read_def Let_def c min_def)
  show "sec_content F (s\<lparr>s_off := s_off s + int (length (take n (sec_content F s)))\<rparr>) = drop n (sec_content F s)"
  proof (cases "n \<le> l")
    case True
    then have "length (take n (sec_content F s)) = n" using len by simp
    then show ?thesis using True by (simp add: sec_content_def o1 c drop_take nat_add_distrib nat_diff_distrib' add.commute)
  next
    case False
    then have "length (take n (sec_content F s)) = l" using len by simp
    then show ?thesis using False by (simp add: sec_content_def o1 c)
  qed
qed

lemma section_Read_end: "sec_ok ra F B L s \<Longrightarrow> s_limit s \<le> s_off s \<Longrightarrow> section_Read s n = Ok ([], Some EOF, s) \<and> sec_content F s = []"
  by (simp add: section_Read_def sec_content_def)

lemma section_clean: "clean_reader section_Read (sec_ok ra F B L) (sec_content F) (\<lambda>_. EOF) (\<lambda>_. 0)"
proof
  fix s n b e s'
  assume ok: "sec_ok ra F B L s"
  show "\<exists>b e s'. section_Read s n = Ok (b, e, s')"
    using section_Read_data(1) [OF ok] section_Read_end [OF ok] by (meson not_le)
  assume rd: "section_Read s n = Ok (b, e, s')"
  show "sec_ok ra F B L s' \<and> EOF = EOF"
    using rd section_Read_data(1,2) [OF ok, of n] section_Read_data(3) [OF ok] section_Read_end [OF ok, of n] ok by (cases "s_limit s \<le> s_off s") (auto simp: sec_ok_def)
  show "length b \<le> n \<and> sec_content F s = b @ sec_content F s'"
    using rd section_Read_data(1,2) [OF ok, of n] section_Read_data(3) [OF ok] section_Read_end [OF ok, of n] by (cases "s_limit s \<le> s_off s") auto
next
  fix s n b x s'
  assume ok: "sec_ok ra F B L s" and rd: "section_Read s n = Ok (b, Some x, s')"
  show "x = EOF \<and> sec_content F s' = []"
    using rd section_Read_data(1,2) [OF ok, of n] section_Read_data(3) [OF ok] section_Read_end [OF ok, of n] by (cases "s_limit s \<le> s_off s") auto
  show "b = []"
    using rd section_Read_data(1,2) [OF ok, of n] section_Read_data(3) [OF ok] section_Read_end [OF ok, of n] by (cases "s_limit s \<le> s_off s") auto
next
  fix s n b s'
  assume ok: "sec_ok ra F B L s" and n: "0 < n" and rd: "section_Read s n = Ok (b, None, s')"
  show "b \<noteq> [] \<or> 0 < (0 :: nat)"
    using n rd section_Read_data(1,2) [OF ok, of n] section_Read_data(3) [OF ok] section_Read_end [OF ok, of n] by (cases "s_limit s \<le> s_off s") auto
qed

end

sublocale file_at \<subseteq> sec: clean_reader section_Read "sec_ok ra F B L" "sec_content F" "\<lambda>_. EOF" "\<lambda>_. 0" for B L
  by (rule section_clean)

text \<open>A file in memory, as \<^verbatim>\<open>bytes.Reader\<close> offers it.\<close>

definition mem_at :: "bytes \<Rightarrow> readerAt" where
  "mem_at F off n =
     (if off < 0 then ([], Some (ErrNew ''bytes.Reader.ReadAt: negative offset''))
      else if int (length F) \<le> off then ([], Some EOF)
      else (take n (drop (nat off) F), if length F < nat off + n then Some EOF else None))"

interpretation memf: file_at "mem_at F" F for F
  by unfold_locales (auto simp: mem_at_def)

text \<open>A section of a file is a file again.\<close>

context file_at
begin

lemma section_file:
  assumes "s_r s = ra" and "0 \<le> s_base s" and "s_base s \<le> s_limit s" and "s_limit s \<le> int (length F)"
    and "length F < 2 ^ 62"
  shows "file_at (section_ReadAt s) (take (nat (s_limit s - s_base s)) (drop (nat (s_base s)) F))"
proof
  fix off :: int and n :: nat
  define b l where "b = nat (s_base s)" and "l = nat (s_limit s - s_base s)"
  have bl: "s_base s = int b" "s_limit s = int (b + l)" "b + l \<le> length F"
    using assms by (auto simp: b_def l_def)
  have sz: "section_Size s = int l" using bl assms(5) by (simp add: section_Size_def)
  assume off: "0 \<le> off" and n: "0 < n \<or> nat off < length (take (nat (s_limit s - s_base s)) (drop (nat (s_base s)) F))"
  then obtain k where k: "off = int k" using nonneg_int_cases by blast
  have len: "length (take l (drop b F)) = l" using bl by simp
  show "section_ReadAt s off n = (take n (drop (nat off) (take (nat (s_limit s - s_base s)) (drop (nat (s_base s)) F))),
    if nat off + n \<le> length (take (nat (s_limit s - s_base s)) (drop (nat (s_base s)) F)) then None else Some EOF)"
  proof (cases "k < l")
    case False
    then have "0 < n" using n k len by (auto simp: b_def l_def)
    with False k len show ?thesis by (simp add: section_ReadAt_def sz flip: b_def l_def)
  next
    case True
    have w: "wrap64 (int k + int b) = int (k + b)" using True bl(3) assms(5) by simp
    have ra: "ra (int (k + b)) m = (take m (drop (k + b) F), None)" if "k + m \<le> l" for m
      using ra_read [of "int (k + b)" m] that True bl(3) by (simp del: of_nat_add)
    have d: "drop k (take l (drop b F)) = take (l - k) (drop (k + b) F)" by (simp add: drop_take add.commute)
    have m: "nat (int (b + l) - int (k + b)) = l - k" by simp
    have "section_ReadAt s (int k) n = (take n (drop k (take l (drop b F))), if k + n \<le> l then None else Some EOF)"
    proof (cases "k + n \<le> l")
      case True
      then have "\<not> int n > int (b + l) - int (k + b)" by simp
      then show ?thesis
        using ra [OF True] True \<open>k < l\<close> unfolding section_ReadAt_def sz d Let_def bl(1,2) w assms(1) by simp
    next
      case False
      then have "int n > int (b + l) - int (k + b)" by simp
      then show ?thesis
        using ra [of "l - k"] False \<open>k < l\<close> unfolding section_ReadAt_def sz d Let_def bl(1,2) w assms(1) m by simp
    qed
    with k len show ?thesis by (simp flip: b_def l_def)
  qed
qed

end

section \<open>Resources of stored chunks\<close>

text \<open>
  A compressed resource none of whose chunks got smaller: the table of the offsets of the
  chunks but the first, relative to its end, then the data.
\<close>

definition n_chunks :: "bytes \<Rightarrow> nat" where
  "n_chunks data = (length data + 32767) div 32768"

definition chunk_table :: "nat \<Rightarrow> bytes" where
  "chunk_table n = enc_list (le_enc 4) (map (\<lambda>i. of_nat (32768 * i) :: u32) [1..<n])"

definition stored_resource :: "bytes \<Rightarrow> bytes" where
  "stored_resource data = chunk_table (n_chunks data) @ data"

definition table_len :: "bytes \<Rightarrow> nat" where
  "table_len data = 4 * (n_chunks data - 1)"

definition chunk_start :: "bytes \<Rightarrow> nat \<Rightarrow> int" where
  "chunk_start data i = int (table_len data + 32768 * i)"

definition chunk_end :: "bytes \<Rightarrow> nat \<Rightarrow> int" where
  "chunk_end data i = int (table_len data + min (32768 * Suc i) (length data))"

lemma n_chunks_bounds:
  assumes "data \<noteq> []"
  shows "0 < n_chunks data" and "32768 * (n_chunks data - 1) < length data" and "length data \<le> 32768 * n_chunks data"
  using assms by (cases data; simp add: n_chunks_def; linarith)+

lemma length_table: "length (chunk_table n) = 4 * (n - 1)"
  unfolding chunk_table_def by (subst le32.length_enc_list) (auto simp: list_all_iff)

lemma length_stored_resource: "length (stored_resource data) = table_len data + length data"
  by (simp add: stored_resource_def table_len_def length_table)

lemma drop_table: "drop (table_len data + k) (stored_resource data) = drop k data"
  by (simp add: stored_resource_def table_len_def length_table)

lemma chunk_end_start: "Suc i < n_chunks data \<Longrightarrow> data \<noteq> [] \<Longrightarrow> chunk_end data i = chunk_start data (Suc i)"
  using n_chunks_bounds(2) [of data] by (simp add: chunk_end_def chunk_start_def min_def)

lemma chunk_nonempty: "i < n_chunks data \<Longrightarrow> data \<noteq> [] \<Longrightarrow> chunk_start data i < chunk_end data i"
  using n_chunks_bounds(2) [of data] by (simp add: chunk_end_def chunk_start_def min_def; linarith)

lemma chunk_end_last: "Suc i = n_chunks data \<Longrightarrow> data \<noteq> [] \<Longrightarrow> chunk_end data i = int (table_len data + length data)"
  using n_chunks_bounds(3) [of data] by (simp add: chunk_end_def)

text \<open>The reader of such a resource, at chunk \<open>i\<close> and with \<open>s\<close> as the reader of the chunk.\<close>

definition stored_at :: "section_reader \<Rightarrow> bytes \<Rightarrow> nat \<Rightarrow> section_reader \<Rightarrow> compressedReader \<Rightarrow> bool" where
  "stored_at sec data i s r \<longleftrightarrow>
     i < n_chunks data \<and> curChunk r = int i \<and> cr_d r = Some (Stored s) \<and> cr_r r = sec \<and>
     chunks r = map (chunk_start data) [0..<n_chunks data] \<and> originalSize r = int (length data) \<and>
     s_r s = section_ReadAt sec \<and> chunk_start data i \<le> s_off s \<and> s_off s \<le> s_limit s \<and> s_limit s = chunk_end data i"

definition chunk_sec :: "section_reader \<Rightarrow> bytes \<Rightarrow> nat \<Rightarrow> section_reader" where
  "chunk_sec sec data i =
     \<lparr>s_r = section_ReadAt sec, s_base = chunk_start data i, s_off = chunk_start data i, s_limit = chunk_end data i\<rparr>"

lemma stored_reset:
  assumes "chunks r = map (chunk_start data) [0..<n_chunks data]" and "cr_r r = sec"
    and "section_Size sec = int (table_len data + length data)" and "originalSize r = int (length data)"
    and "data \<noteq> []" and "i < n_chunks data" and "length data \<le> 0xffffffff"
  shows "cr_reset r (int i) = Ok (None, r\<lparr>curChunk := int i, cr_d := Some (Stored (chunk_sec sec data i))\<rparr>)"
proof -
  have off: "chunkOffset r (int j) = Ok (if j = n_chunks data then chunk_end data (n_chunks data - 1) else chunk_start data j)"
    if "j \<le> n_chunks data" for j
    using that assms chunk_end_last [of "n_chunks data - 1" data] n_chunks_bounds(1) [of data] by (simp add: chunkOffset_def)
  have e: "chunkOffset r (int i + 1) = Ok (chunk_end data i)"
  proof (cases "Suc i = n_chunks data")
    case True
    then have "n_chunks data - 1 = i" by simp
    then have "chunkOffset r (int (Suc i)) = Ok (chunk_end data i)" using off [of "Suc i"] True by simp
    then show ?thesis by (simp add: add.commute)
  next
    case False
    then show ?thesis using off [of "Suc i"] assms(5,6) chunk_end_start [of i data] by (simp add: add.commute)
  qed
  have sz: "wrap64 (chunk_end data i - chunk_start data i) = chunk_end data i - chunk_start data i"
    using assms(7) chunk_nonempty [OF assms(6,5)] by (simp add: chunk_end_def chunk_start_def)
  have us: "uncompressedSize r (int i) = chunk_end data i - chunk_start data i"
  proof (cases "Suc i = n_chunks data")
    case True
    define k where "k = length data - 32768 * i"
    have k: "length data = 32768 * i + k" "0 < k" "k \<le> 32768"
      using n_chunks_bounds [OF assms(5)] by (auto simp: k_def True [symmetric])
    then have "originalSize r smod chunkSize = int (k mod 32768)"
      using assms(4) by (simp add: chunkSize_def smod_mod_positive zmod_int)
    then show ?thesis
      using True k assms(1) chunk_end_last [OF True assms(5)]
      by (cases "k = 32768") (simp_all add: uncompressedSize_def Let_def chunk_start_def chunkSize_def)
  next
    case False
    then have "Suc i < n_chunks data" using assms(6) by simp
    then show ?thesis
      using assms(1) chunk_end_start [OF _ assms(5)] by (simp add: uncompressedSize_def chunkSize_def chunk_start_def)
  qed
  have "s_limit (NewSectionReader (section_ReadAt sec) (chunk_start data i) (chunk_end data i - chunk_start data i)) = chunk_end data i"
    using assms(7) chunk_nonempty [OF assms(6,5)] n_chunks_bounds(2) [OF assms(5)]
    by (simp add: NewSectionReader_def chunk_end_def chunk_start_def table_len_def; linarith)
  then have lim: "NewSectionReader (section_ReadAt sec) (chunk_start data i) (chunk_end data i - chunk_start data i) = chunk_sec sec data i"
    by (simp add: NewSectionReader_def chunk_sec_def)
  show ?thesis
    using e off [of i] assms(1,2,6) sz us lim
    by (simp add: cr_reset_def chunk_size_def Let_def)
qed

lemma stored_reset_end: "cr_reset r (int (length (chunks r))) = Ok (Some EOF, r)"
  by (simp add: cr_reset_def)

definition stored_inv :: "section_reader \<Rightarrow> bytes \<Rightarrow> compressedReader \<Rightarrow> bool" where
  "stored_inv sec data r \<longleftrightarrow> (\<exists>i s. stored_at sec data i s r)"

definition stored_content :: "bytes \<Rightarrow> compressedReader \<Rightarrow> bytes" where
  "stored_content data r =
     (case cr_d r of Some (Stored s) \<Rightarrow> drop (nat (s_off s) - table_len data) data | _ \<Rightarrow> [])"

text \<open>
  A read inside a chunk, at the end of one that is not the last, and at the end of the last.
\<close>

lemma stored_cases:
  assumes f: "file_at (section_ReadAt sec) (stored_resource data)"
    and sz: "section_Size sec = int (table_len data + length data)" and ne: "data \<noteq> []" and len: "length data \<le> 0xffffffff"
    and at: "stored_at sec data i s r"
  shows "s_off s < s_limit s \<Longrightarrow> \<exists>b s'. cr_Read r n = Ok (b, None, r\<lparr>cr_d := Some (Stored s')\<rparr>) \<and>
      stored_at sec data i s' (r\<lparr>cr_d := Some (Stored s')\<rparr>) \<and> length b \<le> n \<and> (0 < n \<longrightarrow> b \<noteq> []) \<and>
      stored_content data r = b @ stored_content data (r\<lparr>cr_d := Some (Stored s')\<rparr>)"
    and "s_off s = s_limit s \<Longrightarrow> Suc i < n_chunks data \<Longrightarrow> \<exists>r'. cr_Read r n = cr_Read r' n \<and>
      stored_at sec data (Suc i) (chunk_sec sec data (Suc i)) r' \<and> stored_content data r' = stored_content data r"
    and "s_off s = s_limit s \<Longrightarrow> Suc i = n_chunks data \<Longrightarrow> cr_Read r n = Ok ([], Some EOF, r) \<and> stored_content data r = []"
proof -
  let ?R = "stored_resource data"
  have st: "i < n_chunks data" "curChunk r = int i" "cr_d r = Some (Stored s)" "cr_r r = sec"
    "chunks r = map (chunk_start data) [0..<n_chunks data]" "originalSize r = int (length data)"
    "s_r s = section_ReadAt sec" "chunk_start data i \<le> s_off s" "s_off s \<le> s_limit s" "s_limit s = chunk_end data i"
    using at by (auto simp: stored_at_def)
  have r1: "r\<lparr>cr_d := Some (Stored s)\<rparr> = r" using st(3) by simp
  have ok: "sec_ok (section_ReadAt sec) ?R (s_base s) (s_limit s) s"
    using st by (auto simp: sec_ok_def length_stored_resource chunk_start_def chunk_end_def)
  define k where "k = nat (s_off s) - table_len data"
  have k: "s_off s = int (table_len data + k)" using st(8) by (auto simp: k_def chunk_start_def)
  have content: "stored_content data r = drop k data" by (simp add: stored_content_def st(3) k_def)
  show "\<exists>b s'. cr_Read r n = Ok (b, None, r\<lparr>cr_d := Some (Stored s')\<rparr>) \<and>
      stored_at sec data i s' (r\<lparr>cr_d := Some (Stored s')\<rparr>) \<and> length b \<le> n \<and> (0 < n \<longrightarrow> b \<noteq> []) \<and>
      stored_content data r = b @ stored_content data (r\<lparr>cr_d := Some (Stored s')\<rparr>)" if lt: "s_off s < s_limit s"
  proof -
    define b where "b = take n (sec_content ?R s)"
    define s' where "s' = s\<lparr>s_off := s_off s + int (length b)\<rparr>"
    have d: "section_Read s n = Ok (b, None, s')" "sec_content ?R s \<noteq> []"
      using file_at.section_Read_data(1) [OF f ok lt, of n] file_at.section_Read_data(3) [OF f ok lt] unfolding s'_def b_def by auto
    have sc: "sec_content ?R s = take (nat (s_limit s - s_off s)) (drop k data)"
      by (simp add: sec_content_def k nat_add_distrib drop_table)
    have b: "b = take (length b) (drop k data)" by (simp add: b_def sc min_def)
    have "length b \<le> nat (s_limit s - s_off s)" by (simp add: b_def sc)
    then have "stored_at sec data i s' (r\<lparr>cr_d := Some (Stored s')\<rparr>)" using st by (auto simp: stored_at_def s'_def)
    moreover have "stored_content data (r\<lparr>cr_d := Some (Stored s')\<rparr>) = drop (length b) (drop k data)"
      by (simp add: stored_content_def s'_def k nat_add_distrib add.commute)
    moreover have "cr_Read r n = Ok (b, None, r\<lparr>cr_d := Some (Stored s')\<rparr>)"
      by (subst cr_Read.simps) (simp add: st(3) d(1))
    moreover have "length b \<le> n" "0 < n \<longrightarrow> b \<noteq> []" using d(2) by (auto simp: b_def)
    ultimately show ?thesis using content b by (metis append_take_drop_id)
  qed
  have rd: "section_Read s n = Ok ([], Some EOF, s)" if "s_off s = s_limit s"
    using file_at.section_Read_end [OF f ok] that by simp
  show "\<exists>r'. cr_Read r n = cr_Read r' n \<and> stored_at sec data (Suc i) (chunk_sec sec data (Suc i)) r' \<and>
      stored_content data r' = stored_content data r" if e: "s_off s = s_limit s" and i: "Suc i < n_chunks data"
  proof -
    define r' where "r' = r\<lparr>curChunk := int (Suc i), cr_d := Some (Stored (chunk_sec sec data (Suc i)))\<rparr>"
    have "cr_reset r (int (Suc i)) = Ok (None, r')"
      unfolding r'_def by (rule stored_reset [OF st(5,4) sz st(6) ne i len])
    then have "cr_Read r n = cr_Read r' n"
      by (subst cr_Read.simps) (simp add: st(2,3) rd [OF e] r1 add.commute)
    moreover have "stored_at sec data (Suc i) (chunk_sec sec data (Suc i)) r'"
      using st(4,5,6) i chunk_nonempty [OF i ne] by (simp add: stored_at_def r'_def chunk_sec_def)
    moreover have "stored_content data r' = stored_content data r"
      using e st(10) chunk_end_start [OF i ne] by (simp add: stored_content_def st(3) r'_def chunk_sec_def)
    ultimately show ?thesis by blast
  qed
  show "cr_Read r n = Ok ([], Some EOF, r) \<and> stored_content data r = []"
    if e: "s_off s = s_limit s" and i: "Suc i = n_chunks data"
  proof
    have "length (chunks r) = Suc i" using st(5) i by simp
    then have "cr_reset r (1 + int i) = Ok (Some EOF, r)" using stored_reset_end [of r] by simp
    then show "cr_Read r n = Ok ([], Some EOF, r)"
      by (subst cr_Read.simps) (simp add: st(2,3) rd [OF e] r1 add.commute)
    show "stored_content data r = []" using e st(10) chunk_end_last [OF i ne] k content by simp
  qed
qed

lemma stored_clean:
  assumes f: "file_at (section_ReadAt sec) (stored_resource data)"
    and sz: "section_Size sec = int (table_len data + length data)" and ne: "data \<noteq> []" and len: "length data \<le> 0xffffffff"
  shows "clean_reader cr_Read (stored_inv sec data) (stored_content data) (\<lambda>_. EOF) (\<lambda>_. 0)"
proof -
  have main: "\<exists>b e r'. cr_Read r n = Ok (b, e, r') \<and> stored_inv sec data r' \<and> length b \<le> n \<and>
      stored_content data r = b @ stored_content data r' \<and>
      (e = None \<and> (0 < n \<longrightarrow> b \<noteq> []) \<or> e = Some EOF \<and> b = [] \<and> stored_content data r' = [])"
    if inv: "stored_inv sec data r" for r n
  proof -
    from inv obtain i s where at: "stored_at sec data i s r" by (auto simp: stored_inv_def)
    note cs = stored_cases [OF f sz ne len]
    have inside: ?thesis if "stored_at sec data j t q" "s_off t < s_limit t" "cr_Read r n = cr_Read q n"
      "stored_content data q = stored_content data r" for j t q
      using cs(1) [OF that(1,2), of n] that(3,4) unfolding stored_inv_def by metis
    consider "s_off s < s_limit s" | "s_off s = s_limit s" "Suc i < n_chunks data" | "s_off s = s_limit s" "Suc i = n_chunks data"
      using at unfolding stored_at_def by linarith
    then show ?thesis
    proof cases
      case 1
      then show ?thesis using inside [OF at] by simp
    next
      case 2
      then obtain r' where r': "cr_Read r n = cr_Read r' n" "stored_at sec data (Suc i) (chunk_sec sec data (Suc i)) r'"
        "stored_content data r' = stored_content data r"
        using cs(2) [OF at 2] by blast
      then show ?thesis using inside [OF r'(2)] chunk_nonempty [OF 2(2) ne] by (simp add: chunk_sec_def)
    next
      case 3
      then show ?thesis using cs(3) [OF at 3, of n] inv by auto
    qed
  qed
  show ?thesis
  proof
    fix r n b e r'
    assume inv: "stored_inv sec data r"
    show "\<exists>b e r'. cr_Read r n = Ok (b, e, r')" using main [OF inv] by blast
    assume "cr_Read r n = Ok (b, e, r')"
    then show "stored_inv sec data r' \<and> EOF = EOF" "length b \<le> n \<and> stored_content data r = b @ stored_content data r'"
      using main [OF inv, of n] by auto
  next
    fix r n b x r'
    assume inv: "stored_inv sec data r" and "cr_Read r n = Ok (b, Some x, r')"
    then show "x = EOF \<and> stored_content data r' = []" "b = []" using main [OF inv, of n] by auto
  next
    fix r n b r'
    assume inv: "stored_inv sec data r" and "0 < n" "cr_Read r n = Ok (b, None, r')"
    then show "b \<noteq> [] \<or> 0 < (0 :: nat)" using main [OF inv, of n] by auto
  qed
qed

lemma chunk_table_dec:
  "dec_list (le_dec :: bytes \<Rightarrow> u32) 4 (n - 1) (chunk_table n) = map (\<lambda>i. of_nat (32768 * i)) [1..<n]"
  unfolding chunk_table_def by (rule le32.dec_list_enc) (auto simp: list_all_iff)

lemma sdiv_nonneg: "0 \<le> (a :: int) \<Longrightarrow> 0 < b \<Longrightarrow> a sdiv b = a div b"
  by (cases "a = 0") (simp_all add: signed_divide_int_eq_divide_int)

lemma read_chunks_stored:
  assumes f: "file_at ra F" and "F = pre @ stored_resource data @ post" and "length F < 2 ^ 62"
    and ne: "data \<noteq> []" and len: "length data \<le> 0xffffffff"
  defines "sec \<equiv> NewSectionReader ra (int (length pre)) (int (length (stored_resource data)))"
  obtains sec' where "read_chunks sec (int (length data)) = Some (Ok (map (chunk_start data) [0..<n_chunks data]), sec')"
    and "s_r sec' = ra" and "s_base sec' = int (length pre)" and "s_limit sec' = int (length pre + length (stored_resource data))"
proof -
  let ?R = "stored_resource data" and ?n = "n_chunks data"
  let ?L = "int (length pre + length ?R)"
  have lim: "s_limit sec = ?L" "s_base sec = int (length pre)" "s_off sec = int (length pre)" "s_r sec = ra"
    using assms(2,3) by (simp_all add: sec_def NewSectionReader_def)
  have ok: "sec_ok ra F (int (length pre)) ?L sec" using assms(2) lim by (simp add: sec_ok_def)
  have content: "sec_content F sec = chunk_table ?n @ data"
    by (simp add: sec_content_def lim assms(2) stored_resource_def)
  have n: "wrap64 (int (length data) + chunkSize - 1) sdiv chunkSize = int ?n"
    using len by (simp add: chunkSize_def n_chunks_def sdiv_nonneg zdiv_int)
  have pos: "0 < ?n" by (rule n_chunks_bounds(1) [OF ne])
  have k: "nat (int ?n - 1) = ?n - 1" by simp
  obtain sec' where s': "sec_ok ra F (int (length pre)) ?L sec'"
    "binary_Read section_Read (dec_list (le_dec :: bytes \<Rightarrow> u32) 4 (?n - 1)) (4 * (?n - 1)) sec =
      Some (Ok (dec_list le_dec 4 (?n - 1) (chunk_table ?n)), sec')"
    using io_reader.binary_Read_enough [OF clean_reader.axioms(1) [OF file_at.section_clean [OF f]] ok content length_table]
    by metis
  have small: "32768 * i < 0xffffffff" if "i < ?n" for i
  proof -
    have "32768 * i \<le> 32768 * (?n - 1)" using that by simp
    then show ?thesis using n_chunks_bounds(2) [OF ne] len by linarith
  qed
  have u: "uint (of_nat (32768 * i) :: u32) = int (32768 * i)" if "i < ?n" for i
    using small [OF that] unfolding uint_nat by (subst unat_of_nat_eq_iff [THEN iffD2]) simp_all
  have w: "wrap64 (int (32768 * i) + (int ?n - 1) * 4) = chunk_start data i" if "i < ?n" for i
    using small [OF that] small [of "?n - 1"] pos that by (simp add: chunk_start_def table_len_def of_nat_diff)
  have "[0..<?n] = 0 # [1..<?n]" using pos by (simp add: upt_conv_Cons)
  then have "map (\<lambda>c. wrap64 (c + (int ?n - 1) * 4)) (0 # map uint (map (\<lambda>i. of_nat (32768 * i) :: u32) [1..<?n])) =
      map (chunk_start data) [0..<?n]"
    using w [of 0] pos u w by (simp del: of_nat_mult)
  then have "read_chunks sec (int (length data)) = Some (Ok (map (chunk_start data) [0..<?n]), sec')"
    using pos len s'(2) unfolding read_chunks_def Let_def n k chunk_table_dec by (simp add: comp_def)
  with that s'(1) show ?thesis by (simp add: sec_ok_def)
qed

text \<open>The reader of a stored chunk behaves as its section.\<close>

definition chunk_ok :: "readerAt \<Rightarrow> bytes \<Rightarrow> int \<Rightarrow> int \<Rightarrow> chunk_reader \<Rightarrow> bool" where
  "chunk_ok ra F B L d = (case d of Stored s \<Rightarrow> sec_ok ra F B L s | Compressed _ \<Rightarrow> False)"

definition chunk_content :: "bytes \<Rightarrow> chunk_reader \<Rightarrow> bytes" where
  "chunk_content F d = (case d of Stored s \<Rightarrow> sec_content F s | Compressed _ \<Rightarrow> [])"

lemma chunk_clean:
  assumes "file_at ra F"
  shows "clean_reader chunk_Read (chunk_ok ra F B L) (chunk_content F) (\<lambda>_. EOF) (\<lambda>_. 0)"
proof -
  note c = file_at.section_clean [OF assms, of B L]
  note io = clean_reader.axioms(1) [OF c]
  have eq: "chunk_ok ra F B L d \<Longrightarrow> chunk_Read d n = Ok (b, e, d') \<Longrightarrow>
      \<exists>s s'. d = Stored s \<and> d' = Stored s' \<and> sec_ok ra F B L s \<and> section_Read s n = Ok (b, e, s')" for d n b e d'
    by (cases d) (auto simp: chunk_ok_def bind_res_Ok_iff)
  show ?thesis
  proof
    fix d n b e d'
    assume ok: "chunk_ok ra F B L d"
    then obtain s where "d = Stored s" "sec_ok ra F B L s" by (auto simp: chunk_ok_def split: chunk_reader.splits)
    then show "\<exists>b e d'. chunk_Read d n = Ok (b, e, d')" using io_reader.rd_total [OF io, of s n] by auto
    assume "chunk_Read d n = Ok (b, e, d')"
    from eq [OF ok this] obtain s s' where s: "d = Stored s" "d' = Stored s'" "sec_ok ra F B L s" "section_Read s n = Ok (b, e, s')"
      by blast
    show "chunk_ok ra F B L d' \<and> EOF = EOF" "length b \<le> n \<and> chunk_content F d = b @ chunk_content F d'"
      using io_reader.rd_inv [OF io s(3,4)] io_reader.rd_prefix [OF io s(3,4)] s(1,2) by (auto simp: chunk_ok_def chunk_content_def)
  next
    fix d n b x d'
    assume ok: "chunk_ok ra F B L d" "chunk_Read d n = Ok (b, Some x, d')"
    from eq [OF ok] obtain s s' where s: "d' = Stored s'" "sec_ok ra F B L s" "section_Read s n = Ok (b, Some x, s')" by blast
    show "x = EOF \<and> chunk_content F d' = []" "b = []"
      using io_reader.rd_end [OF io s(2,3)] clean_reader.rd_clean [OF c s(2,3)] s(1) by (auto simp: chunk_content_def)
  next
    fix d n b d'
    assume ok: "chunk_ok ra F B L d" and n: "0 < n" and rd: "chunk_Read d n = Ok (b, None, d')"
    from eq [OF ok rd] obtain s s' where s: "sec_ok ra F B L s" "section_Read s n = Ok (b, None, s')" by blast
    show "b \<noteq> [] \<or> 0 < (0 :: nat)" using io_reader.rd_progress [OF io s(1) n s(2)] .
  qed
qed

text \<open>Skipping to an offset inside a stored chunk.\<close>

lemma chunk_skip:
  assumes f: "file_at (section_ReadAt sec) (stored_resource data)" and i: "i < n_chunks data" and ne: "data \<noteq> []"
    and k: "chunk_start data i + int k < chunk_end data i"
  obtains s where "CopyN chunk_Read (int k) (Stored (chunk_sec sec data i)) = Some (Ok (), Stored s)"
    and "s_r s = section_ReadAt sec" and "s_off s = chunk_start data i + int k" and "s_limit s = chunk_end data i"
proof -
  let ?R = "stored_resource data" and ?B = "chunk_start data i" and ?L = "chunk_end data i"
  let ?c = "chunk_sec sec data i"
  have ok: "sec_ok (section_ReadAt sec) ?R ?B ?L ?c"
    by (simp add: sec_ok_def chunk_sec_def chunk_start_def chunk_end_def length_stored_resource)
  have len: "length (sec_content ?R s) = nat (?L - s_off s)" if "sec_ok (section_ReadAt sec) ?R ?B ?L s" for s
    using that by (auto simp: sec_ok_def sec_content_def)
  let ?a = "take k (sec_content ?R ?c)"
  have "k \<le> length (sec_content ?R ?c)" using len [OF ok] k by (simp add: chunk_sec_def)
  then obtain d where d: "chunk_ok (section_ReadAt sec) ?R ?B ?L d" "chunk_content ?R d = drop k (sec_content ?R ?c)"
    "CopyN chunk_Read (int k) (Stored ?c) = Some (Ok (), d)"
    using clean_reader.CopyN_enough [OF chunk_clean [OF f], of ?B ?L "Stored ?c" ?a "drop k (sec_content ?R ?c)" "int k"] ok
    by (auto simp: chunk_ok_def chunk_content_def)
  then obtain s where s: "d = Stored s" "sec_ok (section_ReadAt sec) ?R ?B ?L s" by (auto simp: chunk_ok_def split: chunk_reader.splits)
  then have "nat (?L - s_off s) = nat (?L - ?B) - k" using len [OF s(2)] len [OF ok] d(2) by (simp add: chunk_content_def chunk_sec_def)
  then have "s_off s = ?B + int k" using k by linarith
  with that d(3) s show ?thesis by (simp add: sec_ok_def)
qed

text \<open>
  C28: Reading a compressed resource whose chunks are all stored, from any offset inside it:
  the chunk table is decoded, the chunk of the offset is opened and the bytes before the
  offset are skipped; \<^verbatim>\<open>io.ReadAll\<close> then delivers all of the data from the offset on,
  across the chunks and whatever lies before and after the resource in the file, and ends
  without an error.
\<close>

theorem compressed_reader_stored:
  assumes "file_at ra (pre @ stored_resource data @ post)" and "length (pre @ stored_resource data @ post) < 2 ^ 62"
    and "length data \<le> 0xffffffff" and "off < length data"
  shows "\<exists>cr cr'. newCompressedReader (NewSectionReader ra (int (length pre)) (int (length (stored_resource data))))
      (int (length data)) (int off) = Some (Ok cr) \<and>
    ReadAll cr_Read cr = Some (Ok (drop off data, None, cr'))"
proof -
  let ?F = "pre @ stored_resource data @ post" and ?R = "stored_resource data"
  have ne: "data \<noteq> []" using assms(4) by auto
  obtain sec where rc: "read_chunks (NewSectionReader ra (int (length pre)) (int (length ?R))) (int (length data)) =
      Some (Ok (map (chunk_start data) [0..<n_chunks data]), sec)"
    and sec: "s_r sec = ra" "s_base sec = int (length pre)" "s_limit sec = int (length pre + length ?R)"
    by (rule read_chunks_stored [OF assms(1) refl assms(2) ne assms(3)])
  have "file_at (section_ReadAt sec) (take (nat (s_limit sec - s_base sec)) (drop (nat (s_base sec)) ?F))"
    by (rule file_at.section_file [OF assms(1)]) (use sec assms(2) in auto)
  then have f: "file_at (section_ReadAt sec) ?R" by (simp add: sec)
  have sz: "section_Size sec = int (table_len data + length data)"
    using assms(2) by (simp add: section_Size_def sec length_stored_resource)
  let ?i = "off div 32768"
  have i: "?i < n_chunks data"
    using assms(4) n_chunks_bounds(3) [OF ne] by (simp add: less_mult_imp_div_less mult.commute)
  have io: "int off sdiv chunkSize = int ?i" "int off smod chunkSize = int (off mod 32768)"
    by (simp_all add: chunkSize_def sdiv_nonneg zdiv_int smod_mod_positive zmod_int)
  define r where "r = \<lparr>cr_r = sec, cr_d = None, chunks = map (chunk_start data) [0..<n_chunks data], curChunk = 0,
      originalSize = int (length data)\<rparr>"
  define r1 where "r1 = r\<lparr>curChunk := int ?i, cr_d := Some (Stored (chunk_sec sec data ?i))\<rparr>"
  have reset: "cr_reset r (int ?i) = Ok (None, r1)"
    unfolding r1_def by (rule stored_reset [OF _ _ sz _ ne i assms(3)]) (simp_all add: r_def)
  have at: "stored_at sec data ?i (chunk_sec sec data ?i) r1"
    using i chunk_nonempty [OF i ne] by (simp add: stored_at_def r1_def r_def chunk_sec_def)
  let ?k = "off mod 32768"
  have off: "chunk_start data ?i + int ?k = int (table_len data + off)"
    unfolding chunk_start_def by (simp only: of_nat_add [symmetric]) simp
  have k: "chunk_start data ?i + int ?k < chunk_end data ?i"
    unfolding off using assms(4) by (simp add: chunk_end_def)
  obtain s where s: "CopyN chunk_Read (int ?k) (Stored (chunk_sec sec data ?i)) = Some (Ok (), Stored s)"
    "s_r s = section_ReadAt sec" "s_off s = int (table_len data + off)" "s_limit s = chunk_end data ?i"
    by (rule chunk_skip [OF f i ne k, unfolded off])
  define cr where "cr = (if ?k = 0 then r1 else r1\<lparr>cr_d := Some (Stored s)\<rparr>)"
  have new: "newCompressedReader (NewSectionReader ra (int (length pre)) (int (length ?R))) (int (length data)) (int off) = Some (Ok cr)"
    using reset s(1) by (simp add: newCompressedReader_def rc io Let_def cr_def flip: r_def) (simp add: r1_def)
  have "stored_at sec data ?i (if ?k = 0 then chunk_sec sec data ?i else s) cr"
    using at s k off by (simp add: cr_def stored_at_def r1_def r_def)
  then have "stored_inv sec data cr" unfolding stored_inv_def by blast
  moreover have "stored_content data cr = drop off data"
  proof (cases "?k = 0")
    case True
    then have "nat (chunk_start data ?i) = table_len data + off" using off by simp
    then show ?thesis using True by (simp add: stored_content_def cr_def r1_def chunk_sec_def)
  next
    case False
    then show ?thesis using s(3) by (simp add: stored_content_def cr_def r1_def nat_add_distrib)
  qed
  ultimately show ?thesis
    using new io_reader.io_copy_correct [OF clean_reader.axioms(1) [OF stored_clean [OF f sz ne assms(3)]], of cr 512 "[]"]
    by (auto simp: ReadAll_def)
qed

theorem compressed_reader_stored_witness:
  "\<exists>cr cr'. newCompressedReader
      (NewSectionReader (mem_at ([9] @ stored_resource [1, 2, 3] @ [])) (int (length [9 :: byte]))
        (int (length (stored_resource [1, 2, 3])))) (int (length [1, 2, 3 :: byte])) (int 1) = Some (Ok cr) \<and>
    ReadAll cr_Read cr = Some (Ok (drop 1 [1, 2, 3], None, cr'))"
  by (rule compressed_reader_stored) (rule memf.file_at_axioms, simp_all add: length_stored_resource table_len_def n_chunks_def)

end
