(* ===== verification/Wim.thy ===== *)
theory Wim
  imports Wim_Resource Go_Utf
begin

text \<open>
  The WIM file parser (\<^verbatim>\<open>src/wim/wim.go\<close>): the header, the offset table, the security
  descriptors, the directory entries with their streams, and the position that an image keeps
  in its metadata resource. The reader of that resource is a parameter of the operations that
  parse, \<open>opn\<close> opens it at an offset; they are put together with the resource readers at the
  end. \<^verbatim>\<open>xml.Unmarshal\<close> is a parameter.
\<close>

section \<open>Errors\<close>

definition the_default :: "'a \<Rightarrow> 'a option \<Rightarrow> 'a" where
  "the_default d x = (case x of None \<Rightarrow> d | Some y \<Rightarrow> y)"

definition text_of :: "gostring \<Rightarrow> string" where
  "text_of s = map (\<lambda>b. char_of (unat b)) s"

definition ParseError :: "string \<Rightarrow> gostring \<Rightarrow> go_error \<Rightarrow> go_error" where
  "ParseError oper path err =
     (if path = [] then ErrWrap (''WIM parse error at '' @ oper) err
      else ErrWrap (''WIM parse error: '' @ oper @ '' '' @ text_of path) err)"

definition map_io_err :: "(go_error \<Rightarrow> go_error) \<Rightarrow> ('a, 's) io \<Rightarrow> ('a, 's) io" where
  "map_io_err g m = map_option (\<lambda>(r, s). (map_err g r, s)) m"

lemma map_io_err_simps [simp, go_simps]:
  "map_io_err g None = None" "map_io_err g (Some (Ok x, s)) = Some (Ok x, s)"
  "map_io_err g (Some (Err e, s)) = Some (Err (g e), s)" "map_io_err g (Some (Panic p, s)) = Some (Panic p, s)"
  by (simp_all add: map_io_err_def)

definition unexpected :: "go_error \<Rightarrow> go_error" where
  "unexpected e = (if e = EOF then ErrUnexpectedEOF else e)"

section \<open>Structures on disk\<close>

definition field :: "bytes \<Rightarrow> nat \<Rightarrow> nat \<Rightarrow> bytes" where
  "field b i n = take n (drop i b)"

definition resourceDescriptor_dec :: "bytes \<Rightarrow> resourceDescriptor" where
  "resourceDescriptor_dec b =
     \<lparr>FlagsAndCompressedSize = le_dec (field b 0 8), rd_Offset = i64_dec (field b 8 8), OriginalSize = i64_dec (field b 16 8)\<rparr>"

record streamDescriptor =
  sd_res :: resourceDescriptor
  sd_PartNumber :: u16
  sd_RefCount :: u32
  sd_Hash :: bytes

definition streamDescriptor_dec :: "bytes \<Rightarrow> streamDescriptor" where
  "streamDescriptor_dec b =
     \<lparr>sd_res = resourceDescriptor_dec (field b 0 24), sd_PartNumber = le_dec (field b 24 2),
      sd_RefCount = le_dec (field b 26 4), sd_Hash = field b 30 20\<rparr>"

definition hdrFlagReadOnly :: u32 where "hdrFlagReadOnly = 4"
definition hdrFlagCompressed :: u32 where "hdrFlagCompressed = 2"
definition hdrFlagRpFix :: u32 where "hdrFlagRpFix = 128"
definition hdrFlagCompressLzx :: u32 where "hdrFlagCompressLzx = 0x40000"
definition supportedHdrFlags :: u32 where
  "supportedHdrFlags = ((hdrFlagRpFix OR hdrFlagReadOnly) OR hdrFlagCompressed) OR hdrFlagCompressLzx"

definition wimImageTag :: bytes where "wimImageTag = [0x4d, 0x53, 0x57, 0x49, 0x4d, 0, 0, 0]"

record wimHeader =
  ImageTag :: bytes
  hdr_Size :: u32
  hdr_Version :: u32
  hdr_Flags :: u32
  CompressionSize :: u32
  WIMGuid :: bytes
  hdr_PartNumber :: u16
  TotalParts :: u16
  ImageCount :: u32
  OffsetTable :: resourceDescriptor
  XMLData :: resourceDescriptor
  BootMetadata :: resourceDescriptor
  BootIndex :: u32
  Integrity :: resourceDescriptor

definition wimHeader_dec :: "bytes \<Rightarrow> wimHeader" where
  "wimHeader_dec b =
     \<lparr>ImageTag = field b 0 8, hdr_Size = le_dec (field b 8 4), hdr_Version = le_dec (field b 12 4),
      hdr_Flags = le_dec (field b 16 4), CompressionSize = le_dec (field b 20 4), WIMGuid = field b 24 16,
      hdr_PartNumber = le_dec (field b 40 2), TotalParts = le_dec (field b 42 2), ImageCount = le_dec (field b 44 4),
      OffsetTable = resourceDescriptor_dec (field b 48 24), XMLData = resourceDescriptor_dec (field b 72 24),
      BootMetadata = resourceDescriptor_dec (field b 96 24), BootIndex = le_dec (field b 120 4),
      Integrity = resourceDescriptor_dec (field b 128 24)\<rparr>"

definition wimHeaderSize :: nat where "wimHeaderSize = 212"

text \<open>A \<^verbatim>\<open>Filetime\<close>, its low and high part, and the nanoseconds since 1970.\<close>

record Filetime =
  LowDateTime :: u32
  HighDateTime :: u32

definition Filetime_Time :: "Filetime \<Rightarrow> int" where
  "Filetime_Time ft =
     wrap64 (wrap64 (wrap64 (uint (HighDateTime ft) * 2 ^ 32 + uint (LowDateTime ft)) - 116444736000000000) * 100)"

definition Filetime_dec :: "bytes \<Rightarrow> Filetime" where
  "Filetime_dec b = \<lparr>LowDateTime = le_dec (field b 0 4), HighDateTime = le_dec (field b 4 4)\<rparr>"

record direntry =
  de_Attributes :: u32
  SecurityID :: u32
  SubdirOffset :: int
  de_CreationTime :: Filetime
  de_LastAccessTime :: Filetime
  de_LastWriteTime :: Filetime
  de_Hash :: bytes
  ReparseHardLink :: u64
  StreamCount :: u16
  ShortNameLength :: u16
  FileNameLength :: u16

definition direntry_dec :: "bytes \<Rightarrow> direntry" where
  "direntry_dec b =
     \<lparr>de_Attributes = le_dec (field b 0 4), SecurityID = le_dec (field b 4 4), SubdirOffset = i64_dec (field b 8 8),
      de_CreationTime = Filetime_dec (field b 32 8), de_LastAccessTime = Filetime_dec (field b 40 8),
      de_LastWriteTime = Filetime_dec (field b 48 8), de_Hash = field b 56 20,
      ReparseHardLink = le_dec (field b 80 8), StreamCount = le_dec (field b 88 2),
      ShortNameLength = le_dec (field b 90 2), FileNameLength = le_dec (field b 92 2)\<rparr>"

definition direntrySize :: int where "direntrySize = 102"

record streamentry =
  se_Hash :: bytes
  NameLength :: "16 word"

definition streamentry_dec :: "bytes \<Rightarrow> streamentry" where
  "streamentry_dec b = \<lparr>se_Hash = field b 8 20, NameLength = le_dec (field b 28 2)\<rparr>"

definition streamentrySize :: int where "streamentrySize = 38"

definition FILE_ATTRIBUTE_DIRECTORY :: u32 where "FILE_ATTRIBUTE_DIRECTORY = 0x10"
definition FILE_ATTRIBUTE_REPARSE_POINT :: u32 where "FILE_ATTRIBUTE_REPARSE_POINT = 0x400"

section \<open>Files and streams\<close>

type_synonym file_data = "bytes \<rightharpoonup> resourceDescriptor"

definition zero_resource :: resourceDescriptor where
  "zero_resource = \<lparr>FlagsAndCompressedSize = 0, rd_Offset = 0, OriginalSize = 0\<rparr>"

definition zero_hash :: bytes where "zero_hash = replicate 20 0"

record wim_stream =
  st_Name :: gostring
  st_Hash :: bytes
  st_Size :: int
  st_offset :: resourceDescriptor

record wim_file =
  f_Name :: gostring
  f_ShortName :: gostring
  f_Attributes :: u32
  SecurityDescriptor :: "bytes option"
  CreationTime :: Filetime
  LastAccessTime :: Filetime
  LastWriteTime :: Filetime
  f_Hash :: bytes
  f_Size :: int
  LinkID :: u64
  ReparseTag :: u32
  ReparseReserved :: u32
  Streams :: "wim_stream list"
  f_offset :: resourceDescriptor
  subdirOffset :: int

definition IsDir :: "wim_file \<Rightarrow> bool" where
  "IsDir f \<longleftrightarrow> f_Attributes f AND (FILE_ATTRIBUTE_DIRECTORY OR FILE_ATTRIBUTE_REPARSE_POINT) = FILE_ATTRIBUTE_DIRECTORY"

text \<open>The resource of a hash; the zero hash is that of no data.\<close>

definition find_data :: "file_data \<Rightarrow> bytes \<Rightarrow> resourceDescriptor option" where
  "find_data fd h = (if h = zero_hash then Some zero_resource else fd h)"

section \<open>Directory entries\<close>

definition go_string_utf16 :: "u16 list \<Rightarrow> gostring" where
  "go_string_utf16 u = string_of_runes (utf16_Decode u)"

definition readNextStream :: "'s reader \<Rightarrow> file_data \<Rightarrow> 's \<Rightarrow> (wim_stream \<times> int, 's) io" where
  "readNextStream rd fd s =
     io_bind (map_io_err (\<lambda>e. ParseError ''stream length check'' [] (unexpected e)) (binary_Read rd i64_dec 8 s)) (\<lambda>len s.
     if len < streamentrySize then Some (Err (ParseError ''stream entry'' [] (ErrNew ''size too short'')), s)
     else
     io_bind (map_io_err (ParseError ''stream entry'' []) (binary_Read rd streamentry_dec 30 s)) (\<lambda>sentry s.
     let left = len - streamentrySize; nl = sint (NameLength sentry); k = nat (nl sdiv 2) in
     if left < nl then Some (Err (ParseError ''stream entry'' [] (ErrNew ''size too short for name'')), s)
     else if nl sdiv 2 < 0 then Some (Panic ''makeslice: len out of range'', s)
     else
     io_bind (map_io_err (ParseError ''file name'' []) (binary_Read rd (dec_list le_dec 2 k) (2 * k) s)) (\<lambda>names s.
     let name = go_string_utf16 names in
     case find_data fd (se_Hash sentry) of
       None \<Rightarrow> Some (Err (ParseError ''stream entry'' name (ErrNew ''could not find file data matching hash'')), s)
     | Some off \<Rightarrow>
         io_bind (map_io_err unexpected (CopyN rd (left - nl) s)) (\<lambda>_ s.
         Some (Ok (\<lparr>st_Name = name, st_Hash = se_Hash sentry, st_Size = OriginalSize off, st_offset = off\<rparr>, len), s)))))"

text \<open>The streams of an entry: the first one, when it has no name, is the data of the file.\<close>

fun read_streams ::
  "'s reader \<Rightarrow> file_data \<Rightarrow> nat \<Rightarrow> bool \<Rightarrow> wim_file \<Rightarrow> int \<Rightarrow> 's \<Rightarrow> (wim_file \<times> int, 's) io" where
  "read_streams rd fd 0 first f len s = Some (Ok (f, len), s)"
| "read_streams rd fd (Suc k) first f len s =
     io_bind (readNextStream rd fd s) (\<lambda>(st, n) s.
     let f' = (if first \<and> st_Name st = [] then f\<lparr>f_Hash := st_Hash st, f_Size := st_Size st, f_offset := st_offset st\<rparr>
               else if st_Name st \<noteq> [] then f\<lparr>Streams := Streams f @ [st]\<rparr>
               else f)
     in read_streams rd fd k False f' (wrap64 (len + n)) s)"

text \<open>The names of an entry: their common length is a 16-bit sum.\<close>

definition entry_names :: "direntry \<Rightarrow> u16 list \<Rightarrow> (gostring \<times> gostring) res" where
  "entry_names de names =
     (let k = unat (FileNameLength de div 2) in
      bind_res (if FileNameLength de > 0 then slice names 0 k else Ok []) (\<lambda>n1.
      bind_res (if ShortNameLength de > 0 then slice names (k + 1) (length names) else Ok []) (\<lambda>n2.
      Ok (go_string_utf16 n1, go_string_utf16 n2))))"

definition new_file :: "direntry \<Rightarrow> gostring \<Rightarrow> gostring \<Rightarrow> resourceDescriptor \<Rightarrow> wim_file" where
  "new_file de name short off =
     (let reparse = (de_Attributes de AND FILE_ATTRIBUTE_REPARSE_POINT \<noteq> 0) in
      \<lparr>f_Name = name, f_ShortName = short, f_Attributes = de_Attributes de, SecurityDescriptor = None,
       CreationTime = de_CreationTime de, LastAccessTime = de_LastAccessTime de, LastWriteTime = de_LastWriteTime de,
       f_Hash = de_Hash de, f_Size = OriginalSize off,
       LinkID = (if reparse then 0 else ReparseHardLink de),
       ReparseTag = (if reparse then ucast (ReparseHardLink de) else 0),
       ReparseReserved = (if reparse then ucast (drop_bit 32 (ReparseHardLink de)) else 0),
       Streams = [], f_offset = off, subdirOffset = SubdirOffset de\<rparr>)"

definition security_of :: "bytes list \<Rightarrow> direntry \<Rightarrow> bytes option res" where
  "security_of sds de =
     (if SecurityID de \<noteq> 0xffffffff then bind_res (index sds (unat (SecurityID de))) (\<lambda>sd. Ok (Some sd)) else Ok None)"

definition io_res :: "'a res \<Rightarrow> 's \<Rightarrow> ('a, 's) io" where
  "io_res r s = Some (r, s)"

lemma io_bind_io_res [simp]: "io_bind (io_res (Ok x) s) f = f x s"
  by (simp add: io_res_def)

text \<open>
  \<^verbatim>\<open>readNextEntry\<close>: \<open>None\<close> is the end of the directory, which returns \<^verbatim>\<open>io.EOF\<close> and
  a length of 8; otherwise the file and the length of its entry and streams.
\<close>

definition readNextEntry ::
  "'s reader \<Rightarrow> file_data \<Rightarrow> bytes list \<Rightarrow> 's \<Rightarrow> ((wim_file \<times> int) option, 's) io" where
  "readNextEntry rd fd sds s =
     io_bind (map_io_err (ParseError ''directory length check'' []) (binary_Read rd i64_dec 8 s)) (\<lambda>len s.
     if len = 0 then Some (Ok None, s)
     else if len < direntrySize then Some (Err (ParseError ''directory entry'' [] (ErrNew ''size too short'')), s)
     else
     io_bind (map_io_err (ParseError ''directory entry'' []) (binary_Read rd direntry_dec 94 s)) (\<lambda>de s.
     let left = len - direntrySize; namesLen = uint (FileNameLength de + 2 + ShortNameLength de); k = nat (namesLen div 2) in
     if left < namesLen then Some (Err (ParseError ''directory entry'' [] (ErrNew ''size too short for names'')), s)
     else
     io_bind (map_io_err (ParseError ''file name'' []) (binary_Read rd (dec_list le_dec 2 k) (2 * k) s)) (\<lambda>names s.
     io_bind (io_res (entry_names de names) s) (\<lambda>(name, short) s.
     case find_data fd (de_Hash de) of
       None \<Rightarrow> Some (Err (ParseError ''directory entry'' name (ErrNew ''could not find file data matching hash'')), s)
     | Some off \<Rightarrow>
         let f = new_file de name short off;
             isDir = (de_Attributes de AND FILE_ATTRIBUTE_REPARSE_POINT = 0 \<and> de_Attributes de AND FILE_ATTRIBUTE_DIRECTORY \<noteq> 0)
         in
         if isDir \<and> subdirOffset f = 0 then
           Some (Err (ParseError ''directory entry'' name (ErrNew ''no subdirectory data for directory'')), s)
         else if \<not> isDir \<and> subdirOffset f \<noteq> 0 then
           Some (Err (ParseError ''directory entry'' name (ErrNew ''unexpected subdirectory data for non-directory'')), s)
         else
           io_bind (io_res (security_of sds de) s) (\<lambda>sd s.
           io_bind (map_io_err unexpected (CopyN rd (left - namesLen) s)) (\<lambda>_ s.
           io_bind (read_streams rd fd (unat (StreamCount de)) True (f\<lparr>SecurityDescriptor := sd\<rparr>) len s) (\<lambda>(f, len) s.
           if de_Attributes de AND FILE_ATTRIBUTE_REPARSE_POINT \<noteq> 0 \<and> f_Size f = 0 then
             Some (Err (ParseError ''directory entry'' name (ErrNew ''reparse point is missing reparse stream'')), s)
           else Some (Ok (Some (f, len)), s))))))))"

section \<open>Images\<close>

text \<open>
  An image keeps the reader of its metadata resource and the position it believes that reader
  to be at.
\<close>

record 's image =
  img_offset :: resourceDescriptor
  img_sds :: "bytes list option"
  rootOffset :: int
  img_r :: "'s option"
  curOffset :: int

definition img_reset :: "'s image \<Rightarrow> 's image" where
  "img_reset img = img\<lparr>img_r := None, curOffset := - 1\<rparr>"

text \<open>The entries up to the end of the directory, with the bytes they took.\<close>

partial_function (option) read_entries ::
  "'s reader \<Rightarrow> file_data \<Rightarrow> bytes list \<Rightarrow> 's \<Rightarrow> wim_file list \<Rightarrow> int \<Rightarrow> (wim_file list \<times> int, 's) io" where
  "read_entries rd fd sds s acc n =
     (case readNextEntry rd fd sds s of
        None \<Rightarrow> None
      | Some (Err e, s') \<Rightarrow> Some (Err e, s')
      | Some (Panic p, s') \<Rightarrow> Some (Panic p, s')
      | Some (Ok None, s') \<Rightarrow> Some (Ok (acc, wrap64 (n + 8)), s')
      | Some (Ok (Some (f, k)), s') \<Rightarrow> read_entries rd fd sds s' (acc @ [f]) (wrap64 (n + k)))"

text \<open>The image moved to an offset: the reader is opened again, or the bytes up to it are skipped.\<close>

definition seek_image ::
  "'s reader \<Rightarrow> (int \<Rightarrow> 's res option) \<Rightarrow> 's image \<Rightarrow> int \<Rightarrow> ('s, 's image) io" where
  "seek_image rd opn img off =
     (let img1 = (if off < curOffset img \<or> off > wrap64 (curOffset img + chunkSize) then img_reset img else img) in
      io_bind
        (case img_r img1 of
           Some s \<Rightarrow> Some (Ok s, img1)
         | None \<Rightarrow>
             (case opn off of
                None \<Rightarrow> None
              | Some (Err e) \<Rightarrow> Some (Err e, img1)
              | Some (Panic p) \<Rightarrow> Some (Panic p, img1)
              | Some (Ok s) \<Rightarrow> Some (Ok s, img1\<lparr>img_r := Some s, curOffset := off\<rparr>))) (\<lambda>s img2.
      if off > curOffset img2 then
        (case CopyN rd (wrap64 (off - curOffset img2)) s of
           None \<Rightarrow> None
         | Some (Ok _, s') \<Rightarrow> Some (Ok s', img2\<lparr>img_r := Some s'\<rparr>)
         | Some (Err e, s') \<Rightarrow> Some (Err (unexpected e), img_reset img2)
         | Some (Panic p, s') \<Rightarrow> Some (Panic p, img2\<lparr>img_r := Some s'\<rparr>))
      else Some (Ok s, img2)))"

definition readdir ::
  "'s reader \<Rightarrow> (int \<Rightarrow> 's res option) \<Rightarrow> file_data \<Rightarrow> 's image \<Rightarrow> int \<Rightarrow> (wim_file list, 's image) io" where
  "readdir rd opn fd img off =
     io_bind (seek_image rd opn img off) (\<lambda>s img.
     case read_entries rd fd (the_default [] (img_sds img)) s [] 0 of
       None \<Rightarrow> None
     | Some (Ok (es, n), s') \<Rightarrow> Some (Ok es, img\<lparr>img_r := Some s', curOffset := wrap64 (curOffset img + n)\<rparr>)
     | Some (Err e, s') \<Rightarrow> Some (Err e, img_reset img)
     | Some (Panic p, s') \<Rightarrow> Some (Panic p, img\<lparr>img_r := Some s'\<rparr>))"

text \<open>The table of security descriptors at the start of the metadata, and its padded length.\<close>

fun read_sds :: "'s reader \<Rightarrow> int list \<Rightarrow> bytes list \<Rightarrow> int \<Rightarrow> 's \<Rightarrow> (bytes list \<times> int, 's) io" where
  "read_sds rd [] acc n s = Some (Ok (acc, n), s)"
| "read_sds rd (sz # szs) acc n s =
     io_bind (map_io_err (ParseError ''security descriptor'' []) (binary_Read rd id (nat (take_bit 32 sz)) s)) (\<lambda>sd s.
     read_sds rd szs (acc @ [sd]) (n + int (length sd)) s)"

definition readSecurityDescriptors :: "'s reader \<Rightarrow> 's \<Rightarrow> (bytes list \<times> int, 's) io" where
  "readSecurityDescriptors rd s =
     io_bind (map_io_err (ParseError ''security table'' [])
       (binary_Read rd (\<lambda>b. (le_dec (field b 0 4), le_dec (field b 4 4)) :: u32 \<times> u32) 8 s)) (\<lambda>(total, num) s.
     io_bind (map_io_err (ParseError ''security table sizes'' [])
       (binary_Read rd (dec_list i64_dec 8 (unat num)) (8 * unat num) s)) (\<lambda>sizes s.
     io_bind (read_sds rd sizes [] (8 + uint (num * 8)) s) (\<lambda>(sds, n) s.
     let secsize = uint ((total + 7) AND NOT 7) in
     if n > secsize then
       Some (Err (ParseError ''security descriptor'' [] (ErrNew ''security descriptor table too small'')), s)
     else io_bind (CopyN rd (secsize - n) s) (\<lambda>_ s. Some (Ok (sds, secsize), s)))))"

definition Image_Open ::
  "'s reader \<Rightarrow> (int \<Rightarrow> 's res option) \<Rightarrow> file_data \<Rightarrow> 's image \<Rightarrow> (wim_file, 's image) io" where
  "Image_Open rd opn fd img =
     io_bind
       (if img_sds img = None then
          (case opn (rootOffset img) of
             None \<Rightarrow> None
           | Some (Err e) \<Rightarrow> Some (Err e, img)
           | Some (Panic p) \<Rightarrow> Some (Panic p, img)
           | Some (Ok s) \<Rightarrow>
               (case readSecurityDescriptors rd s of
                  None \<Rightarrow> None
                | Some (Err e, _) \<Rightarrow> Some (Err e, img)
                | Some (Panic p, _) \<Rightarrow> Some (Panic p, img)
                | Some (Ok (sds, n), s') \<Rightarrow>
                    Some (Ok (), img\<lparr>img_sds := Some sds, img_r := Some s', rootOffset := n, curOffset := n\<rparr>)))
        else Some (Ok (), img)) (\<lambda>_ img.
     io_bind (readdir rd opn fd img (rootOffset img)) (\<lambda>fs img.
     case fs of
       [f] \<Rightarrow> Some (Ok f, img)
     | _ \<Rightarrow> Some (Err (ParseError ''root directory'' [] (ErrNew ''expected exactly 1 root directory entry'')), img)))"

definition Readdir ::
  "'s reader \<Rightarrow> (int \<Rightarrow> 's res option) \<Rightarrow> file_data \<Rightarrow> 's image \<Rightarrow> wim_file \<Rightarrow> (wim_file list, 's image) io" where
  "Readdir rd opn fd img f =
     (if \<not> IsDir f then Some (Err (ErrNew ''not a directory''), img) else readdir rd opn fd img (subdirOffset f))"

section \<open>The file\<close>

text \<open>The entries of the offset table: images, and the resources of the hashes.\<close>

function offset_entries :: "bytes \<Rightarrow> file_data \<Rightarrow> resourceDescriptor list \<Rightarrow> (file_data \<times> resourceDescriptor list) res" where
  "offset_entries b fd imgs =
     (case read_fixed streamDescriptor_dec 50 b of
        Err EOF \<Rightarrow> Ok (fd, imgs)
      | Err e \<Rightarrow> Err (ParseError ''offset table'' [] e)
      | Panic p \<Rightarrow> Panic p
      | Ok (sd, b') \<Rightarrow>
          if Flags (sd_res sd) AND NOT supportedResFlags \<noteq> 0 then
            Err (ParseError ''offset table'' [] (ErrNew ''unsupported resource flag''))
          else if Flags (sd_res sd) AND resFlagMetadata \<noteq> 0 then offset_entries b' fd (imgs @ [sd_res sd])
          else offset_entries b' (fd(sd_Hash sd \<mapsto> sd_res sd)) imgs)"
  by pat_completeness auto
termination
  by (relation "measure (\<lambda>(b, _). length b)") (auto simp: read_fixed_Ok_iff)

declare offset_entries.simps [simp del]

definition readOffsetTable :: "readerAt \<Rightarrow> u32 \<Rightarrow> resourceDescriptor \<Rightarrow> (file_data \<times> resource image list) res option" where
  "readOffsetTable r imageCount res =
     map_option (\<lambda>m. bind_res (map_err (ParseError ''offset table'' []) m) (\<lambda>tab.
       bind_res (offset_entries tab Map.empty []) (\<lambda>(fd, imgs).
       if length imgs \<noteq> unat imageCount then Err (ParseError ''offset table'' [] (ErrNew ''mismatched image count''))
       else Ok (fd, map (\<lambda>o1. \<lparr>img_offset = o1, img_sds = None, rootOffset = 0, img_r = None, curOffset = 0\<rparr>) imgs))))
     (readResource r res)"

definition readXML :: "readerAt \<Rightarrow> resourceDescriptor \<Rightarrow> gostring res option" where
  "readXML r xml =
     (if CompressedSize xml = 0 then Some (Ok [])
      else
        (case resourceReader r xml of
           None \<Rightarrow> None
         | Some (Err e) \<Rightarrow> Some (Err e)
         | Some (Panic p) \<Rightarrow> Some (Panic p)
         | Some (Ok rsrc) \<Rightarrow>
             let n = OriginalSize xml sdiv 2 in
             if n < 0 then Some (Panic ''makeslice: len out of range'')
             else
               map_option (\<lambda>(m, _). bind_res (map_err (ParseError ''XML data'' []) m) (\<lambda>d.
                 bind_res (index d 0) (\<lambda>bom.
                 if bom \<noteq> 0xfeff then Err (ParseError ''XML data'' [] (ErrNew ''invalid BOM''))
                 else Ok (go_string_utf16 (tl d)))))
               (binary_Read resource_Read (dec_list le_dec 2 (nat n)) (2 * nat n) rsrc)))"

text \<open>A reader of a WIM file; an image has the information of its index, when there is any.\<close>

record 'i wim_reader =
  w_hdr :: wimHeader
  w_r :: readerAt
  fileData :: file_data
  XMLInfo :: gostring
  Image :: "(resource image \<times> 'i option) list"

definition check_header :: "wimHeader \<Rightarrow> unit res" where
  "check_header hdr =
     (if ImageTag hdr \<noteq> wimImageTag then Err (ParseError ''image tag'' [] (ErrNew ''not a WIM file''))
      else if hdr_Flags hdr AND NOT supportedHdrFlags \<noteq> 0 then
        Err (ErrFmt ''unsupported WIM flags %x'' [uint (hdr_Flags hdr AND NOT supportedHdrFlags)])
      else if CompressionSize hdr \<noteq> 0x8000 then Err (ErrFmt ''unsupported compression size %d'' [uint (CompressionSize hdr)])
      else if TotalParts hdr \<noteq> 1 then Err (ErrNew ''multi-part WIM not supported'')
      else Ok ())"

definition image_info :: "('i \<Rightarrow> int) \<Rightarrow> 'i list \<Rightarrow> nat \<Rightarrow> 'i option" where
  "image_info idx infos i = find (\<lambda>x. idx x = int i + 1) infos"

definition wim_NewReader ::
  "(gostring \<Rightarrow> 'i list res) \<Rightarrow> ('i \<Rightarrow> int) \<Rightarrow> readerAt \<Rightarrow> 'i wim_reader res option" where
  "wim_NewReader xml_Unmarshal idx f =
     (case binary_Read section_Read wimHeader_dec wimHeaderSize (NewSectionReader f 0 0xffff) of
        None \<Rightarrow> None
      | Some (Err e, _) \<Rightarrow> Some (Err e)
      | Some (Panic p, _) \<Rightarrow> Some (Panic p)
      | Some (Ok hdr, _) \<Rightarrow>
          (case check_header hdr of
             Err e \<Rightarrow> Some (Err e)
           | Panic p \<Rightarrow> Some (Panic p)
           | Ok _ \<Rightarrow>
               (case readOffsetTable f (ImageCount hdr) (OffsetTable hdr) of
                  None \<Rightarrow> None
                | Some (Err e) \<Rightarrow> Some (Err e)
                | Some (Panic p) \<Rightarrow> Some (Panic p)
                | Some (Ok (fd, imgs)) \<Rightarrow>
                    map_option (\<lambda>m. bind_res m (\<lambda>xml.
                      bind_res (map_err (ParseError ''XML info'' []) (xml_Unmarshal xml)) (\<lambda>infos.
                      Ok \<lparr>w_hdr = hdr, w_r = f, fileData = fd, XMLInfo = xml,
                          Image = map (\<lambda>(i, img). (img, image_info idx infos i)) (enumerate 0 imgs)\<rparr>)))
                    (readXML f (XMLData hdr)))))"

definition wim_Close :: "'i wim_reader \<Rightarrow> 'i wim_reader" where
  "wim_Close r = r\<lparr>Image := map (\<lambda>(img, inf). (img_reset img, inf)) (Image r)\<rparr>"

definition open_image :: "readerAt \<Rightarrow> file_data \<Rightarrow> resource image \<Rightarrow> (wim_file, resource image) io" where
  "open_image r fd img = Image_Open resource_Read (resourceReaderWithOffset r (img_offset img)) fd img"

definition file_Readdir :: "readerAt \<Rightarrow> file_data \<Rightarrow> resource image \<Rightarrow> wim_file \<Rightarrow> (wim_file list, resource image) io" where
  "file_Readdir r fd img f = Readdir resource_Read (resourceReaderWithOffset r (img_offset img)) fd img f"

definition file_Open :: "readerAt \<Rightarrow> wim_file \<Rightarrow> resource res option" where
  "file_Open r f = resourceReader r (f_offset f)"

definition stream_Open :: "readerAt \<Rightarrow> wim_stream \<Rightarrow> resource res option" where
  "stream_Open r st = resourceReader r (st_offset st)"

section \<open>Directories on disk\<close>

text \<open>
  A stream entry and a directory entry as they are laid out in the metadata of an image,
  with the bytes that the parser ignores.
\<close>

record stream_item =
  si_unused :: bytes
  si_hash :: bytes
  si_name :: "u16 list"
  si_pad :: bytes

definition stream_len :: "stream_item \<Rightarrow> nat" where
  "stream_len si = 38 + 2 * length (si_name si) + length (si_pad si)"

definition streamentry_bytes :: "stream_item \<Rightarrow> bytes" where
  "streamentry_bytes si = si_unused si @ si_hash si @ le_enc 2 (of_nat (2 * length (si_name si)) :: u16)"

definition names_bytes :: "u16 list \<Rightarrow> bytes" where
  "names_bytes u = enc_list (le_enc 2) u"

definition stream_bytes :: "stream_item \<Rightarrow> bytes" where
  "stream_bytes si =
     i64_enc (int (stream_len si)) @ streamentry_bytes si @ names_bytes (si_name si) @ si_pad si"

definition stream_ok :: "file_data \<Rightarrow> stream_item \<Rightarrow> bool" where
  "stream_ok fd si \<longleftrightarrow>
     length (si_unused si) = 8 \<and> length (si_hash si) = 20 \<and> 2 * length (si_name si) < 2 ^ 15 \<and>
     length (si_pad si) < 2 ^ 32 \<and> find_data fd (si_hash si) \<noteq> None"

definition stream_of :: "file_data \<Rightarrow> stream_item \<Rightarrow> wim_stream" where
  "stream_of fd si =
     \<lparr>st_Name = go_string_utf16 (si_name si), st_Hash = si_hash si,
      st_Size = OriginalSize (the (find_data fd (si_hash si))), st_offset = the (find_data fd (si_hash si))\<rparr>"

lemma length_names_bytes [simp]: "length (names_bytes u) = 2 * length u"
  unfolding names_bytes_def by (subst le16.length_enc_list) (auto simp: list_all_iff)

lemma dec_names_bytes: "dec_list le_dec 2 (length u) (names_bytes u) = u"
  unfolding names_bytes_def by (rule le16.dec_list_enc) (auto simp: list_all_iff)

lemma length_stream_bytes: "stream_ok fd si \<Longrightarrow> length (stream_bytes si) = stream_len si"
  by (simp add: stream_bytes_def stream_len_def streamentry_bytes_def stream_ok_def)

lemma streamentry_dec_bytes:
  "stream_ok fd si \<Longrightarrow> streamentry_dec (streamentry_bytes si) =
     \<lparr>se_Hash = si_hash si, NameLength = of_nat (2 * length (si_name si))\<rparr>"
  by (simp add: streamentry_dec_def streamentry_bytes_def field_def stream_ok_def)

lemma sint_of_nat_u16: "n < 2 ^ 15 \<Longrightarrow> sint (of_nat n :: u16) = int n"
  by (simp add: signed_of_nat signed_take_bit_int_eq_self)

lemma i64_dec_small: "n < 2 ^ 62 \<Longrightarrow> i64_dec (i64_enc (int n)) = int n"
  by simp

context clean_reader
begin

lemma read_value:
  assumes "inv s" and "content s = b @ r" and "length b = w"
  obtains s' where "inv s'" "fin s' = fin s" "content s' = r" "binary_Read rd dec w s = Some (Ok (dec b), s')"
  using binary_Read_enough [OF assms] by blast

lemma readNextStream_ok:
  assumes "inv s" and "content s = stream_bytes si @ r" and ok: "stream_ok fd si"
  obtains s' where "inv s'" "fin s' = fin s" "content s' = r"
    "readNextStream rd fd s = Some (Ok (stream_of fd si, int (stream_len si)), s')"
proof -
  let ?n = "length (si_name si)"
  have c: "content s = i64_enc (int (stream_len si)) @ streamentry_bytes si @ names_bytes (si_name si) @ si_pad si @ r"
    using assms(2) by (simp add: stream_bytes_def)
  have len: "stream_len si < 2 ^ 62" using ok by (simp add: stream_len_def stream_ok_def)
  obtain s1 where s1: "inv s1" "fin s1 = fin s" "content s1 = streamentry_bytes si @ names_bytes (si_name si) @ si_pad si @ r"
    "binary_Read rd i64_dec 8 s = Some (Ok (int (stream_len si)), s1)"
    using read_value [OF assms(1) c, of 8 i64_dec] i64_dec_small [OF len] by (metis length_i64_enc)
  have "length (streamentry_bytes si) = 30" using ok by (simp add: streamentry_bytes_def stream_ok_def)
  then obtain s2 where s2: "inv s2" "fin s2 = fin s" "content s2 = names_bytes (si_name si) @ si_pad si @ r"
    "binary_Read rd streamentry_dec 30 s1 = Some (Ok \<lparr>se_Hash = si_hash si, NameLength = of_nat (2 * ?n)\<rparr>, s2)"
    using read_value [OF s1(1,3), of 30 streamentry_dec] s1(2) streamentry_dec_bytes [OF ok] by metis
  obtain s3 where s3: "inv s3" "fin s3 = fin s" "content s3 = si_pad si @ r"
    "binary_Read rd (dec_list le_dec 2 ?n) (2 * ?n) s2 = Some (Ok (si_name si), s3)"
    using read_value [OF s2(1,3), of "2 * ?n" "dec_list le_dec 2 ?n"] s2(2) dec_names_bytes by (metis length_names_bytes)
  obtain s4 where s4: "inv s4" "fin s4 = fin s" "content s4 = r" "CopyN rd (int (length (si_pad si))) s3 = Some (Ok (), s4)"
    using CopyN_enough [OF s3(1,3) refl] s3(2) by metis
  have nl: "sint (of_nat (2 * ?n) :: u16) = int (2 * ?n)" using ok by (intro sint_of_nat_u16) (simp add: stream_ok_def)
  have half: "int (2 * ?n) sdiv 2 = int ?n" "nat (int ?n) = ?n" by (simp_all add: sdiv_nonneg)
  obtain off where off: "find_data fd (si_hash si) = Some off" using ok by (auto simp: stream_ok_def)
  have "readNextStream rd fd s = Some (Ok (stream_of fd si, int (stream_len si)), s4)"
    unfolding readNextStream_def s1(4) map_io_err_simps io_bind_simps s2(4) streamentry.simps nl half Let_def s3(4)
    using s4(4) by (simp add: stream_len_def streamentrySize_def off stream_of_def)
  with s4 that show ?thesis by blast
qed

end

definition with_streams :: "bool \<Rightarrow> wim_stream list \<Rightarrow> wim_file \<Rightarrow> wim_file" where
  "with_streams first ss f =
     (let f1 = (if first \<and> ss \<noteq> [] \<and> st_Name (hd ss) = []
                then f\<lparr>f_Hash := st_Hash (hd ss), f_Size := st_Size (hd ss), f_offset := st_offset (hd ss)\<rparr> else f)
      in f1\<lparr>Streams := Streams f @ filter (\<lambda>st. st_Name st \<noteq> []) ss\<rparr>)"

definition streams_len :: "stream_item list \<Rightarrow> nat" where
  "streams_len sis = sum_list (map stream_len sis)"

record dir_item =
  di_Attributes :: u32
  di_SecurityID :: u32
  di_SubdirOffset :: int
  di_unused :: bytes
  di_CreationTime :: Filetime
  di_LastAccessTime :: Filetime
  di_LastWriteTime :: Filetime
  di_Hash :: bytes
  di_padding :: bytes
  di_ReparseHardLink :: u64
  di_name :: "u16 list"
  di_separator :: u16
  di_short :: "u16 list"
  di_pad :: bytes
  di_streams :: "stream_item list"

definition Filetime_enc :: "Filetime \<Rightarrow> bytes" where
  "Filetime_enc ft = le_enc 4 (LowDateTime ft) @ le_enc 4 (HighDateTime ft)"

definition direntry_bytes :: "dir_item \<Rightarrow> bytes" where
  "direntry_bytes di =
     le_enc 4 (di_Attributes di) @ le_enc 4 (di_SecurityID di) @ i64_enc (di_SubdirOffset di) @ di_unused di @
     Filetime_enc (di_CreationTime di) @ Filetime_enc (di_LastAccessTime di) @ Filetime_enc (di_LastWriteTime di) @
     di_Hash di @ di_padding di @ le_enc 8 (di_ReparseHardLink di) @
     le_enc 2 (of_nat (length (di_streams di)) :: u16) @ le_enc 2 (of_nat (2 * length (di_short di)) :: u16) @
     le_enc 2 (of_nat (2 * length (di_name di)) :: u16)"

definition item_len :: "dir_item \<Rightarrow> nat" where
  "item_len di = 102 + 2 * (length (di_name di) + 1 + length (di_short di)) + length (di_pad di)"

definition item_bytes :: "dir_item \<Rightarrow> bytes" where
  "item_bytes di =
     i64_enc (int (item_len di)) @ direntry_bytes di @
     names_bytes (di_name di @ [di_separator di] @ di_short di) @ di_pad di @ concat (map stream_bytes (di_streams di))"

definition item_total :: "dir_item \<Rightarrow> nat" where
  "item_total di = item_len di + streams_len (di_streams di)"

text \<open>The file that an entry describes.\<close>

definition item_file :: "file_data \<Rightarrow> bytes list \<Rightarrow> dir_item \<Rightarrow> wim_file" where
  "item_file fd sds di =
     (let reparse = bit (di_Attributes di) 10; off = the (find_data fd (di_Hash di)); link = di_ReparseHardLink di in
      with_streams True (map (stream_of fd) (di_streams di))
      \<lparr>f_Name = go_string_utf16 (di_name di), f_ShortName = go_string_utf16 (di_short di), f_Attributes = di_Attributes di,
       SecurityDescriptor = (if di_SecurityID di = 0xffffffff then None else Some (sds ! unat (di_SecurityID di))),
       CreationTime = di_CreationTime di, LastAccessTime = di_LastAccessTime di, LastWriteTime = di_LastWriteTime di,
       f_Hash = di_Hash di, f_Size = OriginalSize off, LinkID = (if reparse then 0 else link),
       ReparseTag = (if reparse then ucast link else 0), ReparseReserved = (if reparse then ucast (drop_bit 32 link) else 0),
       Streams = [], f_offset = off, subdirOffset = di_SubdirOffset di\<rparr>)"

definition item_ok :: "file_data \<Rightarrow> bytes list \<Rightarrow> dir_item \<Rightarrow> bool" where
  "item_ok fd sds di \<longleftrightarrow>
     length (di_unused di) = 16 \<and> length (di_Hash di) = 20 \<and> length (di_padding di) = 4 \<and>
     2 * length (di_name di) + 2 + 2 * length (di_short di) < 2 ^ 16 \<and> length (di_streams di) < 2 ^ 16 \<and>
     length (di_pad di) < 2 ^ 32 \<and> int64_ok (di_SubdirOffset di) \<and> list_all (stream_ok fd) (di_streams di) \<and>
     find_data fd (di_Hash di) \<noteq> None \<and>
     (di_SubdirOffset di \<noteq> 0 \<longleftrightarrow> bit (di_Attributes di) 4 \<and> \<not> bit (di_Attributes di) 10) \<and>
     (di_SecurityID di = 0xffffffff \<or> unat (di_SecurityID di) < length sds) \<and>
     (bit (di_Attributes di) 10 \<longrightarrow> f_Size (item_file fd sds di) \<noteq> 0)"

lemma with_streams_Cons:
  "with_streams first (st # ss) f =
     with_streams False ss
       (if first \<and> st_Name st = [] then f\<lparr>f_Hash := st_Hash st, f_Size := st_Size st, f_offset := st_offset st\<rparr>
        else if st_Name st \<noteq> [] then f\<lparr>Streams := Streams f @ [st]\<rparr> else f)"
  by (simp add: with_streams_def)

lemma with_streams_Nil [simp]: "with_streams first [] f = f"
  by (simp add: with_streams_def)

lemma stream_len_bound: "stream_ok fd si \<Longrightarrow> stream_len si < 2 ^ 33"
  by (simp add: stream_ok_def stream_len_def)

lemma streams_len_bound: "list_all (stream_ok fd) sis \<Longrightarrow> streams_len sis \<le> length sis * 2 ^ 33"
proof (induction sis)
  case (Cons si sis)
  then show ?case using stream_len_bound [of fd si] by (simp add: streams_len_def)
qed (simp add: streams_len_def)

context clean_reader
begin

lemma read_streams_ok:
  assumes "inv s" and "content s = concat (map stream_bytes sis) @ r" and "list_all (stream_ok fd) sis"
    and "len + streams_len sis < 2 ^ 62"
  shows "\<exists>s'. inv s' \<and> fin s' = fin s \<and> content s' = r \<and>
    read_streams rd fd (length sis) first f (int len) s =
      Some (Ok (with_streams first (map (stream_of fd) sis) f, int (len + streams_len sis)), s')"
  using assms
proof (induction sis arbitrary: s first f len)
  case Nil
  then show ?case by (simp add: streams_len_def)
next
  case (Cons si sis)
  have c: "content s = stream_bytes si @ concat (map stream_bytes sis) @ r" using Cons.prems(2) by simp
  obtain s1 where s1: "inv s1" "fin s1 = fin s" "content s1 = concat (map stream_bytes sis) @ r"
    "readNextStream rd fd s = Some (Ok (stream_of fd si, int (stream_len si)), s1)"
    using readNextStream_ok [OF Cons.prems(1) c, of fd] Cons.prems(3) by auto
  have b: "len + stream_len si + streams_len sis < 2 ^ 62" using Cons.prems(4) by (simp add: streams_len_def)
  then have w: "wrap64 (int len + int (stream_len si)) = int (len + stream_len si)" by simp
  show ?case
    using Cons.IH [OF s1(1,3) _ b] Cons.prems(3) s1 w
    by (simp add: with_streams_Cons Let_def streams_len_def add.assoc)
qed

end

definition item_direntry :: "dir_item \<Rightarrow> direntry" where
  "item_direntry di =
     \<lparr>de_Attributes = di_Attributes di, SecurityID = di_SecurityID di, SubdirOffset = di_SubdirOffset di,
      de_CreationTime = di_CreationTime di, de_LastAccessTime = di_LastAccessTime di, de_LastWriteTime = di_LastWriteTime di,
      de_Hash = di_Hash di, ReparseHardLink = di_ReparseHardLink di, StreamCount = of_nat (length (di_streams di)),
      ShortNameLength = of_nat (2 * length (di_short di)), FileNameLength = of_nat (2 * length (di_name di))\<rparr>"

lemma length_Filetime_enc [simp]: "length (Filetime_enc ft) = 8"
  by (simp add: Filetime_enc_def)

lemma Filetime_dec_enc [simp]: "Filetime_dec (Filetime_enc ft) = ft"
  by (simp add: Filetime_dec_def Filetime_enc_def field_def)

lemma length_direntry_bytes: "item_ok fd sds di \<Longrightarrow> length (direntry_bytes di) = 94"
  by (simp add: item_ok_def direntry_bytes_def)

lemma direntry_dec_bytes: "item_ok fd sds di \<Longrightarrow> direntry_dec (direntry_bytes di) = item_direntry di"
  by (simp add: item_ok_def direntry_bytes_def direntry_dec_def field_def item_direntry_def int64_ok_def)

lemma attribute_bits:
  "a AND FILE_ATTRIBUTE_DIRECTORY \<noteq> 0 \<longleftrightarrow> bit a 4" "a AND FILE_ATTRIBUTE_REPARSE_POINT \<noteq> 0 \<longleftrightarrow> bit a 10"
proof -
  have "a AND 2 ^ n = 0 \<longleftrightarrow> \<not> bit a n" if "n < 32" for n
    using that by (metis and_exp_eq_0_iff_not_bit)
  from this [of 4] this [of 10] show "a AND FILE_ATTRIBUTE_DIRECTORY \<noteq> 0 \<longleftrightarrow> bit a 4"
    "a AND FILE_ATTRIBUTE_REPARSE_POINT \<noteq> 0 \<longleftrightarrow> bit a 10"
    by (simp_all add: FILE_ATTRIBUTE_DIRECTORY_def FILE_ATTRIBUTE_REPARSE_POINT_def)
qed

lemma u16_even: "2 * n < 2 ^ 16 \<Longrightarrow> unat ((of_nat (2 * n) :: u16) div 2) = n"
proof -
  assume "2 * n < 2 ^ 16"
  then have "unat (of_nat (2 * n) :: u16) = 2 * n" by (simp only: unat_of_nat_eq_iff) simp
  then show ?thesis by (simp only: unat_div) simp
qed

lemma item_names:
  assumes "item_ok fd sds di"
  shows "uint (FileNameLength (item_direntry di) + 2 + ShortNameLength (item_direntry di)) =
      int (2 * (length (di_name di) + 1 + length (di_short di)))"
    and "entry_names (item_direntry di) (di_name di @ [di_separator di] @ di_short di) =
      Ok (go_string_utf16 (di_name di), go_string_utf16 (di_short di))"
proof -
  let ?a = "length (di_name di)" and ?b = "length (di_short di)"
  have lt: "2 * ?a + 2 + 2 * ?b < 2 ^ 16" using assms by (simp add: item_ok_def)
  have "FileNameLength (item_direntry di) + 2 + ShortNameLength (item_direntry di) = of_nat (2 * (?a + 1 + ?b))"
    by (simp add: item_direntry_def)
  moreover have "uint (of_nat (2 * (?a + 1 + ?b)) :: u16) = int (2 * (?a + 1 + ?b))"
    using lt unfolding uint_nat by (subst unat_of_nat_eq_iff [THEN iffD2]) simp_all
  ultimately show "uint (FileNameLength (item_direntry di) + 2 + ShortNameLength (item_direntry di)) = int (2 * (?a + 1 + ?b))"
    by (simp only:)
  have pos: "(of_nat (2 * n) :: u16) > 0 \<longleftrightarrow> n > 0" if "2 * n < 2 ^ 16" for n
  proof -
    have "unat (of_nat (2 * n) :: u16) = 2 * n" using that by (simp only: unat_of_nat_eq_iff) simp
    then show ?thesis by (simp only: word_less_nat_alt unat_0) simp
  qed
  have "slice (di_name di @ [di_separator di] @ di_short di) 0 ?a = Ok (di_name di)" by simp
  moreover have "slice (di_name di @ [di_separator di] @ di_short di) (?a + 1) (length (di_name di @ [di_separator di] @ di_short di)) = Ok (di_short di)"
    by simp
  ultimately show "entry_names (item_direntry di) (di_name di @ [di_separator di] @ di_short di) =
      Ok (go_string_utf16 (di_name di), go_string_utf16 (di_short di))"
    using pos [of ?a] pos [of ?b] u16_even [of ?a] lt
    by (simp add: entry_names_def item_direntry_def Let_def)
qed

lemma item_len_bound: "item_ok fd sds di \<Longrightarrow> item_len di < 2 ^ 33"
  by (simp add: item_ok_def item_len_def)

lemma item_total_bound: "item_ok fd sds di \<Longrightarrow> item_total di < 2 ^ 50"
  using item_len_bound [of fd sds di] streams_len_bound [of fd "di_streams di"]
  by (simp add: item_total_def item_ok_def)

lemma length_item_bytes: "item_ok fd sds di \<Longrightarrow> length (item_bytes di) = item_total di"
proof -
  assume ok: "item_ok fd sds di"
  have "list_all (stream_ok fd) sis \<Longrightarrow> length (concat (map stream_bytes sis)) = streams_len sis" for sis
    by (induction sis) (auto simp: streams_len_def length_stream_bytes)
  with ok show ?thesis
    by (simp add: item_bytes_def item_total_def item_len_def length_direntry_bytes [OF ok] item_ok_def)
qed

lemma security_of_item: "item_ok fd sds di \<Longrightarrow> security_of sds (item_direntry di) =
    Ok (if di_SecurityID di = 0xffffffff then None else Some (sds ! unat (di_SecurityID di)))"
  by (auto simp: item_ok_def security_of_def item_direntry_def)

context clean_reader
begin

lemma readNextEntry_ok:
  assumes "inv s" and "content s = item_bytes di @ r" and ok: "item_ok fd sds di"
  shows "\<exists>s'. inv s' \<and> fin s' = fin s \<and> content s' = r \<and>
    readNextEntry rd fd sds s = Some (Ok (Some (item_file fd sds di, int (item_total di))), s')"
proof -
  let ?u = "di_name di @ [di_separator di] @ di_short di" and ?sb = "concat (map stream_bytes (di_streams di))"
  let ?k = "length (di_name di) + 1 + length (di_short di)"
  have c: "content s = i64_enc (int (item_len di)) @ direntry_bytes di @ names_bytes ?u @ di_pad di @ ?sb @ r"
    using assms(2) by (simp add: item_bytes_def)
  have len: "item_len di < 2 ^ 62" using item_len_bound [OF ok] by simp
  obtain s1 where s1: "inv s1" "fin s1 = fin s" "content s1 = direntry_bytes di @ names_bytes ?u @ di_pad di @ ?sb @ r"
    "binary_Read rd i64_dec 8 s = Some (Ok (int (item_len di)), s1)"
    using read_value [OF assms(1) c, of 8 i64_dec] i64_dec_small [OF len] by (metis length_i64_enc)
  obtain s2 where s2: "inv s2" "fin s2 = fin s" "content s2 = names_bytes ?u @ di_pad di @ ?sb @ r"
    "binary_Read rd direntry_dec 94 s1 = Some (Ok (item_direntry di), s2)"
    using read_value [OF s1(1,3), of 94 direntry_dec] s1(2) direntry_dec_bytes [OF ok] length_direntry_bytes [OF ok] by metis
  have k: "length ?u = ?k" by simp
  obtain s3 where s3: "inv s3" "fin s3 = fin s" "content s3 = di_pad di @ ?sb @ r"
    "binary_Read rd (dec_list le_dec 2 ?k) (2 * ?k) s2 = Some (Ok ?u, s3)"
    using read_value [OF s2(1,3), of "2 * ?k" "dec_list le_dec 2 ?k"] s2(2) dec_names_bytes [of ?u] length_names_bytes [of ?u] k
    by metis
  obtain s4 where s4: "inv s4" "fin s4 = fin s" "content s4 = ?sb @ r" "CopyN rd (int (length (di_pad di))) s3 = Some (Ok (), s4)"
    using CopyN_enough [OF s3(1,3) refl] s3(2) by metis
  have b: "item_len di + streams_len (di_streams di) < 2 ^ 62" using item_total_bound [OF ok] by (simp add: item_total_def)
  have sok: "list_all (stream_ok fd) (di_streams di)" and nsm: "length (di_streams di) < 2 ^ 16" using ok by (auto simp: item_ok_def)
  obtain off where off: "find_data fd (di_Hash di) = Some off" using ok by (auto simp: item_ok_def)
  define sd where "sd = (if di_SecurityID di = 0xffffffff then None else Some (sds ! unat (di_SecurityID di)))"
  define f where "f = (new_file (item_direntry di) (go_string_utf16 (di_name di)) (go_string_utf16 (di_short di)) off)\<lparr>SecurityDescriptor := sd\<rparr>"
  obtain s5 where s5: "inv s5" "fin s5 = fin s" "content s5 = r"
    "read_streams rd fd (length (di_streams di)) True f (int (item_len di)) s4 =
      Some (Ok (with_streams True (map (stream_of fd) (di_streams di)) f, int (item_total di)), s5)"
    using read_streams_ok [OF s4(1,3) sok b, of True f] s4(2) unfolding item_total_def by auto
  have f: "with_streams True (map (stream_of fd) (di_streams di)) f = item_file fd sds di"
    by (simp add: item_file_def f_def new_file_def Let_def attribute_bits item_direntry_def off sd_def)
  have cnt: "unat (StreamCount (item_direntry di)) = length (di_streams di)"
    using nsm by (simp add: item_direntry_def unat_of_nat_eq_iff)
  have half: "nat (int (2 * ?k) div 2) = ?k" by simp
  have "readNextEntry rd fd sds s = Some (Ok (Some (item_file fd sds di, int (item_total di))), s5)"
  proof -
    have n0: "int (item_len di) \<noteq> 0" "\<not> int (item_len di) < direntrySize"
      "\<not> int (item_len di) - direntrySize < int (2 * ?k)" by (simp_all add: item_len_def direntrySize_def)
    have pad: "int (item_len di) - direntrySize - int (2 * ?k) = int (length (di_pad di))"
      by (simp add: item_len_def direntrySize_def)
    have off': "find_data fd (de_Hash (item_direntry di)) = Some off" using off by (simp add: item_direntry_def)
    have attr: "de_Attributes (item_direntry di) = di_Attributes di" by (simp add: item_direntry_def)
    have sub: "subdirOffset (new_file (item_direntry di) n1 n2 off) = di_SubdirOffset di" for n1 n2
      by (simp add: new_file_def Let_def item_direntry_def)
    have dir: "(di_Attributes di AND FILE_ATTRIBUTE_REPARSE_POINT = 0 \<and> di_Attributes di AND FILE_ATTRIBUTE_DIRECTORY \<noteq> 0) \<longleftrightarrow>
        di_SubdirOffset di \<noteq> 0"
      using ok attribute_bits [of "di_Attributes di"] by (auto simp: item_ok_def)
    have rep: "\<not> (di_Attributes di AND FILE_ATTRIBUTE_REPARSE_POINT \<noteq> 0 \<and> f_Size (item_file fd sds di) = 0)"
      using ok attribute_bits(2) [of "di_Attributes di"] by (simp add: item_ok_def)
    show ?thesis
      unfolding readNextEntry_def s1(4) map_io_err_simps io_bind_simps if_not_P [OF n0(1)] if_not_P [OF n0(2)] s2(4) Let_def
        item_names(1) [OF ok] half if_not_P [OF n0(3)] s3(4) item_names(2) [OF ok] io_bind_io_res prod.case off' option.case
        security_of_item [OF ok, folded sd_def] pad s4(4) cnt f_def [symmetric] s5(4) f attr sub dir if_not_P [OF rep]
      by simp
  qed
  with s5 show ?thesis by blast
qed

lemma readNextEntry_end:
  assumes "inv s" and "content s = i64_enc 0 @ r"
  shows "\<exists>s'. inv s' \<and> fin s' = fin s \<and> content s' = r \<and> readNextEntry rd fd sds s = Some (Ok None, s')"
proof -
  obtain s' where "inv s'" "fin s' = fin s" "content s' = r" "binary_Read rd i64_dec 8 s = Some (Ok 0, s')"
    using read_value [OF assms length_i64_enc, of i64_dec] by auto
  then show ?thesis by (intro exI [of _ s']) (simp add: readNextEntry_def)
qed

lemma read_entries_ok:
  assumes "inv s" and "content s = concat (map item_bytes items) @ i64_enc 0 @ r" and "list_all (item_ok fd sds) items"
    and "n + sum_list (map item_total items) + 8 < 2 ^ 62"
  shows "\<exists>s'. inv s' \<and> fin s' = fin s \<and> content s' = r \<and>
    read_entries rd fd sds s acc (int n) =
      Some (Ok (acc @ map (item_file fd sds) items, int (n + sum_list (map item_total items) + 8)), s')"
  using assms
proof (induction items arbitrary: s acc n)
  case Nil
  then have c: "content s = i64_enc 0 @ r" by simp
  obtain s' where "inv s'" "fin s' = fin s" "content s' = r" "readNextEntry rd fd sds s = Some (Ok None, s')"
    using readNextEntry_end [OF Nil.prems(1) c] by blast
  moreover have "wrap64 (int n + 8) = int (n + 8)" using Nil.prems(4) by simp
  ultimately show ?case by (subst read_entries.simps) (intro exI [of _ s'], simp)
next
  case (Cons di items)
  have c: "content s = item_bytes di @ concat (map item_bytes items) @ i64_enc 0 @ r" using Cons.prems(2) by simp
  obtain s1 where s1: "inv s1" "fin s1 = fin s" "content s1 = concat (map item_bytes items) @ i64_enc 0 @ r"
    "readNextEntry rd fd sds s = Some (Ok (Some (item_file fd sds di, int (item_total di))), s1)"
    using readNextEntry_ok [OF Cons.prems(1) c, of fd sds] Cons.prems(3) by auto
  have b: "n + item_total di + sum_list (map item_total items) + 8 < 2 ^ 62" using Cons.prems(4) by simp
  then have w: "wrap64 (int n + int (item_total di)) = int (n + item_total di)" by simp
  show ?case
    using Cons.IH [OF s1(1,3) _ b, of "acc @ [item_file fd sds di]"] Cons.prems(3) s1(2)
    by (subst read_entries.simps) (simp add: s1(4) w add.assoc)
qed

text \<open>
  The directory at \<open>off\<close>, \<open>skip\<close> bytes ahead of the image's reader: the entries are read, but the
  bytes skipped are not added to the position that the image keeps.
\<close>

lemma readdir_ok:
  assumes "img_r img = Some s" and "inv s" and "content s = skip @ concat (map item_bytes items) @ i64_enc 0 @ r"
    and "img_sds img = Some sds" and "list_all (item_ok fd sds) items"
    and off: "off = curOffset img + int (length skip)" and "length skip \<le> 32768" and cur: "0 \<le> curOffset img"
    and b: "curOffset img + int (length skip) + int (sum_list (map item_total items)) + 8 < 2 ^ 62"
  shows "\<exists>s'. inv s' \<and> fin s' = fin s \<and> content s' = r \<and>
    readdir rd opn fd img off =
      Some (Ok (map (item_file fd sds) items),
        img\<lparr>img_r := Some s', curOffset := curOffset img + int (sum_list (map item_total items)) + 8\<rparr>)"
proof -
  let ?n = "sum_list (map item_total items) + 8"
  obtain s1 where s1: "inv s1" "fin s1 = fin s" "content s1 = concat (map item_bytes items) @ i64_enc 0 @ r"
    "CopyN rd (int (length skip)) s = Some (Ok (), s1)"
    using CopyN_enough [OF assms(2,3) refl] by metis
  have w: "wrap64 (curOffset img + chunkSize) = curOffset img + chunkSize" using cur b by (simp add: chunkSize_def)
  have near: "\<not> (off < curOffset img \<or> off > wrap64 (curOffset img + chunkSize))" unfolding w using off assms(7) by (simp add: chunkSize_def)
  define s2 where "s2 = (if skip = [] then s else s1)"
  have s2: "inv s2" "fin s2 = fin s" "content s2 = concat (map item_bytes items) @ i64_enc 0 @ r"
    using s1 assms(2,3) by (simp_all add: s2_def)
  have "wrap64 (int (length skip)) = int (length skip)" using assms(7) by simp
  then have seek: "seek_image rd opn img off = Some (Ok s2, img\<lparr>img_r := Some s2\<rparr>)"
    using s1(4) assms(1) near off by (auto simp: seek_image_def Let_def s2_def)
  have "int (0 + sum_list (map item_total items) + 8) < int (2 ^ 62)" using b cur by simp
  then have b0: "0 + sum_list (map item_total items) + 8 < 2 ^ 62" by (simp only: of_nat_less_iff)
  obtain s3 where s3: "inv s3" "fin s3 = fin s" "content s3 = r"
    "read_entries rd fd sds s2 [] 0 = Some (Ok (map (item_file fd sds) items, int ?n), s3)"
    using read_entries_ok [OF s2(1,3) assms(5) b0, of "[]"] s2(2) by auto
  have "wrap64 (curOffset img + int ?n) = curOffset img + int ?n" using b cur by simp
  then show ?thesis
    using s3 assms(4) by (intro exI [of _ s3]) (simp add: readdir_def seek the_default_def add.assoc)
qed

end

section \<open>Properties\<close>


definition sample_item :: "u16 \<Rightarrow> dir_item" where
  "sample_item c =
     \<lparr>di_Attributes = 0x20, di_SecurityID = 0xffffffff, di_SubdirOffset = 0, di_unused = replicate 16 0,
      di_CreationTime = \<lparr>LowDateTime = 0, HighDateTime = 0\<rparr>, di_LastAccessTime = \<lparr>LowDateTime = 0, HighDateTime = 0\<rparr>,
      di_LastWriteTime = \<lparr>LowDateTime = 0, HighDateTime = 0\<rparr>, di_Hash = zero_hash, di_padding = replicate 4 0,
      di_ReparseHardLink = 0, di_name = [c], di_separator = 0, di_short = [], di_pad = replicate 6 0, di_streams = []\<rparr>"

lemma sample_item_ok: "item_ok fd sds (sample_item c)"
  by (simp add: item_ok_def sample_item_def zero_hash_def find_data_def int64_ok_def bit_iff_odd)

lemma length_sample_item: "length (item_bytes (sample_item c)) = 112"
  unfolding length_item_bytes [OF sample_item_ok [of Map.empty "[]"]]
  by (simp add: item_total_def item_len_def streams_len_def sample_item_def)

definition sample_image :: "bytes \<Rightarrow> portions image" where
  "sample_image b = \<lparr>img_offset = zero_resource, img_sds = Some [], rootOffset = 8, img_r = Some (b, []), curOffset = 8\<rparr>"


text \<open>
  After it has skipped forward to a directory, an image believes itself before the place
  where its reader is, by the number of bytes skipped. The next directory is then read from
  the wrong place: asked for the one that follows at once, the image returns the entries that
  lie as many bytes further on as it had skipped.
\<close>

theorem wim_readdir_skew:
  assumes "clean_reader rd ok content fin rank" and "img_r img = Some s" and "ok s"
    and "content s = skip @ concat (map item_bytes dir1) @ i64_enc 0 @ skip2 @ concat (map item_bytes dir2) @ i64_enc 0 @ rest"
    and "img_sds img = Some sds" and "list_all (item_ok fd sds) dir1" and "list_all (item_ok fd sds) dir2"
    and "length skip2 = length skip" and "length skip \<le> 32768" and "0 \<le> curOffset img"
    and "curOffset img + int (length (content s)) < 2 ^ 62"
  shows "\<exists>img' img''. readdir rd opn fd img (curOffset img + int (length skip)) = Some (Ok (map (item_file fd sds) dir1), img') \<and>
    readdir rd opn fd img' (curOffset img + int (length (skip @ concat (map item_bytes dir1) @ i64_enc 0))) =
      Some (Ok (map (item_file fd sds) dir2), img'')"
proof -
  have len: "length (concat (map item_bytes items)) = sum_list (map item_total items)"
    if "list_all (item_ok fd sds) items" for items
    using that by (induction items) (auto simp: length_item_bytes)
  note l1 = len [OF assms(6)] and l2 = len [OF assms(7)]
  have b: "curOffset img + int (length skip + sum_list (map item_total dir1) + 8 + (length skip + sum_list (map item_total dir2) + 8)) < 2 ^ 62"
    using assms(4,8,11) by (simp add: l1 l2)
  obtain s1 where s1: "ok s1" "content s1 = skip2 @ concat (map item_bytes dir2) @ i64_enc 0 @ rest"
    "readdir rd opn fd img (curOffset img + int (length skip)) =
      Some (Ok (map (item_file fd sds) dir1), img\<lparr>img_r := Some s1, curOffset := curOffset img + int (sum_list (map item_total dir1)) + 8\<rparr>)"
    using clean_reader.readdir_ok [OF assms(1-5,6) refl assms(9,10)] b by auto
  let ?img = "img\<lparr>img_r := Some s1, curOffset := curOffset img + int (sum_list (map item_total dir1)) + 8\<rparr>"
  have "\<exists>s'. ok s' \<and> fin s' = fin s1 \<and> content s' = rest \<and>
      readdir rd opn fd ?img (curOffset ?img + int (length skip2)) =
        Some (Ok (map (item_file fd sds) dir2), ?img\<lparr>img_r := Some s', curOffset := curOffset ?img + int (sum_list (map item_total dir2)) + 8\<rparr>)"
    by (rule clean_reader.readdir_ok [OF assms(1) _ s1(1,2) _ assms(7) refl]) (use assms(5,8,9,10) b in auto)
  then have "\<exists>img''. readdir rd opn fd ?img (curOffset ?img + int (length skip2)) = Some (Ok (map (item_file fd sds) dir2), img'')"
    by blast
  moreover have "curOffset ?img + int (length skip2) = curOffset img + int (length (skip @ concat (map item_bytes dir1) @ i64_enc 0))"
    by (simp add: assms(8) l1)
  ultimately show ?thesis using s1(3) by metis
qed

theorem wim_readdir_skew_witness:
  "\<exists>img' img''.
    readdir mem_read (\<lambda>_. None) Map.empty
      (sample_image ([1] @ concat (map item_bytes [sample_item 65]) @ i64_enc 0 @ [2] @ concat (map item_bytes [sample_item 66]) @ i64_enc 0 @ []))
      (8 + int (length [1 :: byte])) = Some (Ok (map (item_file Map.empty []) [sample_item 65]), img') \<and>
    readdir mem_read (\<lambda>_. None) Map.empty img' (8 + int (length ([1] @ concat (map item_bytes [sample_item 65]) @ i64_enc 0))) =
      Some (Ok (map (item_file Map.empty []) [sample_item 66]), img'')"
  using wim_readdir_skew [OF mem.clean_reader_axioms, where skip = "[1]" and ?skip2.0 = "[2]"
      and ?dir1.0 = "[sample_item 65]" and ?dir2.0 = "[sample_item 66]" and rest = "[]" and fd = Map.empty and sds = "[]"
      and opn = "\<lambda>_. None" and s = "([1] @ concat (map item_bytes [sample_item 65]) @ i64_enc 0 @ [2] @ concat (map item_bytes [sample_item 66]) @ i64_enc 0 @ [], [])"
      and img = "sample_image ([1] @ concat (map item_bytes [sample_item 65]) @ i64_enc 0 @ [2] @ concat (map item_bytes [sample_item 66]) @ i64_enc 0 @ [])"]
  by (simp add: sample_image_def sample_item_ok length_sample_item)

text \<open>
  Three ways in which a malformed file makes the parser panic instead of reporting an
  error: an entry whose name lengths overflow their 16-bit sum, a stream whose name has a
  negative length, and a compressed resource of no bytes.
\<close>

theorem wim_malformed_panics:
  assumes "length de = 94" and "length hdr = 28"
    and "FileNameLength (direntry_dec de) = 0xfffe" and "ShortNameLength (direntry_dec de) = 0"
  shows "(\<exists>s'. readNextEntry mem_read fd sds (i64_enc 102 @ de @ r, ps) = Some (Panic ''slice bounds out of range'', s')) \<and>
    (\<exists>s'. readNextStream mem_read fd (i64_enc 38 @ (hdr @ le_enc 2 (0xfffe :: u16)) @ r, ps) =
       Some (Panic ''makeslice: len out of range'', s')) \<and>
    newCompressedReader sec 0 off = Some (Panic ''makeslice: len out of range'')"
proof (intro conjI)
  obtain s1 where s1: "fst s1 = de @ r" "binary_Read mem_read i64_dec 8 (i64_enc 102 @ de @ r, ps) = Some (Ok 102, s1)"
    using mem.read_value [where s = "(i64_enc 102 @ de @ r, ps)" and b = "i64_enc 102" and w = 8 and dec = i64_dec] by auto
  obtain s2 where s2: "fst s2 = r" "binary_Read mem_read direntry_dec 94 s1 = Some (Ok (direntry_dec de), s2)"
    using mem.read_value [OF TrueI s1(1) assms(1), where dec = direntry_dec] by auto
  have "fst s2 = [] @ r" using s2(1) by simp
  from mem.read_value [OF TrueI this list.size(3), where dec = "dec_list (le_dec :: bytes \<Rightarrow> u16) 2 0"] obtain s3 where
    s3: "binary_Read mem_read (dec_list le_dec 2 0) 0 s2 = Some (Ok ([] :: u16 list), s3)" by (metis dec_list.simps(1))
  have "entry_names (direntry_dec de) [] = Panic ''slice bounds out of range''"
    by (simp add: entry_names_def assms(3,4) slice_def)
  then show "\<exists>s'. readNextEntry mem_read fd sds (i64_enc 102 @ de @ r, ps) = Some (Panic ''slice bounds out of range'', s')"
    using s3 by (simp add: readNextEntry_def s1(2) s2(2) assms(3,4) direntrySize_def Let_def io_res_def)
next
  obtain s1 where s1: "fst s1 = (hdr @ le_enc 2 (0xfffe :: u16)) @ r"
    "binary_Read mem_read i64_dec 8 (i64_enc 38 @ (hdr @ le_enc 2 (0xfffe :: u16)) @ r, ps) = Some (Ok 38, s1)"
    using mem.read_value [where s = "(i64_enc 38 @ (hdr @ le_enc 2 (0xfffe :: u16)) @ r, ps)" and b = "i64_enc 38" and w = 8 and dec = i64_dec]
    by auto
  have "length (hdr @ le_enc 2 (0xfffe :: u16)) = 30" using assms(2) by simp
  from mem.read_value [OF TrueI s1(1) this, where dec = streamentry_dec] obtain s2 where
    s2: "binary_Read mem_read streamentry_dec 30 s1 = Some (Ok (streamentry_dec (hdr @ le_enc 2 (0xfffe :: u16))), s2)" by metis
  have nl: "NameLength (streamentry_dec (hdr @ le_enc 2 (0xfffe :: u16))) = 0xfffe"
    using assms(2) by (simp add: streamentry_dec_def field_def)
  show "\<exists>s'. readNextStream mem_read fd (i64_enc 38 @ (hdr @ le_enc 2 (0xfffe :: u16)) @ r, ps) = Some (Panic ''makeslice: len out of range'', s')"
    unfolding readNextStream_def s1(2) map_io_err_simps io_bind_simps streamentrySize_def s2 nl Let_def by simp
next
  show "newCompressedReader sec 0 off = Some (Panic ''makeslice: len out of range'')"
    by (simp add: newCompressedReader_def read_chunks_def chunkSize_def)
qed

theorem wim_malformed_panics_witness:
  "\<exists>s'. readNextEntry mem_read Map.empty [] (i64_enc 102 @ (replicate 90 0 @ [0, 0, 0xfe, 0xff]) @ [], []) =
     Some (Panic ''slice bounds out of range'', s')"
proof -
  let ?de = "replicate 90 0 @ [0, 0, 0xfe, 0xff] :: bytes"
  have f: "field ?de 92 2 = [0xfe, 0xff]" "field ?de 90 2 = [0, 0]" by (simp_all add: field_def)
  have d: "FileNameLength (direntry_dec ?de) = 0xfffe" "ShortNameLength (direntry_dec ?de) = 0"
    by (simp_all add: direntry_dec_def f)
  have l: "length ?de = 94" "length (replicate 28 (0 :: byte)) = 28" by simp_all
  show ?thesis using wim_malformed_panics [OF l d] by blast
qed

text \<open>The offset table: the encoding of a descriptor.\<close>

definition streamDescriptor_enc :: "streamDescriptor \<Rightarrow> bytes" where
  "streamDescriptor_enc d =
     le_enc 8 (FlagsAndCompressedSize (sd_res d)) @ i64_enc (rd_Offset (sd_res d)) @ i64_enc (OriginalSize (sd_res d)) @
     le_enc 2 (sd_PartNumber d) @ le_enc 4 (sd_RefCount d) @ sd_Hash d"

definition descriptor_ok :: "streamDescriptor \<Rightarrow> bool" where
  "descriptor_ok d \<longleftrightarrow> int64_ok (rd_Offset (sd_res d)) \<and> int64_ok (OriginalSize (sd_res d)) \<and> length (sd_Hash d) = 20"

definition supported :: "streamDescriptor \<Rightarrow> bool" where
  "supported d \<longleftrightarrow> Flags (sd_res d) AND NOT supportedResFlags = 0"

definition is_image :: "streamDescriptor \<Rightarrow> bool" where
  "is_image d \<longleftrightarrow> Flags (sd_res d) AND resFlagMetadata \<noteq> 0"

interpretation sdc: fixed_codec streamDescriptor_enc streamDescriptor_dec 50 descriptor_ok
proof
  show "length (streamDescriptor_enc d) = 50" "streamDescriptor_dec (streamDescriptor_enc d) = d" if "descriptor_ok d" for d
    using that by (simp_all add: streamDescriptor_enc_def streamDescriptor_dec_def resourceDescriptor_dec_def field_def
        descriptor_ok_def int64_ok_def)
  show "descriptor_ok (streamDescriptor_dec b)" if "length b = 50" for b
    using that by (simp add: streamDescriptor_dec_def resourceDescriptor_dec_def field_def descriptor_ok_def)
qed

lemma offset_entries_enc:
  "list_all descriptor_ok ds \<Longrightarrow> list_all supported ds \<Longrightarrow>
    offset_entries (enc_list streamDescriptor_enc ds) fd imgs =
      Ok (fd ++ map_of (rev (map (\<lambda>d. (sd_Hash d, sd_res d)) (filter (\<lambda>d. \<not> is_image d) ds))),
          imgs @ map sd_res (filter is_image ds))"
proof (induction ds arbitrary: fd imgs)
  case Nil
  then show ?case by (subst offset_entries.simps) (simp add: read_fixed_def read_exact_def)
next
  case (Cons d ds)
  have s: "Flags (sd_res d) AND NOT supportedResFlags = 0" using Cons.prems(2) by (simp add: supported_def)
  show ?case
  proof (cases "is_image d")
    case True
    then have "Flags (sd_res d) AND resFlagMetadata \<noteq> 0" by (simp add: is_image_def)
    with Cons s True show ?thesis by (subst offset_entries.simps) (simp add: sdc.read_fixed_enc)
  next
    case False
    then have "Flags (sd_res d) AND resFlagMetadata = 0" by (simp add: is_image_def)
    with Cons s False show ?thesis by (subst offset_entries.simps) (simp add: sdc.read_fixed_enc)
  qed
qed

lemma offset_entries_unsupported:
  "list_all descriptor_ok (ds @ [d]) \<Longrightarrow> list_all supported ds \<Longrightarrow> \<not> supported d \<Longrightarrow>
    offset_entries (enc_list streamDescriptor_enc (ds @ [d]) @ r) fd imgs =
      Err (ParseError ''offset table'' [] (ErrNew ''unsupported resource flag''))"
proof (induction ds arbitrary: fd imgs)
  case Nil
  then show ?case by (subst offset_entries.simps) (simp add: sdc.read_fixed_enc supported_def)
next
  case (Cons x ds)
  then show ?case by (subst offset_entries.simps) (simp add: sdc.read_fixed_enc supported_def [of x])
qed

text \<open>
  The offset table of a file: the images are its metadata resources in the order of the
  table, the data of a hash is the resource of the last descriptor with that hash, and a
  number of images other than the header's is an error, as is a resource with a flag that is
  not supported, wherever it is. For every table that the resource reader delivers.
\<close>

theorem wim_offset_table:
  assumes "list_all descriptor_ok ds" and "list_all supported ds" and "readResource f res = Some (Ok (enc_list streamDescriptor_enc ds))"
  shows "readOffsetTable f n res =
    Some (if length (filter is_image ds) \<noteq> unat n then Err (ParseError ''offset table'' [] (ErrNew ''mismatched image count''))
          else Ok (\<lambda>h. map_option sd_res (find (\<lambda>d. sd_Hash d = h) (rev (filter (\<lambda>d. \<not> is_image d) ds))),
            map (\<lambda>d. \<lparr>img_offset = sd_res d, img_sds = None, rootOffset = 0, img_r = None, curOffset = 0\<rparr>) (filter is_image ds))) \<and>
    (\<forall>d r res2. descriptor_ok d \<and> \<not> supported d \<and> readResource f res2 = Some (Ok (enc_list streamDescriptor_enc (ds @ [d]) @ r)) \<longrightarrow>
      readOffsetTable f n res2 = Some (Err (ParseError ''offset table'' [] (ErrNew ''unsupported resource flag''))))"
proof -
  have m: "map_of (rev (map (\<lambda>d. (sd_Hash d, sd_res d)) xs)) h = map_option sd_res (find (\<lambda>d. sd_Hash d = h) (rev xs))" for xs :: "streamDescriptor list" and h
  proof -
    have "map_of (map (\<lambda>d. (sd_Hash d, sd_res d)) ys) h = map_option sd_res (find (\<lambda>d. sd_Hash d = h) ys)" for ys :: "streamDescriptor list"
      by (induction ys) auto
    then show ?thesis by (simp add: rev_map)
  qed
  have "readOffsetTable f n res2 = Some (Err (ParseError ''offset table'' [] (ErrNew ''unsupported resource flag'')))"
    if "descriptor_ok d" "\<not> supported d" "readResource f res2 = Some (Ok (enc_list streamDescriptor_enc (ds @ [d]) @ r))" for d r res2
    using offset_entries_unsupported [of ds d r Map.empty "[]"] that assms(1,2) by (simp add: readOffsetTable_def)
  moreover have "readOffsetTable f n res =
    Some (if length (filter is_image ds) \<noteq> unat n then Err (ParseError ''offset table'' [] (ErrNew ''mismatched image count''))
          else Ok (\<lambda>h. map_option sd_res (find (\<lambda>d. sd_Hash d = h) (rev (filter (\<lambda>d. \<not> is_image d) ds))),
            map (\<lambda>d. \<lparr>img_offset = sd_res d, img_sds = None, rootOffset = 0, img_r = None, curOffset = 0\<rparr>) (filter is_image ds)))"
    using m offset_entries_enc [OF assms(1,2), of Map.empty "[]"] assms(3) by (simp add: readOffsetTable_def comp_def fun_eq_iff)
  ultimately show ?thesis by blast
qed

text \<open>A table of one file of no compression, alone in its file.\<close>

definition sample_descriptor :: streamDescriptor where
  "sample_descriptor = \<lparr>sd_res = \<lparr>FlagsAndCompressedSize = 3, rd_Offset = 7, OriginalSize = 3\<rparr>, sd_PartNumber = 1, sd_RefCount = 1,
     sd_Hash = replicate 20 9\<rparr>"

lemma readResource_plain_mem:
  assumes "length F = 50"
  shows "readResource (mem_at F) \<lparr>FlagsAndCompressedSize = 50, rd_Offset = 0, OriginalSize = 50\<rparr> = Some (Ok F)"
proof -
  let ?s = "\<lambda>o1. \<lparr>s_r = mem_at F, s_base = 0, s_off = o1, s_limit = 50\<rparr>"
  have "io_copy resource_Read 512 (Plain (?s 50)) F = Some (Ok (F, None, Plain (?s 50)))"
    by (subst io_copy.simps) (simp add: section_Read_def)
  then have "io_copy resource_Read 512 (Plain (?s 0)) [] = Some (Ok (F, None, Plain (?s 50)))"
    using assms by (subst io_copy.simps) (simp add: section_Read_def mem_at_def)
  then show ?thesis
    by (simp add: readResource_def resourceReader_def resourceReaderWithOffset_def Flags_def CompressedSize_def Let_def
        NewSectionReader_def section_Seek_def ReadAll_def)
qed

theorem wim_offset_table_witness:
  "readOffsetTable (mem_at (enc_list streamDescriptor_enc [sample_descriptor])) 0
      \<lparr>FlagsAndCompressedSize = 50, rd_Offset = 0, OriginalSize = 50\<rparr> =
    Some (Ok (\<lambda>h. map_option sd_res (find (\<lambda>d. sd_Hash d = h) [sample_descriptor]), []))"
proof -
  have ok: "descriptor_ok sample_descriptor" "supported sample_descriptor" "\<not> is_image sample_descriptor"
    by (simp_all add: descriptor_ok_def supported_def is_image_def sample_descriptor_def int64_ok_def Flags_def)
  have "length (enc_list streamDescriptor_enc [sample_descriptor]) = 50" using sdc.length_enc [OF ok(1)] by simp
  from wim_offset_table [OF _ _ readResource_plain_mem [OF this], of 0] ok show ?thesis by simp
qed

end
