(* ===== verification/Go_Base64.thy ===== *)
theory Go_Base64
  imports Go_Prelude
begin

text \<open>
  \<^verbatim>\<open>base64.StdEncoding\<close> of package \<^verbatim>\<open>encoding/base64\<close>: \<^verbatim>\<open>EncodeToString\<close>
  and \<^verbatim>\<open>DecodeString\<close>, which skips line breaks, wants the padding and ignores the unused bits
  of the last character. Decoding inverts encoding.
\<close>

definition b64_code :: "nat \<Rightarrow> nat" where
  "b64_code n =
     (if n < 26 then 65 + n else if n < 52 then 71 + n else if n < 62 then n - 4 else if n = 62 then 43 else 47)"

definition b64_char :: "nat \<Rightarrow> byte" where
  "b64_char n = of_nat (b64_code n)"

definition b64_value :: "byte \<Rightarrow> nat option" where
  "b64_value c =
     (let k = unat c in
      if 65 \<le> k \<and> k \<le> 90 then Some (k - 65)
      else if 97 \<le> k \<and> k \<le> 122 then Some (k - 71)
      else if 48 \<le> k \<and> k \<le> 57 then Some (k + 4)
      else if k = 43 then Some 62
      else if k = 47 then Some 63
      else None)"

definition b64_pad :: byte where "b64_pad = 61"

definition sextets :: "nat \<Rightarrow> bytes" where
  "sextets v = [b64_char (v div 262144), b64_char (v div 4096 mod 64), b64_char (v div 64 mod 64), b64_char (v mod 64)]"

definition octets :: "nat \<Rightarrow> bytes" where
  "octets v = [of_nat (v div 65536), of_nat (v div 256 mod 256), of_nat (v mod 256)]"

fun b64_Encode :: "bytes \<Rightarrow> gostring" where
  "b64_Encode [] = []"
| "b64_Encode [a] = take 2 (sextets (unat a * 65536)) @ [b64_pad, b64_pad]"
| "b64_Encode [a, b] = take 3 (sextets (unat a * 65536 + unat b * 256)) @ [b64_pad]"
| "b64_Encode (a # b # c # r) = sextets (unat a * 65536 + unat b * 256 + unat c) @ b64_Encode r"

fun b64_groups :: "bytes \<Rightarrow> bytes option" where
  "b64_groups [] = Some []"
| "b64_groups (a # b # c # d # r) =
     (case (b64_value a, b64_value b) of
        (Some w, Some x) \<Rightarrow>
          if c = b64_pad then (if d = b64_pad \<and> r = [] then Some (take 1 (octets (w * 262144 + x * 4096))) else None)
          else (case b64_value c of
              None \<Rightarrow> None
            | Some y \<Rightarrow>
                if d = b64_pad then
                  (if r = [] then Some (take 2 (octets (w * 262144 + x * 4096 + y * 64))) else None)
                else (case b64_value d of
                    None \<Rightarrow> None
                  | Some z \<Rightarrow> map_option (\<lambda>bs. octets (w * 262144 + x * 4096 + y * 64 + z) @ bs) (b64_groups r)))
      | _ \<Rightarrow> None)"
| "b64_groups _ = None"

definition b64_Decode :: "gostring \<Rightarrow> bytes res" where
  "b64_Decode s =
     (case b64_groups (filter (\<lambda>c. c \<noteq> 10 \<and> c \<noteq> 13) s) of
        None \<Rightarrow> Err (ErrNew ''illegal base64 data'')
      | Some b \<Rightarrow> Ok b)"

section \<open>Decoding inverts encoding\<close>

lemma unat_b64_char: "unat (b64_char n) = b64_code n"
  unfolding b64_char_def unat_of_nat_eq_iff by (auto simp: b64_code_def)

lemma b64_value_char [simp]: "n < 64 \<Longrightarrow> b64_value (b64_char n) = Some n"
  unfolding b64_value_def unat_b64_char b64_code_def Let_def by auto

lemma b64_char_special: "b64_char n \<noteq> b64_pad \<and> b64_char n \<noteq> 10 \<and> b64_char n \<noteq> 13"
  unfolding word_unat_eq_iff unat_b64_char by (auto simp: b64_pad_def b64_code_def)

lemmas b64_char_plain [simp] = b64_char_special [THEN conjunct1] b64_char_special [THEN conjunct2, THEN conjunct1]
  b64_char_special [THEN conjunct2, THEN conjunct2]

lemma sextets_value:
  fixes v :: nat
  assumes "v < 16777216"
  shows "v div 262144 < 64" and "v div 262144 * 262144 + v div 4096 mod 64 * 4096 + v div 64 mod 64 * 64 + v mod 64 = v"
proof -
  have q: "v div 4096 = v div 64 div 64" "v div 262144 = v div 64 div 64 div 64" by (simp_all add: div_mult2_eq [symmetric])
  show "v div 262144 < 64" using assms by (simp add: div_less_iff_less_mult)
  show "v div 262144 * 262144 + v div 4096 mod 64 * 4096 + v div 64 mod 64 * 64 + v mod 64 = v"
    unfolding q
    using div_mult_mod_eq [of v 64] div_mult_mod_eq [of "v div 64" 64] div_mult_mod_eq [of "v div 64 div 64" 64]
    by linarith
qed

lemma octets_value:
  assumes "b < 256" and "c < 256"
  shows "octets (a * 65536 + b * 256 + c) = [of_nat a, of_nat b, of_nat c]"
proof -
  have "a * 65536 + b * 256 + c = (a * 256 + b) * 256 + c" by simp
  then have d: "(a * 65536 + b * 256 + c) div 256 = a * 256 + b" "(a * 65536 + b * 256 + c) mod 256 = c"
    using assms(2) by (simp_all only: mult.commute [of _ 256] div_mult_self4 mod_mult_self4) simp_all
  moreover have "(a * 65536 + b * 256 + c) div 65536 = (a * 65536 + b * 256 + c) div 256 div 256"
    by (simp add: div_mult2_eq [symmetric])
  ultimately show ?thesis using assms(1) by (simp add: octets_def)
qed

lemma byte_bounds: "unat (a :: byte) < 256"
  using unsigned_less [of a] by simp

lemma three_bytes: "unat (a :: byte) * 65536 + unat (b :: byte) * 256 + unat (c :: byte) < 16777216"
  using byte_bounds [of a] byte_bounds [of b] byte_bounds [of c] by linarith

lemma octets_bytes: "octets (unat a * 65536 + unat b * 256 + unat c) = [a, b, c]"
  using octets_value [OF byte_bounds byte_bounds, where a = "unat a"] by simp

lemma b64_groups_full:
  assumes "v < 16777216"
  shows "b64_groups (sextets v @ r) = map_option (\<lambda>bs. octets v @ bs) (b64_groups r)"
  using sextets_value [OF assms] by (simp add: sextets_def)

lemma groups_Encode: "b64_groups (b64_Encode bs) = Some bs"
proof (induction bs rule: b64_Encode.induct)
  case (2 a)
  let ?v = "unat a * 65536"
  have v: "?v < 16777216" "octets ?v = [a, 0, 0]" using three_bytes [of a 0 0] octets_bytes [of a 0 0] by simp_all
  have "?v = 1024 * unat a * 64" by simp
  then have "?v div 64 mod 64 = 0" "?v mod 64 = 0" by (simp_all only: mod_mult_self2_is_0 nonzero_mult_div_cancel_right) simp_all
  then show ?case using sextets_value [OF v(1)] v(2) by (simp add: sextets_def)
next
  case (3 a b)
  let ?v = "unat a * 65536 + unat b * 256"
  have v: "?v < 16777216" "octets ?v = [a, b, 0]" using three_bytes [of a b 0] octets_bytes [of a b 0] by simp_all
  have "?v = (unat a * 1024 + unat b * 4) * 64" by simp
  then have "?v mod 64 = 0" by (simp only: mod_mult_self2_is_0)
  then show ?case using sextets_value [OF v(1)] v(2)
    by (simp add: sextets_def numeral_3_eq_3)
next
  case (4 a b c r)
  then show ?case using b64_groups_full [OF three_bytes [of a b c]] octets_bytes [of a b c] by simp
qed simp

lemma Encode_no_breaks: "c \<in> set (b64_Encode bs) \<Longrightarrow> c \<noteq> 10 \<and> c \<noteq> 13"
proof -
  have pad: "b64_pad \<noteq> 10 \<and> b64_pad \<noteq> 13" by (simp add: b64_pad_def)
  have sx: "c \<noteq> 10 \<and> c \<noteq> 13" if "c \<in> set (sextets v)" for v
    using that by (auto simp: sextets_def)
  show "c \<in> set (b64_Encode bs) \<Longrightarrow> c \<noteq> 10 \<and> c \<noteq> 13"
  proof (induction bs rule: b64_Encode.induct)
    case (2 a)
    then show ?case using sx pad by (auto dest: in_set_takeD)
  next
    case (3 a b)
    then show ?case using sx pad by (auto dest: in_set_takeD)
  next
    case (4 a b d r)
    then show ?case using sx by auto
  qed simp
qed

lemma b64_Decode_Encode [simp]: "b64_Decode (b64_Encode bs) = Ok bs"
proof -
  have "filter (\<lambda>c. c \<noteq> 10 \<and> c \<noteq> 13) (b64_Encode bs) = b64_Encode bs"
    using Encode_no_breaks by (intro filter_True) blast
  then show ?thesis by (simp add: b64_Decode_def groups_Encode)
qed

end
