(* ===== verification/Go_Decimal.thy ===== *)
theory Go_Decimal
  imports Go_Strconv
begin

text \<open>
  Decimal numbers and trimming as \<^verbatim>\<open>strconv\<close>, \<^verbatim>\<open>fmt\<close> and
  \<^verbatim>\<open>strings\<close> have them: \<^verbatim>\<open>ParseUint\<close> and \<^verbatim>\<open>ParseInt\<close>
  in base 10 and their inverses. Parsing inverts formatting; padding inverts trimming.
\<close>

section \<open>Digits\<close>

definition is_digit :: "byte \<Rightarrow> bool" where
  "is_digit c \<longleftrightarrow> 48 \<le> c \<and> c \<le> 57"

definition digit :: "nat \<Rightarrow> byte" where
  "digit d = of_nat (48 + d)"

fun dec_acc :: "nat \<Rightarrow> bytes \<Rightarrow> nat option" where
  "dec_acc a [] = Some a"
| "dec_acc a (c # cs) = (if is_digit c then dec_acc (10 * a + (unat c - 48)) cs else None)"

text \<open>\<^verbatim>\<open>strconv.ParseUint(s, 10, bits)\<close>: digits only, range checked.\<close>

definition ParseUint10 :: "nat \<Rightarrow> bytes \<Rightarrow> nat option" where
  "ParseUint10 bits s =
     (if s = [] then None
      else case dec_acc 0 s of None \<Rightarrow> None | Some v \<Rightarrow> if v < 2 ^ bits then Some v else None)"

text \<open>\<^verbatim>\<open>strconv.ParseInt(s, 10, 64)\<close>: an optional sign, then digits.\<close>

definition ParseInt10 :: "bytes \<Rightarrow> int option" where
  "ParseInt10 s =
     (if s = [] then None
      else let neg = (hd s = 45);
               t = (if hd s = 43 \<or> hd s = 45 then tl s else s)
           in case ParseUint10 64 t of
                None \<Rightarrow> None
              | Some v \<Rightarrow>
                  if \<not> neg \<and> v \<ge> 2 ^ 63 then None
                  else if neg \<and> v > 2 ^ 63 then None
                  else Some (if neg then - int v else int v))"

text \<open>\<^verbatim>\<open>%0nd\<close> of a number below \<open>10 ^ n\<close>.\<close>

fun decn :: "nat \<Rightarrow> nat \<Rightarrow> bytes" where
  "decn 0 v = []"
| "decn (Suc n) v = decn n (v div 10) @ [digit (v mod 10)]"

lemma unat_digit: "d < 10 \<Longrightarrow> unat (digit d) = 48 + d"
  unfolding digit_def by (simp only: unat_of_nat_eq_iff) simp

lemma is_digit_digit [simp]: "d < 10 \<Longrightarrow> is_digit (digit d)"
  by (simp add: is_digit_def word_le_nat_alt unat_digit)

lemma digit_zero_iff: "d < 10 \<Longrightarrow> digit d = 48 \<longleftrightarrow> d = 0"
  by (simp add: word_unat_eq_iff unat_digit)

lemma digit_neq [simp]: "d < 10 \<Longrightarrow> digit d \<noteq> 45" "d < 10 \<Longrightarrow> digit d \<noteq> 43" "d < 10 \<Longrightarrow> digit d \<noteq> 46"
  by (simp_all add: word_unat_eq_iff unat_digit)

lemma dec_acc_append:
  "dec_acc a (s @ t) = (case dec_acc a s of None \<Rightarrow> None | Some v \<Rightarrow> dec_acc v t)"
  by (induction s arbitrary: a) auto

lemma dec_acc_snoc [simp]:
  "d < 10 \<Longrightarrow> dec_acc a (s @ [digit d]) = map_option (\<lambda>v. 10 * v + d) (dec_acc a s)"
  by (auto simp: dec_acc_append unat_digit split: option.splits)

lemma length_decn [simp]: "length (decn n v) = n"
  by (induction n arbitrary: v) simp_all

lemma decn_digits: "list_all is_digit (decn n v)"
  by (induction n arbitrary: v) simp_all

lemma dec_acc_decn: "v < 10 ^ n \<Longrightarrow> dec_acc 0 (decn n v) = Some v"
proof (induction n arbitrary: v)
  case (Suc n)
  then have "v div 10 < 10 ^ n" by (simp add: div_less_iff_less_mult)
  then show ?case using Suc.IH by simp
qed simp

lemma decn_all_zero: "decn n v = replicate n 48 \<Longrightarrow> v < 10 ^ n \<Longrightarrow> v = 0"
proof (induction n arbitrary: v)
  case (Suc n)
  then have "decn n (v div 10) = replicate n 48" "digit (v mod 10) = 48"
    by (simp_all add: replicate_append_same [symmetric])
  moreover have "v div 10 < 10 ^ n" using Suc.prems(2) by (simp add: div_less_iff_less_mult)
  ultimately show ?case using Suc.IH [of "v div 10"] digit_zero_iff [of "v mod 10"] by presburger
qed simp

section \<open>Formatting and parsing\<close>

lemma FormatUint_digits: "list_all is_digit (FormatUint n) \<and> FormatUint n \<noteq> []"
proof (induction n rule: FormatUint.induct)
  case (1 n)
  have "n < 10 \<Longrightarrow> is_digit (digit n)" "is_digit (digit (n mod 10))" by simp_all
  then show ?case using 1 by (subst (1 2) FormatUint.simps) (simp add: digit_def)
qed

lemma dec_acc_FormatUint: "dec_acc 0 (FormatUint n) = Some n"
proof (induction n rule: FormatUint.induct)
  case (1 n)
  show ?case
  proof (cases "n < 10")
    case True
    then have "FormatUint n = [] @ [digit n]" by (subst FormatUint.simps) (simp add: digit_def)
    then show ?thesis using True by (simp only: dec_acc_snoc) simp
  next
    case False
    then have "FormatUint n = FormatUint (n div 10) @ [digit (n mod 10)]"
      by (subst FormatUint.simps) (simp add: digit_def)
    then show ?thesis using 1 False by simp
  qed
qed

lemma ParseUint10_FormatUint: "n < 2 ^ bits \<Longrightarrow> ParseUint10 bits (FormatUint n) = Some n"
  using FormatUint_digits [of n] by (simp add: ParseUint10_def dec_acc_FormatUint)

lemma FormatUint_hd: "is_digit (hd (FormatUint n))"
  using FormatUint_digits [of n] by (cases "FormatUint n") simp_all

lemma digit_not_sign: "is_digit c \<Longrightarrow> c \<noteq> 45 \<and> c \<noteq> 43"
  by (auto simp: is_digit_def)

lemma ParseInt10_FormatUint: "n < 2 ^ 63 \<Longrightarrow> ParseInt10 (FormatUint n) = Some (int n)"
  using FormatUint_digits [of n] digit_not_sign [OF FormatUint_hd] ParseUint10_FormatUint [of n 64]
  by (simp add: ParseInt10_def)

lemma ParseInt10_minus: "n \<le> 2 ^ 63 \<Longrightarrow> ParseInt10 (45 # FormatUint n) = Some (- int n)"
  using ParseUint10_FormatUint [of n 64] by (simp add: ParseInt10_def)

lemma ParseInt10_FormatInt: "int64_ok x \<Longrightarrow> ParseInt10 (FormatInt x) = Some x"
  using ParseInt10_FormatUint [of "nat x"] ParseInt10_minus [of "nat (- x)"]
  by (auto simp: FormatInt_def int64_ok_def)

lemma ParseInt10_decn:
  assumes "v < 10 ^ n" and "0 < n" and "v < 2 ^ 63"
  shows "ParseInt10 (decn n v) = Some (int v)"
proof -
  have ne: "decn n v \<noteq> []" using assms(2) by (metis length_decn length_greater_0_conv)
  then have "is_digit (hd (decn n v))" using decn_digits [of n v] by (cases "decn n v") simp_all
  then show ?thesis
    using digit_not_sign ne dec_acc_decn [OF assms(1)] assms(3) by (simp add: ParseInt10_def ParseUint10_def)
qed

section \<open>Searching and trimming\<close>

text \<open>\<^verbatim>\<open>strings.IndexByte\<close>, \<^verbatim>\<open>TrimRight\<close> and \<^verbatim>\<open>Trim\<close> with ASCII cutsets.\<close>

fun IndexByte :: "bytes \<Rightarrow> byte \<Rightarrow> nat option" where
  "IndexByte [] c = None"
| "IndexByte (x # xs) c = (if x = c then Some 0 else map_option Suc (IndexByte xs c))"

definition TrimRight :: "bytes \<Rightarrow> bytes \<Rightarrow> bytes" where
  "TrimRight s cs = rev (dropWhile (\<lambda>c. c \<in> set cs) (rev s))"

definition Trim :: "bytes \<Rightarrow> bytes \<Rightarrow> bytes" where
  "Trim s cs = TrimRight (dropWhile (\<lambda>c. c \<in> set cs) s) cs"

lemma IndexByte_append: "c \<notin> set a \<Longrightarrow> IndexByte (a @ c # b) c = Some (length a)"
  by (induction a) auto

lemma IndexByte_None: "c \<notin> set a \<Longrightarrow> IndexByte a c = None"
  by (induction a) auto

lemma TrimRight_split: "\<exists>z. s = TrimRight s cs @ z \<and> set z \<subseteq> set cs"
proof -
  have "rev s = takeWhile (\<lambda>c. c \<in> set cs) (rev s) @ dropWhile (\<lambda>c. c \<in> set cs) (rev s)" by simp
  then have "s = TrimRight s cs @ rev (takeWhile (\<lambda>c. c \<in> set cs) (rev s))"
    unfolding TrimRight_def by (metis rev_append rev_rev_ident)
  then show ?thesis by (intro exI) (auto dest: set_takeWhileD)
qed

lemma TrimRight_append: "\<not> set b \<subseteq> set cs \<Longrightarrow> TrimRight (a @ b) cs = a @ TrimRight b cs"
  by (auto simp: TrimRight_def dropWhile_append)

lemma Trim_Nil_iff: "Trim s cs = [] \<longleftrightarrow> set s \<subseteq> set cs"
proof -
  have "(\<forall>x \<in> set (dropWhile P s). P x) \<longleftrightarrow> (\<forall>x \<in> set s. P x)" for P
    using dropWhile_eq_Nil_conv [of P s] hd_dropWhile [of P s] hd_in_set [of "dropWhile P s"]
    by (metis set_dropWhileD)
  then show ?thesis by (auto simp: Trim_def TrimRight_def)
qed

end
