(* ===== verification/Pax_Time.thy ===== *)
theory Pax_Time
  imports Go_Decimal
begin

text \<open>
  Times of PAX records (\<^verbatim>\<open>src/backuptar/strconv.go\<close>). A \<^verbatim>\<open>time.Time\<close>
  is its seconds since 1970 (an \<^verbatim>\<open>int64\<close>) and the nanoseconds within the second.
\<close>

section \<open>Points in time\<close>

type_synonym go_time = "int \<times> int"

text \<open>\<^verbatim>\<open>time.Unix\<close> carries the nanoseconds over into the seconds.\<close>

definition time_Unix :: "int \<Rightarrow> int \<Rightarrow> go_time" where
  "time_Unix secs nsec = (wrap64 (secs + nsec div 1000000000), nsec mod 1000000000)"

definition UnixNano :: "go_time \<Rightarrow> int" where
  "UnixNano t = wrap64 (fst t * 1000000000 + snd t)"

definition time_ok :: "go_time \<Rightarrow> bool" where
  "time_ok t \<longleftrightarrow> int64_ok (fst t) \<and> 0 \<le> snd t \<and> snd t < 1000000000"

lemma UnixNano_Unix: "int64_ok n \<Longrightarrow> UnixNano (time_Unix 0 n) = n \<and> time_ok (time_Unix 0 n)"
proof -
  assume n: "int64_ok n"
  then have "- (2 ^ 63) \<le> n div 1000000000" "n div 1000000000 < 2 ^ 63" by (auto simp: int64_ok_def)
  then have "wrap64 (n div 1000000000) = n div 1000000000" by simp
  then show ?thesis using n by (auto simp: UnixNano_def time_Unix_def int64_ok_def time_ok_def wrap64_range)
qed

section \<open>Parsing and printing\<close>

definition tar_ErrHeader :: go_error where
  "tar_ErrHeader = ErrNew ''archive/tar: invalid tar header''"

definition maxNanoSecondDigits :: nat where "maxNanoSecondDigits = 9"

definition decimal_digits :: bytes where "decimal_digits = [48, 49, 50, 51, 52, 53, 54, 55, 56, 57]"

text \<open>Splitting at the first dot, and padding or cutting the fraction to nine digits.\<close>

definition split_time :: "gostring \<Rightarrow> gostring \<times> gostring" where
  "split_time s = (case IndexByte s 46 of None \<Rightarrow> (s, []) | Some pos \<Rightarrow> (take pos s, drop (pos + 1) s))"

definition pad_nanos :: "gostring \<Rightarrow> gostring" where
  "pad_nanos sn =
     (if length sn < maxNanoSecondDigits then sn @ replicate (maxNanoSecondDigits - length sn) 48
      else take maxNanoSecondDigits sn)"

definition parsePAXTime :: "gostring \<Rightarrow> go_time res" where
  "parsePAXTime s =
     (let (ss, sn) = split_time s in
      case ParseInt10 ss of
        None \<Rightarrow> Err tar_ErrHeader
      | Some secs \<Rightarrow>
          if sn = [] then Ok (time_Unix secs 0)
          else if Trim sn decimal_digits \<noteq> [] then Err tar_ErrHeader
          else
            let nsecs = (case ParseInt10 (pad_nanos sn) of None \<Rightarrow> 0 | Some v \<Rightarrow> v) in
            if ss \<noteq> [] \<and> hd ss = 45 then Ok (time_Unix secs (- 1 * nsecs))
            else Ok (time_Unix secs nsecs))"

definition formatPAXTime :: "go_time \<Rightarrow> gostring" where
  "formatPAXTime ts =
     (let secs = fst ts; nsecs = snd ts in
      if nsecs = 0 then FormatInt secs
      else
        let sign = (if secs < 0 then [45] else []);
            secs' = (if secs < 0 then - (secs + 1) else secs);
            nsecs' = (if secs < 0 then - (nsecs - 1000000000) else nsecs)
        in TrimRight (sign @ FormatInt secs' @ [46] @ decn 9 (nat nsecs')) [48])"

section \<open>Parsing inverts printing\<close>

lemma digits_decimal: "set decimal_digits = {c. is_digit c}"
proof (rule set_eqI)
  fix c :: byte
  have "is_digit c \<longleftrightarrow> unat c \<in> set [48..<58]"
    unfolding is_digit_def word_le_nat_alt set_upt atLeastLessThan_iff by simp linarith
  also have "set [48..<58] = {48, 49, 50, 51, 52, 53, 54, 55, 56, 57 :: nat}" by (simp add: upt_conv_Cons)
  also have "unat c \<in> {48, 49, 50, 51, 52, 53, 54, 55, 56, 57} \<longleftrightarrow> c \<in> set decimal_digits"
    by (simp add: decimal_digits_def word_unat_eq_iff)
  finally show "c \<in> set decimal_digits \<longleftrightarrow> c \<in> {c. is_digit c}" by simp
qed

lemma pad_TrimRight:
  assumes "length d = 9"
  shows "pad_nanos (TrimRight d [48]) = d"
proof -
  define t where "t = TrimRight d [48]"
  obtain z where z: "d = t @ z" "set z \<subseteq> {48}" using TrimRight_split [of d "[48]"] by (auto simp: t_def)
  have len: "length t + length z = 9" using arg_cong [OF z(1), of length] assms by simp
  have "z = replicate (9 - length t) 48" using z(2) len by (intro replicate_eqI) auto
  then have "pad_nanos t = d" using z(1) len by (simp add: pad_nanos_def maxNanoSecondDigits_def)
  then show ?thesis by (simp add: t_def)
qed

lemma parse_fraction:
  assumes "46 \<notin> set ss" and "ParseInt10 ss = Some secs" and "0 < n" and "n < 1000000000"
  shows "parsePAXTime (TrimRight (ss @ [46] @ decn 9 n) [48]) =
    Ok (time_Unix secs (if ss \<noteq> [] \<and> hd ss = 45 then - int n else int n))"
proof -
  let ?d = "decn 9 n"
  have "?d \<noteq> replicate 9 48" using decn_all_zero [of 9 n] assms(3,4) by auto
  then have nz: "\<not> set ?d \<subseteq> set [48]"
    using replicate_eqI [of ?d 9 48] by auto
  then have "TrimRight (ss @ [46] @ ?d) [48] = ss @ [46] @ TrimRight ?d [48]"
    using TrimRight_append [of ?d "[48]" "ss @ [46]"] by simp
  moreover have "split_time (ss @ [46] @ TrimRight ?d [48]) = (ss, TrimRight ?d [48])"
    using IndexByte_append [OF assms(1)] by (simp add: split_time_def)
  moreover obtain z where z: "?d = TrimRight ?d [48] @ z" "set z \<subseteq> {48}"
    using TrimRight_split [of ?d "[48]"] by auto
  have "TrimRight ?d [48] \<noteq> []" using z nz by auto
  moreover have "set (TrimRight ?d [48]) \<subseteq> set decimal_digits"
    using decn_digits [of 9 n] z(1) unfolding digits_decimal list_all_iff
    by (metis (mono_tags) UnCI mem_Collect_eq set_append subsetI)
  then have "Trim (TrimRight ?d [48]) decimal_digits = []" by (simp add: Trim_Nil_iff)
  moreover have "ParseInt10 (pad_nanos (TrimRight ?d [48])) = Some (int n)"
    using ParseInt10_decn [of n 9] assms(4) by (simp add: pad_TrimRight)
  ultimately show ?thesis using assms(2) by (simp add: parsePAXTime_def)
qed

lemma no_dot_FormatUint: "46 \<notin> set (FormatUint n)"
  using FormatUint_digits [of n] by (auto simp: list_all_iff is_digit_def)

lemma no_dot_FormatInt: "46 \<notin> set (FormatInt x)"
  by (simp add: FormatInt_def no_dot_FormatUint)

lemma parse_format_time:
  assumes "time_ok t"
  shows "parsePAXTime (formatPAXTime t) = Ok t"
proof -
  obtain s n where t: "t = (s, n)" and s: "int64_ok s" and n: "0 \<le> n" "n < 1000000000"
    using assms by (cases t) (auto simp: time_ok_def)
  have unix: "time_Unix s 0 = (s, 0)" using s by (simp add: time_Unix_def int64_ok_def)
  show ?thesis
  proof (cases "n = 0")
    case True
    have "split_time (FormatInt s) = (FormatInt s, [])"
      by (simp add: split_time_def IndexByte_None no_dot_FormatInt)
    then show ?thesis using True t unix ParseInt10_FormatInt [OF s] by (simp add: parsePAXTime_def formatPAXTime_def)
  next
    case False
    show ?thesis
    proof (cases "s < 0")
      case True
      have "formatPAXTime t = TrimRight ((45 # FormatUint (nat (- (s + 1)))) @ [46] @ decn 9 (nat (1000000000 - n))) [48]"
        using True False t by (simp add: formatPAXTime_def Let_def FormatInt_def)
      moreover have "ParseInt10 (45 # FormatUint (nat (- (s + 1)))) = Some (s + 1)"
        using ParseInt10_minus [of "nat (- (s + 1))"] True s by (auto simp: int64_ok_def)
      moreover have "time_Unix (s + 1) (- (1000000000 - n)) = (s, n)"
      proof -
        have "- (1000000000 - n) = n + (- 1) * 1000000000" by simp
        then have "- (1000000000 - n) div 1000000000 = - 1" "- (1000000000 - n) mod 1000000000 = n"
          using n False by (simp_all only: div_mult_self1 mod_mult_self1) simp_all
        then show ?thesis using s by (simp add: time_Unix_def int64_ok_def)
      qed
      ultimately show ?thesis
        using parse_fraction [of "45 # FormatUint (nat (- (s + 1)))" "s + 1" "nat (1000000000 - n)"] n False t
        by (simp add: no_dot_FormatUint)
    next
      case nonneg: False
      have "formatPAXTime t = TrimRight (FormatUint (nat s) @ [46] @ decn 9 (nat n)) [48]"
        using nonneg False t by (simp add: formatPAXTime_def Let_def FormatInt_def)
      moreover have "ParseInt10 (FormatUint (nat s)) = Some s"
        using ParseInt10_FormatUint [of "nat s"] nonneg s by (simp add: int64_ok_def)
      moreover have "time_Unix s n = (s, n)" using s n by (simp add: time_Unix_def int64_ok_def)
      moreover have "(if FormatUint (nat s) \<noteq> [] \<and> hd (FormatUint (nat s)) = 45 then - int (nat n) else int (nat n)) = n"
        using digit_not_sign [OF FormatUint_hd [of "nat s"]] n by simp
      ultimately show ?thesis
        using parse_fraction [of "FormatUint (nat s)" s "nat n"] n False t by (simp only: no_dot_FormatUint) simp
    qed
  qed
qed

text \<open>
  A time written into a PAX record is read back exactly: for every \<^verbatim>\<open>time.Time\<close>,
  before 1970 too, \<^verbatim>\<open>parsePAXTime\<close> of the text of \<^verbatim>\<open>formatPAXTime\<close> is
  that time, to the nanosecond.
\<close>

theorem paxtime_roundtrip:
  assumes "time_ok t"
  shows "parsePAXTime (formatPAXTime t) = Ok t"
  by (rule parse_format_time [OF assms])

theorem paxtime_roundtrip_witness: "parsePAXTime (formatPAXTime (- 1, 500000000)) = Ok (- 1, 500000000)"
  by (rule paxtime_roundtrip) (simp add: time_ok_def int64_ok_def)

end
