(* ===== verification/Go_Tar.thy ===== *)
theory Go_Tar
  imports Go_IO Pax_Time
begin

text \<open>
  Copying from a reader to a writer (\<^verbatim>\<open>io.Copy\<close>, \<^verbatim>\<open>io.CopyN\<close>), and the
  archives of package \<^verbatim>\<open>archive/tar\<close> at the level of their entries: the fields of
  \<^verbatim>\<open>tar.Header\<close> in use, a \<^verbatim>\<open>tar.Writer\<close> over a sink that takes every byte
  and a \<^verbatim>\<open>tar.Reader\<close> over the entries written. The locale \<open>io_writer\<close> is the contract of
  a writer with room for a number of bytes.
\<close>

section \<open>Copying\<close>

definition ErrShortWrite :: go_error where "ErrShortWrite = ErrNew ''short write''"
definition errInvalidWrite :: go_error where "errInvalidWrite = ErrNew ''invalid write result''"

partial_function (option) copy_loop ::
  "'s reader \<Rightarrow> 'w writer \<Rightarrow> nat \<Rightarrow> 's \<Rightarrow> 'w \<Rightarrow> int \<Rightarrow> (int \<times> go_error option, 's \<times> 'w) io" where
  "copy_loop rd wr sz s w n =
     (case rd s sz of
        Err e \<Rightarrow> Some (Err e, (s, w))
      | Panic p \<Rightarrow> Some (Panic p, (s, w))
      | Ok (b, er, s') \<Rightarrow>
          (if b = [] then
             (case er of
                None \<Rightarrow> copy_loop rd wr sz s' w n
              | Some e \<Rightarrow> Some (Ok (n, if e = EOF then None else Some e), (s', w)))
           else
             (case wr w b of (k, ew, w') \<Rightarrow>
                let k' = (if length b < k then 0 else k);
                    ew' = (if length b < k \<and> ew = None then Some errInvalidWrite else ew)
                in if ew' \<noteq> None then Some (Ok (n + int k', ew'), (s', w'))
                   else if k' \<noteq> length b then Some (Ok (n + int k', Some ErrShortWrite), (s', w'))
                   else (case er of
                       None \<Rightarrow> copy_loop rd wr sz s' w' (n + int k')
                     | Some e \<Rightarrow> Some (Ok (n + int k', if e = EOF then None else Some e), (s', w'))))))"

definition Copy :: "'s reader \<Rightarrow> 'w writer \<Rightarrow> 's \<Rightarrow> 'w \<Rightarrow> (int \<times> go_error option, 's \<times> 'w) io" where
  "Copy rd wr s w = copy_loop rd wr 32768 s w 0"

text \<open>\<^verbatim>\<open>io.CopyN\<close> with its buffer of at most \<open>n\<close> bytes.\<close>

definition CopyN_to :: "'s reader \<Rightarrow> 'w writer \<Rightarrow> int \<Rightarrow> 's \<Rightarrow> 'w \<Rightarrow> (go_error option, 's \<times> 'w) io" where
  "CopyN_to rd wr n s w =
     (let sz = (if 32768 > n then (if n < 1 then 1 else nat n) else 32768) in
      case copy_loop (limited_Read rd) wr sz (s, n) w 0 of
        None \<Rightarrow> None
      | Some (Err e, ((s', _), w')) \<Rightarrow> Some (Err e, (s', w'))
      | Some (Panic p, ((s', _), w')) \<Rightarrow> Some (Panic p, (s', w'))
      | Some (Ok (k, err), ((s', _), w')) \<Rightarrow>
          Some (Ok (if k = n then None else if k < n \<and> err = None then Some EOF else err), (s', w')))"

section \<open>The contract of a writer\<close>

text \<open>\<open>room w\<close> bytes fit, and \<open>put w b\<close> is the writer after it took \<open>b\<close>.\<close>

locale io_writer =
  fixes wr :: "'w writer" and room :: "'w \<Rightarrow> int" and put :: "'w \<Rightarrow> bytes \<Rightarrow> 'w"
  assumes wr_room: "int (length b) \<le> room w \<Longrightarrow> wr w b = (length b, None, put w b)"
    and room_put: "int (length b) \<le> room w \<Longrightarrow> room (put w b) = room w - int (length b)"
    and put_Nil: "put w [] = w"
    and put_put: "put (put w a) b = put w (a @ b)"

locale io_copying = io_reader + io_writer
begin

lemma copy_loop_correct:
  assumes "inv s" and "0 < sz" and "int (length (content s)) \<le> room w"
  shows "\<exists>s'. inv s' \<and> fin s' = fin s \<and> content s' = [] \<and>
    copy_loop rd wr sz s w n =
      Some (Ok (n + int (length (content s)), if fin s = EOF then None else Some (fin s)), (s', put w (content s)))"
  using assms(1,3)
proof (induction s arbitrary: w n rule: reader_induct)
  case (less s)
  from less.prems(1) show ?case
  proof (cases rule: rd_cases [where n = sz])
    case (data b s')
    then have dec: "length (content s') < length (content s) \<or> content s' = content s \<and> rank s' < rank s"
      using assms(2) by (cases b) auto
    have room: "int (length b) \<le> room w" "int (length (content s')) \<le> room (put w b)"
      using less.prems(2) data(5) room_put [of b w] by auto
    from less.IH [OF dec data(2) room(2), of "n + int (length b)"] obtain s'' where
      "inv s''" "fin s'' = fin s" "content s'' = []"
      "copy_loop rd wr sz s' (put w b) (n + int (length b)) =
        Some (Ok (n + int (length (content s)), if fin s = EOF then None else Some (fin s)), (s'', put w (content s)))"
      using data(3,5) by (auto simp: put_put add.assoc)
    then show ?thesis
      using data(1) wr_room [OF room(1)] put_Nil by (subst copy_loop.simps) (auto intro!: exI [of _ s''])
  next
    case (fin b s')
    then have "int (length b) \<le> room w" using less.prems(2) by simp
    then show ?thesis
      using fin wr_room put_Nil by (subst copy_loop.simps) (auto intro!: exI [of _ s'])
  qed
qed

lemma Copy_correct:
  assumes "inv s" and "int (length (content s)) \<le> room w"
  obtains s' where "inv s'" "fin s' = fin s" "content s' = []"
    "Copy rd wr s w =
       Some (Ok (int (length (content s)), if fin s = EOF then None else Some (fin s)), (s', put w (content s)))"
  using copy_loop_correct [OF assms(1) _ assms(2), of 32768 0] that by (auto simp: Copy_def)

end

section \<open>Zeros\<close>

definition zero_Read :: "unit reader" where
  "zero_Read s n = Ok (replicate n 0, None, ())"

context io_writer
begin

lemma zeros_loop:
  assumes "0 < sz" and "int n \<le> room w"
  shows "copy_loop (limited_Read zero_Read) wr sz ((), int n) w k =
    Some (Ok (k + int n, None), (((), 0), put w (replicate n 0)))"
  using assms(2)
proof (induction n arbitrary: w k rule: less_induct)
  case (less n)
  show ?case
  proof (cases "n = 0")
    case True
    then show ?thesis by (subst copy_loop.simps) (simp add: limited_Read_def put_Nil)
  next
    case False
    let ?m = "min sz n"
    have r: "limited_Read zero_Read ((), int n) sz = Ok (replicate ?m 0, None, ((), int (n - ?m)))"
      using False by (auto simp: limited_Read_def zero_Read_def min_def)
    have m: "0 < ?m" "int (length (replicate ?m (0 :: byte))) \<le> room w" using False assms(1) less.prems by auto
    have "int (n - ?m) \<le> room (put w (replicate ?m 0))" using room_put [OF m(2)] less.prems by auto
    from less.IH [OF _ this, of "k + int ?m"] m(1) False
    have "copy_loop (limited_Read zero_Read) wr sz ((), int (n - ?m)) (put w (replicate ?m 0)) (k + int ?m) =
      Some (Ok (k + int n, None), (((), 0), put w (replicate n 0)))"
      by (auto simp: put_put replicate_add [symmetric])
    then show ?thesis using r wr_room [OF m(2)] m(1) by (subst copy_loop.simps) (auto simp: Let_def)
  qed
qed

lemma CopyN_zeros:
  assumes "0 \<le> n" and "n \<le> room w"
  shows "CopyN_to zero_Read wr n () w = Some (Ok None, ((), put w (replicate (nat n) 0)))"
proof -
  let ?sz = "if 32768 > n then (if n < 1 then 1 else nat n) else 32768"
  have "0 < ?sz" by auto
  from zeros_loop [OF this, of "nat n" w 0] assms show ?thesis by (simp add: CopyN_to_def)
qed

end

section \<open>Archives\<close>

definition TypeReg :: byte where "TypeReg = 48"
definition TypeSymlink :: byte where "TypeSymlink = 50"
definition TypeDir :: byte where "TypeDir = 53"
definition FormatPAX :: nat where "FormatPAX = 4"

record tar_Header =
  th_Typeflag :: byte
  th_Name :: gostring
  th_Linkname :: gostring
  th_Size :: int
  th_Mode :: int
  th_ModTime :: go_time
  th_AccessTime :: go_time
  th_ChangeTime :: go_time
  th_PAXRecords :: "gostring \<rightharpoonup> gostring"
  th_Format :: nat

text \<open>The types whose entries have no data: links, devices, directories and FIFOs.\<close>

definition isHeaderOnlyType :: "byte \<Rightarrow> bool" where
  "isHeaderOnlyType flag \<longleftrightarrow> flag \<in> {49, 50, 51, 52, 53, 54}"

text \<open>
  A writer holds the entries written and what is missing of the current one. Which headers the
  formats of the archive can hold is the parameter \<open>allowed\<close>.
\<close>

record tar_writer =
  tw_entries :: "(tar_Header \<times> bytes) list"
  tw_left :: int

definition new_tar_writer :: tar_writer where
  "new_tar_writer = \<lparr>tw_entries = [], tw_left = 0\<rparr>"

definition tw_WriteHeader ::
  "(tar_Header \<Rightarrow> go_error option) \<Rightarrow> tar_writer \<Rightarrow> tar_Header \<Rightarrow> go_error option \<times> tar_writer" where
  "tw_WriteHeader allowed w hdr =
     (if tw_left w > 0 then (Some (ErrFmt ''archive/tar: missed writing %d bytes'' [tw_left w]), w)
      else case allowed hdr of
          Some e \<Rightarrow> (Some e, w)
        | None \<Rightarrow>
            (None, \<lparr>tw_entries = tw_entries w @ [(hdr, [])],
                    tw_left = (if isHeaderOnlyType (th_Typeflag hdr) then 0 else th_Size hdr)\<rparr>))"

definition ErrWriteTooLong :: go_error where
  "ErrWriteTooLong = ErrNew ''archive/tar: write too long''"

definition put_entry :: "(tar_Header \<times> bytes) list \<Rightarrow> bytes \<Rightarrow> (tar_Header \<times> bytes) list" where
  "put_entry es b =
     (if es = [] then [] else butlast es @ [(fst (List.last es), snd (List.last es) @ b)])"

definition tw_put :: "tar_writer \<Rightarrow> bytes \<Rightarrow> tar_writer" where
  "tw_put w b = \<lparr>tw_entries = put_entry (tw_entries w) b, tw_left = tw_left w - int (length b)\<rparr>"

definition tw_Write :: "tar_writer writer" where
  "tw_Write w b =
     (if int (length b) > tw_left w then
        let c = take (nat (tw_left w)) b in (length c, Some ErrWriteTooLong, tw_put w c)
      else (length b, None, tw_put w b))"

interpretation tw: io_writer tw_Write tw_left tw_put
proof
  fix w :: tar_writer and a b
  show "int (length b) \<le> tw_left w \<Longrightarrow> tw_Write w b = (length b, None, tw_put w b)"
    by (simp add: tw_Write_def)
  show "tw_left (tw_put w b) = tw_left w - int (length b)" by (simp add: tw_put_def)
  show "tw_put w [] = w" by (cases w) (simp add: tw_put_def put_entry_def)
  show "tw_put (tw_put w a) b = tw_put w (a @ b)" by (simp add: tw_put_def put_entry_def)
qed

lemma tw_put_entry [simp]:
  "tw_put \<lparr>tw_entries = es @ [(h, d)], tw_left = n\<rparr> b = \<lparr>tw_entries = es @ [(h, d @ b)], tw_left = n - int (length b)\<rparr>"
  by (simp add: tw_put_def put_entry_def)

text \<open>
  A reader stands in an entry; the entries after it follow. The last bytes of an entry come
  together with the end of the file.
\<close>

record tar_reader =
  tr_cur :: bytes
  tr_rest :: "(tar_Header \<times> bytes) list"

definition tr_Next :: "tar_reader \<Rightarrow> tar_Header res \<times> tar_reader" where
  "tr_Next r =
     (case tr_rest r of
        [] \<Rightarrow> (Err EOF, r\<lparr>tr_cur := []\<rparr>)
      | (h, d) # es \<Rightarrow> (Ok h, \<lparr>tr_cur = d, tr_rest = es\<rparr>))"

definition tr_Read :: "tar_reader reader" where
  "tr_Read r n =
     (let b = take n (tr_cur r); c = drop n (tr_cur r) in
      Ok (b, if c = [] then Some EOF else None, r\<lparr>tr_cur := c\<rparr>))"

interpretation tr: io_reader tr_Read "\<lambda>r. tr_rest r = R" tr_cur "\<lambda>_. EOF" "\<lambda>_. 0" for R
  by unfold_locales (auto simp: tr_Read_def Let_def split: if_splits)

section \<open>Paths\<close>

text \<open>\<^verbatim>\<open>filepath.ToSlash\<close> and \<^verbatim>\<open>FromSlash\<close> on Windows.\<close>

definition ToSlash :: "gostring \<Rightarrow> gostring" where
  "ToSlash s = map (\<lambda>c. if c = 92 then 47 else c) s"

definition FromSlash :: "gostring \<Rightarrow> gostring" where
  "FromSlash s = map (\<lambda>c. if c = 47 then 92 else c) s"

lemma FromSlash_id: "47 \<notin> set s \<Longrightarrow> FromSlash s = s"
  by (auto simp: FromSlash_def intro!: map_idI)

definition TrimSuffix :: "gostring \<Rightarrow> gostring \<Rightarrow> gostring" where
  "TrimSuffix s p = (if HasSuffix s p then take (length s - length p) s else s)"

lemma TrimSuffix_append [simp]: "TrimSuffix (s @ p) p = s"
  by (simp add: TrimSuffix_def HasSuffix_def)

end
