(* ===== verification/Backuptar.thy ===== *)
theory Backuptar
  imports Backup Ea Reparse Go_Base64 Go_Tar
begin

text \<open>
  Windows files in tar archives (\<^verbatim>\<open>src/backuptar/tar.go\<close>): a backup stream is written as
  a tar entry whose PAX records hold the Windows metadata, followed by an entry for each alternate
  data stream, and back. Parameters are the underlying reader with its \<^verbatim>\<open>Seek\<close>, the tar
  writer and reader, the conversions of \<^verbatim>\<open>windows.Filetime\<close>, and the order in which
  \<^verbatim>\<open>range\<close> visits the PAX records.
\<close>

lemma io_bind_mono [partial_function_mono]:
  fixes B :: "('r \<Rightarrow> 'q option) \<Rightarrow> ('a, 's) io"
  assumes "mono_option B" and "\<And>x s. mono_option (\<lambda>f. C x s f)"
  shows "mono_option (\<lambda>f. io_bind (B f) (\<lambda>x s. C x s f))"
proof -
  define k where "k C = (\<lambda>(r, s). case r of Ok x \<Rightarrow> C x s | Err e \<Rightarrow> Some (Err e, s) | Panic p \<Rightarrow> Some (Panic p, s))"
    for C :: "'a \<Rightarrow> 's \<Rightarrow> ('b, 's) io"
  have bind: "io_bind m C = Option.bind m (k C)" for m :: "('a, 's) io" and C :: "'a \<Rightarrow> 's \<Rightarrow> ('b, 's) io"
    by (auto simp: io_bind_def k_def split: option.splits res.splits prod.splits)
  show ?thesis
    unfolding bind
  proof (rule bind_mono [OF assms(1)])
    fix y :: "'a res \<times> 's"
    show "mono_option (\<lambda>f. k (\<lambda>x s. C x s f) y)"
      by (cases y, cases "fst y") (auto simp: k_def intro: assms(2) option.const_mono)
  qed
qed

section \<open>Headers\<close>

definition cISREG :: int where "cISREG = 0x8000"
definition cISDIR :: int where "cISDIR = 0x4000"
definition cISLNK :: int where "cISLNK = 0xA000"

definition hdrFileAttributes :: gostring where "hdrFileAttributes = bs_of ''MSWINDOWS.fileattr''"
definition hdrSecurityDescriptor :: gostring where "hdrSecurityDescriptor = bs_of ''MSWINDOWS.sd''"
definition hdrRawSecurityDescriptor :: gostring where "hdrRawSecurityDescriptor = bs_of ''MSWINDOWS.rawsd''"
definition hdrMountPoint :: gostring where "hdrMountPoint = bs_of ''MSWINDOWS.mountpoint''"
definition hdrEaPrefix :: gostring where "hdrEaPrefix = bs_of ''MSWINDOWS.xattr.''"
definition hdrCreationTime :: gostring where "hdrCreationTime = bs_of ''LIBARCHIVE.creationtime''"

definition win_ATTRIBUTE_DIRECTORY :: u32 where "win_ATTRIBUTE_DIRECTORY = 0x10"

record 'ft FileBasicInfo =
  fb_CreationTime :: 'ft
  fb_LastAccessTime :: 'ft
  fb_LastWriteTime :: 'ft
  fb_ChangeTime :: 'ft
  fb_FileAttributes :: u32

definition BasicInfoHeader ::
  "('ft \<Rightarrow> int) \<Rightarrow> gostring \<Rightarrow> int \<Rightarrow> 'ft FileBasicInfo \<Rightarrow> tar_Header" where
  "BasicInfoHeader nanos name fsize fi =
     (let hdr =
        \<lparr>th_Typeflag = TypeReg, th_Name = ToSlash name, th_Linkname = [], th_Size = fsize, th_Mode = 0,
         th_ModTime = time_Unix 0 (nanos (fb_LastWriteTime fi)),
         th_AccessTime = time_Unix 0 (nanos (fb_LastAccessTime fi)),
         th_ChangeTime = time_Unix 0 (nanos (fb_ChangeTime fi)),
         th_PAXRecords = [hdrFileAttributes \<mapsto> FormatUint (unat (fb_FileAttributes fi)),
           hdrCreationTime \<mapsto> formatPAXTime (time_Unix 0 (nanos (fb_CreationTime fi)))],
         th_Format = FormatPAX\<rparr>
      in if fb_FileAttributes fi AND win_ATTRIBUTE_DIRECTORY \<noteq> 0
         then hdr\<lparr>th_Mode := th_Mode hdr OR cISDIR, th_Size := 0, th_Typeflag := TypeDir\<rparr>
         else hdr)"

definition SddlToSecurityDescriptor :: "(gostring \<Rightarrow> bytes res) \<Rightarrow> gostring \<Rightarrow> bytes res" where
  "SddlToSecurityDescriptor from_string sddl = map_err (ErrWrap ''convert'') (from_string sddl)"

definition SecurityDescriptorFromTarHeader :: "(gostring \<Rightarrow> bytes res) \<Rightarrow> tar_Header \<Rightarrow> bytes res" where
  "SecurityDescriptorFromTarHeader from_string hdr =
     (case th_PAXRecords hdr hdrRawSecurityDescriptor of
        Some sdraw \<Rightarrow> b64_Decode sdraw
      | None \<Rightarrow>
          (case th_PAXRecords hdr hdrSecurityDescriptor of
             Some sddl \<Rightarrow> SddlToSecurityDescriptor from_string sddl
           | None \<Rightarrow> Ok []))"

text \<open>The attributes among the records, visited in the order \<open>keys\<close>.\<close>

fun ea_records :: "(gostring \<rightharpoonup> gostring) \<Rightarrow> gostring list \<Rightarrow> ExtendedAttribute list \<Rightarrow> ExtendedAttribute list res" where
  "ea_records recs [] eas = Ok eas"
| "ea_records recs (k # ks) eas =
     (case recs k of
        None \<Rightarrow> ea_records recs ks eas
      | Some v \<Rightarrow>
          if \<not> HasPrefix k hdrEaPrefix then ea_records recs ks eas
          else bind_res (b64_Decode v) (\<lambda>data.
            ea_records recs ks (eas @ [\<lparr>ea_Name = drop (length hdrEaPrefix) k, ea_Value = data, ea_Flags = 0\<rparr>])))"

definition ExtendedAttributesFromTarHeader :: "gostring list \<Rightarrow> tar_Header \<Rightarrow> bytes res" where
  "ExtendedAttributesFromTarHeader keys hdr =
     bind_res (ea_records (th_PAXRecords hdr) keys []) (\<lambda>eas.
     if eas \<noteq> [] then EncodeExtendedAttributes eas else Ok [])"

definition EncodeReparsePointFromTarHeader :: "tar_Header \<Rightarrow> bytes" where
  "EncodeReparsePointFromTarHeader hdr =
     EncodeReparsePoint \<lparr>Target = FromSlash (th_Linkname hdr), IsMountPoint = th_PAXRecords hdr hdrMountPoint \<noteq> None\<rparr>"

text \<open>\<^verbatim>\<open>FileInfoFromHeader\<close>; \<open>ft_of\<close> is \<^verbatim>\<open>windows.NsecToFiletime\<close>.\<close>

definition FileInfoFromHeader ::
  "(int \<Rightarrow> 'ft) \<Rightarrow> tar_Header \<Rightarrow> (gostring \<times> int \<times> 'ft FileBasicInfo) res" where
  "FileInfoFromHeader ft_of hdr =
     (let fsize = (if th_Typeflag hdr = TypeReg then th_Size hdr else 0) in
      bind_res
        (case th_PAXRecords hdr hdrFileAttributes of
           Some s \<Rightarrow>
             (case ParseUint10 32 s of
                None \<Rightarrow> Err (ErrNew ''strconv.ParseUint'')
              | Some v \<Rightarrow> Ok (of_nat v))
         | None \<Rightarrow> Ok (if th_Typeflag hdr = TypeDir then win_ATTRIBUTE_DIRECTORY else 0)) (\<lambda>attr.
      bind_res
        (case th_PAXRecords hdr hdrCreationTime of
           Some s \<Rightarrow> bind_res (parsePAXTime s) (\<lambda>t. Ok (ft_of (UnixNano t)))
         | None \<Rightarrow> Ok (ft_of (UnixNano (th_ModTime hdr)))) (\<lambda>ct.
      Ok (th_Name hdr, fsize,
          \<lparr>fb_CreationTime = ct, fb_LastAccessTime = ft_of (UnixNano (th_AccessTime hdr)),
           fb_LastWriteTime = ft_of (UnixNano (th_ModTime hdr)),
           fb_ChangeTime = ft_of (UnixNano (th_ChangeTime hdr)), fb_FileAttributes = attr\<rparr>))))"

section \<open>From a backup stream to an archive\<close>

text \<open>
  \<^verbatim>\<open>Seek\<close> with an offset and whether it is relative to the current position; it
  returns the new position.
\<close>

type_synonym 's seek_fn = "'s \<Rightarrow> int \<Rightarrow> bool \<Rightarrow> int \<times> go_error option \<times> 's"

definition rel_seek :: "'s seek_fn option \<Rightarrow> 's seeker option" where
  "rel_seek seek = map_option (\<lambda>f s k. case f s k True of (_, e, s') \<Rightarrow> (e, s')) seek"

definition file_error :: "gostring \<Rightarrow> go_error \<Rightarrow> go_error" where
  "file_error name e = ErrWrap (map (\<lambda>c. char_of (unat c)) name) e"

text \<open>\<^verbatim>\<open>io.ReadAll\<close> of the current stream, with its error.\<close>

definition read_stream :: "'s reader \<Rightarrow> 's BackupStreamReader \<Rightarrow> (bytes \<times> go_error option, 's BackupStreamReader) io" where
  "read_stream rd br =
     (case ReadAll (BSR_Read rd) br of
        None \<Rightarrow> None
      | Some (Ok (b, err, br')) \<Rightarrow> Some (Ok (b, err), br')
      | Some (Err e) \<Rightarrow> Some (Err e, br)
      | Some (Panic p) \<Rightarrow> Some (Panic p, br))"

definition reparse_header :: "ReparsePoint \<Rightarrow> tar_Header \<Rightarrow> tar_Header" where
  "reparse_header rp hdr =
     hdr\<lparr>th_Mode := th_Mode hdr OR cISLNK, th_Typeflag := TypeSymlink, th_Linkname := Target rp,
         th_PAXRecords := (if IsMountPoint rp then (th_PAXRecords hdr)(hdrMountPoint \<mapsto> bs_of ''1'') else th_PAXRecords hdr)\<rparr>"

definition ea_header :: "ExtendedAttribute list \<Rightarrow> tar_Header \<Rightarrow> tar_Header" where
  "ea_header eas hdr =
     hdr\<lparr>th_PAXRecords :=
       fold (\<lambda>ea m. m(hdrEaPrefix @ ea_Name ea \<mapsto> b64_Encode (ea_Value ea))) eas (th_PAXRecords hdr)\<rparr>"

definition ignored_streams :: "u32 list" where
  "ignored_streams = [BackupAlternateData, BackupLink, BackupPropertyData, BackupObjectId, BackupTxfsData]"

text \<open>A turn of the first loop: the effect of a stream on the header, and the data header when it is kept.\<close>

definition header_stream ::
  "'s reader \<Rightarrow> gostring \<Rightarrow> bool \<Rightarrow> tar_Header \<Rightarrow> BackupHeader \<Rightarrow> 's BackupStreamReader \<Rightarrow>
     (tar_Header \<times> BackupHeader option, 's BackupStreamReader) io" where
  "header_stream rd name readTwice hdr bhdr br =
     (if Id bhdr = BackupData then
        Some (Ok (hdr\<lparr>th_Mode := th_Mode hdr OR cISREG\<rparr>, if readTwice then None else Some bhdr), br)
      else if Id bhdr = BackupSecurity then
        io_bind (read_stream rd br) (\<lambda>(sd, err) br.
        case err of
          Some e \<Rightarrow> Some (Err e, br)
        | None \<Rightarrow>
            Some (Ok (hdr\<lparr>th_PAXRecords := (th_PAXRecords hdr)(hdrRawSecurityDescriptor \<mapsto> b64_Encode sd)\<rparr>, None), br))
      else if Id bhdr = BackupReparseData then
        io_bind (read_stream rd br) (\<lambda>(buf, _) br.
        case DecodeReparsePoint buf of
          Ok rp \<Rightarrow> Some (Ok (reparse_header rp hdr, None), br)
        | Err e \<Rightarrow> Some (Err e, br)
        | Panic p \<Rightarrow> Some (Panic p, br))
      else if Id bhdr = BackupEaData then
        io_bind (read_stream rd br) (\<lambda>(eab, err) br.
        case err of
          Some e \<Rightarrow> Some (Err e, br)
        | None \<Rightarrow>
            (case DecodeExtendedAttributes eab of
               Ok eas \<Rightarrow> Some (Ok (ea_header eas hdr, None), br)
             | Err e \<Rightarrow> Some (Err e, br)
             | Panic p \<Rightarrow> Some (Panic p, br)))
      else if Id bhdr \<in> set ignored_streams then Some (Ok (hdr, None), br)
      else Some (Err (file_error name (ErrFmt ''unknown stream ID %d'' [uint (Id bhdr)])), br))"

partial_function (option) scan_header ::
  "'s reader \<Rightarrow> 's seeker option \<Rightarrow> (u16 list \<Rightarrow> gostring) \<Rightarrow> gostring \<Rightarrow> bool \<Rightarrow> tar_Header \<Rightarrow>
     's BackupStreamReader \<Rightarrow> (tar_Header \<times> BackupHeader option, 's BackupStreamReader) io" where
  "scan_header rd seek u16str name readTwice hdr br =
     (case Next rd seek u16str br of
        None \<Rightarrow> None
      | Some (Panic p, br) \<Rightarrow> Some (Panic p, br)
      | Some (Err e, br) \<Rightarrow> Some (if e = EOF then Ok (hdr, None) else Err e, br)
      | Some (Ok bhdr, br) \<Rightarrow>
          io_bind (header_stream rd name readTwice hdr bhdr br) (\<lambda>(hdr, dataHdr) br.
          case dataHdr of
            Some d \<Rightarrow> Some (Ok (hdr, Some d), br)
          | None \<Rightarrow> scan_header rd seek u16str name readTwice hdr br))"

text \<open>The second pass up to the data stream.\<close>

partial_function (option) find_data_stream ::
  "'s reader \<Rightarrow> 's seeker option \<Rightarrow> (u16 list \<Rightarrow> gostring) \<Rightarrow> 's BackupStreamReader \<Rightarrow>
     (BackupHeader option, 's BackupStreamReader) io" where
  "find_data_stream rd seek u16str br =
     (case Next rd seek u16str br of
        None \<Rightarrow> None
      | Some (Panic p, br) \<Rightarrow> Some (Panic p, br)
      | Some (Err e, br) \<Rightarrow> Some (if e = EOF then Ok None else Err e, br)
      | Some (Ok bhdr, br) \<Rightarrow>
          if Id bhdr = BackupData then Some (Ok (Some bhdr), br)
          else find_data_stream rd seek u16str br)"

text \<open>\<^verbatim>\<open>copySparse\<close>: zeros up to each block, then the block, until an empty block.\<close>

partial_function (option) copySparse ::
  "'s reader \<Rightarrow> 's seeker option \<Rightarrow> (u16 list \<Rightarrow> gostring) \<Rightarrow> 't writer \<Rightarrow> int \<Rightarrow>
     's BackupStreamReader \<Rightarrow> 't \<Rightarrow> (unit, 's BackupStreamReader \<times> 't) io" where
  "copySparse rd seek u16str twr curOffset br t =
     (case Next rd seek u16str br of
        None \<Rightarrow> None
      | Some (Panic p, br) \<Rightarrow> Some (Panic p, (br, t))
      | Some (Err e, br) \<Rightarrow> Some (Err (if e = EOF then ErrUnexpectedEOF else e), (br, t))
      | Some (Ok bhdr, br) \<Rightarrow>
          if Id bhdr \<noteq> BackupSparseBlock then Some (Err (ErrFmt ''unexpected stream %d'' [uint (Id bhdr)]), (br, t))
          else if Offset bhdr < curOffset then
            Some (Err (ErrFmt ''cannot seek back from %d to %d'' [curOffset, Offset bhdr]), (br, t))
          else
            (case CopyN_to zero_Read twr (wrap64 (Offset bhdr - curOffset)) () t of
               None \<Rightarrow> None
             | Some (Err e, (_, t)) \<Rightarrow> Some (Err e, (br, t))
             | Some (Panic p, (_, t)) \<Rightarrow> Some (Panic p, (br, t))
             | Some (Ok (Some e), (_, t)) \<Rightarrow> Some (Err (ErrWrap ''seek to offset'' e), (br, t))
             | Some (Ok None, (_, t)) \<Rightarrow>
                 if Size bhdr = 0 then Some (Ok (), (br, t))
                 else
                   io_bind (Copy (BSR_Read rd) twr br t) (\<lambda>(n, err) (br, t).
                   if err \<noteq> None then Some (Err (the err), (br, t))
                   else if n \<noteq> Size bhdr then
                     Some (Err (ErrFmt ''copied %d bytes instead of %d at offset %d'' [n, Size bhdr, Offset bhdr]), (br, t))
                   else copySparse rd seek u16str twr (wrap64 (Offset bhdr + n)) br t)))"

text \<open>The contents of the file, from its data stream.\<close>

definition copy_contents ::
  "'s reader \<Rightarrow> 's seeker option \<Rightarrow> (u16 list \<Rightarrow> gostring) \<Rightarrow> 't writer \<Rightarrow> gostring \<Rightarrow> int \<Rightarrow> BackupHeader option \<Rightarrow>
     's BackupStreamReader \<Rightarrow> 't \<Rightarrow> (unit, 's BackupStreamReader \<times> 't) io" where
  "copy_contents rd seek u16str twr name fsize dataHdr br t =
     (case dataHdr of
        None \<Rightarrow> Some (Ok (), (br, t))
      | Some d \<Rightarrow>
          if Size d > 0 \<or> Attributes d AND StreamSparseAttributes = 0 then
            if fsize \<noteq> Size d then
              Some (Err (file_error name (ErrFmt ''mismatch between file size %d and header size %d'' [fsize, Size d])), (br, t))
            else
              io_bind (Copy (BSR_Read rd) twr br t) (\<lambda>(n, err) st.
              case err of
                Some e \<Rightarrow> Some (Err (file_error name (ErrWrap ''copying contents from data stream'' e)), st)
              | None \<Rightarrow> Some (Ok (), st))
          else if fsize > 0 then
            (case copySparse rd seek u16str twr 0 br t of
               Some (Err e, st) \<Rightarrow> Some (Err (file_error name (ErrWrap ''copying contents from sparse block stream'' e)), st)
             | r \<Rightarrow> r)
          else Some (Ok (), (br, t)))"

definition alternate_header :: "gostring \<Rightarrow> tar_Header \<Rightarrow> BackupHeader \<Rightarrow> tar_Header" where
  "alternate_header name hdr bhdr =
     \<lparr>th_Typeflag = TypeReg, th_Name = name @ TrimSuffix (Name bhdr) (bs_of '':$DATA''), th_Linkname = [],
      th_Size = Size bhdr, th_Mode = th_Mode hdr, th_ModTime = th_ModTime hdr, th_AccessTime = th_AccessTime hdr,
      th_ChangeTime = th_ChangeTime hdr, th_PAXRecords = Map.empty, th_Format = th_Format hdr\<rparr>"

definition skipped_after :: "u32 list" where
  "skipped_after = [BackupEaData, BackupLink, BackupPropertyData, BackupObjectId, BackupTxfsData]"

text \<open>The streams after the data stream: an entry for each alternate data stream.\<close>

partial_function (option) copy_alternates ::
  "'s reader \<Rightarrow> 's seeker option \<Rightarrow> (u16 list \<Rightarrow> gostring) \<Rightarrow> ('t \<Rightarrow> tar_Header \<Rightarrow> go_error option \<times> 't) \<Rightarrow>
     't writer \<Rightarrow> gostring \<Rightarrow> tar_Header \<Rightarrow> 's BackupStreamReader \<Rightarrow> 't \<Rightarrow> (unit, 's BackupStreamReader \<times> 't) io" where
  "copy_alternates rd seek u16str twh twr name hdr br t =
     (case Next rd seek u16str br of
        None \<Rightarrow> None
      | Some (Panic p, br) \<Rightarrow> Some (Panic p, (br, t))
      | Some (Err e, br) \<Rightarrow> Some (if e = EOF then Ok () else Err e, (br, t))
      | Some (Ok bhdr, br) \<Rightarrow>
          if Id bhdr = BackupAlternateData then
            if Attributes bhdr AND StreamSparseAttributes \<noteq> 0 then
              Some (Err (file_error name (ErrNew ''tar of sparse alternate data streams is unsupported'')), (br, t))
            else
              (case twh t (alternate_header name hdr bhdr) of
                 (Some e, t) \<Rightarrow> Some (Err e, (br, t))
               | (None, t) \<Rightarrow>
                   io_bind (Copy (BSR_Read rd) twr br t) (\<lambda>(n, err) (br, t).
                   if err \<noteq> None then Some (Err (the err), (br, t))
                   else copy_alternates rd seek u16str twh twr name (alternate_header name hdr bhdr) br t))
          else if Id bhdr \<in> set skipped_after then copy_alternates rd seek u16str twh twr name hdr br t
          else Some (Err (file_error name (ErrFmt ''unknown stream ID %d after data'' [uint (Id bhdr)])), (br, t)))"

text \<open>The position to return to, when the reader can seek.\<close>

definition restart_position :: "'s seek_fn option \<Rightarrow> 's \<Rightarrow> int option \<times> 's" where
  "restart_position seek r =
     (case seek of
        None \<Rightarrow> (None, r)
      | Some f \<Rightarrow> (case f r 0 True of (p, None, r') \<Rightarrow> (Some p, r') | (_, Some _, r') \<Rightarrow> (None, r')))"

definition on_reader :: "'t \<Rightarrow> ('a, 's) io \<Rightarrow> ('a, 's \<times> 't) io" where
  "on_reader t m = map_option (\<lambda>(x, s). (x, (s, t))) m"

text \<open>Back to the start and on to the data stream, when there are two passes.\<close>

definition second_pass ::
  "'s reader \<Rightarrow> 's seek_fn option \<Rightarrow> (u16 list \<Rightarrow> gostring) \<Rightarrow> int option \<Rightarrow> BackupHeader option \<Rightarrow>
     's BackupStreamReader \<Rightarrow> (BackupHeader option, 's BackupStreamReader) io" where
  "second_pass rd seek u16str restart dataHdr br =
     (case (seek, restart) of
        (Some f, Some p) \<Rightarrow>
          (case f (bsr_r br) p False of
             (_, Some e, r) \<Rightarrow> Some (Err e, br\<lparr>bsr_r := r\<rparr>)
           | (_, None, r) \<Rightarrow>
               (case dataHdr of
                  None \<Rightarrow> find_data_stream rd (rel_seek seek) u16str (br\<lparr>bsr_r := r\<rparr>)
                | Some d \<Rightarrow> Some (Ok (Some d), br\<lparr>bsr_r := r\<rparr>)))
      | _ \<Rightarrow> Some (Ok dataHdr, br))"

definition WriteTarFileFromBackupStream ::
  "'s reader \<Rightarrow> 's seek_fn option \<Rightarrow> (u16 list \<Rightarrow> gostring) \<Rightarrow> ('ft \<Rightarrow> int) \<Rightarrow>
     ('t \<Rightarrow> tar_Header \<Rightarrow> go_error option \<times> 't) \<Rightarrow> 't writer \<Rightarrow>
     't \<Rightarrow> 's \<Rightarrow> gostring \<Rightarrow> int \<Rightarrow> 'ft FileBasicInfo \<Rightarrow> (unit, 's BackupStreamReader \<times> 't) io" where
  "WriteTarFileFromBackupStream rd seek u16str nanos twh twr t r name0 fsize fi =
     (let name = ToSlash name0;
          hdr = BasicInfoHeader nanos name fsize fi;
          (restart, r) = restart_position seek r;
          sk = rel_seek seek
      in io_bind (on_reader t (scan_header rd sk u16str name (restart \<noteq> None) hdr (NewBackupStreamReader r)))
           (\<lambda>(hdr, dataHdr) (br, t).
         case twh t hdr of
           (Some e, t) \<Rightarrow> Some (Err e, (br, t))
         | (None, t) \<Rightarrow>
             io_bind (on_reader t (second_pass rd seek u16str restart dataHdr br)) (\<lambda>dataHdr (br, t).
             io_bind (copy_contents rd sk u16str twr name fsize dataHdr br t) (\<lambda>_ (br, t).
             copy_alternates rd sk u16str twh twr name hdr br t))))"

section \<open>From an archive to a backup stream\<close>

text \<open>A header with a stream of known bytes, as the security descriptor, attributes and reparse point are written.\<close>

definition bhdr_of :: "u32 \<Rightarrow> int \<Rightarrow> gostring \<Rightarrow> BackupHeader" where
  "bhdr_of sid sz name = \<lparr>Id = sid, Attributes = 0, Size = sz, Name = name, Offset = 0\<rparr>"

definition write_stream ::
  "'w writer \<Rightarrow> u32 \<Rightarrow> bytes \<Rightarrow> 'w BackupStreamWriter \<Rightarrow> go_error option \<times> 'w BackupStreamWriter" where
  "write_stream wr sid b bw =
     (case WriteHeader wr bw (bhdr_of sid (int (length b)) []) of
        (Some e, bw) \<Rightarrow> (Some e, bw)
      | (None, bw) \<Rightarrow> (case BSW_Write wr bw b of (_, e, bw) \<Rightarrow> (e, bw)))"

text \<open>A header with the data of the current archive entry.\<close>

definition copy_entry ::
  "'w writer \<Rightarrow> 't reader \<Rightarrow> BackupHeader \<Rightarrow> 't \<Rightarrow> 'w BackupStreamWriter \<Rightarrow> (unit, 't \<times> 'w BackupStreamWriter) io" where
  "copy_entry wr trd bhdr t bw =
     (case WriteHeader wr bw bhdr of
        (Some e, bw) \<Rightarrow> Some (Err e, (t, bw))
      | (None, bw) \<Rightarrow>
          io_bind (Copy trd (BSW_Write wr) t bw) (\<lambda>(n, err) st.
          case err of Some e \<Rightarrow> Some (Err e, st) | None \<Rightarrow> Some (Ok (), st)))"

partial_function (option) restore_alternates ::
  "'w writer \<Rightarrow> 't reader \<Rightarrow> ('t \<Rightarrow> tar_Header res \<times> 't) \<Rightarrow> tar_Header \<Rightarrow> 't \<Rightarrow> 'w BackupStreamWriter \<Rightarrow>
     (tar_Header, 't \<times> 'w BackupStreamWriter) io" where
  "restore_alternates wr trd tnext hdr t bw =
     (case tnext t of
        (Err e, t) \<Rightarrow> Some (Err e, (t, bw))
      | (Panic p, t) \<Rightarrow> Some (Panic p, (t, bw))
      | (Ok ahdr, t) \<Rightarrow>
          if th_Typeflag ahdr \<noteq> TypeReg \<or> \<not> HasPrefix (th_Name ahdr) (th_Name hdr @ [58]) then Some (Ok ahdr, (t, bw))
          else
            io_bind (copy_entry wr trd
                (bhdr_of BackupAlternateData (th_Size ahdr) (drop (length (th_Name hdr)) (th_Name ahdr) @ bs_of '':$DATA'')) t bw)
              (\<lambda>_ (t, bw). restore_alternates wr trd tnext hdr t bw))"

text \<open>A step of the restoration that is skipped when there is nothing to write.\<close>

definition write_if ::
  "'w writer \<Rightarrow> u32 \<Rightarrow> bytes \<Rightarrow> bool \<Rightarrow> 't \<Rightarrow> 'w BackupStreamWriter \<Rightarrow> (unit, 't \<times> 'w BackupStreamWriter) io" where
  "write_if wr sid b c t bw =
     (if c then (case write_stream wr sid b bw of (Some e, bw) \<Rightarrow> Some (Err e, (t, bw)) | (None, bw) \<Rightarrow> Some (Ok (), (t, bw)))
      else Some (Ok (), (t, bw)))"

definition io_ok :: "'a res \<Rightarrow> 's \<Rightarrow> ('a, 's) io" where
  "io_ok r s = Some (r, s)"

definition WriteBackupStreamFromTarFile ::
  "'w writer \<Rightarrow> 't reader \<Rightarrow> ('t \<Rightarrow> tar_Header res \<times> 't) \<Rightarrow> (gostring \<Rightarrow> bytes res) \<Rightarrow> gostring list \<Rightarrow>
     'w \<Rightarrow> 't \<Rightarrow> tar_Header \<Rightarrow> (tar_Header, 't \<times> 'w BackupStreamWriter) io" where
  "WriteBackupStreamFromTarFile wr trd tnext from_string keys w t hdr =
     io_bind (io_ok (SecurityDescriptorFromTarHeader from_string hdr) (t, NewBackupStreamWriter w)) (\<lambda>sd (t, bw).
     io_bind (write_if wr BackupSecurity sd (sd \<noteq> []) t bw) (\<lambda>_ (t, bw).
     io_bind (io_ok (ExtendedAttributesFromTarHeader keys hdr) (t, bw)) (\<lambda>eadata (t, bw).
     io_bind (write_if wr BackupEaData eadata (eadata \<noteq> []) t bw) (\<lambda>_ (t, bw).
     io_bind (write_if wr BackupReparseData (EncodeReparsePointFromTarHeader hdr) (th_Typeflag hdr = TypeSymlink) t bw)
       (\<lambda>_ (t, bw).
     io_bind
       (if th_Typeflag hdr = TypeReg then copy_entry wr trd (bhdr_of BackupData (th_Size hdr) []) t bw
        else Some (Ok (), (t, bw))) (\<lambda>_ (t, bw).
     restore_alternates wr trd tnext hdr t bw))))))"

end
