(* ===== verification/Backuptar_Archive.thy ===== *)
theory Backuptar_Archive
  imports Backuptar
begin

text \<open>
  Archiving a backup stream: what \<^verbatim>\<open>WriteTarFileFromBackupStream\<close> writes for a sequence of
  well-formed streams, over any well-behaved reader, seekable or not. The effect of each stream on
  the header is \<open>meta\<close>; the contents are those of the data stream or of the sparse blocks.
\<close>

section \<open>Where a stream reader stands\<close>

text \<open>
  The reader has \<open>old\<close> of the current stream to deliver, after which \<open>rest\<close> follows and the
  input ends.
\<close>

definition stands ::
  "('s \<Rightarrow> bool) \<Rightarrow> ('s \<Rightarrow> bytes) \<Rightarrow> ('s \<Rightarrow> go_error) \<Rightarrow> 's BackupStreamReader \<Rightarrow> bytes \<Rightarrow> bytes \<Rightarrow> bool" where
  "stands ok content fin br old rest \<longleftrightarrow>
     ok (bsr_r br) \<and> fin (bsr_r br) = EOF \<and> content (bsr_r br) = old @ rest \<and> int (length old) = bsr_bytesLeft br"

lemma standsD:
  assumes "stands ok content fin br old rest"
  shows "ok (bsr_r br)" "fin (bsr_r br) = EOF" "content (bsr_r br) = old @ rest"
    "int (length old) = bsr_bytesLeft br" "0 \<le> bsr_bytesLeft br"
  using assms by (auto simp: stands_def)

lemma stream_image_simps [simp]:
  "stream_image [] = []" "stream_image ((h, d) # ss) = concat (header_parts h) @ d @ stream_image ss"
  "stream_image (ss @ tt) = stream_image ss @ stream_image tt"
  by (simp_all add: stream_image_def)

context clean_reader
begin

lemma Next_stands:
  assumes "stands inv content fin br old (stream_image ((h, d) # ss))" and "stream_ok (h, d)"
    and "pred_option (good_seeker inv content fin) seek" and "utf16_law u16str"
  obtains br' where "stands inv content fin br' d (stream_image ss)" "Next rd seek u16str br = Some (Ok h, br')"
proof -
  note st = standsD [OF assms(1)]
  have ok: "header_ok h" "Size h = int (length d)" using assms(2) by (simp_all add: stream_ok_def)
  have c: "content (bsr_r br) = old @ concat (header_parts h) @ d @ stream_image ss" using st(3) by simp
  obtain r' where "inv r'" "fin r' = fin (bsr_r br)" "content r' = d @ stream_image ss"
    "Next rd seek u16str br = Some (Ok h, \<lparr>bsr_r = r', bsr_bytesLeft = Size h\<rparr>)"
    by (rule Next_correct [OF st(1) st(5) c st(4) assms(3) ok(1) assms(4)])
  then show thesis using ok(2) st(2) by (intro that [of "\<lparr>bsr_r = r', bsr_bytesLeft = Size h\<rparr>"]) (auto simp: stands_def)
qed

lemma Next_stands_end:
  assumes "stands inv content fin br old []" and "pred_option (good_seeker inv content fin) seek"
  obtains br' where "stands inv content fin br' [] []" "Next rd seek u16str br = Some (Err EOF, br')"
proof -
  note st = standsD [OF assms(1)]
  obtain r0 where r0: "inv r0" "fin r0 = fin (bsr_r br)" "content r0 = []"
    "skip_rest rd seek br = Some (Ok (), \<lparr>bsr_r = r0, bsr_bytesLeft = 0\<rparr>)"
    by (rule skip_rest_correct [OF st(1) st(5) st(3) st(4) assms(2)])
  have "length (content r0) < 20" using r0(3) by simp
  then obtain r1 where r1: "inv r1" "fin r1 = fin r0" "content r1 = []"
    "binary_Read rd wsi_dec 20 r0 = Some (Err (if content r0 \<noteq> [] \<and> fin r0 = EOF then ErrUnexpectedEOF else fin r0), r1)"
    by (rule binary_Read_short [OF r0(1)])
  have "Next rd seek u16str br = Some (Err EOF, \<lparr>bsr_r = r1, bsr_bytesLeft = 0\<rparr>)"
    using r0 r1(4) st(2) by (simp add: Next_def on_r_def)
  then show thesis using r0(2) r1 st(2) by (intro that) (auto simp: stands_def)
qed

lemma read_stream_stands:
  assumes "stands inv content fin br d rest"
  obtains br' where "stands inv content fin br' [] rest" "read_stream rd br = Some (Ok (d, None), br')"
proof -
  note st = standsD [OF assms]
  have "(0 :: nat) < 512" by simp
  then obtain r' where r': "inv r'" "fin r' = fin (bsr_r br)"
    "content r' = drop (nat (bsr_bytesLeft br)) (content (bsr_r br))"
    "io_copy (BSR_Read rd) 512 br [] =
       Some (Ok ([] @ take (nat (bsr_bytesLeft br)) (content (bsr_r br)),
         (if bsr_bytesLeft br \<le> int (length (content (bsr_r br))) then None else Some (stream_fin content fin br)),
         \<lparr>bsr_r = r', bsr_bytesLeft = max 0 (bsr_bytesLeft br - int (length (content (bsr_r br))))\<rparr>))"
    by (rule io_copy_stream [OF st(1) st(5)])
  have n: "nat (bsr_bytesLeft br) = length d" "bsr_bytesLeft br = int (length d)" using st(4) by auto
  show thesis
    using r' st(2) unfolding st(3) n
    by (intro that [of "\<lparr>bsr_r = r', bsr_bytesLeft = 0\<rparr>"]) (auto simp: stands_def read_stream_def ReadAll_def)
qed

text \<open>Copying the stream to a writer with room for it.\<close>

lemma Copy_stands:
  assumes "stands inv content fin br d rest" and "io_writer wr room put" and "int (length d) \<le> room w"
  obtains br' where "stands inv content fin br' [] rest"
    "Copy (BSR_Read rd) wr br w = Some (Ok (int (length d), None), (br', put w d))"
proof -
  note st = standsD [OF assms(1)]
  let ?D = "bsr_bytesLeft br - int (length (content (bsr_r br)))"
  have i: "stream_inv inv content fin rest ?D EOF br"
    using st by (auto simp: stream_inv_def)
  have c: "stream_content content br = d" "stream_fin content fin br = EOF"
    using st by (auto simp: stream_content_def stream_fin_def)
  have cp: "io_copying (BSR_Read rd) (stream_inv inv content fin rest ?D EOF) (stream_content content)
      (stream_fin content fin) (\<lambda>st. rank (bsr_r st)) wr room put"
    by (intro io_copying.intro BSR_Read_reader assms(2))
  obtain br' where "stream_inv inv content fin rest ?D EOF br'" "stream_content content br' = []"
    "Copy (BSR_Read rd) wr br w = Some (Ok (int (length d), None), (br', put w d))"
    by (rule io_copying.Copy_correct [OF cp i, of w]) (use c assms(3) in auto)
  then show thesis
    using st by (intro that [of br']) (auto simp: stands_def stream_inv_def stream_content_def)
qed

end

section \<open>What the streams mean\<close>

text \<open>The effect of one stream on the header of the file; a stream that is refused has none.\<close>

definition meta :: "BackupHeader \<times> bytes \<Rightarrow> tar_Header \<Rightarrow> tar_Header option" where
  "meta s hdr =
     (if Id (fst s) = BackupData then Some (hdr\<lparr>th_Mode := th_Mode hdr OR cISREG\<rparr>)
      else if Id (fst s) = BackupSecurity then
        Some (hdr\<lparr>th_PAXRecords := (th_PAXRecords hdr)(hdrRawSecurityDescriptor \<mapsto> b64_Encode (snd s))\<rparr>)
      else if Id (fst s) = BackupReparseData then
        (case DecodeReparsePoint (snd s) of Ok rp \<Rightarrow> Some (reparse_header rp hdr) | _ \<Rightarrow> None)
      else if Id (fst s) = BackupEaData then
        (case DecodeExtendedAttributes (snd s) of Ok eas \<Rightarrow> Some (ea_header eas hdr) | _ \<Rightarrow> None)
      else if Id (fst s) \<in> set ignored_streams then Some hdr
      else None)"

fun metas :: "(BackupHeader \<times> bytes) list \<Rightarrow> tar_Header \<Rightarrow> tar_Header option" where
  "metas [] hdr = Some hdr"
| "metas (s # ss) hdr = (case meta s hdr of None \<Rightarrow> None | Some hdr' \<Rightarrow> metas ss hdr')"

definition is_data :: "BackupHeader \<times> bytes \<Rightarrow> bool" where
  "is_data s \<longleftrightarrow> Id (fst s) = BackupData"

lemma metas_append: "metas (ss @ tt) hdr = Option.bind (metas ss hdr) (metas tt)"
  by (induction ss arbitrary: hdr) (auto split: option.split)

context clean_reader
begin

lemma header_stream_stands:
  assumes "stands inv content fin br d rest" and "meta (h, d) hdr = Some hdr'"
  obtains br' old where "stands inv content fin br' old rest"
    "is_data (h, d) \<longrightarrow> old = d"
    "header_stream rd name tw hdr h br = Some (Ok (hdr', if is_data (h, d) \<and> \<not> tw then Some h else None), br')"
proof -
  obtain br1 where br1: "stands inv content fin br1 [] rest" "read_stream rd br = Some (Ok (d, None), br1)"
    by (rule read_stream_stands [OF assms(1)])
  show thesis
  proof (cases "Id h = BackupSecurity \<or> Id h = BackupReparseData \<or> Id h = BackupEaData")
    case True
    then have nd: "Id h \<noteq> BackupData"
      by (auto simp: BackupSecurity_def BackupReparseData_def BackupEaData_def BackupData_def)
    show thesis
      using that [OF br1(1)] True nd assms(2) br1(2)
      by (auto simp: header_stream_def meta_def is_data_def split: res.splits if_splits)
  next
    case False
    then show thesis
      using that [OF assms(1)] assms(2)
      by (auto simp: header_stream_def meta_def is_data_def split: if_splits)
  qed
qed

lemma scan_header_step:
  assumes "stands inv content fin br old (stream_image (s # ss))" and "stream_ok s" and "meta s hdr = Some hdr'"
    and "pred_option (good_seeker inv content fin) seek" and "utf16_law u16str"
  obtains br' old' where "stands inv content fin br' old' (stream_image ss)" "is_data s \<longrightarrow> old' = snd s"
    "scan_header rd seek u16str name tw hdr br =
       (if is_data s \<and> \<not> tw then Some (Ok (hdr', Some (fst s)), br')
        else scan_header rd seek u16str name tw hdr' br')"
proof -
  obtain h d where s: "s = (h, d)" by (cases s)
  obtain br1 where br1: "stands inv content fin br1 d (stream_image ss)" "Next rd seek u16str br = Some (Ok h, br1)"
    using Next_stands [OF assms(1,2,4,5) [unfolded s]] by blast
  obtain br2 old2 where br2: "stands inv content fin br2 old2 (stream_image ss)" "is_data (h, d) \<longrightarrow> old2 = d"
    "header_stream rd name tw hdr h br1 = Some (Ok (hdr', if is_data (h, d) \<and> \<not> tw then Some h else None), br2)"
    by (rule header_stream_stands [OF br1(1) assms(3) [unfolded s], where name = name and tw = tw])
  show thesis
    by (rule that [of br2 old2]) (use br1(2) br2 s in \<open>auto simp: scan_header.simps [of _ _ _ _ _ _ br]\<close>)
qed

text \<open>The first pass of two reads every stream.\<close>

lemma scan_header_all:
  assumes "stands inv content fin br old (stream_image ss)" and "list_all stream_ok ss" and "metas ss hdr = Some hdr'"
    and "pred_option (good_seeker inv content fin) seek" and "utf16_law u16str" and "tw \<or> list_all (\<lambda>s. \<not> is_data s) ss"
  shows "\<exists>br'. stands inv content fin br' [] [] \<and>
    scan_header rd seek u16str name tw hdr br = Some (Ok (hdr', None), br')"
  using assms(1,2,3,6)
proof (induction ss arbitrary: br old hdr)
  case Nil
  have "stands inv content fin br old []" using Nil.prems(1) by simp
  then obtain br' where "stands inv content fin br' [] []" "Next rd seek u16str br = Some (Err EOF, br')"
    by (rule Next_stands_end [OF _ assms(4)])
  then show ?case using Nil.prems(3) by (subst scan_header.simps) auto
next
  case (Cons s ss)
  then obtain hdr1 where m: "meta s hdr = Some hdr1" "metas ss hdr1 = Some hdr'" by (auto split: option.splits)
  have ok: "stream_ok s" "list_all stream_ok ss" using Cons.prems(2) by simp_all
  obtain br1 old1 where *: "stands inv content fin br1 old1 (stream_image ss)"
    "scan_header rd seek u16str name tw hdr br =
       (if is_data s \<and> \<not> tw then Some (Ok (hdr1, Some (fst s)), br1) else scan_header rd seek u16str name tw hdr1 br1)"
    by (rule scan_header_step [OF Cons.prems(1) ok(1) m(1) assms(4,5), where name = name and tw = tw])
  have "tw \<or> list_all (\<lambda>s. \<not> is_data s) ss" "\<not> (is_data s \<and> \<not> tw)" using Cons.prems(4) by auto
  then show ?case using Cons.IH [OF *(1) ok(2) m(2)] *(2) by simp
qed

text \<open>A single pass stops at the data stream.\<close>

lemma scan_header_data:
  assumes "stands inv content fin br old (stream_image (pre @ (h, d) # post))"
    and "list_all stream_ok (pre @ [(h, d)])" and "metas (pre @ [(h, d)]) hdr = Some hdr'"
    and "list_all (\<lambda>s. \<not> is_data s) pre" and "Id h = BackupData"
    and "pred_option (good_seeker inv content fin) seek" and "utf16_law u16str"
  shows "\<exists>br'. stands inv content fin br' d (stream_image post) \<and>
    scan_header rd seek u16str name False hdr br = Some (Ok (hdr', Some h), br')"
  using assms(1,2,3,4)
proof (induction pre arbitrary: br old hdr)
  case Nil
  then have m: "meta (h, d) hdr = Some hdr'" and ok: "stream_ok (h, d)" by (auto split: option.splits)
  have c: "stands inv content fin br old (stream_image ((h, d) # post))" using Nil.prems(1) by simp
  obtain br1 old1 where "stands inv content fin br1 old1 (stream_image post)" "is_data (h, d) \<longrightarrow> old1 = snd (h, d)"
    "scan_header rd seek u16str name False hdr br =
       (if is_data (h, d) \<and> \<not> False then Some (Ok (hdr', Some (fst (h, d))), br1)
        else scan_header rd seek u16str name False hdr' br1)"
    by (rule scan_header_step [OF c ok m assms(6,7), where name = name and tw = False])
  then show ?case using assms(5) by (auto simp: is_data_def)
next
  case (Cons s pre)
  then obtain hdr1 where m: "meta s hdr = Some hdr1" "metas (pre @ [(h, d)]) hdr1 = Some hdr'"
    by (auto split: option.splits)
  have ok: "stream_ok s" "list_all stream_ok (pre @ [(h, d)])" and nd: "\<not> is_data s" "list_all (\<lambda>s. \<not> is_data s) pre"
    using Cons.prems(2,4) by simp_all
  have c: "stands inv content fin br old (stream_image (s # pre @ (h, d) # post))" using Cons.prems(1) by simp
  obtain br1 old1 where *: "stands inv content fin br1 old1 (stream_image (pre @ (h, d) # post))"
    "scan_header rd seek u16str name False hdr br =
       (if is_data s \<and> \<not> False then Some (Ok (hdr1, Some (fst s)), br1) else scan_header rd seek u16str name False hdr1 br1)"
    by (rule scan_header_step [OF c ok(1) m(1) assms(6,7), where name = name and tw = False])
  then show ?case using Cons.IH [OF *(1) ok(2) m(2) nd(2)] nd(1) by simp
qed

lemma find_data_stands:
  assumes "stands inv content fin br old (stream_image (pre @ (h, d) # post))"
    and "list_all stream_ok (pre @ [(h, d)])" and "list_all (\<lambda>s. \<not> is_data s) pre" and "Id h = BackupData"
    and "pred_option (good_seeker inv content fin) seek" and "utf16_law u16str"
  shows "\<exists>br'. stands inv content fin br' d (stream_image post) \<and>
    find_data_stream rd seek u16str br = Some (Ok (Some h), br')"
  using assms(1,2,3)
proof (induction pre arbitrary: br old)
  case Nil
  have c: "stands inv content fin br old (stream_image ((h, d) # post))" and ok: "stream_ok (h, d)"
    using Nil.prems by simp_all
  obtain br1 where "stands inv content fin br1 d (stream_image post)" "Next rd seek u16str br = Some (Ok h, br1)"
    by (rule Next_stands [OF c ok assms(5,6)])
  then show ?case using assms(4) by (subst find_data_stream.simps) auto
next
  case (Cons s pre)
  obtain h1 d1 where s: "s = (h1, d1)" by (cases s)
  have c: "stands inv content fin br old (stream_image ((h1, d1) # pre @ (h, d) # post))"
    and ok: "stream_ok (h1, d1)" "list_all stream_ok (pre @ [(h, d)])" and nd: "\<not> is_data (h1, d1)" "list_all (\<lambda>s. \<not> is_data s) pre"
    using Cons.prems s by simp_all
  obtain br1 where "stands inv content fin br1 d1 (stream_image (pre @ (h, d) # post))" "Next rd seek u16str br = Some (Ok h1, br1)"
    by (rule Next_stands [OF c ok(1) assms(5,6)])
  then show ?case
    using Cons.IH [OF _ ok(2) nd(2), of br1 d1] nd(1) by (subst find_data_stream.simps) (auto simp: is_data_def)
qed

lemma find_data_none:
  assumes "stands inv content fin br old (stream_image ss)" and "list_all stream_ok ss" and "list_all (\<lambda>s. \<not> is_data s) ss"
    and "pred_option (good_seeker inv content fin) seek" and "utf16_law u16str"
  shows "\<exists>br'. stands inv content fin br' [] [] \<and> find_data_stream rd seek u16str br = Some (Ok None, br')"
  using assms(1,2,3)
proof (induction ss arbitrary: br old)
  case Nil
  have "stands inv content fin br old []" using Nil.prems(1) by simp
  then obtain br' where "stands inv content fin br' [] []" "Next rd seek u16str br = Some (Err EOF, br')"
    by (rule Next_stands_end [OF _ assms(4)])
  then show ?case by (subst find_data_stream.simps) auto
next
  case (Cons s ss)
  obtain h1 d1 where s: "s = (h1, d1)" by (cases s)
  have c: "stands inv content fin br old (stream_image ((h1, d1) # ss))"
    and ok: "stream_ok (h1, d1)" "list_all stream_ok ss" and nd: "\<not> is_data (h1, d1)" "list_all (\<lambda>s. \<not> is_data s) ss"
    using Cons.prems s by simp_all
  obtain br1 where "stands inv content fin br1 d1 (stream_image ss)" "Next rd seek u16str br = Some (Ok h1, br1)"
    by (rule Next_stands [OF c ok(1) assms(4,5)])
  then show ?case
    using Cons.IH [OF _ ok(2) nd(2), of br1 d1] nd(1) by (subst find_data_stream.simps) (auto simp: is_data_def)
qed

end

section \<open>Copying the contents\<close>

text \<open>The bytes of a sparse file, from its blocks and its size.\<close>

fun sparse_file :: "int \<Rightarrow> (int \<times> bytes) list \<Rightarrow> int \<Rightarrow> bytes" where
  "sparse_file cur [] fsz = replicate (nat (fsz - cur)) 0"
| "sparse_file cur ((off, b) # bs) fsz =
     replicate (nat (off - cur)) 0 @ b @ sparse_file (off + int (length b)) bs fsz"

fun sparse_ok :: "int \<Rightarrow> (int \<times> bytes) list \<Rightarrow> int \<Rightarrow> bool" where
  "sparse_ok cur [] fsz \<longleftrightarrow> cur \<le> fsz"
| "sparse_ok cur ((off, b) # bs) fsz \<longleftrightarrow> cur \<le> off \<and> b \<noteq> [] \<and> sparse_ok (off + int (length b)) bs fsz"

definition sparse_header :: "int \<Rightarrow> nat \<Rightarrow> BackupHeader" where
  "sparse_header off n =
     \<lparr>Id = BackupSparseBlock, Attributes = StreamSparseAttributes, Size = int n, Name = [], Offset = off\<rparr>"

definition sparse_streams :: "(int \<times> bytes) list \<Rightarrow> int \<Rightarrow> (BackupHeader \<times> bytes) list" where
  "sparse_streams bs fsz =
     map (\<lambda>(off, b). (sparse_header off (length b), b)) bs @ [(sparse_header fsz 0, [])]"

lemma sparse_ok_bounds:
  "sparse_ok cur bs fsz \<Longrightarrow> cur \<le> fsz \<and> (\<forall>(off, b) \<in> set bs. cur \<le> off \<and> off + int (length b) \<le> fsz)"
  by (induction cur bs fsz rule: sparse_ok.induct) force+

lemma length_sparse_file: "sparse_ok cur bs fsz \<Longrightarrow> int (length (sparse_file cur bs fsz)) = fsz - cur"
  by (induction cur bs fsz rule: sparse_ok.induct) auto

lemma sparse_header_ok: "0 \<le> off \<Longrightarrow> off < 2 ^ 63 \<Longrightarrow> n < 2 ^ 63 \<Longrightarrow> header_ok (sparse_header off n)"
  by (simp add: header_ok_def sparse_header_def int64_ok_def utf8_valid_def string_of_runes_def)

context clean_reader
begin

lemma copy_contents_plain:
  assumes "stands inv content fin br d rest" and "Size h = int (length d)" and "io_writer wr room put"
    and "int (length d) \<le> room t" and "Size h > 0 \<or> Attributes h AND StreamSparseAttributes = 0"
  shows "\<exists>br'. stands inv content fin br' [] rest \<and>
    copy_contents rd seek u16str wr name (int (length d)) (Some h) br t = Some (Ok (), (br', put t d))"
proof -
  obtain br' where "stands inv content fin br' [] rest"
    "Copy (BSR_Read rd) wr br t = Some (Ok (int (length d), None), (br', put t d))"
    by (rule Copy_stands [OF assms(1,3,4)])
  then show ?thesis using assms(2,5) unfolding copy_contents_def by (auto intro!: exI [of _ br'])
qed

lemma copySparse_correct:
  assumes "stands inv content fin br old (stream_image (sparse_streams bs fsz @ post))"
    and "sparse_ok cur bs fsz" and "0 \<le> cur" and "fsz < 2 ^ 63"
    and "pred_option (good_seeker inv content fin) seek" and "utf16_law u16str"
    and w: "io_writer wr room put" and "fsz - cur \<le> room t"
  shows "\<exists>br'. stands inv content fin br' [] (stream_image post) \<and>
    copySparse rd seek u16str wr cur br t = Some (Ok (), (br', put t (sparse_file cur bs fsz)))"
  using assms(1,2,3,8)
proof (induction bs arbitrary: br old cur t)
  case Nil
  have le: "cur \<le> fsz" "0 \<le> fsz" using Nil.prems by simp_all
  then have ok: "stream_ok (sparse_header fsz 0, [])"
    using sparse_header_ok [of fsz 0] assms(4) by (simp add: stream_ok_def) (simp add: sparse_header_def)
  have c: "stands inv content fin br old (stream_image ((sparse_header fsz 0, []) # post))"
    using Nil.prems(1) by (simp add: sparse_streams_def)
  obtain br' where n: "stands inv content fin br' [] (stream_image post)"
    "Next rd seek u16str br = Some (Ok (sparse_header fsz 0), br')"
    by (rule Next_stands [OF c ok assms(5,6)])
  have wrap: "wrap64 (fsz - cur) = fsz - cur" using le assms(4) Nil.prems(3) by simp
  have "CopyN_to zero_Read wr (fsz - cur) () t = Some (Ok None, ((), put t (replicate (nat (fsz - cur)) 0)))"
    using io_writer.CopyN_zeros [OF w, of "fsz - cur" t] le Nil.prems(4) by simp
  then show ?case using n le wrap
    by (subst copySparse.simps) (auto simp: sparse_header_def)
next
  case (Cons x bs)
  obtain off b where x: "x = (off, b)" by (cases x)
  let ?h = "sparse_header off (length b)"
  have so: "cur \<le> off" "b \<noteq> []" "sparse_ok (off + int (length b)) bs fsz" using Cons.prems(2) x by simp_all
  note bnd = sparse_ok_bounds [OF so(3)]
  have off: "0 \<le> off" "off + int (length b) < 2 ^ 63" using so(1) Cons.prems(3) bnd assms(4) by auto
  then have ok: "stream_ok (?h, b)"
    using sparse_header_ok [of off "length b"] by (simp add: stream_ok_def) (simp add: sparse_header_def)
  have c: "stands inv content fin br old (stream_image ((?h, b) # sparse_streams bs fsz @ post))"
    using Cons.prems(1) x by (simp add: sparse_streams_def)
  obtain br1 where n: "stands inv content fin br1 b (stream_image (sparse_streams bs fsz @ post))"
    "Next rd seek u16str br = Some (Ok ?h, br1)"
    by (rule Next_stands [OF c ok assms(5,6)])
  let ?z = "replicate (nat (off - cur)) (0 :: byte)"
  have rz: "int (length ?z) \<le> room t" and rt: "off - cur \<le> room t" using so(1) bnd Cons.prems(4) by auto
  have wraps: "wrap64 (off - cur) = off - cur" "wrap64 (off + int (length b)) = off + int (length b)"
    using so(1) Cons.prems(3) off by simp_all
  have z: "CopyN_to zero_Read wr (off - cur) () t = Some (Ok None, ((), put t ?z))"
    using io_writer.CopyN_zeros [OF w _ rt] so(1) by simp
  have r1: "room (put t ?z) = room t - (off - cur)" using io_writer.room_put [OF w rz] so(1) by simp
  then have rb: "int (length b) \<le> room (put t ?z)" using bnd Cons.prems(4) by simp
  obtain br2 where b2: "stands inv content fin br2 [] (stream_image (sparse_streams bs fsz @ post))"
    "Copy (BSR_Read rd) wr br1 (put t ?z) = Some (Ok (int (length b), None), (br2, put (put t ?z) b))"
    by (rule Copy_stands [OF n(1) w rb])
  have "fsz - (off + int (length b)) \<le> room (put (put t ?z) b)"
    using io_writer.room_put [OF w rb] r1 Cons.prems(4) by simp
  from Cons.IH [OF b2(1) so(3) _ this] off obtain br' where
    "stands inv content fin br' [] (stream_image post)"
    "copySparse rd seek u16str wr (off + int (length b)) br2 (put (put t ?z) b) =
       Some (Ok (), (br', put t (?z @ b @ sparse_file (off + int (length b)) bs fsz)))"
    by (auto simp: io_writer.put_put [OF w])
  then show ?case using n(2) so(1,2) z wraps b2(2) x
    by (subst copySparse.simps) (auto simp: sparse_header_def)
qed

lemma copy_contents_sparse:
  assumes "stands inv content fin br [] (stream_image (sparse_streams bs fsz @ post))"
    and "sparse_ok 0 bs fsz" and "0 < fsz" and "fsz < 2 ^ 63"
    and "pred_option (good_seeker inv content fin) seek" and "utf16_law u16str"
    and "io_writer wr room put" and "fsz \<le> room t"
    and "Size h = 0" and "Attributes h AND StreamSparseAttributes \<noteq> 0"
  shows "\<exists>br'. stands inv content fin br' [] (stream_image post) \<and>
    copy_contents rd seek u16str wr name fsz (Some h) br t = Some (Ok (), (br', put t (sparse_file 0 bs fsz)))"
proof -
  have "fsz - 0 \<le> room t" using assms(8) by simp
  from copySparse_correct [OF assms(1,2) order_refl assms(4,5,6,7) this] obtain br' where
    "stands inv content fin br' [] (stream_image post)"
    "copySparse rd seek u16str wr 0 br t = Some (Ok (), (br', put t (sparse_file 0 bs fsz)))" by blast
  then show ?thesis using assms(3,9,10) unfolding copy_contents_def by (auto intro!: exI [of _ br'])
qed

end

section \<open>Alternate data streams\<close>

definition after_ok :: "BackupHeader \<times> bytes \<Rightarrow> bool" where
  "after_ok s \<longleftrightarrow>
     (Id (fst s) = BackupAlternateData \<and> Attributes (fst s) AND StreamSparseAttributes = 0) \<or>
     Id (fst s) \<in> set skipped_after"

fun alternates :: "gostring \<Rightarrow> tar_Header \<Rightarrow> (BackupHeader \<times> bytes) list \<Rightarrow> (tar_Header \<times> bytes) list" where
  "alternates name hdr [] = []"
| "alternates name hdr ((h, d) # ss) =
     (if Id h = BackupAlternateData
      then (alternate_header name hdr h, d) # alternates name (alternate_header name hdr h) ss
      else alternates name hdr ss)"

lemma alt_not_skipped: "BackupAlternateData \<notin> set skipped_after"
  by (simp add: skipped_after_def BackupAlternateData_def BackupEaData_def BackupLink_def BackupPropertyData_def
      BackupObjectId_def BackupTxfsData_def)

context clean_reader
begin

lemma copy_alternates_correct:
  assumes "stands inv content fin br old (stream_image post)" and "list_all stream_ok post" and "list_all after_ok post"
    and "pred_option (good_seeker inv content fin) seek" and "utf16_law u16str"
    and "list_all (\<lambda>e. allowed (fst e) = None) (alternates name hdr post)" and "tw_left t = 0"
  shows "\<exists>br'. stands inv content fin br' [] [] \<and>
    copy_alternates rd seek u16str (tw_WriteHeader allowed) tw_Write name hdr br t =
      Some (Ok (), (br', \<lparr>tw_entries = tw_entries t @ alternates name hdr post, tw_left = 0\<rparr>))"
  using assms(1,2,3,6,7)
proof (induction post arbitrary: br old hdr t)
  case Nil
  have "stands inv content fin br old []" using Nil.prems(1) by simp
  then obtain br' where "stands inv content fin br' [] []" "Next rd seek u16str br = Some (Err EOF, br')"
    by (rule Next_stands_end [OF _ assms(4)])
  then show ?case using Nil.prems(5) by (subst copy_alternates.simps) (auto intro!: exI [of _ br'])
next
  case (Cons s post)
  obtain h d where s: "s = (h, d)" by (cases s)
  have ok: "stream_ok (h, d)" "list_all stream_ok post" and af: "after_ok (h, d)" "list_all after_ok post"
    and c: "stands inv content fin br old (stream_image ((h, d) # post))"
    using Cons.prems s by simp_all
  obtain br1 where n: "stands inv content fin br1 d (stream_image post)" "Next rd seek u16str br = Some (Ok h, br1)"
    by (rule Next_stands [OF c ok(1) assms(4,5)])
  show ?case
  proof (cases "Id h = BackupAlternateData")
    case False
    then have "Id h \<in> set skipped_after" using af(1) by (simp add: after_ok_def)
    moreover have "list_all (\<lambda>e. allowed (fst e) = None) (alternates name hdr post)"
      using Cons.prems(4) s False by simp
    ultimately show ?thesis
      using Cons.IH [OF n(1) ok(2) af(2) _ Cons.prems(5), of hdr] n(2) False s
      by (subst copy_alternates.simps) simp
  next
    case True
    let ?a = "alternate_header name hdr h"
    let ?t1 = "\<lparr>tw_entries = tw_entries t @ [(?a, [])], tw_left = int (length d)\<rparr>"
    have at: "Attributes h AND StreamSparseAttributes = 0"
      using af(1) True alt_not_skipped by (auto simp: after_ok_def)
    have al: "allowed ?a = None" "list_all (\<lambda>e. allowed (fst e) = None) (alternates name ?a post)"
      using Cons.prems(4) s True by simp_all
    have sz: "Size h = int (length d)" using ok(1) by (simp add: stream_ok_def)
    have wh: "tw_WriteHeader allowed t ?a = (None, ?t1)"
      using al(1) Cons.prems(5) sz by (simp add: tw_WriteHeader_def alternate_header_def isHeaderOnlyType_def TypeReg_def)
    have "int (length d) \<le> tw_left ?t1" by simp
    then obtain br2 where b2: "stands inv content fin br2 [] (stream_image post)"
      "Copy (BSR_Read rd) tw_Write br1 ?t1 = Some (Ok (int (length d), None), (br2, tw_put ?t1 d))"
      by (rule Copy_stands [OF n(1) tw.io_writer_axioms])
    let ?t2 = "\<lparr>tw_entries = tw_entries t @ [(?a, d)], tw_left = 0\<rparr>"
    have t2: "tw_put ?t1 d = ?t2" by simp
    have "tw_left ?t2 = 0" by simp
    from Cons.IH [OF b2(1) ok(2) af(2) al(2) this] obtain br' where
      "stands inv content fin br' [] []"
      "copy_alternates rd seek u16str (tw_WriteHeader allowed) tw_Write name ?a br2 ?t2 =
        Some (Ok (), (br', \<lparr>tw_entries = tw_entries t @ (?a, d) # alternates name ?a post, tw_left = 0\<rparr>))"
      by auto
    then show ?thesis using n(2) True at wh b2(2) t2 s by (subst copy_alternates.simps) simp
  qed
qed

end

section \<open>The whole file\<close>

text \<open>
  The contract of \<^verbatim>\<open>Seek\<close>: relative seeks skip bytes, and going to a position that was
  reported returns to it.
\<close>

definition good_seek :: "('s \<Rightarrow> bool) \<Rightarrow> ('s \<Rightarrow> bytes) \<Rightarrow> ('s \<Rightarrow> go_error) \<Rightarrow> 's seek_fn \<Rightarrow> bool" where
  "good_seek ok content fin f \<longleftrightarrow>
     (\<forall>s k. ok s \<and> 0 \<le> k \<and> k \<le> int (length (content s)) \<longrightarrow>
       (\<exists>p s'. f s k True = (p, None, s') \<and> ok s' \<and> fin s' = fin s \<and> content s' = drop (nat k) (content s))) \<and>
     (\<forall>s p s1 s2. ok s \<and> f s 0 True = (p, None, s1) \<and> ok s2 \<longrightarrow>
       (\<exists>q s'. f s2 p False = (q, None, s') \<and> ok s' \<and> fin s' = fin s \<and> content s' = content s))"

lemma good_seek_rel:
  assumes "pred_option (good_seek ok content fin) seek"
  shows "pred_option (good_seeker ok content fin) (rel_seek seek)"
proof (cases seek)
  case (Some f)
  then have f: "\<exists>p s'. f s k True = (p, None, s') \<and> ok s' \<and> fin s' = fin s \<and> content s' = drop (nat k) (content s)"
    if "ok s" "0 \<le> k" "k \<le> int (length (content s))" for s k
    using assms that unfolding good_seek_def by simp
  show ?thesis
    unfolding Some rel_seek_def option.map option.pred_inject good_seeker_def
    by (intro allI impI) (elim conjE, drule (2) f, auto)
qed (simp add: rel_seek_def)

text \<open>The streams whose metadata reaches the archive: all of them, or those up to the data.\<close>

definition seen :: "'s seek_fn option \<Rightarrow> 'a list \<Rightarrow> 'a \<Rightarrow> 'a list \<Rightarrow> 'a list" where
  "seen seek pre s post = (if seek = None then pre @ [s] else pre @ s # post)"

context clean_reader
begin

lemma restart_correct:
  assumes "pred_option (good_seek inv content fin) seek" and "inv r"
  obtains p r' where "restart_position seek r = (p, r')" "inv r'" "fin r' = fin r" "content r' = content r"
    "p = None \<longleftrightarrow> seek = None"
    "\<forall>f q s. seek = Some f \<and> p = Some q \<and> inv s \<longrightarrow>
       (\<exists>q' s'. f s q False = (q', None, s') \<and> inv s' \<and> fin s' = fin r \<and> content s' = content r)"
proof (cases seek)
  case None
  then show thesis using assms(2) by (intro that [of None r]) (simp_all add: restart_position_def)
next
  case (Some f)
  then have good: "good_seek inv content fin f" using assms(1) by simp
  then obtain p r' where f: "f r 0 True = (p, None, r')" "inv r'" "fin r' = fin r" "content r' = content r"
    using conjunct1 [OF good [unfolded good_seek_def], rule_format, of r 0] assms(2) by auto
  have again: "\<exists>q' s'. f s p False = (q', None, s') \<and> inv s' \<and> fin s' = fin r \<and> content s' = content r" if "inv s" for s
    using good assms(2) f(1) that unfolding good_seek_def by blast
  show thesis using f again unfolding Some by (intro that [of "Some p" r']) (simp_all add: restart_position_def Some)
qed

text \<open>Both passes up to the data stream.\<close>

lemma passes_to_data:
  assumes sk: "pred_option (good_seek inv content fin) seek" and u: "utf16_law u16str"
    and r: "inv r" "fin r = EOF" "content r = stream_image (pre @ (h, d) # post)"
    and ok: "list_all stream_ok (pre @ (h, d) # post)" and nd: "list_all (\<lambda>s. \<not> is_data s) pre" "Id h = BackupData"
    and m: "metas (seen seek pre (h, d) post) hdr = Some hdr'"
  obtains (both) p r0 dh br1 br2 where "restart_position seek r = (p, r0)"
    "scan_header rd (rel_seek seek) u16str name (p \<noteq> None) hdr (NewBackupStreamReader r0) = Some (Ok (hdr', dh), br1)"
    "second_pass rd seek u16str p dh br1 = Some (Ok (Some h), br2)"
    "stands inv content fin br2 d (stream_image post)"
proof -
  note skr = good_seek_rel [OF sk]
  obtain p r0 where r0: "restart_position seek r = (p, r0)" "inv r0" "fin r0 = fin r" "content r0 = content r"
    "p = None \<longleftrightarrow> seek = None"
    and again: "\<forall>f q s. seek = Some f \<and> p = Some q \<and> inv s \<longrightarrow>
       (\<exists>q' s'. f s q False = (q', None, s') \<and> inv s' \<and> fin s' = fin r \<and> content s' = content r)"
    by (rule restart_correct [OF sk r(1)])
  have c: "stands inv content fin (NewBackupStreamReader r0) [] (stream_image (pre @ (h, d) # post))"
    using r0 r by (simp add: stands_def NewBackupStreamReader_def)
  have ok1: "list_all stream_ok (pre @ [(h, d)])" using ok by simp
  show thesis
  proof (cases seek)
    case None
    then have "metas (pre @ [(h, d)]) hdr = Some hdr'" using m by (simp add: seen_def)
    from scan_header_data [OF c ok1 this nd skr u] obtain br' where br':
      "stands inv content fin br' d (stream_image post)"
      "scan_header rd (rel_seek seek) u16str name False hdr (NewBackupStreamReader r0) = Some (Ok (hdr', Some h), br')"
      by blast
    then show thesis using None r0 by (intro that [OF r0(1), of "Some h" br' br']) (auto simp: second_pass_def)
  next
    case (Some f)
    then obtain q where q: "p = Some q" using r0(5) by auto
    have "metas (pre @ (h, d) # post) hdr = Some hdr'" using m Some by (simp add: seen_def)
    from scan_header_all [OF c ok this skr u, of True] obtain br1 where br1: "stands inv content fin br1 [] []"
      "scan_header rd (rel_seek seek) u16str name True hdr (NewBackupStreamReader r0) = Some (Ok (hdr', None), br1)"
      by blast
    obtain q' s' where s': "f (bsr_r br1) q False = (q', None, s')" "inv s'" "fin s' = fin r" "content s' = content r"
      using again Some q standsD(1) [OF br1(1)] by blast
    have "stands inv content fin (br1\<lparr>bsr_r := s'\<rparr>) [] (stream_image (pre @ (h, d) # post))"
      using s' r standsD [OF br1(1)] by (simp add: stands_def)
    from find_data_stands [OF this ok1 nd skr u] obtain br2 where "stands inv content fin br2 d (stream_image post)"
      "find_data_stream rd (rel_seek seek) u16str (br1\<lparr>bsr_r := s'\<rparr>) = Some (Ok (Some h), br2)" by blast
    then show thesis using Some q s'(1) br1(2)
      by (intro that [OF r0(1), of None br1 br2]) (auto simp: second_pass_def)
  qed
qed

lemma write_tar_file:
  assumes sk: "pred_option (good_seek inv content fin) seek" and u: "utf16_law u16str"
    and r: "inv r" "fin r = EOF" "content r = stream_image (pre @ (h, d) # post)"
    and ok: "list_all stream_ok (pre @ (h, d) # post)" and nd: "list_all (\<lambda>s. \<not> is_data s) pre" "Id h = BackupData"
    and m: "metas (seen seek pre (h, d) post) (BasicInfoHeader nanos (ToSlash name) fsize fi) = Some hdr"
    and al: "allowed hdr = None" "list_all (\<lambda>e. allowed (fst e) = None) (alternates (ToSlash name) hdr post')"
    and room: "\<not> isHeaderOnlyType (th_Typeflag hdr) \<and> th_Size hdr = fsize" and t: "tw_left t \<le> 0"
    and post': "list_all stream_ok post'" "list_all after_ok post'"
    and contents: "\<And>br t. stands inv content fin br d (stream_image post) \<Longrightarrow> tw_left t = fsize \<Longrightarrow>
      \<exists>br'. stands inv content fin br' [] (stream_image post') \<and>
        copy_contents rd (rel_seek seek) u16str tw_Write (ToSlash name) fsize (Some h) br t = Some (Ok (), (br', tw_put t b))"
    and len: "int (length b) = fsize"
  shows "\<exists>br'. WriteTarFileFromBackupStream rd seek u16str nanos (tw_WriteHeader allowed) tw_Write t r name fsize fi =
    Some (Ok (), (br', \<lparr>tw_entries = tw_entries t @ (hdr, b) # alternates (ToSlash name) hdr post', tw_left = 0\<rparr>))"
proof -
  let ?name = "ToSlash name"
  obtain p r0 dh br1 br2 where a: "restart_position seek r = (p, r0)"
    "scan_header rd (rel_seek seek) u16str ?name (p \<noteq> None) (BasicInfoHeader nanos ?name fsize fi) (NewBackupStreamReader r0) =
       Some (Ok (hdr, dh), br1)"
    "second_pass rd seek u16str p dh br1 = Some (Ok (Some h), br2)"
    "stands inv content fin br2 d (stream_image post)"
    by (rule passes_to_data [OF sk u r ok nd m])
  let ?t1 = "\<lparr>tw_entries = tw_entries t @ [(hdr, [])], tw_left = fsize\<rparr>"
  have wh: "tw_WriteHeader allowed t hdr = (None, ?t1)" using t al(1) room by (simp add: tw_WriteHeader_def)
  obtain br3 where b: "stands inv content fin br3 [] (stream_image post')"
    "copy_contents rd (rel_seek seek) u16str tw_Write ?name fsize (Some h) br2 ?t1 = Some (Ok (), (br3, tw_put ?t1 b))"
    using contents [OF a(4), of ?t1] by auto
  have t2: "tw_put ?t1 b = \<lparr>tw_entries = tw_entries t @ [(hdr, b)], tw_left = 0\<rparr>" using len by simp
  have "tw_left (tw_put ?t1 b) = 0" using t2 by simp
  from copy_alternates_correct [OF b(1) post' good_seek_rel [OF sk] u al(2) this] obtain br' where
    "copy_alternates rd (rel_seek seek) u16str (tw_WriteHeader allowed) tw_Write ?name hdr br3 (tw_put ?t1 b) =
      Some (Ok (), (br', \<lparr>tw_entries = tw_entries t @ (hdr, b) # alternates ?name hdr post', tw_left = 0\<rparr>))"
    unfolding t2 by auto
  then show ?thesis using a(1,2,3) wh b(2)
    by (auto simp: WriteTarFileFromBackupStream_def Let_def on_reader_def)
qed

end

lemma meta_reg:
  "meta s hdr = Some hdr' \<Longrightarrow> th_Typeflag hdr' = TypeReg \<Longrightarrow> th_Typeflag hdr = TypeReg \<and> th_Size hdr' = th_Size hdr"
  by (auto simp: meta_def reparse_header_def ea_header_def TypeReg_def TypeSymlink_def split: if_splits res.splits)

lemma metas_reg:
  "metas ss hdr = Some hdr' \<Longrightarrow> th_Typeflag hdr' = TypeReg \<Longrightarrow> th_Typeflag hdr = TypeReg \<and> th_Size hdr' = th_Size hdr"
proof (induction ss arbitrary: hdr)
  case (Cons s ss)
  then obtain h1 where h1: "meta s hdr = Some h1" "metas ss h1 = Some hdr'" by (auto split: option.splits)
  then show ?case using Cons.IH [OF h1(2) Cons.prems(2)] meta_reg [OF h1(1)] by simp
qed simp

lemma metas_reg_size:
  assumes "metas ss (BasicInfoHeader nanos name fsize fi) = Some hdr" and "th_Typeflag hdr = TypeReg"
  shows "\<not> isHeaderOnlyType (th_Typeflag hdr) \<and> th_Size hdr = fsize"
  using metas_reg [OF assms] assms(2)
  by (auto simp: BasicInfoHeader_def Let_def isHeaderOnlyType_def TypeReg_def TypeDir_def split: if_splits)

section \<open>A file in memory\<close>

text \<open>A reader over the bytes of a file that can seek, for the concrete instances below.\<close>

definition file_read :: "(bytes \<times> nat) reader" where
  "file_read s n =
     (if n = 0 then Ok ([], None, s)
      else if length (fst s) \<le> snd s then Ok ([], Some EOF, s)
      else Ok (take n (drop (snd s) (fst s)), None, (fst s, snd s + n)))"

definition file_seek :: "(bytes \<times> nat) seek_fn" where
  "file_seek s k rel = (let p = (if rel then int (snd s) + k else k) in (p, None, (fst s, nat p)))"

lemma take_drop_join: "drop b F = take n (drop b F) @ drop (b + n) F"
  by (metis add.commute append_take_drop_id drop_drop)

interpretation fileR: clean_reader file_read "\<lambda>s. fst s = F" "\<lambda>s. drop (snd s) (fst s)" "\<lambda>_. EOF" "\<lambda>_. 0" for F
  by unfold_locales (auto simp: file_read_def intro: take_drop_join split: if_splits)

lemma file_seek_good: "good_seek (\<lambda>s. fst s = F) (\<lambda>s. drop (snd s) (fst s)) (\<lambda>_. EOF) file_seek"
  by (auto simp: good_seek_def file_seek_def Let_def nat_add_distrib add.commute)

definition sample_info :: "int FileBasicInfo" where
  "sample_info = \<lparr>fb_CreationTime = 1, fb_LastAccessTime = 2, fb_LastWriteTime = 3, fb_ChangeTime = 4, fb_FileAttributes = 0x20\<rparr>"

definition sample_alt :: "BackupHeader \<times> bytes" where
  "sample_alt = (bhdr_of BackupAlternateData 1 [58, 97, 58, 36, 68, 65, 84, 65], [7])"

lemmas stream_ids = BackupData_def BackupEaData_def BackupSecurity_def BackupAlternateData_def BackupLink_def
  BackupPropertyData_def BackupObjectId_def BackupReparseData_def BackupSparseBlock_def BackupTxfsData_def

lemma sample_alt_ok: "stream_ok sample_alt"
proof -
  have "runes [58, 97, 58, 36, 68, 65, 84, 65] = [58, 97, 58, 36, 68, 65, 84, 65]"
    using runes_ascii [of "[58, 97, 58, 36, 68, 65, 84, 65]" "[]"] by simp
  then show ?thesis
    by (simp add: sample_alt_def bhdr_of_def stream_ok_def header_ok_def utf8_valid_def string_of_runes_def
        EncodeRune_def scalar_def EncodeRune16_def BackupSparseBlock_def BackupAlternateData_def int64_ok_def)
qed

lemma unnamed_ok: "sid \<noteq> BackupSparseBlock \<Longrightarrow> length b < 2 ^ 63 \<Longrightarrow> stream_ok (bhdr_of sid (int (length b)) [], b)"
  by (simp add: stream_ok_def header_ok_def bhdr_of_def int64_ok_def utf8_valid_def string_of_runes_def)




definition sample_sparse :: "(BackupHeader \<times> bytes) list" where
  "sample_sparse = [] @ (bhdr_of BackupData 0 [] \<lparr>Attributes := 8\<rparr>, []) # sparse_streams [(2, [5, 6])] 6 @ []"

lemma sample_sparse_ok: "list_all stream_ok sample_sparse"
  by (simp add: sample_sparse_def sparse_streams_def stream_ok_def header_ok_def
      bhdr_of_def stream_ids int64_ok_def utf8_valid_def string_of_runes_def sparse_header_def)


context clean_reader
begin

lemma scan_header_sparse:
  assumes "stands inv content fin br old (stream_image (ss @ (h, d) # post))" and "list_all stream_ok (ss @ [(h, d)])"
    and "metas ss hdr = Some hdr'" and "Id h = BackupSparseBlock"
    and "pred_option (good_seeker inv content fin) seek" and "utf16_law u16str"
  shows "\<exists>br'. scan_header rd seek u16str name True hdr br =
    Some (Err (file_error name (ErrFmt ''unknown stream ID %d'' [9])), br')"
  using assms(1,2,3)
proof (induction ss arbitrary: br old hdr)
  case Nil
  have c: "stands inv content fin br old (stream_image ((h, d) # post))" and ok: "stream_ok (h, d)"
    using Nil.prems by simp_all
  obtain br1 where "stands inv content fin br1 d (stream_image post)" "Next rd seek u16str br = Some (Ok h, br1)"
    by (rule Next_stands [OF c ok assms(5,6)])
  then show ?case using assms(4)
    by (subst scan_header.simps) (simp add: header_stream_def ignored_streams_def BackupSparseBlock_def BackupData_def
        BackupSecurity_def BackupReparseData_def BackupEaData_def BackupAlternateData_def BackupLink_def
        BackupPropertyData_def BackupObjectId_def BackupTxfsData_def)
next
  case (Cons s ss)
  then obtain hdr1 where m: "meta s hdr = Some hdr1" "metas ss hdr1 = Some hdr'" by (auto split: option.splits)
  have c: "stands inv content fin br old (stream_image (s # ss @ (h, d) # post))"
    and ok: "stream_ok s" "list_all stream_ok (ss @ [(h, d)])"
    using Cons.prems(1,2) by simp_all
  obtain br1 old1 where *: "stands inv content fin br1 old1 (stream_image (ss @ (h, d) # post))"
    "scan_header rd seek u16str name True hdr br =
       (if is_data s \<and> \<not> True then Some (Ok (hdr1, Some (fst s)), br1) else scan_header rd seek u16str name True hdr1 br1)"
    by (rule scan_header_step [OF c ok(1) m(1) assms(5,6), where name = name and tw = True])
  then show ?case using Cons.IH [OF *(1) ok(2) m(2)] by simp
qed

end

text \<open>
  A sparse file cannot be archived from a reader that can seek: the first of the two passes
  refuses the sparse blocks as an unknown stream, before anything is written, although the second
  pass would copy them.
\<close>

theorem tar_sparse_seekable_fails:
  assumes "clean_reader rd ok content fin rank" and "pred_option (good_seek ok content fin) seek" and "utf16_law u16str"
    and "ok r" and "fin r = EOF" and "content r = stream_image (pre @ (h, []) # sparse_streams bs fsz @ post)"
    and "list_all stream_ok (pre @ (h, []) # sparse_streams bs fsz @ post)" and "Id h = BackupData"
    and "metas pre (BasicInfoHeader nanos (ToSlash name) fsz fi) = Some hdr" and "seek \<noteq> None"
  shows "\<exists>br'. WriteTarFileFromBackupStream rd seek u16str nanos (tw_WriteHeader allowed) tw_Write t r name fsz fi =
    Some (Err (file_error (ToSlash name) (ErrFmt ''unknown stream ID %d'' [9])), (br', t))"
proof -
  obtain s d' rest where st: "sparse_streams bs fsz @ post = (s, d') # rest" "Id s = BackupSparseBlock"
    by (cases bs) (auto simp: sparse_streams_def sparse_header_def)
  obtain p r0 where r0: "restart_position seek r = (p, r0)" "ok r0" "fin r0 = fin r" "content r0 = content r"
    "p = None \<longleftrightarrow> seek = None"
    by (rule clean_reader.restart_correct [OF assms(1,2,4)])
  let ?ss = "pre @ [(h, [])]" and ?hdr = "BasicInfoHeader nanos (ToSlash name) fsz fi"
  have m: "metas ?ss ?hdr = Some (hdr\<lparr>th_Mode := th_Mode hdr OR cISREG\<rparr>)"
    using assms(8,9) by (simp add: metas_append meta_def)
  have c: "stands ok content fin (NewBackupStreamReader r0) [] (stream_image (?ss @ (s, d') # rest))"
    using r0 assms(5,6) st(1) by (simp add: stands_def NewBackupStreamReader_def)
  have ok: "list_all stream_ok (?ss @ [(s, d')])" using assms(7) unfolding st(1) by simp
  from clean_reader.scan_header_sparse [OF assms(1) c ok m st(2) good_seek_rel [OF assms(2)] assms(3)]
  obtain br' where "scan_header rd (rel_seek seek) u16str (ToSlash name) True ?hdr (NewBackupStreamReader r0) =
    Some (Err (file_error (ToSlash name) (ErrFmt ''unknown stream ID %d'' [9])), br')" by blast
  moreover have "(p \<noteq> None) = True" using r0(5) assms(10) by simp
  ultimately show ?thesis
    using r0(1) by (auto simp: WriteTarFileFromBackupStream_def Let_def on_reader_def)
qed

theorem tar_sparse_seekable_fails_witness:
  "\<exists>br'. WriteTarFileFromBackupStream file_read (Some file_seek) sample_utf16 id (tw_WriteHeader (\<lambda>_. None)) tw_Write new_tar_writer
      (stream_image sample_sparse, 0) [97] 6 sample_info =
    Some (Err (file_error (ToSlash [97]) (ErrFmt ''unknown stream ID %d'' [9])), (br', new_tar_writer))"
  using tar_sparse_seekable_fails [OF fileR.clean_reader_axioms [of "stream_image sample_sparse"] _ sample_utf16_law _ _ _
      sample_sparse_ok [unfolded sample_sparse_def], of "Some file_seek" "(stream_image sample_sparse, 0)" id "[97]" sample_info _ "\<lambda>_. None" new_tar_writer] file_seek_good
  by (auto simp: sample_sparse_def bhdr_of_def)

text \<open>
  The alternate data streams of a file without a data stream (a directory, a link, or an
  empty file as older systems back it up) are silently lost: the archive gets the one entry of
  the file, whatever alternate streams the backup holds, and no error is reported.
\<close>

theorem tar_loses_alternates:
  assumes "clean_reader rd ok content fin rank" and "pred_option (good_seek ok content fin) seek" and "utf16_law u16str"
    and "ok r" and "fin r = EOF" and "content r = stream_image ss"
    and "list_all stream_ok ss" and "list_all (\<lambda>s. \<not> is_data s) ss"
    and "metas ss (BasicInfoHeader nanos (ToSlash name) fsz fi) = Some hdr"
    and "allowed hdr = None" and "tw_left t \<le> 0"
  shows "\<exists>br'. WriteTarFileFromBackupStream rd seek u16str nanos (tw_WriteHeader allowed) tw_Write t r name fsz fi =
    Some (Ok (), (br', \<lparr>tw_entries = tw_entries t @ [(hdr, [])],
      tw_left = (if isHeaderOnlyType (th_Typeflag hdr) then 0 else th_Size hdr)\<rparr>))"
proof -
  note skr = good_seek_rel [OF assms(2)]
  let ?hdr = "BasicInfoHeader nanos (ToSlash name) fsz fi" and ?sk = "rel_seek seek"
  let ?t1 = "\<lparr>tw_entries = tw_entries t @ [(hdr, [])], tw_left = (if isHeaderOnlyType (th_Typeflag hdr) then 0 else th_Size hdr)\<rparr>"
  obtain p r0 where r0: "restart_position seek r = (p, r0)" "ok r0" "fin r0 = fin r" "content r0 = content r"
    "p = None \<longleftrightarrow> seek = None"
    and again: "\<forall>f q s. seek = Some f \<and> p = Some q \<and> ok s \<longrightarrow>
       (\<exists>q' s'. f s q False = (q', None, s') \<and> ok s' \<and> fin s' = fin r \<and> content s' = content r)"
    by (rule clean_reader.restart_correct [OF assms(1,2,4)])
  have c: "stands ok content fin (NewBackupStreamReader r0) [] (stream_image ss)"
    using r0 assms(5,6) by (simp add: stands_def NewBackupStreamReader_def)
  obtain br1 where br1: "stands ok content fin br1 [] []"
    "scan_header rd ?sk u16str (ToSlash name) (p \<noteq> None) ?hdr (NewBackupStreamReader r0) = Some (Ok (hdr, None), br1)"
    using clean_reader.scan_header_all [OF assms(1) c assms(7,9) skr assms(3) disjI2 [OF assms(8)]] by blast
  obtain br2 where br2: "stands ok content fin br2 [] []" "second_pass rd seek u16str p None br1 = Some (Ok None, br2)"
  proof (cases seek)
    case None
    then show thesis using br1(1) by (intro that [of br1]) (auto simp: second_pass_def)
  next
    case (Some f)
    then obtain q where q: "p = Some q" using r0(5) by auto
    obtain q' s' where s': "f (bsr_r br1) q False = (q', None, s')" "ok s'" "fin s' = fin r" "content s' = content r"
      using again Some q standsD(1) [OF br1(1)] by blast
    have "stands ok content fin (br1\<lparr>bsr_r := s'\<rparr>) [] (stream_image ss)"
      using s' assms(5,6) standsD [OF br1(1)] by (simp add: stands_def)
    from clean_reader.find_data_none [OF assms(1) this assms(7,8) skr assms(3)] obtain br2 where
      "stands ok content fin br2 [] []" "find_data_stream rd ?sk u16str (br1\<lparr>bsr_r := s'\<rparr>) = Some (Ok None, br2)" by blast
    then show thesis using Some q s'(1) by (intro that [of br2]) (auto simp: second_pass_def)
  qed
  obtain br3 where "Next rd ?sk u16str br2 = Some (Err EOF, br3)"
    by (rule clean_reader.Next_stands_end [OF assms(1) br2(1) skr])
  then have "copy_alternates rd ?sk u16str (tw_WriteHeader allowed) tw_Write (ToSlash name) hdr br2 ?t1 = Some (Ok (), (br3, ?t1))"
    by (subst copy_alternates.simps) simp
  moreover have "tw_WriteHeader allowed t hdr = (None, ?t1)" using assms(10,11) by (simp add: tw_WriteHeader_def)
  ultimately show ?thesis
    using r0(1) br1(2) br2(2) by (auto simp: WriteTarFileFromBackupStream_def Let_def on_reader_def copy_contents_def)
qed

theorem tar_loses_alternates_witness:
  "\<exists>hdr br'. WriteTarFileFromBackupStream file_read (Some file_seek) sample_utf16 id (tw_WriteHeader (\<lambda>_. None)) tw_Write new_tar_writer
      (stream_image [sample_alt], 0) [97] 0 sample_info =
    Some (Ok (), (br', \<lparr>tw_entries = [(hdr, [])], tw_left = 0\<rparr>))"
proof -
  have m: "metas [sample_alt] (BasicInfoHeader id (ToSlash [97]) 0 sample_info) = Some (BasicInfoHeader id [97] 0 sample_info)"
    by (simp add: meta_def sample_alt_def bhdr_of_def stream_ids ignored_streams_def ToSlash_def)
  show ?thesis
    using tar_loses_alternates [OF fileR.clean_reader_axioms [of "stream_image [sample_alt]"] _ sample_utf16_law _ _ _ _ _ m,
        of "Some file_seek" "(stream_image [sample_alt], 0)" "\<lambda>_. None" new_tar_writer] file_seek_good sample_alt_ok
    by (auto simp: is_data_def sample_alt_def bhdr_of_def stream_ids new_tar_writer_def BasicInfoHeader_def sample_info_def
        win_ATTRIBUTE_DIRECTORY_def isHeaderOnlyType_def TypeReg_def)
qed

end
