(* ===== verification/Backuptar_Restore.thy ===== *)
theory Backuptar_Restore
  imports Backuptar_Archive "HOL-Library.Multiset"
begin

text \<open>
  Restoring a file from an archive: what \<^verbatim>\<open>WriteBackupStreamFromTarFile\<close> writes, and that
  archiving and restoring give the backup stream and the basic information of the file back.
\<close>

section \<open>The backup stream writer as a sink\<close>

definition bsw_put :: "bytes BackupStreamWriter \<Rightarrow> bytes \<Rightarrow> bytes BackupStreamWriter" where
  "bsw_put w b = \<lparr>bsw_w = bsw_w w @ b, bsw_bytesLeft = bsw_bytesLeft w - int (length b)\<rparr>"

interpretation bsw: io_writer "BSW_Write buf_write" bsw_bytesLeft bsw_put
  by unfold_locales (auto simp: BSW_Write_def buf_write_def bsw_put_def)

lemma WriteHeader_buf:
  "WriteHeader buf_write \<lparr>bsw_w = w, bsw_bytesLeft = 0\<rparr> h = (None, \<lparr>bsw_w = w @ concat (header_parts h), bsw_bytesLeft = Size h\<rparr>)"
  by (simp add: WriteHeader_def write_parts_buf)

lemma write_if_buf:
  "write_if buf_write sid b c t \<lparr>bsw_w = w, bsw_bytesLeft = 0\<rparr> =
     Some (Ok (), (t, \<lparr>bsw_w = w @ (if c then stream_image [(bhdr_of sid (int (length b)) [], b)] else []), bsw_bytesLeft = 0\<rparr>))"
  by (simp add: write_if_def write_stream_def WriteHeader_buf BSW_Write_def buf_write_def) (simp add: bhdr_of_def)

interpretation restoring: io_copying tr_Read "\<lambda>r. tr_rest r = R" tr_cur "\<lambda>_. EOF" "\<lambda>_. 0"
  "BSW_Write buf_write" bsw_bytesLeft bsw_put for R
  by unfold_locales

lemma copy_entry_buf:
  assumes "Size h = int (length (tr_cur t))"
  shows "\<exists>t'. tr_rest t' = tr_rest t \<and>
    copy_entry buf_write tr_Read h t \<lparr>bsw_w = w, bsw_bytesLeft = 0\<rparr> =
      Some (Ok (), (t', \<lparr>bsw_w = w @ stream_image [(h, tr_cur t)], bsw_bytesLeft = 0\<rparr>))"
proof -
  let ?bw = "\<lparr>bsw_w = w @ concat (header_parts h), bsw_bytesLeft = Size h\<rparr>"
  have "int (length (tr_cur t)) \<le> bsw_bytesLeft ?bw" using assms by simp
  then obtain t' where "tr_rest t' = tr_rest t"
    "Copy tr_Read (BSW_Write buf_write) t ?bw =
       Some (Ok (int (length (tr_cur t)), if EOF = EOF then None else Some EOF), (t', bsw_put ?bw (tr_cur t)))"
    by (rule restoring.Copy_correct [OF refl])
  then show ?thesis using assms by (auto simp: copy_entry_def WriteHeader_buf bsw_put_def)
qed

section \<open>Restoring\<close>

definition data_suffix :: gostring where "data_suffix = bs_of '':$DATA''"

text \<open>The entries that belong to a file, and the streams that they become.\<close>

definition is_alternate :: "tar_Header \<Rightarrow> tar_Header \<Rightarrow> bool" where
  "is_alternate hdr a \<longleftrightarrow> th_Typeflag a = TypeReg \<and> HasPrefix (th_Name a) (th_Name hdr @ [58])"

definition restored :: "tar_Header \<Rightarrow> tar_Header \<times> bytes \<Rightarrow> BackupHeader \<times> bytes" where
  "restored hdr e =
     (bhdr_of BackupAlternateData (th_Size (fst e)) (drop (length (th_Name hdr)) (th_Name (fst e)) @ data_suffix), snd e)"

lemma restore_alternates_correct:
  assumes "list_all (\<lambda>e. is_alternate hdr (fst e) \<and> th_Size (fst e) = int (length (snd e))) alts"
    and "tr_rest t = alts @ rest" and "rest \<noteq> [] \<Longrightarrow> \<not> is_alternate hdr (fst (hd rest))"
  shows "\<exists>t'. restore_alternates buf_write tr_Read tr_Next hdr t \<lparr>bsw_w = w, bsw_bytesLeft = 0\<rparr> =
    Some (if rest = [] then Err EOF else Ok (fst (hd rest)),
      (t', \<lparr>bsw_w = w @ stream_image (map (restored hdr) alts), bsw_bytesLeft = 0\<rparr>))"
  using assms(1,2)
proof (induction alts arbitrary: t w)
  case Nil
  then show ?case using assms(3)
    by (subst restore_alternates.simps) (cases rest, auto simp: tr_Next_def is_alternate_def)
next
  case (Cons e alts)
  obtain a d where e: "e = (a, d)" by (cases e)
  let ?t = "\<lparr>tr_cur = d, tr_rest = alts @ rest\<rparr>"
  let ?h = "bhdr_of BackupAlternateData (th_Size a) (drop (length (th_Name hdr)) (th_Name a) @ data_suffix)"
  have a: "is_alternate hdr a" "th_Size a = int (length d)"
    and al: "list_all (\<lambda>e. is_alternate hdr (fst e) \<and> th_Size (fst e) = int (length (snd e))) alts"
    using Cons.prems(1) e by simp_all
  have n: "tr_Next t = (Ok a, ?t)" using Cons.prems(2) e by (simp add: tr_Next_def)
  have "Size ?h = int (length (tr_cur ?t))" using a(2) by (simp add: bhdr_of_def)
  from copy_entry_buf [OF this, of w] obtain t1 where t1: "tr_rest t1 = alts @ rest"
    "copy_entry buf_write tr_Read ?h ?t \<lparr>bsw_w = w, bsw_bytesLeft = 0\<rparr> =
      Some (Ok (), (t1, \<lparr>bsw_w = w @ stream_image [(?h, d)], bsw_bytesLeft = 0\<rparr>))" by auto
  have "restored hdr e = (?h, d)" by (simp add: restored_def e)
  moreover have "\<not> (th_Typeflag a \<noteq> TypeReg \<or> \<not> HasPrefix (th_Name a) (th_Name hdr @ [58]))"
    using a(1) by (simp add: is_alternate_def)
  ultimately show ?case
    using Cons.IH [OF al t1(1), of "w @ stream_image [(?h, d)]"] n t1(2)
    by (subst restore_alternates.simps) (simp add: data_suffix_def)
qed

lemma restore_file:
  assumes "th_Typeflag hdr = TypeReg" and "th_Size hdr = int (length (tr_cur t))"
    and "list_all (\<lambda>e. is_alternate hdr (fst e) \<and> th_Size (fst e) = int (length (snd e))) alts"
    and "tr_rest t = alts @ rest" and "rest \<noteq> [] \<Longrightarrow> \<not> is_alternate hdr (fst (hd rest))"
    and "SecurityDescriptorFromTarHeader from_string hdr = Ok sd" and "ExtendedAttributesFromTarHeader keys hdr = Ok eab"
  shows "\<exists>t'. WriteBackupStreamFromTarFile buf_write tr_Read tr_Next from_string keys w t hdr =
    Some (if rest = [] then Err EOF else Ok (fst (hd rest)),
      (t', \<lparr>bsw_w = w @ stream_image
        ((if sd \<noteq> [] then [(bhdr_of BackupSecurity (int (length sd)) [], sd)] else []) @
         (if eab \<noteq> [] then [(bhdr_of BackupEaData (int (length eab)) [], eab)] else []) @
         [(bhdr_of BackupData (th_Size hdr) [], tr_cur t)] @ map (restored hdr) alts), bsw_bytesLeft = 0\<rparr>))"
proof -
  let ?w1 = "w @ (if sd \<noteq> [] then stream_image [(bhdr_of BackupSecurity (int (length sd)) [], sd)] else [])"
  let ?w2 = "?w1 @ (if eab \<noteq> [] then stream_image [(bhdr_of BackupEaData (int (length eab)) [], eab)] else [])"
  have reg: "th_Typeflag hdr \<noteq> TypeSymlink" using assms(1) by (simp add: TypeReg_def TypeSymlink_def)
  have "Size (bhdr_of BackupData (th_Size hdr) []) = int (length (tr_cur t))" using assms(2) by (simp add: bhdr_of_def)
  from copy_entry_buf [OF this, of ?w2] obtain t1 where t1: "tr_rest t1 = tr_rest t"
    "copy_entry buf_write tr_Read (bhdr_of BackupData (th_Size hdr) []) t \<lparr>bsw_w = ?w2, bsw_bytesLeft = 0\<rparr> =
      Some (Ok (), (t1, \<lparr>bsw_w = ?w2 @ stream_image [(bhdr_of BackupData (th_Size hdr) [], tr_cur t)], bsw_bytesLeft = 0\<rparr>))"
    by blast
  have "tr_rest t1 = alts @ rest" using t1(1) assms(4) by simp
  from restore_alternates_correct [OF assms(3) this assms(5), of "?w2 @ stream_image [(bhdr_of BackupData (th_Size hdr) [], tr_cur t)]"]
  obtain t' where "restore_alternates buf_write tr_Read tr_Next hdr t1
      \<lparr>bsw_w = ?w2 @ stream_image [(bhdr_of BackupData (th_Size hdr) [], tr_cur t)], bsw_bytesLeft = 0\<rparr> =
    Some (if rest = [] then Err EOF else Ok (fst (hd rest)),
      (t', \<lparr>bsw_w = (?w2 @ stream_image [(bhdr_of BackupData (th_Size hdr) [], tr_cur t)]) @ stream_image (map (restored hdr) alts),
        bsw_bytesLeft = 0\<rparr>))"
    by blast
  then show ?thesis
    using assms(1,6,7) reg t1(2)
    by (intro exI [of _ t']) (simp add: WriteBackupStreamFromTarFile_def io_ok_def NewBackupStreamWriter_def write_if_buf)
qed

text \<open>
  An archive entry of a regular file, followed by the entries of its alternate streams, is
  restored as a backup stream of its security descriptor and extended attributes (each when it
  has one), its data and its alternate streams, with sizes and names; the header of the next
  file, or the end of the archive, is returned.
\<close>

theorem backup_from_tar:
  assumes "th_Typeflag hdr = TypeReg" and "th_Size hdr = int (length (tr_cur t))"
    and "list_all (\<lambda>e. is_alternate hdr (fst e) \<and> th_Size (fst e) = int (length (snd e))) alts"
    and "tr_rest t = alts @ rest" and "rest \<noteq> [] \<Longrightarrow> \<not> is_alternate hdr (fst (hd rest))"
    and "SecurityDescriptorFromTarHeader from_string hdr = Ok sd" and "ExtendedAttributesFromTarHeader keys hdr = Ok eab"
  shows "\<exists>t'. WriteBackupStreamFromTarFile buf_write tr_Read tr_Next from_string keys w t hdr =
    Some (if rest = [] then Err EOF else Ok (fst (hd rest)),
      (t', \<lparr>bsw_w = w @ stream_image
        ((if sd \<noteq> [] then [(bhdr_of BackupSecurity (int (length sd)) [], sd)] else []) @
         (if eab \<noteq> [] then [(bhdr_of BackupEaData (int (length eab)) [], eab)] else []) @
         [(bhdr_of BackupData (th_Size hdr) [], tr_cur t)] @ map (restored hdr) alts), bsw_bytesLeft = 0\<rparr>))"
  by (rule restore_file [OF assms])

section \<open>Extended attributes in PAX records\<close>

definition ea_key :: "ExtendedAttribute \<Rightarrow> gostring" where
  "ea_key ea = hdrEaPrefix @ ea_Name ea"

definition put_eas :: "ExtendedAttribute list \<Rightarrow> (gostring \<rightharpoonup> gostring) \<Rightarrow> gostring \<rightharpoonup> gostring" where
  "put_eas eas m = fold (\<lambda>ea m. m(ea_key ea \<mapsto> b64_Encode (ea_Value ea))) eas m"

lemma put_eas_other: "k \<notin> ea_key ` set eas \<Longrightarrow> put_eas eas m k = m k"
  by (induction eas arbitrary: m) (auto simp: put_eas_def)

lemma put_eas_same:
  "distinct (map ea_Name eas) \<Longrightarrow> ea \<in> set eas \<Longrightarrow> put_eas eas m (ea_key ea) = Some (b64_Encode (ea_Value ea))"
proof (induction eas arbitrary: m)
  case (Cons e eas)
  show ?case
  proof (cases "ea \<in> set eas")
    case True
    then show ?thesis using Cons by (simp add: put_eas_def)
  next
    case False
    then have "ea = e" using Cons.prems(2) by simp
    moreover from this have "ea_key ea \<notin> ea_key ` set eas" using Cons.prems(1) by (auto simp: ea_key_def)
    ultimately show ?thesis
      using put_eas_other [of "ea_key e" eas "m(ea_key e \<mapsto> b64_Encode (ea_Value e))"] by (simp add: put_eas_def)
  qed
qed simp

text \<open>Whatever the order of the records, the attributes come back, each once.\<close>

lemma ea_records_put:
  assumes "distinct (map ea_Name eas)" and "list_all (\<lambda>ea. ea_Flags ea = 0) eas"
    and "\<And>k. HasPrefix k hdrEaPrefix \<Longrightarrow> m k = None"
  shows "distinct ks \<Longrightarrow> \<exists>es. ea_records (put_eas eas m) ks acc = Ok (acc @ es) \<and>
    set es = {ea \<in> set eas. ea_key ea \<in> set ks} \<and> distinct es"
proof (induction ks arbitrary: acc)
  case (Cons k ks)
  let ?m = "put_eas eas m"
  have ks: "distinct ks" "k \<notin> set ks" using Cons.prems by simp_all
  show ?case
  proof (cases "\<exists>ea \<in> set eas. ea_key ea = k")
    case False
    then have "?m k = m k" using put_eas_other [of k eas m] by auto
    then have "ea_records ?m (k # ks) acc = ea_records ?m ks acc"
      using assms(3) [of k] by (cases "HasPrefix k hdrEaPrefix") (auto split: option.split)
    then show ?thesis using Cons.IH [OF ks(1), of acc] False by auto
  next
    case True
    then obtain ea where ea: "ea \<in> set eas" "ea_key ea = k" by blast
    have v: "?m k = Some (b64_Encode (ea_Value ea))" using put_eas_same [OF assms(1) ea(1)] ea(2) by simp
    have p: "HasPrefix k hdrEaPrefix" "drop (length hdrEaPrefix) k = ea_Name ea"
      using ea(2) by (auto simp: ea_key_def)
    have eq: "\<lparr>ea_Name = ea_Name ea, ea_Value = ea_Value ea, ea_Flags = 0\<rparr> = ea"
      using assms(2) ea(1) by (cases ea) (auto simp: list_all_iff)
    have r: "ea_records ?m (k # ks) acc = ea_records ?m ks (acc @ [ea])" using v p eq by simp
    from Cons.IH [OF ks(1), of "acc @ [ea]"] obtain es where es: "ea_records ?m ks (acc @ [ea]) = Ok ((acc @ [ea]) @ es)"
      "set es = {ea \<in> set eas. ea_key ea \<in> set ks}" "distinct es" by blast
    have new: "ea \<notin> set es" using es(2) ea(2) ks(2) by auto
    have "x = ea" if "x \<in> set eas" "ea_key x = k" for x
      using assms(1) that ea by (auto simp: ea_key_def distinct_map dest: inj_onD)
    then have "{x \<in> set eas. ea_key x \<in> set (k # ks)} = insert ea {x \<in> set eas. ea_key x \<in> set ks}"
      using ea unfolding list.set by blast
    then have "set (ea # es) = {x \<in> set eas. ea_key x \<in> set (k # ks)} \<and> distinct (ea # es)"
      using es(2,3) new by simp
    then show ?thesis using r es(1) by (intro exI [of _ "ea # es"]) simp
  qed
qed auto

lemma ea_decode_encoded: "EncodeExtendedAttributes eas = Ok b \<Longrightarrow> DecodeExtendedAttributes b = Ok eas"
  using decode_loop_entries [of eas "[]"]
  by (simp add: EncodeExtendedAttributes_def DecodeExtendedAttributes_def encode_loop_Ok_iff)

lemma ExtendedAttributes_restored:
  assumes "EncodeExtendedAttributes eas = Ok eab" and "distinct (map ea_Name eas)" and "list_all (\<lambda>ea. ea_Flags ea = 0) eas"
    and "\<And>k. HasPrefix k hdrEaPrefix \<Longrightarrow> m k = None" and "th_PAXRecords hdr = put_eas eas m"
    and "distinct keys" and "set keys = dom (th_PAXRecords hdr)"
  shows "\<exists>eas' eab'. mset eas' = mset eas \<and> EncodeExtendedAttributes eas' = Ok eab' \<and>
    ExtendedAttributesFromTarHeader keys hdr = Ok eab'"
proof -
  obtain es where es: "ea_records (put_eas eas m) keys [] = Ok ([] @ es)"
    "set es = {ea \<in> set eas. ea_key ea \<in> set keys}" "distinct es"
    using ea_records_put [OF assms(2,3), of m keys "[]"] assms(4,6) by blast
  have "ea_key ea \<in> set keys" if "ea \<in> set eas" for ea
    using put_eas_same [OF assms(2) that, of m] assms(5,7) by auto
  then have "set es = set eas" using es(2) by auto
  moreover from this have "mset es = mset eas"
    using es(3) assms(2) by (simp add: distinct_map set_eq_iff_mset_eq_distinct [symmetric])
  moreover obtain eab' where "EncodeExtendedAttributes es = Ok eab'"
    using assms(1) calculation(1) by (auto simp: EncodeExtendedAttributes_def encode_loop_Ok_iff list_all_iff)
  moreover have "EncodeExtendedAttributes [] = Ok []" by (simp add: EncodeExtendedAttributes_def)
  ultimately show ?thesis
    using es(1) assms(5) by (intro exI [of _ es] exI [of _ eab']) (auto simp: ExtendedAttributesFromTarHeader_def)
qed

section \<open>There and back\<close>

definition alt_stream :: "gostring \<times> bytes \<Rightarrow> BackupHeader \<times> bytes" where
  "alt_stream a = (bhdr_of BackupAlternateData (int (length (snd a))) (fst a @ data_suffix), snd a)"

text \<open>A regular file with a security descriptor, extended attributes, data and alternate streams.\<close>

definition meta_streams :: "bytes \<Rightarrow> bytes \<Rightarrow> (BackupHeader \<times> bytes) list" where
  "meta_streams sd eab =
     (if sd \<noteq> [] then [(bhdr_of BackupSecurity (int (length sd)) [], sd)] else []) @
     (if eab \<noteq> [] then [(bhdr_of BackupEaData (int (length eab)) [], eab)] else [])"

definition file_streams :: "bytes \<Rightarrow> bytes \<Rightarrow> bytes \<Rightarrow> (gostring \<times> bytes) list \<Rightarrow> (BackupHeader \<times> bytes) list" where
  "file_streams sd eab d alts =
     meta_streams sd eab @ (bhdr_of BackupData (int (length d)) [], d) # map alt_stream alts"

lemma metas_alts: "metas (map alt_stream alts) hdr = Some hdr"
  by (induction alts) (auto simp: meta_def alt_stream_def bhdr_of_def ignored_streams_def stream_ids)

lemma alternates_restored:
  assumes "list_all (\<lambda>a. HasPrefix (fst a) [58]) alts" and "th_Name hdr = name"
  shows "map (restored hdr) (alternates name hdr0 (map alt_stream alts)) = map alt_stream alts \<and>
    list_all (\<lambda>e. is_alternate hdr (fst e) \<and> th_Size (fst e) = int (length (snd e))) (alternates name hdr0 (map alt_stream alts))"
  using assms(1)
proof (induction alts arbitrary: hdr0)
  case (Cons a alts)
  obtain n b where a: "a = (n, b)" by (cases a)
  obtain n' where n: "n = 58 # n'" using Cons.prems a by (auto simp: HasPrefix_iff)
  let ?h = "bhdr_of BackupAlternateData (int (length b)) (n @ data_suffix)"
  have "TrimSuffix (n @ data_suffix) (bs_of '':$DATA'') = n" unfolding data_suffix_def by (rule TrimSuffix_append)
  then have "alternate_header name hdr0 ?h = (alternate_header name hdr0 ?h)\<lparr>th_Name := name @ n\<rparr>"
    by (simp add: alternate_header_def bhdr_of_def)
  then have nm: "th_Name (alternate_header name hdr0 ?h) = name @ n" by (metis tar_Header.select_convs(2) tar_Header.surjective tar_Header.update_convs(2))
  have "HasPrefix (name @ n) (name @ [58])" using n by (simp add: HasPrefix_iff)
  then have "is_alternate hdr (alternate_header name hdr0 ?h)"
    using nm assms(2) by (simp add: is_alternate_def) (simp add: alternate_header_def)
  moreover have "th_Size (alternate_header name hdr0 ?h) = int (length b)" by (simp add: alternate_header_def bhdr_of_def)
  moreover have "restored hdr (alternate_header name hdr0 ?h, b) = (?h, b)"
    using nm assms(2) calculation(2) by (simp add: restored_def)
  ultimately show ?case using Cons a by (simp add: alt_stream_def) (simp add: bhdr_of_def)
qed simp

lemma ToSlash_idem [simp]: "ToSlash (ToSlash s) = ToSlash s"
  by (simp add: ToSlash_def)

lemma no_ea_keys:
  "\<not> HasPrefix hdrFileAttributes hdrEaPrefix" "\<not> HasPrefix hdrCreationTime hdrEaPrefix"
  "\<not> HasPrefix hdrRawSecurityDescriptor hdrEaPrefix"
  by (simp_all add: HasPrefix_def hdrFileAttributes_def hdrCreationTime_def hdrRawSecurityDescriptor_def hdrEaPrefix_def bs_of_def)

text \<open>The header that the archive gets for such a file.\<close>

definition pax_base :: "('ft \<Rightarrow> int) \<Rightarrow> bytes \<Rightarrow> 'ft FileBasicInfo \<Rightarrow> gostring \<rightharpoonup> gostring" where
  "pax_base nanos sd fi =
     (let m = [hdrFileAttributes \<mapsto> FormatUint (unat (fb_FileAttributes fi)),
               hdrCreationTime \<mapsto> formatPAXTime (time_Unix 0 (nanos (fb_CreationTime fi)))]
      in if sd \<noteq> [] then m(hdrRawSecurityDescriptor \<mapsto> b64_Encode sd) else m)"

definition file_header :: "('ft \<Rightarrow> int) \<Rightarrow> bytes \<Rightarrow> ExtendedAttribute list \<Rightarrow> gostring \<Rightarrow> int \<Rightarrow> 'ft FileBasicInfo \<Rightarrow> tar_Header" where
  "file_header nanos sd eas name n fi =
     (BasicInfoHeader nanos name n fi)\<lparr>th_Mode := cISREG, th_PAXRecords := put_eas eas (pax_base nanos sd fi)\<rparr>"

lemma metas_file:
  assumes "EncodeExtendedAttributes eas = Ok eab" and "fb_FileAttributes fi AND win_ATTRIBUTE_DIRECTORY = 0"
  shows "metas (meta_streams sd eab @ [(bhdr_of BackupData n [], d)]) (BasicInfoHeader nanos name n fi) =
    Some (file_header nanos sd eas name n fi)"
proof -
  have dec: "DecodeExtendedAttributes eab = Ok eas" by (rule ea_decode_encoded [OF assms(1)])
  have nil: "eab = [] \<Longrightarrow> eas = []" using dec by (simp add: DecodeExtendedAttributes_def decode_loop.simps)
  show ?thesis
    using assms(2) dec nil
    by (auto simp: meta_streams_def meta_def bhdr_of_def stream_ids file_header_def BasicInfoHeader_def Let_def
        ea_header_def put_eas_def ea_key_def pax_base_def)
qed

lemma pax_base_keys: "HasPrefix k hdrEaPrefix \<Longrightarrow> pax_base nanos sd fi k = None"
  using no_ea_keys by (auto simp: pax_base_def Let_def)

lemma pax_base_sd:
  "sd \<noteq> [] \<Longrightarrow> pax_base nanos sd fi hdrRawSecurityDescriptor = Some (b64_Encode sd)"
  "pax_base nanos [] fi hdrRawSecurityDescriptor = None" "pax_base nanos sd fi hdrSecurityDescriptor = None"
  by (simp_all add: pax_base_def Let_def hdrFileAttributes_def hdrCreationTime_def hdrRawSecurityDescriptor_def
      hdrSecurityDescriptor_def bs_of_def)

lemma file_header_sd: "SecurityDescriptorFromTarHeader from_string (file_header nanos sd eas name n fi) = Ok sd"
proof -
  have "\<not> HasPrefix hdrSecurityDescriptor hdrEaPrefix"
    by (simp add: HasPrefix_def hdrSecurityDescriptor_def hdrEaPrefix_def bs_of_def)
  then have "hdrRawSecurityDescriptor \<notin> ea_key ` set eas" "hdrSecurityDescriptor \<notin> ea_key ` set eas"
    using no_ea_keys(3) by (auto simp: ea_key_def HasPrefix_iff)
  then show ?thesis
    using put_eas_other [of _ eas "pax_base nanos sd fi"]
    by (cases "sd = []") (simp_all add: SecurityDescriptorFromTarHeader_def file_header_def pax_base_sd)
qed


text \<open>
  The basic information of a file survives the archive: name (with forward slashes), size,
  attributes and all four times are read back from the header as they were, for times whose
  conversion to nanoseconds and back is exact; a directory has size 0.
\<close>

theorem fileinfo_roundtrip:
  assumes "\<And>f. f \<in> {fb_CreationTime fi, fb_LastAccessTime fi, fb_LastWriteTime fi, fb_ChangeTime fi} \<Longrightarrow>
      int64_ok (nanos f) \<and> ft_of (nanos f) = f"
  shows "FileInfoFromHeader ft_of (BasicInfoHeader nanos name n fi) =
    Ok (ToSlash name, if fb_FileAttributes fi AND win_ATTRIBUTE_DIRECTORY \<noteq> 0 then 0 else n, fi)"
proof -
  let ?hdr = "BasicInfoHeader nanos name n fi"
  have t: "ft_of (UnixNano (time_Unix 0 (nanos f))) = f" "time_ok (time_Unix 0 (nanos f))"
    if "f \<in> {fb_CreationTime fi, fb_LastAccessTime fi, fb_LastWriteTime fi, fb_ChangeTime fi}" for f
    using assms [OF that] UnixNano_Unix [of "nanos f"] by simp_all
  have "parsePAXTime (formatPAXTime (time_Unix 0 (nanos (fb_CreationTime fi)))) = Ok (time_Unix 0 (nanos (fb_CreationTime fi)))"
    using t(2) [of "fb_CreationTime fi"] by (intro parse_format_time) simp
  moreover have "hdrFileAttributes \<noteq> hdrCreationTime"
    by (simp add: hdrFileAttributes_def hdrCreationTime_def bs_of_def)
  moreover have "unat (fb_FileAttributes fi) < 2 ^ 32" using unsigned_less [of "fb_FileAttributes fi"] by simp
  moreover have "TypeDir \<noteq> TypeReg" by (simp add: TypeDir_def TypeReg_def)
  ultimately show ?thesis
    using t(1) by (cases fi) (simp add: FileInfoFromHeader_def BasicInfoHeader_def Let_def ParseUint10_FormatUint)
qed

theorem fileinfo_roundtrip_witness:
  "FileInfoFromHeader id (BasicInfoHeader id [97, 92, 98] 5 sample_info) = Ok ([97, 47, 98], 5, sample_info)"
proof -
  have "FileInfoFromHeader id (BasicInfoHeader id [97, 92, 98] 5 sample_info) = Ok (ToSlash [97, 92, 98],
      if fb_FileAttributes sample_info AND win_ATTRIBUTE_DIRECTORY \<noteq> 0 then 0 else 5, sample_info)"
    by (rule fileinfo_roundtrip) (auto simp: sample_info_def int64_ok_def)
  then show ?thesis by (simp add: sample_info_def ToSlash_def win_ATTRIBUTE_DIRECTORY_def)
qed

theorem backup_from_tar_witness:
  "\<exists>hdr t'. WriteBackupStreamFromTarFile buf_write tr_Read tr_Next (\<lambda>_. Ok []) [] [] \<lparr>tr_cur = [5, 6], tr_rest = []\<rparr> hdr =
    Some (Err EOF, (t', \<lparr>bsw_w = stream_image [(bhdr_of BackupData 2 [], [5, 6])], bsw_bytesLeft = 0\<rparr>))"
proof -
  let ?hdr = "\<lparr>th_Typeflag = TypeReg, th_Name = [97], th_Linkname = [], th_Size = 2, th_Mode = 0, th_ModTime = (0, 0),
    th_AccessTime = (0, 0), th_ChangeTime = (0, 0), th_PAXRecords = Map.empty, th_Format = FormatPAX\<rparr>"
  show ?thesis
    using backup_from_tar [of ?hdr "\<lparr>tr_cur = [5, 6], tr_rest = []\<rparr>" "[]" "[]" "\<lambda>_. Ok []" "[]" "[]" "[]" "[]"]
    by (auto simp: SecurityDescriptorFromTarHeader_def ExtendedAttributesFromTarHeader_def intro!: exI [of _ ?hdr])
qed

definition sample_eas :: "ExtendedAttribute list" where
  "sample_eas = [\<lparr>ea_Name = [102], ea_Value = [1, 2], ea_Flags = 0\<rparr>, \<lparr>ea_Name = [98], ea_Value = [], ea_Flags = 0\<rparr>]"


end
