(* ===== verification/Pipe.thy ===== *)
theory Pipe
  imports File Go_IO Backuptar
begin

text \<open>
  Named pipes (\<^verbatim>\<open>src/pipe.go\<close>): connections to message pipes that are read as byte streams,
  dialing, and the listener, whose goroutine, \<^verbatim>\<open>Accept\<close> and \<^verbatim>\<open>Close\<close> calls and
  connecting pipes are a step relation. The operations of the underlying \<^verbatim>\<open>win32File\<close> and the
  system calls are parameters.
\<close>

definition ErrPipeListenerClosed :: go_error where
  "ErrPipeListenerClosed = ErrNew ''use of closed network connection''"

definition errPipeWriteClosed :: go_error where
  "errPipeWriteClosed = ErrNew ''pipe has been closed for write''"

definition ERROR_PIPE_BUSY :: go_error where "ERROR_PIPE_BUSY = Errno 231"
definition ERROR_NO_DATA :: go_error where "ERROR_NO_DATA = Errno 232"
definition ERROR_MORE_DATA :: go_error where "ERROR_MORE_DATA = Errno 234"
definition ERROR_PIPE_CONNECTED :: go_error where "ERROR_PIPE_CONNECTED = Errno 535"

section \<open>Message pipes as byte streams\<close>

type_synonym 'f file_read = "'f \<Rightarrow> nat \<Rightarrow> bytes \<times> go_error option \<times> 'f"

record 'f win32MessageBytePipe =
  mb_file :: 'f
  writeClosed :: bool
  readEOF :: bool

definition CloseWrite ::
  "('f \<Rightarrow> go_error option \<times> 'f) \<Rightarrow> 'f writer \<Rightarrow> 'f win32MessageBytePipe \<Rightarrow> go_error option \<times> 'f win32MessageBytePipe" where
  "CloseWrite flush fwrite p =
     (if writeClosed p then (Some errPipeWriteClosed, p)
      else case flush (mb_file p) of
          (Some e, f) \<Rightarrow> (Some e, p\<lparr>mb_file := f\<rparr>)
        | (None, f) \<Rightarrow>
            (case fwrite f [] of
               (_, Some e, f) \<Rightarrow> (Some e, p\<lparr>mb_file := f\<rparr>)
             | (_, None, f) \<Rightarrow> (None, p\<lparr>mb_file := f, writeClosed := True\<rparr>)))"

definition mb_Write :: "'f writer \<Rightarrow> 'f win32MessageBytePipe writer" where
  "mb_Write fwrite p b =
     (if writeClosed p then (0, Some errPipeWriteClosed, p)
      else if b = [] then (0, None, p)
      else case fwrite (mb_file p) b of (n, e, f) \<Rightarrow> (n, e, p\<lparr>mb_file := f\<rparr>))"

definition mb_Read :: "'f file_read \<Rightarrow> 'f win32MessageBytePipe \<Rightarrow> nat \<Rightarrow> bytes \<times> go_error option \<times> 'f win32MessageBytePipe" where
  "mb_Read fread p len =
     (if readEOF p then ([], Some EOF, p)
      else case fread (mb_file p) len of
          (b, err, f) \<Rightarrow>
            if err = Some EOF then (b, err, p\<lparr>mb_file := f, readEOF := True\<rparr>)
            else (b, if err = Some ERROR_MORE_DATA then None else err, p\<lparr>mb_file := f\<rparr>))"

section \<open>Dialing\<close>

text \<open>
  \<^verbatim>\<open>tryDialPipe\<close>: at its \<open>i\<close>-th turn the context may be done (\<open>ctx i\<close>), else
  \<^verbatim>\<open>CreateFile\<close> is called (\<open>create i\<close>).
\<close>

partial_function (option) tryDialPipe ::
  "(nat \<Rightarrow> go_error option) \<Rightarrow> (nat \<Rightarrow> nat res) \<Rightarrow> nat \<Rightarrow> nat res option" where
  "tryDialPipe ctx create i =
     (case ctx i of
        Some e \<Rightarrow> Some (Err e)
      | None \<Rightarrow>
          (case create i of
             Ok h \<Rightarrow> Some (Ok h)
           | Panic p \<Rightarrow> Some (Panic p)
           | Err e \<Rightarrow> if e \<noteq> ERROR_PIPE_BUSY then Some (Err (ErrWrap ''open'' e)) else tryDialPipe ctx create (i + 1)))"

definition PIPE_TYPE_MESSAGE :: u32 where "PIPE_TYPE_MESSAGE = 4"

datatype pipe_conn = BytePipe nat | MessagePipe nat

text \<open>
  \<^verbatim>\<open>DialPipeAccessImpLevel\<close>, with the handles that are open: \<open>info\<close> is
  \<^verbatim>\<open>getNamedPipeInfo\<close> and \<open>mkfile\<close> the error of \<^verbatim>\<open>makeWin32File\<close>.
\<close>

definition DialPipeAccessImpLevel ::
  "(nat \<Rightarrow> go_error option) \<Rightarrow> (nat \<Rightarrow> nat res) \<Rightarrow> (nat \<Rightarrow> u32 res) \<Rightarrow> (nat \<Rightarrow> go_error option) \<Rightarrow>
     nat set \<Rightarrow> (pipe_conn res \<times> nat set) option" where
  "DialPipeAccessImpLevel ctx create info mkfile handles =
     (case tryDialPipe ctx create 0 of
        None \<Rightarrow> None
      | Some (Err e) \<Rightarrow> Some (Err e, handles)
      | Some (Panic p) \<Rightarrow> Some (Panic p, handles)
      | Some (Ok h) \<Rightarrow>
          let handles = insert h handles in
          (case info h of
             Err e \<Rightarrow> Some (Err e, handles)
           | Panic p \<Rightarrow> Some (Panic p, handles)
           | Ok flags \<Rightarrow>
               (case mkfile h of
                  Some e \<Rightarrow> Some (Err e, handles - {h})
                | None \<Rightarrow> Some (Ok (if flags AND PIPE_TYPE_MESSAGE \<noteq> 0 then MessagePipe h else BytePipe h), handles))))"

definition DeadlineExceeded :: go_error where "DeadlineExceeded = ErrNew ''context deadline exceeded''"

definition DialPipe ::
  "(nat \<Rightarrow> go_error option) \<Rightarrow> (nat \<Rightarrow> nat res) \<Rightarrow> (nat \<Rightarrow> u32 res) \<Rightarrow> (nat \<Rightarrow> go_error option) \<Rightarrow>
     nat set \<Rightarrow> (pipe_conn res \<times> nat set) option" where
  "DialPipe ctx create info mkfile handles =
     map_option (\<lambda>(r, hs). (case r of Err e \<Rightarrow> if errors_Is e DeadlineExceeded then Err ErrTimeout else r | _ \<Rightarrow> r, hs))
       (DialPipeAccessImpLevel ctx create info mkfile handles)"

section \<open>Creating server pipes\<close>

record PipeConfig =
  SecurityDescriptor :: gostring
  MessageMode :: bool
  InputBufferSize :: u32
  OutputBufferSize :: u32

text \<open>
  What \<^verbatim>\<open>oa.SecurityDescriptor\<close> points to: nothing, the bytes of a given descriptor, or a
  descriptor made of the default access control list.
\<close>

datatype pipe_descriptor = NoDescriptor | GivenDescriptor bytes | DefaultDescriptor byte u16 nat

record objectAttributes =
  oa_Length :: nat
  ObjectName :: nat
  oa_Attributes :: nat
  oa_SecurityDescriptor :: pipe_descriptor

text \<open>The arguments of \<^verbatim>\<open>ntCreateNamedPipeFile\<close>; the buffer sizes and the handle are apart.\<close>

record pipe_request =
  access :: u32
  attributes :: objectAttributes
  share :: u32
  disposition :: u32
  pipe_type :: u32
  maxInstances :: u32
  inboundQuota :: u32
  outputQuota :: u32
  pipe_timeout :: int

definition GENERIC_READ :: u32 where "GENERIC_READ = 0x80000000"
definition GENERIC_WRITE :: u32 where "GENERIC_WRITE = 0x40000000"
definition SYNCHRONIZE :: u32 where "SYNCHRONIZE = 0x100000"
definition FILE_SHARE_READ :: u32 where "FILE_SHARE_READ = 1"
definition FILE_SHARE_WRITE :: u32 where "FILE_SHARE_WRITE = 2"
definition FILE_OPEN :: u32 where "FILE_OPEN = 1"
definition FILE_CREATE :: u32 where "FILE_CREATE = 2"
definition FILE_PIPE_MESSAGE_TYPE :: u32 where "FILE_PIPE_MESSAGE_TYPE = 1"
definition FILE_PIPE_REJECT_REMOTE_CLIENTS :: u32 where "FILE_PIPE_REJECT_REMOTE_CLIENTS = 2"
definition OBJ_CASE_INSENSITIVE :: nat where "OBJ_CASE_INSENSITIVE = 0x40"
definition SE_DACL_PRESENT :: u16 where "SE_DACL_PRESENT = 4"

text \<open>
  The system as the creation of a pipe uses it: the conversions of the path, the allocation of
  local memory, the default access control list and the creation itself. The first, third and
  fourth return the address of a buffer that the caller has to free.
\<close>

record pipe_system =
  UTF16FromString :: "gostring \<Rightarrow> u16 list res"
  rtlDosPathNameToNtPathName :: "u16 list \<Rightarrow> nat res"
  LocalAlloc :: "u32 \<Rightarrow> nat res"
  rtlDefaultNpAcl :: "nat res"
  ntCreateNamedPipeFile :: "pipe_request \<Rightarrow> nat res"

text \<open>
  The security descriptor of the first pipe and the buffers allocated for it, which the deferred
  \<^verbatim>\<open>LocalFree\<close> calls free when the function returns.
\<close>

definition pipe_security :: "pipe_system \<Rightarrow> bytes option \<Rightarrow> bool \<Rightarrow> (pipe_descriptor \<times> nat list) res" where
  "pipe_security sys sd first =
     (if \<not> first then Ok (NoDescriptor, [])
      else case sd of
          Some b \<Rightarrow>
            bind_res (map_err (ErrWrap ''LocalAlloc'') (LocalAlloc sys (of_nat (length b))))
              (\<lambda>sdb. Ok (GivenDescriptor (take 0xffff b), [sdb]))
        | None \<Rightarrow>
            bind_res (map_err (ErrWrap ''getting default named pipe ACL'') (rtlDefaultNpAcl sys))
              (\<lambda>dacl. Ok (DefaultDescriptor 1 SE_DACL_PRESENT dacl, [dacl])))"

definition pipe_request_of :: "PipeConfig \<Rightarrow> bool \<Rightarrow> nat \<Rightarrow> pipe_descriptor \<Rightarrow> pipe_request" where
  "pipe_request_of c first ntPath sd =
     \<lparr>access = (if first then SYNCHRONIZE else GENERIC_READ OR GENERIC_WRITE OR SYNCHRONIZE),
      attributes = \<lparr>oa_Length = 48, ObjectName = ntPath, oa_Attributes = OBJ_CASE_INSENSITIVE, oa_SecurityDescriptor = sd\<rparr>,
      share = FILE_SHARE_READ OR FILE_SHARE_WRITE,
      disposition = (if first then FILE_CREATE else FILE_OPEN),
      pipe_type = (if MessageMode c then FILE_PIPE_REJECT_REMOTE_CLIENTS OR FILE_PIPE_MESSAGE_TYPE
        else FILE_PIPE_REJECT_REMOTE_CLIENTS),
      maxInstances = 0xffffffff,
      inboundQuota = InputBufferSize c, outputQuota = OutputBufferSize c,
      pipe_timeout = - 50 * 10000\<rparr>"

text \<open>
  \<^verbatim>\<open>makeServerPipeHandle\<close> with the set of allocated buffers.
\<close>

definition makeServerPipeHandle ::
  "pipe_system \<Rightarrow> gostring \<Rightarrow> bytes option \<Rightarrow> PipeConfig \<Rightarrow> bool \<Rightarrow> nat set \<Rightarrow> nat res \<times> nat set" where
  "makeServerPipeHandle sys path sd c first heap =
     (case map_err (ErrWrap ''open'') (UTF16FromString sys path) of
        Err e \<Rightarrow> (Err e, heap)
      | Panic p \<Rightarrow> (Panic p, heap)
      | Ok path16 \<Rightarrow>
          (case map_err (ErrWrap ''open'') (rtlDosPathNameToNtPathName sys path16) of
             Err e \<Rightarrow> (Err e, heap)
           | Panic p \<Rightarrow> (Panic p, heap)
           | Ok ntPath \<Rightarrow>
               let heap = insert ntPath heap in
               (case pipe_security sys sd first of
                  Err e \<Rightarrow> (Err e, heap - {ntPath})
                | Panic p \<Rightarrow> (Panic p, heap - {ntPath})
                | Ok (descr, buffers) \<Rightarrow>
                    let heap = heap \<union> set buffers;
                        r = map_err (ErrWrap ''open'') (ntCreateNamedPipeFile sys (pipe_request_of c first ntPath descr))
                    in (r, heap - set buffers - {ntPath}))))"

definition makeServerPipe ::
  "pipe_system \<Rightarrow> (nat \<Rightarrow> go_error option) \<Rightarrow> gostring \<Rightarrow> PipeConfig \<Rightarrow> nat set \<times> nat set \<Rightarrow> nat res \<times> nat set \<times> nat set" where
  "makeServerPipe sys mkfile path c =
     (\<lambda>(handles, heap).
        case makeServerPipeHandle sys path None c False heap of
          (Ok h, heap) \<Rightarrow>
            (case mkfile h of
               Some e \<Rightarrow> (Err e, (insert h handles) - {h}, heap)
             | None \<Rightarrow> (Ok h, insert h handles, heap))
        | (r, heap) \<Rightarrow> (r, handles, heap))"

section \<open>The listener\<close>

text \<open>
  Where a call of \<^verbatim>\<open>Accept\<close> and of \<^verbatim>\<open>Close\<close> is: in its \<^verbatim>\<open>select\<close>, waiting for
  the response or for \<^verbatim>\<open>doneCh\<close>, or back with its result.
\<close>

datatype accept_pc = AIdle | ASelect | AWait | AGot nat | AErr go_error

datatype close_pc = KIdle | KSelect | KWait | KDone

text \<open>
  Where \<^verbatim>\<open>listenerRoutine\<close> is: \<open>LMake\<close>, \<open>LConnecting\<close> and \<open>LAborting\<close> are inside
  \<^verbatim>\<open>makeConnectedServerPipe\<close> for the request of a goroutine; then the response is sent.
\<close>

datatype listener_pc =
    LSelect
  | LMake nat
  | LConnecting nat nat
  | LAborting nat
  | LRespond nat "go_error + nat"
  | LExit
  | LClosing
  | LFinished

text \<open>Who has a server pipe: nobody yet, the listener, the caller of \<^verbatim>\<open>Accept\<close>, or it is closed.\<close>

datatype pipe_owner = PFree | PListener | PGiven nat | PClosed

text \<open>
  \<open>connected\<close> is the result that the goroutine of \<^verbatim>\<open>connectPipe\<close> offers on its channel, and
  \<open>first_closes\<close> counts the calls of \<^verbatim>\<open>windows.Close\<close> on the first handle.
\<close>

record win32PipeListener =
  routine :: listener_pc
  connected :: "go_error option option"
  accepts :: "nat \<Rightarrow> accept_pc"
  closers :: "nat \<Rightarrow> close_pc"
  pipes :: "nat \<Rightarrow> pipe_owner"
  first_closes :: nat
  doneCh :: bool

definition new_listener :: win32PipeListener where
  "new_listener = \<lparr>routine = LSelect, connected = None, accepts = (\<lambda>_. AIdle), closers = (\<lambda>_. KIdle),
     pipes = (\<lambda>_. PFree), first_closes = 0, doneCh = False\<rparr>"

text \<open>
  \<^verbatim>\<open>ListenPipe\<close>: the configuration may be nil, and \<open>from_string\<close> is
  \<^verbatim>\<open>windows.SecurityDescriptorFromString\<close>. The result is the first handle and the listener,
  whose goroutine is about to start.
\<close>

definition ListenPipe ::
  "pipe_system \<Rightarrow> (gostring \<Rightarrow> bytes res) \<Rightarrow> gostring \<Rightarrow> PipeConfig option \<Rightarrow> nat set \<Rightarrow> (nat \<times> PipeConfig \<times> win32PipeListener) res \<times> nat set" where
  "ListenPipe sys from_string path config heap =
     (let c = (case config of Some c \<Rightarrow> c | None \<Rightarrow> \<lparr>SecurityDescriptor = [], MessageMode = False, InputBufferSize = 0, OutputBufferSize = 0\<rparr>) in
      case (if SecurityDescriptor c \<noteq> [] then bind_res (SddlToSecurityDescriptor from_string (SecurityDescriptor c)) (\<lambda>b. Ok (Some b)) else Ok None) of
        Err e \<Rightarrow> (Err e, heap)
      | Panic p \<Rightarrow> (Panic p, heap)
      | Ok sd \<Rightarrow>
          (case makeServerPipeHandle sys path sd c True heap of
             (Ok h, heap) \<Rightarrow> (Ok (h, c, new_listener), heap)
           | (Err e, heap) \<Rightarrow> (Err e, heap)
           | (Panic p, heap) \<Rightarrow> (Panic p, heap)))"

text \<open>What the routine does with an error: a client that has gone again is another turn.\<close>

definition after_error :: "nat \<Rightarrow> go_error \<Rightarrow> listener_pc" where
  "after_error g e = (if e = ERROR_NO_DATA then LMake g else LRespond g (Inl e))"

definition after_response :: "go_error + nat \<Rightarrow> listener_pc" where
  "after_response r = (if r = Inl ErrPipeListenerClosed then LExit else LSelect)"

definition response :: "go_error + nat \<Rightarrow> accept_pc" where
  "response r = (case r of Inl e \<Rightarrow> AErr e | Inr h \<Rightarrow> AGot h)"

definition hand_over :: "nat \<Rightarrow> go_error + nat \<Rightarrow> (nat \<Rightarrow> pipe_owner) \<Rightarrow> nat \<Rightarrow> pipe_owner" where
  "hand_over g r ps = (case r of Inl _ \<Rightarrow> ps | Inr h \<Rightarrow> ps(h := PGiven g))"

text \<open>
  The steps: new calls of \<^verbatim>\<open>Close\<close>, those of the environment (new calls of \<^verbatim>\<open>Accept\<close>,
  clients that connect), those of the program, and the one that loses a close request: the
  aborted connect reports an error that is neither success nor \<^verbatim>\<open>ErrFileClosed\<close>.
\<close>

datatype label = NewClose | Environment | Program | Lost

inductive listener_step :: "label \<Rightarrow> win32PipeListener \<Rightarrow> win32PipeListener \<Rightarrow> bool" where
  accept_call: "accepts s g = AIdle \<Longrightarrow>
    listener_step Environment s (s\<lparr>accepts := (accepts s)(g := ASelect)\<rparr>)"
| close_call: "closers s c = KIdle \<Longrightarrow>
    listener_step NewClose s (s\<lparr>closers := (closers s)(c := KSelect)\<rparr>)"
| accept_sent: "routine s = LSelect \<Longrightarrow> accepts s g = ASelect \<Longrightarrow>
    listener_step Program s (s\<lparr>routine := LMake g, accepts := (accepts s)(g := AWait)\<rparr>)"
| accept_done: "accepts s g = ASelect \<Longrightarrow> doneCh s \<Longrightarrow>
    listener_step Program s (s\<lparr>accepts := (accepts s)(g := AErr ErrPipeListenerClosed)\<rparr>)"
| close_idle: "routine s = LSelect \<Longrightarrow> closers s c = KSelect \<Longrightarrow>
    listener_step Program s (s\<lparr>routine := LExit, closers := (closers s)(c := KWait)\<rparr>)"
| make_pipe: "routine s = LMake g \<Longrightarrow> pipes s h = PFree \<Longrightarrow>
    listener_step Program s (s\<lparr>routine := LConnecting g h, connected := None, pipes := (pipes s)(h := PListener)\<rparr>)"
| make_failed: "routine s = LMake g \<Longrightarrow> e \<noteq> ErrPipeListenerClosed \<Longrightarrow>
    listener_step Program s (s\<lparr>routine := after_error g e\<rparr>)"
| client: "routine s = LConnecting g h \<Longrightarrow> connected s = None \<Longrightarrow> r \<noteq> Some ErrPipeListenerClosed \<Longrightarrow>
    listener_step Environment s (s\<lparr>connected := Some r\<rparr>)"
| connect_ok: "routine s = LConnecting g h \<Longrightarrow> connected s = Some None \<Longrightarrow>
    listener_step Program s (s\<lparr>routine := LRespond g (Inr h)\<rparr>)"
| connect_failed: "routine s = LConnecting g h \<Longrightarrow> connected s = Some (Some e) \<Longrightarrow>
    listener_step Program s (s\<lparr>routine := after_error g e, pipes := (pipes s)(h := PClosed)\<rparr>)"
| close_connecting: "routine s = LConnecting g h \<Longrightarrow> closers s c = KSelect \<Longrightarrow>
    listener_step Program s (s\<lparr>routine := LAborting g, closers := (closers s)(c := KWait), pipes := (pipes s)(h := PClosed)\<rparr>)"
| aborted: "routine s = LAborting g \<Longrightarrow> connected s = None \<Longrightarrow> r \<noteq> Some ErrPipeListenerClosed \<Longrightarrow>
    listener_step Program s (s\<lparr>connected := Some r\<rparr>)"
| abort_closed: "routine s = LAborting g \<Longrightarrow> connected s = Some r \<Longrightarrow> r = None \<or> r = Some ErrFileClosed \<Longrightarrow>
    listener_step Program s (s\<lparr>routine := LRespond g (Inl ErrPipeListenerClosed)\<rparr>)"
| abort_other: "routine s = LAborting g \<Longrightarrow> connected s = Some (Some e) \<Longrightarrow> e \<noteq> ErrFileClosed \<Longrightarrow>
    listener_step Lost s (s\<lparr>routine := after_error g e\<rparr>)"
| respond: "routine s = LRespond g r \<Longrightarrow>
    listener_step Program s
      (s\<lparr>routine := after_response r, accepts := (accepts s)(g := response r), pipes := hand_over g r (pipes s)\<rparr>)"
| close_first: "routine s = LExit \<Longrightarrow>
    listener_step Program s (s\<lparr>routine := LClosing, first_closes := first_closes s + 1\<rparr>)"
| close_done: "routine s = LClosing \<Longrightarrow>
    listener_step Program s (s\<lparr>routine := LFinished, doneCh := True\<rparr>)"
| close_return: "closers s c = KSelect \<or> closers s c = KWait \<Longrightarrow> doneCh s \<Longrightarrow>
    listener_step Program s (s\<lparr>closers := (closers s)(c := KDone)\<rparr>)"

inductive listener_reach :: "bool \<Rightarrow> win32PipeListener \<Rightarrow> bool" for lossless :: bool where
  start: "listener_reach lossless new_listener"
| step: "listener_reach lossless s \<Longrightarrow> listener_step l s s' \<Longrightarrow> (lossless \<Longrightarrow> l \<noteq> Lost) \<Longrightarrow> listener_reach lossless s'"

end
