(* ===== verification/Pipe_Listener.thy ===== *)
theory Pipe_Listener
  imports Pipe
begin

text \<open>
  What \<^verbatim>\<open>pipe.go\<close> promises: the listener never hands out a handle twice, answers every
  call of \<^verbatim>\<open>Accept\<close> and stops when it is closed (with the schedule in which it does not); a
  message pipe carries a byte stream with an end over any pipe that keeps its messages (the locale
  \<open>message_file\<close>); and dialing waits for a busy pipe and accounts for its handle.
\<close>

section \<open>The listener keeps its promises\<close>

fun serves :: "listener_pc \<Rightarrow> nat option" where
  "serves (LMake g) = Some g"
| "serves (LConnecting g h) = Some g"
| "serves (LAborting g) = Some g"
| "serves (LRespond g r) = Some g"
| "serves _ = None"

fun holds :: "listener_pc \<Rightarrow> nat option" where
  "holds (LConnecting g h) = Some h"
| "holds (LRespond g (Inr h)) = Some h"
| "holds _ = None"

fun closing_phase :: "listener_pc \<Rightarrow> bool" where
  "closing_phase (LAborting g) = True"
| "closing_phase (LRespond g r) = (r = Inl ErrPipeListenerClosed)"
| "closing_phase LExit = True"
| "closing_phase LClosing = True"
| "closing_phase LFinished = True"
| "closing_phase _ = False"

lemma after_simps [simp]:
  "serves (after_error g e) = Some g" "holds (after_error g e) = None"
  "serves (after_response r) = None" "holds (after_response r) = None"
  "after_error g e \<noteq> LClosing" "after_error g e \<noteq> LFinished" "after_error g e \<noteq> LAborting g'"
  "after_response r \<noteq> LClosing" "after_response r \<noteq> LFinished"
  "closing_phase (after_error g e) \<longleftrightarrow> e = ErrPipeListenerClosed"
  "closing_phase (after_response r) \<longleftrightarrow> r = Inl ErrPipeListenerClosed"
  by (auto simp: after_error_def after_response_def ERROR_NO_DATA_def ErrPipeListenerClosed_def)

lemma response_simps [simp]:
  "response r \<noteq> AWait" "response r \<noteq> ASelect" "response r = AGot h \<longleftrightarrow> r = Inr h"
  by (auto simp: response_def split: sum.splits)

lemma holds_respond: "holds (LRespond g r) = Some h \<longleftrightarrow> r = Inr h"
  by (cases r) auto

inductive_cases listener_stepE: "listener_step l s s'"

definition serve_inv :: "win32PipeListener \<Rightarrow> bool" where
  "serve_inv s \<longleftrightarrow> (\<forall>g. accepts s g = AWait \<longleftrightarrow> serves (routine s) = Some g)"

definition first_inv :: "win32PipeListener \<Rightarrow> bool" where
  "first_inv s \<longleftrightarrow>
     first_closes s = (if routine s = LClosing \<or> routine s = LFinished then 1 else 0) \<and>
     (doneCh s \<longleftrightarrow> routine s = LFinished) \<and> (\<forall>c. closers s c = KDone \<longrightarrow> doneCh s)"

definition pipe_inv :: "win32PipeListener \<Rightarrow> bool" where
  "pipe_inv s \<longleftrightarrow>
     (\<forall>h. pipes s h = PListener \<longleftrightarrow> holds (routine s) = Some h) \<and>
     (\<forall>h g. pipes s h = PGiven g \<longleftrightarrow> accepts s g = AGot h)"

lemma serve_step: "listener_step l s s' \<Longrightarrow> serve_inv s \<Longrightarrow> serve_inv s'"
  by (erule listener_step.cases) (auto simp: serve_inv_def, (metis accept_pc.simps)+)

lemma first_step: "listener_step l s s' \<Longrightarrow> first_inv s \<Longrightarrow> first_inv s'"
  by (erule listener_step.cases) (auto simp: first_inv_def)

lemma pipe_step: "listener_step l s s' \<Longrightarrow> pipe_inv s \<Longrightarrow> serve_inv s \<Longrightarrow> pipe_inv s'"
proof (induction rule: listener_step.induct)
  case (respond s g r)
  have g: "accepts s g = AWait" using respond.prems(2) respond.hyps by (simp add: serve_inv_def)
  show ?case
  proof (cases r)
    case (Inl e)
    then show ?thesis using respond g by (auto simp: pipe_inv_def hand_over_def response_def)
  next
    case (Inr h)
    then have h: "pipes s h = PListener" "\<And>k. pipes s k = PListener \<Longrightarrow> k = h"
      using respond.prems(1) respond.hyps by (auto simp: pipe_inv_def)
    have given: "pipes s k = PGiven ga \<longleftrightarrow> accepts s ga = AGot k" for k ga
      using respond.prems(1) by (simp add: pipe_inv_def)
    have "((pipes s)(h := PGiven g)) k \<noteq> PListener" for k using h(2) [of k] by auto
    moreover have "((pipes s)(h := PGiven g)) k = PGiven ga \<longleftrightarrow> ((accepts s)(g := AGot h)) ga = AGot k" for k ga
      using given [of k ga] given [of h ga] g h(1) by auto
    ultimately show ?thesis using Inr by (simp add: pipe_inv_def hand_over_def response_def)
  qed
qed (auto simp: pipe_inv_def serve_inv_def, (metis pipe_owner.distinct)+)

lemma listener_reach_inv: "listener_reach b s \<Longrightarrow> serve_inv s \<and> first_inv s \<and> pipe_inv s"
proof (induction rule: listener_reach.induct)
  case start
  show ?case by (simp add: new_listener_def serve_inv_def first_inv_def pipe_inv_def)
next
  case (step s l s')
  then show ?case using serve_step first_step pipe_step by blast
qed

text \<open>
  C11: However calls of \<^verbatim>\<open>Accept\<close> and \<^verbatim>\<open>Close\<close>, clients and the listener's goroutine
  interleave: the first handle is closed at most once, before \<^verbatim>\<open>doneCh\<close> is closed; exactly the
  call being served waits for a response; a server pipe is with the listener only while it
  connects or is handed over, and a pipe that was handed out belongs to one caller; and no call of
  \<^verbatim>\<open>Close\<close> returns before the handle is closed.
\<close>

theorem pipe_listener_safe:
  assumes "listener_reach b s"
  shows "first_closes s \<le> 1 \<and> (doneCh s \<longrightarrow> first_closes s = 1) \<and> (closers s c = KDone \<longrightarrow> doneCh s) \<and>
    (accepts s g = AWait \<longrightarrow> accepts s g' = AWait \<longrightarrow> g = g') \<and>
    (pipes s h = PListener \<longrightarrow> pipes s h' = PListener \<longrightarrow> h = h') \<and>
    (pipes s h = PListener \<longrightarrow> (\<exists>g. routine s = LConnecting g h \<or> routine s = LRespond g (Inr h))) \<and>
    (accepts s g = AGot h \<longleftrightarrow> pipes s h = PGiven g) \<and> (accepts s g = AGot h \<longrightarrow> accepts s g' = AGot h \<longrightarrow> g = g')"
proof -
  note i = listener_reach_inv [OF assms]
  have "holds p = Some h \<Longrightarrow> \<exists>g. p = LConnecting g h \<or> p = LRespond g (Inr h)" for p
    by (induction p rule: holds.induct) auto
  moreover have "accepts s g = AGot h \<longrightarrow> accepts s g' = AGot h \<longrightarrow> g = g'"
    using i unfolding pipe_inv_def by (metis pipe_owner.inject)
  ultimately show ?thesis using i by (auto simp: serve_inv_def first_inv_def pipe_inv_def)
qed

section \<open>Closing\<close>

definition close_inv :: "win32PipeListener \<Rightarrow> bool" where
  "close_inv s \<longleftrightarrow> (\<forall>c. closers s c = KWait \<longrightarrow> closing_phase (routine s))"

lemma close_step: "listener_step l s s' \<Longrightarrow> l \<noteq> Lost \<Longrightarrow> close_inv s \<Longrightarrow> close_inv s'"
  by (erule listener_step.cases) (auto simp: close_inv_def)

lemma listener_close_inv: "listener_reach True s \<Longrightarrow> close_inv s"
proof (induction rule: listener_reach.induct)
  case start
  show ?case by (simp add: new_listener_def close_inv_def)
next
  case (step s l s')
  then show ?case using close_step by blast
qed

text \<open>The result that an aborted connect may report without the request to close being lost.\<close>

definition abort_ok :: "win32PipeListener \<Rightarrow> bool" where
  "abort_ok s \<longleftrightarrow> (\<forall>g. routine s = LAborting g \<longrightarrow> connected s \<in> {None, Some None, Some (Some ErrFileClosed)})"

definition program_steps :: "nat \<Rightarrow> win32PipeListener \<Rightarrow> win32PipeListener \<Rightarrow> bool" where
  "program_steps n = listener_step Program ^^ n"

lemma program_Suc: "listener_step Program s s' \<Longrightarrow> program_steps n s' s'' \<Longrightarrow> program_steps (Suc n) s s''"
  unfolding program_steps_def by (rule relpowp_Suc_I2)

lemma program_0: "program_steps 0 s s"
  by (simp add: program_steps_def)

lemma finished_returns:
  "doneCh s \<Longrightarrow> closers s c = KWait \<Longrightarrow> \<exists>n s'. n \<le> 1 \<and> program_steps n s s' \<and> closers s' c = KDone"
  using program_Suc [OF close_return program_0, of s c] by (intro exI [of _ 1]) fastforce

lemma closing_returns:
  "routine s = LClosing \<Longrightarrow> closers s c = KWait \<Longrightarrow> \<exists>n s'. n \<le> 2 \<and> program_steps n s s' \<and> closers s' c = KDone"
  using finished_returns [of "s\<lparr>routine := LFinished, doneCh := True\<rparr>" c] close_done [of s] program_Suc
  by simp (metis Suc_le_mono numeral_2_eq_2 One_nat_def)

lemma exit_returns:
  "routine s = LExit \<Longrightarrow> closers s c = KWait \<Longrightarrow> \<exists>n s'. n \<le> 3 \<and> program_steps n s s' \<and> closers s' c = KDone"
  using closing_returns [of "s\<lparr>routine := LClosing, first_closes := first_closes s + 1\<rparr>" c] close_first [of s] program_Suc
  by simp (metis Suc_le_mono numeral_2_eq_2 numeral_3_eq_3)


lemma respond_returns:
  assumes "routine s = LRespond g (Inl ErrPipeListenerClosed)" and "closers s c = KWait"
  shows "\<exists>n s'. n \<le> 4 \<and> program_steps n s s' \<and> closers s' c = KDone"
proof -
  let ?s = "s\<lparr>routine := after_response (Inl ErrPipeListenerClosed), accepts := (accepts s)(g := response (Inl ErrPipeListenerClosed)),
    pipes := hand_over g (Inl ErrPipeListenerClosed) (pipes s)\<rparr>"
  have "routine ?s = LExit" "closers ?s c = KWait" using assms(2) by (simp_all add: after_response_def)
  from exit_returns [OF this] obtain n s' where "n \<le> 3" "program_steps n ?s s'" "closers s' c = KDone" by blast
  then show ?thesis using program_Suc [OF respond [OF assms(1)]] by (intro exI [of _ "Suc n"] exI [of _ s']) simp
qed

lemma abort_returns:
  assumes "routine s = LAborting g" and "connected s = Some r" and "r = None \<or> r = Some ErrFileClosed" and "closers s c = KWait"
  shows "\<exists>n s'. n \<le> 5 \<and> program_steps n s s' \<and> closers s' c = KDone"
proof -
  let ?s = "s\<lparr>routine := LRespond g (Inl ErrPipeListenerClosed)\<rparr>"
  have "routine ?s = LRespond g (Inl ErrPipeListenerClosed)" "closers ?s c = KWait" using assms(4) by simp_all
  from respond_returns [OF this] obtain n s' where "n \<le> 4" "program_steps n ?s s'" "closers s' c = KDone" by blast
  then show ?thesis using program_Suc [OF abort_closed [OF assms(1,2,3)]] by (intro exI [of _ "Suc n"] exI [of _ s']) simp
qed


text \<open>A request to close that is lost: the listener goes on as if nobody had called \<^verbatim>\<open>Close\<close>.\<close>

definition forgotten :: "win32PipeListener \<Rightarrow> bool" where
  "forgotten s \<longleftrightarrow>
     (\<forall>c. closers s c \<noteq> KSelect) \<and> \<not> closing_phase (routine s) \<and> \<not> doneCh s \<and>
     connected s \<noteq> Some (Some ErrPipeListenerClosed)"

lemma forgotten_step: "listener_step l s s' \<Longrightarrow> l \<noteq> NewClose \<Longrightarrow> forgotten s \<Longrightarrow> forgotten s' \<and> closers s' = closers s"
  by (erule listener_step.cases) (auto simp: forgotten_def)

definition later :: "win32PipeListener \<Rightarrow> win32PipeListener \<Rightarrow> bool" where
  "later = (\<lambda>s s'. \<exists>l. l \<noteq> NewClose \<and> listener_step l s s')\<^sup>*\<^sup>*"

lemma forgotten_later: "later s s' \<Longrightarrow> forgotten s \<Longrightarrow> forgotten s' \<and> closers s' = closers s"
  unfolding later_def by (induction rule: rtranclp_induct) (auto dest: forgotten_step)

definition lost_state :: win32PipeListener where
  "lost_state = new_listener\<lparr>routine := LMake 0, connected := Some (Some ERROR_NO_DATA),
     accepts := (\<lambda>_. AIdle)(0 := AWait), closers := (\<lambda>_. KIdle)(0 := KWait), pipes := (\<lambda>_. PFree)(0 := PClosed)\<rparr>"

lemma lost_state_reach: "listener_reach False lost_state"
proof -
  define s1 where "s1 = new_listener\<lparr>accepts := (\<lambda>_. AIdle)(0 := ASelect)\<rparr>"
  define s2 where "s2 = s1\<lparr>routine := LMake 0, accepts := (\<lambda>_. AIdle)(0 := AWait)\<rparr>"
  define s3 where "s3 = s2\<lparr>routine := LConnecting 0 0, connected := None, pipes := (\<lambda>_. PFree)(0 := PListener)\<rparr>"
  define s4 where "s4 = s3\<lparr>connected := Some (Some ERROR_NO_DATA)\<rparr>"
  define s5 where "s5 = s4\<lparr>closers := (\<lambda>_. KIdle)(0 := KSelect)\<rparr>"
  define s6 where "s6 = s5\<lparr>routine := LAborting 0, closers := (\<lambda>_. KIdle)(0 := KWait), pipes := (\<lambda>_. PFree)(0 := PClosed)\<rparr>"
  note defs = s1_def s2_def s3_def s4_def s5_def s6_def new_listener_def lost_state_def
  have "listener_step Environment new_listener s1" "listener_step Program s1 s2" "listener_step Program s2 s3"
    using accept_call [of new_listener 0] accept_sent [of s1 0] make_pipe [of s2 0 0] by (simp_all add: defs)
  moreover have "listener_step Environment s3 s4" "listener_step NewClose s4 s5"
    using client [of s3 0 0 "Some ERROR_NO_DATA"] close_call [of s4 0]
    by (simp_all add: defs ERROR_NO_DATA_def ErrPipeListenerClosed_def)
  moreover have "listener_step Program s5 s6" "listener_step Lost s6 lost_state"
    using close_connecting [of s5 0 0 0] abort_other [of s6 0 ERROR_NO_DATA]
    by (simp_all add: defs ERROR_NO_DATA_def ErrFileClosed_def after_error_def)
  moreover have "listener_reach False s \<Longrightarrow> listener_step l s s' \<Longrightarrow> listener_reach False s'" for l s s'
    by (rule listener_reach.step) simp_all
  ultimately show ?thesis using listener_reach.start [of False] by metis
qed

text \<open>
  C14: A call of \<^verbatim>\<open>Close\<close> can hang for ever. When it comes while a client that has already
  gone is being connected, \<^verbatim>\<open>makeConnectedServerPipe\<close> takes the request, but reports the
  client's error instead of the close, and the listener makes another pipe: unless
  \<^verbatim>\<open>Close\<close> is called once more, \<^verbatim>\<open>doneCh\<close> is never closed and the first call never returns.
\<close>

theorem pipe_close_lost:
  "\<exists>s. listener_reach False s \<and> closers s 0 = KWait \<and> (\<forall>s'. later s s' \<longrightarrow> closers s' 0 = KWait \<and> \<not> doneCh s')"
proof -
  have f: "forgotten lost_state"
    by (simp add: forgotten_def lost_state_def new_listener_def ERROR_NO_DATA_def ErrPipeListenerClosed_def)
  have "closers lost_state 0 = KWait" by (simp add: lost_state_def)
  then show ?thesis
    using lost_state_reach forgotten_later [OF _ f] by (intro exI [of _ lost_state]) (auto simp: forgotten_def)
qed

theorem pipe_close_lost_witness: "\<exists>s. listener_reach False s \<and> closers s 0 = KWait \<and> \<not> doneCh s"
proof -
  obtain s where s: "listener_reach False s" "closers s 0 = KWait" "\<forall>s'. later s s' \<longrightarrow> closers s' 0 = KWait \<and> \<not> doneCh s'"
    using pipe_close_lost by blast
  have "later s s" by (simp add: later_def)
  then show ?thesis using s by blast
qed

theorem pipe_listener_safe_witness:
  "\<exists>s. listener_reach False s \<and> accepts s 0 = AWait \<and> first_closes s \<le> 1 \<and> (accepts s 1 = AWait \<longrightarrow> 0 = (1 :: nat))"
  using pipe_listener_safe [OF lost_state_reach, of 0 0 1 0 0] lost_state_reach
  by (intro exI [of _ lost_state]) (simp add: lost_state_def)

definition close_sample :: win32PipeListener where
  "close_sample = new_listener\<lparr>routine := LExit, closers := (\<lambda>_. KIdle)(0 := KWait)\<rparr>"


section \<open>Byte streams over messages\<close>

text \<open>
  The contract of the file below a message pipe: \<open>queue f\<close> are the messages in it, a write
  appends one, a read returns bytes of the first message (with \<^verbatim>\<open>ERROR_MORE_DATA\<close> when there
  are more) and the end of the file for an empty one.
\<close>

locale message_file =
  fixes fread :: "'f file_read" and fwrite :: "'f writer" and flush :: "'f \<Rightarrow> go_error option \<times> 'f" and queue :: "'f \<Rightarrow> bytes list"
  assumes fwrite: "\<exists>f'. fwrite f b = (length b, None, f') \<and> queue f' = queue f @ [b]"
    and flush: "\<exists>f'. flush f = (None, f') \<and> queue f' = queue f"
    and fread_empty: "queue f = [] # q \<Longrightarrow> 0 < n \<Longrightarrow> \<exists>f'. fread f n = ([], Some EOF, f') \<and> queue f' = q"
    and fread_data: "queue f = m # q \<Longrightarrow> m \<noteq> [] \<Longrightarrow> 0 < n \<Longrightarrow>
      \<exists>f' a b. m = a @ b \<and> a \<noteq> [] \<and> queue f' = (if b = [] then q else b # q) \<and>
        (fread f n = (a, None, f') \<or> b \<noteq> [] \<and> fread f n = (a, Some ERROR_MORE_DATA, f'))"

text \<open>A client that writes a sequence of buffers, and the reader of the other end.\<close>

fun write_buffers :: "'f writer \<Rightarrow> 'f win32MessageBytePipe \<Rightarrow> bytes list \<Rightarrow> 'f win32MessageBytePipe" where
  "write_buffers fwrite p [] = p"
| "write_buffers fwrite p (b # bs) = write_buffers fwrite (snd (snd (mb_Write fwrite p b))) bs"

definition mb_reader :: "'f file_read \<Rightarrow> 'f win32MessageBytePipe reader" where
  "mb_reader fread p n = Ok (mb_Read fread p n)"

context message_file
begin

lemma write_buffers_queue:
  "\<not> writeClosed p \<Longrightarrow>
    queue (mb_file (write_buffers fwrite p bs)) = queue (mb_file p) @ filter (\<lambda>b. b \<noteq> []) bs \<and> \<not> writeClosed (write_buffers fwrite p bs)"
proof (induction bs arbitrary: p)
  case (Cons b bs)
  obtain f' where f': "fwrite (mb_file p) b = (length b, None, f')" "queue f' = queue (mb_file p) @ [b]"
    using fwrite by blast
  then show ?case using Cons.IH [of "p\<lparr>mb_file := f'\<rparr>"] Cons.IH [of p] Cons.prems by (simp add: mb_Write_def)
qed simp

lemma copy_messages:
  assumes "0 < sz"
  shows "queue (mb_file r) = ms @ [] # q \<Longrightarrow> [] \<notin> set ms \<Longrightarrow> \<not> readEOF r \<Longrightarrow>
    \<exists>r'. io_copy (mb_reader fread) sz r acc = Some (Ok (acc @ concat ms, None, r')) \<and> readEOF r'"
proof (induction "length (concat ms)" arbitrary: ms r acc rule: less_induct)
  case less
  show ?case
  proof (cases ms)
    case Nil
    then obtain f' where f': "fread (mb_file r) sz = ([], Some EOF, f')" "queue f' = q"
      using fread_empty [OF _ assms] less.prems(1) by fastforce
    then show ?thesis using less.prems(3) Nil by (subst io_copy.simps) (simp add: mb_reader_def mb_Read_def)
  next
    case (Cons m ms')
    then have qm: "queue (mb_file r) = m # (ms' @ [] # q)" "m \<noteq> []" "[] \<notin> set ms'" using less.prems by auto
    obtain f' a b where f': "m = a @ b" "a \<noteq> []" "queue f' = (if b = [] then ms' @ [] # q else b # ms' @ [] # q)"
      "fread (mb_file r) sz = (a, None, f') \<or> b \<noteq> [] \<and> fread (mb_file r) sz = (a, Some ERROR_MORE_DATA, f')"
      using fread_data [OF qm(1,2) assms] by metis
    define ms2 where "ms2 = (if b = [] then ms' else b # ms')"
    let ?r = "r\<lparr>mb_file := f'\<rparr>"
    have rd: "mb_reader fread r sz = Ok (a, None, ?r)"
      using f'(4) less.prems(3) by (auto simp: mb_reader_def mb_Read_def ERROR_MORE_DATA_def)
    have 2: "queue (mb_file ?r) = ms2 @ [] # q" "[] \<notin> set ms2" "\<not> readEOF ?r" "concat ms = a @ concat ms2"
      using f'(1,3) qm(3) less.prems(3) Cons by (auto simp: ms2_def)
    have "length (concat ms2) < length (concat ms)" using 2(4) f'(2) by simp
    from less.hyps [OF this 2(1,2,3), of "acc @ a"] show ?thesis
      using rd 2(4) by (subst io_copy.simps) simp
  qed
qed

end


text \<open>Messages in memory, read at most two bytes at a time.\<close>

definition queue_read :: "bytes list file_read" where
  "queue_read q n =
     (case q of
        [] \<Rightarrow> ([], Some ERROR_NO_DATA, [])
      | m # ms \<Rightarrow>
          if m = [] then ([], Some EOF, ms)
          else let k = min n 2; a = take k m; b = drop k m in
            (a, if b = [] then None else Some ERROR_MORE_DATA, if b = [] then ms else b # ms))"

definition queue_write :: "bytes list writer" where
  "queue_write q b = (length b, None, q @ [b])"

interpretation mq: message_file queue_read queue_write "\<lambda>q. (None, q)" "\<lambda>q. q"
proof
  fix f q :: "bytes list" and m :: bytes and n :: nat
  show "f = [] # q \<Longrightarrow> \<exists>f'. queue_read f n = ([], Some EOF, f') \<and> f' = q" by (simp add: queue_read_def)
  show "\<exists>f' a b. m = a @ b \<and> a \<noteq> [] \<and> f' = (if b = [] then q else b # q) \<and>
      (queue_read f n = (a, None, f') \<or> b \<noteq> [] \<and> queue_read f n = (a, Some ERROR_MORE_DATA, f'))"
    if "f = m # q" "m \<noteq> []" "0 < n"
    using that by (intro exI [of _ "snd (snd (queue_read f n))"] exI [of _ "take (min n 2) m"] exI [of _ "drop (min n 2) m"])
      (auto simp: queue_read_def Let_def)
qed (simp_all add: queue_write_def)


section \<open>Dialing\<close>

lemma dial_skips_busy:
  "(\<And>j. i \<le> j \<Longrightarrow> j < k \<Longrightarrow> ctx j = None \<and> create j = Err ERROR_PIPE_BUSY) \<Longrightarrow> i \<le> k \<Longrightarrow>
    tryDialPipe ctx create i = tryDialPipe ctx create k"
proof (induction "k - i" arbitrary: i)
  case (Suc n)
  then have "i < k" by simp
  then have "tryDialPipe ctx create i = tryDialPipe ctx create (i + 1)"
    using Suc.prems(1) [of i] by (subst tryDialPipe.simps) simp
  then show ?case using Suc.hyps(1) [of "i + 1"] Suc.hyps(2) Suc.prems by auto
qed simp

lemma dial_timeout:
  assumes "\<And>j. j < k \<Longrightarrow> ctx j = None \<and> create j = Err ERROR_PIPE_BUSY" and "ctx k = Some DeadlineExceeded"
  shows "DialPipe ctx create info mkfile hs = Some (Err ErrTimeout, hs)"
proof -
  have "tryDialPipe ctx create 0 = Some (Err DeadlineExceeded)"
    using dial_skips_busy [of 0 k ctx create] assms by (simp add: tryDialPipe.simps [of ctx create k])
  then show ?thesis by (simp add: DialPipe_def DialPipeAccessImpLevel_def DeadlineExceeded_def)
qed

text \<open>
  Dialing waits while the pipe is busy, then uses the handle that it got: a connection owns
  it, and after an error it is closed again, except when \<^verbatim>\<open>getNamedPipeInfo\<close> fails: then the
  handle stays open although nobody has it.
\<close>

theorem pipe_dial_handles:
  assumes "\<And>j. j < k \<Longrightarrow> ctx j = None \<and> create j = Err ERROR_PIPE_BUSY" and "ctx k = None" and "create k = Ok h"
    and "h \<notin> hs" and "\<not> panics (info h)"
  shows "\<exists>r hs'. DialPipe ctx create info mkfile hs = Some (r, hs') \<and>
    (case r of
       Ok conn \<Rightarrow> hs' = insert h hs \<and> conn \<in> {BytePipe h, MessagePipe h}
     | _ \<Rightarrow> hs' = (if \<exists>e. info h = Err e then insert h hs else hs))"
proof -
  have "tryDialPipe ctx create 0 = Some (Ok h)"
    using dial_skips_busy [of 0 k ctx create] assms(1,2,3) by (simp add: tryDialPipe.simps [of ctx create k])
  then show ?thesis
    using assms(4,5) by (cases "info h"; cases "mkfile h") (simp_all add: DialPipe_def DialPipeAccessImpLevel_def Let_def)
qed

theorem pipe_dial_handles_witness:
  "DialPipe (\<lambda>_. None) (\<lambda>j. if j < 2 then Err ERROR_PIPE_BUSY else Ok 7) (\<lambda>_. Err (Errno 5)) (\<lambda>_. None) {} = Some (Err (Errno 5), {7})"
proof -
  let ?c = "\<lambda>j. if j < (2 :: nat) then Err ERROR_PIPE_BUSY else Ok (7 :: nat)"
  obtain r hs' where *: "DialPipe (\<lambda>_. None) ?c (\<lambda>_. Err (Errno 5)) (\<lambda>_. None) {} = Some (r, hs')"
    "case r of Ok conn \<Rightarrow> hs' = {7} \<and> conn \<in> {BytePipe 7, MessagePipe 7}
     | _ \<Rightarrow> hs' = (if \<exists>e. (Err (Errno 5) :: u32 res) = Err e then {7} else {})"
    using pipe_dial_handles [of 2 "\<lambda>_. None" ?c 7 "{}" "\<lambda>_. Err (Errno 5)" "\<lambda>_. None"] by auto
  have "tryDialPipe (\<lambda>_. None) ?c 0 = Some (Ok 7)"
    using dial_skips_busy [of 0 2 "\<lambda>_. None" ?c] by (simp add: tryDialPipe.simps [of "\<lambda>_. None" ?c 2])
  then have "r = Err (Errno 5)"
    using *(1) by (simp add: DialPipe_def DialPipeAccessImpLevel_def DeadlineExceeded_def)
  then show ?thesis using * by simp
qed

section \<open>Creating the pipe\<close>

text \<open>The addresses of new buffers are not in use.\<close>

definition fresh_buffers :: "pipe_system \<Rightarrow> nat set \<Rightarrow> bool" where
  "fresh_buffers sys heap \<longleftrightarrow>
     (\<forall>p a. rtlDosPathNameToNtPathName sys p = Ok a \<longrightarrow> a \<notin> heap) \<and>
     (\<forall>n a. LocalAlloc sys n = Ok a \<longrightarrow> a \<notin> heap) \<and>
     (\<forall>a. rtlDefaultNpAcl sys = Ok a \<longrightarrow> a \<notin> heap)"

lemma pipe_security_fresh:
  "fresh_buffers sys heap \<Longrightarrow> pipe_security sys sd first = Ok (d, bs) \<Longrightarrow> set bs \<inter> heap = {}"
  by (auto simp: pipe_security_def fresh_buffers_def bind_res_Ok_iff map_err_def split: if_splits option.splits res.splits)

lemma makeServerPipeHandle_heap:
  assumes fresh: "fresh_buffers sys heap"
  shows "snd (makeServerPipeHandle sys path sd c first heap) = heap"
proof -
  have "a \<notin> heap" if "rtlDosPathNameToNtPathName sys p = Ok a" for p a
    using fresh that by (auto simp: fresh_buffers_def)
  moreover have "x \<notin> set bs" if "pipe_security sys sd first = Ok (d, bs)" "x \<in> heap" for x d bs
    using pipe_security_fresh [OF fresh that(1)] that(2) by blast
  ultimately show ?thesis
    by (auto simp: makeServerPipeHandle_def Let_def map_err_def split: res.split)
qed

lemma makeServerPipeHandle_Ok:
  assumes "fst (makeServerPipeHandle sys path sd c first heap) = Ok h"
  obtains nt d bs where "pipe_security sys sd first = Ok (d, bs)"
    and "ntCreateNamedPipeFile sys (pipe_request_of c first nt d) = Ok h"
  using assms by (auto simp: makeServerPipeHandle_def Let_def map_err_def split: res.splits)

lemma ListenPipe_heap: "fresh_buffers sys heap \<Longrightarrow> snd (ListenPipe sys from_string path config heap) = heap"
  using makeServerPipeHandle_heap [of sys heap path]
  by (auto simp: ListenPipe_def Let_def split: res.split prod.split) (metis snd_conv)+

text \<open>
  \<^verbatim>\<open>ListenPipe\<close> and \<^verbatim>\<open>makeServerPipe\<close> free every buffer that they allocate, on every
  path, and a failed \<^verbatim>\<open>makeServerPipe\<close> leaves no handle open. The listener's first handle is
  created exclusively, without read or write access, and carries the security descriptor (the
  default one when the configuration has none); remote clients are rejected.
\<close>

theorem pipe_creation:
  assumes "fresh_buffers sys heap" and "\<And>r h. ntCreateNamedPipeFile sys r = Ok h \<Longrightarrow> h \<notin> handles"
  shows "snd (ListenPipe sys from_string path config heap) = heap \<and>
    (\<forall>h c l. fst (ListenPipe sys from_string path config heap) = Ok (h, c, l) \<longrightarrow>
      l = new_listener \<and>
      (\<exists>nt d. ntCreateNamedPipeFile sys (pipe_request_of c True nt d) = Ok h \<and>
        (if SecurityDescriptor c = [] then \<exists>dacl. d = DefaultDescriptor 1 SE_DACL_PRESENT dacl
         else \<exists>b. from_string (SecurityDescriptor c) = Ok b \<and> d = GivenDescriptor (take 0xffff b)))) \<and>
    (case makeServerPipe sys mkfile path c (handles, heap) of
       (Ok h, hs, heap') \<Rightarrow> hs = insert h handles \<and> heap' = heap \<and>
         (\<exists>nt. ntCreateNamedPipeFile sys (pipe_request_of c False nt NoDescriptor) = Ok h)
     | (_, hs, heap') \<Rightarrow> hs = handles \<and> heap' = heap)"
proof (intro conjI allI impI)
  show "snd (ListenPipe sys from_string path config heap) = heap" by (rule ListenPipe_heap [OF assms(1)])
next
  fix h c l assume *: "fst (ListenPipe sys from_string path config heap) = Ok (h, c, l)"
  then show "l = new_listener" by (auto simp: ListenPipe_def Let_def split: res.splits prod.splits)
  obtain sd where sd: "if SecurityDescriptor c = [] then sd = None else \<exists>b. from_string (SecurityDescriptor c) = Ok b \<and> sd = Some b"
    and h: "fst (makeServerPipeHandle sys path sd c True heap) = Ok h"
    using * by (auto simp: ListenPipe_def SddlToSecurityDescriptor_def bind_res_Ok_iff map_err_def Let_def split: res.splits prod.splits if_splits)
  obtain nt d bs where "pipe_security sys sd True = Ok (d, bs)" and nt: "ntCreateNamedPipeFile sys (pipe_request_of c True nt d) = Ok h"
    by (rule makeServerPipeHandle_Ok [OF h])
  then have "if SecurityDescriptor c = [] then \<exists>dacl. d = DefaultDescriptor 1 SE_DACL_PRESENT dacl
         else \<exists>b. from_string (SecurityDescriptor c) = Ok b \<and> d = GivenDescriptor (take 0xffff b)"
    using sd by (auto simp: pipe_security_def bind_res_Ok_iff split: if_splits)
  with nt show "\<exists>nt d. ntCreateNamedPipeFile sys (pipe_request_of c True nt d) = Ok h \<and>
        (if SecurityDescriptor c = [] then \<exists>dacl. d = DefaultDescriptor 1 SE_DACL_PRESENT dacl
         else \<exists>b. from_string (SecurityDescriptor c) = Ok b \<and> d = GivenDescriptor (take 0xffff b))" by blast
next
  obtain r heap' where m: "makeServerPipeHandle sys path None c False heap = (r, heap')" by (cases "makeServerPipeHandle sys path None c False heap")
  have "heap' = heap" using makeServerPipeHandle_heap [OF assms(1), of path None c False] m by simp
  moreover have "h \<notin> handles \<and> (\<exists>nt. ntCreateNamedPipeFile sys (pipe_request_of c False nt NoDescriptor) = Ok h)" if res: "r = Ok h" for h
  proof -
    obtain nt d bs where "pipe_security sys None False = Ok (d, bs)"
      and *: "ntCreateNamedPipeFile sys (pipe_request_of c False nt d) = Ok h"
      by (rule makeServerPipeHandle_Ok [of sys path None c False heap h]) (simp add: m res)
    then have "d = NoDescriptor" by (simp add: pipe_security_def)
    with * show ?thesis using assms(2) by blast
  qed
  ultimately show "case makeServerPipe sys mkfile path c (handles, heap) of
       (Ok h, hs, heap') \<Rightarrow> hs = insert h handles \<and> heap' = heap \<and>
         (\<exists>nt. ntCreateNamedPipeFile sys (pipe_request_of c False nt NoDescriptor) = Ok h)
     | (_, hs, heap') \<Rightarrow> hs = handles \<and> heap' = heap"
    using m by (auto simp: makeServerPipe_def split: res.split option.split)
qed

text \<open>A system with one pipe and buffers at fixed addresses.\<close>

definition sample_system :: pipe_system where
  "sample_system = \<lparr>UTF16FromString = (\<lambda>s. Ok (map ucast s)), rtlDosPathNameToNtPathName = (\<lambda>_. Ok 10),
     LocalAlloc = (\<lambda>_. Ok 11), rtlDefaultNpAcl = Ok 12, ntCreateNamedPipeFile = (\<lambda>_. Ok 5)\<rparr>"

theorem pipe_creation_witness:
  "fst (ListenPipe sample_system (\<lambda>_. Ok [1, 2]) [65] None {}) =
     Ok (5, \<lparr>SecurityDescriptor = [], MessageMode = False, InputBufferSize = 0, OutputBufferSize = 0\<rparr>, new_listener) \<and>
   snd (ListenPipe sample_system (\<lambda>_. Ok [1, 2]) [65] None {}) = {}"
proof
  show "snd (ListenPipe sample_system (\<lambda>_. Ok [1, 2]) [65] None {}) = {}"
    using pipe_creation [of sample_system "{}" "{}" "\<lambda>_. Ok [1, 2]" "[65]" None undefined "\<lambda>_. None"]
    by (simp add: fresh_buffers_def)
  show "fst (ListenPipe sample_system (\<lambda>_. Ok [1, 2]) [65] None {}) =
     Ok (5, \<lparr>SecurityDescriptor = [], MessageMode = False, InputBufferSize = 0, OutputBufferSize = 0\<rparr>, new_listener)"
    by (simp add: ListenPipe_def makeServerPipeHandle_def pipe_security_def sample_system_def map_err_def Let_def)
qed

end
