(* ===== verification/Wstring.thy ===== *)
theory Wstring
  imports Go_Utf
begin

text \<open>
  Wide string buffers (\<^verbatim>\<open>src/internal/stringbuffer/wstring.go\<close>): UTF-16 buffers for system
  calls that come from a shared pool and go back to it. Buffers are addresses of an explicit store,
  so that sharing is visible; the theorems are that no buffer ever has two owners, and that
  \<^verbatim>\<open>ResizeTo\<close> gives the capacity that was asked for, whatever the wrap-around of its
  32-bit arithmetic, and keeps the contents.
\<close>

section \<open>Buffers and their pool\<close>

definition MinWStringCap :: u32 where "MinWStringCap = 310"

text \<open>
  \<open>store\<close> holds the buffers (a slice's length is its capacity here), \<open>fresh\<close> is the next
  address, \<open>pathPool\<close> the pool and \<open>wbuf w\<close> the field \<^verbatim>\<open>b\<close> of the
  \<^verbatim>\<open>WString\<close> object \<open>w\<close>, \<open>None\<close> for nil.
\<close>

record buffers =
  store :: "nat \<Rightarrow> u16 list"
  fresh :: nat
  pathPool :: "nat list"
  wbuf :: "nat \<Rightarrow> nat option"

definition no_buffers :: buffers where
  "no_buffers = \<lparr>store = (\<lambda>_. []), fresh = 0, pathPool = [], wbuf = (\<lambda>_. None)\<rparr>"

definition make_buffer :: "nat \<Rightarrow> buffers \<Rightarrow> nat \<times> buffers" where
  "make_buffer n s = (fresh s, s\<lparr>store := (store s)(fresh s := replicate n 0), fresh := fresh s + 1\<rparr>)"

text \<open>
  \<^verbatim>\<open>sync.Pool\<close> returns any of its elements, or a new one: \<open>i\<close> is its choice.
\<close>

definition newBuffer :: "nat \<Rightarrow> buffers \<Rightarrow> nat \<times> buffers" where
  "newBuffer i s =
     (if i < length (pathPool s) then
        (pathPool s ! i, s\<lparr>pathPool := take i (pathPool s) @ drop (i + 1) (pathPool s)\<rparr>)
      else make_buffer (unat MinWStringCap) s)"

definition freeBuffer :: "nat \<Rightarrow> buffers \<Rightarrow> buffers" where
  "freeBuffer b s = s\<lparr>pathPool := pathPool s @ [b]\<rparr>"

section \<open>Operations\<close>

definition wcap :: "nat \<Rightarrow> buffers \<Rightarrow> u32" where
  "wcap w s = (case wbuf s w of None \<Rightarrow> 0 | Some b \<Rightarrow> of_nat (length (store s b)))"

definition wempty :: "nat \<Rightarrow> buffers \<Rightarrow> bool" where
  "wempty w s \<longleftrightarrow> wcap w s = 0"

definition Cap :: "nat \<Rightarrow> buffers \<Rightarrow> u32" where
  "Cap w s = (if wempty w s then 0 else wcap w s)"

definition NewWString :: "nat \<Rightarrow> nat \<Rightarrow> buffers \<Rightarrow> buffers" where
  "NewWString i w s = (case newBuffer i s of (b, s) \<Rightarrow> s\<lparr>wbuf := (wbuf s)(w := Some b)\<rparr>)"

definition Free :: "nat \<Rightarrow> buffers \<Rightarrow> buffers" where
  "Free w s =
     (if wempty w s then s
      else let s = freeBuffer (the (wbuf s w)) s in s\<lparr>wbuf := (wbuf s)(w := None)\<rparr>)"

text \<open>The capacity that \<^verbatim>\<open>ResizeTo\<close> allocates instead of \<open>k\<close>, with the arithmetic at 32 bits.\<close>

definition resized :: "u32 \<Rightarrow> u32 \<Rightarrow> u32" where
  "resized k c =
     (let c = (if c \<le> MinWStringCap then MinWStringCap else c) in if c \<le> 2 * k then 2 * k else c)"

definition ResizeTo :: "nat \<Rightarrow> u32 \<Rightarrow> buffers \<Rightarrow> u32 \<times> buffers" where
  "ResizeTo w c s =
     (if c \<le> Cap w s then (Cap w s, s)
      else
        let c = resized (Cap w s) c;
            (b2, s1) = make_buffer (unat c) s;
            s2 = (if wempty w s then s1
                  else let old = store s (the (wbuf s w)) in
                    freeBuffer (the (wbuf s w))
                      (s1\<lparr>store := (store s1)(b2 := take (unat c) old @ drop (length old) (store s1 b2))\<rparr>))
        in (c, s2\<lparr>wbuf := (wbuf s2)(w := Some b2)\<rparr>))"

definition Buffer :: "nat \<Rightarrow> buffers \<Rightarrow> u16 list" where
  "Buffer w s = (if wempty w s then [] else store s (the (wbuf s w)))"

text \<open>The part of a buffer before its first NUL, and the string it holds.\<close>

definition until_NUL :: "u16 list \<Rightarrow> u16 list" where
  "until_NUL b = takeWhile (\<lambda>v. v \<noteq> 0) b"

definition WString_String :: "nat \<Rightarrow> buffers \<Rightarrow> gostring" where
  "WString_String w s =
     string_of_runes (utf16_Decode (until_NUL (case wbuf s w of None \<Rightarrow> [] | Some b \<Rightarrow> store s b)))"

text \<open>A system call writes \<open>xs\<close> to the start of the buffer that \<^verbatim>\<open>Pointer\<close> points to.\<close>

definition poke :: "nat \<Rightarrow> u16 list \<Rightarrow> buffers \<Rightarrow> buffers" where
  "poke w xs s =
     (case wbuf s w of
        None \<Rightarrow> s
      | Some b \<Rightarrow> s\<lparr>store := (store s)(b := take (length (store s b)) xs @ drop (length xs) (store s b))\<rparr>)"

section \<open>Ownership\<close>

definition owned :: "buffers \<Rightarrow> nat set" where
  "owned s = {b. \<exists>w. wbuf s w = Some b}"

definition good_length :: "u16 list \<Rightarrow> bool" where
  "good_length b \<longleftrightarrow> 310 \<le> length b \<and> length b < 2 ^ 32"

definition buffers_inv :: "buffers \<Rightarrow> bool" where
  "buffers_inv s \<longleftrightarrow>
     distinct (pathPool s) \<and> set (pathPool s) \<inter> owned s = {} \<and>
     (\<forall>w v b. wbuf s w = Some b \<longrightarrow> wbuf s v = Some b \<longrightarrow> w = v) \<and>
     (\<forall>b \<in> set (pathPool s). b < fresh s \<and> good_length (store s b)) \<and>
     (\<forall>w b. wbuf s w = Some b \<longrightarrow> b < fresh s \<and> good_length (store s b))"

lemma wbuf_owned: "wbuf s w = Some b \<Longrightarrow> b \<in> owned s"
  by (auto simp: owned_def)

lemma owned_update: "owned (s\<lparr>wbuf := (wbuf s)(w := Some b)\<rparr>) = insert b {c. \<exists>v. v \<noteq> w \<and> wbuf s v = Some c}"
  by (auto simp: owned_def)

text \<open>The steps of the users of the pool, which may also drop its elements.\<close>

inductive buffer_step :: "buffers \<Rightarrow> buffers \<Rightarrow> bool" where
  create: "wbuf s w = None \<Longrightarrow> buffer_step s (NewWString i w s)"
| release: "buffer_step s (Free w s)"
| resize: "buffer_step s (snd (ResizeTo w c s))"
| syscall: "buffer_step s (poke w xs s)"
| collect: "buffer_step s (s\<lparr>pathPool := filter P (pathPool s)\<rparr>)"

lemma inv_length:
  assumes "buffers_inv s" and "wbuf s w = Some b"
  shows "310 \<le> length (store s b)" "length (store s b) < 2 ^ 32" "b < fresh s"
  using assms wbuf_owned [OF assms(2)] by (auto simp: buffers_inv_def good_length_def)

lemma unat_wcap:
  assumes "buffers_inv s" and "wbuf s w = Some b"
  shows "unat (wcap w s) = length (store s b)"
  using inv_length(2) [OF assms] assms(2) by (simp add: wcap_def unat_of_nat_eq_iff)

lemma wempty_iff: "buffers_inv s \<Longrightarrow> wempty w s \<longleftrightarrow> wbuf s w = None"
  using unat_wcap [of s w] inv_length(1) [of s w]
  by (cases "wbuf s w") (auto simp: wempty_def wcap_def unat_eq_0)

lemma Cap_eq: "buffers_inv s \<Longrightarrow> Cap w s = wcap w s"
  by (simp add: Cap_def wempty_def)

lemma unat_u32_less: "unat (k :: u32) < 2 ^ 32"
  by (rule order_less_le_trans [OF unsigned_less]) simp

lemma resized_ge: "c \<le> resized k c" "MinWStringCap \<le> resized k c"
  by (auto simp: resized_def Let_def)

lemma resized_above: "k < c \<Longrightarrow> unat k < unat (resized k c)"
  using resized_ge(1) [of c k] by (meson less_le_trans word_less_nat_alt)

text \<open>Doubling that wraps around is not chosen.\<close>

lemma resized_no_wrap:
  assumes "k < c" and "c \<noteq> resized k c" and "MinWStringCap < c"
  shows "unat (resized k c) = 2 * unat k"
proof -
  have r: "resized k c = 2 * k" "c \<le> 2 * k" using assms by (auto simp: resized_def Let_def split: if_splits)
  have u: "unat (2 * k) = (2 * unat k) mod 2 ^ 32" using unat_word_ariths(2) [of 2 k] by simp
  have "2 * unat k < 2 ^ 32"
  proof (rule ccontr)
    assume *: "\<not> ?thesis"
    have k: "unat k < 2 ^ 32" by (rule unat_u32_less)
    with * have "unat (2 * k) = 2 * unat k - 2 ^ 32" unfolding u by (simp add: le_mod_geq)
    then have "unat (2 * k) \<le> unat k" using k by linarith
    with assms(1) r(2) show False unfolding word_less_nat_alt word_le_nat_alt by linarith
  qed
  then show ?thesis unfolding r(1) u by simp
qed

lemma ResizeTo_eq:
  assumes i: "buffers_inv s"
  shows "ResizeTo w c s =
    (if c \<le> wcap w s then (wcap w s, s)
     else let r = resized (wcap w s) c;
            new = (case wbuf s w of None \<Rightarrow> [] | Some b \<Rightarrow> store s b) @
                  replicate (unat r - unat (wcap w s)) 0
          in (r, s\<lparr>store := (store s)(fresh s := new), fresh := fresh s + 1,
               pathPool := pathPool s @ (case wbuf s w of None \<Rightarrow> [] | Some b \<Rightarrow> [b]),
               wbuf := (wbuf s)(w := Some (fresh s))\<rparr>))"
proof (cases "c \<le> wcap w s")
  case True
  then show ?thesis using i by (simp add: ResizeTo_def Cap_eq)
next
  case False
  then have r: "unat (wcap w s) < unat (resized (wcap w s) c)" using resized_above [of "wcap w s" c] by simp
  show ?thesis
  proof (cases "wbuf s w")
    case None
    with False i show ?thesis
      by (simp add: ResizeTo_def Cap_eq wempty_iff make_buffer_def Let_def wcap_def)
  next
    case (Some b)
    then show ?thesis
      using False i r unat_wcap [OF i Some]
      by (simp add: ResizeTo_def Cap_eq wempty_iff make_buffer_def freeBuffer_def Let_def)
  qed
qed

lemma inv_ResizeTo:
  assumes i: "buffers_inv s"
  shows "buffers_inv (snd (ResizeTo w c s))"
proof (cases "c \<le> wcap w s")
  case True
  then show ?thesis using i by (simp add: ResizeTo_eq)
next
  case False
  let ?r = "resized (wcap w s) c"
  let ?old = "case wbuf s w of None \<Rightarrow> [] | Some b \<Rightarrow> store s b"
  let ?new = "?old @ replicate (unat ?r - unat (wcap w s)) 0"
  have "length ?old = unat (wcap w s)" using unat_wcap [OF i, of w] by (cases "wbuf s w") (simp_all add: wcap_def)
  moreover have "unat (wcap w s) < unat ?r" using False by (intro resized_above) simp
  moreover have "310 \<le> unat ?r" using resized_ge(2) [of "wcap w s" c] by (simp add: word_le_nat_alt MinWStringCap_def)
  moreover have "unat ?r < 2 ^ 32" by (rule unat_u32_less)
  ultimately have new: "good_length ?new" by (simp add: good_length_def)
  show ?thesis
    using i False new unfolding ResizeTo_eq [OF i] buffers_inv_def Let_def owned_def
    by (cases "wbuf s w") (auto intro!: less_SucI)
qed

lemma inv_take:
  assumes "buffers_inv s" and "wbuf s w = None" and "pathPool s = xs @ b # ys"
  shows "buffers_inv (s\<lparr>pathPool := xs @ ys, wbuf := (wbuf s)(w := Some b)\<rparr>)"
  using assms unfolding buffers_inv_def owned_def by auto

lemma inv_NewWString:
  assumes "buffers_inv s" and "wbuf s w = None"
  shows "buffers_inv (NewWString i w s)"
proof (cases "i < length (pathPool s)")
  case True
  then show ?thesis
    using inv_take [OF assms, of "take i (pathPool s)" "pathPool s ! i" "drop (i + 1) (pathPool s)"]
      id_take_nth_drop [OF True]
    by (simp add: NewWString_def newBuffer_def)
next
  case False
  then show ?thesis
    using assms unfolding NewWString_def newBuffer_def make_buffer_def buffers_inv_def owned_def
    by (auto simp: good_length_def MinWStringCap_def intro!: less_SucI)
qed

lemma inv_Free: "buffers_inv s \<Longrightarrow> buffers_inv (Free w s)"
  by (cases "wbuf s w") (auto simp: Free_def wempty_iff freeBuffer_def buffers_inv_def owned_def Let_def)

lemma length_overwrite [simp]: "length (take (length b) xs @ drop (length xs) b) = length b"
  by simp

lemma inv_poke: "buffers_inv s \<Longrightarrow> buffers_inv (poke w xs s)"
  by (cases "wbuf s w") (auto simp del: length_append simp: poke_def buffers_inv_def owned_def good_length_def)

lemma inv_collect: "buffers_inv s \<Longrightarrow> buffers_inv (s\<lparr>pathPool := filter P (pathPool s)\<rparr>)"
  by (auto simp: buffers_inv_def owned_def)

inductive buffers_reach :: "buffers \<Rightarrow> bool" where
  none: "buffers_reach no_buffers"
| more: "buffers_reach s \<Longrightarrow> buffer_step s s' \<Longrightarrow> buffers_reach s'"

lemma reach_inv: "buffers_reach s \<Longrightarrow> buffers_inv s"
proof (induction rule: buffers_reach.induct)
  case none
  show ?case by (simp add: no_buffers_def buffers_inv_def owned_def)
next
  case (more s s')
  from more(2,3) show ?case
    by (cases rule: buffer_step.cases)
      (simp_all add: inv_NewWString inv_Free inv_ResizeTo inv_poke inv_collect)
qed

text \<open>
  C20: However strings are created, resized, written to and freed, and whatever the pool hands out
  or drops, no buffer has two owners: two strings never share one, and a buffer in the pool belongs
  to no string. Every string that is not freed has a capacity of at least \<^verbatim>\<open>MinWStringCap\<close>.
\<close>

theorem wstring_ownership:
  assumes "buffers_reach s" and "wbuf s w = Some b"
  shows "b \<notin> set (pathPool s) \<and> (\<forall>v. v \<noteq> w \<longrightarrow> wbuf s v \<noteq> Some b) \<and> distinct (pathPool s) \<and> MinWStringCap \<le> Cap w s"
proof -
  have i: "buffers_inv s" by (rule reach_inv [OF assms(1)])
  have "MinWStringCap \<le> Cap w s"
    using inv_length(1) [OF i assms(2)] unat_wcap [OF i assms(2)] by (simp add: Cap_eq [OF i] word_le_nat_alt MinWStringCap_def)
  then show ?thesis using i assms(2) by (auto simp: buffers_inv_def owned_def)
qed

text \<open>A new string, as the pool is empty.\<close>

definition sample_string :: buffers where "sample_string = NewWString 0 3 no_buffers"

lemma sample_string_reach: "buffers_reach sample_string"
  unfolding sample_string_def
  by (rule more [OF none], rule create) (simp add: no_buffers_def)

lemma sample_string_buffer: "wbuf sample_string 3 = Some 0"
  by (simp add: sample_string_def NewWString_def newBuffer_def make_buffer_def no_buffers_def)

theorem wstring_ownership_witness: "0 \<notin> set (pathPool sample_string) \<and> MinWStringCap \<le> Cap 3 sample_string"
  using wstring_ownership [OF sample_string_reach sample_string_buffer] by simp

lemma resize_facts:
  assumes i: "buffers_inv s" and res: "ResizeTo w c s = (r, s')"
  shows "c \<le> r \<and> Cap w s \<le> r \<and> Cap w s' = r \<and>
    (Cap w s < c \<longrightarrow> 2 * unat (Cap w s) < 2 ^ 32 \<longrightarrow> 2 * unat (Cap w s) \<le> unat r) \<and>
    take (length (Buffer w s)) (Buffer w s') = Buffer w s \<and>
    (\<forall>v. v \<noteq> w \<longrightarrow> Buffer v s' = Buffer v s)"
proof -
  have i': "buffers_inv s'" using inv_ResizeTo [OF i, of w c] assms(2) by simp
  show ?thesis
  proof (cases "c \<le> wcap w s")
    case True
    then have "s' = s" "r = wcap w s" using assms(2) unfolding ResizeTo_eq [OF i] by auto
    with True show ?thesis by (simp add: Cap_eq [OF i] not_less [symmetric])
  next
    case False
    let ?k = "wcap w s" and ?r = "resized (wcap w s) c"
    let ?old = "case wbuf s w of None \<Rightarrow> [] | Some b \<Rightarrow> store s b"
    have r: "r = ?r"
      and s': "s' = s\<lparr>store := (store s)(fresh s := ?old @ replicate (unat ?r - unat ?k) 0), fresh := fresh s + 1,
               pathPool := pathPool s @ (case wbuf s w of None \<Rightarrow> [] | Some b \<Rightarrow> [b]),
               wbuf := (wbuf s)(w := Some (fresh s))\<rparr>"
      using assms(2) False unfolding ResizeTo_eq [OF i] Let_def by auto
    have old: "length ?old = unat ?k" "Buffer w s = ?old"
      using unat_wcap [OF i, of w] by (cases "wbuf s w"; simp add: wcap_def Buffer_def wempty_iff [OF i])+
    have lt: "unat ?k < unat ?r" using False by (intro resized_above) simp
    have new: "Buffer w s' = ?old @ replicate (unat ?r - unat ?k) 0"
      using wempty_iff [OF i', of w] by (simp add: Buffer_def) (simp add: s')
    have "unat (wcap w s') = unat ?r"
      using unat_wcap [OF i', of w "fresh s"] old(1) lt by (simp add: s')
    then have "Cap w s' = r" by (simp add: Cap_eq [OF i'] r word_unat_eq_iff)
    moreover have "2 * ?k \<le> ?r" by (auto simp: resized_def Let_def)
    then have "2 * unat ?k \<le> unat r" if "2 * unat ?k < 2 ^ 32"
      using that unat_word_ariths(2) [of 2 ?k] by (simp add: r word_le_nat_alt)
    moreover have "Buffer v s' = Buffer v s" if "v \<noteq> w" for v
    proof (cases "wbuf s v")
      case None
      then show ?thesis using that wempty_iff [OF i', of v] wempty_iff [OF i, of v] by (simp add: Buffer_def s')
    next
      case (Some b)
      then show ?thesis
        using that wempty_iff [OF i', of v] wempty_iff [OF i, of v] inv_length(3) [OF i Some] by (simp add: Buffer_def s')
    qed
    ultimately show ?thesis
      using resized_ge(1) [of c ?k] lt old new by (simp add: r Cap_eq [OF i] word_le_nat_alt)
  qed
qed



end
