(* ===== verification/Resolve_Path.thy ===== *)
theory Resolve_Path
  imports Wstring Go_Strconv
begin

text \<open>
  Final path names: \<^verbatim>\<open>GetFinalPathNameByHandle\<close> of \<^verbatim>\<open>src/internal/fs/fs.go\<close>, which
  grows its buffer until the system call is satisfied, and \<^verbatim>\<open>ResolvePath\<close> of
  \<^verbatim>\<open>src/pkg/fs/resolve.go\<close>, which tries several forms of the name. The system calls are
  parameters. The loop over the buffer returns whatever the system answers, and the four
  turns of the other loop are never used up.
\<close>

definition failed_with :: "'a res \<Rightarrow> go_error \<Rightarrow> bool" where
  "failed_with r t \<longleftrightarrow> (case r of Err e \<Rightarrow> errors_Is e t | _ \<Rightarrow> False)"

definition ERROR_PATH_NOT_FOUND :: go_error where "ERROR_PATH_NOT_FOUND = Errno 3"
definition ERROR_ACCESS_DENIED :: go_error where "ERROR_ACCESS_DENIED = Errno 5"

section \<open>GetFinalPathNameByHandle\<close>

definition FILE_NAME_NORMALIZED :: u32 where "FILE_NAME_NORMALIZED = 0"
definition FILE_NAME_OPENED :: u32 where "FILE_NAME_OPENED = 8"
definition VOLUME_NAME_DOS :: u32 where "VOLUME_NAME_DOS = 0"
definition VOLUME_NAME_GUID :: u32 where "VOLUME_NAME_GUID = 1"

text \<open>
  The system call at the \<open>i\<close>-th turn, with the handle, the capacity of the buffer and the flags:
  an error, or a number and what was written to the buffer.
\<close>

type_synonym final_path_call = "nat \<Rightarrow> nat \<Rightarrow> u32 \<Rightarrow> u32 \<Rightarrow> (u32 \<times> u16 list) res"

partial_function (option) final_path_loop ::
  "final_path_call \<Rightarrow> nat \<Rightarrow> u32 \<Rightarrow> nat \<Rightarrow> nat \<Rightarrow> buffers \<Rightarrow> (gostring res \<times> buffers) option" where
  "final_path_loop call h flags w i s =
     (case call i h (Cap w s) flags of
        Err e \<Rightarrow> Some (Err e, s)
      | Panic p \<Rightarrow> Some (Panic p, s)
      | Ok (n, xs) \<Rightarrow>
          let s = poke w xs s in
          if n > Cap w s then final_path_loop call h flags w (i + 1) (snd (ResizeTo w n s))
          else Some (Ok (WString_String w s), s))"

text \<open>\<open>w\<close> is the new string object and \<open>pick\<close> the choice of the pool.\<close>

definition GetFinalPathNameByHandle ::
  "final_path_call \<Rightarrow> nat \<Rightarrow> nat \<Rightarrow> u32 \<Rightarrow> nat \<Rightarrow> buffers \<Rightarrow> (gostring res \<times> buffers) option" where
  "GetFinalPathNameByHandle call pick h flags w s = final_path_loop call h flags w 0 (NewWString pick w s)"

section \<open>ResolvePath\<close>

definition openMetadata :: "(gostring \<Rightarrow> nat res) \<Rightarrow> gostring \<Rightarrow> nat res" where
  "openMetadata create path = map_err (ErrWrap ''CreateFile'') (create path)"

definition query_flags :: "bool \<Rightarrow> bool \<Rightarrow> u32" where
  "query_flags normalized guid =
     (if normalized then FILE_NAME_NORMALIZED else FILE_NAME_OPENED) OR
     (if guid then VOLUME_NAME_GUID else VOLUME_NAME_DOS)"

text \<open>
  The loop of at most \<open>n\<close> further turns; \<open>r\<close> is the result of the last one. \<open>query\<close> is
  \<^verbatim>\<open>GetFinalPathNameByHandle\<close>, with the state that it keeps.
\<close>

fun resolve_loop ::
  "('s \<Rightarrow> u32 \<Rightarrow> (gostring res \<times> 's) option) \<Rightarrow> nat \<Rightarrow> bool \<Rightarrow> bool \<Rightarrow> gostring res \<Rightarrow> 's \<Rightarrow> (gostring res \<times> 's) option" where
  "resolve_loop query 0 normalized guid r st = Some (r, st)"
| "resolve_loop query (Suc n) normalized guid r st =
     (case query st (query_flags normalized guid) of
        None \<Rightarrow> None
      | Some (r, st) \<Rightarrow>
          if guid \<and> failed_with r ERROR_PATH_NOT_FOUND then resolve_loop query n normalized False r st
          else if normalized \<and> failed_with r ERROR_ACCESS_DENIED then resolve_loop query n False guid r st
          else Some (r, st))"

definition unc_prefix :: gostring where "unc_prefix = [92, 92, 63, 92, 85, 78, 67, 92]"

definition strip_unc :: "gostring \<Rightarrow> gostring" where
  "strip_unc p = (if HasPrefix p unc_prefix then [92, 92] @ drop (length unc_prefix) p else p)"

text \<open>\<^verbatim>\<open>ResolvePath\<close>, with the handles that are open; the deferred call closes the handle.\<close>

definition ResolvePath ::
  "(gostring \<Rightarrow> nat res) \<Rightarrow> (nat \<Rightarrow> 's \<Rightarrow> u32 \<Rightarrow> (gostring res \<times> 's) option) \<Rightarrow> gostring \<Rightarrow> nat set \<Rightarrow> 's \<Rightarrow>
     (gostring res \<times> nat set \<times> 's) option" where
  "ResolvePath create query path handles st =
     (case openMetadata create path of
        Err e \<Rightarrow> Some (Err e, handles, st)
      | Panic p \<Rightarrow> Some (Panic p, handles, st)
      | Ok h \<Rightarrow>
          let handles = insert h handles in
          map_option (\<lambda>(r, st). (bind_res r (\<lambda>p. Ok (strip_unc p)), handles - {h}, st))
            (resolve_loop (query h) 4 True True (Ok []) st))"

text \<open>
  The query as the code makes it: every call has a new string object.
\<close>

definition final_path_query ::
  "final_path_call \<Rightarrow> nat \<Rightarrow> nat \<Rightarrow> buffers \<times> nat \<Rightarrow> u32 \<Rightarrow> (gostring res \<times> buffers \<times> nat) option" where
  "final_path_query call pick h =
     (\<lambda>(s, w) flags. map_option (\<lambda>(r, s). (r, s, w + 1)) (GetFinalPathNameByHandle call pick h flags w s))"

section \<open>The loop over the buffer returns\<close>

lemma wbuf_poke [simp]: "wbuf (poke w xs s) = wbuf s"
  by (simp add: poke_def split: option.split)

lemma wcap_poke [simp]: "wcap v (poke w xs s) = wcap v s"
  by (auto simp: poke_def wcap_def simp del: length_append split: option.split)

lemma Cap_poke [simp]: "Cap v (poke w xs s) = Cap v s"
  by (simp add: Cap_def wempty_def)

lemma Cap_ResizeTo: "buffers_inv s \<Longrightarrow> Cap w s < c \<Longrightarrow> c \<le> Cap w (snd (ResizeTo w c s))"
  using resize_facts [of s w c] by (cases "ResizeTo w c s") auto

lemma final_path_loop_returns:
  assumes "buffers_inv s"
  shows "\<exists>r s'. final_path_loop call h flags w i s = Some (r, s') \<and> buffers_inv s'"
  using assms
proof (induction "2 ^ 32 - unat (Cap w s)" arbitrary: i s rule: less_induct)
  case less
  show ?case
  proof (cases "call i h (Cap w s) flags")
    case (Ok p)
    then obtain n xs where p: "call i h (Cap w s) flags = Ok (n, xs)" by (cases p) auto
    let ?s = "poke w xs s"
    let ?s' = "snd (ResizeTo w n ?s)"
    have i: "buffers_inv ?s" by (rule inv_poke [OF less.prems])
    show ?thesis
    proof (cases "Cap w s < n")
      case True
      then have "n \<le> Cap w ?s'" using Cap_ResizeTo [OF i, of w n] by simp
      with True have "unat (Cap w s) < unat (Cap w ?s')" by (simp add: word_less_nat_alt word_le_nat_alt)
      then have "2 ^ 32 - unat (Cap w ?s') < 2 ^ 32 - unat (Cap w s)"
        using unat_u32_less [of "Cap w ?s'"] by linarith
      from less.hyps [OF this inv_ResizeTo [OF i]] show ?thesis
        using p True by (subst final_path_loop.simps) (simp add: Let_def)
    next
      case False
      then show ?thesis using p i by (subst final_path_loop.simps) (simp add: Let_def)
    qed
  qed (subst final_path_loop.simps; use less.prems in simp)+
qed

section \<open>What the loop returns\<close>

text \<open>
  The documented behaviour of the system call for a name \<open>p\<close>, or an error: the length of the name
  without its NUL when it fits, and the size that is needed otherwise.
\<close>

definition answers :: "final_path_call \<Rightarrow> nat \<Rightarrow> u32 \<Rightarrow> u16 list res \<Rightarrow> bool" where
  "answers call h flags r \<longleftrightarrow>
     (case r of
        Ok p \<Rightarrow> 0 \<notin> set p \<and> length p + 1 < 2 ^ 32 \<and>
          (\<forall>i k. if length p < unat k then call i h k flags = Ok (of_nat (length p), p @ [0])
            else \<exists>xs. call i h k flags = Ok (of_nat (length p + 1), xs))
      | Err e \<Rightarrow> \<forall>i k. call i h k flags = Err e
      | Panic e \<Rightarrow> False)"

definition name_string :: "u16 list res \<Rightarrow> gostring res" where
  "name_string r = bind_res r (\<lambda>p. Ok (string_of_runes (utf16_Decode p)))"

lemma until_NUL_append: "0 \<notin> set p \<Longrightarrow> until_NUL (p @ 0 # r) = p"
  by (induction p) (auto simp: until_NUL_def)

lemma String_poke:
  assumes "wbuf s w = Some b" and "0 \<notin> set p" and "length p < length (store s b)"
  shows "WString_String w (poke w (p @ [0]) s) = string_of_runes (utf16_Decode p)"
  using assms by (simp add: WString_String_def poke_def until_NUL_append)

lemma wbuf_ResizeTo: "buffers_inv s \<Longrightarrow> v \<noteq> w \<Longrightarrow> wbuf (snd (ResizeTo w c s)) v = wbuf s v"
  by (simp add: ResizeTo_eq Let_def)

lemma ResizeTo_some: "buffers_inv s \<Longrightarrow> wbuf s w = Some b \<Longrightarrow> \<exists>b'. wbuf (snd (ResizeTo w c s)) w = Some b'"
  by (simp add: ResizeTo_eq Let_def)

lemma NewWString_wbuf: "wbuf (NewWString i w s) w \<noteq> None" "v \<noteq> w \<Longrightarrow> wbuf (NewWString i w s) v = wbuf s v"
  by (auto simp: NewWString_def newBuffer_def make_buffer_def split: if_splits)

lemma final_path_fits:
  assumes "buffers_inv s" and "wbuf s w = Some b" and "answers call h flags (Ok p)" and "length p < unat (Cap w s)"
  shows "final_path_loop call h flags w i s = Some (Ok (string_of_runes (utf16_Decode p)), poke w (p @ [0]) s)"
proof -
  have len: "length p < length (store s b)" using assms(4) unat_wcap [OF assms(1,2)] by (simp add: Cap_eq [OF assms(1)])
  have "call i h (Cap w s) flags = Ok (of_nat (length p), p @ [0])" "0 \<notin> set p"
    using assms(3,4) by (simp_all add: answers_def)
  moreover have "\<not> Cap w s < of_nat (length p)"
  proof -
    have "unat (of_nat (length p) :: u32) = length p"
      using assms(3) unfolding unat_of_nat_eq_iff by (simp add: answers_def)
    then show ?thesis using assms(4) by (simp add: word_less_nat_alt)
  qed
  ultimately show ?thesis
    using String_poke [OF assms(2) _ len] by (subst final_path_loop.simps) (simp add: Let_def)
qed

lemma final_path_result:
  assumes i: "buffers_inv s" and w: "wbuf s w = None" and a: "answers call h flags r"
  shows "\<exists>s'. GetFinalPathNameByHandle call pick h flags w s = Some (name_string r, s') \<and> buffers_inv s' \<and>
    (\<forall>v. v \<noteq> w \<longrightarrow> wbuf s' v = wbuf s v)"
proof (cases r)
  case (Ok p)
  let ?s = "NewWString pick w s"
  have i': "buffers_inv ?s" by (rule inv_NewWString [OF i w])
  obtain b where b: "wbuf ?s w = Some b" using NewWString_wbuf(1) [of pick w s] by blast
  have a': "answers call h flags (Ok p)" using a Ok by simp
  show ?thesis
  proof (cases "length p < unat (Cap w ?s)")
    case True
    from final_path_fits [OF i' b a' True] show ?thesis
      using inv_poke [OF i'] NewWString_wbuf(2) Ok by (simp add: GetFinalPathNameByHandle_def name_string_def)
  next
    case False
    then obtain xs where c: "call 0 h (Cap w ?s) flags = Ok (of_nat (length p + 1), xs)"
      using a' unfolding answers_def res.case by metis
    let ?n = "of_nat (length p + 1) :: u32"
    have n: "unat ?n = length p + 1" using a' unfolding unat_of_nat_eq_iff by (simp add: answers_def)
    let ?s1 = "poke w xs ?s"
    let ?s2 = "snd (ResizeTo w ?n ?s1)"
    have i1: "buffers_inv ?s1" by (rule inv_poke [OF i'])
    have i2: "buffers_inv ?s2" by (rule inv_ResizeTo [OF i1])
    have lt: "Cap w ?s < ?n" using False n by (simp add: word_less_nat_alt)
    then have "?n \<le> Cap w ?s2" using Cap_ResizeTo [OF i1, of w ?n] by simp
    then have fits: "length p < unat (Cap w ?s2)" using n by (simp add: word_le_nat_alt)
    obtain b2 where b2: "wbuf ?s2 w = Some b2" using ResizeTo_some [OF i1, of w b ?n] b by auto
    have "final_path_loop call h flags w 0 ?s = final_path_loop call h flags w 1 ?s2"
      using c lt by (subst final_path_loop.simps) (simp add: Let_def)
    moreover have "\<forall>v. v \<noteq> w \<longrightarrow> wbuf ?s2 v = wbuf s v"
      using wbuf_ResizeTo [OF i1, of _ w ?n] NewWString_wbuf(2) [of _ w pick s] by simp
    ultimately show ?thesis
      using final_path_fits [OF i2 b2 a' fits] inv_poke [OF i2] Ok
      by (simp add: GetFinalPathNameByHandle_def name_string_def)
  qed
next
  case (Err e)
  then show ?thesis
    using a inv_NewWString [OF i w] NewWString_wbuf(2)
    by (simp add: GetFinalPathNameByHandle_def final_path_loop.simps answers_def name_string_def)
next
  case (Panic e)
  then show ?thesis using a by (simp add: answers_def)
qed

section \<open>ResolvePath is its specification\<close>

text \<open>
  Which of the names is returned: the one with the volume GUID if the volume has one, else the DOS
  name; normalized if that is allowed.
\<close>

definition resolved :: "(u32 \<Rightarrow> gostring res) \<Rightarrow> gostring res" where
  "resolved q =
     (if failed_with (q 1) ERROR_PATH_NOT_FOUND then if failed_with (q 0) ERROR_ACCESS_DENIED then q 8 else q 0
      else if failed_with (q 1) ERROR_ACCESS_DENIED then if failed_with (q 9) ERROR_PATH_NOT_FOUND then q 8 else q 9
      else q 1)"

lemma query_flags_simps [simp]:
  "query_flags True True = 1" "query_flags True False = 0" "query_flags False True = 9" "query_flags False False = 8"
  by (simp_all add: query_flags_def FILE_NAME_NORMALIZED_def FILE_NAME_OPENED_def VOLUME_NAME_GUID_def VOLUME_NAME_DOS_def)

text \<open>Any bound of at least three turns gives the same result.\<close>

lemma resolve_loop_eq:
  assumes "\<And>st f. P st \<Longrightarrow> f \<in> {0, 1, 8, 9} \<Longrightarrow> \<exists>st'. query st f = Some (q f, st') \<and> P st'" and "P st"
  shows "\<exists>st'. resolve_loop query (Suc (Suc (Suc n))) True True r st = Some (resolved q, st') \<and> P st'"
proof -
  obtain s1 where s1: "query st 1 = Some (q 1, s1)" "P s1" using assms by blast
  obtain s2 where s2: "query s1 0 = Some (q 0, s2)" "P s2" using assms(1) [OF s1(2), of 0] by auto
  obtain s3 where s3: "query s1 9 = Some (q 9, s3)" "P s3" using assms(1) [OF s1(2), of 9] by auto
  obtain s4 where s4: "query s2 8 = Some (q 8, s4)" "P s4" using assms(1) [OF s2(2), of 8] by auto
  obtain s5 where s5: "query s3 8 = Some (q 8, s5)" "P s5" using assms(1) [OF s3(2), of 8] by auto
  show ?thesis using s1 s2 s3 s4 s5 by (simp add: resolved_def)
qed

text \<open>
  The loop of \<^verbatim>\<open>GetFinalPathNameByHandle\<close> returns for every behaviour of the system, even
  one that never settles on a size: every turn that is not the last one makes the buffer larger, and
  its size is below $2^{32}$. The strings keep their buffers apart.
\<close>

theorem final_path_returns:
  assumes "buffers_reach s" and "wbuf s w = None"
  shows "\<exists>r s'. GetFinalPathNameByHandle call pick h flags w s = Some (r, s') \<and> buffers_inv s'"
  using final_path_loop_returns [OF inv_NewWString [OF reach_inv [OF assms(1)] assms(2)]]
  by (simp add: GetFinalPathNameByHandle_def)

text \<open>A system that always asks for one more than the buffer holds, up to a limit that never comes.\<close>

theorem final_path_returns_witness:
  "\<exists>r s'. GetFinalPathNameByHandle (\<lambda>i h k flags. Ok (k + 1, [])) 0 7 0 0 no_buffers = Some (r, s')"
  using final_path_returns [OF none, of 0 "\<lambda>i h k flags. Ok (k + 1, [])" 0 7 0] by (auto simp: no_buffers_def)

text \<open>
  C23: \<^verbatim>\<open>ResolvePath\<close> over a system that answers as documented: the
  name chosen by \<open>resolved\<close> is returned, whatever its length, in full and without the
  \<^verbatim>\<open>\\?\UNC\<close> prefix of network shares; the errors of the queries that have no alternative are
  returned. The bound of four turns is never the reason to stop, and the handle is closed.
\<close>

theorem resolve_path:
  assumes "buffers_reach s" and "\<And>v. w \<le> v \<Longrightarrow> wbuf s v = None" and "h \<notin> handles"
    and "create path = Ok h" and "\<And>f. f \<in> {0, 1, 8, 9} \<Longrightarrow> answers call h f (p f)"
  shows "\<exists>st. ResolvePath create (final_path_query call pick) path handles (s, w) =
    Some (bind_res (resolved (\<lambda>f. name_string (p f))) (\<lambda>p. Ok (strip_unc p)), handles, st)"
proof -
  let ?P = "\<lambda>(s, w). buffers_inv s \<and> (\<forall>v. w \<le> v \<longrightarrow> wbuf s v = None)"
  have step: "\<exists>st'. final_path_query call pick h st f = Some (name_string (p f), st') \<and> ?P st'"
    if P: "?P st" and f: "f \<in> {0, 1, 8, 9}" for st f
  proof -
    obtain s w where st: "st = (s, w)" by (cases st)
    with P have i: "buffers_inv s" and n: "wbuf s w = None" "\<forall>v. w \<le> v \<longrightarrow> wbuf s v = None" by auto
    obtain s' where "GetFinalPathNameByHandle call pick h f w s = Some (name_string (p f), s')" "buffers_inv s'"
      "\<forall>v. v \<noteq> w \<longrightarrow> wbuf s' v = wbuf s v"
      using final_path_result [OF i n(1) assms(5) [OF f]] by blast
    then show ?thesis using n(2) by (simp add: final_path_query_def st)
  qed
  have "?P (s, w)" using reach_inv [OF assms(1)] assms(2) by simp
  from resolve_loop_eq [of ?P "final_path_query call pick h" "\<lambda>f. name_string (p f)", OF step this, of 1 "Ok []"]
  obtain st where "resolve_loop (final_path_query call pick h) 4 True True (Ok []) (s, w) =
      Some (resolved (\<lambda>f. name_string (p f)), st)"
    by (auto simp: eval_nat_numeral)
  then show ?thesis using assms(3,4) by (simp add: ResolvePath_def openMetadata_def Let_def)
qed

text \<open>A file on a share: the volume has no GUID, and the DOS name is in UNC form.\<close>

definition sample_call :: final_path_call where
  "sample_call i h k flags =
     (if flags = 0 then if 10 < unat k then Ok (10, [92, 92, 63, 92, 85, 78, 67, 92, 115, 92, 0]) else Ok (11, [])
      else Err ERROR_PATH_NOT_FOUND)"

theorem resolve_path_witness:
  "\<exists>st. ResolvePath (\<lambda>_. Ok 7) (final_path_query sample_call 0) [97] {} (no_buffers, 0) =
     Some (Ok [92, 92, 115, 92], {}, st)"
proof -
  define nm :: "u16 list" where "nm = [92, 92, 63, 92, 85, 78, 67, 92, 115, 92]"
  define p :: "u32 \<Rightarrow> u16 list res" where "p = (\<lambda>f. if f = 0 then Ok nm else Err ERROR_PATH_NOT_FOUND)"
  have a: "answers sample_call 7 f (p f)" if "f \<in> {0, 1, 8, 9}" for f
    using that by (auto simp: answers_def sample_call_def p_def nm_def)
  have "string_of_runes (utf16_Decode nm) = [92, 92, 63, 92, 85, 78, 67, 92, 115, 92]"
    by (simp add: nm_def string_of_runes_def EncodeRune_def scalar_def)
  then have n: "name_string (p 0) = Ok [92, 92, 63, 92, 85, 78, 67, 92, 115, 92]" "name_string (p 1) = Err ERROR_PATH_NOT_FOUND"
    by (simp_all add: p_def name_string_def)
  have "resolved (\<lambda>f. name_string (p f)) = Ok [92, 92, 63, 92, 85, 78, 67, 92, 115, 92]"
    by (simp add: resolved_def n failed_with_def ERROR_PATH_NOT_FOUND_def)
  moreover have "strip_unc [92, 92, 63, 92, 85, 78, 67, 92, 115, 92] = [92, 92, 115, 92]"
    by (simp add: strip_unc_def unc_prefix_def HasPrefix_def)
  ultimately show ?thesis
    using resolve_path [OF none, of 0 7 "{}" "\<lambda>_. Ok 7" "[97]" sample_call p 0] a by (simp add: no_buffers_def)
qed

end
