(* ===== verification/Bind_Filter.thy ===== *)
theory Bind_Filter
  imports Resolve_Path Go_IO
begin

text \<open>
  Bind filter mappings (\<^verbatim>\<open>src/pkg/bindfilter/bind_filter.go\<close>): creating a mapping, and
  parsing the response of \<^verbatim>\<open>BfGetMappings\<close>, a buffer of records that refer to each other by
  offsets, with the names of the response turned into final paths. The response is a slice of a
  larger buffer, so that re-slicing it is bounded by the capacity and not by the length; one read
  through an unsafe pointer is not bounded at all, and \<open>beyond\<close> is the memory it may reach.
\<close>

section \<open>Creating and removing mappings\<close>

definition BINDFLT_FLAG_READ_ONLY_MAPPING :: u32 where "BINDFLT_FLAG_READ_ONLY_MAPPING = 1"
definition BINDFLT_FLAG_NO_MULTIPLE_TARGETS :: u32 where "BINDFLT_FLAG_NO_MULTIPLE_TARGETS = 0x40"
definition BINDFLT_GET_MAPPINGS_FLAG_VOLUME :: u32 where "BINDFLT_GET_MAPPINGS_FLAG_VOLUME = 1"

text \<open>\<^verbatim>\<open>strings.Contains\<close>.\<close>

fun Contains :: "gostring \<Rightarrow> gostring \<Rightarrow> bool" where
  "Contains [] p \<longleftrightarrow> p = []"
| "Contains (c # s) p \<longleftrightarrow> HasPrefix (c # s) p \<or> Contains s p"

definition volume_source :: "gostring \<Rightarrow> gostring" where
  "volume_source source =
     (if Contains source (bs_of ''Volume{'') \<and> \<not> HasSuffix source [92] then source @ [92] else source)"

text \<open>
  \<open>mkdir\<close> is the creation of the parent directory of the root, \<open>setup\<close> and \<open>remove\<close> the calls
  of the filter for the global job.
\<close>

definition ApplyFileBinding ::
  "(gostring \<Rightarrow> go_error option) \<Rightarrow> (u32 \<Rightarrow> gostring \<Rightarrow> gostring \<Rightarrow> go_error option) \<Rightarrow>
     gostring \<Rightarrow> gostring \<Rightarrow> bool \<Rightarrow> go_error option" where
  "ApplyFileBinding mkdir setup root source readOnly =
     (case mkdir root of
        Some e \<Rightarrow> Some e
      | None \<Rightarrow>
          let source = volume_source source;
              flags = (if readOnly then BINDFLT_FLAG_NO_MULTIPLE_TARGETS OR BINDFLT_FLAG_READ_ONLY_MAPPING
                       else BINDFLT_FLAG_NO_MULTIPLE_TARGETS)
          in map_option (ErrWrap ''failed to bind target'') (setup flags root source))"

definition RemoveFileBinding :: "(gostring \<Rightarrow> go_error option) \<Rightarrow> gostring \<Rightarrow> go_error option" where
  "RemoveFileBinding remove root = map_option (ErrWrap ''removing file binding'') (remove root)"

section \<open>The records of the response\<close>

record mappingEntry =
  VirtRootLength :: u32
  VirtRootOffset :: u32
  me_Flags :: u32
  NumberOfTargets :: u32
  TargetEntriesOffset :: u32

record mappingTargetEntry =
  TargetRootLength :: u32
  TargetRootOffset :: u32

record getMappingsResponseHeader =
  mh_Size :: u32
  mh_Status :: u32
  MappingCount :: u32

record BindMapping =
  MountPoint :: gostring
  bm_Flags :: u32
  Targets :: "gostring list"

definition entry_dec :: "bytes \<Rightarrow> mappingEntry" where
  "entry_dec b =
     \<lparr>VirtRootLength = le_dec (take 4 b), VirtRootOffset = le_dec (take 4 (drop 4 b)), me_Flags = le_dec (take 4 (drop 8 b)),
      NumberOfTargets = le_dec (take 4 (drop 12 b)), TargetEntriesOffset = le_dec (take 4 (drop 16 b))\<rparr>"

definition target_dec :: "bytes \<Rightarrow> mappingTargetEntry" where
  "target_dec b = \<lparr>TargetRootLength = le_dec (take 4 b), TargetRootOffset = le_dec (take 4 (drop 4 b))\<rparr>"

definition response_dec :: "bytes \<Rightarrow> getMappingsResponseHeader" where
  "response_dec b = \<lparr>mh_Size = le_dec (take 4 b), mh_Status = le_dec (take 4 (drop 4 b)), MappingCount = le_dec (take 4 (drop 8 b))\<rparr>"

definition invalid_buffer :: go_error where "invalid_buffer = ErrNew ''invalid buffer''"

definition decodeEntry :: "(u16 list \<Rightarrow> gostring) \<Rightarrow> bytes \<Rightarrow> gostring res" where
  "decodeEntry u16str b =
     bind_res (map_err (ErrWrap ''decoding name'') (read_list le_dec 2 (length b div 2) b)) (\<lambda>(name, _). Ok (u16str name))"

section \<open>Final paths\<close>

text \<open>
  \<^verbatim>\<open>errors.Is(err, os.ErrNotExist)\<close> for the errors of the system: the code for a missing file
  or path or an unknown network path.
\<close>

fun not_exist :: "go_error \<Rightarrow> bool" where
  "not_exist (ErrWrap s e) \<longleftrightarrow> not_exist e"
| "not_exist (Errno c) \<longleftrightarrow> c = 2 \<or> c = 3 \<or> c = 53"
| "not_exist _ \<longleftrightarrow> False"

definition overwrite :: "u16 list \<Rightarrow> u16 list \<Rightarrow> u16 list" where
  "overwrite xs b = take (length b) xs @ drop (length xs) b"

partial_function (option) bind_path_loop ::
  "final_path_call \<Rightarrow> nat \<Rightarrow> nat \<Rightarrow> u16 list \<Rightarrow> u32 \<Rightarrow> (u16 list \<times> u32) res option" where
  "bind_path_loop call h i buf flags =
     (case call i h (of_nat (length buf)) flags of
        Panic p \<Rightarrow> Some (Panic p)
      | Err e \<Rightarrow>
          if not_exist e \<and> flags \<noteq> 1 then bind_path_loop call h (i + 1) buf 1
          else Some (Err (ErrWrap ''getting final path name'' e))
      | Ok (n, xs) \<Rightarrow>
          let buf = overwrite xs buf in
          if n < of_nat (length buf) then Some (Ok (buf, flags))
          else bind_path_loop call h (i + 1) (replicate (unat n) 0) flags)"

definition device_path :: "gostring \<Rightarrow> gostring" where
  "device_path pth =
     (if HasPrefix pth (92 # bs_of ''Device'') then [92, 92, 46, 92] @ bs_of ''GLOBALROOT'' @ pth else pth)"

definition strip_final :: "u32 \<Rightarrow> gostring \<Rightarrow> gostring" where
  "strip_final flags p =
     (if length p > 4 \<and> take 4 p = [92, 92, 63, 92] \<and> flags = 0 then
        let p = drop 4 p in
        if length p > 3 \<and> take 3 p = bs_of ''UNC'' then 92 # drop 3 p else p
      else p)"

definition openPath :: "(gostring \<Rightarrow> u16 list res) \<Rightarrow> (u16 list \<Rightarrow> nat res) \<Rightarrow> gostring \<Rightarrow> nat res" where
  "openPath u16ptr create path = bind_res (u16ptr path) (\<lambda>u. map_err (ErrWrap ''CreateFile'') (create u))"

text \<open>\<open>open_path\<close> is \<^verbatim>\<open>openPath\<close> with the system's calls; the set is that of the open handles.\<close>

definition getFinalPath ::
  "(gostring \<Rightarrow> nat res) \<Rightarrow> final_path_call \<Rightarrow> (u16 list \<Rightarrow> gostring) \<Rightarrow> gostring \<Rightarrow> nat set \<Rightarrow> (gostring, nat set) io" where
  "getFinalPath open_path call u16str pth handles =
     (case map_err (ErrWrap ''fetching file handle'') (open_path (device_path pth)) of
        Err e \<Rightarrow> Some (Err e, handles)
      | Panic p \<Rightarrow> Some (Panic p, handles)
      | Ok h \<Rightarrow>
          let handles = insert h handles in
          map_option (\<lambda>r. (bind_res r (\<lambda>(buf, flags). Ok (strip_final flags (u16str buf))), handles - {h}))
            (bind_path_loop call h 0 (replicate 100 0) 0))"

section \<open>The mappings of a response\<close>

text \<open>
  \<open>buf\<close> is the whole buffer and \<open>blen\<close> the length of the response in it; \<open>fin\<close> is
  \<^verbatim>\<open>getFinalPath\<close>. \<^verbatim>\<open>target_loop\<close> runs over the targets from the \<open>i\<close>-th one on.
\<close>

fun target_loop ::
  "(u16 list \<Rightarrow> gostring) \<Rightarrow> (gostring \<Rightarrow> 's \<Rightarrow> (gostring, 's) io) \<Rightarrow> bytes \<Rightarrow> nat \<Rightarrow> nat \<Rightarrow> nat \<Rightarrow> nat \<Rightarrow> 's \<Rightarrow>
     (gostring list, 's) io" where
  "target_loop u16str fin buf blen offset i 0 st = Some (Ok [], st)"
| "target_loop u16str fin buf blen offset i (Suc n) st =
     io_bind (Some (bind_res (slice buf (offset + i * 8) (offset + i * 8 + 8)) (\<lambda>entryBuf.
       let tgt = target_dec entryBuf in
       if blen < unat (TargetRootOffset tgt) + unat (TargetRootLength tgt) then Err invalid_buffer
       else bind_res (slice buf (unat (TargetRootOffset tgt)) (unat (TargetRootOffset tgt + TargetRootLength tgt)))
         (\<lambda>b. map_err (ErrWrap ''decoding name'') (decodeEntry u16str b))), st)) (\<lambda>decoded st.
     io_bind (map_option (\<lambda>(r, st). (map_err (ErrWrap ''fetching final path'') r, st)) (fin decoded st)) (\<lambda>path st.
     io_bind (target_loop u16str fin buf blen offset (i + 1) n st) (\<lambda>rest st.
     Some (Ok (path # rest), st))))"

definition getTargetsFromBuffer ::
  "(u16 list \<Rightarrow> gostring) \<Rightarrow> (gostring \<Rightarrow> 's \<Rightarrow> (gostring, 's) io) \<Rightarrow> bytes \<Rightarrow> nat \<Rightarrow> nat \<Rightarrow> nat \<Rightarrow> 's \<Rightarrow>
     (gostring list, 's) io" where
  "getTargetsFromBuffer u16str fin buf blen offset count st =
     (if blen < offset + count * 6 then Some (Err invalid_buffer, st)
      else target_loop u16str fin buf blen offset 0 count st)"

definition getBindMappingFromBuffer ::
  "(u16 list \<Rightarrow> gostring) \<Rightarrow> (gostring \<Rightarrow> 's \<Rightarrow> (gostring, 's) io) \<Rightarrow> bytes \<Rightarrow> nat \<Rightarrow> mappingEntry \<Rightarrow> 's \<Rightarrow>
     (BindMapping, 's) io" where
  "getBindMappingFromBuffer u16str fin buf blen entry st =
     (if blen < unat (VirtRootOffset entry) + unat (VirtRootLength entry) then Some (Err invalid_buffer, st)
      else
        io_bind (Some (bind_res (slice buf (unat (VirtRootOffset entry)) (unat (VirtRootOffset entry + VirtRootLength entry)))
          (\<lambda>b. map_err (ErrWrap ''decoding entry'') (decodeEntry u16str b)), st)) (\<lambda>src st.
        io_bind (map_option (\<lambda>(r, st). (map_err (ErrWrap ''fetching targets'') r, st))
          (getTargetsFromBuffer u16str fin buf blen (unat (TargetEntriesOffset entry)) (unat (NumberOfTargets entry)) st)) (\<lambda>targets st.
        io_bind (map_option (\<lambda>(r, st). (map_err (ErrWrap ''fetching final path'') r, st)) (fin src st)) (\<lambda>src st.
        Some (Ok \<lparr>MountPoint = src, bm_Flags = me_Flags entry, Targets = targets\<rparr>, st)))))"

fun mapping_loop ::
  "(u16 list \<Rightarrow> gostring) \<Rightarrow> (gostring \<Rightarrow> 's \<Rightarrow> (gostring, 's) io) \<Rightarrow> bytes \<Rightarrow> bytes \<Rightarrow> nat \<Rightarrow> nat \<Rightarrow> nat \<Rightarrow> 's \<Rightarrow>
     (BindMapping list, 's) io" where
  "mapping_loop u16str fin buf beyond blen i 0 st = Some (Ok [], st)"
| "mapping_loop u16str fin buf beyond blen i (Suc n) st =
     io_bind (map_option (\<lambda>(r, st). (map_err (ErrWrap ''fetching bind mappings'') r, st))
       (getBindMappingFromBuffer u16str fin buf blen (entry_dec (take 20 (drop (12 + 20 * i) (buf @ beyond)))) st)) (\<lambda>m st.
     io_bind (mapping_loop u16str fin buf beyond blen (i + 1) n st) (\<lambda>ms st.
     Some (Ok (m # ms), st)))"

definition mappings_buffer_size :: nat where "mappings_buffer_size = 256 * 1024"

text \<open>
  \<^verbatim>\<open>GetBindMappings\<close>: \<open>getMappings\<close> is the system call, which returns the size and what
  was written to the buffer, and \<open>u16ptr\<close> is \<^verbatim>\<open>windows.UTF16PtrFromString\<close>.
\<close>

definition GetBindMappings ::
  "(gostring \<Rightarrow> u16 list res) \<Rightarrow> (u32 \<Rightarrow> u16 list \<Rightarrow> (u32 \<times> bytes) res) \<Rightarrow> bytes \<Rightarrow>
     (u16 list \<Rightarrow> gostring) \<Rightarrow> (gostring \<Rightarrow> 's \<Rightarrow> (gostring, 's) io) \<Rightarrow> gostring \<Rightarrow> 's \<Rightarrow> (BindMapping list, 's) io" where
  "GetBindMappings u16ptr getMappings beyond u16str fin volumePath st =
     (case bind_res (u16ptr volumePath) (getMappings BINDFLT_GET_MAPPINGS_FLAG_VOLUME) of
        Err e \<Rightarrow> Some (Err e, st)
      | Panic p \<Rightarrow> Some (Panic p, st)
      | Ok (outBuffSize, written) \<Rightarrow>
          let buf = take mappings_buffer_size written @ replicate (mappings_buffer_size - length written) 0;
              blen = unat outBuffSize
          in if blen < 12 then Some (Err (ErrNew ''invalid buffer returned''), st)
             else if mappings_buffer_size < blen then Some (Panic ''slice bounds out of range'', st)
             else
               let count = unat (MappingCount (response_dec (take 12 buf))) in
               if count = 0 then Some (Ok [], st)
               else if mappings_buffer_size < 20 * count then Some (Panic ''slice bounds out of range'', st)
               else mapping_loop u16str fin buf beyond blen 0 count st)"

section \<open>Final paths are what the system says\<close>

definition stops_at_NUL :: "(u16 list \<Rightarrow> gostring) \<Rightarrow> bool" where
  "stops_at_NUL u16str \<longleftrightarrow> (\<forall>p r. 0 \<notin> set p \<longrightarrow> u16str (p @ 0 # r) = u16str p)"

lemma bind_loop_fits:
  assumes "answers call h f (Ok p)" and "length p < length buf" and "length buf < 2 ^ 32"
  shows "\<exists>r. bind_path_loop call h i buf f = Some (Ok (p @ 0 # r, f))"
proof -
  have n: "unat (of_nat (length buf) :: u32) = length buf" "unat (of_nat (length p) :: u32) = length p"
    using assms(2,3) by (simp_all add: unat_of_nat_eq_iff)
  then have "call i h (of_nat (length buf)) f = Ok (of_nat (length p), p @ [0])"
    using assms(1,2) unfolding answers_def res.case by metis
  moreover have "(of_nat (length p) :: u32) < of_nat (length buf)" using n assms(2) by (simp add: word_less_nat_alt)
  ultimately show ?thesis
    using assms(2) by (subst bind_path_loop.simps) (simp add: Let_def overwrite_def)
qed

lemma bind_loop_Ok:
  assumes "answers call h f (Ok p)" and "0 < length buf" and "length buf < 2 ^ 32"
  shows "\<exists>r. bind_path_loop call h i buf f = Some (Ok (p @ 0 # r, f))"
proof (cases "length p < length buf")
  case True
  then show ?thesis by (rule bind_loop_fits [OF assms(1) _ assms(3)])
next
  case False
  let ?n = "of_nat (length p + 1) :: u32"
  have p: "length p + 1 < 2 ^ 32" using assms(1) by (simp add: answers_def)
  have n: "unat ?n = length p + 1" "unat (of_nat (length buf) :: u32) = length buf"
    using p assms(3) unfolding unat_of_nat_eq_iff by simp_all
  then obtain xs where "call i h (of_nat (length buf)) f = Ok (?n, xs)"
    using assms(1) False unfolding answers_def res.case by metis
  moreover have "\<not> ?n < of_nat (length buf)" using n False by (simp add: word_less_nat_alt del: of_nat_add)
  moreover have "length (overwrite xs buf) = length buf" by (simp add: overwrite_def)
  ultimately have "bind_path_loop call h i buf f = bind_path_loop call h (i + 1) (replicate (length p + 1) 0) f"
    using n(1) by (subst bind_path_loop.simps) (simp add: Let_def del: of_nat_add)
  then show ?thesis using bind_loop_fits [OF assms(1), of "replicate (length p + 1) 0"] p by simp
qed

text \<open>
  The final path of a name: the DOS name without its prefix, or the name with the volume's GUID
  when there is no DOS name.
\<close>

definition final_name :: "(gostring \<Rightarrow> nat res) \<Rightarrow> (nat \<Rightarrow> u32 \<Rightarrow> u16 list res) \<Rightarrow> (u16 list \<Rightarrow> gostring) \<Rightarrow> gostring \<Rightarrow> gostring res" where
  "final_name open_path names u16str pth =
     bind_res (map_err (ErrWrap ''fetching file handle'') (open_path (device_path pth))) (\<lambda>h.
     map_err (ErrWrap ''getting final path name'')
       (case names h 0 of
          Ok p \<Rightarrow> Ok (strip_final 0 (u16str p))
        | Err e \<Rightarrow> if not_exist e then bind_res (names h 1) (\<lambda>p. Ok (u16str p)) else Err e
        | Panic q \<Rightarrow> Panic q))"

lemma bind_path_final:
  assumes "answers call h 0 (names 0)" and "answers call h 1 (names 1)" and "stops_at_NUL u16str"
  shows "\<exists>r. bind_path_loop call h 0 (replicate 100 0) 0 = Some r \<and>
    bind_res r (\<lambda>(buf, flags). Ok (strip_final flags (u16str buf))) =
    map_err (ErrWrap ''getting final path name'')
       (case names 0 of
          Ok p \<Rightarrow> Ok (strip_final 0 (u16str p))
        | Err e \<Rightarrow> if not_exist e then bind_res (names (1 :: u32)) (\<lambda>p. Ok (u16str p)) else Err e
        | Panic q \<Rightarrow> Panic q)"
proof (cases "names 0")
  case (Ok p)
  then obtain r where "bind_path_loop call h 0 (replicate 100 0) 0 = Some (Ok (p @ 0 # r, 0))"
    using bind_loop_Ok [of call h 0 p "replicate 100 0" 0] assms(1) by auto
  moreover have "0 \<notin> set p" using assms(1) Ok by (simp add: answers_def)
  ultimately show ?thesis using Ok assms(3) by (simp add: stops_at_NUL_def)
next
  case (Err e)
  then have c: "call i h k 0 = Err e" for i k using assms(1) by (simp add: answers_def)
  show ?thesis
  proof (cases "not_exist e")
    case True
    then have b: "bind_path_loop call h 0 (replicate 100 0) 0 = bind_path_loop call h 1 (replicate 100 0) 1"
      using c by (subst bind_path_loop.simps) simp
    show ?thesis
    proof (cases "names 1")
      case (Ok p)
      then obtain r where "bind_path_loop call h 1 (replicate 100 0) 1 = Some (Ok (p @ 0 # r, 1))"
        using bind_loop_Ok [of call h 1 p "replicate 100 0" 1] assms(2) by auto
      moreover have "0 \<notin> set p" using assms(2) Ok by (simp add: answers_def)
      ultimately show ?thesis using Ok Err True b assms(3) by (simp add: stops_at_NUL_def strip_final_def)
    next
      case (Err e')
      then have "call i h k 1 = Err e'" for i k using assms(2) by (simp add: answers_def)
      then show ?thesis
        using Err \<open>names 0 = Err e\<close> True b by (simp add: bind_path_loop.simps [of call h "Suc 0"])
    next
      case (Panic q)
      then show ?thesis using assms(2) by (simp add: answers_def)
    qed
  next
    case False
    then show ?thesis using c Err by (subst bind_path_loop.simps) simp
  qed
next
  case (Panic q)
  then show ?thesis using assms(1) by (simp add: answers_def)
qed

lemma getFinalPath_eq:
  assumes "\<And>h f. answers call h f (names h f)" and "stops_at_NUL u16str"
    and "\<And>p h. open_path p = Ok h \<Longrightarrow> h \<notin> handles"
  shows "getFinalPath open_path call u16str pth handles = Some (final_name open_path names u16str pth, handles)"
proof (cases "open_path (device_path pth)")
  case (Ok h)
  obtain r where "bind_path_loop call h 0 (replicate 100 0) 0 = Some r"
    "bind_res r (\<lambda>(buf, flags). Ok (strip_final flags (u16str buf))) =
      map_err (ErrWrap ''getting final path name'')
       (case names h 0 of
          Ok p \<Rightarrow> Ok (strip_final 0 (u16str p))
        | Err e \<Rightarrow> if not_exist e then bind_res (names h 1) (\<lambda>p. Ok (u16str p)) else Err e
        | Panic q \<Rightarrow> Panic q)"
    using bind_path_final [of call h "names h", OF assms(1,1,2)] by blast
  then show ?thesis using Ok assms(3) [OF Ok] by (simp add: getFinalPath_def final_name_def Let_def)
qed (simp_all add: getFinalPath_def final_name_def)

section \<open>Parsing a well-formed response\<close>

definition placed :: "bytes \<Rightarrow> nat \<Rightarrow> bytes \<Rightarrow> bool" where
  "placed b off x \<longleftrightarrow> off + length x \<le> length b \<and> take (length x) (drop off b) = x"

definition name_placed :: "bytes \<Rightarrow> u32 \<Rightarrow> u32 \<Rightarrow> u16 list \<Rightarrow> bool" where
  "name_placed b off len nm \<longleftrightarrow> unat len = 2 * length nm \<and> placed b (unat off) (enc_list (le_enc 2) nm)"

definition target_placed :: "bytes \<Rightarrow> nat \<Rightarrow> u16 list \<Rightarrow> bool" where
  "target_placed b off nm \<longleftrightarrow>
     off + 8 \<le> length b \<and>
     name_placed b (TargetRootOffset (target_dec (take 8 (drop off b)))) (TargetRootLength (target_dec (take 8 (drop off b)))) nm"

text \<open>A mapping in a response: its root's name, its flags and the names of its targets.\<close>

type_synonym raw_mapping = "u16 list \<times> u32 \<times> u16 list list"

definition entry_placed :: "bytes \<Rightarrow> mappingEntry \<Rightarrow> raw_mapping \<Rightarrow> bool" where
  "entry_placed b e m \<longleftrightarrow>
     (case m of (root, flags, targets) \<Rightarrow>
        me_Flags e = flags \<and> name_placed b (VirtRootOffset e) (VirtRootLength e) root \<and>
        unat (NumberOfTargets e) = length targets \<and>
        unat (TargetEntriesOffset e) + length targets * 8 \<le> length b \<and>
        (\<forall>j < length targets. target_placed b (unat (TargetEntriesOffset e) + j * 8) (targets ! j)))"

definition response_holds :: "bytes \<Rightarrow> raw_mapping list \<Rightarrow> bool" where
  "response_holds b ms \<longleftrightarrow>
     12 + 20 * length ms \<le> length b \<and> length b \<le> mappings_buffer_size \<and>
     unat (MappingCount (response_dec (take 12 b))) = length ms \<and>
     (\<forall>i < length ms. entry_placed b (entry_dec (take 20 (drop (12 + 20 * i) b))) (ms ! i))"

lemma slice_placed: "placed b off x \<Longrightarrow> n = off + length x \<Longrightarrow> slice (b @ z) off n = Ok x"
  by (simp add: placed_def)

lemma decodeEntry_enc: "decodeEntry u16str (enc_list (le_enc 2) nm) = Ok (u16str nm)"
  using le16.read_list_enc [of nm _ "[]"] le16.length_enc_list [of nm] by (simp add: decodeEntry_def list_all_iff)

lemma name_slice:
  assumes "name_placed b off len nm" and "length b \<le> mappings_buffer_size"
  shows "unat off + unat len \<le> length b"
    and "slice (b @ z) (unat off) (unat (off + len)) = Ok (enc_list (le_enc 2) nm)"
proof -
  have l: "length (enc_list (le_enc 2) nm) = 2 * length nm" using le16.length_enc_list [of nm] by (simp add: list_all_iff)
  show s: "unat off + unat len \<le> length b" using assms(1) l by (simp add: name_placed_def placed_def)
  have "unat (off + len) = unat off + unat len"
    using s assms(2) by (simp add: unat_word_ariths(1) mappings_buffer_size_def)
  then show "slice (b @ z) (unat off) (unat (off + len)) = Ok (enc_list (le_enc 2) nm)"
    using assms(1) l by (intro slice_placed) (simp_all add: name_placed_def)
qed

lemma target_loop_placed:
  assumes "length b \<le> mappings_buffer_size"
    and "\<And>j. j < length ts \<Longrightarrow> target_placed b (offset + (i + j) * 8) (ts ! j)"
    and "\<And>nm. nm \<in> set ts \<Longrightarrow> fin (u16str nm) st = Some (Ok (g (u16str nm)), st)"
  shows "target_loop u16str fin (b @ z) (length b) offset i (length ts) st = Some (Ok (map (\<lambda>nm. g (u16str nm)) ts), st)"
  using assms(2,3)
proof (induction ts arbitrary: i)
  case (Cons t ts)
  let ?o = "offset + i * 8"
  have t: "target_placed b ?o t" using Cons.prems(1) [of 0] by simp
  then have "slice (b @ z) ?o (?o + 8) = Ok (take 8 (drop ?o b))" by (simp add: target_placed_def)
  moreover define e where "e = target_dec (take 8 (drop ?o b))"
  have n: "name_placed b (TargetRootOffset e) (TargetRootLength e) t" using t by (simp add: target_placed_def e_def)
  moreover have "target_loop u16str fin (b @ z) (length b) offset (i + 1) (length ts) st = Some (Ok (map (\<lambda>nm. g (u16str nm)) ts), st)"
    using Cons.prems(1) [of "Suc _"] Cons.prems(2) by (intro Cons.IH) simp_all
  ultimately show ?case
    using name_slice [OF n assms(1)] Cons.prems(2) [of t]
    by (simp add: Let_def e_def [symmetric] decodeEntry_enc)
qed simp

lemma entry_placed_mapping:
  assumes "length b \<le> mappings_buffer_size" and "entry_placed b e (root, flags, ts)"
    and "\<And>nm. nm \<in> insert root (set ts) \<Longrightarrow> fin (u16str nm) st = Some (Ok (g (u16str nm)), st)"
  shows "getBindMappingFromBuffer u16str fin (b @ z) (length b) e st =
    Some (Ok \<lparr>MountPoint = g (u16str root), bm_Flags = flags, Targets = map (\<lambda>nm. g (u16str nm)) ts\<rparr>, st)"
proof -
  have n: "name_placed b (VirtRootOffset e) (VirtRootLength e) root" using assms(2) by (simp add: entry_placed_def)
  have "target_loop u16str fin (b @ z) (length b) (unat (TargetEntriesOffset e)) 0 (length ts) st =
      Some (Ok (map (\<lambda>nm. g (u16str nm)) ts), st)"
    using assms by (intro target_loop_placed) (simp_all add: entry_placed_def)
  then have "getTargetsFromBuffer u16str fin (b @ z) (length b) (unat (TargetEntriesOffset e)) (unat (NumberOfTargets e)) st =
      Some (Ok (map (\<lambda>nm. g (u16str nm)) ts), st)"
    using assms(2) by (simp add: getTargetsFromBuffer_def entry_placed_def)
  then show ?thesis
    using name_slice [OF n assms(1)] assms(3) [of root] assms(2)
    by (simp add: getBindMappingFromBuffer_def decodeEntry_enc entry_placed_def)
qed

definition bind_mapping :: "(gostring \<Rightarrow> gostring) \<Rightarrow> (u16 list \<Rightarrow> gostring) \<Rightarrow> raw_mapping \<Rightarrow> BindMapping" where
  "bind_mapping g u16str m =
     (case m of (root, flags, ts) \<Rightarrow>
        \<lparr>MountPoint = g (u16str root), bm_Flags = flags, Targets = map (\<lambda>nm. g (u16str nm)) ts\<rparr>)"

definition mapping_names :: "raw_mapping \<Rightarrow> u16 list set" where
  "mapping_names m = (case m of (root, flags, ts) \<Rightarrow> insert root (set ts))"

lemma mapping_loop_placed:
  assumes "length b \<le> mappings_buffer_size" and "12 + 20 * (i + length ms) \<le> length b"
    and "\<And>j. j < length ms \<Longrightarrow> entry_placed b (entry_dec (take 20 (drop (12 + 20 * (i + j)) b))) (ms ! j)"
    and "\<And>m nm. m \<in> set ms \<Longrightarrow> nm \<in> mapping_names m \<Longrightarrow> fin (u16str nm) st = Some (Ok (g (u16str nm)), st)"
  shows "mapping_loop u16str fin (b @ z) beyond (length b) i (length ms) st = Some (Ok (map (bind_mapping g u16str) ms), st)"
  using assms(2-)
proof (induction ms arbitrary: i)
  case (Cons m ms)
  obtain root flags ts where m: "m = (root, flags, ts)" by (cases m)
  have e: "take 20 (drop (12 + 20 * i) ((b @ z) @ beyond)) = take 20 (drop (12 + 20 * i) b)"
    using Cons.prems(1) by simp
  have "getBindMappingFromBuffer u16str fin (b @ z) (length b) (entry_dec (take 20 (drop (12 + 20 * i) b))) st =
      Some (Ok (bind_mapping g u16str m), st)"
    unfolding m bind_mapping_def prod.case
    using Cons.prems(2) [of 0] Cons.prems(3) [of m]
    by (intro entry_placed_mapping [OF assms(1)]) (simp_all add: m mapping_names_def)
  moreover have "mapping_loop u16str fin (b @ z) beyond (length b) (i + 1) (length ms) st =
      Some (Ok (map (bind_mapping g u16str) ms), st)"
    using Cons.prems(1) Cons.prems(2) [of "Suc _"] Cons.prems(3) [OF list.set_intros(2)] by (intro Cons.IH) simp_all
  ultimately show ?case by (simp add: e del: append_assoc take_append drop_append)
qed simp

text \<open>
  C24: \<^verbatim>\<open>GetBindMappings\<close> returns the mappings of a well-formed response in their order, with
  their flags and with every name turned into its final path, over a system whose
  \<^verbatim>\<open>GetFinalPathNameByHandle\<close> behaves as documented, however long the names are; every handle
  that was opened for it is closed.
\<close>

theorem bind_mappings:
  assumes "u16ptr volume = Ok v" and "getMappings BINDFLT_GET_MAPPINGS_FLAG_VOLUME v = Ok (of_nat (length b), b)"
    and "response_holds b ms"
    and "\<And>h f. answers call h f (names h f)" and "stops_at_NUL u16str"
    and "\<And>p h. open_path p = Ok h \<Longrightarrow> h \<notin> handles"
    and "\<And>m nm. m \<in> set ms \<Longrightarrow> nm \<in> mapping_names m \<Longrightarrow> final_name open_path names u16str (u16str nm) = Ok (g (u16str nm))"
  shows "GetBindMappings u16ptr getMappings beyond u16str (getFinalPath open_path call u16str) volume handles =
    Some (Ok (map (bind_mapping g u16str) ms), handles)"
proof -
  have r: "12 + 20 * length ms \<le> length b" "length b \<le> mappings_buffer_size"
    "unat (MappingCount (response_dec (take 12 b))) = length ms"
    using assms(3) by (simp_all add: response_holds_def)
  let ?z = "replicate (mappings_buffer_size - length b) 0 :: bytes"
  have "mapping_loop u16str (getFinalPath open_path call u16str) (b @ ?z) beyond (length b) 0 (length ms) handles =
      Some (Ok (map (bind_mapping g u16str) ms), handles)"
    using assms(3,7) r getFinalPath_eq [OF assms(4,5,6)]
    by (intro mapping_loop_placed) (auto simp: response_holds_def)
  moreover have "unat (of_nat (length b) :: u32) = length b"
    using r(2) unfolding unat_of_nat_eq_iff mappings_buffer_size_def by simp
  ultimately show ?thesis using r assms(1,2) by (simp add: GetBindMappings_def Let_def)
qed

text \<open>One mapping of one-letter names, resolved by a system that knows one path.\<close>

definition sample_response :: bytes where
  "sample_response =
     [44, 0, 0, 0, 0, 0, 0, 0, 1, 0, 0, 0,
      2, 0, 0, 0, 40, 0, 0, 0, 64, 0, 0, 0, 1, 0, 0, 0, 32, 0, 0, 0,
      2, 0, 0, 0, 42, 0, 0, 0, 67, 0, 68, 0]"

definition sample_names :: final_path_call where
  "sample_names i h k flags = (if 1 < unat k then Ok (1, [65, 0]) else Ok (2, []))"

definition sample_u16str :: "u16 list \<Rightarrow> gostring" where
  "sample_u16str p = map ucast (until_NUL p)"

lemma until_NUL_id: "0 \<notin> set p \<Longrightarrow> until_NUL p = p"
  by (induction p) (auto simp: until_NUL_def)

lemma sample_response_holds: "response_holds sample_response [([67], 64, [[68]])]"
  by (simp add: response_holds_def sample_response_def mappings_buffer_size_def response_dec_def entry_placed_def
      entry_dec_def name_placed_def placed_def target_placed_def target_dec_def le_enc_2)

theorem bind_mappings_witness:
  "GetBindMappings (\<lambda>_. Ok []) (\<lambda>_ _. Ok (44, sample_response)) [] sample_u16str
     (getFinalPath (\<lambda>_. Ok 7) sample_names sample_u16str) [99] {} =
   Some (Ok [\<lparr>MountPoint = [65], bm_Flags = 64, Targets = [[65]]\<rparr>], {})"
proof -
  have "length sample_response = 44" by (simp add: sample_response_def)
  moreover have "answers sample_names h f (Ok [65])" for h f by (simp add: answers_def sample_names_def)
  moreover have "stops_at_NUL sample_u16str"
    by (simp add: stops_at_NUL_def sample_u16str_def until_NUL_append until_NUL_id)
  moreover have "sample_u16str [65] = [65]" by (simp add: sample_u16str_def until_NUL_def)
  ultimately show ?thesis
    using bind_mappings [of "\<lambda>_. Ok []" "[99]" "[]" "\<lambda>_ _. Ok (44, sample_response)" sample_response "[([67], 64, [[68]])]"
      sample_names "\<lambda>_ _. Ok [65]" sample_u16str "\<lambda>_. Ok 7" "{}" "\<lambda>_. [65]" "[]"] sample_response_holds
    by (simp add: bind_mapping_def final_name_def strip_final_def)
qed

text \<open>
  The check of the table of targets allows for six bytes per target instead of eight: a table
  that does not fit into a response that fills its buffer passes the check, and the parser panics
  instead of reporting an invalid buffer.
\<close>

theorem bind_targets_check:
  assumes "offset + n * 6 \<le> length buf" and "length buf < offset + 8" and "0 < n"
  shows "getTargetsFromBuffer u16str fin buf (length buf) offset n st = Some (Panic ''slice bounds out of range'', st)"
  using assms by (cases n) (simp_all add: getTargetsFromBuffer_def slice_def)

theorem bind_targets_check_witness:
  "getTargetsFromBuffer sample_u16str (\<lambda>p st. Some (Ok p, st)) (replicate 16 0) 16 10 1 () =
     Some (Panic ''slice bounds out of range'', ())"
  using bind_targets_check [of 10 1 "replicate 16 0"] by simp

end
