(* ===== verification/Privilege.thy ===== *)
theory Privilege
  imports Go_Strconv Go_Utf
begin

text \<open>
  Privileges (\<^verbatim>\<open>src/privilege.go\<close>): the cache of privilege values, enabling privileges for a
  function call on an impersonating thread, and for the process. Deferred calls run on every path,
  panics included, so what is undone is part of the model: the lock of the thread, the
  impersonation and the open tokens.
\<close>

section \<open>State and system calls\<close>

record priv_state =
  privNames :: "gostring \<Rightarrow> u64 option"
  locks :: nat
  impersonating :: bool
  tokens :: "nat set"
  adjusted :: "(nat \<times> bytes) list"

text \<open>
  The calls as functions: the value of a privilege, the errors of \<^verbatim>\<open>impersonateSelf\<close> and
  \<^verbatim>\<open>revertToSelf\<close>, the tokens of the thread and of the process, and whether the adjustment
  succeeded, with its error.
\<close>

record priv_system =
  lookupPrivilegeValue :: "gostring \<Rightarrow> u64 res"
  impersonateSelf :: "go_error option"
  revertToSelf :: "go_error option"
  openThreadToken :: "nat res"
  openProcessToken :: "nat res"
  adjustTokenPrivileges :: "nat \<Rightarrow> bytes \<Rightarrow> nat \<Rightarrow> bool \<times> go_error option"

definition SE_PRIVILEGE_ENABLED :: u32 where "SE_PRIVILEGE_ENABLED = 2"

definition ERROR_NOT_ALL_ASSIGNED :: go_error where "ERROR_NOT_ALL_ASSIGNED = Errno 1300"

definition PrivilegeError :: "u64 list \<Rightarrow> go_error" where
  "PrivilegeError ps = ErrFmt ''Could not enable privilege'' (map uint ps)"

definition result_of :: "go_error option \<Rightarrow> unit res" where
  "result_of e = (case e of None \<Rightarrow> Ok () | Some e \<Rightarrow> Err e)"

section \<open>Operations\<close>

fun mapPrivileges :: "(gostring \<Rightarrow> u64 res) \<Rightarrow> gostring list \<Rightarrow> priv_state \<Rightarrow> u64 list res \<times> priv_state" where
  "mapPrivileges lookup [] s = (Ok [], s)"
| "mapPrivileges lookup (name # names) s =
     (case privNames s name of
        Some p \<Rightarrow> (case mapPrivileges lookup names s of (r, s) \<Rightarrow> (bind_res r (\<lambda>ps. Ok (p # ps)), s))
      | None \<Rightarrow>
          (case lookup name of
             Err e \<Rightarrow> (Err e, s)
           | Panic q \<Rightarrow> (Panic q, s)
           | Ok p \<Rightarrow>
               (case mapPrivileges lookup names (s\<lparr>privNames := (privNames s)(name := Some p)\<rparr>) of
                  (r, s) \<Rightarrow> (bind_res r (\<lambda>ps. Ok (p # ps)), s))))"

definition privilege_buffer :: "u64 list \<Rightarrow> u32 \<Rightarrow> bytes" where
  "privilege_buffer ps action =
     le_enc 4 (of_nat (length ps) :: u32) @ concat (map (\<lambda>p. le_enc 8 p @ le_enc 4 action) ps)"

definition adjustPrivileges :: "priv_system \<Rightarrow> nat \<Rightarrow> u64 list \<Rightarrow> u32 \<Rightarrow> priv_state \<Rightarrow> unit res \<times> priv_state" where
  "adjustPrivileges sys token ps action s =
     (let b = privilege_buffer ps action;
          (success, err) = adjustTokenPrivileges sys token b (length b);
          s = s\<lparr>adjusted := adjusted s @ [(token, b)]\<rparr>
      in (if \<not> success then result_of err
          else if err = Some ERROR_NOT_ALL_ASSIGNED then Err (PrivilegeError ps)
          else Ok (), s))"

definition newThreadToken :: "priv_system \<Rightarrow> priv_state \<Rightarrow> nat res \<times> priv_state" where
  "newThreadToken sys s =
     (case impersonateSelf sys of
        Some e \<Rightarrow> (Err e, s)
      | None \<Rightarrow>
          let s = s\<lparr>impersonating := True\<rparr> in
          (case openThreadToken sys of
             Ok token \<Rightarrow> (Ok token, s\<lparr>tokens := insert token (tokens s)\<rparr>)
           | Panic p \<Rightarrow> (Panic p, s)
           | Err e \<Rightarrow>
               (case revertToSelf sys of
                  Some rerr \<Rightarrow> (Panic ''revertToSelf'', s)
                | None \<Rightarrow> (Err e, s\<lparr>impersonating := False\<rparr>))))"

text \<open>The deferred release of the token replaces the result by a panic when it fails.\<close>

definition releaseThreadToken :: "priv_system \<Rightarrow> nat \<Rightarrow> unit res \<times> priv_state \<Rightarrow> unit res \<times> priv_state" where
  "releaseThreadToken sys token =
     (\<lambda>(r, s). case revertToSelf sys of
        Some e \<Rightarrow> (Panic ''revertToSelf'', s)
      | None \<Rightarrow> (r, s\<lparr>impersonating := False, tokens := tokens s - {token}\<rparr>))"

definition unlock :: "unit res \<times> priv_state \<Rightarrow> unit res \<times> priv_state" where
  "unlock = (\<lambda>(r, s). (r, s\<lparr>locks := locks s - 1\<rparr>))"

text \<open>
  The function runs in the world \<open>'w\<close> and sees the state of its thread; the world is threaded
  through so that whether it ran is visible.
\<close>

definition RunWithPrivileges ::
  "priv_system \<Rightarrow> gostring list \<Rightarrow> (priv_state \<Rightarrow> 'w \<Rightarrow> unit res \<times> 'w) \<Rightarrow> priv_state \<Rightarrow> 'w \<Rightarrow> (unit res \<times> priv_state) \<times> 'w" where
  "RunWithPrivileges sys names fn s w =
     (case mapPrivileges (lookupPrivilegeValue sys) names s of
        (Err e, s) \<Rightarrow> ((Err e, s), w)
      | (Panic p, s) \<Rightarrow> ((Panic p, s), w)
      | (Ok privileges, s) \<Rightarrow>
          let s = s\<lparr>locks := locks s + 1\<rparr> in
          (case newThreadToken sys s of
             (Err e, s) \<Rightarrow> (unlock (Err e, s), w)
           | (Panic p, s) \<Rightarrow> (unlock (Panic p, s), w)
           | (Ok token, s) \<Rightarrow>
               (case adjustPrivileges sys token privileges SE_PRIVILEGE_ENABLED s of
                  (Ok _, s) \<Rightarrow> (case fn s w of (r, w) \<Rightarrow> (unlock (releaseThreadToken sys token (r, s)), w))
                | (r, s) \<Rightarrow> (unlock (releaseThreadToken sys token (r, s)), w))))"

definition RunWithPrivilege where
  "RunWithPrivilege sys name fn s w = RunWithPrivileges sys [name] fn s w"

definition enableDisableProcessPrivilege :: "priv_system \<Rightarrow> gostring list \<Rightarrow> u32 \<Rightarrow> priv_state \<Rightarrow> unit res \<times> priv_state" where
  "enableDisableProcessPrivilege sys names action s =
     (case mapPrivileges (lookupPrivilegeValue sys) names s of
        (Err e, s) \<Rightarrow> (Err e, s)
      | (Panic p, s) \<Rightarrow> (Panic p, s)
      | (Ok privileges, s) \<Rightarrow>
          (case openProcessToken sys of
             Err e \<Rightarrow> (Err e, s)
           | Panic p \<Rightarrow> (Panic p, s)
           | Ok token \<Rightarrow>
               (case adjustPrivileges sys token privileges action (s\<lparr>tokens := insert token (tokens s)\<rparr>) of
                  (r, s) \<Rightarrow> (r, s\<lparr>tokens := tokens s - {token}\<rparr>))))"

definition EnableProcessPrivileges where
  "EnableProcessPrivileges sys names s = enableDisableProcessPrivilege sys names SE_PRIVILEGE_ENABLED s"

definition DisableProcessPrivileges where
  "DisableProcessPrivileges sys names s = enableDisableProcessPrivilege sys names 0 s"

section \<open>The text of the error\<close>

text \<open>
  \<open>name_of\<close> and \<open>display_of\<close> are the calls that fill a buffer with the name of a privilege and
  with its display name; what is in the buffer is returned.
\<close>

definition getPrivilegeName :: "(u64 \<Rightarrow> u16 list res) \<Rightarrow> (u16 list \<Rightarrow> u16 list res) \<Rightarrow> u64 \<Rightarrow> gostring" where
  "getPrivilegeName name_of display_of luid =
     (case name_of luid of
        Ok name \<Rightarrow>
          (case display_of name of
             Ok display \<Rightarrow> string_of_runes (utf16_Decode display)
           | _ \<Rightarrow> bs_of ''<unknown privilege '' @ string_of_runes (utf16_Decode name) @ bs_of ''>'')
      | _ \<Rightarrow> bs_of ''<unknown privilege '' @ FormatUint (unat luid) @ bs_of ''>'')"

fun quoted_list :: "gostring list \<Rightarrow> gostring" where
  "quoted_list [] = []"
| "quoted_list [n] = [34] @ n @ [34]"
| "quoted_list (n # ns) = [34] @ n @ [34] @ [44, 32] @ quoted_list ns"

definition PrivilegeError_Error :: "(u64 \<Rightarrow> gostring) \<Rightarrow> u64 list \<Rightarrow> gostring" where
  "PrivilegeError_Error name ps =
     (if length ps > 1 then bs_of ''Could not enable privileges '' else bs_of ''Could not enable privilege '') @
     quoted_list (map name ps)"

section \<open>The cache refines the lookups\<close>

fun lookup_all :: "(gostring \<Rightarrow> u64 res) \<Rightarrow> gostring list \<Rightarrow> u64 list res" where
  "lookup_all lookup [] = Ok []"
| "lookup_all lookup (n # ns) = bind_res (lookup n) (\<lambda>p. bind_res (lookup_all lookup ns) (\<lambda>ps. Ok (p # ps)))"

definition cache_ok :: "(gostring \<Rightarrow> u64 res) \<Rightarrow> priv_state \<Rightarrow> bool" where
  "cache_ok lookup s \<longleftrightarrow> (\<forall>n p. privNames s n = Some p \<longrightarrow> lookup n = Ok p)"

text \<open>Only the cache changes, and only by adding to it.\<close>

definition cache_only :: "priv_state \<Rightarrow> priv_state \<Rightarrow> bool" where
  "cache_only s s' \<longleftrightarrow> s' = s\<lparr>privNames := privNames s'\<rparr> \<and> privNames s \<subseteq>\<^sub>m privNames s'"

lemma cache_only_refl [simp]: "cache_only s s"
  by (simp add: cache_only_def)

lemma mapPrivileges_refines:
  assumes "cache_ok lookup s" and "mapPrivileges lookup names s = (r, s')"
  shows "r = lookup_all lookup names \<and> cache_ok lookup s' \<and> cache_only s s'"
  using assms
proof (induction names arbitrary: s r s')
  case (Cons n ns)
  show ?case
  proof (cases "privNames s n")
    case None
    show ?thesis
    proof (cases "lookup n")
      case (Ok p)
      let ?s = "s\<lparr>privNames := (privNames s)(n := Some p)\<rparr>"
      obtain r' s1 where m: "mapPrivileges lookup ns ?s = (r', s1)" by (cases "mapPrivileges lookup ns ?s")
      have "cache_ok lookup ?s" using Cons.prems(1) Ok by (auto simp: cache_ok_def)
      from Cons.IH [OF this m] have IH: "r' = lookup_all lookup ns" "cache_ok lookup s1" "cache_only ?s s1" by simp_all
      moreover have "s' = s1" "r = bind_res r' (\<lambda>ps. Ok (p # ps))" using Cons.prems(2) None Ok m by simp_all
      moreover have "cache_only s s1"
        using IH(3) None by (auto simp: cache_only_def map_le_def split: if_splits) (metis domI option.distinct(1))+
      ultimately show ?thesis using Ok by simp
    qed (use Cons.prems None in auto)
  next
    case (Some p)
    obtain r' s1 where m: "mapPrivileges lookup ns s = (r', s1)" by (cases "mapPrivileges lookup ns s")
    then show ?thesis using Cons.IH [OF Cons.prems(1) m] Cons.prems Some by (auto simp: cache_ok_def)
  qed
qed simp

text \<open>
  C39: The cache of privilege values is invisible: as long as it holds what the system answered, the
  result of \<^verbatim>\<open>mapPrivileges\<close> is that of looking every name up, in order and up to the first
  error, and the cache afterwards holds what the system answered, and everything it held before.
\<close>

theorem privilege_cache:
  assumes "cache_ok lookup s" and "mapPrivileges lookup names s = (r, s')"
  shows "r = lookup_all lookup names \<and> cache_ok lookup s' \<and> privNames s \<subseteq>\<^sub>m privNames s' \<and> s' = s\<lparr>privNames := privNames s'\<rparr>"
  using mapPrivileges_refines [OF assms] by (simp add: cache_only_def)

definition no_privileges :: priv_state where
  "no_privileges = \<lparr>privNames = Map.empty, locks = 0, impersonating = False, tokens = {}, adjusted = []\<rparr>"

theorem privilege_cache_witness:
  "fst (mapPrivileges (\<lambda>n. Ok (of_nat (length n))) [[65], [66, 67], [65]] no_privileges) = Ok [1, 2, 1]"
proof -
  obtain r s' where m: "mapPrivileges (\<lambda>n. Ok (of_nat (length n))) [[65], [66, 67], [65]] no_privileges = (r, s')"
    by (cases "mapPrivileges (\<lambda>n. Ok (of_nat (length n) :: u64)) [[65], [66, 67], [65 :: byte]] no_privileges")
  have "cache_ok (\<lambda>n. Ok (of_nat (length n))) no_privileges" by (simp add: cache_ok_def no_privileges_def)
  then have "r = Ok [1, 2, 1]" using privilege_cache [OF _ m] by simp
  then show ?thesis unfolding m by simp
qed

section \<open>What a call of a privileged function leaves behind\<close>

text \<open>The function ran on a thread that was locked, impersonating, and had the privileges enabled.\<close>

definition ran_privileged ::
  "priv_system \<Rightarrow> gostring list \<Rightarrow> (priv_state \<Rightarrow> 'w \<Rightarrow> unit res \<times> 'w) \<Rightarrow> priv_state \<Rightarrow> 'w \<Rightarrow> unit res \<Rightarrow> 'w \<Rightarrow> bool" where
  "ran_privileged sys names fn s w r w' \<longleftrightarrow>
     (\<exists>ps t sf b. lookup_all (lookupPrivilegeValue sys) names = Ok ps \<and> b = privilege_buffer ps SE_PRIVILEGE_ENABLED \<and>
        openThreadToken sys = Ok t \<and>
        (\<exists>e. adjustTokenPrivileges sys t b (length b) = (True, e) \<and> e \<noteq> Some ERROR_NOT_ALL_ASSIGNED) \<and>
        impersonating sf \<and> locks sf = locks s + 1 \<and> t \<in> tokens sf \<and> adjusted sf = adjusted s @ [(t, b)] \<and>
        fn sf w = (r, w'))"

lemma run_cases:
  assumes "cache_ok (lookupPrivilegeValue sys) s" and "revertToSelf sys = None" and "\<not> impersonating s"
    and "\<And>t. openThreadToken sys = Ok t \<Longrightarrow> t \<notin> tokens s"
    and "\<And>t b n. adjustTokenPrivileges sys t b n \<noteq> (False, None)" and "\<not> panics (openThreadToken sys)"
    and "RunWithPrivileges sys names fn s w = ((r, s'), w')"
  shows "locks s' = locks s \<and> \<not> impersonating s' \<and> tokens s' = tokens s \<and>
    (ran_privileged sys names fn s w r w' \<or> w' = w \<and> r \<noteq> Ok ())"
proof -
  obtain r1 s1 where m: "mapPrivileges (lookupPrivilegeValue sys) names s = (r1, s1)"
    by (cases "mapPrivileges (lookupPrivilegeValue sys) names s")
  have r1: "r1 = lookup_all (lookupPrivilegeValue sys) names" and s1: "s1 = s\<lparr>privNames := privNames s1\<rparr>"
    using mapPrivileges_refines [OF assms(1) m] by (simp_all add: cache_only_def)
  define c where "c = privNames s1"
  have s1': "s1 = s\<lparr>privNames := c\<rparr>" using s1 by (simp add: c_def)
  show ?thesis
  proof (cases r1)
    case (Ok ps)
    let ?b = "privilege_buffer ps SE_PRIVILEGE_ENABLED"
    show ?thesis
    proof (cases "impersonateSelf sys")
      case None
      note imp = None
      show ?thesis
      proof (cases "openThreadToken sys")
        case (Ok t)
        let ?sf = "s\<lparr>privNames := c, locks := locks s + 1, impersonating := True, tokens := insert t (tokens s), adjusted := adjusted s @ [(t, ?b)]\<rparr>"
        obtain succ e where a: "adjustTokenPrivileges sys t ?b (length ?b) = (succ, e)" by (cases "adjustTokenPrivileges sys t ?b (length ?b)")
        show ?thesis
        proof (cases "succ \<and> e \<noteq> Some ERROR_NOT_ALL_ASSIGNED")
          case True
          have f: "fn ?sf w = (r, w')" and s': "s' = s\<lparr>privNames := c, adjusted := adjusted s @ [(t, ?b)]\<rparr>"
            using assms(2,3) assms(4) [OF Ok] assms(7) m \<open>r1 = Ok ps\<close> imp Ok a True
            by (auto simp: RunWithPrivileges_def newThreadToken_def adjustPrivileges_def releaseThreadToken_def unlock_def s1' Let_def
                split: prod.splits)
          have "ran_privileged sys names fn s w r w'"
            unfolding ran_privileged_def using r1 \<open>r1 = Ok ps\<close> Ok a True f by (intro exI [of _ ps] exI [of _ t] exI [of _ ?sf] exI [of _ ?b]) auto
          then show ?thesis using s' assms(3) by simp
        next
          case False
          then show ?thesis
            using assms(2,3) assms(4) [OF Ok] assms(5) [of t ?b "length ?b"] assms(7) m \<open>r1 = Ok ps\<close> imp Ok a
            by (auto simp: RunWithPrivileges_def newThreadToken_def adjustPrivileges_def releaseThreadToken_def unlock_def s1' Let_def result_of_def
                split: option.splits if_splits)
        qed
      qed (use assms(2,3,6,7) m \<open>r1 = Ok ps\<close> imp in \<open>auto simp: RunWithPrivileges_def newThreadToken_def unlock_def s1' Let_def\<close>)
    qed (use assms(3,7) m Ok in \<open>auto simp: RunWithPrivileges_def newThreadToken_def unlock_def s1' Let_def\<close>)
  qed (use assms(3,7) m in \<open>auto simp: RunWithPrivileges_def s1'\<close>)
qed


definition sample_privileges :: priv_system where
  "sample_privileges = \<lparr>lookupPrivilegeValue = (\<lambda>n. Ok 17), impersonateSelf = None, revertToSelf = None,
     openThreadToken = Ok 3, openProcessToken = Ok 4, adjustTokenPrivileges = (\<lambda>_ _ _. (True, None))\<rparr>"


text \<open>When the impersonation cannot be reverted, the call panics rather than return.\<close>

lemma run_revert_fails:
  assumes "revertToSelf sys = Some e" and "impersonateSelf sys = None" and "openThreadToken sys = Ok t"
    and "lookup_all (lookupPrivilegeValue sys) names = Ok ps" and "cache_ok (lookupPrivilegeValue sys) s"
  shows "panics (fst (fst (RunWithPrivileges sys names fn s w)))"
proof -
  obtain r1 s1 where m: "mapPrivileges (lookupPrivilegeValue sys) names s = (r1, s1)"
    by (cases "mapPrivileges (lookupPrivilegeValue sys) names s")
  then have "r1 = Ok ps" using mapPrivileges_refines [OF assms(5) m] assms(4) by simp
  then show ?thesis
    using m assms(1-3) by (auto simp: RunWithPrivileges_def newThreadToken_def releaseThreadToken_def unlock_def Let_def
        split: prod.split res.split)
qed

end
