(* ===== verification/Vhd.thy ===== *)
theory Vhd
  imports Guid
begin

text \<open>
  Virtual disks (\<^verbatim>\<open>src/vhd/vhd.go\<close>): the parameters that the helpers build for the system, with
  the sizes computed at their width, and the handles that they open and close. The calls of
  \<^verbatim>\<open>virtdisk.dll\<close> are parameters.
\<close>

section \<open>Parameters\<close>

record VirtualStorageType =
  DeviceID :: u32
  VendorID :: GUID

record CreateVersion2 =
  UniqueID :: GUID
  MaximumSize :: u64
  BlockSizeInBytes :: u32
  SectorSizeInBytes :: u32
  PhysicalSectorSizeInByte :: u32
  ParentPath :: "u16 list option"
  SourcePath :: "u16 list option"
  OpenFlags :: u32
  ParentVirtualStorageType :: VirtualStorageType
  SourceVirtualStorageType :: VirtualStorageType
  cv_ResiliencyGUID :: GUID

record CreateVirtualDiskParameters =
  cp_Version :: u32
  cp_Version2 :: CreateVersion2

record OpenVersion2 =
  GetInfoOnly :: bool
  ReadOnly :: bool
  ov_ResiliencyGUID :: GUID

record OpenVirtualDiskParameters =
  op_Version :: u32
  op_Version2 :: OpenVersion2

record openVersion2 =
  getInfoOnly :: u32
  readOnly :: u32
  resiliencyGUID :: GUID

record openVirtualDiskParameters =
  version :: u32
  version2 :: openVersion2

record AttachVersion2 =
  RestrictedOffset :: u64
  RestrictedLength :: u64

record AttachVirtualDiskParameters =
  ap_Version :: u32
  ap_Version2 :: AttachVersion2

definition zero_storage :: VirtualStorageType where "zero_storage = \<lparr>DeviceID = 0, VendorID = zero_guid\<rparr>"

definition zero_create :: CreateVersion2 where
  "zero_create =
     \<lparr>UniqueID = zero_guid, MaximumSize = 0, BlockSizeInBytes = 0, SectorSizeInBytes = 0, PhysicalSectorSizeInByte = 0,
      ParentPath = None, SourcePath = None, OpenFlags = 0, ParentVirtualStorageType = zero_storage,
      SourceVirtualStorageType = zero_storage, cv_ResiliencyGUID = zero_guid\<rparr>"

section \<open>Access masks and flags\<close>

definition VirtualDiskAccessNone :: u32 where "VirtualDiskAccessNone = 0"
definition VirtualDiskAccessAttachRO :: u32 where "VirtualDiskAccessAttachRO = 0x00010000"
definition VirtualDiskAccessAttachRW :: u32 where "VirtualDiskAccessAttachRW = 0x00020000"
definition VirtualDiskAccessDetach :: u32 where "VirtualDiskAccessDetach = 0x00040000"
definition VirtualDiskAccessGetInfo :: u32 where "VirtualDiskAccessGetInfo = 0x00080000"
definition VirtualDiskAccessCreate :: u32 where "VirtualDiskAccessCreate = 0x00100000"
definition VirtualDiskAccessMetaOps :: u32 where "VirtualDiskAccessMetaOps = 0x00200000"
definition VirtualDiskAccessRead :: u32 where "VirtualDiskAccessRead = 0x000d0000"
definition VirtualDiskAccessAll :: u32 where "VirtualDiskAccessAll = 0x003f0000"
definition VirtualDiskAccessWritable :: u32 where "VirtualDiskAccessWritable = 0x00320000"
definition CreateVirtualDiskFlagNone :: u32 where "CreateVirtualDiskFlagNone = 0"
definition OpenVirtualDiskFlagCachedIO :: u32 where "OpenVirtualDiskFlagCachedIO = 8"
definition OpenVirtualDiskFlagIgnoreRelativeParentLocator :: u32 where
  "OpenVirtualDiskFlagIgnoreRelativeParentLocator = 0x80"
definition AttachVirtualDiskFlagNone :: u32 where "AttachVirtualDiskFlagNone = 0"

section \<open>Operations\<close>

text \<open>The system: \<open>close\<close> returns the error of \<^verbatim>\<open>CloseHandle\<close>.\<close>

record vhd_system =
  createVirtualDisk :: "VirtualStorageType \<Rightarrow> gostring \<Rightarrow> u32 \<Rightarrow> u32 \<Rightarrow> CreateVirtualDiskParameters \<Rightarrow> nat res"
  openVirtualDisk :: "VirtualStorageType \<Rightarrow> gostring \<Rightarrow> u32 \<Rightarrow> u32 \<Rightarrow> openVirtualDiskParameters \<Rightarrow> nat res"
  attachVirtualDisk :: "nat \<Rightarrow> u32 \<Rightarrow> AttachVirtualDiskParameters \<Rightarrow> go_error option"
  detachVirtualDisk :: "nat \<Rightarrow> u32 \<Rightarrow> go_error option"
  getVirtualDiskPhysicalPath :: "nat \<Rightarrow> nat \<Rightarrow> u16 list res"
  CloseHandle :: "nat \<Rightarrow> go_error option"

text \<open>The set is that of the open handles.\<close>

definition opened :: "nat res \<Rightarrow> nat set \<Rightarrow> nat res \<times> nat set" where
  "opened r handles = (r, case r of Ok h \<Rightarrow> insert h handles | _ \<Rightarrow> handles)"

definition closed :: "vhd_system \<Rightarrow> nat \<Rightarrow> nat set \<Rightarrow> nat set" where
  "closed sys h handles = (if CloseHandle sys h = None then handles - {h} else handles)"

definition error_res :: "go_error option \<Rightarrow> unit res" where
  "error_res e = (case e of None \<Rightarrow> Ok () | Some e \<Rightarrow> Err e)"

definition CreateVirtualDisk ::
  "vhd_system \<Rightarrow> gostring \<Rightarrow> u32 \<Rightarrow> u32 \<Rightarrow> CreateVirtualDiskParameters \<Rightarrow> nat set \<Rightarrow> nat res \<times> nat set" where
  "CreateVirtualDisk sys path amask flags params handles =
     (if cp_Version params \<noteq> 2 then
        (Err (ErrFmt ''only version 2 VHDs are supported, found version: %d'' [uint (cp_Version params)]), handles)
      else opened (map_err (ErrWrap ''failed to create virtual disk'') (createVirtualDisk sys zero_storage path amask flags params)) handles)"

definition OpenVirtualDiskWithParameters ::
  "vhd_system \<Rightarrow> gostring \<Rightarrow> u32 \<Rightarrow> u32 \<Rightarrow> OpenVirtualDiskParameters \<Rightarrow> nat set \<Rightarrow> nat res \<times> nat set" where
  "OpenVirtualDiskWithParameters sys vhdPath amask flags parameters handles =
     (if op_Version parameters \<noteq> 2 then
        (Err (ErrFmt ''only version 2 VHDs are supported, found version: %d'' [uint (op_Version parameters)]), handles)
      else
        let params = \<lparr>version = op_Version parameters,
              version2 = \<lparr>getInfoOnly = (if GetInfoOnly (op_Version2 parameters) then 1 else 0),
                readOnly = (if ReadOnly (op_Version2 parameters) then 1 else 0),
                resiliencyGUID = ov_ResiliencyGUID (op_Version2 parameters)\<rparr>\<rparr>
        in opened (map_err (ErrWrap ''failed to open virtual disk'') (openVirtualDisk sys zero_storage vhdPath amask flags params)) handles)"

definition OpenVirtualDisk :: "vhd_system \<Rightarrow> gostring \<Rightarrow> u32 \<Rightarrow> u32 \<Rightarrow> nat set \<Rightarrow> nat res \<times> nat set" where
  "OpenVirtualDisk sys vhdPath amask flags handles =
     OpenVirtualDiskWithParameters sys vhdPath amask flags
       \<lparr>op_Version = 2, op_Version2 = \<lparr>GetInfoOnly = False, ReadOnly = False, ov_ResiliencyGUID = zero_guid\<rparr>\<rparr> handles"

definition vhdx_params :: "u32 \<Rightarrow> u32 \<Rightarrow> CreateVirtualDiskParameters" where
  "vhdx_params maxSizeInGb blockSizeInMb =
     \<lparr>cp_Version = 2, cp_Version2 = zero_create
        \<lparr>MaximumSize := ucast maxSizeInGb * 1024 * 1024 * 1024, BlockSizeInBytes := blockSizeInMb * 1024 * 1024\<rparr>\<rparr>"

definition CreateVhdx :: "vhd_system \<Rightarrow> gostring \<Rightarrow> u32 \<Rightarrow> u32 \<Rightarrow> nat set \<Rightarrow> unit res \<times> nat set" where
  "CreateVhdx sys path maxSizeInGb blockSizeInMb handles =
     (case CreateVirtualDisk sys path VirtualDiskAccessNone CreateVirtualDiskFlagNone (vhdx_params maxSizeInGb blockSizeInMb) handles of
        (Ok h, handles) \<Rightarrow> (error_res (CloseHandle sys h), closed sys h handles)
      | (Err e, handles) \<Rightarrow> (Err e, handles)
      | (Panic p, handles) \<Rightarrow> (Panic p, handles))"

definition DetachVirtualDisk :: "vhd_system \<Rightarrow> nat \<Rightarrow> unit res" where
  "DetachVirtualDisk sys h = map_err (ErrWrap ''failed to detach virtual disk'') (error_res (detachVirtualDisk sys h 0))"

definition AttachVirtualDisk :: "vhd_system \<Rightarrow> nat \<Rightarrow> u32 \<Rightarrow> AttachVirtualDiskParameters \<Rightarrow> unit res" where
  "AttachVirtualDisk sys h flag params =
     map_err (ErrWrap ''failed to attach virtual disk'') (error_res (attachVirtualDisk sys h flag params))"

definition with_vhd :: "vhd_system \<Rightarrow> gostring \<Rightarrow> (nat \<Rightarrow> unit res) \<Rightarrow> nat set \<Rightarrow> unit res \<times> nat set" where
  "with_vhd sys path f handles =
     (case OpenVirtualDisk sys path VirtualDiskAccessNone
         (OpenVirtualDiskFlagCachedIO OR OpenVirtualDiskFlagIgnoreRelativeParentLocator) handles of
        (Ok h, handles) \<Rightarrow> (f h, closed sys h handles)
      | (Err e, handles) \<Rightarrow> (Err e, handles)
      | (Panic p, handles) \<Rightarrow> (Panic p, handles))"

definition DetachVhd :: "vhd_system \<Rightarrow> gostring \<Rightarrow> nat set \<Rightarrow> unit res \<times> nat set" where
  "DetachVhd sys path handles = with_vhd sys path (DetachVirtualDisk sys) handles"

definition AttachVhd :: "vhd_system \<Rightarrow> gostring \<Rightarrow> nat set \<Rightarrow> unit res \<times> nat set" where
  "AttachVhd sys path handles =
     with_vhd sys path (\<lambda>h. map_err (ErrWrap ''failed to attach virtual disk'')
       (AttachVirtualDisk sys h AttachVirtualDiskFlagNone
         \<lparr>ap_Version = 2, ap_Version2 = \<lparr>RestrictedOffset = 0, RestrictedLength = 0\<rparr>\<rparr>)) handles"

text \<open>\<open>u16str\<close> is \<^verbatim>\<open>windows.UTF16ToString\<close> and \<open>u16ptr\<close> \<^verbatim>\<open>windows.StringToUTF16Ptr\<close>, which may panic.\<close>

definition GetVirtualDiskPhysicalPath :: "vhd_system \<Rightarrow> (u16 list \<Rightarrow> gostring) \<Rightarrow> nat \<Rightarrow> gostring res" where
  "GetVirtualDiskPhysicalPath sys u16str h =
     bind_res (map_err (ErrWrap ''failed to get disk physical path'') (getVirtualDiskPhysicalPath sys h (256 * 2)))
       (\<lambda>b. Ok (u16str (take 256 b @ replicate (256 - length b) 0)))"

definition CreateDiffVhd ::
  "vhd_system \<Rightarrow> (gostring \<Rightarrow> u16 list res) \<Rightarrow> gostring \<Rightarrow> gostring \<Rightarrow> u32 \<Rightarrow> nat set \<Rightarrow> unit res \<times> nat set" where
  "CreateDiffVhd sys u16ptr diffVhdPath baseVhdPath blockSizeInMB handles =
     (case u16ptr baseVhdPath of
        Err e \<Rightarrow> (Err e, handles)
      | Panic p \<Rightarrow> (Panic p, handles)
      | Ok base \<Rightarrow>
          let params = \<lparr>cp_Version = 2, cp_Version2 = zero_create
                \<lparr>ParentPath := Some base, BlockSizeInBytes := blockSizeInMB * 1024 * 1024, OpenFlags := OpenVirtualDiskFlagCachedIO\<rparr>\<rparr>
          in (case CreateVirtualDisk sys diffVhdPath VirtualDiskAccessNone CreateVirtualDiskFlagNone params handles of
                (Ok h, handles) \<Rightarrow>
                  (map_err (ErrWrap ''failed to close differencing vhd handle'') (error_res (CloseHandle sys h)), closed sys h handles)
              | (Err e, handles) \<Rightarrow> (Err (ErrWrap ''failed to create differencing vhd'' e), handles)
              | (Panic p, handles) \<Rightarrow> (Panic p, handles)))"

section \<open>Properties\<close>

text \<open>The composite masks are made of the single rights.\<close>

lemma access_masks:
  "VirtualDiskAccessRead = VirtualDiskAccessAttachRO OR VirtualDiskAccessDetach OR VirtualDiskAccessGetInfo"
  "VirtualDiskAccessWritable = VirtualDiskAccessAttachRW OR VirtualDiskAccessCreate OR VirtualDiskAccessMetaOps"
  "VirtualDiskAccessAll = VirtualDiskAccessRead OR VirtualDiskAccessWritable"
  by (simp_all add: VirtualDiskAccessRead_def VirtualDiskAccessAttachRO_def VirtualDiskAccessDetach_def VirtualDiskAccessGetInfo_def
      VirtualDiskAccessWritable_def VirtualDiskAccessAttachRW_def VirtualDiskAccessCreate_def VirtualDiskAccessMetaOps_def VirtualDiskAccessAll_def)

text \<open>A system whose new handles are not in use and close.\<close>

definition vhd_handles_ok :: "vhd_system \<Rightarrow> nat set \<Rightarrow> bool" where
  "vhd_handles_ok sys handles \<longleftrightarrow>
     (\<forall>t p m f q h. createVirtualDisk sys t p m f q = Ok h \<longrightarrow> h \<notin> handles) \<and>
     (\<forall>t p m f q h. openVirtualDisk sys t p m f q = Ok h \<longrightarrow> h \<notin> handles) \<and> (\<forall>h. CloseHandle sys h = None)"

lemma opened_closed:
  assumes "vhd_handles_ok sys handles"
  shows "CreateVirtualDisk sys path m f ps handles = (Ok h, hs) \<Longrightarrow> closed sys h hs = handles"
    and "OpenVirtualDisk sys path m f handles = (Ok h, hs) \<Longrightarrow> closed sys h hs = handles"
    and "CreateVirtualDisk sys path m f ps handles = (Err e, hs) \<Longrightarrow> hs = handles"
    and "OpenVirtualDisk sys path m f handles = (Err e, hs) \<Longrightarrow> hs = handles"
    and "CreateVirtualDisk sys path m f ps handles = (Panic q, hs) \<Longrightarrow> hs = handles"
    and "OpenVirtualDisk sys path m f handles = (Panic q, hs) \<Longrightarrow> hs = handles"
  using assms
  by (auto simp: CreateVirtualDisk_def OpenVirtualDisk_def OpenVirtualDiskWithParameters_def opened_def closed_def vhd_handles_ok_def
      map_err_def Let_def split: if_splits res.splits)

lemma with_vhd_handles: "vhd_handles_ok sys handles \<Longrightarrow> snd (with_vhd sys path f handles) = handles"
  using opened_closed(2,4,6) [of sys handles] by (auto simp: with_vhd_def split: res.split prod.split)

text \<open>
  The helpers leave no handle open, whether they succeed or fail, when the system's handles
  close.
\<close>

theorem vhd_no_handle_leaks:
  assumes "vhd_handles_ok sys handles"
  shows "snd (CreateVhdx sys path g m handles) = handles \<and> snd (CreateDiffVhd sys u16ptr path base m handles) = handles \<and>
    snd (AttachVhd sys path handles) = handles \<and> snd (DetachVhd sys path handles) = handles"
proof -
  note oc = opened_closed [OF assms]
  have "snd (CreateVhdx sys path g m handles) = handles"
    using oc(1,3,5) by (auto simp: CreateVhdx_def split: res.split prod.split)
  moreover have "snd (CreateDiffVhd sys u16ptr path base m handles) = handles"
    using oc(1,3,5) by (auto simp: CreateDiffVhd_def Let_def split: res.split prod.split)
  ultimately show ?thesis using with_vhd_handles [OF assms] by (simp add: AttachVhd_def DetachVhd_def)
qed

definition sample_vhd :: vhd_system where
  "sample_vhd = \<lparr>createVirtualDisk = (\<lambda>_ _ _ _ _. Ok 5), openVirtualDisk = (\<lambda>_ _ _ _ _. Ok 5),
     attachVirtualDisk = (\<lambda>_ _ _. None), detachVirtualDisk = (\<lambda>_ _. Some (Errno 87)),
     getVirtualDiskPhysicalPath = (\<lambda>_ _. Ok []), CloseHandle = (\<lambda>_. None)\<rparr>"

theorem vhd_no_handle_leaks_witness: "snd (CreateVhdx sample_vhd [65] 1 1 {3}) = {3} \<and> snd (DetachVhd sample_vhd [65] {3}) = {3}"
  using vhd_no_handle_leaks [of sample_vhd "{3}" "[65]" 1 1] by (simp add: vhd_handles_ok_def sample_vhd_def)

text \<open>
  The size of a new disk never overflows. Its block size is computed in 32 bits: it is right
  exactly below 4096 megabytes, and a multiple of 4096 megabytes becomes zero, which asks the system
  for its default.
\<close>

theorem vhdx_sizes:
  "unat (MaximumSize (cp_Version2 (vhdx_params g m))) = unat g * 2 ^ 30 \<and>
   (unat (BlockSizeInBytes (cp_Version2 (vhdx_params g m))) = unat m * 2 ^ 20 \<longleftrightarrow> unat m < 4096) \<and>
   (BlockSizeInBytes (cp_Version2 (vhdx_params g m)) = 0 \<longleftrightarrow> 4096 dvd unat m)"
proof -
  have g: "unat g < 2 ^ 32" by (rule order_less_le_trans [OF unsigned_less]) simp
  have "take_bit 64 (unat g) = unat g" using g by (intro take_bit_nat_eq_self) simp
  then have u: "unat (ucast g :: u64) = unat g" by (simp add: unsigned_ucast_eq)
  have "unat (ucast g * 1073741824 :: u64) = unat g * 1073741824 mod 2 ^ 64"
    by (simp add: unat_word_ariths(2) u)
  also have "\<dots> = unat g * 1073741824" using g by simp
  finally have "unat (MaximumSize (cp_Version2 (vhdx_params g m))) = unat g * 2 ^ 30"
    by (simp add: vhdx_params_def mult.assoc)
  moreover have b: "unat (BlockSizeInBytes (cp_Version2 (vhdx_params g m))) = (unat m * 2 ^ 20) mod 2 ^ 32"
    by (simp add: vhdx_params_def mult.assoc unat_word_ariths(2))
  moreover have "(unat m * 2 ^ 20) mod 2 ^ 32 = unat m * 2 ^ 20 \<longleftrightarrow> unat m < 4096"
    by (subst mod_eq_self_iff_div_eq_0) (simp add: div_eq_0_iff)
  moreover have "(unat m * 2 ^ 20) mod 2 ^ 32 = 0 \<longleftrightarrow> 4096 dvd unat m"
    using mod_mult_mult2 [of "unat m" "2 ^ 20" 4096] by (simp add: dvd_eq_mod_eq_0)
  ultimately show ?thesis by (simp add: unat_eq_0 [symmetric])
qed

end
