(* ===== verification/Hvsock.thy ===== *)
theory Hvsock
  imports Guid File Go_IO
begin

text \<open>
  Hyper-V sockets (\<^verbatim>\<open>src/hvsock.go\<close>, \<^verbatim>\<open>src/internal/socket/socket.go\<close>): addresses and
  their raw form, listening, accepting and dialing with the sockets that are opened and closed on
  the way, and the reads and writes of a connection. The system calls and the operations of the
  underlying \<^verbatim>\<open>win32File\<close> are parameters.
\<close>

section \<open>Addresses\<close>

definition afHVSock :: u16 where "afHVSock = 34"

definition HvsockGUIDWildcard :: GUID where "HvsockGUIDWildcard = zero_guid"

definition HvsockGUIDBroadcast :: GUID where
  "HvsockGUIDBroadcast = \<lparr>Data1 = 0xffffffff, Data2 = 0xffff, Data3 = 0xffff, Data4 = replicate 8 0xff\<rparr>"

definition HvsockGUIDLoopback :: GUID where
  "HvsockGUIDLoopback =
     \<lparr>Data1 = 0xe0e16197, Data2 = 0xdd56, Data3 = 0x4a10, Data4 = [0x91, 0x95, 0x5e, 0xe7, 0xa1, 0x55, 0xa8, 0x38]\<rparr>"

definition HvsockGUIDSiloHost :: GUID where
  "HvsockGUIDSiloHost =
     \<lparr>Data1 = 0x36bd0c5c, Data2 = 0x7276, Data3 = 0x4223, Data4 = [0x88, 0xba, 0x7d, 0x03, 0xb6, 0x54, 0xc5, 0x68]\<rparr>"

definition HvsockGUIDChildren :: GUID where
  "HvsockGUIDChildren =
     \<lparr>Data1 = 0x90db8b89, Data2 = 0xd35, Data3 = 0x4f79, Data4 = [0x8c, 0xe9, 0x49, 0xea, 0xa, 0xc8, 0xb7, 0xcd]\<rparr>"

definition HvsockGUIDParent :: GUID where
  "HvsockGUIDParent =
     \<lparr>Data1 = 0xa42e7cda, Data2 = 0xd03f, Data3 = 0x480c, Data4 = [0x9c, 0xc2, 0xa4, 0xde, 0x20, 0xab, 0xb8, 0x78]\<rparr>"

definition hvsockVsockServiceTemplate :: GUID where
  "hvsockVsockServiceTemplate =
     \<lparr>Data1 = 0, Data2 = 0xfacb, Data3 = 0x11e6, Data4 = [0xbd, 0x58, 0x64, 0x00, 0x6a, 0x79, 0x86, 0xd3]\<rparr>"

definition VsockServiceID :: "u32 \<Rightarrow> GUID" where
  "VsockServiceID port = hvsockVsockServiceTemplate\<lparr>Data1 := port\<rparr>"

record HvsockAddr =
  VMID :: GUID
  ServiceID :: GUID

record rawHvsockAddr =
  Family :: u16
  padding :: u16
  raw_VMID :: GUID
  raw_ServiceID :: GUID

definition HvsockAddr_String :: "HvsockAddr \<Rightarrow> gostring" where
  "HvsockAddr_String a = GUID_String (VMID a) @ [58] @ GUID_String (ServiceID a)"

definition raw_addr :: "HvsockAddr \<Rightarrow> rawHvsockAddr" where
  "raw_addr a = \<lparr>Family = afHVSock, padding = 0, raw_VMID = VMID a, raw_ServiceID = ServiceID a\<rparr>"

definition fromRaw :: "rawHvsockAddr \<Rightarrow> HvsockAddr" where
  "fromRaw r = \<lparr>VMID = raw_VMID r, ServiceID = raw_ServiceID r\<rparr>"

text \<open>The raw address in memory, which is 36 bytes long.\<close>

definition raw_enc :: "rawHvsockAddr \<Rightarrow> bytes" where
  "raw_enc r = le_enc 2 (Family r) @ le_enc 2 (padding r) @ ToWindowsArray (raw_VMID r) @ ToWindowsArray (raw_ServiceID r)"

definition raw_dec :: "bytes \<Rightarrow> rawHvsockAddr" where
  "raw_dec b =
     \<lparr>Family = le_dec (take 2 b), padding = le_dec (take 2 (drop 2 b)),
      raw_VMID = FromWindowsArray (take 16 (drop 4 b)), raw_ServiceID = FromWindowsArray (take 16 (drop 20 b))\<rparr>"

definition raw_size :: nat where "raw_size = 36"

definition ErrBufferSize :: go_error where "ErrBufferSize = ErrNew ''buffer size''"
definition ErrAddrFamily :: go_error where "ErrAddrFamily = ErrNew ''address family''"
definition ErrSocketClosed :: go_error where
  "ErrSocketClosed = ErrWrap ''socket closed'' (ErrNew ''use of closed network connection'')"

text \<open>The receiver after the call, which is overwritten even when its family is wrong, and the error.\<close>

definition FromBytes :: "rawHvsockAddr \<Rightarrow> bytes \<Rightarrow> rawHvsockAddr \<times> go_error option" where
  "FromBytes r b =
     (if length b < raw_size then (r, Some (ErrWrap ''got %d, want %d'' ErrBufferSize))
      else
        let r = raw_dec (take raw_size b) in
        (r, if Family r \<noteq> afHVSock then Some (ErrWrap ''got %d, want %d'' ErrAddrFamily) else None))"

section \<open>Opening sockets\<close>

record HvsockConn =
  conn_sock :: nat
  local_addr :: HvsockAddr
  remote_addr :: HvsockAddr

text \<open>
  The calls of the system, which know the socket they are made on: creation, \<^verbatim>\<open>makeWin32File\<close>,
  \<^verbatim>\<open>bind\<close>, \<^verbatim>\<open>listen\<close>, \<^verbatim>\<open>prepareIO\<close>, \<^verbatim>\<open>AcceptEx\<close> with the buffer it
  fills, \<^verbatim>\<open>setsockopt\<close> and \<^verbatim>\<open>getsockname\<close>.
\<close>

record hv_system =
  Socket :: "nat res"
  mkfile :: "nat \<Rightarrow> go_error option"
  Bind :: "nat \<Rightarrow> bytes \<Rightarrow> go_error option"
  Listen :: "nat \<Rightarrow> nat \<Rightarrow> go_error option"
  prepare :: "nat \<Rightarrow> go_error option"
  AcceptEx :: "nat \<Rightarrow> nat \<Rightarrow> go_error option \<times> bytes"
  Setsockopt :: "nat \<Rightarrow> go_error option"
  GetSockName :: "nat \<Rightarrow> go_error option \<times> bytes"

definition conn_opErr :: "string \<Rightarrow> go_error \<Rightarrow> go_error" where
  "conn_opErr op e = ErrWrap op (if errors_Is e ErrFileClosed then ErrSocketClosed else e)"

definition newHVSocket :: "hv_system \<Rightarrow> nat set \<Rightarrow> nat res \<times> nat set" where
  "newHVSocket sys handles =
     (case map_err (ErrWrap ''socket'') (Socket sys) of
        Ok fd \<Rightarrow>
          (case mkfile sys fd of
             None \<Rightarrow> (Ok fd, insert fd handles)
           | Some e \<Rightarrow> (Err e, insert fd handles - {fd}))
      | r \<Rightarrow> (r, handles))"

text \<open>The steps after the socket exists; an error of any of them is the result.\<close>

fun first_error :: "(go_error option) list \<Rightarrow> go_error option" where
  "first_error [] = None"
| "first_error (None # es) = first_error es"
| "first_error (Some e # es) = Some e"

definition ListenHvsock :: "hv_system \<Rightarrow> HvsockAddr \<Rightarrow> nat set \<Rightarrow> nat res \<times> nat set" where
  "ListenHvsock sys addr handles =
     (case newHVSocket sys handles of
        (Ok sock, handles) \<Rightarrow>
          (case first_error
             [map_option (ErrWrap ''socket'') (Bind sys sock (raw_enc (raw_addr addr))),
              map_option (ErrWrap ''listen'') (Listen sys sock 16)] of
             None \<Rightarrow> (Ok sock, handles)
           | Some e \<Rightarrow> (Err (ErrWrap ''listen'' e), handles - {sock}))
      | (Err e, handles) \<Rightarrow> (Err (ErrWrap ''listen'' e), handles)
      | (Panic p, handles) \<Rightarrow> (Panic p, handles))"

text \<open>
  \<^verbatim>\<open>Accept\<close> on the listening socket \<open>l\<close>: the buffer has room for two addresses with 16 bytes
  more each. The errors before the addresses are known have the listener's form.
\<close>

definition accept_addrlen :: nat where "accept_addrlen = 16 + raw_size"

definition accept_buffer :: "bytes \<Rightarrow> bytes" where
  "accept_buffer filled = take (2 * accept_addrlen) filled @ replicate (2 * accept_addrlen - length filled) 0"

definition hv_Accept :: "hv_system \<Rightarrow> nat \<Rightarrow> nat set \<Rightarrow> HvsockConn res \<times> nat set" where
  "hv_Accept sys l handles =
     (case newHVSocket sys handles of
        (Ok sock, handles) \<Rightarrow>
          (case prepare sys l of
             Some e \<Rightarrow> (Err (ErrWrap ''accept'' e), handles - {sock})
           | None \<Rightarrow>
               (case AcceptEx sys l sock of
                  (Some e, _) \<Rightarrow> (Err (ErrWrap ''accept'' (ErrWrap ''acceptex'' e)), handles - {sock})
                | (None, filled) \<Rightarrow>
                    let addrbuf = accept_buffer filled;
                        conn = \<lparr>conn_sock = sock, local_addr = fromRaw (raw_dec (take raw_size addrbuf)),
                          remote_addr = fromRaw (raw_dec (take raw_size (drop accept_addrlen addrbuf)))\<rparr>
                    in (case Setsockopt sys sock of
                          Some e \<Rightarrow> (Err (conn_opErr ''accept'' (ErrWrap ''setsockopt'' e)), handles - {sock})
                        | None \<Rightarrow> (Ok conn, handles))))
      | (Err e, handles) \<Rightarrow> (Err (ErrWrap ''accept'' e), handles)
      | (Panic p, handles) \<Rightarrow> (Panic p, handles))"

section \<open>Dialing\<close>

definition WSAECONNREFUSED :: go_error where "WSAECONNREFUSED = Errno 10061"
definition WSAENETUNREACH :: go_error where "WSAENETUNREACH = Errno 10051"
definition WSAETIMEDOUT :: go_error where "WSAETIMEDOUT = Errno 10060"
definition ERROR_CONNECTION_REFUSED :: go_error where "ERROR_CONNECTION_REFUSED = Errno 1225"
definition ERROR_CONNECTION_UNAVAIL :: go_error where "ERROR_CONNECTION_UNAVAIL = Errno 1201"

definition canRedial :: "go_error option \<Rightarrow> bool" where
  "canRedial e \<longleftrightarrow>
     e \<in> Some ` {WSAECONNREFUSED, WSAENETUNREACH, WSAETIMEDOUT, ERROR_CONNECTION_REFUSED, ERROR_CONNECTION_UNAVAIL}"

text \<open>
  The loop at its \<open>i\<close>-th connect with \<open>n\<close> retries left: \<open>connect i\<close> is the result of
  \<^verbatim>\<open>ConnectEx\<close> and \<open>wait i\<close> that of \<^verbatim>\<open>redialWait\<close>.
\<close>

fun dial_loop :: "(nat \<Rightarrow> go_error option) \<Rightarrow> (nat \<Rightarrow> go_error option) \<Rightarrow> nat \<Rightarrow> nat \<Rightarrow> go_error option" where
  "dial_loop connect wait i 0 = connect i"
| "dial_loop connect wait i (Suc n) =
     (if canRedial (connect i) then
        (case wait i of None \<Rightarrow> dial_loop connect wait (i + 1) n | Some e \<Rightarrow> Some e)
      else connect i)"

text \<open>The variable \<^verbatim>\<open>sal\<close> after \<^verbatim>\<open>getsockname\<close> wrote to it.\<close>

definition sal_buffer :: "bytes \<Rightarrow> bytes" where
  "sal_buffer b = take raw_size b @ replicate (raw_size - length b) 0"

definition hv_Dial ::
  "hv_system \<Rightarrow> (bool \<Rightarrow> go_error option) \<Rightarrow> (nat \<Rightarrow> nat \<Rightarrow> go_error option) \<Rightarrow> (nat \<Rightarrow> go_error option) \<Rightarrow> nat \<Rightarrow>
     HvsockAddr \<Rightarrow> nat set \<Rightarrow> HvsockConn res \<times> nat set" where
  "hv_Dial sys ctx connect wait retries addr handles =
     (case ctx False of
        Some e \<Rightarrow> (Err (conn_opErr ''dial'' e), handles)
      | None \<Rightarrow>
          (case newHVSocket sys handles of
             (Ok sock, handles) \<Rightarrow>
               (case first_error
                  [map_option (ErrWrap ''bind'') (Bind sys sock (raw_enc (raw_addr addr))),
                   prepare sys sock,
                   map_option (ErrWrap ''connectex'') (dial_loop (connect sock) wait 0 retries),
                   map_option (ErrWrap ''setsockopt'') (Setsockopt sys sock),
                   map_option (ErrWrap ''getsockname'') (fst (GetSockName sys sock)),
                   ctx True] of
                  Some e \<Rightarrow> (Err (conn_opErr ''dial'' e), handles - {sock})
                | None \<Rightarrow>
                    (Ok \<lparr>conn_sock = sock, local_addr = fromRaw (raw_dec (sal_buffer (snd (GetSockName sys sock)))), remote_addr = addr\<rparr>, handles))
           | (Err e, handles) \<Rightarrow> (Err (conn_opErr ''dial'' e), handles)
           | (Panic p, handles) \<Rightarrow> (Panic p, handles)))"

section \<open>Reading, writing and shutting down\<close>

text \<open>\<^verbatim>\<open>errors.As\<close> with an \<^verbatim>\<open>Errno\<close>: the code in the chain of an error.\<close>

fun errno_of :: "go_error \<Rightarrow> u32 option" where
  "errno_of (Errno c) = Some c"
| "errno_of (ErrWrap s e) = errno_of e"
| "errno_of _ = None"

definition syscall_error :: "string \<Rightarrow> go_error \<Rightarrow> go_error" where
  "syscall_error call e = (case errno_of e of Some c \<Rightarrow> ErrWrap call (Errno c) | None \<Rightarrow> e)"

text \<open>
  \<open>prep\<close> is \<^verbatim>\<open>prepareIO\<close> on the state \<open>'f\<close> of the socket, \<open>recv\<close> and \<open>send\<close> are the
  system calls with the wait for their completion.
\<close>

definition hv_Read ::
  "('f \<Rightarrow> go_error option) \<Rightarrow> ('f \<Rightarrow> nat \<Rightarrow> bytes \<times> go_error option \<times> 'f) \<Rightarrow> 'f reader" where
  "hv_Read prep recv f n =
     (case prep f of
        Some e \<Rightarrow> Ok ([], Some (conn_opErr ''read'' e), f)
      | None \<Rightarrow>
          if n = 0 then Panic ''index out of range''
          else (case recv f n of
              (b, Some e, f) \<Rightarrow> Ok ([], Some (conn_opErr ''read'' (syscall_error ''wsarecv'' e)), f)
            | (b, None, f) \<Rightarrow> Ok (b, if b = [] then Some EOF else None, f)))"

definition hv_write ::
  "('f \<Rightarrow> go_error option) \<Rightarrow> ('f \<Rightarrow> bytes \<Rightarrow> nat \<times> go_error option \<times> 'f) \<Rightarrow> 'f writer" where
  "hv_write prep send f b =
     (case prep f of
        Some e \<Rightarrow> (0, Some (conn_opErr ''write'' e), f)
      | None \<Rightarrow>
          (case send f b of
             (n, Some e, f) \<Rightarrow> (0, Some (conn_opErr ''write'' (syscall_error ''wsasend'' e)), f)
           | (n, None, f) \<Rightarrow> (n, None, f)))"

partial_function (option) write_loop ::
  "('f \<Rightarrow> go_error option) \<Rightarrow> ('f \<Rightarrow> bytes \<Rightarrow> nat \<times> go_error option \<times> 'f) \<Rightarrow> nat \<Rightarrow> 'f \<Rightarrow> bytes \<Rightarrow> (nat \<times> go_error option \<times> 'f) option" where
  "write_loop prep send t f b =
     (if b = [] then Some (t, None, f)
      else (case hv_write prep send f b of
          (n, Some e, f) \<Rightarrow> Some (t + n, Some e, f)
        | (n, None, f) \<Rightarrow> write_loop prep send (t + n) f (drop n b)))"

definition hv_Write where "hv_Write prep send f b = write_loop prep send 0 f b"

definition WSAENOTCONN :: go_error where "WSAENOTCONN = Errno 10057"
definition WSAESHUTDOWN :: go_error where "WSAESHUTDOWN = Errno 10058"

definition shutdown :: "bool \<Rightarrow> (nat \<Rightarrow> go_error option) \<Rightarrow> nat \<Rightarrow> go_error option" where
  "shutdown isClosed sys how =
     (if isClosed then Some ErrSocketClosed
      else case sys how of
          None \<Rightarrow> None
        | Some e \<Rightarrow>
            Some (ErrWrap ''shutdown'' (if errors_Is e WSAENOTCONN \<or> errors_Is e WSAESHUTDOWN then ErrSocketClosed else e)))"

definition hv_CloseRead where "hv_CloseRead isClosed sys = map_option (conn_opErr ''closeread'') (shutdown isClosed sys 0)"
definition hv_CloseWrite where "hv_CloseWrite isClosed sys = map_option (conn_opErr ''closewrite'') (shutdown isClosed sys 1)"

section \<open>Properties of addresses\<close>

definition addr_ok :: "HvsockAddr \<Rightarrow> bool" where
  "addr_ok a \<longleftrightarrow> guid_ok (VMID a) \<and> guid_ok (ServiceID a)"

definition raw_ok :: "rawHvsockAddr \<Rightarrow> bool" where
  "raw_ok r \<longleftrightarrow> guid_ok (raw_VMID r) \<and> guid_ok (raw_ServiceID r)"

interpretation raw: exact_codec raw_enc raw_dec raw_size raw_ok
proof
  fix r assume "raw_ok r"
  then show "length (raw_enc r) = raw_size" "raw_dec (raw_enc r) = r"
    by (simp_all add: raw_enc_def raw_dec_def raw_size_def raw_ok_def guid_le.length_enc guid_le.dec_enc)
next
  fix b :: bytes assume len: "length b = raw_size"
  show "raw_ok (raw_dec b)" using len by (simp add: raw_ok_def raw_dec_def raw_size_def guid_le.valid_dec)
  have "b = take 2 b @ take 2 (drop 2 b) @ take 16 (drop 4 b) @ take 16 (drop 20 b)"
    using len append_take_drop_id [of 2 b] append_take_drop_id [of 2 "drop 2 b"] append_take_drop_id [of 16 "drop 4 b"]
    by (simp add: raw_size_def)
  then show "raw_enc (raw_dec b) = b"
    using len by (simp add: raw_enc_def raw_dec_def raw_size_def guid_le.enc_dec le16.enc_dec)
qed

text \<open>
  \<^verbatim>\<open>FromBytes\<close> reads a raw address back from its bytes, whatever follows them, and
  \<^verbatim>\<open>fromRaw\<close> the address; it fails exactly on buffers that are too short and on other address
  families, of which only the first leave the receiver alone.
\<close>

theorem hvsock_addr_roundtrip:
  assumes "addr_ok a"
  shows "FromBytes r (raw_enc (raw_addr a) @ rest) = (raw_addr a, None) \<and> fromRaw (raw_addr a) = a \<and>
    (snd (FromBytes r b) = None \<longleftrightarrow> raw_size \<le> length b \<and> take 2 b = [34, 0]) \<and>
    (length b < raw_size \<longleftrightarrow> fst (FromBytes r b) = r \<and> snd (FromBytes r b) = Some (ErrWrap ''got %d, want %d'' ErrBufferSize))"
proof -
  have ok: "raw_ok (raw_addr a)" using assms by (simp add: raw_ok_def raw_addr_def addr_ok_def)
  have "le_enc 2 (34 :: u16) = [34, 0]" by (simp add: le_enc_2)
  then have "le_dec x = (34 :: u16) \<longleftrightarrow> x = [34, 0]" if "length x = 2" for x
    using that le16.enc_dec le16.dec_enc by metis
  then have "Family (raw_dec (take raw_size b)) = afHVSock \<longleftrightarrow> take 2 b = [34, 0]" if "raw_size \<le> length b"
    using that by (simp add: raw_dec_def raw_size_def afHVSock_def)
  then have "snd (FromBytes r b) = None \<longleftrightarrow> raw_size \<le> length b \<and> take 2 b = [34, 0]"
    by (auto simp: FromBytes_def Let_def)
  moreover have "length b < raw_size \<longleftrightarrow> fst (FromBytes r b) = r \<and> snd (FromBytes r b) = Some (ErrWrap ''got %d, want %d'' ErrBufferSize)"
    by (auto simp: FromBytes_def Let_def ErrBufferSize_def ErrAddrFamily_def)
  moreover have "FromBytes r (raw_enc (raw_addr a) @ rest) = (raw_addr a, None)"
  proof -
    have "take raw_size (raw_enc (raw_addr a) @ rest) = raw_enc (raw_addr a)" using raw.length_enc [OF ok] by simp
    moreover have "Family (raw_addr a) = afHVSock" by (simp add: raw_addr_def)
    ultimately show ?thesis using raw.length_enc [OF ok] raw.dec_enc [OF ok] by (simp add: FromBytes_def Let_def del: take_append)
  qed
  moreover have "fromRaw (raw_addr a) = a" by (simp add: fromRaw_def raw_addr_def)
  ultimately show ?thesis by blast
qed

theorem hvsock_addr_roundtrip_witness:
  "FromBytes (raw_addr \<lparr>VMID = zero_guid, ServiceID = zero_guid\<rparr>)
     (raw_enc (raw_addr \<lparr>VMID = HvsockGUIDParent, ServiceID = VsockServiceID 1024\<rparr>) @ [1]) =
   (raw_addr \<lparr>VMID = HvsockGUIDParent, ServiceID = VsockServiceID 1024\<rparr>, None)"
proof -
  have "addr_ok \<lparr>VMID = HvsockGUIDParent, ServiceID = VsockServiceID 1024\<rparr>"
    by (simp add: addr_ok_def guid_ok_def HvsockGUIDParent_def VsockServiceID_def hvsockVsockServiceTemplate_def)
  then show ?thesis by (rule hvsock_addr_roundtrip [THEN conjunct1])
qed

section \<open>Properties of dialing\<close>

lemma ex_le_Suc_iff: "(\<exists>k \<le> Suc n. P k) \<longleftrightarrow> P 0 \<or> (\<exists>k \<le> n. P (Suc k))"
  by (metis Suc_le_mono bot_nat_0.extremum not0_implies_Suc)

lemma dial_loop_None_iff:
  "dial_loop connect wait i n = None \<longleftrightarrow>
     (\<exists>k \<le> n. connect (i + k) = None \<and> (\<forall>j < k. canRedial (connect (i + j)) \<and> wait (i + j) = None))"
proof (induction n arbitrary: i)
  case (Suc n)
  have "\<not> canRedial None" by (auto simp: canRedial_def)
  then show ?case
    unfolding ex_le_Suc_iff
    by (cases "connect i"; cases "canRedial (connect i)"; cases "wait i") (simp_all add: Suc.IH All_less_Suc2)
qed simp

lemma first_error_None_iff: "first_error es = None \<longleftrightarrow> (\<forall>e \<in> set es. e = None)"
  by (induction es rule: first_error.induct) auto

text \<open>
  C22: Dialing keeps account of its socket: a connection has it open, with the address that was
  dialed, and every error has closed it. A connection is made exactly when all the other calls
  succeed and one of the first \<^verbatim>\<open>Retries\<close> + 1 connects does, every earlier one having failed with
  an error that allows to redial and having been followed by its wait.
\<close>

theorem hvsock_dial:
  assumes "\<And>h. Socket sys = Ok h \<Longrightarrow> h \<notin> handles" and "\<not> panics (Socket sys)"
  shows "(case hv_Dial sys ctx connect wait retries addr handles of
      (Ok conn, hs) \<Rightarrow> hs = insert (conn_sock conn) handles \<and> remote_addr conn = addr \<and> Socket sys = Ok (conn_sock conn)
    | (Err e, hs) \<Rightarrow> hs = handles
    | (Panic p, hs) \<Rightarrow> False) \<and>
    ((\<exists>conn hs. hv_Dial sys ctx connect wait retries addr handles = (Ok conn, hs)) \<longleftrightarrow>
     ctx False = None \<and> ctx True = None \<and>
     (\<exists>sock. Socket sys = Ok sock \<and> mkfile sys sock = None \<and> Bind sys sock (raw_enc (raw_addr addr)) = None \<and>
        prepare sys sock = None \<and> Setsockopt sys sock = None \<and> fst (GetSockName sys sock) = None \<and>
        (\<exists>k \<le> retries. connect sock k = None \<and> (\<forall>j < k. canRedial (connect sock j) \<and> wait j = None))))"
proof (cases "Socket sys")
  case (Ok sock)
  have loop: "dial_loop (connect sock) wait 0 retries = None \<longleftrightarrow>
      (\<exists>k \<le> retries. connect sock k = None \<and> (\<forall>j < k. canRedial (connect sock j) \<and> wait j = None))"
    unfolding dial_loop_None_iff by simp
  define e where "e = first_error
      [map_option (ErrWrap ''bind'') (Bind sys sock (raw_enc (raw_addr addr))), prepare sys sock,
       map_option (ErrWrap ''connectex'') (dial_loop (connect sock) wait 0 retries),
       map_option (ErrWrap ''setsockopt'') (Setsockopt sys sock),
       map_option (ErrWrap ''getsockname'') (fst (GetSockName sys sock)), ctx True]"
  have e: "e = None \<longleftrightarrow> Bind sys sock (raw_enc (raw_addr addr)) = None \<and> prepare sys sock = None \<and>
      dial_loop (connect sock) wait 0 retries = None \<and> Setsockopt sys sock = None \<and>
      fst (GetSockName sys sock) = None \<and> ctx True = None"
    unfolding e_def first_error_None_iff by auto
  show ?thesis
  proof (cases "ctx False = None \<and> mkfile sys sock = None")
    case True
    then show ?thesis
      using Ok assms(1) [OF Ok] e
      by (cases e) (auto simp: hv_Dial_def newHVSocket_def e_def [symmetric] loop [symmetric])
  next
    case False
    then show ?thesis using Ok assms(1) [OF Ok] by (auto simp: hv_Dial_def newHVSocket_def split: option.split)
  qed
next
  case (Err e)
  then show ?thesis by (auto simp: hv_Dial_def newHVSocket_def split: option.split)
next
  case (Panic p)
  then show ?thesis using assms(2) by simp
qed

definition sample_hv :: hv_system where
  "sample_hv = \<lparr>Socket = Ok 9, mkfile = (\<lambda>_. None), Bind = (\<lambda>_ _. None), Listen = (\<lambda>_ _. None), prepare = (\<lambda>_. None),
     AcceptEx = (\<lambda>_ _. (None, [])), Setsockopt = (\<lambda>_. None), GetSockName = (\<lambda>_. (None, []))\<rparr>"

text \<open>The second connect succeeds.\<close>

theorem hvsock_dial_witness:
  "\<exists>conn hs. hv_Dial sample_hv (\<lambda>_. None) (\<lambda>_ k. if k = 0 then Some WSAETIMEDOUT else None) (\<lambda>_. None) 3
     \<lparr>VMID = HvsockGUIDParent, ServiceID = VsockServiceID 1\<rparr> {} = (Ok conn, hs)"
proof -
  have "\<exists>k \<le> 3. (\<lambda>_ k. if k = 0 then Some WSAETIMEDOUT else None) (9 :: nat) k = None \<and>
      (\<forall>j < k. canRedial ((\<lambda>_ k. if k = (0 :: nat) then Some WSAETIMEDOUT else None) (9 :: nat) j) \<and> (\<lambda>_. None :: go_error option) j = None)"
    by (intro exI [of _ 1]) (simp add: canRedial_def)
  then show ?thesis
    using hvsock_dial [of sample_hv "{}", where ctx = "\<lambda>_. None" and connect = "\<lambda>_ k. if k = 0 then Some WSAETIMEDOUT else None"
        and wait = "\<lambda>_. None" and retries = 3 and addr = "\<lparr>VMID = HvsockGUIDParent, ServiceID = VsockServiceID 1\<rparr>"]
    by (simp add: sample_hv_def)
qed

section \<open>Properties of listening and accepting\<close>

text \<open>
  Accepting keeps account of the new socket, which every error closes, and the addresses of the
  connection are those that the system put into the two parts of the buffer; listening closes its
  socket on every error, too.
\<close>

theorem hvsock_accept:
  assumes "\<And>h. Socket sys = Ok h \<Longrightarrow> h \<notin> handles" and "\<not> panics (Socket sys)"
    and "addr_ok a" and "addr_ok b" and "length x = 16" and "length y = 16"
    and "\<And>h. AcceptEx sys l h = (e, raw_enc (raw_addr a) @ x @ raw_enc (raw_addr b) @ y)"
  shows "(case hv_Accept sys l handles of
      (Ok conn, hs) \<Rightarrow> hs = insert (conn_sock conn) handles \<and> local_addr conn = a \<and> remote_addr conn = b \<and>
        Socket sys = Ok (conn_sock conn) \<and> e = None
    | (Err _, hs) \<Rightarrow> hs = handles
    | (Panic p, hs) \<Rightarrow> False) \<and>
    (case ListenHvsock sys a handles of
      (Ok sock, hs) \<Rightarrow> hs = insert sock handles \<and> Bind sys sock (raw_enc (raw_addr a)) = None \<and> Listen sys sock 16 = None
    | (Err _, hs) \<Rightarrow> hs = handles
    | (Panic p, hs) \<Rightarrow> False)"
proof (cases "Socket sys")
  case (Ok sock)
  have ok: "raw_ok (raw_addr a)" "raw_ok (raw_addr b)" using assms(3,4) by (simp_all add: raw_ok_def raw_addr_def addr_ok_def)
  define F where "F = raw_enc (raw_addr a) @ x @ raw_enc (raw_addr b) @ y"
  have acc: "AcceptEx sys l sock = (e, F)" using assms(7) by (simp add: F_def)
  have len: "length (raw_enc (raw_addr a)) = 36" "length (raw_enc (raw_addr b)) = 36"
    using raw.length_enc [OF ok(1)] raw.length_enc [OF ok(2)] by (simp_all add: raw_size_def)
  define addrbuf where "addrbuf = accept_buffer F"
  have "addrbuf = F" using len assms(5,6) by (simp add: addrbuf_def accept_buffer_def F_def accept_addrlen_def raw_size_def)
  then have addr: "fromRaw (raw_dec (take raw_size addrbuf)) = a" "fromRaw (raw_dec (take raw_size (drop accept_addrlen addrbuf))) = b"
    using len assms(5) raw.dec_enc [OF ok(1)] raw.dec_enc [OF ok(2)]
    by (simp_all add: accept_addrlen_def raw_size_def fromRaw_def F_def) (simp_all add: raw_addr_def)
  have "case hv_Accept sys l handles of
      (Ok conn, hs) \<Rightarrow> hs = insert (conn_sock conn) handles \<and> local_addr conn = a \<and> remote_addr conn = b \<and>
        Socket sys = Ok (conn_sock conn) \<and> e = None
    | (Err _, hs) \<Rightarrow> hs = handles
    | (Panic p, hs) \<Rightarrow> False"
    using Ok assms(1) [OF Ok] acc addr
    by (cases "mkfile sys sock"; cases "prepare sys l"; cases e; cases "Setsockopt sys sock")
      (simp_all add: hv_Accept_def newHVSocket_def addrbuf_def [symmetric] Let_def)
  moreover have "case ListenHvsock sys a handles of
      (Ok sock, hs) \<Rightarrow> hs = insert sock handles \<and> Bind sys sock (raw_enc (raw_addr a)) = None \<and> Listen sys sock 16 = None
    | (Err _, hs) \<Rightarrow> hs = handles
    | (Panic p, hs) \<Rightarrow> False"
    using Ok assms(1) [OF Ok]
    by (cases "mkfile sys sock"; cases "Bind sys sock (raw_enc (raw_addr a))"; cases "Listen sys sock 16")
      (simp_all add: ListenHvsock_def newHVSocket_def)
  ultimately show ?thesis by simp
next
  case (Err e)
  then show ?thesis by (simp add: hv_Accept_def ListenHvsock_def newHVSocket_def)
next
  case (Panic p)
  then show ?thesis using assms(2) by simp
qed

section \<open>Properties of writing\<close>

text \<open>
  A socket that sends something or fails; \<open>sent\<close> is what it has sent so far.
\<close>

definition socket_sends :: "('f \<Rightarrow> bytes \<Rightarrow> nat \<times> go_error option \<times> 'f) \<Rightarrow> ('f \<Rightarrow> bytes) \<Rightarrow> bool" where
  "socket_sends send sent \<longleftrightarrow>
     (\<forall>f b. b \<noteq> [] \<longrightarrow>
        (case send f b of
           (n, None, f') \<Rightarrow> 0 < n \<and> n \<le> length b \<and> sent f' = sent f @ take n b
         | (n, Some e, f') \<Rightarrow> sent f' = sent f))"

lemma write_loop_sends:
  assumes "socket_sends send sent"
  shows "\<exists>n e f'. write_loop prep send t f b = Some (t + n, e, f') \<and> n \<le> length b \<and>
    sent f' = sent f @ take n b \<and> (e = None \<longleftrightarrow> n = length b)"
proof (induction b arbitrary: t f rule: length_induct)
  case (1 b)
  show ?case
  proof (cases "b = []")
    case True
    then show ?thesis by (simp add: write_loop.simps)
  next
    case False
    obtain n e f1 where send: "send f b = (n, e, f1)" by (cases "send f b")
    show ?thesis
    proof (cases "prep f = None \<and> e = None")
      case True
      then have n: "0 < n" "n \<le> length b" "sent f1 = sent f @ take n b"
        using assms False send by (auto simp: socket_sends_def dest!: spec [of _ f] spec [of _ b])
      then have "length (drop n b) < length b" by simp
      from 1 [rule_format, OF this, of "t + n" f1] obtain m e' f'
        where m: "write_loop prep send (t + n) f1 (drop n b) = Some (t + n + m, e', f')" "m \<le> length (drop n b)"
          "sent f' = sent f1 @ take m (drop n b)" "e' = None \<longleftrightarrow> m = length (drop n b)"
        by blast
      have "write_loop prep send t f b = Some (t + (n + m), e', f')"
        using False True send m(1) by (simp add: write_loop.simps [of prep send t f b] hv_write_def add.assoc)
      moreover have "sent f' = sent f @ take (n + m) b" using m(3) n(3) by (simp add: take_add)
      ultimately show ?thesis using m(2,4) n(2) by (intro exI [of _ "n + m"]) auto
    next
      case fail: False
      have "prep f = None \<Longrightarrow> sent f1 = sent f"
        using assms False send fail by (auto simp: socket_sends_def dest!: spec [of _ f] spec [of _ b])
      then show ?thesis
        using False fail send
        by (intro exI [of _ 0]) (auto simp: write_loop.simps [of prep send t f b] hv_write_def split: option.split)
    qed
  qed
qed

text \<open>
  \<^verbatim>\<open>Write\<close> returns, sends the buffer in order without gaps or repetitions, and reports how
  much of it was sent; it reports no error exactly when that is all of it.
\<close>

theorem hvsock_write:
  assumes "socket_sends send sent"
  shows "\<exists>n e f'. hv_Write prep send f b = Some (n, e, f') \<and> n \<le> length b \<and> sent f' = sent f @ take n b \<and> (e = None \<longleftrightarrow> n = length b)"
  using write_loop_sends [OF assms, of prep 0 f b] by (simp add: hv_Write_def)

text \<open>A socket that sends two bytes at a time.\<close>

theorem hvsock_write_witness:
  "\<exists>f'. hv_Write (\<lambda>_. None) (\<lambda>f b. (min 2 (length b), None, f @ take (min 2 (length b)) b)) [] [1, 2, 3] = Some (3, None, f') \<and> f' = [1, 2, 3]"
proof -
  have "socket_sends (\<lambda>f b. (min 2 (length b), None, f @ take (min 2 (length b)) b)) (\<lambda>f. f)" by (auto simp: socket_sends_def)
  from hvsock_write [OF this, of "\<lambda>_. None" "[]" "[1, 2, 3]"] obtain n e f'
    where r: "hv_Write (\<lambda>_. None) (\<lambda>f b. (min 2 (length b), None, f @ take (min 2 (length b)) b)) [] [1, 2, 3] = Some (n, e, f')"
      "f' = take n [1, 2, 3]" "e = None \<longleftrightarrow> n = 3"
    by auto
  have "e = None" using r(1) by (simp add: hv_Write_def write_loop.simps hv_write_def)
  with r show ?thesis by simp
qed

text \<open>The text forms of the well-known IDs are those of their comments.\<close>

lemma hexn_numeral: "hexn (numeral n) v = hexn (pred_numeral n) (v div 16) @ [hex_digit (v mod 16)]"
  using hexn.simps(2) [of "pred_numeral n" v] numeral_eq_Suc [of n] by metis

lemmas text_simps = GUID_String_def hex_bytes_def hexn_numeral hex_digit_def bs_of_def

lemma well_known_text:
  "GUID_String HvsockGUIDLoopback = bs_of ''e0e16197-dd56-4a10-9195-5ee7a155a838''"
  "GUID_String HvsockGUIDSiloHost = bs_of ''36bd0c5c-7276-4223-88ba-7d03b654c568''"
  "GUID_String HvsockGUIDChildren = bs_of ''90db8b89-0d35-4f79-8ce9-49ea0ac8b7cd''"
  "GUID_String HvsockGUIDParent = bs_of ''a42e7cda-d03f-480c-9cc2-a4de20abb878''"
  "GUID_String hvsockVsockServiceTemplate = bs_of ''00000000-facb-11e6-bd58-64006a7986d3''"
  by (simp_all add: text_simps HvsockGUIDLoopback_def HvsockGUIDSiloHost_def HvsockGUIDChildren_def HvsockGUIDParent_def
      hvsockVsockServiceTemplate_def)

text \<open>
  \<^verbatim>\<open>Read\<close> takes the address of the first byte of its buffer: an empty buffer makes it panic.
\<close>

lemma read_empty_panics: "prep f = None \<Longrightarrow> panics (hv_Read prep recv f 0)"
  by (simp add: hv_Read_def)

theorem hvsock_accept_witness:
  "\<exists>conn. hv_Accept (sample_hv\<lparr>AcceptEx := \<lambda>_ _. (None, raw_enc (raw_addr \<lparr>VMID = HvsockGUIDParent, ServiceID = zero_guid\<rparr>) @
      replicate 16 0 @ raw_enc (raw_addr \<lparr>VMID = HvsockGUIDLoopback, ServiceID = zero_guid\<rparr>) @ replicate 16 0)\<rparr>) 4 {4} =
    (Ok conn, {9, 4}) \<and> VMID (remote_addr conn) = HvsockGUIDLoopback"
proof -
  define a where "a = \<lparr>VMID = HvsockGUIDParent, ServiceID = zero_guid\<rparr>"
  define b where "b = \<lparr>VMID = HvsockGUIDLoopback, ServiceID = zero_guid\<rparr>"
  define F where "F = raw_enc (raw_addr a) @ replicate 16 0 @ raw_enc (raw_addr b) @ replicate 16 0"
  let ?sys = "sample_hv\<lparr>AcceptEx := \<lambda>_ _. (None, F)\<rparr>"
  have ok: "addr_ok a" "addr_ok b"
    by (simp_all add: a_def b_def addr_ok_def guid_ok_def zero_guid_def HvsockGUIDParent_def HvsockGUIDLoopback_def)
  have "case hv_Accept ?sys 4 {4} of
      (Ok conn, hs) \<Rightarrow> hs = insert (conn_sock conn) {4} \<and> local_addr conn = a \<and> remote_addr conn = b \<and>
        Socket ?sys = Ok (conn_sock conn) \<and> (None :: go_error option) = None
    | (Err _, hs) \<Rightarrow> hs = {4} | (Panic p, hs) \<Rightarrow> False"
    using hvsock_accept [of ?sys "{4}" a b "replicate 16 0" "replicate 16 0" 4 None] ok by (simp add: sample_hv_def F_def)
  moreover have "\<exists>conn hs. hv_Accept ?sys 4 {4} = (Ok conn, hs)"
    by (simp add: hv_Accept_def newHVSocket_def sample_hv_def Let_def)
  ultimately have "\<exists>conn. hv_Accept ?sys 4 {4} = (Ok conn, {9, 4}) \<and> remote_addr conn = b"
    by (auto simp: sample_hv_def)
  then show ?thesis by (auto simp: F_def a_def b_def)
qed

end
