(* ===== verification/Etw_Logrus.thy ===== *)
theory Etw_Logrus
  imports Etw_Provider "HOL-Library.List_Lexorder" "HOL-Library.Multiset"
begin

text \<open>
  The Logrus hook (\<^verbatim>\<open>src/pkg/etwlogrus/hook.go\<close>, \<^verbatim>\<open>opts.go\<close>): its options, which may
  register a provider, its lifetime, and \<^verbatim>\<open>Fire\<close>, which turns a log entry into an event
  whose fields have a fixed order although the entry's data is an unordered map.
\<close>

section \<open>Entries and hooks\<close>

text \<open>
  A log entry; its data is listed in the order in which the range loop happens to visit the map.
  The levels of Logrus count from \<^verbatim>\<open>PanicLevel\<close>, which is 0, to \<^verbatim>\<open>TraceLevel\<close>, which is 6.
\<close>

record logrus_Entry =
  en_Level :: nat
  Message :: gostring
  en_Time :: int
  en_Data :: "(gostring \<times> govalue) list"

record Hook =
  hk_provider :: "nat option"
  closeProvider :: bool
  getName :: "(logrus_Entry \<Rightarrow> gostring) option"
  getEventsOpts :: "(logrus_Entry \<Rightarrow> EventOpt list) option"

definition defaultHook :: Hook where
  "defaultHook = \<lparr>hk_provider = None, closeProvider = False, getName = None, getEventsOpts = None\<rparr>"

definition defaultEventName :: gostring where "defaultEventName = bs_of ''LogrusEntry''"

definition ErrNoProvider :: go_error where "ErrNoProvider = ErrNew ''no ETW registered provider''"

definition ErrorKey :: gostring where "ErrorKey = bs_of ''error''"

section \<open>Options\<close>

text \<open>
  An option works on the hook and on the state in which it registers providers; \<open>new\<close> is
  \<^verbatim>\<open>etw.NewProvider\<close> without a callback.
\<close>

type_synonym 's HookOpt = "Hook \<Rightarrow> 's \<Rightarrow> Hook res \<times> 's"

definition WithNewETWProvider :: "(gostring \<Rightarrow> 's \<Rightarrow> nat res \<times> 's) \<Rightarrow> gostring \<Rightarrow> 's HookOpt" where
  "WithNewETWProvider new n h s =
     (case new n s of (r, s) \<Rightarrow> (bind_res r (\<lambda>p. Ok (h\<lparr>hk_provider := Some p, closeProvider := True\<rparr>)), s))"

definition WithExistingETWProvider :: "nat option \<Rightarrow> 's HookOpt" where
  "WithExistingETWProvider p h s = (Ok (h\<lparr>hk_provider := p, closeProvider := False\<rparr>), s)"

definition WithGetName :: "(logrus_Entry \<Rightarrow> gostring) option \<Rightarrow> 's HookOpt" where
  "WithGetName f h s = (Ok (h\<lparr>getName := f\<rparr>), s)"

definition WithEventOpts :: "(logrus_Entry \<Rightarrow> EventOpt list) option \<Rightarrow> 's HookOpt" where
  "WithEventOpts f h s = (Ok (h\<lparr>getEventsOpts := f\<rparr>), s)"

fun apply_opts :: "'s HookOpt list \<Rightarrow> 's HookOpt" where
  "apply_opts [] h s = (Ok h, s)"
| "apply_opts (opt # opts) h s =
     (case opt h s of
        (Ok h, s) \<Rightarrow> apply_opts opts h s
      | (Err e, s) \<Rightarrow> (Err e, s)
      | (Panic p, s) \<Rightarrow> (Panic p, s))"

definition hk_validate :: "Hook \<Rightarrow> go_error option" where
  "hk_validate h = (if hk_provider h = None then Some ErrNoProvider else None)"

definition NewHookFromOpts :: "'s HookOpt list \<Rightarrow> 's \<Rightarrow> Hook res \<times> 's" where
  "NewHookFromOpts opts s =
     (case apply_opts opts defaultHook s of
        (Ok h, s) \<Rightarrow> (case hk_validate h of None \<Rightarrow> (Ok h, s) | Some e \<Rightarrow> (Err e, s))
      | r \<Rightarrow> r)"

definition NewHook :: "(gostring \<Rightarrow> 's \<Rightarrow> nat res \<times> 's) \<Rightarrow> gostring \<Rightarrow> 's HookOpt list \<Rightarrow> 's \<Rightarrow> Hook res \<times> 's" where
  "NewHook new name opts s = NewHookFromOpts (opts @ [WithNewETWProvider new name]) s"

definition NewHookFromProvider :: "nat option \<Rightarrow> 's HookOpt list \<Rightarrow> 's \<Rightarrow> Hook res \<times> 's" where
  "NewHookFromProvider p opts s = NewHookFromOpts (opts @ [WithExistingETWProvider p]) s"

text \<open>\<open>close\<close> is the method \<^verbatim>\<open>Close\<close> of the provider.\<close>

definition hk_Close :: "(nat option \<Rightarrow> 's \<Rightarrow> go_error option \<times> 's) \<Rightarrow> Hook \<Rightarrow> 's \<Rightarrow> go_error option \<times> 's" where
  "hk_Close close h s = (if closeProvider h then close (hk_provider h) s else (None, s))"

section \<open>Firing\<close>

definition logrusToETWLevelMap :: "nat \<Rightarrow> byte option" where
  "logrusToETWLevelMap =
     [0 \<mapsto> LevelAlways, 1 \<mapsto> LevelCritical, 2 \<mapsto> LevelError, 3 \<mapsto> LevelWarning, 4 \<mapsto> LevelInfo, 5 \<mapsto> LevelVerbose, 6 \<mapsto> LevelVerbose]"

text \<open>A level that the map does not have is the zero value.\<close>

definition etw_level :: "nat \<Rightarrow> byte" where
  "etw_level l = (case logrusToETWLevelMap l of Some v \<Rightarrow> v | None \<Rightarrow> 0)"

definition event_name :: "Hook \<Rightarrow> logrus_Entry \<Rightarrow> gostring" where
  "event_name h e =
     (case getName h of None \<Rightarrow> defaultEventName | Some f \<Rightarrow> if f e \<noteq> [] then f e else defaultEventName)"

definition event_opts :: "Hook \<Rightarrow> logrus_Entry \<Rightarrow> EventOpt list" where
  "event_opts h e = WithLevel (etw_level (en_Level e)) # (case getEventsOpts h of None \<Rightarrow> [] | Some f \<Rightarrow> f e)"

text \<open>The names of the fields in the order of the event: sorted, and the error last.\<close>

definition field_names :: "logrus_Entry \<Rightarrow> gostring list" where
  "field_names e =
     sort (filter (\<lambda>k. k \<noteq> ErrorKey) (map fst (en_Data e))) @
     (if ErrorKey \<in> set (map fst (en_Data e)) then [ErrorKey] else [])"

fun smart_field_list :: "(int \<Rightarrow> u32 \<times> u32) \<Rightarrow> (gostring \<times> govalue) list \<Rightarrow> FieldOpt list res" where
  "smart_field_list ft [] = Ok []"
| "smart_field_list ft ((k, v) # kvs) =
     bind_res (SmartField ft k v) (\<lambda>f. bind_res (smart_field_list ft kvs) (\<lambda>fs. Ok (f # fs)))"

definition event_fields :: "(int \<Rightarrow> u32 \<times> u32) \<Rightarrow> logrus_Entry \<Rightarrow> FieldOpt list res" where
  "event_fields ft e =
     bind_res (smart_field_list ft (map (\<lambda>k. (k, the (map_of (en_Data e) k))) (field_names e))) (\<lambda>fs.
     Ok (StringField (bs_of ''Message'') (Message e) # Time ft (bs_of ''Time'') (en_Time e) # fs))"

text \<open>
  \<^verbatim>\<open>Fire\<close>, with the provider that the hook points to: the error of \<^verbatim>\<open>WriteEvent\<close> is
  dropped.
\<close>

definition Fire ::
  "'o event_write \<Rightarrow> (int \<Rightarrow> u32 \<times> u32) \<Rightarrow> Hook \<Rightarrow> 'c Provider option \<Rightarrow> logrus_Entry \<Rightarrow> 'o \<Rightarrow> (go_error option \<times> 'o) res" where
  "Fire ewt ft h provider e os =
     (if \<not> IsEnabledForLevel provider (etw_level (en_Level e)) then Ok (None, os)
      else
        bind_res (event_fields ft e) (\<lambda>fields.
        bind_res (WriteEvent ewt os provider (event_name h e) (event_opts h e) fields) (\<lambda>(err, os).
        Ok (None, os))))"

section \<open>The order of the fields\<close>

lemma map_of_mset_eq:
  assumes "mset xs = mset ys" and "distinct (map fst xs)"
  shows "map_of xs = map_of ys"
proof -
  have s: "set xs = set ys" by (rule mset_eq_setD [OF assms(1)])
  have "mset (map fst xs) = mset (map fst ys)" using assms(1) by (simp add: mset_map)
  then have "distinct (map fst ys)" using assms(2) mset_eq_imp_distinct_iff by blast
  then have "map_of xs k = Some v \<longleftrightarrow> map_of ys k = Some v" for k v using assms(2) s by simp
  then show ?thesis by (metis option.exhaust ext)
qed

lemma field_names_mset:
  assumes "mset (en_Data e) = mset (en_Data e')"
  shows "field_names e = field_names e'"
proof -
  have m: "mset (map fst (en_Data e)) = mset (map fst (en_Data e'))" using assms by (simp add: mset_map)
  then have "sort (filter (\<lambda>k. k \<noteq> ErrorKey) (map fst (en_Data e))) = sort (filter (\<lambda>k. k \<noteq> ErrorKey) (map fst (en_Data e')))"
    by (intro properties_for_sort) (simp_all add: mset_filter)
  moreover have "set (map fst (en_Data e)) = set (map fst (en_Data e'))" using m by (rule mset_eq_setD)
  ultimately show ?thesis unfolding field_names_def by presburger
qed

lemma field_names_facts:
  assumes "distinct (map fst (en_Data e))"
  shows "distinct (field_names e) \<and> set (field_names e) = fst ` set (en_Data e) \<and>
    sorted (filter (\<lambda>k. k \<noteq> ErrorKey) (field_names e)) \<and>
    (ErrorKey \<in> fst ` set (en_Data e) \<longrightarrow> last (field_names e) = ErrorKey)"
proof -
  have "filter (\<lambda>k. k \<noteq> ErrorKey) (sort (filter (\<lambda>k. k \<noteq> ErrorKey) (map fst (en_Data e)))) =
      sort (filter (\<lambda>k. k \<noteq> ErrorKey) (map fst (en_Data e)))"
    by (rule filter_True) simp
  then show ?thesis using assms by (auto simp: field_names_def) (metis fst_conv image_eqI)+
qed

text \<open>
  An event does not depend on the order in which the entry's data is visited: its fields are the
  message, the time, the data sorted by name, and the error at the end, each exactly once. An entry
  below the provider's level makes no system call, and the hook never reports an error.
\<close>

theorem logrus_fire:
  assumes "distinct (map fst (en_Data e))" and "mset (en_Data e) = mset kvs" and "e' = e\<lparr>en_Data := kvs\<rparr>"
    and "event_name h e' = event_name h e" and "event_opts h e' = event_opts h e"
  shows "Fire ewt ft h provider e' os = Fire ewt ft h provider e os \<and>
    distinct (field_names e) \<and> set (field_names e) = fst ` set (en_Data e) \<and>
    sorted (filter (\<lambda>k. k \<noteq> ErrorKey) (field_names e)) \<and>
    (ErrorKey \<in> fst ` set (en_Data e) \<longrightarrow> last (field_names e) = ErrorKey) \<and>
    (\<not> IsEnabledForLevel provider (etw_level (en_Level e)) \<longrightarrow> Fire ewt ft h provider e os = Ok (None, os)) \<and>
    (\<forall>err os'. Fire ewt ft h provider e os = Ok (err, os') \<longrightarrow> err = None)"
proof -
  have "field_names e' = field_names e" using assms(2,3) by (intro field_names_mset) simp
  moreover have "map_of (en_Data e') = map_of (en_Data e)" using map_of_mset_eq [OF assms(2,1)] assms(3) by simp
  ultimately have "event_fields ft e' = event_fields ft e" using assms(3) by (simp add: event_fields_def)
  then have "Fire ewt ft h provider e' os = Fire ewt ft h provider e os"
    using assms(3,4,5) by (simp add: Fire_def)
  moreover have "\<forall>err os'. Fire ewt ft h provider e os = Ok (err, os') \<longrightarrow> err = None"
    by (auto simp: Fire_def bind_res_Ok_iff split: if_splits)
  ultimately show ?thesis using field_names_facts [OF assms(1)] by (simp add: Fire_def)
qed

definition sample_entry :: logrus_Entry where
  "sample_entry = \<lparr>en_Level = 4, Message = [104, 105], en_Time = 0,
     en_Data = [(ErrorKey, VInt 1), ([98], VInt 2), ([97], VBool True)]\<rparr>"

theorem logrus_fire_witness:
  "Fire (\<lambda>os _ _ _ _ _ _. (None, Suc os)) (\<lambda>_. (0, 0)) defaultHook (None :: unit Provider option)
     (sample_entry\<lparr>en_Data := [([97], VBool True), ([98], VInt 2), (ErrorKey, VInt 1)]\<rparr>) 0 = Ok (None, 0) \<and>
   last (field_names sample_entry) = ErrorKey"
proof -
  have d: "distinct (map fst (en_Data sample_entry))" by (simp add: sample_entry_def ErrorKey_def bs_of_def)
  let ?kvs = "[([97], VBool True), ([98], VInt 2), (ErrorKey, VInt 1)]"
  have m: "mset (en_Data sample_entry) = mset ?kvs" by (simp add: sample_entry_def)
  have "event_name defaultHook (sample_entry\<lparr>en_Data := ?kvs\<rparr>) = event_name defaultHook sample_entry"
    "event_opts defaultHook (sample_entry\<lparr>en_Data := ?kvs\<rparr>) = event_opts defaultHook sample_entry"
    by (simp_all add: event_name_def event_opts_def defaultHook_def)
  note f = logrus_fire [OF d m refl this, where ewt = "\<lambda>os _ _ _ _ _ _. (None, Suc os)" and ft = "\<lambda>_. (0, 0)" and provider = "None :: unit Provider option" and os = 0]
  have "ErrorKey \<in> fst ` set (en_Data sample_entry)" by (simp add: sample_entry_def)
  moreover have "\<not> IsEnabledForLevel (None :: unit Provider option) (etw_level (en_Level sample_entry))"
    by (simp add: IsEnabledForLevel_def IsEnabledForLevelAndKeywords_def)
  ultimately show ?thesis using f by simp
qed

section \<open>The provider of a hook\<close>

text \<open>A provider given by an option is replaced by the one that \<^verbatim>\<open>NewHook\<close> registers.\<close>

lemma apply_opts_append:
  "apply_opts (opts @ opts') h s =
     (case apply_opts opts h s of (Ok h, s) \<Rightarrow> apply_opts opts' h s | r \<Rightarrow> r)"
  by (induction opts arbitrary: h s) (simp_all split: res.split prod.split)

lemma NewHook_owns:
  "NewHook new name opts s = (Ok h, s') \<Longrightarrow> closeProvider h \<and> hk_provider h \<noteq> None"
  by (auto simp: NewHook_def NewHookFromOpts_def apply_opts_append WithNewETWProvider_def bind_res_Ok_iff hk_validate_def
      split: prod.splits res.splits if_splits option.splits)

lemma NewHookFromProvider_borrows:
  "NewHookFromProvider p opts s = (Ok h, s') \<Longrightarrow> \<not> closeProvider h \<and> hk_provider h = p \<and> hk_Close close h s'' = (None, s'')"
  by (auto simp: NewHookFromProvider_def NewHookFromOpts_def apply_opts_append WithExistingETWProvider_def hk_validate_def hk_Close_def
      split: prod.splits res.splits if_splits option.splits)

text \<open>
  A provider that was registered by an option stays registered when a later option fails: no hook
  is returned through which it could be closed.
\<close>

lemma failed_option_leaks:
  assumes "new n s = (Ok p, s1)" and "opt (defaultHook\<lparr>hk_provider := Some p, closeProvider := True\<rparr>) s1 = (Err e, s2)"
  shows "NewHookFromOpts [WithNewETWProvider new n, opt] s = (Err e, s2)"
  using assms by (simp add: NewHookFromOpts_def WithNewETWProvider_def)

end
