(* ===== verification/Go_Text.thy ===== *)
theory Go_Text
  imports Go_Prelude
begin

text \<open>
  The part of package \<^verbatim>\<open>strings\<close> that the syscall generator uses, on text as lists of
  characters, where one \<^verbatim>\<open>char\<close> is one byte of a Go string: trimming, splitting and joining,
  prefixes, and the decimal form of a number.
\<close>

abbreviation nl :: char where "nl \<equiv> CHR 0x0A"
abbreviation tb :: char where "tb \<equiv> CHR 0x09"
abbreviation qt :: char where "qt \<equiv> CHR 0x22"

definition is_blank :: "char \<Rightarrow> bool" where
  "is_blank c \<longleftrightarrow> c = CHR '' '' \<or> c = tb"

definition trim_with :: "(char \<Rightarrow> bool) \<Rightarrow> string \<Rightarrow> string" where
  "trim_with p s = rev (dropWhile p (rev (dropWhile p s)))"

fun split_on :: "char \<Rightarrow> string \<Rightarrow> string list" where
  "split_on c [] = [[]]"
| "split_on c (x # xs) =
     (if x = c then [] # split_on c xs
      else (case split_on c xs of [] \<Rightarrow> [[x]] | w # ws \<Rightarrow> (x # w) # ws))"

text \<open>\<^verbatim>\<open>strings.SplitN(s, sep, 2)\<close> of one character: the two parts, when there are two.\<close>

fun split_first :: "char \<Rightarrow> string \<Rightarrow> (string \<times> string) option" where
  "split_first c [] = None"
| "split_first c (x # xs) =
     (if x = c then Some ([], xs) else map_option (\<lambda>(a, b). (x # a, b)) (split_first c xs))"

text \<open>\<^verbatim>\<open>strings.LastIndex\<close> of one character, as the parts before and after it.\<close>

definition split_last :: "char \<Rightarrow> string \<Rightarrow> (string \<times> string) option" where
  "split_last c s = map_option (\<lambda>(a, b). (rev b, rev a)) (split_first c (rev s))"

definition has_prefix :: "string \<Rightarrow> string \<Rightarrow> bool" where
  "has_prefix s p \<longleftrightarrow> take (length p) s = p"

definition has_suffix :: "string \<Rightarrow> string \<Rightarrow> bool" where
  "has_suffix s p \<longleftrightarrow> has_prefix (rev s) (rev p)"

fun join_text :: "string \<Rightarrow> string list \<Rightarrow> string" where
  "join_text sep [] = []"
| "join_text sep [a] = a"
| "join_text sep (a # b # as) = a @ sep @ join_text sep (b # as)"

text \<open>\<^verbatim>\<open>strings.Replace(s, old, new, 1)\<close> for an \<open>old\<close> that is not empty.\<close>

fun replace_first :: "string \<Rightarrow> string \<Rightarrow> string \<Rightarrow> string" where
  "replace_first p r [] = []"
| "replace_first p r (x # xs) =
     (if has_prefix (x # xs) p then r @ drop (length p) (x # xs) else x # replace_first p r xs)"

definition replace_char :: "char \<Rightarrow> char \<Rightarrow> string \<Rightarrow> string" where
  "replace_char c d s = map (\<lambda>x. if x = c then d else x) s"

definition digit_char :: "nat \<Rightarrow> char" where
  "digit_char n = char_of (n + 48)"

fun itoa :: "nat \<Rightarrow> string" where
  "itoa n = (if n < 10 then [digit_char n] else itoa (n div 10) @ [digit_char (n mod 10)])"

declare itoa.simps [simp del]

section \<open>Trimming\<close>

definition trimmed :: "(char \<Rightarrow> bool) \<Rightarrow> string \<Rightarrow> bool" where
  "trimmed p s \<longleftrightarrow> s = [] \<or> \<not> p (hd s) \<and> \<not> p (last s)"

lemma trim_with_id: "trimmed p s \<Longrightarrow> trim_with p s = s"
proof -
  assume t: "trimmed p s"
  have "dropWhile p s = s" "dropWhile p (rev s) = rev s"
    using t by (auto simp: trimmed_def hd_rev dropWhile_eq_self_iff)
  then show ?thesis by (simp add: trim_with_def)
qed

lemma trimmed_trim: "trimmed p (trim_with p s)"
proof -
  let ?t = "dropWhile p s"
  obtain u where u: "rev ?t = takeWhile p (rev ?t) @ u" "u = dropWhile p (rev ?t)" by simp
  have "\<not> p (last (rev u))" if "u \<noteq> []" using that u(2) hd_dropWhile [of p "rev ?t"] by (simp add: last_rev)
  moreover have "\<not> p (hd (rev u))" if "u \<noteq> []"
  proof -
    have "?t = rev u @ rev (takeWhile p (rev ?t))" using u(1) by (metis rev_append rev_rev_ident)
    then have "hd (rev u) = hd ?t" "?t \<noteq> []" using that by (metis hd_append2 rev_is_Nil_conv, metis Nil_is_append_conv rev_is_Nil_conv)
    then show ?thesis using hd_dropWhile [of p s] by simp
  qed
  ultimately show ?thesis unfolding trimmed_def trim_with_def u(2) [symmetric] by auto
qed

lemma trim_append: "trimmed p s \<Longrightarrow> s \<noteq> [] \<Longrightarrow> \<forall>c\<in>set u. p c \<Longrightarrow> \<forall>c\<in>set v. p c \<Longrightarrow> trim_with p (u @ s @ v) = s"
  by (cases s rule: rev_cases)
    (auto simp: trimmed_def trim_with_def dropWhile_append dropWhile_eq_self_iff hd_append split: if_splits)

lemma trimmed_append: "s \<noteq> [] \<Longrightarrow> t \<noteq> [] \<Longrightarrow> trimmed p (s @ t) \<longleftrightarrow> \<not> p (hd s) \<and> \<not> p (last t)"
  by (simp add: trimmed_def)

lemma trimmed_clean: "\<forall>c\<in>set s. \<not> p c \<Longrightarrow> trimmed p s"
  by (cases s) (simp_all add: trimmed_def)

section \<open>Splitting and joining\<close>

lemma split_first_append: "c \<notin> set a \<Longrightarrow> split_first c (a @ c # b) = Some (a, b)"
  by (induction a) auto

lemma split_first_None: "split_first c s = None \<longleftrightarrow> c \<notin> set s"
  by (induction s) auto

lemma split_first_Some: "split_first c s = Some (a, b) \<longleftrightarrow> s = a @ c # b \<and> c \<notin> set a"
proof (induction s arbitrary: a)
  case (Cons x xs)
  show ?case
  proof (cases a)
    case Nil
    then show ?thesis by (cases "split_first c xs") auto
  next
    case (Cons y ys)
    then show ?thesis using Cons.IH [of ys] by (cases "split_first c xs") auto
  qed
qed simp

lemma split_last_append: "c \<notin> set b \<Longrightarrow> split_last c (a @ c # b) = Some (a, b)"
  using split_first_append [of c "rev b" "rev a"] by (simp add: split_last_def)

lemma split_last_None: "split_last c s = None \<longleftrightarrow> c \<notin> set s"
  by (simp add: split_last_def split_first_None)

lemma split_on_clean: "c \<notin> set s \<Longrightarrow> split_on c s = [s]"
  by (induction s) auto

lemma split_on_not_Nil [simp]: "split_on c s \<noteq> []"
  by (cases s) (auto split: list.splits)

lemma split_on_append: "c \<notin> set a \<Longrightarrow> split_on c (a @ c # b) = a # split_on c b"
  by (induction a) auto

lemma split_on_join:
  "ws \<noteq> [] \<Longrightarrow> \<forall>w\<in>set ws. c \<notin> set w \<Longrightarrow> c \<notin> set sep \<Longrightarrow>
   split_on c (join_text (c # sep) ws) = hd ws # map ((@) sep) (tl ws)"
proof (induction ws)
  case (Cons w ws)
  show ?case
  proof (cases ws)
    case Nil
    then show ?thesis using Cons.prems by (simp add: split_on_clean)
  next
    case (Cons v vs)
    have s: "split_on c (u @ x) = (u @ hd (split_on c x)) # tl (split_on c x)" if "c \<notin> set u" for u x
      using that by (induction u) (auto split: list.splits)
    have ih: "split_on c (join_text (c # sep) ws) = hd ws # map ((@) sep) (tl ws)"
      using Cons.IH Cons.prems Cons by simp
    show ?thesis using Cons.prems ih unfolding Cons
      by (simp add: split_on_append s)
  qed
qed simp

lemma set_join_text: "set (join_text sep ws) \<subseteq> \<Union> (set ` set ws) \<union> set sep"
  by (induction sep ws rule: join_text.induct) auto

lemma join_text_append: "as \<noteq> [] \<Longrightarrow> bs \<noteq> [] \<Longrightarrow> join_text sep (as @ bs) = join_text sep as @ sep @ join_text sep bs"
proof (induction sep as rule: join_text.induct)
  case (2 sep a)
  then show ?case by (cases bs) simp_all
qed simp_all

lemma has_prefix_append [simp]: "has_prefix (p @ s) p"
  by (simp add: has_prefix_def)

lemma has_prefixD: "has_prefix s p \<Longrightarrow> s = p @ drop (length p) s"
  unfolding has_prefix_def by (metis append_take_drop_id)

lemma replace_first_none: "\<not> (\<exists>a b. s = a @ p @ b) \<Longrightarrow> replace_first p r s = s"
proof (induction s)
  case (Cons x xs)
  have "\<not> has_prefix (x # xs) p" using Cons.prems has_prefixD [of "x # xs" p] by (metis append_Nil)
  moreover have "\<not> (\<exists>a b. xs = a @ p @ b)" using Cons.prems by (metis append_Cons)
  ultimately show ?case using Cons.IH by simp
qed simp

section \<open>Decimal numbers\<close>

lemma digit_char_inj: "m < 10 \<Longrightarrow> n < 10 \<Longrightarrow> digit_char m = digit_char n \<longleftrightarrow> m = n"
proof -
  assume "m < 10" "n < 10"
  have "of_char (digit_char k) = k + 48" if "k < 10" for k
    using that by (simp add: digit_char_def)
  then show ?thesis using \<open>m < 10\<close> \<open>n < 10\<close> by (metis add_right_cancel)
qed

lemma itoa_not_Nil [simp]: "itoa n \<noteq> []"
  by (simp add: itoa.simps [of n])

lemma itoa_inj [simp]: "itoa m = itoa n \<longleftrightarrow> m = n"
proof (induction m arbitrary: n rule: itoa.induct)
  case (1 m)
  have m: "itoa m = (if m < 10 then [digit_char m] else itoa (m div 10) @ [digit_char (m mod 10)])"
    and n: "itoa n = (if n < 10 then [digit_char n] else itoa (n div 10) @ [digit_char (n mod 10)])"
    by (rule itoa.simps)+
  show ?case
  proof (cases "m < 10 \<or> n < 10")
    case True
    then show ?thesis unfolding m n by (auto simp: digit_char_inj dest: sym)
  next
    case False
    then have "itoa m = itoa n \<longleftrightarrow> m div 10 = n div 10 \<and> m mod 10 = n mod 10"
      unfolding m n using "1.IH" [of "n div 10"] by (simp add: digit_char_inj)
    then show ?thesis by (metis div_mult_mod_eq)
  qed
qed

end
