(* ===== verification/Mk_Decl.thy ===== *)
theory Mk_Decl
  imports Go_Text
begin

text \<open>
  The declarations that the syscall generator \<^verbatim>\<open>tools/mkwinsyscall\<close> reads: the parser of one
  \<^verbatim>\<open>//sys\<close> line into a function with its parameters, return values, fail condition and DLL.
  What the parser accepts is well-formed (\<open>parsed_ok\<close>, which the generator relies on), and it reads
  back every declaration that \<open>decl_text\<close> writes.
\<close>

section \<open>Data\<close>

text \<open>
  A parameter's pointer to its function is left out: a parameter belongs to the function in whose list
  it is. \<open>tmpVarIdx\<close> is -1 until the parameter gets a temporary variable.
\<close>

record Param =
  prm_Name :: string
  prm_Type :: string
  tmpVarIdx :: int

record Rets =
  ret_Name :: string
  ret_Type :: string
  ReturnsError :: bool
  FailCond :: string
  fnMaybeAbsent :: bool

record Fn =
  fn_Name :: string
  Params :: "Param list"
  fn_Rets :: Rets
  PrintTrace :: bool
  dllname :: string
  dllfuncname :: string
  fn_src :: string
  curTmpVarIdx :: int

text \<open>The errors of \<^verbatim>\<open>newFn\<close> and \<^verbatim>\<open>extractParams\<close>, with the text that they quote.\<close>

datatype decl_error =
    No_Function_Name string
  | Bad_Parameter string
  | Second_Return_Value string
  | Too_Many_Return_Values string
  | No_Dll_Name string
  | No_Dll_Function string

definition varErr :: string where "varErr = ''err''"
definition tError :: string where "tError = ''error''"
definition tString :: string where "tString = ''string''"
definition tBool :: string where "tBool = ''bool''"
definition tBoolPtr :: string where "tBoolPtr = ''*bool''"

definition trim :: "string \<Rightarrow> string" where "trim = trim_with is_blank"

definition endsIn :: "string \<Rightarrow> char \<Rightarrow> bool" where
  "endsIn s c \<longleftrightarrow> s \<noteq> [] \<and> last s = c"

definition IsError :: "Param \<Rightarrow> bool" where
  "IsError p \<longleftrightarrow> prm_Name p = varErr \<and> prm_Type p = tError"

section \<open>Parsing\<close>

definition extract_param :: "string \<Rightarrow> decl_error + Param" where
  "extract_param s =
     (let s2 = trim s;
          b = split_on (CHR '' '') s2;
          b = (if length b \<noteq> 2 then split_on tb s2 else b)
      in if length b \<noteq> 2 then Inl (Bad_Parameter s2)
         else Inr \<lparr>prm_Name = trim (b ! 0), prm_Type = trim (b ! 1), tmpVarIdx = -1\<rparr>)"

fun params_loop :: "string list \<Rightarrow> decl_error + Param list" where
  "params_loop [] = Inr []"
| "params_loop (a # as) =
     (case extract_param a of Inl e \<Rightarrow> Inl e
      | Inr p \<Rightarrow> (case params_loop as of Inl e \<Rightarrow> Inl e | Inr ps \<Rightarrow> Inr (p # ps)))"

definition extractParams :: "string \<Rightarrow> decl_error + Param list" where
  "extractParams s =
     (let s = trim s in if s = [] then Inr [] else params_loop (split_on (CHR '','') s))"

text \<open>Prefix, body, suffix, and whether the section was found.\<close>

definition extractSection :: "string \<Rightarrow> char \<Rightarrow> char \<Rightarrow> string \<times> string \<times> string \<times> bool" where
  "extractSection s start stop =
     (let s = trim s;
          a = (if has_prefix s [start] then Some ([], drop 1 s) else split_first start s)
      in case a of
           None \<Rightarrow> ([], [], s, False)
         | Some (prefix, body) \<Rightarrow>
             (case split_first stop body of
                None \<Rightarrow> ([], [], [], False)
              | Some (body, suffix) \<Rightarrow> (prefix, body, suffix, True)))"

definition no_rets :: Rets where
  "no_rets = \<lparr>ret_Name = [], ret_Type = [], ReturnsError = False, FailCond = [], fnMaybeAbsent = False\<rparr>"

text \<open>The return values.\<close>

definition set_rets :: "string \<Rightarrow> Param list \<Rightarrow> Rets \<Rightarrow> decl_error + Rets" where
  "set_rets src r rets =
     (case r of
        [] \<Rightarrow> Inr rets
      | [p] \<Rightarrow> Inr (if IsError p then rets\<lparr>ReturnsError := True\<rparr>
                   else rets\<lparr>ret_Name := prm_Name p, ret_Type := prm_Type p\<rparr>)
      | [p, q] \<Rightarrow> if \<not> IsError q then Inl (Second_Return_Value src)
                  else Inr (rets\<lparr>ReturnsError := True, ret_Name := prm_Name p, ret_Type := prm_Type p\<rparr>)
      | _ \<Rightarrow> Inl (Too_Many_Return_Values src))"

text \<open>The DLL and the name of the function in it.\<close>

definition set_dll :: "string \<Rightarrow> Fn \<Rightarrow> decl_error + Fn" where
  "set_dll s f =
     (let s = trim s in
      if s = [] then Inr f
      else if \<not> has_prefix s ''='' then Inl (No_Dll_Name (fn_src f))
      else
        (let s = trim (drop 1 s);
             f = (case split_last (CHR ''.'') s of
                    Some (d, n) \<Rightarrow> f\<lparr>dllname := d, dllfuncname := n\<rparr>
                  | None \<Rightarrow> f\<lparr>dllfuncname := s\<rparr>)
         in if dllfuncname f = [] then Inl (No_Dll_Function s)
            else if endsIn (dllfuncname f) (CHR ''?'')
              then Inr (f\<lparr>dllfuncname := butlast (dllfuncname f), fn_Rets := (fn_Rets f)\<lparr>fnMaybeAbsent := True\<rparr>\<rparr>)
            else Inr f))"

definition return_values :: "string \<Rightarrow> string \<Rightarrow> decl_error + Rets \<times> string" where
  "return_values src s =
     (case extractSection s (CHR ''('') (CHR '')'') of (_, body, s, found) \<Rightarrow>
      if \<not> found then Inr (no_rets, s)
      else (case extractParams body of
              Inl e \<Rightarrow> Inl e
            | Inr r \<Rightarrow> (case set_rets src r no_rets of Inl e \<Rightarrow> Inl e | Inr rets \<Rightarrow> Inr (rets, s))))"

definition fail_condition :: "Rets \<Rightarrow> string \<Rightarrow> Rets \<times> string" where
  "fail_condition rets s =
     (case extractSection s (CHR ''['') (CHR '']'') of (_, body, s, found) \<Rightarrow>
      (if found then rets\<lparr>FailCond := body\<rparr> else rets, s))"

definition newFn :: "bool \<Rightarrow> string \<Rightarrow> decl_error + Fn" where
  "newFn printTraceFlag s =
     (let src = trim s in
      case extractSection src (CHR ''('') (CHR '')'') of (prefix, body, s, found) \<Rightarrow>
      if \<not> found \<or> prefix = [] then Inl (No_Function_Name src)
      else
        (case extractParams body of
           Inl e \<Rightarrow> Inl e
         | Inr ps \<Rightarrow>
             (case return_values src s of
                Inl e \<Rightarrow> Inl e
              | Inr (rets, s) \<Rightarrow>
                  (case fail_condition rets s of (rets, s) \<Rightarrow>
                   set_dll s \<lparr>fn_Name = prefix, Params = ps, fn_Rets = rets, PrintTrace = printTraceFlag,
                     dllname = [], dllfuncname = [], fn_src = src, curTmpVarIdx = 0\<rparr>))))"

section \<open>What the parser accepts\<close>

definition param_ok :: "Param \<Rightarrow> bool" where
  "param_ok p \<longleftrightarrow> prm_Name p \<noteq> [] \<and> prm_Type p \<noteq> [] \<and> tmpVarIdx p = -1"

definition parsed_ok :: "Fn \<Rightarrow> bool" where
  "parsed_ok f \<longleftrightarrow> fn_Name f \<noteq> [] \<and> (\<forall>p\<in>set (Params f). param_ok p) \<and> curTmpVarIdx f = 0 \<and>
     (ret_Name (fn_Rets f) = [] \<longleftrightarrow> ret_Type (fn_Rets f) = [])"

lemma trim_parts:
  assumes "trimmed is_blank s" and "s = a @ c # b" and "is_blank c"
  shows "trim a \<noteq> []" and "trim b \<noteq> []"
proof -
  have ne: "trim t \<noteq> []" if "x \<in> set t" "\<not> is_blank x" for t x
  proof -
    have d: "dropWhile is_blank t \<noteq> []" using that by (auto simp: dropWhile_eq_Nil_conv)
    then have "hd (dropWhile is_blank t) \<in> set (rev (dropWhile is_blank t))" by simp
    moreover have "\<not> is_blank (hd (dropWhile is_blank t))" by (rule hd_dropWhile [OF d])
    ultimately have "dropWhile is_blank (rev (dropWhile is_blank t)) \<noteq> []"
      unfolding dropWhile_eq_Nil_conv by blast
    then show ?thesis by (simp add: trim_def trim_with_def)
  qed
  have h: "\<not> is_blank (hd s)" "\<not> is_blank (last s)" using assms by (auto simp: trimmed_def)
  have "a \<noteq> []" using h assms by (cases a) auto
  then have "hd s \<in> set a" using assms(2) by simp
  then show "trim a \<noteq> []" using ne h by blast
  have "b \<noteq> []" using h assms by (cases b) auto
  then have "last s \<in> set b" using assms(2) by simp
  then show "trim b \<noteq> []" using ne h by blast
qed

lemma split_on_two: "split_on c s = [a, b] \<Longrightarrow> s = a @ c # b"
proof (induction s arbitrary: a)
  case (Cons x xs)
  have one: "s = w" if "split_on c s = [w]" for s w
    using that by (induction s arbitrary: w) (auto split: if_splits list.splits)
  show ?case
  proof (cases "x = c")
    case True
    then show ?thesis using Cons.prems one by auto
  next
    case False
    then show ?thesis using Cons by (cases a) (auto split: list.splits)
  qed
qed simp

lemma extract_param_ok: "extract_param s = Inr p \<Longrightarrow> param_ok p"
proof -
  assume p: "extract_param s = Inr p"
  have two: "l = [l ! 0, l ! 1]" if "length l = 2" for l :: "string list"
    using that by (auto simp: length_Suc_conv numeral_2_eq_2)
  obtain c where c: "is_blank c" "length (split_on c (trim s)) = 2"
    and e: "p = \<lparr>prm_Name = trim (split_on c (trim s) ! 0), prm_Type = trim (split_on c (trim s) ! 1), tmpVarIdx = -1\<rparr>"
  proof (cases "length (split_on (CHR '' '') (trim s)) = 2")
    case True
    then show thesis using p that [of "CHR '' ''"] by (simp add: extract_param_def is_blank_def Let_def)
  next
    case False
    then show thesis using p that [of tb] by (simp add: extract_param_def is_blank_def Let_def split: if_splits)
  qed
  show ?thesis
    using trim_parts [OF _ split_on_two [OF two [OF c(2)]] c(1)] trimmed_trim e by (simp add: param_ok_def trim_def)
qed

lemma params_loop_ok: "params_loop as = Inr ps \<Longrightarrow> length ps = length as \<and> (\<forall>p\<in>set ps. param_ok p)"
  by (induction as arbitrary: ps) (auto split: sum.splits dest: extract_param_ok)

lemma extractParams_ok: "extractParams s = Inr ps \<Longrightarrow> p \<in> set ps \<Longrightarrow> param_ok p"
  using params_loop_ok by (auto simp: extractParams_def Let_def split: if_splits)

lemma set_rets_ok:
  assumes "set_rets src r no_rets = Inr rets" and "\<And>p. p \<in> set r \<Longrightarrow> param_ok p"
  shows "ret_Name rets = [] \<longleftrightarrow> ret_Type rets = []"
  using assms by (auto simp: set_rets_def no_rets_def param_ok_def split: list.splits if_splits)

lemma set_dll_same:
  "set_dll s f = Inr f' \<Longrightarrow> fn_Name f' = fn_Name f \<and> Params f' = Params f \<and> curTmpVarIdx f' = curTmpVarIdx f \<and>
   fn_src f' = fn_src f \<and> ret_Name (fn_Rets f') = ret_Name (fn_Rets f) \<and> ret_Type (fn_Rets f') = ret_Type (fn_Rets f)"
  by (auto simp: set_dll_def Let_def split: if_splits option.splits)

lemma return_values_ok:
  "return_values src s = Inr (rets, s') \<Longrightarrow> ret_Name rets = [] \<longleftrightarrow> ret_Type rets = []"
  by (auto simp: return_values_def no_rets_def [symmetric] split: prod.splits if_splits sum.splits
      dest: set_rets_ok extractParams_ok) (simp_all add: no_rets_def)

lemma fail_condition_same:
  "fail_condition rets s = (rets', s') \<Longrightarrow> ret_Name rets' = ret_Name rets \<and> ret_Type rets' = ret_Type rets"
  by (auto simp: fail_condition_def split: prod.splits)

lemma newFnE:
  assumes "newFn t s = Inr f"
  obtains prefix body s1 ps rets s2 rets' s3 where
    "extractSection (trim s) (CHR ''('') (CHR '')'') = (prefix, body, s1, True)" "prefix \<noteq> []"
    "extractParams body = Inr ps" "return_values (trim s) s1 = Inr (rets, s2)" "fail_condition rets s2 = (rets', s3)"
    "set_dll s3 \<lparr>fn_Name = prefix, Params = ps, fn_Rets = rets', PrintTrace = t,
       dllname = [], dllfuncname = [], fn_src = trim s, curTmpVarIdx = 0\<rparr> = Inr f"
  using assms by (auto simp: newFn_def Let_def split: prod.splits sum.splits if_splits)

lemma newFn_ok: "newFn t s = Inr f \<Longrightarrow> parsed_ok f"
  by (erule newFnE) (drule set_dll_same, drule fail_condition_same, drule return_values_ok,
    auto simp: parsed_ok_def dest: extractParams_ok)

section \<open>Reading declarations back\<close>

definition ToParams :: "Rets \<Rightarrow> Param list" where
  "ToParams r =
     (if ret_Name r \<noteq> [] then [\<lparr>prm_Name = ret_Name r, prm_Type = ret_Type r, tmpVarIdx = 0\<rparr>] else []) @
     (if ReturnsError r then [\<lparr>prm_Name = varErr, prm_Type = tError, tmpVarIdx = 0\<rparr>] else [])"

definition join_params :: "Param list \<Rightarrow> (Param \<Rightarrow> string) \<Rightarrow> string \<Rightarrow> string" where
  "join_params ps fn sep = (if ps = [] then [] else join_text sep (map fn ps))"

definition decl_param :: "Param \<Rightarrow> string" where
  "decl_param p = prm_Name p @ '' '' @ prm_Type p"

definition ParamList :: "Fn \<Rightarrow> string" where
  "ParamList f = join_params (Params f) decl_param '', ''"

text \<open>The declaration of a function, as the documentation describes it.\<close>

definition decl_rets :: "Rets \<Rightarrow> string" where
  "decl_rets r = (if ToParams r = [] then [] else '' ('' @ join_params (ToParams r) decl_param '', '' @ '')'')"

definition decl_fail :: "Rets \<Rightarrow> string" where
  "decl_fail r = (if FailCond r = [] then [] else '' ['' @ FailCond r @ '']'')"

definition decl_dll :: "Fn \<Rightarrow> string" where
  "decl_dll f =
     (if dllfuncname f = [] then []
      else '' = '' @ (if dllname f = [] then [] else dllname f @ ''.'') @ dllfuncname f @
        (if fnMaybeAbsent (fn_Rets f) then ''?'' else []))"

definition decl_text :: "Fn \<Rightarrow> string" where
  "decl_text f = fn_Name f @ ''('' @ ParamList f @ '')'' @ decl_rets (fn_Rets f) @ decl_fail (fn_Rets f) @ decl_dll f"

definition word_ok :: "string \<Rightarrow> bool" where
  "word_ok s \<longleftrightarrow> s \<noteq> [] \<and> (\<forall>c\<in>set s. \<not> is_blank c \<and> c \<notin> {CHR '','', CHR ''('', CHR '')''})"

definition rets_ok :: "Rets \<Rightarrow> bool" where
  "rets_ok r \<longleftrightarrow>
     (if ret_Name r = [] then ret_Type r = [] else word_ok (ret_Name r) \<and> word_ok (ret_Type r)) \<and>
     (ReturnsError r \<or> \<not> (ret_Name r = varErr \<and> ret_Type r = tError)) \<and>
     CHR '']'' \<notin> set (FailCond r) \<and> CHR ''('' \<notin> set (FailCond r)"

definition dll_ok :: "Fn \<Rightarrow> bool" where
  "dll_ok f \<longleftrightarrow>
     (if dllfuncname f = [] then dllname f = [] \<and> \<not> fnMaybeAbsent (fn_Rets f)
      else word_ok (dllfuncname f) \<and> (dllname f = [] \<or> word_ok (dllname f)) \<and>
        CHR ''.'' \<notin> set (dllfuncname f) \<and> CHR ''['' \<notin> set (dllname f @ dllfuncname f) \<and>
        (fnMaybeAbsent (fn_Rets f) \<or> \<not> endsIn (dllfuncname f) (CHR ''?'')))"

definition decl_ok :: "Fn \<Rightarrow> bool" where
  "decl_ok f \<longleftrightarrow> word_ok (fn_Name f) \<and>
     (\<forall>p\<in>set (Params f). word_ok (prm_Name p) \<and> word_ok (prm_Type p) \<and> tmpVarIdx p = -1) \<and>
     rets_ok (fn_Rets f) \<and> dll_ok f \<and> fn_src f = decl_text f \<and> curTmpVarIdx f = 0"

definition ends_ok :: "string \<Rightarrow> bool" where
  "ends_ok s \<longleftrightarrow> s = [] \<or> \<not> is_blank (last s)"

lemma trim_blanks: "ends_ok t \<Longrightarrow> t = [] \<or> \<not> is_blank (hd t) \<Longrightarrow> \<forall>c\<in>set u. is_blank c \<Longrightarrow> trim (u @ t) = t"
  using trim_append [of is_blank t u "[]"]
  by (cases "t = []") (auto simp: trim_def ends_ok_def trimmed_def trim_with_def dropWhile_append2 dropWhile_eq_Nil_conv dest: set_dropWhileD)

lemma trim_clean: "word_ok s \<Longrightarrow> trim s = s"
  by (simp add: trim_def trim_with_id trimmed_clean word_ok_def)

lemma word_okD: "word_ok s \<Longrightarrow> s \<noteq> [] \<and> \<not> is_blank (hd s) \<and> \<not> is_blank (last s)"
  by (simp add: word_ok_def)

lemma extractSection_trim: "trim s = trim t \<Longrightarrow> extractSection s a b = extractSection t a b"
  by (simp add: extractSection_def)

lemma extractSection_none: "start \<notin> set s \<Longrightarrow> extractSection s start stop = ([], [], trim s, False)"
proof -
  assume "start \<notin> set s"
  moreover have "set (trim s) \<subseteq> set s"
    unfolding trim_def trim_with_def using set_dropWhileD by (metis set_rev subsetI)
  ultimately have "start \<notin> set (trim s)" by blast
  moreover from this have "\<not> has_prefix (trim s) [start]" by (cases "trim s") (auto simp: has_prefix_def)
  ultimately show ?thesis using split_first_None [of start "trim s"] by (simp add: extractSection_def Let_def)
qed

lemma extractSection_found:
  assumes "\<forall>c\<in>set u. is_blank c" and "start \<notin> set prefix" and "stop \<notin> set body" and "ends_ok suffix"
    and "\<not> is_blank start" and "\<not> is_blank stop" and "prefix = [] \<or> \<not> is_blank (hd prefix)"
  shows "extractSection (u @ prefix @ start # body @ stop # suffix) start stop = (prefix, body, suffix, True)"
proof -
  let ?t = "prefix @ start # body @ stop # suffix"
  have "trim (u @ ?t) = ?t"
    using assms by (intro trim_blanks) (auto simp: ends_ok_def hd_append)
  then show ?thesis
    using assms(2,3) by (cases prefix)
      (auto simp: extractSection_def Let_def has_prefix_def split_first_append split: option.splits)
qed

lemma extract_param_text:
  assumes "word_ok (prm_Name p)" and "word_ok (prm_Type p)" and "\<forall>c\<in>set u. is_blank c"
  shows "extract_param (u @ decl_param p) = Inr (p\<lparr>tmpVarIdx := -1\<rparr>)"
proof -
  note w = word_okD [OF assms(1)] word_okD [OF assms(2)]
  have t: "trim (u @ decl_param p) = decl_param p"
    using w assms(3) by (intro trim_blanks) (simp_all add: decl_param_def ends_ok_def)
  have "CHR '' '' \<notin> set (prm_Name p)" "CHR '' '' \<notin> set (prm_Type p)"
    using assms by (auto simp: word_ok_def is_blank_def)
  then have "split_on (CHR '' '') (decl_param p) = [prm_Name p, prm_Type p]"
    by (simp add: decl_param_def split_on_append split_on_clean)
  then show ?thesis using assms by (simp add: extract_param_def t Let_def trim_clean)
qed

lemma params_loop_map:
  "\<forall>p\<in>set ps. extract_param (g p) = Inr (h p) \<Longrightarrow> params_loop (map g ps) = Inr (map h ps)"
  by (induction ps) auto

lemma extractParams_text:
  assumes "\<forall>p\<in>set ps. word_ok (prm_Name p) \<and> word_ok (prm_Type p)"
  shows "extractParams (join_params ps decl_param '', '') = Inr (map (\<lambda>p. p\<lparr>tmpVarIdx := -1\<rparr>) ps)"
proof (cases ps)
  case Nil
  then show ?thesis by (simp add: extractParams_def join_params_def trim_def trim_with_def)
next
  case (Cons p qs)
  let ?s = "join_text '', '' (map decl_param ps)"
  have c: "CHR '','' \<notin> set w" if w: "w \<in> set (map decl_param ps)" for w
  proof -
    obtain q where q: "q \<in> set ps" "w = decl_param q" using w by auto
    then have "CHR '','' \<notin> set (prm_Name q)" "CHR '','' \<notin> set (prm_Type q)"
      using assms unfolding word_ok_def by blast+
    then show ?thesis using q(2) by (simp add: decl_param_def)
  qed
  have "prm_Name p \<noteq> []" using assms Cons by (simp add: word_ok_def)
  then have "hd ?s = hd (prm_Name p) \<and> ?s \<noteq> []"
    unfolding Cons by (cases qs) (simp_all add: decl_param_def)
  moreover have "last ?s = last (prm_Type (last ps))"
  proof (cases "butlast ps = []")
    case True
    then have "ps = [last ps]" using Cons by (cases qs) auto
    then have "map decl_param ps = [decl_param (last ps)]" by (metis list.simps(8,9))
    moreover have "prm_Type (last ps) \<noteq> []" using assms Cons by (simp add: word_ok_def)
    ultimately show ?thesis by (simp add: decl_param_def)
  next
    case False
    have "map decl_param ps = map decl_param (butlast ps) @ [decl_param (last ps)]"
      using Cons by (metis append_butlast_last_id list.discI list.simps(8,9) map_append)
    then have "?s = join_text '', '' (map decl_param (butlast ps)) @ '', '' @ decl_param (last ps)"
      using join_text_append [of "map decl_param (butlast ps)" "[decl_param (last ps)]" "'', ''"] False by simp
    moreover have "prm_Type (last ps) \<noteq> []" using assms Cons by (auto simp: word_ok_def)
    ultimately show ?thesis by (simp add: decl_param_def)
  qed
  moreover have "\<not> is_blank (hd (prm_Name p))" "\<not> is_blank (last (prm_Type (last ps)))"
    using assms Cons word_okD by auto
  ultimately have t: "trim ?s = ?s" "?s \<noteq> []"
    using trim_blanks [of ?s "[]"] unfolding ends_ok_def by (simp_all del: join_text.simps)
  have "split_on (CHR '','') ?s = decl_param p # map (\<lambda>q. '' '' @ decl_param q) qs"
    using split_on_join [of "map decl_param ps" "CHR '',''" "'' ''"] c Cons by simp
  moreover have "extract_param (decl_param p) = Inr (p\<lparr>tmpVarIdx := -1\<rparr>)"
    using extract_param_text [of p "[]"] assms Cons by simp
  moreover have "params_loop (map (\<lambda>q. '' '' @ decl_param q) qs) = Inr (map (\<lambda>p. p\<lparr>tmpVarIdx := -1\<rparr>) qs)"
    using assms Cons by (intro params_loop_map) (auto intro!: extract_param_text [of _ "'' ''", simplified] simp: is_blank_def)
  ultimately show ?thesis using t by (simp add: extractParams_def join_params_def Cons Let_def)
qed

lemma set_join_params:
  assumes "\<forall>p\<in>set ps. word_ok (prm_Name p) \<and> word_ok (prm_Type p)"
  shows "CHR '')'' \<notin> set (join_params ps decl_param '', '')"
proof -
  have "CHR '')'' \<notin> set (decl_param q)" if "q \<in> set ps" for q
  proof -
    have "CHR '')'' \<notin> set (prm_Name q)" "CHR '')'' \<notin> set (prm_Type q)"
      using assms that unfolding word_ok_def by blast+
    then show ?thesis by (simp add: decl_param_def)
  qed
  then have "CHR '')'' \<notin> \<Union> (set ` set (map decl_param ps)) \<union> set '', ''" by auto
  then have "CHR '')'' \<notin> set (join_text '', '' (map decl_param ps))" using set_join_text by blast
  then show ?thesis by (simp add: join_params_def)
qed

lemma trim_trim [simp]: "trim (trim s) = trim s"
  unfolding trim_def by (rule trim_with_id [OF trimmed_trim])

lemma return_values_text:
  assumes "rets_ok r" and "ends_ok t" and "CHR ''('' \<notin> set t"
  shows "\<exists>s. return_values src (decl_rets r @ t) =
      Inr (no_rets\<lparr>ret_Name := ret_Name r, ret_Type := ret_Type r, ReturnsError := ReturnsError r\<rparr>, s) \<and> trim s = trim t"
proof (cases "ToParams r = []")
  case True
  then have "ret_Name r = []" "ret_Type r = []" "\<not> ReturnsError r"
    using assms(1) by (auto simp: ToParams_def rets_ok_def split: if_splits)
  then show ?thesis
    using extractSection_none [OF assms(3)] True by (simp add: decl_rets_def return_values_def no_rets_def)
next
  case False
  let ?b = "join_params (ToParams r) decl_param '', ''"
  have e: "word_ok varErr" "word_ok tError" by (simp_all add: word_ok_def varErr_def tError_def is_blank_def)
  then have w: "\<forall>p\<in>set (ToParams r). word_ok (prm_Name p) \<and> word_ok (prm_Type p)"
    using assms(1) by (auto simp: ToParams_def rets_ok_def split: if_splits)
  have "extractSection ('' '' @ [] @ CHR ''('' # ?b @ CHR '')'' # t) (CHR ''('') (CHR '')'') = ([], ?b, t, True)"
    using set_join_params [OF w] assms(2) by (intro extractSection_found) (simp_all add: is_blank_def)
  then have s: "extractSection (decl_rets r @ t) (CHR ''('') (CHR '')'') = ([], ?b, t, True)"
    using False by (simp add: decl_rets_def)
  have "set_rets src (map (\<lambda>p. p\<lparr>tmpVarIdx := -1\<rparr>) (ToParams r)) no_rets =
      Inr (no_rets\<lparr>ret_Name := ret_Name r, ret_Type := ret_Type r, ReturnsError := ReturnsError r\<rparr>)"
    using assms(1) False by (auto simp: ToParams_def set_rets_def rets_ok_def no_rets_def IsError_def split: if_splits)
  then show ?thesis using extractParams_text [OF w] by (simp add: return_values_def s)
qed

lemma fail_condition_text:
  assumes "rets_ok r" and "ends_ok t" and "CHR ''['' \<notin> set t" and "FailCond rets = []" and "trim s = trim (decl_fail r @ t)"
  shows "\<exists>s'. fail_condition rets s = (rets\<lparr>FailCond := FailCond r\<rparr>, s') \<and> trim s' = trim t"
proof (cases "FailCond r = []")
  case True
  then have "rets\<lparr>FailCond := FailCond r\<rparr> = rets" using assms(4) by simp
  then show ?thesis
    using extractSection_none [OF assms(3)] extractSection_trim [OF assms(5)] True by (simp add: decl_fail_def fail_condition_def)
next
  case False
  have "extractSection ('' '' @ [] @ CHR ''['' # FailCond r @ CHR '']'' # t) (CHR ''['') (CHR '']'') = ([], FailCond r, t, True)"
    using assms(1,2) by (intro extractSection_found) (simp_all add: is_blank_def rets_ok_def)
  then have "extractSection s (CHR ''['') (CHR '']'') = ([], FailCond r, t, True)"
    using False extractSection_trim [OF assms(5)] by (simp add: decl_fail_def)
  then show ?thesis by (simp add: fail_condition_def)
qed

lemma set_dll_text:
  assumes "dll_ok f" and "trim s = trim (decl_dll f)" and "dllname g = []" and "dllfuncname g = []" and "\<not> fnMaybeAbsent (fn_Rets g)"
  shows "set_dll s g = Inr (g\<lparr>dllname := dllname f, dllfuncname := dllfuncname f,
    fn_Rets := (fn_Rets g)\<lparr>fnMaybeAbsent := fnMaybeAbsent (fn_Rets f)\<rparr>\<rparr>)"
proof (cases "dllfuncname f = []")
  case True
  then have "trim s = []" using assms(2) by (simp add: decl_dll_def trim_def trim_with_def)
  then show ?thesis using True assms by (simp add: set_dll_def dll_ok_def)
next
  case False
  define m where "m = fnMaybeAbsent (fn_Rets f)"
  define n where "n = dllfuncname f @ (if m then ''?'' else [])"
  define d where "d = (if dllname f = [] then [] else dllname f @ ''.'')"
  have w: "word_ok (dllfuncname f)" "dllname f = [] \<or> word_ok (dllname f)" "CHR ''.'' \<notin> set (dllfuncname f)"
    "m \<or> \<not> endsIn (dllfuncname f) (CHR ''?'')"
    using assms(1) False by (simp_all add: dll_ok_def m_def)
  have n: "n \<noteq> []" "\<not> is_blank (hd n)" "\<not> is_blank (last n)" "CHR ''.'' \<notin> set n"
    using word_okD [OF w(1)] w(3) by (simp_all add: n_def is_blank_def)
  have dn: "\<not> is_blank (hd (d @ n))" using n(2) w(2) word_okD by (auto simp: d_def)
  have "decl_dll f = '' '' @ CHR ''='' # '' '' @ d @ n" using False by (simp add: decl_dll_def n_def d_def m_def)
  then have t: "trim s = CHR ''='' # '' '' @ d @ n"
    using assms(2) n trim_blanks [of "CHR ''='' # '' '' @ d @ n" "'' ''"] by (simp add: ends_ok_def is_blank_def)
  have t2: "trim ('' '' @ d @ n) = d @ n"
    using n dn trim_blanks [of "d @ n" "'' ''"] by (simp add: ends_ok_def is_blank_def)
  have l: "split_last (CHR ''.'') (d @ n) = (if dllname f = [] then None else Some (dllname f, n))"
    using split_last_append [OF n(4), of "dllname f"] split_last_None [of "CHR ''.''" n] n(4) by (simp add: d_def)
  have e: "endsIn n (CHR ''?'') \<longleftrightarrow> m" using w(4) by (auto simp: n_def endsIn_def)
  have b: "dllfuncname f = (if m then butlast n else n)" by (simp add: n_def)
  have g: "(fn_Rets g)\<lparr>fnMaybeAbsent := False\<rparr> = fn_Rets g" using assms(5) by simp
  show ?thesis unfolding m_def [symmetric] b
    using t2 l e n(1) assms(3,4) g by (auto simp: set_dll_def t Let_def has_prefix_def d_def)
qed

lemma decl_tail_ok:
  assumes "rets_ok (fn_Rets f)" and "dll_ok f"
  shows "ends_ok (decl_dll f)" "CHR ''['' \<notin> set (decl_dll f)" "ends_ok (decl_fail (fn_Rets f) @ decl_dll f)"
    "CHR ''('' \<notin> set (decl_fail (fn_Rets f) @ decl_dll f)" "ends_ok (decl_rets (fn_Rets f) @ decl_fail (fn_Rets f) @ decl_dll f)"
proof -
  show d: "ends_ok (decl_dll f)"
    using assms(2) word_okD by (auto simp: ends_ok_def decl_dll_def dll_ok_def is_blank_def)
  show "CHR ''['' \<notin> set (decl_dll f)" using assms(2) by (auto simp: decl_dll_def dll_ok_def)
  have "CHR ''('' \<notin> set s" if "s = [] \<or> word_ok s" for s using that unfolding word_ok_def by auto
  then show "CHR ''('' \<notin> set (decl_fail (fn_Rets f) @ decl_dll f)"
    using assms by (auto simp: decl_dll_def dll_ok_def decl_fail_def rets_ok_def)
  show e: "ends_ok (decl_fail (fn_Rets f) @ decl_dll f)"
    using d by (auto simp: ends_ok_def decl_fail_def is_blank_def)
  show "ends_ok (decl_rets (fn_Rets f) @ decl_fail (fn_Rets f) @ decl_dll f)"
    using e by (auto simp: ends_ok_def decl_rets_def is_blank_def)
qed

lemma newFn_text:
  assumes "decl_ok f" and "\<forall>c\<in>set (u @ v). is_blank c"
  shows "newFn (PrintTrace f) (u @ decl_text f @ v) = Inr f"
proof -
  let ?r = "fn_Rets f" and ?t = "decl_rets (fn_Rets f) @ decl_fail (fn_Rets f) @ decl_dll f"
  have ok: "word_ok (fn_Name f)" "\<forall>p\<in>set (Params f). word_ok (prm_Name p) \<and> word_ok (prm_Type p)"
    "rets_ok ?r" "dll_ok f" "fn_src f = decl_text f" "curTmpVarIdx f = 0" "\<forall>p\<in>set (Params f). tmpVarIdx p = -1"
    using assms(1) by (simp_all add: decl_ok_def)
  note n = word_okD [OF ok(1)] and tl = decl_tail_ok [OF ok(3,4)]
  have ts: "decl_text f = [] @ fn_Name f @ CHR ''('' # ParamList f @ CHR '')'' # ?t" by (simp add: decl_text_def)
  have "trimmed is_blank (decl_text f)"
    using n tl(5) by (auto simp: trimmed_def ts ends_ok_def is_blank_def)
  moreover have "decl_text f \<noteq> []" using n by (simp add: ts)
  ultimately have src: "trim (u @ decl_text f @ v) = decl_text f" using assms(2) by (simp add: trim_def trim_append)
  have "CHR ''('' \<notin> set (fn_Name f)" using ok(1) unfolding word_ok_def by blast
  then have s1: "extractSection (decl_text f) (CHR ''('') (CHR '')'') = (fn_Name f, ParamList f, ?t, True)"
    unfolding ts using set_join_params [OF ok(2)] tl(5) n
    by (intro extractSection_found) (simp_all add: is_blank_def ParamList_def)
  have "map (\<lambda>p. p\<lparr>tmpVarIdx := -1\<rparr>) (Params f) = Params f" using ok(7) by (intro map_idI) simp
  then have s2: "extractParams (ParamList f) = Inr (Params f)"
    using extractParams_text [OF ok(2)] by (simp add: ParamList_def)
  define rets where "rets = no_rets\<lparr>ret_Name := ret_Name ?r, ret_Type := ret_Type ?r, ReturnsError := ReturnsError ?r\<rparr>"
  obtain s where s3: "return_values (decl_text f) ?t = Inr (rets, s)" "trim s = trim (decl_fail ?r @ decl_dll f)"
    using return_values_text [OF ok(3) tl(3,4)] rets_def by blast
  obtain s' where s4: "fail_condition rets s = (rets\<lparr>FailCond := FailCond ?r\<rparr>, s')" "trim s' = trim (decl_dll f)"
    using fail_condition_text [OF ok(3) tl(1,2) _ s3(2), of rets] by (auto simp: rets_def no_rets_def)
  have "set_dll s' \<lparr>fn_Name = fn_Name f, Params = Params f, fn_Rets = rets\<lparr>FailCond := FailCond ?r\<rparr>, PrintTrace = PrintTrace f,
      dllname = [], dllfuncname = [], fn_src = decl_text f, curTmpVarIdx = 0\<rparr> = Inr f"
    using set_dll_text [OF ok(4) s4(2)] ok(5,6) by (simp add: rets_def no_rets_def)
  then show ?thesis using n by (simp add: newFn_def src s1 s2 s3(1) s4(1))
qed

text \<open>
  C16: Every function declaration is read back: the name, the parameters in order, the return values, the
  fail condition, the DLL, the name of the function in it and whether it may be absent, whatever
  blanks surround the line.
\<close>

theorem newFn_reads_back:
  assumes "decl_ok f" and "\<forall>c\<in>set (u @ v). is_blank c"
  shows "newFn (PrintTrace f) (u @ decl_text f @ v) = Inr f"
  by (rule newFn_text [OF assms])

definition sample_fn :: Fn where
  "sample_fn = \<lparr>fn_Name = ''createFile'',
     Params = [\<lparr>prm_Name = ''name'', prm_Type = ''string'', tmpVarIdx = -1\<rparr>, \<lparr>prm_Name = ''b'', prm_Type = ''[]byte'', tmpVarIdx = -1\<rparr>],
     fn_Rets = \<lparr>ret_Name = ''handle'', ret_Type = ''windows.Handle'', ReturnsError = True, FailCond = ''failretval==windows.InvalidHandle'', fnMaybeAbsent = True\<rparr>,
     PrintTrace = False, dllname = ''kernel32'', dllfuncname = ''CreateFileW'',
     fn_src = ''createFile(name string, b []byte) (handle windows.Handle, err error) [failretval==windows.InvalidHandle] = kernel32.CreateFileW?'',
     curTmpVarIdx = 0\<rparr>"

lemma sample_fn_text:
  "decl_text sample_fn = ''createFile(name string, b []byte) (handle windows.Handle, err error) [failretval==windows.InvalidHandle] = kernel32.CreateFileW?''"
  by (simp add: decl_text_def sample_fn_def ParamList_def join_params_def decl_param_def decl_rets_def ToParams_def
      decl_fail_def decl_dll_def varErr_def tError_def)

lemma sample_fn_ok: "decl_ok sample_fn"
  unfolding decl_ok_def sample_fn_text
  by (simp add: sample_fn_def word_ok_def is_blank_def rets_ok_def dll_ok_def)

theorem newFn_reads_back_witness:
  "newFn False '' createFile(name string, b []byte) (handle windows.Handle, err error) [failretval==windows.InvalidHandle] = kernel32.CreateFileW?'' = Inr sample_fn"
  using newFn_reads_back [OF sample_fn_ok, of "'' ''" "[]"] unfolding sample_fn_text by (simp add: is_blank_def sample_fn_def)

text \<open>
  C37: A function that the parser accepts has a name, every parameter has a name, a type and no temporary
  variable yet, and a return value has a name exactly when it has a type. So the generator may look at
  the first character of a type.
\<close>

theorem newFn_well_formed:
  assumes "newFn t s = Inr f"
  shows "fn_Name f \<noteq> [] \<and> (\<forall>p\<in>set (Params f). prm_Name p \<noteq> [] \<and> prm_Type p \<noteq> [] \<and> tmpVarIdx p = -1) \<and>
    (ret_Name (fn_Rets f) = [] \<longleftrightarrow> ret_Type (fn_Rets f) = []) \<and> curTmpVarIdx f = 0 \<and> fn_src f = trim s"
proof -
  have "fn_src f = trim s" using assms by (elim newFnE) (drule set_dll_same, simp)
  then show ?thesis using newFn_ok [OF assms] by (auto simp: parsed_ok_def param_ok_def)
qed

theorem newFn_well_formed_witness:
  "\<exists>f. newFn False (decl_text sample_fn) = Inr f \<and> fn_Name f \<noteq> [] \<and> (\<forall>p\<in>set (Params f). prm_Type p \<noteq> [])"
proof -
  have "newFn False (decl_text sample_fn) = Inr sample_fn" using newFn_text [OF sample_fn_ok, of "[]" "[]"] by (simp add: sample_fn_def)
  from newFn_well_formed [OF this] this show ?thesis by blast
qed

text \<open>
  Return values without their closing parenthesis are not reported: the rest of the line is
  dropped, with the DLL and the function's name in it.
\<close>

theorem newFn_unclosed:
  assumes "word_ok name" and "\<forall>p\<in>set ps. word_ok (prm_Name p) \<and> word_ok (prm_Type p)"
    and "CHR ''('' \<in> set t" and "CHR '')'' \<notin> set t" and "ends_ok t"
  shows "\<exists>f. newFn tr (name @ ''('' @ join_params ps decl_param '', '' @ '')'' @ t) = Inr f \<and>
    fn_Name f = name \<and> length (Params f) = length ps \<and> fn_Rets f = no_rets \<and> dllname f = [] \<and> dllfuncname f = []"
proof -
  let ?b = "join_params ps decl_param '', ''"
  let ?s = "[] @ name @ CHR ''('' # ?b @ CHR '')'' # t"
  note n = word_okD [OF assms(1)]
  have "trim ([] @ (name @ CHR ''('' # ?b @ CHR '')'' # t)) = name @ CHR ''('' # ?b @ CHR '')'' # t"
    using n assms(5) by (intro trim_blanks) (auto simp: ends_ok_def is_blank_def)
  then have src: "trim ?s = ?s" by simp
  have "CHR ''('' \<notin> set name" using assms(1) unfolding word_ok_def by blast
  then have s1: "extractSection ?s (CHR ''('') (CHR '')'') = (name, ?b, t, True)"
    using set_join_params [OF assms(2)] assms(5) n by (intro extractSection_found) (simp_all add: is_blank_def)
  have "extractSection t (CHR ''('') (CHR '')'') = ([], [], [], False)"
  proof -
    have "set (trim t) \<subseteq> set t" unfolding trim_def trim_with_def using set_dropWhileD by (metis set_rev subsetI)
    then have c: "CHR '')'' \<notin> set (trim t)" using assms(4) by blast
    have "CHR ''('' \<in> set (trim t)"
    proof (rule ccontr)
      assume "CHR ''('' \<notin> set (trim t)"
      then have a: "CHR ''('' \<notin> set (dropWhile is_blank (rev (dropWhile is_blank t)))" by (simp add: trim_def trim_with_def)
      have keep: "c \<in> set (dropWhile is_blank z)" if "c \<in> set z" "\<not> is_blank c" for c z
        using that by (induction z) auto
      have "CHR ''('' \<in> set (rev (dropWhile is_blank t))" using keep [OF assms(3)] by (simp add: is_blank_def)
      then show False using keep a by (simp add: is_blank_def)
    qed
    then obtain p q where pq: "split_first (CHR ''('') (trim t) = Some (p, q)"
      using split_first_None [of "CHR ''(''" "trim t"] by (cases "split_first (CHR ''('') (trim t)") auto
    then have "trim t = p @ CHR ''('' # q" by (simp add: split_first_Some)
    then have "CHR '')'' \<notin> set q" "CHR '')'' \<notin> set (drop 1 (trim t))" using c by (auto dest: in_set_dropD)
    then show ?thesis
      using pq by (auto simp: extractSection_def Let_def split: option.splits) (simp_all add: split_first_Some)
  qed
  then have s3: "return_values (trim ?s) t = Inr (no_rets, [])" by (simp add: return_values_def)
  have s4: "fail_condition no_rets [] = (no_rets, [])"
    using extractSection_none [of "CHR ''[''" "[]" "CHR '']''"] by (simp add: fail_condition_def trim_def trim_with_def)
  have "newFn tr ?s = Inr \<lparr>fn_Name = name, Params = map (\<lambda>p. p\<lparr>tmpVarIdx := -1\<rparr>) ps, fn_Rets = no_rets, PrintTrace = tr,
      dllname = [], dllfuncname = [], fn_src = ?s, curTmpVarIdx = 0\<rparr>"
    using n s3 unfolding newFn_def Let_def src s1
    by (simp add: extractParams_text [OF assms(2)] s4 set_dll_def trim_def trim_with_def)
  then show ?thesis by simp
qed

theorem newFn_unclosed_witness:
  "\<exists>f. newFn False ''open(name string) (err error = kernel32.OpenW'' = Inr f \<and> dllfuncname f = [] \<and> \<not> ReturnsError (fn_Rets f)"
proof -
  let ?p = "\<lparr>prm_Name = ''name'', prm_Type = ''string'', tmpVarIdx = -1\<rparr>"
  have w: "word_ok ''open''" "word_ok ''name''" "word_ok ''string''" by (simp_all add: word_ok_def is_blank_def)
  have e: "ends_ok '' (err error = kernel32.OpenW''" by (simp add: ends_ok_def is_blank_def)
  show ?thesis
    using newFn_unclosed [of "''open''" "[?p]" "'' (err error = kernel32.OpenW''" False] w e
    by (auto simp: join_params_def decl_param_def no_rets_def)
qed

end
