(* ===== verification/Mk_Code.thy ===== *)
theory Mk_Code
  imports Mk_Decl
begin

text \<open>
  The code that \<^verbatim>\<open>tools/mkwinsyscall\<close> generates for one function: the methods of
  \<^verbatim>\<open>Param\<close>, \<^verbatim>\<open>Rets\<close> and \<^verbatim>\<open>Fn\<close>, and the templates that call
  them. A parameter gets the number of its temporary variable when it is first asked for, so the
  methods change the function: they are computations of type \<open>'a gen\<close>.
\<close>

section \<open>Computations on a function\<close>

type_synonym 'a gen = "Fn \<Rightarrow> ('a \<times> Fn) res"

definition gget :: "(Fn \<Rightarrow> 'a) \<Rightarrow> 'a gen" where
  "gget h f = Ok (h f, f)"

definition gbind :: "'a gen \<Rightarrow> ('a \<Rightarrow> 'b gen) \<Rightarrow> 'b gen" where
  "gbind m k f = bind_res (m f) (\<lambda>(x, f). k x f)"

definition gmap :: "('a \<Rightarrow> 'b) \<Rightarrow> 'a gen \<Rightarrow> 'b gen" where
  "gmap h m = gbind m (\<lambda>x. gget (\<lambda>_. h x))"

fun geach :: "(nat \<Rightarrow> 'a gen) \<Rightarrow> nat list \<Rightarrow> 'a list gen" where
  "geach m [] = gget (\<lambda>_. [])"
| "geach m (i # is) = gbind (m i) (\<lambda>x. gmap ((#) x) (geach m is))"

text \<open>A loop over the parameters of the function.\<close>

definition each_param :: "(nat \<Rightarrow> 'a gen) \<Rightarrow> 'a list gen" where
  "each_param m f = geach m [0..<length (Params f)] f"

fun gconcat :: "string gen list \<Rightarrow> string gen" where
  "gconcat [] = gget (\<lambda>_. [])"
| "gconcat (m # ms) = gbind m (\<lambda>s. gmap ((@) s) (gconcat ms))"

definition lit :: "string \<Rightarrow> string gen" where
  "lit s = gget (\<lambda>_. s)"

text \<open>\<^verbatim>\<open>{{if .M}}a{{.M}}b{{end}}\<close> calls the method twice.\<close>

definition if_text :: "string gen \<Rightarrow> string \<Rightarrow> string \<Rightarrow> string gen" where
  "if_text m a b = gbind m (\<lambda>s. if s = [] then lit [] else gconcat [lit a, m, lit b])"

definition param :: "nat \<Rightarrow> Fn \<Rightarrow> Param" where
  "param i f = Params f ! i"

section \<open>Package names\<close>

record genv =
  packageName :: string
  utf16 :: bool

definition windowsdot :: "genv \<Rightarrow> string" where
  "windowsdot e = (if packageName e = ''windows'' then [] else ''windows.'')"

definition syscalldot :: "genv \<Rightarrow> string" where
  "syscalldot e = (if packageName e = ''syscall'' then [] else ''syscall.'')"

section \<open>Names of the function\<close>

definition DLLName :: "Fn \<Rightarrow> string" where
  "DLLName f = (if dllname f = [] then ''kernel32'' else dllname f)"

definition DLLFuncName :: "Fn \<Rightarrow> string" where
  "DLLFuncName f = (if dllfuncname f = [] then fn_Name f else dllfuncname f)"

definition DLLVar :: "(string \<Rightarrow> bool) \<Rightarrow> Fn \<Rightarrow> string res" where
  "DLLVar isIdentifier f =
     (let id = map (\<lambda>c. if c = CHR ''.'' \<or> c = CHR ''-'' then CHR ''_'' else c) (DLLName f) in
      if isIdentifier id then Ok id else Panic ''could not create Go identifier for DLLName'')"

definition IsUTF16 :: "genv \<Rightarrow> Fn \<Rightarrow> bool" where
  "IsUTF16 e f \<longleftrightarrow> endsIn (DLLFuncName f) (CHR ''W'') \<or> utf16 e \<and> \<not> endsIn (DLLFuncName f) (CHR ''A'')"

definition StrconvFunc :: "genv \<Rightarrow> Fn \<Rightarrow> string" where
  "StrconvFunc e f = syscalldot e @ (if IsUTF16 e f then ''UTF16PtrFromString'' else ''BytePtrFromString'')"

definition StrconvType :: "genv \<Rightarrow> Fn \<Rightarrow> string" where
  "StrconvType e f = (if IsUTF16 e f then ''*uint16'' else ''*byte'')"

definition HasStringParam :: "Fn \<Rightarrow> bool" where
  "HasStringParam f \<longleftrightarrow> (\<exists>p\<in>set (Params f). prm_Type p = tString)"

definition HelperName :: "Fn \<Rightarrow> string" where
  "HelperName f = (if HasStringParam f then ''_'' @ fn_Name f else fn_Name f)"

section \<open>Return values\<close>

definition ErrorVarName :: "Rets \<Rightarrow> string" where
  "ErrorVarName r = (if ReturnsError r then varErr else if ret_Type r = tError then ret_Name r else [])"

definition Rets_List :: "Rets \<Rightarrow> string" where
  "Rets_List r =
     (let s = join_params (ToParams r) decl_param '', '' in
      if s \<noteq> [] then ''('' @ s @ '')'' else if fnMaybeAbsent r then ''(err error)'' else s)"

definition print_item :: "Param \<Rightarrow> string" where
  "print_item p = qt # prm_Name p @ ''='' @ qt # '', '' @ prm_Name p @ '', ''"

definition print_sep :: string where
  "print_sep = qt # '', '' @ qt # '', ''"

definition Rets_PrintList :: "Rets \<Rightarrow> string" where
  "Rets_PrintList r = join_params (ToParams r) print_item print_sep"

definition SetReturnValuesCode :: "Rets \<Rightarrow> string" where
  "SetReturnValuesCode r =
     (if ret_Name r = [] \<and> \<not> ReturnsError r then []
      else (if ret_Name r = [] then ''r1'' else ''r0'') @ '', _, '' @ (if ReturnsError r then ''e1'' else ''_'') @ '' := '')"

definition useLongHandleErrorCode :: "Rets \<Rightarrow> string \<Rightarrow> string" where
  "useLongHandleErrorCode r retvar =
     (let cond = (if FailCond r \<noteq> [] then replace_first ''failretval'' retvar (FailCond r) else retvar @ '' == 0'')
      in ''if '' @ cond @ '' {'' @ [nl, tb, tb] @ ''err = errnoErr(e1)'' @ [nl, tb] @ ''}'')"

definition errno_code :: "string \<Rightarrow> string \<Rightarrow> string" where
  "errno_code name conv = ''if r0 != 0 {'' @ [nl, tb, tb] @ name @ '' = '' @ conv @ ''(r0)'' @ [nl, tb] @ ''}''"

definition hresult_code :: "string \<Rightarrow> string \<Rightarrow> string" where
  "hresult_code name conv =
     ''if int32(r0) < 0 {'' @ [nl, tb, tb] @ ''if r0&0x1fff0000 == 0x00070000 {'' @ [nl, tb, tb, tb] @ ''r0 &= 0xffff'' @
     [nl, tb, tb] @ ''}'' @ [nl, tb, tb] @ name @ '' = '' @ conv @ ''(r0)'' @ [nl, tb] @ ''}''"

definition SetErrorCode :: "genv \<Rightarrow> Rets \<Rightarrow> string res" where
  "SetErrorCode e r =
     (if ret_Name r = [] \<and> \<not> ReturnsError r then Ok []
      else if ret_Name r = [] then Ok (useLongHandleErrorCode r ''r1'')
      else if ret_Type r = tError then
        Ok (if ret_Name r = ''ntStatus'' \<or> ret_Name r = ''ntstatus'' then errno_code (ret_Name r) (windowsdot e @ ''NTStatus'')
            else if ret_Name r = ''hr'' then hresult_code (ret_Name r) (syscalldot e @ ''Errno'')
            else errno_code (ret_Name r) (syscalldot e @ ''Errno''))
      else
        bind_res (index (ret_Type r) 0) (\<lambda>c.
          let s = (if c = CHR ''*'' then ret_Name r @ '' = ('' @ ret_Type r @ '')(unsafe.Pointer(r0))''
                   else if ret_Type r = tBool then ret_Name r @ '' = r0 != 0''
                   else ret_Name r @ '' = '' @ ret_Type r @ ''(r0)'')
          in Ok (if \<not> ReturnsError r then s else s @ [nl, tb] @ useLongHandleErrorCode r (ret_Name r))))"

section \<open>Parameters\<close>

definition assign :: "nat \<Rightarrow> Fn \<Rightarrow> Fn" where
  "assign i f =
     (if tmpVarIdx (param i f) < 0
      then f\<lparr>Params := (Params f)[i := (param i f)\<lparr>tmpVarIdx := curTmpVarIdx f\<rparr>], curTmpVarIdx := curTmpVarIdx f + 1\<rparr>
      else f)"

definition tmp_name :: "nat \<Rightarrow> Fn \<Rightarrow> string" where
  "tmp_name i f = ''_p'' @ itoa (nat (tmpVarIdx (param i f)))"

definition tmpVar :: "nat \<Rightarrow> string gen" where
  "tmpVar i f = (let f = assign i f in Ok (tmp_name i f, f))"

definition pname :: "nat \<Rightarrow> string gen" where
  "pname i = gget (\<lambda>f. prm_Name (param i f))"

definition HelperType :: "genv \<Rightarrow> Param \<Rightarrow> Fn \<Rightarrow> string" where
  "HelperType e p f = (if prm_Type p = tString then StrconvType e f else prm_Type p)"

text \<open>The text of a boolean temporary, of the value \<open>x\<close>.\<close>

definition bool_code :: "string \<Rightarrow> string \<Rightarrow> string" where
  "bool_code v x = ''var '' @ v @ '' uint32'' @ [nl, tb] @ ''if '' @ x @ '' {'' @ [nl, tb, tb] @ v @ '' = 1'' @ [nl, tb] @ ''}''"

definition BoolTmpVarCode :: "nat \<Rightarrow> string gen" where
  "BoolTmpVarCode i = gbind (tmpVar i) (\<lambda>v. gmap (bool_code v) (pname i))"

definition BoolPointerTmpVarCode :: "nat \<Rightarrow> string gen" where
  "BoolPointerTmpVarCode i = gbind (tmpVar i) (\<lambda>v. gmap (\<lambda>n. bool_code v (''*'' @ n)) (pname i))"

definition slice_code :: "string \<Rightarrow> string \<Rightarrow> string \<Rightarrow> string" where
  "slice_code v t n =
     ''var '' @ v @ '' *'' @ drop 2 t @ [nl, tb] @ ''if len('' @ n @ '') > 0 {'' @ [nl, tb, tb] @ v @ '' = &'' @ n @ ''[0]'' @ [nl, tb] @ ''}''"

definition SliceTmpVarCode :: "nat \<Rightarrow> string gen" where
  "SliceTmpVarCode i =
     gbind (tmpVar i) (\<lambda>v. gget (\<lambda>f. slice_code v (prm_Type (param i f)) (prm_Name (param i f))))"

definition errvar_or_blank :: "Fn \<Rightarrow> string" where
  "errvar_or_blank f = (if ErrorVarName (fn_Rets f) = [] then ''_'' else ErrorVarName (fn_Rets f))"

definition string_code :: "string \<Rightarrow> string \<Rightarrow> string \<Rightarrow> string \<Rightarrow> string \<Rightarrow> string" where
  "string_code tmp errvar typ conv name =
     (let s = ''var '' @ tmp @ '' '' @ typ @ [nl, tb] @ tmp @ '', '' @ errvar @ '' = '' @ conv @ ''('' @ name @ '')''
      in if errvar = ''-'' then s
         else s @ [nl, tb] @ ''if '' @ errvar @ '' != nil {'' @ [nl, tb, tb] @ ''return'' @ [nl, tb] @ ''}'')"

definition StringTmpVarCode :: "genv \<Rightarrow> nat \<Rightarrow> string gen" where
  "StringTmpVarCode e i =
     gbind (tmpVar i) (\<lambda>tmp. gget (\<lambda>f.
       string_code tmp (errvar_or_blank f) (StrconvType e f) (StrconvFunc e f) (prm_Name (param i f))))"

definition TmpVarCode :: "nat \<Rightarrow> string gen" where
  "TmpVarCode i =
     gbind (gget (\<lambda>f. prm_Type (param i f))) (\<lambda>t.
       if t = tBool then BoolTmpVarCode i
       else if t = tBoolPtr then BoolPointerTmpVarCode i
       else if has_prefix t ''[]'' then SliceTmpVarCode i
       else lit [])"

definition TmpVarReadbackCode :: "nat \<Rightarrow> string gen" where
  "TmpVarReadbackCode i =
     gbind (gget (\<lambda>f. prm_Type (param i f))) (\<lambda>t.
       if t = tBoolPtr then gconcat [lit ''*'', pname i, lit '' = '', tmpVar i, lit '' != 0''] else lit [])"

definition TmpVarHelperCode :: "genv \<Rightarrow> nat \<Rightarrow> string gen" where
  "TmpVarHelperCode e i =
     gbind (gget (\<lambda>f. prm_Type (param i f))) (\<lambda>t. if t \<noteq> tString then lit [] else StringTmpVarCode e i)"

text \<open>A slice becomes two arguments, everything else one.\<close>

definition one_arg :: "string \<Rightarrow> string list" where
  "one_arg s = [''uintptr('' @ s @ '')'']"

definition slice_args :: "string \<Rightarrow> string \<Rightarrow> string list" where
  "slice_args v n = [''uintptr(unsafe.Pointer('' @ v @ ''))'', ''uintptr(len('' @ n @ ''))'']"

definition arg_code :: "nat \<Rightarrow> string \<Rightarrow> string list gen" where
  "arg_code i t =
     (if t = tBoolPtr then gmap (\<lambda>v. one_arg (''unsafe.Pointer(&'' @ v @ '')'')) (tmpVar i)
      else (\<lambda>f. bind_res (index t 0) (\<lambda>c.
        (if c = CHR ''*'' then gmap (\<lambda>n. one_arg (''unsafe.Pointer('' @ n @ '')'')) (pname i)
         else if t = tBool then gmap one_arg (tmpVar i)
         else if has_prefix t ''[]'' then gbind (tmpVar i) (\<lambda>v. gmap (slice_args v) (pname i))
         else gmap one_arg (pname i)) f)))"

definition SyscallArgList :: "genv \<Rightarrow> nat \<Rightarrow> string list gen" where
  "SyscallArgList e i = gbind (gget (\<lambda>f. HelperType e (param i f) f)) (arg_code i)"

section \<open>The function\<close>

definition HelperParamList :: "genv \<Rightarrow> Fn \<Rightarrow> string" where
  "HelperParamList e f = join_params (Params f) (\<lambda>p. prm_Name p @ '' '' @ HelperType e p f) '', ''"

definition ParamPrintList :: "Fn \<Rightarrow> string" where
  "ParamPrintList f = join_params (Params f) print_item print_sep"

definition ParamCount :: "genv \<Rightarrow> nat gen" where
  "ParamCount e = gmap (\<lambda>as. sum_list (map length as)) (each_param (SyscallArgList e))"

definition syscall_size :: "nat \<Rightarrow> nat res" where
  "syscall_size n =
     (if n \<le> 3 then Ok 3 else if n \<le> 6 then Ok 6 else if n \<le> 9 then Ok 9 else if n \<le> 12 then Ok 12
      else if n \<le> 15 then Ok 15 else Panic ''too many arguments to system call'')"

definition SyscallParamCount :: "genv \<Rightarrow> nat gen" where
  "SyscallParamCount e = gbind (ParamCount e) (\<lambda>n f. bind_res (syscall_size n) (\<lambda>c. Ok (c, f)))"

definition Syscall :: "genv \<Rightarrow> string gen" where
  "Syscall e = gmap (\<lambda>c. syscalldot e @ ''Syscall'' @ (if c = 3 then [] else itoa c)) (SyscallParamCount e)"

definition SyscallParamList :: "genv \<Rightarrow> string gen" where
  "SyscallParamList e =
     gbind (each_param (SyscallArgList e)) (\<lambda>as.
       gmap (\<lambda>c. join_text '', '' (concat as @ replicate (c - length (concat as)) ''0'')) (SyscallParamCount e))"

definition HelperCallParamList :: "string gen" where
  "HelperCallParamList =
     gmap (join_text '', '') (each_param (\<lambda>i.
       gbind (gget (\<lambda>f. prm_Type (param i f))) (\<lambda>t. if t = tString then tmpVar i else pname i)))"

definition MaybeAbsent :: "Fn \<Rightarrow> string" where
  "MaybeAbsent f =
     (if \<not> fnMaybeAbsent (fn_Rets f) then []
      else
        (let v = (if ErrorVarName (fn_Rets f) = [] then varErr else ErrorVarName (fn_Rets f)) in
         v @ '' = proc'' @ DLLFuncName f @ ''.Find()'' @ [nl, tb] @ ''if '' @ v @ '' != nil {'' @ [nl, tb, tb] @ ''return'' @ [nl, tb] @ ''}''))"

section \<open>Templates\<close>

definition tmpl_results :: "string gen" where
  "tmpl_results = if_text (gget (\<lambda>f. Rets_List (fn_Rets f))) [] '' ''"

definition tmpl_helpertmpvars :: "genv \<Rightarrow> string gen" where
  "tmpl_helpertmpvars e = gmap concat (each_param (\<lambda>i. if_text (TmpVarHelperCode e i) [tb] [nl]))"

definition tmpl_tmpvars :: "string gen" where
  "tmpl_tmpvars = gmap concat (each_param (\<lambda>i. if_text (TmpVarCode i) [tb] [nl]))"

definition tmpl_tmpvarsreadback :: "string gen" where
  "tmpl_tmpvarsreadback = gmap concat (each_param (\<lambda>i. if_text (TmpVarReadbackCode i) [nl] []))"

definition tmpl_maybeabsent :: "string gen" where
  "tmpl_maybeabsent = if_text (gget MaybeAbsent) [] [nl]"

definition tmpl_syscall :: "genv \<Rightarrow> string gen" where
  "tmpl_syscall e = gconcat
     [gget (\<lambda>f. SetReturnValuesCode (fn_Rets f)), Syscall e, lit ''(proc'', gget DLLFuncName, lit ''.Addr(), '',
      gmap itoa (ParamCount e), lit '', '', SyscallParamList e, lit '')'']"

definition tmpl_seterror :: "genv \<Rightarrow> string gen" where
  "tmpl_seterror e = if_text (\<lambda>f. bind_res (SetErrorCode e (fn_Rets f)) (\<lambda>s. Ok (s, f))) [tb] [nl]"

definition tmpl_printtrace :: "string gen" where
  "tmpl_printtrace =
     gbind (gget PrintTrace) (\<lambda>t. if \<not> t then lit [] else gconcat
       [lit (tb # ''print('' @ qt # ''SYSCALL: ''), gget fn_Name, lit (''('' @ qt # '', ''), gget ParamPrintList,
        lit (qt # '') ('' @ qt # '', ''), gget (\<lambda>f. Rets_PrintList (fn_Rets f)), lit (qt # '')'' @ [CHR 0x5C] @ ''n'' @ qt # '')'' @ [nl])])"

definition tmpl_helperbody :: "genv \<Rightarrow> string gen" where
  "tmpl_helperbody e = gconcat
     [lit (nl # ''func ''), gget fn_Name, lit ''('', gget ParamList, lit '') '', tmpl_results, lit (''{'' @ [nl]),
      tmpl_helpertmpvars e, lit (tb # ''return ''), gget HelperName, lit ''('', HelperCallParamList, lit ('')'' @ [nl] @ ''}'' @ [nl])]"

definition tmpl_funcbody :: "genv \<Rightarrow> string gen" where
  "tmpl_funcbody e = gconcat
     [lit (nl # ''func ''), gget HelperName, lit ''('', gget (HelperParamList e), lit '') '', tmpl_results, lit (''{'' @ [nl]),
      tmpl_maybeabsent, lit [tb], tmpl_tmpvars, lit [tb], tmpl_syscall e, lit [tb], tmpl_tmpvarsreadback, lit [nl],
      tmpl_seterror e, tmpl_printtrace, lit (tb # ''return'' @ [nl] @ ''}'' @ [nl])]"

definition tmpl_func :: "genv \<Rightarrow> string gen" where
  "tmpl_func e =
     gbind (gget HasStringParam) (\<lambda>s. if s then gconcat [tmpl_helperbody e, tmpl_funcbody e] else tmpl_funcbody e)"

end
