(* ===== verification/Mk_Render.thy ===== *)
theory Mk_Render
  imports Mk_Code
begin

text \<open>
  Correctness of the code that \<^verbatim>\<open>tools/mkwinsyscall\<close> generates for one function. \<open>renders\<close>
  says which parameters a computation numbers and that its result stays the same in every later
  state; it is proved for every method and every template, bottom up.
\<close>

section \<open>Numbering\<close>

text \<open>What never changes of a function, and the numbers that a later state keeps.\<close>

definition shape :: "Fn \<Rightarrow> Fn" where
  "shape f = f\<lparr>Params := map (\<lambda>p. p\<lparr>tmpVarIdx := -1\<rparr>) (Params f), curTmpVarIdx := 0\<rparr>"

definition assigned :: "nat set \<Rightarrow> Fn \<Rightarrow> bool" where
  "assigned A f \<longleftrightarrow> (\<forall>i\<in>A. 0 \<le> tmpVarIdx (param i f))"

definition extends :: "Fn \<Rightarrow> Fn \<Rightarrow> bool" where
  "extends f g \<longleftrightarrow> shape f = shape g \<and>
     (\<forall>i < length (Params f). 0 \<le> tmpVarIdx (param i f) \<longrightarrow> tmpVarIdx (param i g) = tmpVarIdx (param i f))"

abbreviation assigns :: "nat list \<Rightarrow> Fn \<Rightarrow> Fn" where
  "assigns L f \<equiv> fold assign L f"

definition indices :: "Fn \<Rightarrow> nat set" where
  "indices f = {..<length (Params f)}"

lemma shape_same:
  "fn_Name (shape f) = fn_Name f" "fn_Rets (shape f) = fn_Rets f" "PrintTrace (shape f) = PrintTrace f"
  "dllname (shape f) = dllname f" "dllfuncname (shape f) = dllfuncname f" "length (Params (shape f)) = length (Params f)"
  "Params (shape f) = map (\<lambda>p. p\<lparr>tmpVarIdx := -1\<rparr>) (Params f)"
  by (simp_all add: shape_def)

lemma shape_param:
  "i < length (Params f) \<Longrightarrow> prm_Name (param i (shape f)) = prm_Name (param i f)"
  "i < length (Params f) \<Longrightarrow> prm_Type (param i (shape f)) = prm_Type (param i f)"
  by (simp_all add: shape_def param_def)

lemma shape_indices: "shape f = shape g \<Longrightarrow> indices f = indices g"
  using shape_same(6) [of f] shape_same(6) [of g] by (simp add: indices_def)

lemma assign_other: "i < length (Params f) \<Longrightarrow> j \<noteq> i \<Longrightarrow> param j (assign i f) = param j f"
  by (simp add: assign_def param_def)

lemma assign_length [simp]: "length (Params (assign i f)) = length (Params f)"
  by (simp add: assign_def)

lemma assign_done: "0 \<le> tmpVarIdx (param i f) \<Longrightarrow> assign i f = f"
  by (simp add: assign_def)

lemma assign_idx:
  "i < length (Params f) \<Longrightarrow> tmpVarIdx (param i (assign i f)) =
     (if tmpVarIdx (param i f) < 0 then curTmpVarIdx f else tmpVarIdx (param i f))"
  by (simp add: assign_def param_def)

lemma shape_assign: "i < length (Params f) \<Longrightarrow> shape (assign i f) = shape f"
proof -
  assume i: "i < length (Params f)"
  have "(map (\<lambda>p. p\<lparr>tmpVarIdx := -1\<rparr>) (Params f))[i := (Params f ! i)\<lparr>tmpVarIdx := -1\<rparr>] =
      map (\<lambda>p. p\<lparr>tmpVarIdx := -1\<rparr>) (Params f)"
    using i by (metis list_update_id nth_map)
  then show ?thesis by (simp add: shape_def assign_def param_def map_update)
qed

lemma extends_refl [simp]: "extends f f"
  by (simp add: extends_def)

lemma extends_trans: "extends f g \<Longrightarrow> extends g h \<Longrightarrow> extends f h"
proof -
  assume a: "extends f g" "extends g h"
  have "length (Params g) = length (Params f)" using a(1) shape_same(6) [of f] shape_same(6) [of g] by (simp add: extends_def)
  then show ?thesis using a by (auto simp: extends_def)
qed

lemma extends_assign: "i < length (Params f) \<Longrightarrow> extends f (assign i f)"
  unfolding extends_def using assign_other shape_assign assign_idx by (metis linorder_not_le)

lemma extends_assigns: "set L \<subseteq> indices f \<Longrightarrow> extends f (assigns L f)"
proof (induction L arbitrary: f)
  case (Cons i L)
  have i: "i < length (Params f)" using Cons.prems by (simp add: indices_def)
  then have "extends (assign i f) (assigns L (assign i f))"
    using Cons.prems by (intro Cons.IH) (simp add: indices_def)
  then show ?case using extends_trans [OF extends_assign [OF i]] by simp
qed simp

lemma extends_assigned: "extends f g \<Longrightarrow> A \<subseteq> indices f \<Longrightarrow> assigned A f \<Longrightarrow> assigned A g"
  unfolding extends_def assigned_def indices_def by fastforce

lemma extends_shape: "extends f g \<Longrightarrow> shape g = shape f"
  by (simp add: extends_def)

definition counting :: "Fn \<Rightarrow> bool" where
  "counting f \<longleftrightarrow> 0 \<le> curTmpVarIdx f \<and>
     (\<forall>i < length (Params f). tmpVarIdx (param i f) < curTmpVarIdx f) \<and>
     (\<forall>i < length (Params f). \<forall>j < length (Params f).
        0 \<le> tmpVarIdx (param i f) \<longrightarrow> tmpVarIdx (param i f) = tmpVarIdx (param j f) \<longrightarrow> i = j)"

lemma counting_assign:
  assumes "counting f" and "i < length (Params f)"
  shows "counting (assign i f)"
proof (cases "tmpVarIdx (param i f) < 0")
  case True
  have c: "curTmpVarIdx (assign i f) = curTmpVarIdx f + 1" using True by (simp add: assign_def)
  have x: "tmpVarIdx (param j (assign i f)) = (if j = i then curTmpVarIdx f else tmpVarIdx (param j f))" for j
    using True assms(2) assign_other assign_idx by auto
  have lt: "tmpVarIdx (param j f) < curTmpVarIdx f" if "j < length (Params f)" for j
    using assms(1) that by (simp add: counting_def)
  show ?thesis unfolding counting_def c x assign_length
  proof (intro conjI allI impI)
    show "0 \<le> curTmpVarIdx f + 1" using assms(1) by (simp add: counting_def)
    show "(if j = i then curTmpVarIdx f else tmpVarIdx (param j f)) < curTmpVarIdx f + 1" if "j < length (Params f)" for j
      using lt [OF that] by simp
    show "j = k" if "j < length (Params f)" "k < length (Params f)"
      "0 \<le> (if j = i then curTmpVarIdx f else tmpVarIdx (param j f))"
      "(if j = i then curTmpVarIdx f else tmpVarIdx (param j f)) = (if k = i then curTmpVarIdx f else tmpVarIdx (param k f))" for j k
      using lt [OF that(1)] lt [OF that(2)] that assms(1) by (auto simp: counting_def split: if_splits)
  qed
next
  case False
  then show ?thesis using assms(1) by (simp add: assign_done)
qed

lemma counting_assigns: "counting f \<Longrightarrow> set L \<subseteq> indices f \<Longrightarrow> counting (assigns L f)"
proof (induction L arbitrary: f)
  case (Cons i L)
  then show ?case using counting_assign by (simp add: indices_def)
qed simp

lemma assigned_assigns: "0 \<le> curTmpVarIdx f \<Longrightarrow> set L \<subseteq> indices f \<Longrightarrow> assigned (set L) (assigns L f)"
proof (induction L arbitrary: f)
  case (Cons i L)
  have i: "i < length (Params f)" and s: "set L \<subseteq> indices (assign i f)" using Cons.prems by (auto simp: indices_def)
  have c: "0 \<le> curTmpVarIdx (assign i f)" using Cons.prems(1) by (simp add: assign_def)
  have "0 \<le> tmpVarIdx (param i (assign i f))" using assign_idx [OF i] Cons.prems(1) by simp
  then have "assigned {i} (assign i f)" by (simp add: assigned_def)
  then have "assigned {i} (assigns L (assign i f))"
    using extends_assigned [OF extends_assigns [OF s]] i by (simp add: indices_def)
  then show ?case using Cons.IH [OF c s] by (auto simp: assigned_def)
qed (simp add: assigned_def)

lemma assigns_done: "assigned (set L) f \<Longrightarrow> assigns L f = f"
  by (induction L) (simp_all add: assigned_def assign_done)

lemma assigns_untouched: "set L \<subseteq> indices f \<Longrightarrow> i \<notin> set L \<Longrightarrow> param i (assigns L f) = param i f"
proof (induction L arbitrary: f)
  case (Cons j L)
  then show ?case using assign_other [of j f i] by (simp add: indices_def)
qed simp

section \<open>Rendering\<close>

text \<open>
  A computation renders with the parameters \<open>L\<close>, when those in \<open>A\<close> have their numbers already: it
  numbers exactly \<open>L\<close>, in this order, and gives the same result in every later state, which it leaves
  alone.
\<close>

definition renders :: "Fn \<Rightarrow> nat set \<Rightarrow> nat list \<Rightarrow> ('a \<Rightarrow> bool) \<Rightarrow> 'a gen \<Rightarrow> bool" where
  "renders sh A L P m \<longleftrightarrow> set L \<subseteq> indices sh \<and>
     (\<forall>f g. shape f = sh \<longrightarrow> counting f \<longrightarrow> assigned (A \<inter> indices sh) f \<longrightarrow> extends (assigns L f) g \<longrightarrow>
        (\<exists>x. P x \<and> m f = Ok (x, assigns L f) \<and> m g = Ok (x, g)))"

lemma rendersD:
  assumes "renders sh A L P m" and "shape f = sh" and "counting f" and "assigned (A \<inter> indices sh) f" and "extends (assigns L f) g"
  obtains x where "P x" "m f = Ok (x, assigns L f)" "m g = Ok (x, g)"
  using assms unfolding renders_def by blast

lemma rendersI:
  assumes "set L \<subseteq> indices sh"
    and "\<And>f g. shape f = sh \<Longrightarrow> counting f \<Longrightarrow> assigned (A \<inter> indices sh) f \<Longrightarrow> extends (assigns L f) g \<Longrightarrow>
      \<exists>x. P x \<and> m f = Ok (x, assigns L f) \<and> m g = Ok (x, g)"
  shows "renders sh A L P m"
  unfolding renders_def using assms by blast

lemma renders_set: "renders sh A L P m \<Longrightarrow> set L \<subseteq> indices sh"
  by (simp add: renders_def)

lemma shape_shape [simp]: "shape (shape f) = shape f"
  by (simp add: shape_def)

lemma indices_shape [simp]: "indices (shape f) = indices f"
  by (simp add: indices_def shape_def)

lemma renders_mono:
  assumes "renders sh A L P m" and "A \<subseteq> B" and "\<And>x. P x \<Longrightarrow> Q x"
  shows "renders sh B L Q m"
proof (rule rendersI [OF renders_set [OF assms(1)]])
  fix f g
  assume f: "shape f = sh" "counting f" "assigned (B \<inter> indices sh) f" "extends (assigns L f) g"
  have "assigned (A \<inter> indices sh) f" using f(3) assms(2) by (auto simp: assigned_def)
  from rendersD [OF assms(1) f(1,2) this f(4)] show "\<exists>x. Q x \<and> m f = Ok (x, assigns L f) \<and> m g = Ok (x, g)"
    using assms(3) by blast
qed

lemma renders_gget: "(\<And>f. shape f = sh \<Longrightarrow> h f = y) \<Longrightarrow> P y \<Longrightarrow> renders sh A [] P (gget h)"
  unfolding renders_def gget_def by (auto dest: extends_shape)

lemma renders_lit: "renders sh A [] (\<lambda>_. True) (lit s)"
  unfolding lit_def by (rule renders_gget) simp_all

lemma renders_gbind:
  assumes "renders sh A L P m" and "\<And>x. P x \<Longrightarrow> renders sh (A \<union> set L) L' Q (k x)"
    and "set L' \<subseteq> indices sh"
  shows "renders sh A (L @ L') Q (gbind m k)"
proof -
  have one: "\<exists>y. Q y \<and> gbind m k f = Ok (y, assigns (L @ L') f) \<and> gbind m k g = Ok (y, g)"
    if f: "shape f = sh" "counting f" "assigned (A \<inter> indices sh) f" and g: "extends (assigns (L @ L') f) g" for f g
  proof -
    have ind: "indices f = indices sh" using f(1) by (metis indices_shape)
    have L: "set L \<subseteq> indices f" using assms(1) ind by (simp add: renders_def)
    let ?h = "assigns L f"
    have e: "extends f ?h" by (rule extends_assigns [OF L])
    have h: "shape ?h = sh" "counting ?h" using extends_shape [OF e] f(1) counting_assigns [OF f(2) L] by simp_all
    have "assigned (set L) ?h" using assigned_assigns [OF _ L] f(2) by (simp add: counting_def)
    then have h3: "assigned ((A \<union> set L) \<inter> indices sh) ?h"
      using extends_assigned [OF e _ f(3)] ind by (auto simp: assigned_def)
    have "set L' \<subseteq> indices ?h" using assms(3) h(1) by (metis indices_shape)
    then have e2: "extends ?h g" using extends_trans [OF extends_assigns] g by simp
    obtain x where x: "P x" "m f = Ok (x, ?h)" "m g = Ok (x, g)" by (rule rendersD [OF assms(1) f e2])
    obtain y where "Q y" "k x ?h = Ok (y, assigns L' ?h)" "k x g = Ok (y, g)"
      using rendersD [OF assms(2) [OF x(1)] h h3, of g] g by auto
    then show ?thesis using x by (simp add: gbind_def)
  qed
  show ?thesis using one assms(1,3) unfolding renders_def by auto
qed

lemma renders_again: "renders sh A L P m \<Longrightarrow> set L \<subseteq> A \<Longrightarrow> renders sh A [] P m"
proof -
  assume a: "renders sh A L P m" "set L \<subseteq> A"
  have "assigns L f = f" if "assigned (A \<inter> indices sh) f" for f
    using a that by (intro assigns_done) (auto simp: assigned_def renders_def)
  then show ?thesis using a(1) unfolding renders_def by simp
qed

lemma renders_bind0:
  assumes "renders sh A [] (\<lambda>_. True) m" and "\<And>x. renders sh A [] Q (k x)"
  shows "renders sh A [] Q (gbind m k)"
  using renders_gbind [OF assms(1), of "[]" Q k] assms(2) by simp

lemma renders_get_bind:
  "(\<And>f. shape f = sh \<Longrightarrow> h f = y) \<Longrightarrow> renders sh A L Q (k y) \<Longrightarrow> renders sh A L Q (gbind (gget h) k)"
  using renders_gbind [OF renders_gget [where P = "\<lambda>x. x = y"], of sh h y A L Q k] by (simp add: renders_def)

lemma renders_gmap: "renders sh A L P m \<Longrightarrow> (\<And>x. P x \<Longrightarrow> Q (h x)) \<Longrightarrow> renders sh A L Q (gmap h m)"
  unfolding gmap_def using renders_gbind [of sh A L P m "[]" Q "\<lambda>x. gget (\<lambda>_. h x)"] by (simp add: renders_gget)

lemma renders_Cons:
  assumes "renders sh A L (\<lambda>_. True) m" and "renders sh (A \<union> set L) L' (\<lambda>_. True) (gconcat ms)"
  shows "renders sh A (L @ L') (\<lambda>_. True) (gconcat (m # ms))"
  using assms renders_set [OF assms(2)] by (auto intro!: renders_gbind renders_gmap)

lemma renders_Nil: "renders sh A [] (\<lambda>_. True) (gconcat [])"
  by (simp add: renders_gget)

text \<open>Computations that number nothing more.\<close>

lemma renders_gconcat:
  "(\<And>m. m \<in> set ms \<Longrightarrow> renders sh A [] (\<lambda>_. True) m) \<Longrightarrow> renders sh A [] (\<lambda>_. True) (gconcat ms)"
proof (induction ms)
  case Nil
  then show ?case by (simp add: renders_gget)
next
  case (Cons m ms)
  then show ?case using renders_Cons [of sh A "[]" m "[]" ms] by simp
qed

lemma renders_geach:
  assumes "\<And>i. i \<in> set is \<Longrightarrow> renders sh A (l i) (P i) (m i)"
  shows "renders sh A (concat (map l is)) (list_all2 P is) (geach m is)"
  using assms
proof (induction "is" arbitrary: A)
  case Nil
  then show ?case by (simp add: renders_gget)
next
  case (Cons i js)
  have "renders sh (A \<union> set (l i)) (concat (map l js)) (list_all2 P js) (geach m js)"
    by (intro Cons.IH renders_mono [OF Cons.prems]) auto
  then have "renders sh A (l i @ concat (map l js)) (list_all2 P (i # js)) (geach m (i # js))"
    using Cons.prems [of i] by (auto intro!: renders_gbind [where P = "P i"] renders_gmap dest: renders_set)
  then show ?case by simp
qed

lemma renders_each_param:
  assumes "\<And>i. i < length (Params sh) \<Longrightarrow> renders sh A (l i) (P i) (m i)"
  shows "renders sh A (concat (map l [0..<length (Params sh)])) (list_all2 P [0..<length (Params sh)]) (each_param m)"
proof -
  have e: "each_param m f = geach m [0..<length (Params sh)] f" if "shape f = sh" for f
    using shape_same(6) [of f] that by (simp add: each_param_def)
  have g: "renders sh A (concat (map l [0..<length (Params sh)])) (list_all2 P [0..<length (Params sh)]) (geach m [0..<length (Params sh)])"
    using assms by (intro renders_geach) simp
  show ?thesis
  proof (rule rendersI [OF renders_set [OF g]])
    fix f f'
    let ?L = "concat (map l [0..<length (Params sh)])"
    assume f: "shape f = sh" "counting f" "assigned (A \<inter> indices sh) f" "extends (assigns ?L f) f'"
    have "set ?L \<subseteq> indices f" using renders_set [OF g] f(1) by (metis indices_shape)
    then have "shape f' = sh" using extends_shape [OF extends_trans [OF extends_assigns f(4)]] f(1) by simp
    then show "\<exists>x. list_all2 P [0..<length (Params sh)] x \<and> each_param m f = Ok (x, assigns ?L f) \<and> each_param m f' = Ok (x, f')"
      using rendersD [OF g f] e f(1) by metis
  qed
qed

lemma renders_tmpVar: "i < length (Params sh) \<Longrightarrow> renders sh A [i] (\<lambda>_. True) (tmpVar i)"
proof -
  assume i: "i < length (Params sh)"
  have "tmpVar i f = Ok (tmp_name i (assign i f), assign i f) \<and> tmpVar i g = Ok (tmp_name i (assign i f), g)"
    if f: "shape f = sh" "counting f" and g: "extends (assign i f) g" for f g
  proof -
    have l: "i < length (Params f)" using i f(1) shape_same(6) [of f] by simp
    have "0 \<le> tmpVarIdx (param i (assign i f))" using assign_idx [OF l] f(2) by (simp add: counting_def)
    then have "tmpVarIdx (param i g) = tmpVarIdx (param i (assign i f))" "0 \<le> tmpVarIdx (param i g)"
      using g l by (auto simp: extends_def)
    then show ?thesis by (simp add: tmpVar_def assign_done tmp_name_def Let_def)
  qed
  then show ?thesis using i by (auto simp: renders_def indices_def)
qed

lemma renders_if_text: "renders sh A L (\<lambda>_. True) m \<Longrightarrow> renders sh A L (\<lambda>_. True) (if_text m a b)"
proof -
  assume m: "renders sh A L (\<lambda>_. True) m"
  have "renders sh (A \<union> set L) [] (\<lambda>_. True) m"
    by (rule renders_again [OF renders_mono [OF m]]) auto
  then have "renders sh (A \<union> set L) [] (\<lambda>_. True) (if s = [] then lit [] else gconcat [lit a, m, lit b])" for s
    using renders_lit by (auto intro!: renders_gconcat simp del: gconcat.simps)
  then show ?thesis unfolding if_text_def by (rule renders_gbind [OF m, of "[]", simplified])
qed

section \<open>The methods render\<close>

definition uses_tmp :: "string \<Rightarrow> bool" where
  "uses_tmp t \<longleftrightarrow> t = tBool \<or> t = tBoolPtr \<or> has_prefix t ''[]''"

definition string_params :: "Fn \<Rightarrow> nat list" where
  "string_params f = filter (\<lambda>i. prm_Type (param i f) = tString) [0..<length (Params f)]"

definition tmp_params :: "Fn \<Rightarrow> nat list" where
  "tmp_params f = filter (\<lambda>i. uses_tmp (prm_Type (param i f))) [0..<length (Params f)]"

definition arg_count :: "Fn \<Rightarrow> nat" where
  "arg_count f = (\<Sum>p\<leftarrow>Params f. if has_prefix (prm_Type p) ''[]'' then 2 else 1)"

text \<open>The functions whose code can be generated, up to the number of arguments.\<close>

definition typed :: "Fn \<Rightarrow> bool" where
  "typed f \<longleftrightarrow> (\<forall>p\<in>set (Params f). prm_Type p \<noteq> []) \<and> (ret_Name (fn_Rets f) \<noteq> [] \<longrightarrow> ret_Type (fn_Rets f) \<noteq> [])"

lemma concat_filter: "concat (map (\<lambda>i. if c i then [i] else []) xs) = filter c xs"
  by (induction xs) auto

lemma set_params: "set (string_params f) \<subseteq> indices f" "set (tmp_params f) \<subseteq> indices f"
  by (auto simp: string_params_def tmp_params_def indices_def)

lemma shape_type: "shape f = sh \<Longrightarrow> i < length (Params sh) \<Longrightarrow> prm_Type (param i f) = prm_Type (param i sh)"
  using shape_param(2) [of i f] shape_same(6) [of f] by simp

lemma shape_name: "shape f = sh \<Longrightarrow> i < length (Params sh) \<Longrightarrow> prm_Name (param i f) = prm_Name (param i sh)"
  using shape_param(1) [of i f] shape_same(6) [of f] by simp

lemma renders_pname: "i < length (Params sh) \<Longrightarrow> renders sh A [] (\<lambda>_. True) (pname i)"
  unfolding pname_def by (rule renders_gget) (rule shape_name, simp_all)

lemma shape_names:
  "DLLFuncName (shape f) = DLLFuncName f" "StrconvType e (shape f) = StrconvType e f" "StrconvFunc e (shape f) = StrconvFunc e f"
  "HasStringParam (shape f) = HasStringParam f" "HelperName (shape f) = HelperName f" "MaybeAbsent (shape f) = MaybeAbsent f"
  by (simp_all add: DLLFuncName_def StrconvType_def StrconvFunc_def IsUTF16_def HasStringParam_def HelperName_def MaybeAbsent_def shape_same)

lemma join_shape: "(\<And>p. h (p\<lparr>tmpVarIdx := -1\<rparr>) = h p) \<Longrightarrow> join_params (Params (shape f)) h sep = join_params (Params f) h sep"
  by (simp add: join_params_def shape_same comp_def)

lemma shape_lists:
  "ParamList (shape f) = ParamList f" "HelperParamList e (shape f) = HelperParamList e f" "ParamPrintList (shape f) = ParamPrintList f"
  unfolding ParamList_def ParamPrintList_def HelperParamList_def HelperType_def shape_names
  by (intro join_shape; simp add: decl_param_def print_item_def)+

lemma renders_shape: "(\<And>f. h (shape f) = h f) \<Longrightarrow> renders sh A [] (\<lambda>_. True) (gget h)"
  by (rule renders_gget [where y = "h sh"]) auto

lemma renders_tmp_then:
  assumes "i < length (Params sh)" and "\<And>v. renders sh (A \<union> {i}) [] P (k v)"
  shows "renders sh A [i] P (gbind (tmpVar i) k)"
  using renders_gbind [OF renders_tmpVar [OF assms(1)], of A "[]" P k] assms(2) by simp

lemma renders_TmpVarCode:
  assumes i: "i < length (Params sh)"
  shows "renders sh A (if uses_tmp (prm_Type (param i sh)) then [i] else []) (\<lambda>_. True) (TmpVarCode i)"
proof -
  note n = renders_gmap [OF renders_pname [OF i], where Q = "\<lambda>_. True"]
  have "renders sh A [i] (\<lambda>_. True) (BoolTmpVarCode i)" "renders sh A [i] (\<lambda>_. True) (BoolPointerTmpVarCode i)"
    unfolding BoolTmpVarCode_def BoolPointerTmpVarCode_def by (intro renders_tmp_then [OF i] n TrueI)+
  moreover have "renders sh A [i] (\<lambda>_. True) (SliceTmpVarCode i)"
    unfolding SliceTmpVarCode_def
    by (intro renders_tmp_then [OF i] renders_gget) (auto simp: shape_type [OF _ i] shape_name [OF _ i])
  ultimately show ?thesis
    unfolding TmpVarCode_def
    by (intro renders_get_bind [where y = "prm_Type (param i sh)"]) (auto simp: uses_tmp_def shape_type [OF _ i] renders_lit)
qed

lemma renders_StringTmpVarCode:
  assumes i: "i < length (Params sh)"
  shows "renders sh A [i] (\<lambda>_. True) (StringTmpVarCode e i)"
  unfolding StringTmpVarCode_def
proof (rule renders_tmp_then [OF i])
  show "renders sh (A \<union> {i}) [] (\<lambda>_. True) (gget (\<lambda>f.
      string_code v (errvar_or_blank f) (StrconvType e f) (StrconvFunc e f) (prm_Name (param i f))))" for v
  proof (rule renders_gget)
    fix f
    assume f: "shape f = sh"
    have "errvar_or_blank sh = errvar_or_blank f" "StrconvType e sh = StrconvType e f" "StrconvFunc e sh = StrconvFunc e f"
      unfolding f [symmetric] by (simp_all add: errvar_or_blank_def shape_names shape_same)
    then show "string_code v (errvar_or_blank f) (StrconvType e f) (StrconvFunc e f) (prm_Name (param i f)) =
        string_code v (errvar_or_blank sh) (StrconvType e sh) (StrconvFunc e sh) (prm_Name (param i sh))"
      by (simp only: shape_name [OF f i])
  qed simp
qed

lemma renders_TmpVarHelperCode:
  assumes i: "i < length (Params sh)"
  shows "renders sh A (if prm_Type (param i sh) = tString then [i] else []) (\<lambda>_. True) (TmpVarHelperCode e i)"
  unfolding TmpVarHelperCode_def
  by (intro renders_get_bind [where y = "prm_Type (param i sh)"]) (auto simp: shape_type [OF _ i] renders_lit renders_StringTmpVarCode [OF i])

lemma renders_tmp_known: "i < length (Params sh) \<Longrightarrow> i \<in> A \<Longrightarrow> renders sh A [] (\<lambda>_. True) (tmpVar i)"
  by (rule renders_again [OF renders_tmpVar]) simp_all

lemma renders_TmpVarReadbackCode:
  assumes i: "i < length (Params sh)" and t: "set (tmp_params sh) \<subseteq> A"
  shows "renders sh A [] (\<lambda>_. True) (TmpVarReadbackCode i)"
proof -
  have "i \<in> A" if "prm_Type (param i sh) = tBoolPtr" using t i that by (auto simp: tmp_params_def uses_tmp_def)
  then have "renders sh A [] (\<lambda>_. True) (gconcat [lit ''*'', pname i, lit '' = '', tmpVar i, lit '' != 0''])"
    if "prm_Type (param i sh) = tBoolPtr"
    using that renders_lit renders_pname [OF i] renders_tmp_known [OF i]
    by (intro renders_gconcat) auto
  then show ?thesis unfolding TmpVarReadbackCode_def
    by (intro renders_get_bind [where y = "prm_Type (param i sh)"])
      (auto simp: shape_type [OF _ i] renders_lit simp del: gconcat.simps)
qed

lemma renders_SyscallArgList:
  assumes i: "i < length (Params sh)" and t: "set (tmp_params sh) \<subseteq> A" and ty: "prm_Type (param i sh) \<noteq> []"
  shows "renders sh A [] (\<lambda>x. length x = (if has_prefix (prm_Type (param i sh)) ''[]'' then 2 else 1)) (SyscallArgList e i)"
proof -
  define y where "y = HelperType e (param i sh) sh"
  have y: "HelperType e (param i f) f = y" if "shape f = sh" for f
    using shape_type [OF that i] that by (auto simp: HelperType_def shape_names y_def)
  have A: "i \<in> A" if "uses_tmp y"
  proof -
    have "\<not> uses_tmp (StrconvType e sh)" by (simp add: uses_tmp_def StrconvType_def tBool_def tBoolPtr_def has_prefix_def)
    then show ?thesis using that t i by (auto simp: y_def HelperType_def tmp_params_def split: if_splits)
  qed
  have p: "has_prefix (prm_Type (param i sh)) ''[]'' \<longleftrightarrow> has_prefix y ''[]''" and ne: "y \<noteq> []"
    using ty by (auto simp: y_def HelperType_def StrconvType_def has_prefix_def tString_def)
  have n: "renders sh A [] (\<lambda>x. length x = k) (gmap h (pname i))" if "\<And>s. length (h s) = k" for h :: "string \<Rightarrow> string list" and k
    by (rule renders_gmap [OF renders_pname [OF i]]) (rule that)
  have tv: "renders sh A [] (\<lambda>_. True) (tmpVar i)" if "uses_tmp y" by (rule renders_tmp_known [OF i A [OF that]])
  have v: "renders sh A [] (\<lambda>x. length x = 1) (gmap h (tmpVar i))" if "uses_tmp y" "\<And>s. length (h s) = 1" for h :: "string \<Rightarrow> string list"
    by (rule renders_gmap [OF tv [OF that(1)]]) (rule that(2))
  have two: "renders sh A [] (\<lambda>x. length x = 2) (gbind (tmpVar i) (\<lambda>v. gmap (slice_args v) (pname i)))" if "uses_tmp y"
    by (rule renders_bind0 [OF tv [OF that] n]) (simp add: slice_args_def)
  have l: "length (one_arg s) = 1" for s by (simp add: one_arg_def)
  obtain c z where cz: "y = c # z" using ne by (cases y) auto
  have ix: "index y 0 = Ok c" by (simp add: cz index_def)
  have st: "\<not> has_prefix y ''[]''" if "y = tBoolPtr \<or> c = CHR ''*'' \<or> y = tBool"
    using that by (auto simp: cz has_prefix_def tBoolPtr_def tBool_def)
  have "renders sh A [] (\<lambda>x. length x = (if has_prefix y ''[]'' then 2 else 1)) (arg_code i y)"
    unfolding ix bind_res_simps arg_code_def using st v n two l
    by (cases "y = tBoolPtr"; cases "c = CHR ''*''"; cases "y = tBool"; cases "has_prefix y ''[]''") (simp_all add: uses_tmp_def)
  then show ?thesis unfolding SyscallArgList_def p by (intro renders_get_bind [OF y])
qed

lemma sum_list_all2: "list_all2 (\<lambda>i x. h x = k i) is xs \<Longrightarrow> sum_list (map h xs) = sum_list (map k is)"
  by (induction rule: list_all2_induct) auto

lemma renders_no_list: "renders sh A (concat (map (\<lambda>_. []) xs)) P m \<Longrightarrow> renders sh A [] P m"
  by (simp add: concat_eq_Nil_conv [THEN iffD2])

lemma renders_args:
  assumes "typed sh" and "set (tmp_params sh) \<subseteq> A"
  shows "renders sh A [] (\<lambda>as. sum_list (map length as) = arg_count sh) (each_param (SyscallArgList e))"
proof -
  let ?P = "\<lambda>i x. length x = (if has_prefix (prm_Type (param i sh)) ''[]'' then 2 else (1 :: nat))"
  have r: "renders sh A [] (list_all2 ?P [0..<length (Params sh)]) (each_param (SyscallArgList e))"
    using assms by (intro renders_no_list [OF renders_each_param] renders_SyscallArgList) (auto simp: typed_def param_def)
  have "(\<Sum>i\<leftarrow>[0..<length (Params sh)]. if has_prefix (prm_Type (param i sh)) ''[]'' then 2 else 1) = arg_count sh"
    unfolding arg_count_def param_def by (metis (no_types, lifting) map_map comp_def map_cong map_nth)
  then have "sum_list (map length as) = arg_count sh" if "list_all2 ?P [0..<length (Params sh)] as" for as :: "string list list"
    using sum_list_all2 [OF that] by (rule trans [rotated])
  then show ?thesis by (intro renders_mono [OF r]) simp_all
qed

lemma renders_ParamCount:
  assumes "typed sh" and "set (tmp_params sh) \<subseteq> A"
  shows "renders sh A [] (\<lambda>n. n = arg_count sh) (ParamCount e)"
  unfolding ParamCount_def by (rule renders_gmap [OF renders_args [OF assms]])

lemma renders_bind_eq:
  assumes "renders sh A [] (\<lambda>x. x = y) m" and "renders sh A [] Q (k y)"
  shows "renders sh A [] Q (gbind m k)"
  using renders_gbind [OF assms(1), of "[]" Q k] assms(2) by simp

lemma syscall_size_Ok:
  "n \<le> 15 \<Longrightarrow> \<exists>c. syscall_size n = Ok c \<and> n \<le> c \<and> c \<in> {3, 6, 9, 12, 15} \<and> (c = 3 \<or> c < n + 3)"
  by (auto simp: syscall_size_def)

lemma renders_SyscallParamCount:
  assumes "typed sh" and "set (tmp_params sh) \<subseteq> A" and "syscall_size (arg_count sh) = Ok c"
  shows "renders sh A [] (\<lambda>n. n = c) (SyscallParamCount e)"
  unfolding SyscallParamCount_def
proof (rule renders_bind_eq [OF renders_ParamCount [OF assms(1,2)]])
  show "renders sh A [] (\<lambda>n. n = c) (\<lambda>f. bind_res (syscall_size (arg_count sh)) (\<lambda>c. Ok (c, f)))"
    using renders_gget [of sh "\<lambda>_. c" c "\<lambda>n. n = c" A] by (simp add: assms(3) gget_def [abs_def])
qed

lemma renders_any: "renders sh A L P m \<Longrightarrow> renders sh A L (\<lambda>_. True) m"
  by (erule renders_mono) simp_all

lemma renders_tmpl_syscall:
  assumes "typed sh" and "set (tmp_params sh) \<subseteq> A" and "arg_count sh \<le> 15"
  shows "renders sh A [] (\<lambda>_. True) (tmpl_syscall e)"
proof -
  obtain c where c: "syscall_size (arg_count sh) = Ok c" using syscall_size_Ok [OF assms(3)] by blast
  note r = renders_any [OF renders_gmap [where Q = "\<lambda>_. True"]]
  have 1: "renders sh A [] (\<lambda>_. True) (Syscall e)"
    unfolding Syscall_def by (rule r [OF renders_SyscallParamCount [OF assms(1,2) c]]) simp
  have 2: "renders sh A [] (\<lambda>_. True) (gmap itoa (ParamCount e))" by (rule r [OF renders_ParamCount [OF assms(1,2)]]) simp
  have 3: "renders sh A [] (\<lambda>_. True) (SyscallParamList e)"
    unfolding SyscallParamList_def
    by (intro renders_bind0 [OF renders_any [OF renders_args [OF assms(1,2)]]] r [OF renders_SyscallParamCount [OF assms(1,2) c]]) simp
  have 4: "renders sh A [] (\<lambda>_. True) (gget (\<lambda>f. SetReturnValuesCode (fn_Rets f)))" "renders sh A [] (\<lambda>_. True) (gget DLLFuncName)"
    by (intro renders_shape; simp add: shape_same shape_names)+
  show ?thesis unfolding tmpl_syscall_def using 1 2 3 4 renders_lit by (intro renders_gconcat) auto
qed

lemma renders_tmpl_seterror: "typed sh \<Longrightarrow> renders sh A [] (\<lambda>_. True) (tmpl_seterror e)"
  unfolding tmpl_seterror_def
proof (rule renders_if_text)
  assume t: "typed sh"
  have "\<exists>s. SetErrorCode e (fn_Rets sh) = Ok s"
    using t by (auto simp: SetErrorCode_def typed_def index_def Let_def)
  then obtain s where s: "SetErrorCode e (fn_Rets sh) = Ok s" ..
  have "SetErrorCode e (fn_Rets f) = Ok s" if "shape f = sh" for f using s that by (auto simp: shape_same)
  then show "renders sh A [] (\<lambda>_. True) (\<lambda>f. bind_res (SetErrorCode e (fn_Rets f)) (\<lambda>s. Ok (s, f)))"
    by (intro rendersI) (auto dest: extends_shape)
qed

lemma renders_tmpl_printtrace: "renders sh A [] (\<lambda>_. True) tmpl_printtrace"
proof -
  have r: "renders sh A [] (\<lambda>_. True) (gget fn_Name)" "renders sh A [] (\<lambda>_. True) (gget ParamPrintList)"
    "renders sh A [] (\<lambda>_. True) (gget (\<lambda>f. Rets_PrintList (fn_Rets f)))" "renders sh A [] (\<lambda>_. True) (gget PrintTrace)"
    by (intro renders_shape; simp add: shape_same shape_lists)+
  have "renders sh A [] (\<lambda>_. True) (if \<not> t then lit [] else gconcat
       [lit (tb # ''print('' @ qt # ''SYSCALL: ''), gget fn_Name, lit (''('' @ qt # '', ''), gget ParamPrintList,
        lit (qt # '') ('' @ qt # '', ''), gget (\<lambda>f. Rets_PrintList (fn_Rets f)), lit (qt # '')'' @ [CHR 0x5C] @ ''n'' @ qt # '')'' @ [nl])])" for t
    using r renders_lit by (cases t) (auto intro!: renders_gconcat simp del: gconcat.simps)
  then show ?thesis unfolding tmpl_printtrace_def by (intro renders_bind0 [OF r(4)])
qed

lemma renders_gconcat_mid:
  assumes "\<And>x. x \<in> set ms \<Longrightarrow> renders sh A [] (\<lambda>_. True) x" and "renders sh A L (\<lambda>_. True) m"
    and "\<And>x. x \<in> set ms' \<Longrightarrow> renders sh (A \<union> set L) [] (\<lambda>_. True) x"
  shows "renders sh A L (\<lambda>_. True) (gconcat (ms @ m # ms'))"
  using assms(1)
proof (induction ms)
  case Nil
  then show ?case using renders_Cons [OF assms(2), of "[]" ms'] renders_gconcat [OF assms(3)] by simp
next
  case (Cons x ms)
  then show ?case using renders_Cons [of sh A "[]" x L "ms @ m # ms'"] by simp
qed

lemma renders_each_text:
  assumes "\<And>i. i < length (Params sh) \<Longrightarrow> renders sh A (if c i then [i] else []) (\<lambda>_. True) (m i)"
  shows "renders sh A (filter c [0..<length (Params sh)]) (\<lambda>_. True) (gmap concat (each_param (\<lambda>i. if_text (m i) a b)))"
proof -
  have "renders sh A (concat (map (\<lambda>i. if c i then [i] else []) [0..<length (Params sh)]))
      (list_all2 (\<lambda>_ _. True) [0..<length (Params sh)]) (each_param (\<lambda>i. if_text (m i) a b))"
    by (rule renders_each_param) (rule renders_if_text [OF assms])
  then show ?thesis unfolding concat_filter by (rule renders_gmap) simp
qed

lemma renders_tmpl_results: "renders sh A [] (\<lambda>_. True) tmpl_results"
  unfolding tmpl_results_def by (intro renders_if_text renders_shape) (simp add: shape_same)

lemma renders_HelperCall:
  assumes "set (string_params sh) \<subseteq> A"
  shows "renders sh A [] (\<lambda>_. True) HelperCallParamList"
proof -
  have "renders sh A [] (\<lambda>_. True) (gbind (gget (\<lambda>f. prm_Type (param i f))) (\<lambda>t. if t = tString then tmpVar i else pname i))"
    if i: "i < length (Params sh)" for i
  proof (rule renders_get_bind [OF shape_type [OF _ i]])
    have "i \<in> A" if "prm_Type (param i sh) = tString" using that assms i by (auto simp: string_params_def)
    then show "renders sh A [] (\<lambda>_. True) (if prm_Type (param i sh) = tString then tmpVar i else pname i)"
      using renders_tmp_known [OF i] renders_pname [OF i] by simp
  qed simp
  then show ?thesis unfolding HelperCallParamList_def
    by (intro renders_gmap [OF renders_no_list [OF renders_each_param]] TrueI)
qed

text \<open>The parts of the bodies before and after the temporary variables.\<close>

definition helper_start :: "string gen list" where
  "helper_start = [lit (nl # ''func ''), gget fn_Name, lit ''('', gget ParamList, lit '') '', tmpl_results, lit (''{'' @ [nl])]"

definition helper_end :: "string gen list" where
  "helper_end = [lit (tb # ''return ''), gget HelperName, lit ''('', HelperCallParamList, lit ('')'' @ [nl] @ ''}'' @ [nl])]"

lemma helperbody_parts: "tmpl_helperbody e = gconcat (helper_start @ tmpl_helpertmpvars e # helper_end)"
  by (simp add: tmpl_helperbody_def helper_start_def helper_end_def del: gconcat.simps)

lemma renders_helperbody: "renders sh A (string_params sh) (\<lambda>_. True) (tmpl_helperbody e)"
  unfolding helperbody_parts
proof (rule renders_gconcat_mid)
  have g: "renders sh B [] (\<lambda>_. True) (gget fn_Name)" "renders sh B [] (\<lambda>_. True) (gget ParamList)"
    "renders sh B [] (\<lambda>_. True) (gget HelperName)" for B
    by (intro renders_shape; simp add: shape_same shape_lists shape_names)+
  show "renders sh A (string_params sh) (\<lambda>_. True) (tmpl_helpertmpvars e)"
    unfolding tmpl_helpertmpvars_def string_params_def by (rule renders_each_text [OF renders_TmpVarHelperCode])
  have h: "renders sh (A \<union> set (string_params sh)) [] (\<lambda>_. True) HelperCallParamList" by (rule renders_HelperCall) simp
  show "renders sh A [] (\<lambda>_. True) m" if "m \<in> set helper_start" for m
    using that g renders_lit renders_tmpl_results by (auto simp: helper_start_def)
  show "renders sh (A \<union> set (string_params sh)) [] (\<lambda>_. True) m" if "m \<in> set helper_end" for m
    using that g h renders_lit by (auto simp: helper_end_def)
qed

lemma renders_readback:
  assumes "set (tmp_params sh) \<subseteq> A"
  shows "renders sh A [] (\<lambda>_. True) tmpl_tmpvarsreadback"
proof -
  have "renders sh A [] (\<lambda>_. True) (if_text (TmpVarReadbackCode i) [nl] [])" if "i < length (Params sh)" for i
    by (rule renders_if_text [OF renders_TmpVarReadbackCode [OF that assms]])
  then show ?thesis unfolding tmpl_tmpvarsreadback_def
    by (intro renders_gmap [OF renders_no_list [OF renders_each_param]] TrueI)
qed

definition body_start :: "genv \<Rightarrow> string gen list" where
  "body_start e =
     [lit (nl # ''func ''), gget HelperName, lit ''('', gget (HelperParamList e), lit '') '', tmpl_results, lit (''{'' @ [nl]),
      tmpl_maybeabsent, lit [tb]]"

lemma renders_body_start: "m \<in> set (body_start e) \<Longrightarrow> renders sh A [] (\<lambda>_. True) m"
proof -
  assume m: "m \<in> set (body_start e)"
  have "renders sh A [] (\<lambda>_. True) (gget HelperName)" "renders sh A [] (\<lambda>_. True) (gget (HelperParamList e))"
    by (intro renders_shape; simp add: shape_lists shape_names)+
  moreover have "renders sh A [] (\<lambda>_. True) tmpl_maybeabsent"
    unfolding tmpl_maybeabsent_def by (intro renders_if_text renders_shape) (simp add: shape_names)
  ultimately show ?thesis using m renders_lit renders_tmpl_results by (auto simp: body_start_def)
qed

lemma renders_tmpvars: "renders sh A (tmp_params sh) (\<lambda>_. True) tmpl_tmpvars"
  unfolding tmpl_tmpvars_def tmp_params_def by (rule renders_each_text [OF renders_TmpVarCode])

definition body_end :: "genv \<Rightarrow> string gen list" where
  "body_end e =
     [lit [tb], tmpl_syscall e, lit [tb], tmpl_tmpvarsreadback, lit [nl],
      tmpl_seterror e, tmpl_printtrace, lit (tb # ''return'' @ [nl] @ ''}'' @ [nl])]"

lemma funcbody_parts: "tmpl_funcbody e = gconcat (body_start e @ tmpl_tmpvars # body_end e)"
  by (simp add: tmpl_funcbody_def body_start_def body_end_def del: gconcat.simps)

lemma renders_funcbody:
  assumes "typed sh" and "arg_count sh \<le> 15"
  shows "renders sh A (tmp_params sh) (\<lambda>_. True) (tmpl_funcbody e)"
  unfolding funcbody_parts
proof (rule renders_gconcat_mid [OF renders_body_start renders_tmpvars])
  have s: "set (tmp_params sh) \<subseteq> A \<union> set (tmp_params sh)" by simp
  show "renders sh (A \<union> set (tmp_params sh)) [] (\<lambda>_. True) m" if "m \<in> set (body_end e)" for m
    using that renders_tmpl_syscall [OF assms(1) s assms(2)] renders_readback [OF s] renders_tmpl_seterror [OF assms(1)]
      renders_tmpl_printtrace renders_lit
    by (auto simp: body_end_def)
qed simp

section \<open>The generated code\<close>

definition winio_env :: genv where
  "winio_env = \<lparr>packageName = ''winio'', utf16 = True\<rparr>"

definition numbered :: "Fn \<Rightarrow> nat list" where
  "numbered f = string_params f @ tmp_params f"

lemma HasStringParam_iff: "HasStringParam f \<longleftrightarrow> string_params f \<noteq> []"
proof -
  have "HasStringParam f \<longleftrightarrow> (\<exists>i < length (Params f). prm_Type (Params f ! i) = tString)"
    unfolding HasStringParam_def by (metis in_set_conv_nth)
  then show ?thesis by (auto simp: string_params_def filter_empty_conv param_def)
qed

lemma renders_func:
  assumes "typed sh" and "arg_count sh \<le> 15"
  shows "renders sh {} (numbered sh) (\<lambda>_. True) (tmpl_func e)"
proof -
  have "renders sh {} (numbered sh) (\<lambda>_. True) (if HasStringParam sh then gconcat [tmpl_helperbody e, tmpl_funcbody e] else tmpl_funcbody e)"
  proof (cases "HasStringParam sh")
    case True
    have "renders sh (set (string_params sh)) (tmp_params sh) (\<lambda>_. True) (gconcat [tmpl_funcbody e])"
      using renders_Cons [OF renders_funcbody [OF assms] renders_Nil] by simp
    then show ?thesis
      using True renders_Cons [OF renders_helperbody [of sh "{}" e], of "tmp_params sh" "[tmpl_funcbody e]"]
      by (simp add: numbered_def del: gconcat.simps)
  next
    case False
    then show ?thesis using renders_funcbody [OF assms] by (simp add: numbered_def HasStringParam_iff)
  qed
  then show ?thesis unfolding tmpl_func_def by (intro renders_get_bind) (auto simp: shape_names)
qed

lemma parsed_shape: "parsed_ok f \<Longrightarrow> shape f = f"
  by (cases f) (auto simp: parsed_ok_def shape_def param_ok_def intro!: map_idI)

lemma parsed_counting: "parsed_ok f \<Longrightarrow> counting f"
  by (auto simp: parsed_ok_def param_ok_def counting_def param_def)

lemma parsed_typed: "parsed_ok f \<Longrightarrow> typed f"
  by (auto simp: parsed_ok_def typed_def param_ok_def)

lemma numbered_set: "set (numbered f) \<subseteq> indices f"
  using set_params [of f] by (simp add: numbered_def)

lemma parsed_renders:
  assumes "parsed_ok f" and "renders f {} (numbered f) P m" and "g = assigns (numbered f) f"
  obtains x where "P x" "m f = Ok (x, g)" "m g = Ok (x, g)"
proof -
  have "assigned ({} \<inter> indices f) f" by (simp add: assigned_def)
  from rendersD [OF assms(2) parsed_shape [OF assms(1)] parsed_counting [OF assms(1)] this extends_refl] show thesis
    using that unfolding assms(3) by blast
qed

lemma renders_at:
  assumes "renders sh A [] P m" and "shape g = sh" and "counting g" and "assigned (A \<inter> indices sh) g"
  shows "\<exists>x. P x \<and> m g = Ok (x, g)"
  using rendersD [OF assms] by (metis extends_refl fold_simps(1))

lemma final_numbers:
  assumes "parsed_ok f" and "g = assigns (numbered f) f" and i: "i < length (Params f)"
  shows "0 \<le> tmpVarIdx (param i g) \<longleftrightarrow> prm_Type (param i f) = tString \<or> uses_tmp (prm_Type (param i f))"
proof -
  have n: "i \<in> set (numbered f) \<longleftrightarrow> prm_Type (param i f) = tString \<or> uses_tmp (prm_Type (param i f))"
    using i by (auto simp: numbered_def string_params_def tmp_params_def)
  have "assigned (set (numbered f)) g"
    unfolding assms(2) using parsed_counting [OF assms(1)] numbered_set by (intro assigned_assigns) (simp_all add: counting_def)
  moreover have "tmpVarIdx (param i g) = -1" if "i \<notin> set (numbered f)"
    using assigns_untouched [OF numbered_set that] i assms(1,2) by (auto simp: parsed_ok_def param_ok_def param_def)
  ultimately show ?thesis using n by (auto simp: assigned_def)
qed



text \<open>
  The system call of the generated code gets the arguments of the parameters in order, two for a
  slice and one for every other parameter, and zeros up to the size of the smallest system call that
  takes them; their number without the zeros is the one that the call states.
\<close>

theorem generated_call:
  assumes "newFn t s = Inr f" and "arg_count f \<le> 15" and "tmpl_func e f = Ok (code, g)"
  shows "\<exists>as c. each_param (SyscallArgList e) g = Ok (as, g) \<and> length as = length (Params f) \<and> length (concat as) = arg_count f \<and>
    ParamCount e g = Ok (arg_count f, g) \<and> SyscallParamCount e g = Ok (c, g) \<and>
    SyscallParamList e g = Ok (join_text '', '' (concat as @ replicate (c - arg_count f) ''0''), g) \<and>
    arg_count f \<le> c \<and> c \<in> {3, 6, 9, 12, 15} \<and> (c = 3 \<or> c < arg_count f + 3)"
proof -
  note p = newFn_ok [OF assms(1)]
  define h where "h = assigns (numbered f) f"
  obtain code' where "tmpl_func e f = Ok (code', h)"
    by (rule parsed_renders [OF p renders_func [OF parsed_typed [OF p] assms(2)] h_def])
  then have g: "g = h" using assms(3) by simp
  have e: "extends f g" unfolding g h_def by (rule extends_assigns [OF numbered_set])
  have sh: "shape g = f" using extends_shape [OF e] parsed_shape [OF p] by simp
  have cg: "counting g" unfolding g h_def by (rule counting_assigns [OF parsed_counting [OF p] numbered_set])
  have ag: "assigned (set (tmp_params f) \<inter> indices f) g"
    unfolding g h_def using assigned_assigns [OF _ numbered_set] parsed_counting [OF p]
    by (fastforce simp: assigned_def numbered_def counting_def)
  note at = renders_at [OF _ sh cg ag]
  obtain as where as: "sum_list (map length as) = arg_count f" "each_param (SyscallArgList e) g = Ok (as, g)"
    using at [OF renders_args [OF parsed_typed [OF p] subset_refl]] by blast
  obtain c where c: "syscall_size (arg_count f) = Ok c" "arg_count f \<le> c" "c \<in> {3, 6, 9, 12, 15}" "c = 3 \<or> c < arg_count f + 3"
    using syscall_size_Ok [OF assms(2)] by blast
  have n: "ParamCount e g = Ok (arg_count f, g)"
    using at [OF renders_ParamCount [OF parsed_typed [OF p] subset_refl]] by blast
  have sc: "SyscallParamCount e g = Ok (c, g)"
    using at [OF renders_SyscallParamCount [OF parsed_typed [OF p] subset_refl c(1)]] by blast
  have l: "length (concat as) = arg_count f" using as(1) by (simp add: length_concat)
  have "length xs = length js" if "geach m js f = Ok (xs, f')" for m :: "nat \<Rightarrow> string list gen" and js xs f f'
    using that by (induction js arbitrary: xs f f') (auto simp: gget_def gbind_def gmap_def bind_res_Ok_iff)
  from this [OF as(2) [unfolded each_param_def]] have "length as = length (Params f)"
    using sh shape_same(6) [of g] by simp
  moreover have "SyscallParamList e g = Ok (join_text '', '' (concat as @ replicate (c - arg_count f) ''0''), g)"
    by (simp add: SyscallParamList_def gbind_def gmap_def gget_def as(2) sc l)
  ultimately show ?thesis using as(2) l n sc c(2-4) by blast
qed

theorem generated_call_witness:
  "\<exists>code g. tmpl_func winio_env sample_fn = Ok (code, g) \<and> ParamCount winio_env g = Ok (3, g)"
proof -
  have n: "newFn False (decl_text sample_fn) = Inr sample_fn"
    using newFn_text [OF sample_fn_ok, of "[]" "[]"] by (simp add: sample_fn_def)
  have a: "arg_count sample_fn = 3" by (simp add: arg_count_def sample_fn_def has_prefix_def)
  note p = newFn_ok [OF n]
  obtain code g where "tmpl_func winio_env sample_fn = Ok (code, g)"
    by (rule parsed_renders [OF p renders_func [OF parsed_typed [OF p]] refl]) (simp_all add: a)
  then show ?thesis using generated_call [OF n, of winio_env code g] a by auto
qed

lemma gconcat_panics:
  assumes "gconcat ms f = Ok (x, g)" and "m g = Panic q"
  shows "gconcat (ms @ m # ms') f = Panic q"
  using assms(1)
proof (induction ms arbitrary: f x)
  case Nil
  then show ?case using assms(2) by (simp add: gget_def gbind_def)
next
  case (Cons n ns)
  then show ?case by (auto simp: gbind_def gmap_def gget_def bind_res_Ok_iff)
qed

lemma syscall_panics:
  assumes "typed sh" and "15 < arg_count sh" and "shape g = sh" and "counting g" and "assigned (set (tmp_params sh) \<inter> indices sh) g"
  shows "tmpl_syscall e g = Panic ''too many arguments to system call''"
proof -
  have "ParamCount e g = Ok (arg_count sh, g)"
    using renders_at [OF renders_ParamCount [OF assms(1) subset_refl] assms(3-5)] by blast
  moreover have "syscall_size (arg_count sh) = Panic ''too many arguments to system call''"
    using assms(2) by (simp add: syscall_size_def)
  ultimately show ?thesis
    by (simp add: tmpl_syscall_def gbind_def gget_def Syscall_def gmap_def SyscallParamCount_def)
qed

lemma funcbody_panics:
  assumes "typed sh" and "15 < arg_count sh" and "shape f = sh" and "counting f"
  shows "tmpl_funcbody e f = Panic ''too many arguments to system call''"
proof -
  let ?g = "assigns (tmp_params sh) f"
  have i: "set (tmp_params sh) \<subseteq> indices f" using set_params(2) [of sh] assms(3) by (metis indices_shape)
  have r: "renders sh {} (tmp_params sh) (\<lambda>_. True) (gconcat (body_start e @ tmpl_tmpvars # [lit [tb]]))"
    by (rule renders_gconcat_mid [OF renders_body_start renders_tmpvars]) (simp_all add: renders_lit)
  obtain x where x: "gconcat (body_start e @ tmpl_tmpvars # [lit [tb]]) f = Ok (x, ?g)"
    using rendersD [OF r assms(3,4) _ extends_refl] by (auto simp: assigned_def)
  have "shape ?g = sh" using extends_shape [OF extends_assigns [OF i]] assms(3) by simp
  moreover have "assigned (set (tmp_params sh) \<inter> indices sh) ?g"
    using assigned_assigns [OF _ i] assms(4) by (auto simp: assigned_def counting_def)
  ultimately have "tmpl_syscall e ?g = Panic ''too many arguments to system call''"
    using counting_assigns [OF assms(4) i] by (intro syscall_panics [OF assms(1,2)])
  from gconcat_panics [where m = "tmpl_syscall e", OF x this, of "drop 2 (body_end e)"] show ?thesis
    by (simp add: funcbody_parts body_end_def del: gconcat.simps)
qed

lemma parsed_panics:
  assumes p: "parsed_ok f" and "15 < arg_count f"
  shows "tmpl_func e f = Panic ''too many arguments to system call''"
proof -
  note sh = parsed_shape [OF p] and c = parsed_counting [OF p] and ty = parsed_typed [OF p]
  show ?thesis
  proof (cases "HasStringParam f")
    case True
    let ?g = "assigns (string_params f) f"
    have i: "set (string_params f) \<subseteq> indices f" by (rule set_params)
    obtain x where "tmpl_helperbody e f = Ok (x, ?g)"
      using rendersD [OF renders_helperbody [of f "{}" e] sh c _ extends_refl] by (auto simp: assigned_def)
    moreover have "tmpl_funcbody e ?g = Panic ''too many arguments to system call''"
      using extends_shape [OF extends_assigns [OF i]] sh counting_assigns [OF c i] by (intro funcbody_panics [OF ty assms(2)]) simp_all
    ultimately show ?thesis using True by (simp add: tmpl_func_def gbind_def gget_def gmap_def)
  next
    case False
    then show ?thesis using funcbody_panics [OF ty assms(2) sh c] by (simp add: tmpl_func_def gbind_def gget_def)
  qed
qed

text \<open>
  A function with more than fifteen arguments makes the generator panic.
\<close>

theorem too_many_arguments:
  assumes "newFn t s = Inr f" and "15 < arg_count f"
  shows "tmpl_func e f = Panic ''too many arguments to system call''"
  by (rule parsed_panics [OF newFn_ok [OF assms(1)] assms(2)])

definition many_params :: Fn where
  "many_params = \<lparr>fn_Name = ''f'', Params = replicate 16 \<lparr>prm_Name = ''x'', prm_Type = ''int'', tmpVarIdx = -1\<rparr>,
     fn_Rets = no_rets, PrintTrace = False, dllname = [], dllfuncname = [], fn_src = [], curTmpVarIdx = 0\<rparr>"

theorem too_many_arguments_witness:
  "\<exists>f. newFn False (decl_text many_params) = Inr f \<and> tmpl_func winio_env f = Panic ''too many arguments to system call''"
proof -
  let ?f = "many_params\<lparr>fn_src := decl_text many_params\<rparr>"
  have t: "decl_text ?f = decl_text many_params" by (simp add: decl_text_def ParamList_def decl_dll_def)
  have "decl_ok ?f" unfolding decl_ok_def t by (simp add: many_params_def word_ok_def is_blank_def rets_ok_def dll_ok_def no_rets_def tError_def)
  then have n: "newFn False (decl_text many_params) = Inr ?f"
    using newFn_text [of ?f "[]" "[]"] t by (simp add: many_params_def)
  have "15 < arg_count ?f" by (simp add: arg_count_def many_params_def has_prefix_def sum_list_replicate)
  then show ?thesis using too_many_arguments [OF n] n by blast
qed

text \<open>
  The conversion of a string parameter compares the error variable with nil even if the function
  returns no error: the generated code then reads the blank identifier, which is no Go.
\<close>

theorem blank_is_compared:
  assumes "ErrorVarName (fn_Rets f) = []"
  shows "\<exists>code g. StringTmpVarCode e i f = Ok (code @ ''if _ != nil {'' @ [nl, tb, tb] @ ''return'' @ [nl, tb] @ ''}'', g)"
proof -
  let ?g = "assign i f"
  have r: "fn_Rets ?g = fn_Rets f" by (simp add: assign_def)
  have "string_code tmp ''_'' ty conv n =
      (''var '' @ tmp @ '' '' @ ty @ [nl, tb] @ tmp @ '', '' @ ''_'' @ '' = '' @ conv @ ''('' @ n @ '')'' @ [nl, tb]) @
      ''if _ != nil {'' @ [nl, tb, tb] @ ''return'' @ [nl, tb] @ ''}''" for tmp ty conv n
    by (simp add: string_code_def Let_def)
  then show ?thesis
    by (simp only: StringTmpVarCode_def gbind_def tmpVar_def gget_def Let_def bind_res_simps prod.case errvar_or_blank_def r assms simp_thms if_True) blast
qed

theorem blank_is_compared_witness:
  "\<exists>code g. StringTmpVarCode winio_env 0 (sample_fn\<lparr>fn_Rets := no_rets\<rparr>) = Ok (code @ ''if _ != nil {'' @ [nl, tb, tb] @ ''return'' @ [nl, tb] @ ''}'', g)"
  by (rule blank_is_compared) (simp add: ErrorVarName_def no_rets_def tError_def)

end
