(* ===== verification/Mk_Source.thy ===== *)
theory Mk_Source
  imports Mk_Render "HOL-Library.List_Lexorder" "HOL-Library.Char_ord" "HOL-Library.Product_Lexorder" "HOL-Library.Multiset"
begin

text \<open>
  The generator \<^verbatim>\<open>tools/mkwinsyscall\<close> as a whole: reading the declarations of all files,
  the DLLs and procedures they need, and the file that is written. What the system says about a file
  (its contents, errors of reading it, and its package clause as \<^verbatim>\<open>go/parser\<close> reads it) is a
  \<open>go_file\<close>; \<open>sortFuncs\<close> is \<^verbatim>\<open>sort.Slice\<close>, which is not stable.
\<close>

section \<open>Data\<close>

record go_file =
  file_name :: string
  content :: string
  read_error :: "go_error option"
  seek_error :: "go_error option"
  package_clause :: "go_error + string"

record DLL =
  dll_Name :: string
  dll_Var :: string

record Source =
  Funcs :: "Fn list"
  DLLFuncNames :: "Fn list"
  Files :: "string list"
  StdLibImports :: "string list"
  ExternalImports :: "string list"

record flags =
  printTraceFlag :: bool
  systemDLL :: bool
  winio_flag :: bool
  utf16_flag :: bool
  sortdecls :: bool

datatype src_error =
    Decl_Error decl_error
  | System_Error go_error
  | No_Input_Files
  | Template_Error string

section \<open>Reading one file\<close>

text \<open>\<^verbatim>\<open>bufio.Scanner\<close>: the lines, up to one that does not fit into its buffer.\<close>

definition MaxScanTokenSize :: nat where "MaxScanTokenSize = 65536"

definition dropCR :: "string \<Rightarrow> string" where
  "dropCR s = (if s \<noteq> [] \<and> last s = CHR 0x0D then butlast s else s)"

definition raw_lines :: "string \<Rightarrow> string list" where
  "raw_lines s = (let ls = split_on nl s in if last ls = [] then butlast ls else ls)"

definition scan_lines :: "string \<Rightarrow> string list" where
  "scan_lines s = map dropCR (takeWhile (\<lambda>l. length l < MaxScanTokenSize) (raw_lines s))"

definition scan_error :: "go_file \<Rightarrow> go_error option" where
  "scan_error f =
     (if \<exists>l\<in>set (raw_lines (content f)). MaxScanTokenSize \<le> length l then Some (ErrNew ''bufio.Scanner: token too long'')
      else read_error f)"

text \<open>The declaration on a line, if it has one.\<close>

definition sys_line :: "string \<Rightarrow> string option" where
  "sys_line l =
     (let t = trim l in
      if length t < 7 then None
      else if \<not> has_prefix t ''//sys'' then None
      else (let t = drop 5 t in if \<not> (t ! 0 = CHR '' '' \<or> t ! 0 = tb) then None else Some (drop 1 t)))"

fun scan_loop :: "bool \<Rightarrow> string list \<Rightarrow> decl_error + Fn list" where
  "scan_loop tr [] = Inr []"
| "scan_loop tr (l # ls) =
     (case sys_line l of
        None \<Rightarrow> scan_loop tr ls
      | Some s \<Rightarrow>
          (case newFn tr s of
             Inl e \<Rightarrow> Inl e
           | Inr f \<Rightarrow> (case scan_loop tr ls of Inl e \<Rightarrow> Inl e | Inr fs \<Rightarrow> Inr (f # fs))))"

text \<open>The order of the functions.\<close>

definition fn_less :: "Fn \<Rightarrow> Fn \<Rightarrow> bool" where
  "fn_less a b = (if DLLName a = DLLName b then DLLFuncName a < DLLFuncName b else DLLName a < DLLName b)"

definition parseFile :: "flags \<Rightarrow> (Fn list \<Rightarrow> Fn list) \<Rightarrow> go_file \<Rightarrow> Source \<times> string \<Rightarrow> src_error + Source \<times> string" where
  "parseFile fl sortFuncs file = (\<lambda>(src, pkg).
     case scan_loop (printTraceFlag fl) (scan_lines (content file)) of
       Inl e \<Rightarrow> Inl (Decl_Error e)
     | Inr fs \<Rightarrow>
         (case scan_error file of
            Some e \<Rightarrow> Inl (System_Error e)
          | None \<Rightarrow>
              (let src = src\<lparr>Funcs := Funcs src @ fs, Files := Files src @ [file_name file]\<rparr>;
                   src = (if sortdecls fl then src\<lparr>Funcs := sortFuncs (Funcs src)\<rparr> else src)
               in case seek_error file of
                    Some e \<Rightarrow> Inl (System_Error e)
                  | None \<Rightarrow> (case package_clause file of Inl e \<Rightarrow> Inl (System_Error e) | Inr p \<Rightarrow> Inr (src, p)))))"

section \<open>Reading all files\<close>

definition missing :: "go_error \<Rightarrow> bool" where
  "missing e \<longleftrightarrow> errors_Is e (ErrNew ''file does not exist'') \<or> (\<exists>c\<in>{2, 3, 53, 123}. errors_Is e (Errno c))"

fun parse_opened :: "flags \<Rightarrow> (Fn list \<Rightarrow> Fn list) \<Rightarrow> (go_error + go_file) list \<Rightarrow> Source \<times> string \<Rightarrow> src_error + Source \<times> string" where
  "parse_opened fl sortFuncs [] st = Inr st"
| "parse_opened fl sortFuncs (Inl e # fs) st = Inl (System_Error e)"
| "parse_opened fl sortFuncs (Inr f # fs) st =
     (case parseFile fl sortFuncs f st of Inl e \<Rightarrow> Inl e | Inr st \<Rightarrow> parse_opened fl sortFuncs fs st)"

definition ParseFile ::
  "flags \<Rightarrow> (Fn list \<Rightarrow> Fn list) \<Rightarrow> (string \<Rightarrow> go_error + go_file) \<Rightarrow> (string \<Rightarrow> go_error + string list) \<Rightarrow> string \<Rightarrow>
   Source \<times> string \<Rightarrow> src_error + Source \<times> string" where
  "ParseFile fl sortFuncs open_file glob path st =
     (case open_file path of
        Inr f \<Rightarrow> parseFile fl sortFuncs f st
      | Inl e \<Rightarrow>
          if \<not> missing e then Inl (System_Error e)
          else (case glob path of
                  Inl e \<Rightarrow> Inl (System_Error e)
                | Inr paths \<Rightarrow> parse_opened fl sortFuncs (map open_file paths) st))"

fun parse_paths ::
  "flags \<Rightarrow> (Fn list \<Rightarrow> Fn list) \<Rightarrow> (string \<Rightarrow> go_error + go_file) \<Rightarrow> (string \<Rightarrow> go_error + string list) \<Rightarrow> string list \<Rightarrow>
   Source \<times> string \<Rightarrow> src_error + Source \<times> string" where
  "parse_paths fl sortFuncs open_file glob [] st = Inr st"
| "parse_paths fl sortFuncs open_file glob (p # ps) st =
     (case ParseFile fl sortFuncs open_file glob p st of
        Inl e \<Rightarrow> Inl e | Inr st \<Rightarrow> parse_paths fl sortFuncs open_file glob ps st)"

fun uniq_funcs :: "string list \<Rightarrow> Fn list \<Rightarrow> Fn list" where
  "uniq_funcs seen [] = []"
| "uniq_funcs seen (f # fs) =
     (if DLLFuncName f \<in> set seen then uniq_funcs seen fs else f # uniq_funcs (DLLFuncName f # seen) fs)"

definition no_source :: Source where
  "no_source = \<lparr>Funcs = [], DLLFuncNames = [], Files = [], StdLibImports = [''unsafe''], ExternalImports = []\<rparr>"

definition ParseFiles ::
  "flags \<Rightarrow> (Fn list \<Rightarrow> Fn list) \<Rightarrow> (string \<Rightarrow> go_error + go_file) \<Rightarrow> (string \<Rightarrow> go_error + string list) \<Rightarrow> string list \<Rightarrow>
   src_error + Source \<times> string" where
  "ParseFiles fl sortFuncs open_file glob fs =
     (case parse_paths fl sortFuncs open_file glob fs (no_source, []) of
        Inl e \<Rightarrow> Inl e
      | Inr (src, pkg) \<Rightarrow> Inr (src\<lparr>DLLFuncNames := uniq_funcs [] (Funcs src)\<rparr>, pkg))"

section \<open>The DLLs\<close>

fun uniq_dlls :: "(string \<Rightarrow> bool) \<Rightarrow> string list \<Rightarrow> Fn list \<Rightarrow> DLL list res" where
  "uniq_dlls isId seen [] = Ok []"
| "uniq_dlls isId seen (f # fs) =
     bind_res (DLLVar isId f) (\<lambda>id.
       if id \<in> set seen then uniq_dlls isId seen fs
       else bind_res (uniq_dlls isId (id # seen) fs) (\<lambda>r. Ok (\<lparr>dll_Name = DLLName f, dll_Var = id\<rparr> # r)))"

text \<open>No two DLLs have the same variable, so that every sorting algorithm gives the same list.\<close>

definition DLLs :: "flags \<Rightarrow> (string \<Rightarrow> bool) \<Rightarrow> Source \<Rightarrow> DLL list res" where
  "DLLs fl isId src =
     bind_res (uniq_dlls isId [] (Funcs src)) (\<lambda>r. Ok (if sortdecls fl then sort_key dll_Var r else r))"

section \<open>Writing the file\<close>

definition Import :: "string \<Rightarrow> Source \<Rightarrow> Source" where
  "Import p src = src\<lparr>StdLibImports := sort (StdLibImports src @ [p])\<rparr>"

definition ExternalImport :: "string \<Rightarrow> Source \<Rightarrow> Source" where
  "ExternalImport p src = src\<lparr>ExternalImports := sort (ExternalImports src @ [p])\<rparr>"

text \<open>
  Whether the first file is in the directory of the Go distribution: \<open>abs_path\<close> is
  \<^verbatim>\<open>filepath.Abs\<close> and \<open>lower\<close> is \<^verbatim>\<open>strings.ToLower\<close>.
\<close>

definition IsStdRepo :: "(string \<Rightarrow> go_error + string) \<Rightarrow> (string \<Rightarrow> string) \<Rightarrow> string \<Rightarrow> Source \<Rightarrow> src_error + bool" where
  "IsStdRepo abs_path lower goroot src =
     (case Files src of
        [] \<Rightarrow> Inl No_Input_Files
      | f # _ \<Rightarrow>
          (case abs_path f of
             Inl e \<Rightarrow> Inl (System_Error e)
           | Inr p \<Rightarrow>
               (let root = lower goroot;
                    root = (if has_suffix root [CHR 0x5C] then root else root @ [CHR 0x5C])
                in Inr (has_prefix (lower p) root))))"

datatype pkgtype = pkgStd | pkgXSysWindows | pkgOther

definition pkg_type :: "bool \<Rightarrow> string \<Rightarrow> pkgtype" where
  "pkg_type isStd pkg = (if isStd then pkgStd else if pkg = ''windows'' then pkgXSysWindows else pkgOther)"

definition add_imports :: "flags \<Rightarrow> pkgtype \<Rightarrow> string \<Rightarrow> Source \<Rightarrow> Source" where
  "add_imports fl ty pkg src =
     (let src = (if systemDLL fl then
                   (case ty of
                      pkgStd \<Rightarrow> Import ''internal/syscall/windows/sysdll'' src
                    | pkgXSysWindows \<Rightarrow> src
                    | pkgOther \<Rightarrow> ExternalImport ''golang.org/x/sys/windows'' src)
                 else src);
          src = (if winio_flag fl then ExternalImport ''github.com/Microsoft/go-winio'' src else src)
      in if pkg \<noteq> ''syscall'' then Import ''syscall'' src else src)"

definition newlazydll :: "flags \<Rightarrow> pkgtype \<Rightarrow> genv \<Rightarrow> string \<Rightarrow> string" where
  "newlazydll fl ty e dll =
     (let arg = qt # dll @ ''.dll'' @ [qt] in
      if \<not> systemDLL fl then syscalldot e @ ''NewLazyDLL('' @ arg @ '')''
      else
        (let arg = (if has_prefix dll ''api_'' \<or> has_prefix dll ''ext_'' then replace_char (CHR ''_'') (CHR ''-'') arg else arg) in
         case ty of
           pkgStd \<Rightarrow> syscalldot e @ ''NewLazyDLL(sysdll.Add('' @ arg @ ''))''
         | pkgXSysWindows \<Rightarrow> ''NewLazySystemDLL('' @ arg @ '')''
         | pkgOther \<Rightarrow> ''windows.NewLazySystemDLL('' @ arg @ '')''))"

definition tmpl_dlls :: "flags \<Rightarrow> (string \<Rightarrow> bool) \<Rightarrow> pkgtype \<Rightarrow> genv \<Rightarrow> Source \<Rightarrow> string res" where
  "tmpl_dlls fl isId ty e src =
     bind_res (DLLs fl isId src) (\<lambda>ds.
       Ok (concat (map (\<lambda>d. tb # ''mod'' @ dll_Var d @ '' = '' @ newlazydll fl ty e (dll_Name d) @ [nl]) ds)))"

fun tmpl_funcnames :: "(string \<Rightarrow> bool) \<Rightarrow> Fn list \<Rightarrow> string res" where
  "tmpl_funcnames isId [] = Ok []"
| "tmpl_funcnames isId (f # fs) =
     bind_res (DLLVar isId f) (\<lambda>v. bind_res (tmpl_funcnames isId fs) (\<lambda>r.
       Ok (tb # ''proc'' @ DLLFuncName f @ '' = mod'' @ v @ ''.NewProc('' @ qt # DLLFuncName f @ qt # '')'' @ nl # r)))"

fun tmpl_funcs :: "genv \<Rightarrow> Fn list \<Rightarrow> string res" where
  "tmpl_funcs e [] = Ok []"
| "tmpl_funcs e (f # fs) =
     bind_res (tmpl_func e f) (\<lambda>(s, _). bind_res (tmpl_funcs e fs) (\<lambda>r. Ok (s @ r)))"

definition quoted_lines :: "string list \<Rightarrow> string" where
  "quoted_lines xs = concat (map (\<lambda>x. qt # x @ [qt, nl]) xs)"

definition line :: "string \<Rightarrow> string" where
  "line s = s @ [nl]"

definition tmpl_head :: "genv \<Rightarrow> Source \<Rightarrow> string" where
  "tmpl_head e src =
     line '' //go:build windows'' @ line [] @
     line (''// Code generated by '' @ CHR 0x27 # ''go generate'' @ CHR 0x27 # '' using '' @ qt #
       ''github.com/Microsoft/go-winio/tools/mkwinsyscall'' @ qt # ''; DO NOT EDIT.'') @ line [] @
     line (''package '' @ packageName e) @ line [] @
     line ''import ('' @ quoted_lines (StdLibImports src) @ line [] @ line [] @ quoted_lines (ExternalImports src) @ line [] @ line '')'' @ line [] @
     line ''var _ unsafe.Pointer'' @ line [] @
     line ''// Do the interface allocations only once for common'' @
     line ''// Errno values.'' @
     line ''const ('' @ line (tb # ''errnoERROR_IO_PENDING = 997'') @ line '')'' @ line [] @
     line ''var ('' @ line (tb # ''errERROR_IO_PENDING error = '' @ syscalldot e @ ''Errno(errnoERROR_IO_PENDING)'') @
     line (tb # ''errERROR_EINVAL error     = '' @ syscalldot e @ ''EINVAL'') @ line '')'' @ line [] @
     line ''// errnoErr returns common boxed Errno values, to prevent'' @
     line ''// allocations at runtime.'' @
     line (''func errnoErr(e '' @ syscalldot e @ ''Errno) error {'') @
     line (tb # ''switch e {'') @ line (tb # ''case 0:'') @ line (tb # tb # ''return errERROR_EINVAL'') @
     line (tb # ''case errnoERROR_IO_PENDING:'') @ line (tb # tb # ''return errERROR_IO_PENDING'') @ line (tb # ''}'') @
     line (tb # ''// TODO: add more here, after collecting data on the common'') @
     line (tb # ''// error values see on Windows. (perhaps when running'') @
     line (tb # ''// all.bat?)'') @ line (tb # ''return e'') @ line ''}'' @ line [] @ line ''var (''"

definition tmpl_main :: "flags \<Rightarrow> (string \<Rightarrow> bool) \<Rightarrow> pkgtype \<Rightarrow> genv \<Rightarrow> Source \<Rightarrow> string res" where
  "tmpl_main fl isId ty e src =
     bind_res (tmpl_dlls fl isId ty e src) (\<lambda>ds.
     bind_res (tmpl_funcnames isId (DLLFuncNames src)) (\<lambda>ns.
     bind_res (tmpl_funcs e (Funcs src)) (\<lambda>fs.
       Ok (tmpl_head e src @ ds @ [nl] @ ns @ '')'' @ [nl] @ fs @ [nl]))))"

text \<open>A panic in a method that a template calls becomes an error of the template.\<close>

definition Generate ::
  "flags \<Rightarrow> (string \<Rightarrow> bool) \<Rightarrow> (string \<Rightarrow> go_error + string) \<Rightarrow> (string \<Rightarrow> string) \<Rightarrow> string \<Rightarrow> Source \<times> string \<Rightarrow> src_error + string" where
  "Generate fl isId abs_path lower goroot = (\<lambda>(src, pkg).
     case IsStdRepo abs_path lower goroot src of
       Inl e \<Rightarrow> Inl e
     | Inr isStd \<Rightarrow>
         (let ty = pkg_type isStd pkg;
              src = add_imports fl ty pkg src
          in case tmpl_main fl isId ty \<lparr>packageName = pkg, utf16 = utf16_flag fl\<rparr> src of
               Ok s \<Rightarrow> Inr s
             | Err e \<Rightarrow> Inl (System_Error e)
             | Panic p \<Rightarrow> Inl (Template_Error p)))"

section \<open>The functions of all files\<close>

definition sorts_funcs :: "(Fn list \<Rightarrow> Fn list) \<Rightarrow> bool" where
  "sorts_funcs sortFuncs \<longleftrightarrow> (\<forall>fs. mset (sortFuncs fs) = mset fs \<and> sorted_wrt (\<lambda>a b. \<not> fn_less b a) (sortFuncs fs))"

text \<open>The files that a path stands for, and the functions that a file declares.\<close>

definition files_of :: "(string \<Rightarrow> go_error + go_file) \<Rightarrow> (string \<Rightarrow> go_error + string list) \<Rightarrow> string \<Rightarrow> go_file list" where
  "files_of open_file glob path =
     (case open_file path of
        Inr f \<Rightarrow> [f]
      | Inl _ \<Rightarrow> (case glob path of Inl _ \<Rightarrow> [] | Inr ps \<Rightarrow> map projr (map open_file ps)))"

definition declared :: "flags \<Rightarrow> go_file \<Rightarrow> Fn list" where
  "declared fl f = projr (scan_loop (printTraceFlag fl) (scan_lines (content f)))"

definition collected :: "flags \<Rightarrow> go_file list \<Rightarrow> Source \<times> string \<Rightarrow> Source \<times> string \<Rightarrow> bool" where
  "collected fl files st st' \<longleftrightarrow>
     mset (Funcs (fst st')) = mset (Funcs (fst st)) + mset (concat (map (declared fl) files)) \<and>
     Files (fst st') = Files (fst st) @ map file_name files \<and>
     (\<not> sortdecls fl \<longrightarrow> Funcs (fst st') = Funcs (fst st) @ concat (map (declared fl) files)) \<and>
     (sortdecls fl \<longrightarrow> files \<noteq> [] \<longrightarrow> sorted_wrt (\<lambda>a b. \<not> fn_less b a) (Funcs (fst st'))) \<and>
     snd st' = (if files = [] then snd st else projr (package_clause (last files))) \<and>
     (\<forall>f\<in>set files. \<forall>g\<in>set (declared fl f). parsed_ok g) \<and> (files = [] \<longrightarrow> st' = st)"

lemma collected_Nil: "collected fl [] st st"
  by (simp add: collected_def)

lemma collected_append:
  "collected fl fs st st1 \<Longrightarrow> collected fl gs st1 st2 \<Longrightarrow> collected fl (fs @ gs) st st2"
  by (cases "gs = []") (auto simp: collected_def)

lemma scan_loop_parsed: "scan_loop tr ls = Inr fs \<Longrightarrow> f \<in> set fs \<Longrightarrow> parsed_ok f"
  by (induction ls arbitrary: fs) (auto split: option.splits sum.splits dest: newFn_ok)

lemma parseFile_collects:
  assumes "sorts_funcs sortFuncs" and "parseFile fl sortFuncs f st = Inr st'"
  shows "collected fl [f] st st'"
proof -
  obtain src pkg where st: "st = (src, pkg)" by (cases st)
  from assms(2) obtain fs p where fs: "scan_loop (printTraceFlag fl) (scan_lines (content f)) = Inr fs"
    and p: "package_clause f = Inr p"
    and st': "st' = (let src = src\<lparr>Funcs := Funcs src @ fs, Files := Files src @ [file_name f]\<rparr>
      in if sortdecls fl then src\<lparr>Funcs := sortFuncs (Funcs src)\<rparr> else src, p)"
    unfolding st parseFile_def by (auto simp: Let_def split: sum.splits option.splits)
  have d: "declared fl f = fs" by (simp add: declared_def fs)
  show ?thesis
    using assms(1) scan_loop_parsed [OF fs] by (auto simp: collected_def st st' d p sorts_funcs_def Let_def)
qed

lemma parse_opened_collects:
  "sorts_funcs sortFuncs \<Longrightarrow> parse_opened fl sortFuncs fs st = Inr st' \<Longrightarrow> collected fl (map projr fs) st st'"
proof (induction fl sortFuncs fs st rule: parse_opened.induct)
  case (3 fl sortFuncs f fs st)
  obtain st1 where s: "parseFile fl sortFuncs f st = Inr st1" "parse_opened fl sortFuncs fs st1 = Inr st'"
    using "3.prems"(2) by (auto split: sum.splits)
  then show ?case
    using collected_append [OF parseFile_collects [OF "3.prems"(1) s(1)] "3.IH" [OF s(1) "3.prems"(1) s(2)]] by simp
qed (simp_all add: collected_Nil)

lemma ParseFile_collects:
  assumes "sorts_funcs sortFuncs" and "ParseFile fl sortFuncs open_file glob path st = Inr st'"
  shows "collected fl (files_of open_file glob path) st st'"
proof (cases "open_file path")
  case (Inl e)
  then obtain ps where g: "glob path = Inr ps" "parse_opened fl sortFuncs (map open_file ps) st = Inr st'"
    using assms(2) by (auto simp: ParseFile_def split: sum.splits if_splits)
  show ?thesis using parse_opened_collects [OF assms(1) g(2)] by (simp add: files_of_def Inl g(1))
next
  case (Inr f)
  then have "parseFile fl sortFuncs f st = Inr st'" using assms(2) by (simp add: ParseFile_def)
  then show ?thesis using parseFile_collects [OF assms(1)] by (simp add: files_of_def Inr)
qed

lemma parse_paths_collects:
  "sorts_funcs sortFuncs \<Longrightarrow> parse_paths fl sortFuncs open_file glob ps st = Inr st' \<Longrightarrow>
   collected fl (concat (map (files_of open_file glob) ps)) st st'"
proof (induction ps arbitrary: st)
  case (Cons p ps)
  obtain st1 where s: "ParseFile fl sortFuncs open_file glob p st = Inr st1" "parse_paths fl sortFuncs open_file glob ps st1 = Inr st'"
    using Cons.prems(2) by (auto split: sum.splits)
  show ?case
    using collected_append [OF ParseFile_collects [OF Cons.prems(1) s(1)] Cons.IH [OF Cons.prems(1) s(2)]] by simp
qed (simp add: collected_Nil)

lemma uniq_funcs_props:
  "distinct (map DLLFuncName (uniq_funcs seen fs)) \<and> set (uniq_funcs seen fs) \<subseteq> set fs \<and>
   DLLFuncName ` set (uniq_funcs seen fs) = DLLFuncName ` set fs - set seen"
proof (induction seen fs rule: uniq_funcs.induct)
  case (2 seen f fs)
  then show ?case by auto
qed simp

lemma ParseFiles_collects:
  assumes "sorts_funcs sortFuncs" and "ParseFiles fl sortFuncs open_file glob paths = Inr (src, pkg)"
  obtains src0 where "collected fl (concat (map (files_of open_file glob) paths)) (no_source, []) (src0, pkg)"
    "src = src0\<lparr>DLLFuncNames := uniq_funcs [] (Funcs src0)\<rparr>"
proof -
  obtain src0 where "parse_paths fl sortFuncs open_file glob paths (no_source, []) = Inr (src0, pkg)"
    "src = src0\<lparr>DLLFuncNames := uniq_funcs [] (Funcs src0)\<rparr>"
    using assms(2) by (auto simp: ParseFiles_def split: sum.splits)
  then show thesis using that parse_paths_collects [OF assms(1)] by blast
qed

text \<open>
  The generator collects exactly the functions that the files declare, each as often as it is
  declared, in the order of the DLLs and functions if they are sorted and in that of the files
  otherwise. Every function's name in its DLL gets one procedure variable.
\<close>

theorem ParseFiles_functions:
  assumes "sorts_funcs sortFuncs" and "ParseFiles fl sortFuncs open_file glob paths = Inr (src, pkg)"
    and "files = concat (map (files_of open_file glob) paths)"
  shows "mset (Funcs src) = mset (concat (map (declared fl) files)) \<and> Files src = map file_name files \<and>
    (if sortdecls fl then sorted_wrt (\<lambda>a b. \<not> fn_less b a) (Funcs src) else Funcs src = concat (map (declared fl) files)) \<and>
    distinct (map DLLFuncName (DLLFuncNames src)) \<and> set (DLLFuncNames src) \<subseteq> set (Funcs src) \<and>
    DLLFuncName ` set (DLLFuncNames src) = DLLFuncName ` set (Funcs src)"
proof -
  obtain src0 where c: "collected fl files (no_source, []) (src0, pkg)" and s: "src = src0\<lparr>DLLFuncNames := uniq_funcs [] (Funcs src0)\<rparr>"
    using ParseFiles_collects [OF assms(1,2)] unfolding assms(3) by blast
  have "sorted_wrt (\<lambda>a b. \<not> fn_less b a) (Funcs src)" if "sortdecls fl"
    using c that s by (cases "files = []") (auto simp: collected_def no_source_def)
  then show ?thesis using c uniq_funcs_props [of "[]" "Funcs src0"] s by (auto simp: collected_def no_source_def)
qed

definition stable_sort :: "Fn list \<Rightarrow> Fn list" where
  "stable_sort = sort_key (\<lambda>f. (DLLName f, DLLFuncName f))"

lemma sorts_stable: "sorts_funcs stable_sort"
proof -
  have "(DLLName a, DLLFuncName a) \<le> (DLLName b, DLLFuncName b) \<longleftrightarrow> \<not> fn_less b a" for a b
    by (auto simp: fn_less_def less_eq_prod_def)
  moreover have "sorted_wrt (\<lambda>a b. (DLLName a, DLLFuncName a) \<le> (DLLName b, DLLFuncName b)) (stable_sort fs)" for fs
    using sorted_sort_key [of "\<lambda>f. (DLLName f, DLLFuncName f)" fs] by (simp add: stable_sort_def sorted_map)
  ultimately show ?thesis by (simp add: sorts_funcs_def stable_sort_def)
qed

definition default_flags :: flags where
  "default_flags = \<lparr>printTraceFlag = False, systemDLL = True, winio_flag = False, utf16_flag = True, sortdecls = True\<rparr>"

definition sample_file :: go_file where
  "sample_file = \<lparr>file_name = ''pipe.go'', content = ''package winio'' @ nl # ''//sys '' @ decl_text sample_fn,
     read_error = None, seek_error = None, package_clause = Inr ''winio''\<rparr>"

lemma sample_lines: "scan_lines (content sample_file) = [''package winio'', ''//sys '' @ decl_text sample_fn]"
proof -
  have r: "raw_lines (content sample_file) = [''package winio'', ''//sys '' @ decl_text sample_fn]"
    unfolding sample_file_def sample_fn_text by (simp add: raw_lines_def)
  show ?thesis unfolding scan_lines_def r by (simp add: sample_fn_text dropCR_def MaxScanTokenSize_def)
qed

lemma sample_scan: "scan_loop False (scan_lines (content sample_file)) = Inr [sample_fn]" "scan_error sample_file = None"
proof -
  have 1: "sys_line ''package winio'' = None" by (simp add: sys_line_def trim_def trim_with_def is_blank_def has_prefix_def)
  have "trim (''//sys '' @ decl_text sample_fn) = ''//sys '' @ decl_text sample_fn"
    unfolding sample_fn_text by (simp add: trim_def trim_with_def is_blank_def)
  then have 2: "sys_line (''//sys '' @ decl_text sample_fn) = Some (decl_text sample_fn)"
    using sample_fn_text by (simp add: sys_line_def has_prefix_def Let_def)
  have "newFn False (decl_text sample_fn) = Inr sample_fn" using newFn_text [OF sample_fn_ok, of "[]" "[]"] by (simp add: sample_fn_def)
  then show "scan_loop False (scan_lines (content sample_file)) = Inr [sample_fn]"
    unfolding sample_lines using 1 2 by (simp del: append.simps)
  have "raw_lines (content sample_file) = [''package winio'', ''//sys '' @ decl_text sample_fn]"
    unfolding sample_file_def sample_fn_text by (simp add: raw_lines_def)
  then show "scan_error sample_file = None"
    by (simp add: scan_error_def sample_fn_text MaxScanTokenSize_def) (simp add: sample_file_def)
qed

definition sample_source :: Source where
  "sample_source = \<lparr>Funcs = [sample_fn], DLLFuncNames = [sample_fn], Files = [''pipe.go''], StdLibImports = [''unsafe''], ExternalImports = []\<rparr>"

lemma sample_parses:
  "ParseFiles default_flags stable_sort (\<lambda>_. Inr sample_file) glob [''pipe.go''] = Inr (sample_source, ''winio'')"
  using sample_scan by (simp add: ParseFiles_def ParseFile_def parseFile_def default_flags_def no_source_def stable_sort_def Let_def
      sample_source_def) (simp add: sample_file_def)

theorem ParseFiles_functions_witness:
  "mset (Funcs sample_source) = mset (declared default_flags sample_file) \<and> DLLFuncName ` set (DLLFuncNames sample_source) = DLLFuncName ` set (Funcs sample_source)"
  using ParseFiles_functions [OF sorts_stable sample_parses [of "\<lambda>_. Inr []"] refl] by (simp add: files_of_def)

section \<open>The output\<close>

definition dll_id :: "Fn \<Rightarrow> string" where
  "dll_id f = map (\<lambda>c. if c = CHR ''.'' \<or> c = CHR ''-'' then CHR ''_'' else c) (DLLName f)"

lemma DLLVar_eq: "DLLVar isId f = (if isId (dll_id f) then Ok (dll_id f) else Panic ''could not create Go identifier for DLLName'')"
  by (simp add: DLLVar_def dll_id_def Let_def)

lemma uniq_dlls_result:
  "if \<forall>f\<in>set fs. isId (dll_id f)
   then \<exists>ds. uniq_dlls isId seen fs = Ok ds \<and> distinct (map dll_Var ds) \<and> dll_Var ` set ds = dll_id ` set fs - set seen \<and>
     (\<forall>d\<in>set ds. \<exists>f\<in>set fs. dll_Name d = DLLName f \<and> dll_Var d = dll_id f)
   else uniq_dlls isId seen fs = Panic ''could not create Go identifier for DLLName''"
proof (induction isId seen fs rule: uniq_dlls.induct)
  case (2 isId seen f fs)
  show ?case
  proof (cases "isId (dll_id f)")
    case True
    show ?thesis
    proof (cases "dll_id f \<in> set seen")
      case seen: True
      then show ?thesis using "2.IH"(1) [of "dll_id f"] True by (auto simp: DLLVar_eq)
    next
      case False
      then show ?thesis using "2.IH"(2) [of "dll_id f"] True by (auto simp: DLLVar_eq)
    qed
  next
    case False
    then show ?thesis by (simp add: DLLVar_eq)
  qed
qed simp

lemma DLLs_result:
  "if \<forall>f\<in>set (Funcs src). isId (dll_id f)
   then \<exists>ds. DLLs fl isId src = Ok ds \<and> distinct (map dll_Var ds) \<and> dll_Var ` set ds = dll_id ` set (Funcs src) \<and>
     (\<forall>d\<in>set ds. \<exists>f\<in>set (Funcs src). dll_Name d = DLLName f \<and> dll_Var d = dll_id f) \<and> (sortdecls fl \<longrightarrow> sorted (map dll_Var ds))
   else DLLs fl isId src = Panic ''could not create Go identifier for DLLName''"
proof -
  have d: "distinct (map dll_Var (sort_key dll_Var ds)) = distinct (map dll_Var ds)" for ds :: "DLL list"
    by (metis mset_eq_imp_distinct_iff mset_map mset_sort)
  show ?thesis using uniq_dlls_result [of "Funcs src" isId "[]"] d by (auto simp: DLLs_def split: if_splits)
qed

lemma tmpl_funcnames_result: "(\<exists>s. tmpl_funcnames isId fs = Ok s) \<longleftrightarrow> (\<forall>f\<in>set fs. isId (dll_id f))"
  by (induction fs) (auto simp: DLLVar_eq bind_res_Ok_iff)

lemma tmpl_funcnames_no_error: "tmpl_funcnames isId fs \<noteq> Err e"
  by (induction fs) (auto simp: DLLVar_eq bind_res_Err_iff)

lemma tmpl_funcs_result:
  "(\<And>f. f \<in> set fs \<Longrightarrow> parsed_ok f) \<Longrightarrow> (\<exists>s. tmpl_funcs e fs = Ok s) \<longleftrightarrow> (\<forall>f\<in>set fs. arg_count f \<le> 15)"
proof (induction fs)
  case (Cons f fs)
  have p: "parsed_ok f" using Cons.prems by simp
  show ?case
  proof (cases "arg_count f \<le> 15")
    case True
    obtain code where "tmpl_func e f = Ok (code, assigns (numbered f) f)"
      by (rule parsed_renders [OF p renders_func [OF parsed_typed [OF p] True] refl])
    then show ?thesis using Cons True by (auto simp: bind_res_Ok_iff)
  next
    case False
    then show ?thesis using parsed_panics [OF p] by (auto simp: not_le)
  qed
qed simp

lemma add_imports_same [simp]: "Funcs (add_imports fl ty pkg src) = Funcs src" "DLLFuncNames (add_imports fl ty pkg src) = DLLFuncNames src"
  by (auto simp: add_imports_def Let_def Import_def ExternalImport_def split: pkgtype.split)

lemma IsStdRepo_result: "(\<exists>b. IsStdRepo abs_path lower goroot src = Inr b) \<longleftrightarrow> Files src \<noteq> [] \<and> (\<exists>p. abs_path (hd (Files src)) = Inr p)"
  by (cases "Files src") (auto simp: IsStdRepo_def Let_def split: sum.split)

lemma tmpl_main_result:
  assumes "\<And>f. f \<in> set (Funcs src) \<Longrightarrow> parsed_ok f" and "set (DLLFuncNames src) \<subseteq> set (Funcs src)"
  shows "(\<exists>s. tmpl_main fl isId ty e src = Ok s) \<longleftrightarrow> (\<forall>f\<in>set (Funcs src). isId (dll_id f) \<and> arg_count f \<le> 15)"
proof (cases "\<forall>f\<in>set (Funcs src). isId (dll_id f)")
  case True
  obtain ds where "DLLs fl isId src = Ok ds" using DLLs_result [of src isId fl] True by auto
  moreover obtain ns where "tmpl_funcnames isId (DLLFuncNames src) = Ok ns"
    using tmpl_funcnames_result [of isId "DLLFuncNames src"] True assms(2) by blast
  ultimately show ?thesis
    using tmpl_funcs_result [of "Funcs src" e] assms(1) True by (auto simp: tmpl_main_def tmpl_dlls_def bind_res_Ok_iff)
next
  case False
  then show ?thesis using DLLs_result [of src isId fl] by (auto simp: tmpl_main_def tmpl_dlls_def)
qed

lemma generated_file:
  assumes "sorts_funcs sortFuncs" and "ParseFiles fl sortFuncs open_file glob paths = Inr (src, pkg)"
  shows "((\<exists>code. Generate fl isId abs_path lower goroot (src, pkg) = Inr code) \<longleftrightarrow>
     Files src \<noteq> [] \<and> (\<exists>p. abs_path (hd (Files src)) = Inr p) \<and> (\<forall>f\<in>set (Funcs src). isId (dll_id f) \<and> arg_count f \<le> 15)) \<and>
   ((\<forall>f\<in>set (Funcs src). isId (dll_id f)) \<longrightarrow>
     (\<exists>ds. DLLs fl isId src = Ok ds \<and> distinct (map dll_Var ds) \<and> dll_Var ` set ds = dll_id ` set (Funcs src)))"
proof -
  obtain src0 where c: "collected fl (concat (map (files_of open_file glob) paths)) (no_source, []) (src0, pkg)"
    and s: "src = src0\<lparr>DLLFuncNames := uniq_funcs [] (Funcs src0)\<rparr>"
    by (rule ParseFiles_collects [OF assms])
  have "set (Funcs src) = set (concat (map (declared fl) (concat (map (files_of open_file glob) paths))))"
    using c s by (auto simp: collected_def no_source_def dest: mset_eq_setD)
  then have p: "parsed_ok f" if "f \<in> set (Funcs src)" for f using c that by (auto simp: collected_def)
  have "set (DLLFuncNames src) \<subseteq> set (Funcs src)" using uniq_funcs_props [of "[]" "Funcs src0"] s by simp
  then have m: "(\<exists>s. tmpl_main fl isId ty e (add_imports fl ty pkg src) = Ok s) \<longleftrightarrow> (\<forall>f\<in>set (Funcs src). isId (dll_id f) \<and> arg_count f \<le> 15)"
    for ty e using tmpl_main_result [of "add_imports fl ty pkg src" fl isId ty e] p by simp
  have "(\<exists>code. Generate fl isId abs_path lower goroot (src, pkg) = Inr code) \<longleftrightarrow>
      (\<exists>b. IsStdRepo abs_path lower goroot src = Inr b) \<and> (\<forall>f\<in>set (Funcs src). isId (dll_id f) \<and> arg_count f \<le> 15)"
  proof (cases "IsStdRepo abs_path lower goroot src")
    case (Inr b)
    have "(\<exists>code. Generate fl isId abs_path lower goroot (src, pkg) = Inr code) \<longleftrightarrow>
        (\<exists>s. tmpl_main fl isId (pkg_type b pkg) \<lparr>packageName = pkg, utf16 = utf16_flag fl\<rparr> (add_imports fl (pkg_type b pkg) pkg src) = Ok s)"
      by (simp add: Generate_def Inr Let_def split: res.split)
    then show ?thesis using m [of "pkg_type b pkg"] Inr by simp
  qed (simp add: Generate_def)
  then show ?thesis using IsStdRepo_result DLLs_result [of src isId fl] by auto
qed

lemma sample_generates:
  "\<exists>code. Generate default_flags (\<lambda>_. True) Inr (\<lambda>s. s) ''C:/Go'' (sample_source, ''winio'') = Inr code"
  using generated_file [OF sorts_stable sample_parses [of "\<lambda>_. Inr []"], of "\<lambda>_. True" Inr "\<lambda>s. s" "''C:/Go''"]
  by (auto simp: sample_source_def arg_count_def sample_fn_def has_prefix_def)

text \<open>
  From the files that it could read, the generator writes a file exactly when there is a file, its
  absolute path is known, every DLL's name makes an identifier and every function has at most fifteen
  arguments. Every module variable is then declared once, for all functions of the DLL.
\<close>

theorem Generate_succeeds:
  assumes "sorts_funcs sortFuncs" and "ParseFiles fl sortFuncs open_file glob paths = Inr (src, pkg)"
  shows "((\<exists>code. Generate fl isId abs_path lower goroot (src, pkg) = Inr code) \<longleftrightarrow>
     Files src \<noteq> [] \<and> (\<exists>p. abs_path (hd (Files src)) = Inr p) \<and> (\<forall>f\<in>set (Funcs src). isId (dll_id f) \<and> arg_count f \<le> 15)) \<and>
   ((\<forall>f\<in>set (Funcs src). isId (dll_id f)) \<longrightarrow>
     (\<exists>ds. DLLs fl isId src = Ok ds \<and> distinct (map dll_Var ds) \<and> dll_Var ` set ds = dll_id ` set (Funcs src)))"
  by (rule generated_file [OF assms])

theorem Generate_succeeds_witness:
  "\<exists>code. Generate default_flags (\<lambda>_. True) Inr (\<lambda>s. s) ''C:/Go'' (sample_source, ''winio'') = Inr code"
  using Generate_succeeds [OF sorts_stable sample_parses [of "\<lambda>_. Inr []"], of "\<lambda>_. True" Inr "\<lambda>s. s" "''C:/Go''"]
  by (auto simp: sample_source_def arg_count_def sample_fn_def has_prefix_def)

text \<open>
  The procedure variables are told apart by the function's name alone: of two functions of the
  same name in different DLLs, one is called in the other's DLL.
\<close>

theorem same_name_in_two_dlls:
  assumes "ParseFiles fl sortFuncs open_file glob paths = Inr (src, pkg)" and "f \<in> set (Funcs src)" and "g \<in> set (Funcs src)"
    and "DLLFuncName f = DLLFuncName g" and "DLLName f \<noteq> DLLName g"
  shows "\<exists>x\<in>{f, g}. \<forall>h\<in>set (DLLFuncNames src). DLLFuncName h = DLLFuncName x \<longrightarrow> DLLName h \<noteq> DLLName x"
proof -
  have "distinct (map DLLFuncName (DLLFuncNames src))"
    using assms(1) uniq_funcs_props [of "[]"] by (auto simp: ParseFiles_def split: sum.splits)
  then have "h = k" if "h \<in> set (DLLFuncNames src)" "k \<in> set (DLLFuncNames src)" "DLLFuncName h = DLLFuncName k" for h k
    using that by (meson distinct_map inj_onD)
  then show ?thesis using assms(4,5) by (metis insertCI)
qed

definition fn_in :: "string \<Rightarrow> string \<Rightarrow> Fn" where
  "fn_in name dll = \<lparr>fn_Name = name, Params = [], fn_Rets = no_rets, PrintTrace = False, dllname = dll, dllfuncname = ''F'',
     fn_src = name @ ''() = '' @ dll @ ''.F'', curTmpVarIdx = 0\<rparr>"

definition two_dlls_file :: go_file where
  "two_dlls_file = \<lparr>file_name = ''f.go'', content = ''//sys f() = a.F'' @ nl # ''//sys g() = b.F'' @ [nl],
     read_error = None, seek_error = None, package_clause = Inr ''p''\<rparr>"

lemma two_dlls_parses:
  "ParseFiles default_flags stable_sort (\<lambda>_. Inr two_dlls_file) (\<lambda>_. Inr []) [''f.go''] =
     Inr (no_source\<lparr>Funcs := [fn_in ''f'' ''a'', fn_in ''g'' ''b''], DLLFuncNames := [fn_in ''f'' ''a''], Files := [''f.go'']\<rparr>, ''p'')"
proof -
  have r: "raw_lines (content two_dlls_file) = [''//sys f() = a.F'', ''//sys g() = b.F'']"
    by (simp add: two_dlls_file_def raw_lines_def)
  have f: "newFn False ''f() = a.F'' = Inr (fn_in ''f'' ''a'')" "newFn False ''g() = b.F'' = Inr (fn_in ''g'' ''b'')"
    by (simp_all add: newFn_def extractSection_def trim_def trim_with_def is_blank_def has_prefix_def extractParams_def
        return_values_def fail_condition_def set_dll_def split_last_def endsIn_def fn_in_def no_rets_def Let_def)
  have y: "sys_line ''//sys f() = a.F'' = Some ''f() = a.F''" "sys_line ''//sys g() = b.F'' = Some ''g() = b.F''"
    by (simp_all add: sys_line_def trim_def trim_with_def is_blank_def has_prefix_def Let_def)
  have l: "scan_loop False (scan_lines (content two_dlls_file)) = Inr [fn_in ''f'' ''a'', fn_in ''g'' ''b'']"
    using f y by (simp add: scan_lines_def r MaxScanTokenSize_def dropCR_def)
  have e: "scan_error two_dlls_file = None"
    unfolding scan_error_def r by (simp add: MaxScanTokenSize_def two_dlls_file_def)
  have o: "stable_sort [fn_in ''f'' ''a'', fn_in ''g'' ''b''] = [fn_in ''f'' ''a'', fn_in ''g'' ''b'']"
    by (simp add: stable_sort_def fn_in_def DLLName_def DLLFuncName_def)
  have u: "uniq_funcs [] [fn_in ''f'' ''a'', fn_in ''g'' ''b''] = [fn_in ''f'' ''a'']" by (simp add: fn_in_def DLLFuncName_def)
  show ?thesis
    using l e o u by (simp add: ParseFiles_def ParseFile_def parseFile_def default_flags_def no_source_def Let_def) (simp add: two_dlls_file_def)
qed

theorem same_name_in_two_dlls_witness:
  "\<exists>x\<in>{fn_in ''f'' ''a'', fn_in ''g'' ''b''}. \<forall>h\<in>{fn_in ''f'' ''a''}. DLLFuncName h = DLLFuncName x \<longrightarrow> DLLName h \<noteq> DLLName x"
  using same_name_in_two_dlls [OF two_dlls_parses, of "fn_in ''f'' ''a''" "fn_in ''g'' ''b''"]
  by (simp add: fn_in_def DLLFuncName_def DLLName_def)

end
