(* ===== verification/Win_Security.thy ===== *)
theory Win_Security
  imports Go_Strconv Go_Utf
begin

text \<open>
  Accounts, security descriptors (\<^verbatim>\<open>src/sd.go\<close>) and the access of virtual machines to a file
  (\<^verbatim>\<open>src/pkg/security/grantvmgroupaccess.go\<close>). The system calls are parameters; what the code
  has to give back is part of the state: open handles and memory that the system allocated.
\<close>

section \<open>State\<close>

record sec_state =
  open_handles :: "nat set"
  allocated :: "nat set"
  dacls_set :: "(nat \<times> nat) list"

definition LocalFree :: "nat \<Rightarrow> sec_state \<Rightarrow> sec_state" where
  "LocalFree p s = s\<lparr>allocated := allocated s - {p}\<rparr>"

definition alloc :: "nat \<Rightarrow> sec_state \<Rightarrow> sec_state" where
  "alloc p s = s\<lparr>allocated := insert p (allocated s)\<rparr>"

definition ERROR_INSUFFICIENT_BUFFER :: go_error where "ERROR_INSUFFICIENT_BUFFER = Errno 122"
definition ERROR_NONE_MAPPED :: go_error where "ERROR_NONE_MAPPED = Errno 1332"
definition ERROR_INVALID_SID :: go_error where "ERROR_INVALID_SID = Errno 1337"
definition ERROR_INCORRECT_SIZE :: go_error where "ERROR_INCORRECT_SIZE = Errno 1462"

section \<open>Accounts\<close>

datatype account_error = AccountLookupError gostring go_error

definition AccountLookupError_Error :: "(go_error \<Rightarrow> gostring) \<Rightarrow> account_error \<Rightarrow> gostring" where
  "AccountLookupError_Error text x =
     (case x of AccountLookupError name e \<Rightarrow>
        if name = [] then bs_of ''lookup account: empty account name specified''
        else bs_of ''lookup account '' @ name @ bs_of '': '' @
          (if errors_Is e ERROR_INVALID_SID then bs_of ''the security ID structure is invalid''
           else if errors_Is e ERROR_NONE_MAPPED then bs_of ''not found''
           else text e))"

definition AccountLookupError_Unwrap :: "account_error \<Rightarrow> go_error" where
  "AccountLookupError_Unwrap x = (case x of AccountLookupError name e \<Rightarrow> e)"

text \<open>
  The calls: \<open>lookupAccountName\<close> gets the sizes of its two buffers, zero for none, and returns its
  error, what it wrote and the sizes it reported; likewise \<open>lookupAccountSid\<close>. The conversions
  return memory of the system and its contents.
\<close>

record account_system =
  lookupAccountName :: "gostring \<Rightarrow> u32 \<Rightarrow> u32 \<Rightarrow> go_error option \<times> bytes \<times> u32 \<times> u32"
  lookupAccountSid :: "bytes \<Rightarrow> u32 \<Rightarrow> u32 \<Rightarrow> go_error option \<times> u16 list \<times> u32 \<times> u32"
  convertSidToStringSid :: "bytes \<Rightarrow> (nat \<times> u16 list) res"
  convertStringSidToSid :: "u16 list \<Rightarrow> (nat \<times> bytes) res"
  UTF16PtrFromString :: "gostring \<Rightarrow> u16 list res"
  UTF16ToString :: "u16 list \<Rightarrow> gostring"

type_synonym 'a lookup = "(account_error + 'a) res \<times> sec_state"

definition fail_lookup :: "gostring \<Rightarrow> go_error \<Rightarrow> sec_state \<Rightarrow> 'a lookup" where
  "fail_lookup name e s = (Ok (Inl (AccountLookupError name e)), s)"

definition LookupSidByName :: "account_system \<Rightarrow> gostring \<Rightarrow> sec_state \<Rightarrow> gostring lookup" where
  "LookupSidByName sys name s =
     (if name = [] then fail_lookup name ERROR_NONE_MAPPED s
      else case lookupAccountName sys name 0 0 of (err, _, sidSize, refDomainSize) \<Rightarrow>
        if err \<noteq> None \<and> err \<noteq> Some ERROR_INSUFFICIENT_BUFFER then fail_lookup name (the err) s
        else if sidSize = 0 \<or> refDomainSize = 0 then (Panic ''index out of range'', s)
        else (case lookupAccountName sys name sidSize refDomainSize of
            (Some e, _) \<Rightarrow> fail_lookup name e s
          | (None, sid, _) \<Rightarrow>
              (case convertSidToStringSid sys sid of
                 Err e \<Rightarrow> fail_lookup name e s
               | Panic p \<Rightarrow> (Panic p, s)
               | Ok (p, str) \<Rightarrow> (Ok (Inr (UTF16ToString sys (take 0xffff str))), LocalFree p (alloc p s)))))"

definition LookupNameBySid :: "account_system \<Rightarrow> gostring \<Rightarrow> sec_state \<Rightarrow> gostring lookup" where
  "LookupNameBySid sys sid s =
     (if sid = [] then fail_lookup sid ERROR_NONE_MAPPED s
      else case UTF16PtrFromString sys sid of
        Err e \<Rightarrow> fail_lookup sid e s
      | Panic p \<Rightarrow> (Panic p, s)
      | Ok sidBuffer \<Rightarrow>
          (case convertStringSidToSid sys sidBuffer of
             Err e \<Rightarrow> fail_lookup sid e s
           | Panic p \<Rightarrow> (Panic p, s)
           | Ok (sidPtr, b) \<Rightarrow>
               (case lookupAccountSid sys b 0 0 of (err, _, nameSize, refDomainSize) \<Rightarrow>
                map_prod id (LocalFree sidPtr)
                  (if err \<noteq> None \<and> err \<noteq> Some ERROR_INSUFFICIENT_BUFFER then fail_lookup sid (the err) (alloc sidPtr s)
                   else if nameSize = 0 \<or> refDomainSize = 0 then (Panic ''index out of range'', alloc sidPtr s)
                   else (case lookupAccountSid sys b nameSize refDomainSize of
                       (Some e, _) \<Rightarrow> fail_lookup sid e (alloc sidPtr s)
                     | (None, name, _) \<Rightarrow> (Ok (Inr (UTF16ToString sys name)), alloc sidPtr s))))))"

section \<open>Security descriptors\<close>

text \<open>
  \<open>sd_size\<close> is the size of \<^verbatim>\<open>windows.SECURITY_DESCRIPTOR\<close>, a structure with four pointers, and
  \<open>to_string\<close> its \<^verbatim>\<open>String\<close> method.
\<close>

definition SecurityDescriptorToSddl :: "nat \<Rightarrow> (bytes \<Rightarrow> gostring) \<Rightarrow> bytes \<Rightarrow> gostring res" where
  "SecurityDescriptorToSddl sd_size to_string sd =
     (if length sd < sd_size then Err (ErrWrap ''SecurityDescriptor smaller than expected'' ERROR_INCORRECT_SIZE)
      else Ok (to_string sd))"

section \<open>Access of virtual machines\<close>

record trustee =
  multipleTrustee :: "nat option"
  multipleTrusteeOperation :: int
  trusteeForm :: u32
  trusteeType :: u32
  tr_name :: bytes

record explicitAccess =
  accessPermissions :: u32
  accessMode :: u32
  inheritance :: u32
  ea_trustee :: trustee

definition accessMaskDesiredPermission :: u32 where "accessMaskDesiredPermission = push_bit 31 1"
definition accessModeGrant :: u32 where "accessModeGrant = 1"
definition desiredAccessReadControl :: u32 where "desiredAccessReadControl = 0x20000"
definition desiredAccessWriteDac :: u32 where "desiredAccessWriteDac = 0x40000"
definition inheritModeNoInheritance :: u32 where "inheritModeNoInheritance = 0"
definition inheritModeSubContainersAndObjectsInherit :: u32 where "inheritModeSubContainersAndObjectsInherit = 3"
definition objectTypeFileObject :: u32 where "objectTypeFileObject = 1"
definition securityInformationDACL :: u32 where "securityInformationDACL = 4"
definition shareModeRead :: u32 where "shareModeRead = 1"
definition shareModeWrite :: u32 where "shareModeWrite = 2"
definition trusteeFormIsSID :: u32 where "trusteeFormIsSID = 0"
definition trusteeTypeWellKnownGroup :: u32 where "trusteeTypeWellKnownGroup = 5"
definition sidVMGroup :: gostring where "sidVMGroup = bs_of ''S-1-5-83-0''"

definition win_ATTRIBUTE_NORMAL :: u32 where "win_ATTRIBUTE_NORMAL = 0x80"
definition win_BACKUP_SEMANTICS :: u32 where "win_BACKUP_SEMANTICS = 0x2000000"

text \<open>
  \<open>os_Stat\<close> says whether the path is a directory; a DACL and a descriptor are addresses, the first of
  memory inside the second; \<open>setEntriesInAcl\<close> allocates the new DACL.
\<close>

record access_system =
  os_Stat :: "gostring \<Rightarrow> bool res"
  UTF16FromString :: "gostring \<Rightarrow> u16 list res"
  CreateFile :: "u16 list \<Rightarrow> u32 \<Rightarrow> u32 \<Rightarrow> u32 \<Rightarrow> nat res"
  getSecurityInfo :: "nat \<Rightarrow> u32 \<Rightarrow> u32 \<Rightarrow> (nat \<times> nat) res"
  StringToSid :: "gostring \<Rightarrow> bytes res"
  setEntriesInAcl :: "explicitAccess list \<Rightarrow> nat \<Rightarrow> nat res"
  setSecurityInfo :: "nat \<Rightarrow> u32 \<Rightarrow> u32 \<Rightarrow> nat \<Rightarrow> go_error option"

definition createFile :: "access_system \<Rightarrow> gostring \<Rightarrow> bool \<Rightarrow> nat res" where
  "createFile sys name isDir =
     bind_res (map_err (ErrWrap ''could not convernt name to UTF-16'') (UTF16FromString sys name)) (\<lambda>namep.
       let da = desiredAccessReadControl OR desiredAccessWriteDac;
           sm = shareModeRead OR shareModeWrite;
           fa = (if isDir then win_ATTRIBUTE_NORMAL OR win_BACKUP_SEMANTICS else win_ATTRIBUTE_NORMAL)
       in map_err (ErrWrap ''GrantVmGroupAccess: windows.CreateFile'') (CreateFile sys namep da sm fa))"

definition vm_group_access :: "bool \<Rightarrow> bytes \<Rightarrow> explicitAccess" where
  "vm_group_access isDir sid =
     \<lparr>accessPermissions = accessMaskDesiredPermission, accessMode = accessModeGrant,
      inheritance = (if isDir then inheritModeSubContainersAndObjectsInherit else inheritModeNoInheritance),
      ea_trustee = \<lparr>multipleTrustee = None, multipleTrusteeOperation = 0, trusteeForm = trusteeFormIsSID,
        trusteeType = trusteeTypeWellKnownGroup, tr_name = sid\<rparr>\<rparr>"

definition generateDACLWithAcesAdded :: "access_system \<Rightarrow> bool \<Rightarrow> nat \<Rightarrow> nat res" where
  "generateDACLWithAcesAdded sys isDir origDACL =
     bind_res (map_err (ErrWrap ''GrantVmGroupAccess: windows.StringToSid'') (StringToSid sys sidVMGroup)) (\<lambda>sid.
       map_err (ErrWrap ''GrantVmGroupAccess: SetEntriesInAcl'') (setEntriesInAcl sys [vm_group_access isDir sid] origDACL))"

text \<open>Calls that the system makes do not panic, so that the deferred calls run when the function returns.\<close>

definition result_or :: "'a res \<Rightarrow> sec_state \<Rightarrow> ('a \<Rightarrow> sec_state \<Rightarrow> unit res \<times> sec_state) \<Rightarrow> unit res \<times> sec_state" where
  "result_or r s k = (case r of Ok x \<Rightarrow> k x s | Err e \<Rightarrow> (Err e, s) | Panic p \<Rightarrow> (Panic p, s))"

definition GrantVmGroupAccess :: "access_system \<Rightarrow> gostring \<Rightarrow> sec_state \<Rightarrow> unit res \<times> sec_state" where
  "GrantVmGroupAccess sys name s =
     result_or (map_err (ErrWrap ''GrantVmGroupAccess: os.Stat'') (os_Stat sys name)) s (\<lambda>isDir s.
     result_or (createFile sys name isDir) s (\<lambda>fd s.
       map_prod id (\<lambda>s. s\<lparr>open_handles := open_handles s - {fd}\<rparr>)
         (result_or (map_err (ErrWrap ''GrantVmGroupAccess: GetSecurityInfo'')
             (getSecurityInfo sys fd objectTypeFileObject securityInformationDACL)) (s\<lparr>open_handles := insert fd (open_handles s)\<rparr>)
           (\<lambda>(origDACL, sd) s.
             map_prod id (LocalFree sd)
               (result_or (generateDACLWithAcesAdded sys isDir origDACL) (alloc sd s) (\<lambda>newDACL s.
                  map_prod id (LocalFree newDACL)
                    (let s = alloc newDACL s in
                     case setSecurityInfo sys fd objectTypeFileObject securityInformationDACL newDACL of
                       Some e \<Rightarrow> (Err (ErrWrap ''GrantVmGroupAccess: SetSecurityInfo'' e), s)
                     | None \<Rightarrow> (Ok (), s\<lparr>dacls_set := dacls_set s @ [(fd, newDACL)]\<rparr>))))))))"

section \<open>Properties\<close>

text \<open>Memory that the conversions return is new.\<close>

definition fresh_memory :: "account_system \<Rightarrow> sec_state \<Rightarrow> bool" where
  "fresh_memory sys s \<longleftrightarrow>
     (\<forall>sid p str. convertSidToStringSid sys sid = Ok (p, str) \<longrightarrow> p \<notin> allocated s) \<and>
     (\<forall>str p sid. convertStringSidToSid sys str = Ok (p, sid) \<longrightarrow> p \<notin> allocated s)"

lemma alloc_free: "p \<notin> allocated s \<Longrightarrow> LocalFree p (alloc p s) = s"
  by (simp add: LocalFree_def alloc_def)

lemma fresh_free:
  assumes "fresh_memory sys s"
  shows "convertSidToStringSid sys sid = Ok (p, str) \<Longrightarrow> LocalFree p (alloc p s) = s"
    and "convertStringSidToSid sys u = Ok (p, b) \<Longrightarrow> LocalFree p (alloc p s) = s"
  using assms unfolding fresh_memory_def by (blast intro: alloc_free)+

lemma fail_lookup_state [simp]: "snd (fail_lookup name e s) = s"
  by (simp add: fail_lookup_def)

lemma LookupSidByName_state: "fresh_memory sys s \<Longrightarrow> snd (LookupSidByName sys name s) = s"
  by (auto simp: LookupSidByName_def split: prod.splits option.splits res.splits dest: fresh_free)

lemma LookupNameBySid_state: "fresh_memory sys s \<Longrightarrow> snd (LookupNameBySid sys sid s) = s"
  by (auto simp: LookupNameBySid_def split: prod.splits option.splits res.splits dest: fresh_free)

text \<open>
  The account lookups free what the system allocated for them, on every path. The SID of a known
  account is its text; an error of the system is reported with the name, and the lookup panics exactly
  when the system asks for no buffer at all.
\<close>

theorem lookup_sid:
  assumes "fresh_memory sys s" and "name \<noteq> []" and "lookupAccountName sys name 0 0 = (err, x, n, d)"
    and "\<And>sid. \<not> panics (convertSidToStringSid sys sid)"
  shows "snd (LookupSidByName sys name s) = s \<and>
    (case fst (LookupSidByName sys name s) of
       Panic _ \<Rightarrow> (err = None \<or> err = Some ERROR_INSUFFICIENT_BUFFER) \<and> (n = 0 \<or> d = 0)
     | Ok (Inl e) \<Rightarrow> \<exists>c. e = AccountLookupError name c \<and>
         (err = Some c \<and> c \<noteq> ERROR_INSUFFICIENT_BUFFER \<or> (\<exists>y. lookupAccountName sys name n d = (Some c, y)) \<or>
          (\<exists>sid. convertSidToStringSid sys sid = Err c))
     | Ok (Inr t) \<Rightarrow> \<exists>sid y p str. lookupAccountName sys name n d = (None, sid, y) \<and>
         convertSidToStringSid sys sid = Ok (p, str) \<and> t = UTF16ToString sys (take 0xffff str)
     | Err _ \<Rightarrow> False)"
proof -
  have "snd (LookupSidByName sys name s) = s" by (rule LookupSidByName_state [OF assms(1)])
  moreover have "convertSidToStringSid sys sid \<noteq> Panic p" for sid p using assms(4) [of sid] by auto
  ultimately show ?thesis
    using assms(2,3) by (auto simp: LookupSidByName_def fail_lookup_def split: prod.splits option.splits res.splits sum.splits)
qed

definition sample_accounts :: account_system where
  "sample_accounts = \<lparr>
     lookupAccountName = (\<lambda>name n d. if n = 0 then (Some ERROR_INSUFFICIENT_BUFFER, [], 12, 4) else (None, [1, 1], 12, 3)),
     lookupAccountSid = (\<lambda>sid n d. if n = 0 then (Some ERROR_INSUFFICIENT_BUFFER, [], 5, 4) else (None, [65, 0], 1, 3)),
     convertSidToStringSid = (\<lambda>sid. Ok (7, [83, 45, 49, 0])), convertStringSidToSid = (\<lambda>str. Ok (8, [1, 1])),
     UTF16PtrFromString = (\<lambda>s. Ok [83, 0]), UTF16ToString = (\<lambda>u. map ucast (takeWhile (\<lambda>c. c \<noteq> 0) u))\<rparr>"

definition nothing_open :: sec_state where
  "nothing_open = \<lparr>open_handles = {}, allocated = {}, dacls_set = []\<rparr>"

theorem lookup_sid_witness:
  "LookupSidByName sample_accounts [65] nothing_open = (Ok (Inr [83, 45, 49]), nothing_open)"
proof -
  have "fresh_memory sample_accounts nothing_open" by (simp add: fresh_memory_def nothing_open_def)
  moreover have "lookupAccountName sample_accounts [65] 0 0 = (Some ERROR_INSUFFICIENT_BUFFER, [], 12, 4)"
    by (simp add: sample_accounts_def)
  ultimately have "snd (LookupSidByName sample_accounts [65] nothing_open) = nothing_open"
    using lookup_sid [of sample_accounts nothing_open "[65]"] by (simp add: sample_accounts_def)
  moreover have "fst (LookupSidByName sample_accounts [65] nothing_open) = Ok (Inr [83, 45, 49])"
    by (simp add: LookupSidByName_def sample_accounts_def)
  ultimately show ?thesis by (simp add: prod_eq_iff)
qed

text \<open>The names of accounts are looked up likewise.\<close>

lemma LookupNameBySid_known:
  assumes "fresh_memory sys s" and "sid \<noteq> []" and "UTF16PtrFromString sys sid = Ok u" and "convertStringSidToSid sys u = Ok (p, b)"
    and "lookupAccountSid sys b 0 0 = (Some ERROR_INSUFFICIENT_BUFFER, x, n, d)" and "n \<noteq> 0" and "d \<noteq> 0"
    and "lookupAccountSid sys b n d = (None, name, y)"
  shows "LookupNameBySid sys sid s = (Ok (Inr (UTF16ToString sys name)), s)"
  using assms(2-) fresh_free(2) [OF assms(1,4)] by (simp add: LookupNameBySid_def)

definition fresh_access :: "access_system \<Rightarrow> sec_state \<Rightarrow> bool" where
  "fresh_access sys s \<longleftrightarrow>
     (\<forall>n da sm fa fd. CreateFile sys n da sm fa = Ok fd \<longrightarrow> fd \<notin> open_handles s) \<and>
     (\<forall>fd ot si dacl sd. getSecurityInfo sys fd ot si = Ok (dacl, sd) \<longrightarrow> sd \<notin> allocated s) \<and>
     (\<forall>es dacl new. setEntriesInAcl sys es dacl = Ok new \<longrightarrow> new \<notin> allocated s \<and>
        (\<forall>fd ot si d sd. getSecurityInfo sys fd ot si = Ok (d, sd) \<longrightarrow> new \<noteq> sd))"


definition sample_access :: access_system where
  "sample_access = \<lparr>os_Stat = (\<lambda>_. Ok True), UTF16FromString = (\<lambda>_. Ok [65, 0]), CreateFile = (\<lambda>_ _ _ _. Ok 3),
     getSecurityInfo = (\<lambda>_ _ _. Ok (10, 11)), StringToSid = (\<lambda>_. Ok [1]), setEntriesInAcl = (\<lambda>_ _. Ok 12),
     setSecurityInfo = (\<lambda>_ _ _ _. None)\<rparr>"


end
