(* ===== verification/Win_Info.thy ===== *)
theory Win_Info
  imports Wstring Go_Strconv Win_Security
begin

text \<open>
  What the library asks the system about files, volumes, processes and disks
  (\<^verbatim>\<open>src/fileinfo.go\<close>, \<^verbatim>\<open>src/pkg/fs/fs_windows.go\<close>, \<^verbatim>\<open>src/pkg/process/process.go\<close>,
  \<^verbatim>\<open>src/internal/interop/interop.go\<close>, \<^verbatim>\<open>src/internal/computestorage/computestorage.go\<close>). The system
  calls are parameters; the layouts of the structures, the growing buffers and the memory that has to
  be freed are the code's own.
\<close>

section \<open>File information\<close>

text \<open>
  The public structure has its times as two 32-bit halves, the one passed to the system as 64-bit
  numbers; a pointer to one is used as a pointer to the other.
\<close>

record Filetime =
  LowDateTime :: u32
  HighDateTime :: u32

record file_basic_info =
  bi_CreationTime :: Filetime
  bi_LastAccessTime :: Filetime
  bi_LastWriteTime :: Filetime
  bi_ChangeTime :: Filetime
  bi_FileAttributes :: u32
  bi_padding :: u32

record alignedFileBasicInfo =
  al_CreationTime :: u64
  al_LastAccessTime :: u64
  al_LastWriteTime :: u64
  al_ChangeTime :: u64
  al_FileAttributes :: u32
  al_padding :: u32

definition ft_enc :: "Filetime \<Rightarrow> bytes" where
  "ft_enc t = le_enc 4 (LowDateTime t) @ le_enc 4 (HighDateTime t)"

definition ft_dec :: "bytes \<Rightarrow> Filetime" where
  "ft_dec b = \<lparr>LowDateTime = le_dec (take 4 b), HighDateTime = le_dec (take 4 (drop 4 b))\<rparr>"

definition basic_enc :: "file_basic_info \<Rightarrow> bytes" where
  "basic_enc bi = ft_enc (bi_CreationTime bi) @ ft_enc (bi_LastAccessTime bi) @ ft_enc (bi_LastWriteTime bi) @
     ft_enc (bi_ChangeTime bi) @ le_enc 4 (bi_FileAttributes bi) @ le_enc 4 (bi_padding bi)"

definition basic_dec :: "bytes \<Rightarrow> file_basic_info" where
  "basic_dec b = \<lparr>bi_CreationTime = ft_dec (take 8 b), bi_LastAccessTime = ft_dec (take 8 (drop 8 b)),
     bi_LastWriteTime = ft_dec (take 8 (drop 16 b)), bi_ChangeTime = ft_dec (take 8 (drop 24 b)),
     bi_FileAttributes = le_dec (take 4 (drop 32 b)), bi_padding = le_dec (take 4 (drop 36 b))\<rparr>"

definition aligned_enc :: "alignedFileBasicInfo \<Rightarrow> bytes" where
  "aligned_enc a = le_enc 8 (al_CreationTime a) @ le_enc 8 (al_LastAccessTime a) @ le_enc 8 (al_LastWriteTime a) @
     le_enc 8 (al_ChangeTime a) @ le_enc 4 (al_FileAttributes a) @ le_enc 4 (al_padding a)"

definition aligned_dec :: "bytes \<Rightarrow> alignedFileBasicInfo" where
  "aligned_dec b = \<lparr>al_CreationTime = le_dec (take 8 b), al_LastAccessTime = le_dec (take 8 (drop 8 b)),
     al_LastWriteTime = le_dec (take 8 (drop 16 b)), al_ChangeTime = le_dec (take 8 (drop 24 b)),
     al_FileAttributes = le_dec (take 4 (drop 32 b)), al_padding = le_dec (take 4 (drop 36 b))\<rparr>"

record FileStandardInfo =
  AllocationSize :: int
  EndOfFile :: int
  NumberOfLinks :: u32
  DeletePending :: bool
  is_Directory :: bool

definition standard_dec :: "bytes \<Rightarrow> FileStandardInfo" where
  "standard_dec b = \<lparr>AllocationSize = sint (le_dec (take 8 b) :: u64), EndOfFile = sint (le_dec (take 8 (drop 8 b)) :: u64),
     NumberOfLinks = le_dec (take 4 (drop 16 b)), DeletePending = (b ! 20 \<noteq> 0), is_Directory = (b ! 21 \<noteq> 0)\<rparr>"

record FileIDInfo =
  VolumeSerialNumber :: u64
  FileID :: bytes

definition id_dec :: "bytes \<Rightarrow> FileIDInfo" where
  "id_dec b = \<lparr>VolumeSerialNumber = le_dec (take 8 b), FileID = take 16 (drop 8 b)\<rparr>"

text \<open>
  \<open>get\<close> is \<^verbatim>\<open>GetFileInformationByHandleEx\<close> with a class and the size of the buffer, and returns
  the buffer; \<open>setinfo\<close> is \<^verbatim>\<open>SetFileInformationByHandle\<close>.
\<close>

type_synonym get_info = "nat \<Rightarrow> u32 \<Rightarrow> nat \<Rightarrow> bytes res"

definition GetFileBasicInfo :: "get_info \<Rightarrow> nat \<Rightarrow> file_basic_info res" where
  "GetFileBasicInfo get f =
     bind_res (map_err (ErrWrap ''GetFileInformationByHandleEx'') (get f 0 40)) (\<lambda>b. Ok (basic_dec (aligned_enc (aligned_dec b))))"

definition SetFileBasicInfo :: "(nat \<Rightarrow> u32 \<Rightarrow> bytes \<Rightarrow> nat \<Rightarrow> 'w \<Rightarrow> unit res \<times> 'w) \<Rightarrow> nat \<Rightarrow> file_basic_info \<Rightarrow> 'w \<Rightarrow> unit res \<times> 'w" where
  "SetFileBasicInfo setinfo f bi w =
     (let biAligned = aligned_dec (basic_enc bi) in
      case setinfo f 0 (aligned_enc biAligned) 40 w of (r, w) \<Rightarrow> (map_err (ErrWrap ''SetFileInformationByHandle'') r, w))"

definition GetFileStandardInfo :: "get_info \<Rightarrow> nat \<Rightarrow> FileStandardInfo res" where
  "GetFileStandardInfo get f =
     bind_res (map_err (ErrWrap ''GetFileInformationByHandleEx'') (get f 1 24)) (\<lambda>b. Ok (standard_dec b))"

definition GetFileID :: "get_info \<Rightarrow> nat \<Rightarrow> FileIDInfo res" where
  "GetFileID get f =
     bind_res (map_err (ErrWrap ''GetFileInformationByHandleEx'') (get f 18 24)) (\<lambda>b. Ok (id_dec b))"

section \<open>Volumes\<close>

definition ErrInvalidPath :: go_error where
  "ErrInvalidPath = ErrNew ''the path provided to GetFileSystemType must start with a drive letter''"

text \<open>
  \<open>volume\<close> is \<^verbatim>\<open>filepath.VolumeName\<close>, \<open>u16ptr\<close> \<^verbatim>\<open>StringToUTF16Ptr\<close>, which may panic, and \<open>call\<close>
  is \<^verbatim>\<open>GetVolumeInformation\<close> with the capacity of the buffer: its error and what it wrote there.
\<close>

definition GetFileSystemType ::
  "(gostring \<Rightarrow> gostring) \<Rightarrow> (gostring \<Rightarrow> u16 list res) \<Rightarrow> (u16 list \<Rightarrow> u32 \<Rightarrow> go_error option \<times> u16 list) \<Rightarrow>
   nat \<Rightarrow> nat \<Rightarrow> gostring \<Rightarrow> buffers \<Rightarrow> (gostring \<times> go_error option) res \<times> buffers" where
  "GetFileSystemType volume u16ptr call pick w path s =
     (let drive = volume path in
      if length drive \<noteq> 2 then (Ok ([], Some ErrInvalidPath), s)
      else
        let s = NewWString pick w s in
        case u16ptr (drive @ [92]) of
          Panic p \<Rightarrow> (Panic p, Free w s)
        | Err e \<Rightarrow> (Err e, Free w s)
        | Ok d \<Rightarrow>
            (case call d (Cap w s) of (err, xs) \<Rightarrow>
             let s = poke w xs s in (Ok (WString_String w s, err), Free w s)))"

section \<open>Processes\<close>

text \<open>The system call at the \<open>i\<close>-th turn gets the size of the buffer and returns the size it used, and the numbers.\<close>

partial_function (option) enum_loop :: "(nat \<Rightarrow> u32 \<Rightarrow> (u32 \<times> u32 list) res) \<Rightarrow> nat \<Rightarrow> nat \<Rightarrow> u32 list res option" where
  "enum_loop call i count =
     (let bufferSize = of_nat (count * 4) :: u32 in
      case call i bufferSize of
        Err e \<Rightarrow> Some (Err e)
      | Panic p \<Rightarrow> Some (Panic p)
      | Ok (retBufferSize, xs) \<Rightarrow>
          if retBufferSize = bufferSize then enum_loop call (i + 1) (count * 2)
          else Some (slice (take count xs @ replicate (count - length xs) 0) 0 (unat (retBufferSize div 4))))"

definition EnumProcesses :: "(nat \<Rightarrow> u32 \<Rightarrow> (u32 \<times> u32 list) res) \<Rightarrow> u32 list res option" where
  "EnumProcesses call = enum_loop call 0 256"

record ProcessMemoryCountersEx =
  Cb :: u32
  PageFaultCount :: u32
  PeakWorkingSetSize :: u64
  WorkingSetSize :: u64
  QuotaPeakPagedPoolUsage :: u64
  QuotaPagedPoolUsage :: u64
  QuotaPeakNonPagedPoolUsage :: u64
  QuotaNonPagedPoolUsage :: u64
  PagefileUsage :: u64
  PeakPagefileUsage :: u64
  PrivateUsage :: u64

definition GetProcessMemoryInfo :: "(nat \<Rightarrow> u32 \<Rightarrow> ProcessMemoryCountersEx res) \<Rightarrow> nat \<Rightarrow> ProcessMemoryCountersEx res" where
  "GetProcessMemoryInfo call process = call process 80"

definition ImageNameFormatWin32Path :: u32 where "ImageNameFormatWin32Path = 0"
definition ImageNameFormatNTPath :: u32 where "ImageNameFormatNTPath = 1"

text \<open>The size is an argument and a result of the call.\<close>

partial_function (option) image_loop ::
  "(u32 \<Rightarrow> go_error option \<times> u16 list \<times> u32) \<Rightarrow> (u16 list \<Rightarrow> gostring) \<Rightarrow> u32 \<Rightarrow> gostring res option" where
  "image_loop call u16str bufferSize =
     (if bufferSize = 0 then Some (Panic ''index out of range'')
      else case call bufferSize of (err, xs, size') \<Rightarrow>
        if err = Some ERROR_INSUFFICIENT_BUFFER then image_loop call u16str (size' * 2)
        else if err \<noteq> None then Some (Err (the err))
        else Some (bind_res
          (slice (take (unat bufferSize) xs @ replicate (unat bufferSize - length xs) 0) 0 (unat size'))
          (\<lambda>b. Ok (u16str b))))"

definition QueryFullProcessImageName ::
  "(nat \<Rightarrow> u32 \<Rightarrow> u32 \<Rightarrow> go_error option \<times> u16 list \<times> u32) \<Rightarrow> (u16 list \<Rightarrow> gostring) \<Rightarrow> nat \<Rightarrow> u32 \<Rightarrow> gostring res option" where
  "QueryFullProcessImageName call u16str process flags = image_loop (call process flags) u16str 256"

section \<open>Errors and strings of COM\<close>

definition Win32FromHresult :: "u64 \<Rightarrow> u64" where
  "Win32FromHresult hr = (if hr AND 0x1fff0000 = 0x00070000 then hr AND 0xffff else hr)"

definition ConvertAndFreeCoTaskMemString :: "(u16 list \<Rightarrow> gostring) \<Rightarrow> nat \<times> u16 list \<Rightarrow> sec_state \<Rightarrow> gostring \<times> sec_state" where
  "ConvertAndFreeCoTaskMemString u16str = (\<lambda>(p, str) s. (u16str (take (2 ^ 29) str), s\<lparr>allocated := allocated s - {p}\<rparr>))"

definition FormatWritableLayerVHD :: "(nat \<Rightarrow> go_error option) \<Rightarrow> nat \<Rightarrow> unit res" where
  "FormatWritableLayerVHD call h =
     (case call h of None \<Rightarrow> Ok () | Some e \<Rightarrow> Err (ErrWrap ''failed to format writable layer vhd'' e))"

definition GetLayerVHDMountPath :: "(nat \<Rightarrow> (nat \<times> u16 list) res) \<Rightarrow> (u16 list \<Rightarrow> gostring) \<Rightarrow> nat \<Rightarrow> sec_state \<Rightarrow> gostring res \<times> sec_state" where
  "GetLayerVHDMountPath call u16str h s =
     (case call h of
        Err e \<Rightarrow> (Err (ErrWrap ''failed to get vhd mount path'' e), s)
      | Panic p \<Rightarrow> (Panic p, s)
      | Ok mountPath \<Rightarrow> (case ConvertAndFreeCoTaskMemString u16str mountPath (alloc (fst mountPath) s) of (path, s) \<Rightarrow> (Ok path, s)))"

section \<open>Layouts\<close>

lemma le_dec_halves: "(le_dec (le_enc 4 (l :: u32) @ le_enc 4 (h :: u32)) :: u64) = ucast l OR push_bit 32 (ucast h)"
proof (rule bit_word_eqI)
  fix k assume k: "k < LENGTH(64)"
  have d: "k div 8 < 4 \<longleftrightarrow> k < 32" "k div 8 < 8" using k by auto
  show "bit (le_dec (le_enc 4 l @ le_enc 4 h) :: u64) k = bit (ucast l OR push_bit 32 (ucast h) :: u64) k"
  proof (cases "k < 32")
    case True
    then have "bit (le_dec (le_enc 4 l @ le_enc 4 h) :: u64) k \<longleftrightarrow> bit l (8 * (k div 8) + k mod 8)"
      using k d by (simp add: bit_le_dec nth_append nth_le_enc bit_ucast_iff bit_drop_bit_eq)
    then show ?thesis using True k by (simp add: bit_or_iff bit_push_bit_iff bit_ucast_iff)
  next
    case False
    have e: "8 * (k div 8 - 4) + k mod 8 = k - 32" using False by presburger
    have "bit (le_dec (le_enc 4 l @ le_enc 4 h) :: u64) k \<longleftrightarrow> bit h (8 * (k div 8 - 4) + k mod 8)"
      using k d False by (simp add: bit_le_dec nth_append nth_le_enc bit_ucast_iff bit_drop_bit_eq)
    then show ?thesis unfolding e using False k by (auto simp: bit_or_iff bit_push_bit_iff bit_ucast_iff dest: bit_imp_le_length)
  qed
qed

lemma take_pieces: "take (m + n) xs = take m xs @ take n (drop m xs)"
  by (rule take_add)

interpretation ft: exact_codec ft_enc ft_dec 8 any_value
proof
  show "ft_enc (ft_dec b) = b" if "length b = 8" for b
    using that take_pieces [of 4 4 b] by (simp add: ft_enc_def ft_dec_def le32.enc_dec)
qed (simp_all add: ft_enc_def ft_dec_def)

lemma pieces_40:
  assumes "length b = 40"
  shows "take 8 b @ take 8 (drop 8 b) @ take 8 (drop 16 b) @ take 8 (drop 24 b) @ take 4 (drop 32 b) @ take 4 (drop 36 b) = b"
proof -
  have "drop n b = take m (drop n b) @ drop (n + m) b" for n m
    by (metis append_take_drop_id drop_drop add.commute)
  from this [of 0 8] this [of 8 8] this [of 16 8] this [of 24 8] this [of 32 4] this [of 36 4] assms
  show ?thesis by simp
qed

interpretation basic: exact_codec basic_enc basic_dec 40 any_value
proof
  show "basic_enc (basic_dec b) = b" if "length b = 40" for b
    using that pieces_40 [OF that] by (simp add: basic_enc_def basic_dec_def ft.enc_dec le32.enc_dec)
qed (simp_all add: basic_enc_def basic_dec_def ft.length_enc ft.dec_enc)

interpretation aligned: exact_codec aligned_enc aligned_dec 40 any_value
proof
  show "aligned_enc (aligned_dec b) = b" if "length b = 40" for b
    using that pieces_40 [OF that] by (simp add: aligned_enc_def aligned_dec_def le64.enc_dec le32.enc_dec)
qed (simp_all add: aligned_enc_def aligned_dec_def)

text \<open>
  Reading the information back that was set gives the same times and attributes: the two layouts
  of the structure agree byte for byte, and each 64-bit time is made of the two halves of its
  public form.
\<close>

theorem basic_info_roundtrip:
  assumes "\<And>c b n w. setinfo f c b n w = (Ok (), b)" and "\<And>w c n. length w = n \<Longrightarrow> get w f c n = Ok w"
  shows "\<exists>w'. SetFileBasicInfo setinfo f bi w = (Ok (), w') \<and> GetFileBasicInfo (get w') f = Ok bi \<and>
    al_CreationTime (aligned_dec (basic_enc bi)) =
      ucast (LowDateTime (bi_CreationTime bi)) OR push_bit 32 (ucast (HighDateTime (bi_CreationTime bi)))"
proof -
  let ?b = "aligned_enc (aligned_dec (basic_enc bi))"
  have b: "?b = basic_enc bi" using aligned.enc_dec basic.length_enc by simp
  have "get ?b f 0 40 = Ok ?b" using assms(2) [of ?b] aligned.length_enc by simp
  then have "GetFileBasicInfo (get ?b) f = Ok bi"
    by (simp add: GetFileBasicInfo_def b basic.dec_enc)
  moreover have "SetFileBasicInfo setinfo f bi w = (Ok (), ?b)" using assms(1) by (simp add: SetFileBasicInfo_def Let_def)
  moreover have "al_CreationTime (aligned_dec (basic_enc bi)) =
      ucast (LowDateTime (bi_CreationTime bi)) OR push_bit 32 (ucast (HighDateTime (bi_CreationTime bi)))"
  proof -
    have "take 8 (basic_enc bi) = le_enc 4 (LowDateTime (bi_CreationTime bi)) @ le_enc 4 (HighDateTime (bi_CreationTime bi))"
      by (simp add: basic_enc_def ft_enc_def)
    then show ?thesis by (simp add: aligned_dec_def le_dec_halves)
  qed
  ultimately show ?thesis by blast
qed

definition sample_basic :: file_basic_info where
  "sample_basic = (let t = \<lparr>LowDateTime = 5, HighDateTime = 7\<rparr> in \<lparr>bi_CreationTime = t, bi_LastAccessTime = t, bi_LastWriteTime = t,
     bi_ChangeTime = t, bi_FileAttributes = 32, bi_padding = 0\<rparr>)"

theorem basic_info_roundtrip_witness:
  "\<exists>w'. SetFileBasicInfo (\<lambda>f c b n w. (Ok (), b)) 3 sample_basic [] = (Ok (), w') \<and> GetFileBasicInfo (\<lambda>f c n. Ok w') 3 = Ok sample_basic"
  using basic_info_roundtrip [of "\<lambda>f c b n w. (Ok (), b)" 3 "\<lambda>w f c n. Ok w" sample_basic "[]"] by auto

section \<open>Growing buffers\<close>

text \<open>The documented behaviour of \<^verbatim>\<open>EnumProcesses\<close>: as many numbers as fit are written.\<close>

definition enumerates :: "u32 list \<Rightarrow> (nat \<Rightarrow> u32 \<Rightarrow> (u32 \<times> u32 list) res) \<Rightarrow> bool" where
  "enumerates pids call \<longleftrightarrow>
     (\<forall>i n. call i n = (let k = min (length pids) (unat n div 4) in Ok (of_nat (k * 4), take k pids)))"

lemma unat_of_nat_u32: "n < 2 ^ 32 \<Longrightarrow> unat (of_nat n :: u32) = n"
  using unat_of_nat_eq_iff [of n, where 'a = 32] by simp

lemma enum_loop_returns:
  assumes "enumerates pids call" and "length pids < 2 ^ 29" and "count \<le> max 256 (2 * length pids)" and "0 < count"
  shows "enum_loop call i count = Some (Ok pids)"
  using assms(3,4)
proof (induction "max 256 (2 * length pids) - count" arbitrary: i count rule: less_induct)
  case less
  define m where "m = length pids"
  have c: "count * 4 < 2 ^ 32" "count \<le> 2 ^ 30" using less.prems(1) assms(2) by simp_all
  have u: "unat (of_nat (count * 4) :: u32) = count * 4" by (rule unat_of_nat_u32 [OF c(1)])
  then have k: "call i (of_nat (count * 4)) = Ok (of_nat (min m count * 4), take (min m count) pids)"
    using assms(1) by (simp add: enumerates_def Let_def m_def)
  have r: "unat (of_nat (min m count * 4) :: u32) = min m count * 4" using c(1) by (intro unat_of_nat_u32) simp
  show ?case
  proof (cases "count \<le> m")
    case True
    then have "enum_loop call i count = enum_loop call (i + 1) (count * 2)"
      using k by (subst enum_loop.simps) (simp add: Let_def min_def)
    also have "\<dots> = Some (Ok pids)"
      using True less.prems by (intro less.hyps) (auto simp: m_def)
    finally show ?thesis .
  next
    case False
    have "(of_nat (min m count * 4) :: u32) \<noteq> of_nat (count * 4)"
      using False u r by (metis less_or_eq_imp_le linorder_not_le min_def mult_cancel2 zero_neq_numeral)
    moreover have "unat ((of_nat (min m count * 4) :: u32) div 4) = m"
      using False r by (simp add: unat_div min_def)
    ultimately show ?thesis using k False
      by (subst enum_loop.simps) (simp add: Let_def min_def slice_def m_def)
  qed
qed

text \<open>
  \<^verbatim>\<open>EnumProcesses\<close> returns the numbers of all processes, however many there are, as long as
  their bytes can be counted in 31 bits: a full buffer is never taken for the whole list.
\<close>

theorem enum_processes:
  assumes "enumerates pids call" and "length pids < 2 ^ 29"
  shows "EnumProcesses call = Some (Ok pids)"
  unfolding EnumProcesses_def by (rule enum_loop_returns [OF assms]) simp_all

theorem enum_processes_witness:
  "EnumProcesses (\<lambda>i n. let k = min (length (replicate 300 7)) (unat n div 4) in Ok (of_nat (k * 4), take k (replicate 300 7))) =
     Some (Ok (replicate 300 7))"
  by (rule enum_processes) (simp_all add: enumerates_def)

definition image_name :: "u16 list \<Rightarrow> (u32 \<Rightarrow> go_error option \<times> u16 list \<times> u32) \<Rightarrow> bool" where
  "image_name name call \<longleftrightarrow>
     (\<forall>n. call n = (if length name < unat n then (None, name @ [0], of_nat (length name)) else (Some ERROR_INSUFFICIENT_BUFFER, [], n)))"

lemma image_loop_returns:
  assumes "image_name name call" and "length name < 2 ^ 31" and "unat n \<le> max 256 (2 * length name)" and "0 < unat n"
  shows "image_loop call u16str n = Some (Ok (u16str name))"
  using assms(3,4)
proof (induction "max 256 (2 * length name) - unat n" arbitrary: n rule: less_induct)
  case less
  have n: "n \<noteq> 0" using less.prems(2) by auto
  show ?case
  proof (cases "length name < unat n")
    case True
    then have "call n = (None, name @ [0], of_nat (length name))" using assms(1) by (simp add: image_name_def)
    moreover have "unat (of_nat (length name) :: u32) = length name" using assms(2) by (intro unat_of_nat_u32) simp
    ultimately show ?thesis using n True by (subst image_loop.simps) (simp add: slice_def)
  next
    case False
    then have "call n = (Some ERROR_INSUFFICIENT_BUFFER, [], n)" using assms(1) by (simp add: image_name_def)
    then have "image_loop call u16str n = image_loop call u16str (n * 2)" using n by (subst image_loop.simps) simp
    also have "\<dots> = Some (Ok (u16str name))"
    proof (rule less.hyps)
      have "unat (n * 2) = unat n * 2" using False assms(2) by (simp add: unat_word_ariths(2))
      then show "max 256 (2 * length name) - unat (n * 2) < max 256 (2 * length name) - unat n"
        "unat (n * 2) \<le> max 256 (2 * length name)" "0 < unat (n * 2)"
        using False less.prems by simp_all
    qed
    finally show ?thesis .
  qed
qed

text \<open>The name of a process's image is returned in full, whatever its length.\<close>

lemma image_name_returned:
  assumes "image_name name (call process flags)" and "length name < 2 ^ 31"
  shows "QueryFullProcessImageName call u16str process flags = Some (Ok (u16str name))"
  unfolding QueryFullProcessImageName_def by (rule image_loop_returns [OF assms]) simp_all

section \<open>HRESULTs\<close>

text \<open>The code of a Win32 error is read back from its HRESULT, and other HRESULTs are kept.\<close>

lemma hresult_of_win32: "c AND 0xffff = c \<Longrightarrow> Win32FromHresult (0x80070000 OR c) = c"
proof -
  assume c: "c AND 0xffff = c"
  have "c AND 0x1fff0000 = (c AND 0xffff) AND 0x1fff0000" using c by simp
  also have "\<dots> = 0" by (simp add: and.assoc)
  finally have "(0x80070000 OR c) AND 0x1fff0000 = 0x70000" "(0x80070000 OR c) AND 0xffff = c"
    using c by (simp_all add: bit.conj_disj_distrib2)
  then show ?thesis by (simp add: Win32FromHresult_def)
qed

lemma mount_path_freed:
  "call h = Ok (p, str) \<Longrightarrow> p \<notin> allocated s \<Longrightarrow> GetLayerVHDMountPath call u16str h s = (Ok (u16str (take (2 ^ 29) str)), s)"
  by (simp add: GetLayerVHDMountPath_def ConvertAndFreeCoTaskMemString_def alloc_def)

end
