(* ===== verification/Win_Socket.thy ===== *)
theory Win_Socket
  imports Hvsock
begin

text \<open>
  The socket calls under the Hyper-V sockets (\<^verbatim>\<open>src/internal/socket/socket.go\<close>) and the timer
  between two attempts to dial (\<^verbatim>\<open>redialWait\<close> in \<^verbatim>\<open>src/hvsock.go\<close>). The address of
  \<^verbatim>\<open>ConnectEx\<close> is asked for once and kept; the timer is a step relation, because it may expire at
  any moment.
\<close>

section \<open>Addresses\<close>

text \<open>
  A \<^verbatim>\<open>RawSockaddr\<close> gives the system its memory and size, or an error. The calls get both and
  return their error and what they wrote.
\<close>

type_synonym raw_sockaddr = "(bytes \<times> nat) res"

definition Sockaddr :: "rawHvsockAddr \<Rightarrow> raw_sockaddr" where
  "Sockaddr r = Ok (raw_enc r, raw_size)"

definition sockaddr_error :: "go_error \<Rightarrow> go_error" where
  "sockaddr_error e = ErrWrap ''could not retrieve socket pointer and size'' e"

definition sock_GetSockName :: "(nat \<Rightarrow> bytes \<Rightarrow> nat \<Rightarrow> bytes res) \<Rightarrow> nat \<Rightarrow> raw_sockaddr \<Rightarrow> bytes res" where
  "sock_GetSockName getsockname s rsa = bind_res (map_err sockaddr_error rsa) (\<lambda>(ptr, l). getsockname s ptr l)"

definition sock_GetPeerName :: "(nat \<Rightarrow> bytes \<Rightarrow> nat \<Rightarrow> bytes res) \<Rightarrow> nat \<Rightarrow> raw_sockaddr \<Rightarrow> bytes res" where
  "sock_GetPeerName getpeername s rsa = bind_res (map_err sockaddr_error rsa) (\<lambda>(ptr, l). getpeername s ptr l)"

definition sock_Bind :: "(nat \<Rightarrow> bytes \<Rightarrow> nat \<Rightarrow> unit res) \<Rightarrow> nat \<Rightarrow> raw_sockaddr \<Rightarrow> unit res" where
  "sock_Bind bind s rsa = bind_res (map_err sockaddr_error rsa) (\<lambda>(ptr, l). bind s ptr l)"

section \<open>ConnectEx\<close>

record runtimeFunc =
  rf_id :: GUID
  rf_once :: bool
  rf_addr :: u64
  rf_err :: "go_error option"

definition WSAID_CONNECTEX :: GUID where
  "WSAID_CONNECTEX = \<lparr>Data1 = 0x25a207b9, Data2 = 0xddf3, Data3 = 0x4660, Data4 = [0x8e, 0xe9, 0x76, 0xe5, 0x8c, 0x74, 0x06, 0x3e]\<rparr>"

definition connectExFunc :: runtimeFunc where
  "connectExFunc = \<lparr>rf_id = WSAID_CONNECTEX, rf_once = False, rf_addr = 0, rf_err = None\<rparr>"

text \<open>\<open>ws_socket\<close> makes a TCP socket; \<open>ioctl\<close> asks for the address of a function by its identifier.\<close>

record load_system =
  ws_socket :: "nat res"
  ioctl :: "nat \<Rightarrow> bytes \<Rightarrow> go_error option \<times> u64"

definition Load :: "load_system \<Rightarrow> runtimeFunc \<Rightarrow> nat set \<Rightarrow> go_error option \<times> runtimeFunc \<times> nat set" where
  "Load sys f handles =
     (if rf_once f then (rf_err f, f, handles)
      else let f = f\<lparr>rf_once := True\<rparr> in
        case ws_socket sys of
          Ok s \<Rightarrow>
            (case ioctl sys s (ToWindowsArray (rf_id f)) of (err, a) \<Rightarrow>
             (err, f\<lparr>rf_addr := a, rf_err := err\<rparr>, insert s handles - {s}))
        | Err e \<Rightarrow> (Some e, f\<lparr>rf_err := Some e\<rparr>, handles)
        | Panic p \<Rightarrow> (None, f, handles))"

text \<open>The function at an address returns its result and the last error.\<close>

definition connectEx :: "(u64 \<Rightarrow> nat \<Rightarrow> bytes \<Rightarrow> nat \<Rightarrow> u64 \<times> u32) \<Rightarrow> runtimeFunc \<Rightarrow> nat \<Rightarrow> bytes \<Rightarrow> nat \<Rightarrow> go_error option" where
  "connectEx call f s name namelen =
     (case call (rf_addr f) s name namelen of (r1, e1) \<Rightarrow>
      if r1 = 0 then (if e1 \<noteq> 0 then Some (Errno e1) else Some EINVAL) else None)"

definition ConnectEx ::
  "load_system \<Rightarrow> (u64 \<Rightarrow> nat \<Rightarrow> bytes \<Rightarrow> nat \<Rightarrow> u64 \<times> u32) \<Rightarrow> nat \<Rightarrow> raw_sockaddr \<Rightarrow> runtimeFunc \<times> nat set \<Rightarrow>
   go_error option \<times> runtimeFunc \<times> nat set" where
  "ConnectEx sys call fd rsa = (\<lambda>(f, handles).
     case Load sys f handles of
       (Some e, st) \<Rightarrow> (Some (ErrWrap ''failed to load ConnectEx function pointer'' e), st)
     | (None, f, handles) \<Rightarrow>
         (case rsa of
            Ok (ptr, n) \<Rightarrow> (connectEx call f fd ptr n, f, handles)
          | Err e \<Rightarrow> (Some e, f, handles)
          | Panic p \<Rightarrow> (None, f, handles)))"

text \<open>
  The address of \<^verbatim>\<open>ConnectEx\<close> is loaded once, whether that succeeds or not: later calls do not
  ask the system and have the same outcome, and the socket for asking is closed. \<^verbatim>\<open>ConnectEx\<close>
  reports no error exactly when the function was loaded and it returned a result other than zero.
\<close>

theorem connectex_loaded_once:
  assumes "\<And>h. ws_socket sys = Ok h \<Longrightarrow> h \<notin> handles" and "Load sys f handles = (e, f', hs)"
    and "\<not> panics (ws_socket sys)" and "rf_once f \<or> rf_err f = None"
  shows "hs = handles \<and> Load sys' f' hs' = (e, f', hs') \<and>
    (fst (ConnectEx sys call fd (Sockaddr r) (f, handles)) = None \<longleftrightarrow>
       e = None \<and> fst (call (rf_addr f') fd (raw_enc r) raw_size) \<noteq> 0)"
proof -
  have "hs = handles" using assms(1,2) by (auto simp: Load_def Let_def split: if_splits res.splits prod.splits)
  moreover have "Load sys' f' hs' = (e, f', hs')"
    using assms(2-4) by (auto simp: Load_def Let_def split: if_splits res.splits prod.splits)
  moreover have "fst (ConnectEx sys call fd (Sockaddr r) (f, handles)) = None \<longleftrightarrow>
      e = None \<and> fst (call (rf_addr f') fd (raw_enc r) raw_size) \<noteq> 0"
    using assms(2) by (auto simp: ConnectEx_def Sockaddr_def connectEx_def split: option.splits prod.splits)
  ultimately show ?thesis by blast
qed

theorem connectex_loaded_once_witness:
  "\<exists>f'. Load \<lparr>ws_socket = Ok 3, ioctl = (\<lambda>_ _. (None, 77))\<rparr> connectExFunc {} = (None, f', {}) \<and> rf_addr f' = 77 \<and>
    Load \<lparr>ws_socket = Err EINVAL, ioctl = (\<lambda>_ _. (Some EINVAL, 0))\<rparr> f' {} = (None, f', {})"
proof -
  let ?sys = "\<lparr>ws_socket = Ok 3, ioctl = (\<lambda>_ _. (None, 77))\<rparr>"
  have "Load ?sys connectExFunc {} = (None, connectExFunc\<lparr>rf_once := True, rf_addr := 77, rf_err := None\<rparr>, {})"
    by (simp add: Load_def connectExFunc_def)
  from connectex_loaded_once [OF _ this, of "\<lparr>ws_socket = Err EINVAL, ioctl = (\<lambda>_ _. (Some EINVAL, 0))\<rparr>" "{}"] this
  show ?thesis by (auto simp: connectExFunc_def)
qed

section \<open>The timer between two attempts\<close>

text \<open>
  The dialer's timer runs or not, and its channel holds a tick or not. The dialer is outside of
  \<^verbatim>\<open>redialWait\<close>, in its \<^verbatim>\<open>select\<close>, about to stop the timer after the context was done, or
  draining the channel; \<open>ret\<close> is
  whether the last wait returned the context's error.
\<close>

datatype redial_pc = Outside | Selecting | Stopping | Draining

record redial =
  rt_made :: bool
  rt_running :: bool
  rt_tick :: bool
  ctx_done :: bool
  rd_pc :: redial_pc
  ret_err :: bool

inductive redial_step :: "bool \<Rightarrow> redial \<Rightarrow> redial \<Rightarrow> bool" for retryWait_zero where
  no_wait: "rd_pc d = Outside \<Longrightarrow> retryWait_zero \<Longrightarrow> redial_step retryWait_zero d (d\<lparr>ret_err := False\<rparr>)"
| new_timer: "rd_pc d = Outside \<Longrightarrow> \<not> retryWait_zero \<Longrightarrow> \<not> rt_made d \<Longrightarrow>
    redial_step retryWait_zero d (d\<lparr>rt_made := True, rt_running := True, rd_pc := Selecting\<rparr>)"
| reset_timer: "rd_pc d = Outside \<Longrightarrow> \<not> retryWait_zero \<Longrightarrow> rt_made d \<Longrightarrow>
    redial_step retryWait_zero d (d\<lparr>rt_running := True, rd_pc := Selecting\<rparr>)"
| expire: "rt_running d \<Longrightarrow> redial_step retryWait_zero d (d\<lparr>rt_running := False, rt_tick := True\<rparr>)"
| cancel: "redial_step retryWait_zero d (d\<lparr>ctx_done := True\<rparr>)"
| take_tick: "rd_pc d = Selecting \<Longrightarrow> rt_tick d \<Longrightarrow>
    redial_step retryWait_zero d (d\<lparr>rt_tick := False, rd_pc := Outside, ret_err := False\<rparr>)"
| take_done: "rd_pc d = Selecting \<Longrightarrow> ctx_done d \<Longrightarrow> redial_step retryWait_zero d (d\<lparr>rd_pc := Stopping\<rparr>)"
| stop_in_time: "rd_pc d = Stopping \<Longrightarrow> rt_running d \<Longrightarrow>
    redial_step retryWait_zero d (d\<lparr>rt_running := False, rd_pc := Outside, ret_err := True\<rparr>)"
| stop_too_late: "rd_pc d = Stopping \<Longrightarrow> \<not> rt_running d \<Longrightarrow>
    redial_step retryWait_zero d (d\<lparr>rd_pc := Draining\<rparr>)"
| drain: "rd_pc d = Draining \<Longrightarrow> rt_tick d \<Longrightarrow>
    redial_step retryWait_zero d (d\<lparr>rt_tick := False, rd_pc := Outside, ret_err := True\<rparr>)"

definition new_dialer :: redial where
  "new_dialer = \<lparr>rt_made = False, rt_running = False, rt_tick = False, ctx_done = False, rd_pc = Outside, ret_err = False\<rparr>"

definition redial_inv :: "redial \<Rightarrow> bool" where
  "redial_inv d \<longleftrightarrow>
     (case rd_pc d of
        Outside \<Rightarrow> \<not> rt_running d \<and> \<not> rt_tick d
      | Selecting \<Rightarrow> rt_made d \<and> rt_running d \<noteq> rt_tick d
      | Stopping \<Rightarrow> rt_made d \<and> rt_running d \<noteq> rt_tick d \<and> ctx_done d
      | Draining \<Rightarrow> rt_made d \<and> \<not> rt_running d \<and> rt_tick d \<and> ctx_done d) \<and> (ret_err d \<longrightarrow> ctx_done d)"

inductive_cases redial_stepE: "redial_step z d d'"

lemma redial_inv_step: "redial_step z d d' \<Longrightarrow> redial_inv d \<Longrightarrow> redial_inv d'"
  by (erule redial_stepE) (auto simp: redial_inv_def split: redial_pc.splits)

lemma redial_reach: "(redial_step z)\<^sup>*\<^sup>* new_dialer d \<Longrightarrow> redial_inv d"
proof (induction rule: rtranclp_induct)
  case base
  then show ?case by (simp add: redial_inv_def new_dialer_def)
next
  case (step d d')
  then show ?case by (blast intro: redial_inv_step)
qed

text \<open>
  However the timer and the context race, the timer is stopped and its channel empty between two
  waits, so that no wait ends early by an old tick; draining the channel never blocks, a dialer in
  \<^verbatim>\<open>select\<close> can always go on once its timer expires, and an error is only returned when the context
  is done.
\<close>

theorem redial_timer_clean:
  assumes "(redial_step z)\<^sup>*\<^sup>* new_dialer d"
  shows "(rd_pc d = Outside \<longrightarrow> \<not> rt_running d \<and> \<not> rt_tick d) \<and>
    (rd_pc d = Draining \<longrightarrow> (\<exists>d'. redial_step z d d' \<and> rd_pc d' = Outside)) \<and>
    (rd_pc d = Stopping \<longrightarrow> (\<exists>d'. redial_step z d d' \<and> rd_pc d' \<in> {Outside, Draining})) \<and>
    (rd_pc d = Selecting \<longrightarrow> (\<exists>d1 d2. (redial_step z)\<^sup>=\<^sup>= d d1 \<and> redial_step z d1 d2 \<and> rd_pc d2 = Outside)) \<and>
    (ret_err d \<longrightarrow> ctx_done d)"
proof -
  have i: "redial_inv d" by (rule redial_reach [OF assms])
  have "\<exists>d1 d2. (redial_step z)\<^sup>=\<^sup>= d d1 \<and> redial_step z d1 d2 \<and> rd_pc d2 = Outside" if s: "rd_pc d = Selecting"
  proof (cases "rt_tick d")
    case True
    then show ?thesis using take_tick [OF s, of z] by fastforce
  next
    case False
    let ?d = "d\<lparr>rt_running := False, rt_tick := True\<rparr>"
    have "rt_running d" using i s False by (simp add: redial_inv_def)
    from expire [OF this, of z] take_tick [of ?d z] s show ?thesis by fastforce
  qed
  moreover have "\<exists>d'. redial_step z d d' \<and> rd_pc d' = Outside" if "rd_pc d = Draining"
    using drain [OF that, of z] i that by (fastforce simp: redial_inv_def)
  moreover have "\<exists>d'. redial_step z d d' \<and> rd_pc d' \<in> {Outside, Draining}" if "rd_pc d = Stopping"
    using stop_in_time [OF that, of z] stop_too_late [OF that, of z] by (cases "rt_running d") fastforce+
  ultimately show ?thesis using i by (auto simp: redial_inv_def split: redial_pc.splits)
qed

theorem redial_timer_clean_witness:
  "\<exists>d. (redial_step False)\<^sup>*\<^sup>* new_dialer d \<and> rd_pc d = Draining \<and> (\<exists>d'. redial_step False d d' \<and> rd_pc d' = Outside)"
proof -
  let ?a = "new_dialer\<lparr>rt_made := True, rt_running := True, rd_pc := Selecting\<rparr>"
  let ?b = "?a\<lparr>rt_running := False, rt_tick := True\<rparr>"
  let ?c = "?b\<lparr>ctx_done := True\<rparr>"
  let ?s = "?c\<lparr>rd_pc := Stopping\<rparr>"
  let ?d = "?s\<lparr>rd_pc := Draining\<rparr>"
  have "redial_step False new_dialer ?a" by (rule new_timer) (simp_all add: new_dialer_def)
  moreover have "redial_step False ?a ?b" by (rule expire) simp
  moreover have "redial_step False ?b ?c" by (rule cancel)
  moreover have "redial_step False ?c ?s" by (rule take_done) simp_all
  moreover have "redial_step False ?s ?d" by (rule stop_too_late) simp_all
  ultimately have r: "(redial_step False)\<^sup>*\<^sup>* new_dialer ?d" by (meson converse_rtranclp_into_rtranclp rtranclp.rtrancl_refl)
  show ?thesis using redial_timer_clean [OF r] r by (intro exI [of _ ?d]) simp
qed

end
