(* ===== verification/Sys_Call.thy ===== *)
theory Sys_Call
  imports Mk_Code
begin

text \<open>
  What a generated system call does when it runs. The first part is what the generated files use of
  package \<^verbatim>\<open>syscall\<close>: procedures of DLLs that are found when they are first used, calls with a number of
  arguments, strings passed by address. The second part is the meaning of a declaration that
  \<^verbatim>\<open>tools/mkwinsyscall\<close> reads, as a function of the declaration: \<open>sys_meaning\<close> says which arguments the
  system gets and what its answer becomes. A \<^verbatim>\<open>uintptr\<close> has 64 bits.
\<close>

section \<open>The system\<close>

type_synonym uintptr = u64
type_synonym procedure = "string \<times> string"

text \<open>
  A procedure is the name of its DLL and its name there. \<open>Find\<close> is \<^verbatim>\<open>LazyProc.Find\<close>; \<open>trap\<close> calls a
  procedure and returns its result and the last error; \<open>InvalidHandle\<close> is \<^verbatim>\<open>windows.InvalidHandle\<close>; \<open>new_string\<close> stores a terminated copy of a
  string, in UTF-16 or as it is, and returns its address.
\<close>

record 's windows =
  Find :: "procedure \<Rightarrow> go_error option"
  trap :: "procedure \<Rightarrow> uintptr list \<Rightarrow> 's \<Rightarrow> (uintptr \<times> uintptr) \<times> 's"
  InvalidHandle :: uintptr
  new_string :: "bool \<Rightarrow> gostring \<Rightarrow> 's \<Rightarrow> uintptr \<times> 's"

text \<open>\<^verbatim>\<open>syscall.Errno\<close> is as wide as \<^verbatim>\<open>uintptr\<close>; the codes of the system have 32 bits.\<close>

definition errno_of :: "uintptr \<Rightarrow> go_error" where
  "errno_of r = (if unat r < 2 ^ 32 then Errno (ucast r) else ErrFmt ''errno'' [uint r])"

text \<open>
  \<^verbatim>\<open>LazyProc.Addr\<close> panics when the procedure is not there. \<open>nargs\<close> is the number of arguments; the
  others are padding.
\<close>

definition syscalln :: "'s windows \<Rightarrow> procedure \<Rightarrow> nat \<Rightarrow> uintptr list \<Rightarrow> 's \<Rightarrow> (uintptr \<times> uintptr) res \<times> 's" where
  "syscalln sys p nargs args s =
     (case Find sys p of
        Some e \<Rightarrow> (Panic ''LazyProc.Addr'', s)
      | None \<Rightarrow> (case trap sys p (take nargs args) s of (r, s) \<Rightarrow> (Ok r, s)))"

definition returning :: "('a \<Rightarrow> 'b) \<Rightarrow> 'a res \<times> 's \<Rightarrow> 'b res \<times> 's" where
  "returning g = (\<lambda>(r, s). (bind_res r (\<lambda>x. Ok (g x)), s))"

text \<open>\<^verbatim>\<open>UTF16PtrFromString\<close> and \<^verbatim>\<open>BytePtrFromString\<close> refuse a string that has a zero byte.\<close>

definition string_ptr :: "'s windows \<Rightarrow> bool \<Rightarrow> gostring \<Rightarrow> 's \<Rightarrow> (go_error + uintptr) \<times> 's" where
  "string_ptr sys wide str s =
     (if 0 \<in> set str then (Inl EINVAL, s) else (case new_string sys wide str s of (p, s) \<Rightarrow> (Inr p, s)))"

abbreviation UTF16PtrFromString :: "'s windows \<Rightarrow> gostring \<Rightarrow> 's \<Rightarrow> (go_error + uintptr) \<times> 's" where
  "UTF16PtrFromString sys \<equiv> string_ptr sys True"

text \<open>The rest of a function after the conversion of a string; \<open>fail\<close> is what it returns with an error.\<close>

definition with_string :: "(go_error + uintptr) \<times> 's \<Rightarrow> (go_error \<Rightarrow> 'a) \<Rightarrow> (uintptr \<Rightarrow> 's \<Rightarrow> 'a res \<times> 's) \<Rightarrow> 'a res \<times> 's" where
  "with_string c fail rest = (case c of (Inl e, s) \<Rightarrow> (Ok (fail e), s) | (Inr p, s) \<Rightarrow> rest p s)"

text \<open>The rest of a function after a look for a procedure that may be absent.\<close>

definition if_found :: "'s windows \<Rightarrow> procedure \<Rightarrow> (go_error \<Rightarrow> 'a) \<Rightarrow> ('s \<Rightarrow> 'a res \<times> 's) \<Rightarrow> 's \<Rightarrow> 'a res \<times> 's" where
  "if_found sys p fail rest s = (case Find sys p of Some e \<Rightarrow> (Ok (fail e), s) | None \<Rightarrow> rest s)"

section \<open>Errors\<close>

definition errnoErr :: "uintptr \<Rightarrow> go_error" where
  "errnoErr e = (if e = 0 then EINVAL else if e = 997 then Errno 997 else errno_of e)"

definition bool_arg :: "bool \<Rightarrow> uintptr" where
  "bool_arg b = ucast (if b then 1 else 0 :: u32)"

definition errno_result :: "uintptr \<Rightarrow> go_error option" where
  "errno_result r0 = (if r0 \<noteq> 0 then Some (errno_of r0) else None)"

definition hresult :: "uintptr \<Rightarrow> go_error option" where
  "hresult r0 =
     (if sint (ucast r0 :: u32) < 0
      then Some (errno_of (if r0 AND 0x1fff0000 = 0x00070000 then r0 AND 0xffff else r0))
      else None)"

section \<open>The meaning of a declaration\<close>

text \<open>
  Values of the parameters: a number, handle or pointer as it is passed, a boolean, a string, or a
  slice with the address of its first element and its length.
\<close>

datatype sysval = Word uintptr | Bool bool | Text gostring | Slice uintptr nat

definition slice_words :: "uintptr \<Rightarrow> nat \<Rightarrow> uintptr list" where
  "slice_words p n = [if 0 < n then p else 0, of_nat n]"

fun sysval_args :: "sysval \<Rightarrow> uintptr list" where
  "sysval_args (Word w) = [w]"
| "sysval_args (Bool b) = [bool_arg b]"
| "sysval_args (Text t) = []"
| "sysval_args (Slice p n) = slice_words p n"

text \<open>All strings are converted, in order, before anything else happens.\<close>

fun with_strings ::
  "'s windows \<Rightarrow> bool \<Rightarrow> sysval list \<Rightarrow> (go_error \<Rightarrow> 'a) \<Rightarrow> (sysval list \<Rightarrow> 's \<Rightarrow> 'a res \<times> 's) \<Rightarrow> 's \<Rightarrow> 'a res \<times> 's" where
  "with_strings sys wide [] fail rest = rest []"
| "with_strings sys wide (Text t # vs) fail rest =
     (\<lambda>s. with_string (string_ptr sys wide t s) fail (\<lambda>p. with_strings sys wide vs fail (\<lambda>vs. rest (Word p # vs))))"
| "with_strings sys wide (v # vs) fail rest = with_strings sys wide vs fail (\<lambda>vs. rest (v # vs))"

text \<open>
  The DLL, whose name is written with dashes if it is that of an API set; the condition under which a
  result means failure, with the values \<open>consts\<close> of the constants it names.
\<close>

definition procedure_of :: "Fn \<Rightarrow> procedure" where
  "procedure_of f =
     (let d = DLLName f @ ''.dll'' in
      (if has_prefix d ''api_'' \<or> has_prefix d ''ext_'' then map (\<lambda>c. if c = CHR ''_'' then CHR ''-'' else c) d else d,
       DLLFuncName f))"

definition failed :: "(string \<Rightarrow> uintptr) \<Rightarrow> string \<Rightarrow> uintptr \<Rightarrow> bool" where
  "failed consts cond v =
     (if cond = [] then v = 0
      else if has_prefix cond ''failretval=='' then v = consts (drop 12 cond)
      else cond = ''true'')"

text \<open>What becomes of the result and the last error: the value and the error that the function returns.\<close>

definition answer :: "(string \<Rightarrow> uintptr) \<Rightarrow> Rets \<Rightarrow> uintptr \<times> uintptr \<Rightarrow> uintptr \<times> go_error option" where
  "answer consts r = (\<lambda>(v, e).
     if ret_Type r = tError then (0, if ret_Name r = ''hr'' then hresult v else errno_result v)
     else (if ret_Name r = [] then 0 else v,
           if ReturnsError r \<and> failed consts (FailCond r) v then Some (errnoErr e) else None))"

definition sys_meaning ::
  "(string \<Rightarrow> uintptr) \<Rightarrow> 's windows \<Rightarrow> Fn \<Rightarrow> sysval list \<Rightarrow> 's \<Rightarrow> (uintptr \<times> go_error option) res \<times> 's" where
  "sys_meaning consts sys f vs =
     with_strings sys (IsUTF16 \<lparr>packageName = [], utf16 = True\<rparr> f) vs (\<lambda>e. (0, Some e)) (\<lambda>vs.
       let args = concat (map sysval_args vs);
           run = (\<lambda>s. returning (answer consts (fn_Rets f)) (syscalln sys (procedure_of f) (length args) args s))
       in if fnMaybeAbsent (fn_Rets f) then if_found sys (procedure_of f) (\<lambda>e. (0, Some e)) run else run)"

text \<open>The kind of value that a parameter of a declared type takes.\<close>

definition fits :: "Param \<Rightarrow> sysval \<Rightarrow> bool" where
  "fits p v \<longleftrightarrow>
     (case v of
        Text t \<Rightarrow> prm_Type p = tString
      | Bool b \<Rightarrow> prm_Type p = tBool
      | Slice a n \<Rightarrow> has_prefix (prm_Type p) ''[]''
      | Word w \<Rightarrow> prm_Type p \<noteq> tString \<and> prm_Type p \<noteq> tBool \<and> \<not> has_prefix (prm_Type p) ''[]'')"

definition line_meaning ::
  "(string \<Rightarrow> uintptr) \<Rightarrow> 's windows \<Rightarrow> string \<Rightarrow> sysval list \<Rightarrow> 's \<Rightarrow> (uintptr \<times> go_error option) res \<times> 's" where
  "line_meaning consts sys l vs s =
     (case newFn False l of
        Inl e \<Rightarrow> (Panic ''declaration'', s)
      | Inr f \<Rightarrow> if list_all2 fits (Params f) vs then sys_meaning consts sys f vs s else (Panic ''types'', s))"

section \<open>Comparing a function with its declaration\<close>

named_theorems sys_simps \<open>evaluation of a declaration\<close>
named_theorems sys_defs \<open>the procedures and the functions called with addresses\<close>

lemma returning_returning: "returning g (returning h m) = returning (\<lambda>x. g (h x)) m"
  by (cases m; cases "fst m") (auto simp: returning_def)

lemma returning_with_string:
  "returning g (with_string c fail rest) = with_string c (\<lambda>e. g (fail e)) (\<lambda>p s. returning g (rest p s))"
  by (auto simp: with_string_def returning_def split: prod.splits sum.splits)

lemma returning_if_found:
  "returning g (if_found sys p fail rest s) = if_found sys p (\<lambda>e. g (fail e)) (\<lambda>s. returning g (rest s)) s"
  by (auto simp: if_found_def returning_def split: option.splits)

lemma returning_syscall:
  assumes "\<And>r e. g (r, e) = h (r, e)" and "take n a = take m b"
  shows "returning g (syscalln sys p n a s) = returning h (syscalln sys p m b s)"
  using assms by (auto simp: returning_def syscalln_def split: option.splits prod.splits)

lemma with_string_cong:
  "(\<And>e. f e = f' e) \<Longrightarrow> (\<And>p s. r p s = r' p s) \<Longrightarrow> with_string c f r = with_string c f' r'"
  by (auto simp: with_string_def split: prod.splits sum.splits)

lemma if_found_cong:
  "(\<And>e. f e = f' e) \<Longrightarrow> (\<And>s. r s = r' s) \<Longrightarrow> if_found sys p f r s = if_found sys p f' r' s"
  by (auto simp: if_found_def split: option.splits)

lemmas sys_cong = with_string_cong if_found_cong returning_syscall

lemmas [sys_simps] = returning_returning returning_with_string returning_if_found
  line_meaning_def sys_meaning_def fits_def DLLName_def DLLFuncName_def procedure_of_def tString_def tBool_def tError_def
  has_prefix_def answer_def failed_def IsUTF16_def endsIn_def slice_words_def errno_result_def

section \<open>Strings that the system cannot get\<close>

text \<open>
  A string with a zero byte is refused before the system is called: the answer and the state do not
  depend on what the system would do.
\<close>

lemma zero_byte_no_call:
  assumes "Text t \<in> set vs" and "0 \<in> set t"
  shows "\<exists>s'. \<forall>h. sys_meaning consts (sys\<lparr>trap := h\<rparr>) f vs s = (Ok (0, Some EINVAL), s')"
proof -
  have "\<exists>s'. \<forall>h rest. with_strings (sys\<lparr>trap := h\<rparr>) w vs (\<lambda>e. (0 :: uintptr, Some e)) rest s = (Ok (0, Some EINVAL), s')" for w
    using assms(1)
  proof (induction vs arbitrary: s)
    case (Cons v vs)
    show ?case
    proof (cases v)
      case (Text u)
      obtain p s1 where n: "new_string sys w u s = (p, s1)" by force
      show ?thesis
      proof (cases "0 \<in> set u")
        case True
        then show ?thesis using Text by (simp add: with_string_def string_ptr_def)
      next
        case False
        then have "Text t \<in> set vs" using Cons.prems Text assms(2) by auto
        from Cons.IH [OF this, of s1] show ?thesis using False Text n
          by (auto simp: with_string_def string_ptr_def)
      qed
    qed (use Cons in simp_all, meson+)
  qed simp
  then obtain s' where
    "with_strings (sys\<lparr>trap := h\<rparr>) (IsUTF16 \<lparr>packageName = [], utf16 = True\<rparr> f) vs (\<lambda>e. (0 :: uintptr, Some e)) rest s = (Ok (0, Some EINVAL), s')"
    for h and rest by blast
  then show ?thesis unfolding sys_meaning_def by (intro exI [of _ s'] allI)
qed

end
