(* ===== verification/Zsyscall.thy ===== *)
theory Zsyscall
  imports Sys_Call
begin

text \<open>
  The generated file \<^verbatim>\<open>src/zsyscall_windows.go\<close>: the functions through which package \<^verbatim>\<open>winio\<close>
    calls the
  system, and the declarations that they were generated from. Each function does what its declaration
  means: it passes its parameters in order, with strings by address, booleans as numbers and slices
  with their lengths, to the named procedure, and returns what the declaration says.
\<close>

text \<open>The constants that fail conditions name.\<close>

definition socketError :: uintptr where "socketError = ucast (NOT 0 :: u32)"

definition sys_consts :: "'s windows \<Rightarrow> string \<Rightarrow> uintptr" where
  "sys_consts sys c =
     (if c = ''windows.InvalidHandle'' then InvalidHandle sys else if c = ''socketError'' then socketError else 0)"

section \<open>Package winio\<close>

definition procAdjustTokenPrivileges :: procedure where [sys_defs]: "procAdjustTokenPrivileges = (''advapi32.dll'', ''AdjustTokenPrivileges'')"
definition procConvertSidToStringSidW :: procedure where [sys_defs]: "procConvertSidToStringSidW = (''advapi32.dll'', ''ConvertSidToStringSidW'')"
definition procConvertStringSidToSidW :: procedure where [sys_defs]: "procConvertStringSidToSidW = (''advapi32.dll'', ''ConvertStringSidToSidW'')"
definition procImpersonateSelf :: procedure where [sys_defs]: "procImpersonateSelf = (''advapi32.dll'', ''ImpersonateSelf'')"
definition procLookupAccountNameW :: procedure where [sys_defs]: "procLookupAccountNameW = (''advapi32.dll'', ''LookupAccountNameW'')"
definition procLookupAccountSidW :: procedure where [sys_defs]: "procLookupAccountSidW = (''advapi32.dll'', ''LookupAccountSidW'')"
definition procLookupPrivilegeDisplayNameW :: procedure where [sys_defs]: "procLookupPrivilegeDisplayNameW = (''advapi32.dll'', ''LookupPrivilegeDisplayNameW'')"
definition procLookupPrivilegeNameW :: procedure where [sys_defs]: "procLookupPrivilegeNameW = (''advapi32.dll'', ''LookupPrivilegeNameW'')"
definition procLookupPrivilegeValueW :: procedure where [sys_defs]: "procLookupPrivilegeValueW = (''advapi32.dll'', ''LookupPrivilegeValueW'')"
definition procOpenThreadToken :: procedure where [sys_defs]: "procOpenThreadToken = (''advapi32.dll'', ''OpenThreadToken'')"
definition procRevertToSelf :: procedure where [sys_defs]: "procRevertToSelf = (''advapi32.dll'', ''RevertToSelf'')"
definition procBackupRead :: procedure where [sys_defs]: "procBackupRead = (''kernel32.dll'', ''BackupRead'')"
definition procBackupWrite :: procedure where [sys_defs]: "procBackupWrite = (''kernel32.dll'', ''BackupWrite'')"
definition procCancelIoEx :: procedure where [sys_defs]: "procCancelIoEx = (''kernel32.dll'', ''CancelIoEx'')"
definition procConnectNamedPipe :: procedure where [sys_defs]: "procConnectNamedPipe = (''kernel32.dll'', ''ConnectNamedPipe'')"
definition procCreateIoCompletionPort :: procedure where [sys_defs]: "procCreateIoCompletionPort = (''kernel32.dll'', ''CreateIoCompletionPort'')"
definition procCreateNamedPipeW :: procedure where [sys_defs]: "procCreateNamedPipeW = (''kernel32.dll'', ''CreateNamedPipeW'')"
definition procDisconnectNamedPipe :: procedure where [sys_defs]: "procDisconnectNamedPipe = (''kernel32.dll'', ''DisconnectNamedPipe'')"
definition procGetCurrentThread :: procedure where [sys_defs]: "procGetCurrentThread = (''kernel32.dll'', ''GetCurrentThread'')"
definition procGetNamedPipeHandleStateW :: procedure where [sys_defs]: "procGetNamedPipeHandleStateW = (''kernel32.dll'', ''GetNamedPipeHandleStateW'')"
definition procGetNamedPipeInfo :: procedure where [sys_defs]: "procGetNamedPipeInfo = (''kernel32.dll'', ''GetNamedPipeInfo'')"
definition procGetQueuedCompletionStatus :: procedure where [sys_defs]: "procGetQueuedCompletionStatus = (''kernel32.dll'', ''GetQueuedCompletionStatus'')"
definition procSetFileCompletionNotificationModes :: procedure where [sys_defs]: "procSetFileCompletionNotificationModes = (''kernel32.dll'', ''SetFileCompletionNotificationModes'')"
definition procNtCreateNamedPipeFile :: procedure where [sys_defs]: "procNtCreateNamedPipeFile = (''ntdll.dll'', ''NtCreateNamedPipeFile'')"
definition procRtlDefaultNpAcl :: procedure where [sys_defs]: "procRtlDefaultNpAcl = (''ntdll.dll'', ''RtlDefaultNpAcl'')"
definition procRtlDosPathNameToNtPathName_U :: procedure where [sys_defs]: "procRtlDosPathNameToNtPathName_U = (''ntdll.dll'', ''RtlDosPathNameToNtPathName_U'')"
definition procRtlNtStatusToDosErrorNoTeb :: procedure where [sys_defs]: "procRtlNtStatusToDosErrorNoTeb = (''ntdll.dll'', ''RtlNtStatusToDosErrorNoTeb'')"
definition procWSAGetOverlappedResult :: procedure where [sys_defs]: "procWSAGetOverlappedResult = (''ws2_32.dll'', ''WSAGetOverlappedResult'')"

definition lookupAccountName_ptr ::
  "'s windows \<Rightarrow> uintptr \<Rightarrow> uintptr \<Rightarrow> uintptr \<Rightarrow> uintptr \<Rightarrow> uintptr \<Rightarrow> uintptr \<Rightarrow> uintptr \<Rightarrow> 's \<Rightarrow> go_error option res \<times> 's"
    where
  [sys_defs]: "lookupAccountName_ptr sys systemName accountName sid sidSize refDomain refDomainSize sidNameUse s =
     returning (\<lambda>(r1, e1). if r1 = 0 then Some (errnoErr e1) else None)
       (syscalln sys procLookupAccountNameW 7 [systemName, accountName, sid, sidSize, refDomain, refDomainSize,
         sidNameUse, 0, 0] s)"

definition lookupPrivilegeDisplayName_ptr ::
  "'s windows \<Rightarrow> uintptr \<Rightarrow> uintptr \<Rightarrow> uintptr \<Rightarrow> uintptr \<Rightarrow> uintptr \<Rightarrow> 's \<Rightarrow> go_error option res \<times> 's" where
  [sys_defs]: "lookupPrivilegeDisplayName_ptr sys systemName name buffer bufsize languageId s =
     returning (\<lambda>(r1, e1). if r1 = 0 then Some (errnoErr e1) else None)
       (syscalln sys procLookupPrivilegeDisplayNameW 5 [systemName, name, buffer, bufsize, languageId, 0] s)"

definition lookupPrivilegeName_ptr ::
  "'s windows \<Rightarrow> uintptr \<Rightarrow> uintptr \<Rightarrow> uintptr \<Rightarrow> uintptr \<Rightarrow> 's \<Rightarrow> go_error option res \<times> 's" where
  [sys_defs]: "lookupPrivilegeName_ptr sys systemName luid buffer bufsize s =
     returning (\<lambda>(r1, e1). if r1 = 0 then Some (errnoErr e1) else None)
       (syscalln sys procLookupPrivilegeNameW 4 [systemName, luid, buffer, bufsize, 0, 0] s)"

definition lookupPrivilegeValue_ptr ::
  "'s windows \<Rightarrow> uintptr \<Rightarrow> uintptr \<Rightarrow> uintptr \<Rightarrow> 's \<Rightarrow> go_error option res \<times> 's" where
  [sys_defs]: "lookupPrivilegeValue_ptr sys systemName name luid s =
     returning (\<lambda>(r1, e1). if r1 = 0 then Some (errnoErr e1) else None)
       (syscalln sys procLookupPrivilegeValueW 3 [systemName, name, luid] s)"

definition createNamedPipe_ptr ::
  "'s windows \<Rightarrow> uintptr \<Rightarrow> u32 \<Rightarrow> u32 \<Rightarrow> u32 \<Rightarrow> u32 \<Rightarrow> u32 \<Rightarrow> u32 \<Rightarrow> uintptr \<Rightarrow> 's \<Rightarrow> (uintptr \<times> go_error option) res \<times> 's" where
  [sys_defs]: "createNamedPipe_ptr sys name flags pipeMode maxInstances outSize inSize defaultTimeout sa s =
     returning (\<lambda>(r0, e1). (r0, if r0 = InvalidHandle sys then Some (errnoErr e1) else None))
       (syscalln sys procCreateNamedPipeW 8 [name, ucast flags, ucast pipeMode, ucast maxInstances, ucast outSize,
         ucast inSize, ucast defaultTimeout, sa, 0] s)"

definition adjustTokenPrivileges ::
  "'s windows \<Rightarrow> uintptr \<Rightarrow> bool \<Rightarrow> uintptr \<Rightarrow> u32 \<Rightarrow> uintptr \<Rightarrow> uintptr \<Rightarrow> 's \<Rightarrow> (bool \<times> go_error option) res \<times> 's" where
  "adjustTokenPrivileges sys token releaseAll input outputSize output requiredSize s =
     returning (\<lambda>(r0, e1). (r0 \<noteq> 0, Some (errnoErr e1)))
       (syscalln sys procAdjustTokenPrivileges 6 [token, bool_arg releaseAll, input, ucast outputSize, output,
         requiredSize] s)"

definition convertSidToStringSid ::
  "'s windows \<Rightarrow> uintptr \<Rightarrow> uintptr \<Rightarrow> 's \<Rightarrow> go_error option res \<times> 's" where
  "convertSidToStringSid sys sid str s =
     returning (\<lambda>(r1, e1). if r1 = 0 then Some (errnoErr e1) else None)
       (syscalln sys procConvertSidToStringSidW 2 [sid, str, 0] s)"

definition convertStringSidToSid ::
  "'s windows \<Rightarrow> uintptr \<Rightarrow> uintptr \<Rightarrow> 's \<Rightarrow> go_error option res \<times> 's" where
  "convertStringSidToSid sys str sid s =
     returning (\<lambda>(r1, e1). if r1 = 0 then Some (errnoErr e1) else None)
       (syscalln sys procConvertStringSidToSidW 2 [str, sid, 0] s)"

definition impersonateSelf ::
  "'s windows \<Rightarrow> u32 \<Rightarrow> 's \<Rightarrow> go_error option res \<times> 's" where
  "impersonateSelf sys level s =
     returning (\<lambda>(r1, e1). if r1 = 0 then Some (errnoErr e1) else None)
       (syscalln sys procImpersonateSelf 1 [ucast level, 0, 0] s)"

definition lookupAccountName ::
  "'s windows \<Rightarrow> uintptr \<Rightarrow> gostring \<Rightarrow> uintptr \<Rightarrow> uintptr \<Rightarrow> uintptr \<Rightarrow> uintptr \<Rightarrow> uintptr \<Rightarrow> 's \<Rightarrow> go_error option res \<times>
    's" where
  "lookupAccountName sys systemName accountName sid sidSize refDomain refDomainSize sidNameUse s =
     with_string (UTF16PtrFromString sys accountName s) Some (\<lambda>p0 s.
       lookupAccountName_ptr sys systemName p0 sid sidSize refDomain refDomainSize sidNameUse s)"

definition lookupAccountSid ::
  "'s windows \<Rightarrow> uintptr \<Rightarrow> uintptr \<Rightarrow> uintptr \<Rightarrow> uintptr \<Rightarrow> uintptr \<Rightarrow> uintptr \<Rightarrow> uintptr \<Rightarrow> 's \<Rightarrow> go_error option res \<times> 's"
    where
  "lookupAccountSid sys systemName sid name nameSize refDomain refDomainSize sidNameUse s =
     returning (\<lambda>(r1, e1). if r1 = 0 then Some (errnoErr e1) else None)
       (syscalln sys procLookupAccountSidW 7 [systemName, sid, name, nameSize, refDomain, refDomainSize, sidNameUse,
         0, 0] s)"

definition lookupPrivilegeDisplayName ::
  "'s windows \<Rightarrow> gostring \<Rightarrow> uintptr \<Rightarrow> uintptr \<Rightarrow> uintptr \<Rightarrow> uintptr \<Rightarrow> 's \<Rightarrow> go_error option res \<times> 's" where
  "lookupPrivilegeDisplayName sys systemName name buffer bufsize languageId s =
     with_string (UTF16PtrFromString sys systemName s) Some (\<lambda>p0 s.
       lookupPrivilegeDisplayName_ptr sys p0 name buffer bufsize languageId s)"

definition lookupPrivilegeName ::
  "'s windows \<Rightarrow> gostring \<Rightarrow> uintptr \<Rightarrow> uintptr \<Rightarrow> uintptr \<Rightarrow> 's \<Rightarrow> go_error option res \<times> 's" where
  "lookupPrivilegeName sys systemName luid buffer bufsize s =
     with_string (UTF16PtrFromString sys systemName s) Some (\<lambda>p0 s.
       lookupPrivilegeName_ptr sys p0 luid buffer bufsize s)"

definition lookupPrivilegeValue ::
  "'s windows \<Rightarrow> gostring \<Rightarrow> gostring \<Rightarrow> uintptr \<Rightarrow> 's \<Rightarrow> go_error option res \<times> 's" where
  "lookupPrivilegeValue sys systemName name luid s =
     with_string (UTF16PtrFromString sys systemName s) Some (\<lambda>p0 s.
       with_string (UTF16PtrFromString sys name s) Some (\<lambda>p1 s.
         lookupPrivilegeValue_ptr sys p0 p1 luid s))"

definition openThreadToken ::
  "'s windows \<Rightarrow> uintptr \<Rightarrow> u32 \<Rightarrow> bool \<Rightarrow> uintptr \<Rightarrow> 's \<Rightarrow> go_error option res \<times> 's" where
  "openThreadToken sys thread accessMask openAsSelf token s =
     returning (\<lambda>(r1, e1). if r1 = 0 then Some (errnoErr e1) else None)
       (syscalln sys procOpenThreadToken 4 [thread, ucast accessMask, bool_arg openAsSelf, token, 0, 0] s)"

definition revertToSelf ::
  "'s windows \<Rightarrow> 's \<Rightarrow> go_error option res \<times> 's" where
  "revertToSelf sys s =
     returning (\<lambda>(r1, e1). if r1 = 0 then Some (errnoErr e1) else None)
       (syscalln sys procRevertToSelf 0 [0, 0, 0] s)"

definition backupRead ::
  "'s windows \<Rightarrow> uintptr \<Rightarrow> uintptr \<times> nat \<Rightarrow> uintptr \<Rightarrow> bool \<Rightarrow> bool \<Rightarrow> uintptr \<Rightarrow> 's \<Rightarrow> go_error option res \<times> 's" where
  "backupRead sys h b bytesRead aborts processSecurity ctx s =
     returning (\<lambda>(r1, e1). if r1 = 0 then Some (errnoErr e1) else None)
       (syscalln sys procBackupRead 7 [h, (if 0 < snd b then fst b else 0), of_nat (snd b), bytesRead, bool_arg
         aborts, bool_arg processSecurity, ctx, 0, 0] s)"

definition backupWrite ::
  "'s windows \<Rightarrow> uintptr \<Rightarrow> uintptr \<times> nat \<Rightarrow> uintptr \<Rightarrow> bool \<Rightarrow> bool \<Rightarrow> uintptr \<Rightarrow> 's \<Rightarrow> go_error option res \<times> 's" where
  "backupWrite sys h b bytesWritten aborts processSecurity ctx s =
     returning (\<lambda>(r1, e1). if r1 = 0 then Some (errnoErr e1) else None)
       (syscalln sys procBackupWrite 7 [h, (if 0 < snd b then fst b else 0), of_nat (snd b), bytesWritten, bool_arg
         aborts, bool_arg processSecurity, ctx, 0, 0] s)"

definition cancelIoEx ::
  "'s windows \<Rightarrow> uintptr \<Rightarrow> uintptr \<Rightarrow> 's \<Rightarrow> go_error option res \<times> 's" where
  "cancelIoEx sys hfile overlapped s =
     returning (\<lambda>(r1, e1). if r1 = 0 then Some (errnoErr e1) else None)
       (syscalln sys procCancelIoEx 2 [hfile, overlapped, 0] s)"

definition connectNamedPipe ::
  "'s windows \<Rightarrow> uintptr \<Rightarrow> uintptr \<Rightarrow> 's \<Rightarrow> go_error option res \<times> 's" where
  "connectNamedPipe sys pipe overlapped s =
     returning (\<lambda>(r1, e1). if r1 = 0 then Some (errnoErr e1) else None)
       (syscalln sys procConnectNamedPipe 2 [pipe, overlapped, 0] s)"

definition createIoCompletionPort ::
  "'s windows \<Rightarrow> uintptr \<Rightarrow> uintptr \<Rightarrow> uintptr \<Rightarrow> u32 \<Rightarrow> 's \<Rightarrow> (uintptr \<times> go_error option) res \<times> 's" where
  "createIoCompletionPort sys hfile port key threadCount s =
     returning (\<lambda>(r0, e1). (r0, if r0 = 0 then Some (errnoErr e1) else None))
       (syscalln sys procCreateIoCompletionPort 4 [hfile, port, key, ucast threadCount, 0, 0] s)"

definition createNamedPipe ::
  "'s windows \<Rightarrow> gostring \<Rightarrow> u32 \<Rightarrow> u32 \<Rightarrow> u32 \<Rightarrow> u32 \<Rightarrow> u32 \<Rightarrow> u32 \<Rightarrow> uintptr \<Rightarrow> 's \<Rightarrow> (uintptr \<times> go_error option) res \<times> 's"
    where
  "createNamedPipe sys name flags pipeMode maxInstances outSize inSize defaultTimeout sa s =
     with_string (UTF16PtrFromString sys name s) (\<lambda>e. (0, Some e)) (\<lambda>p0 s.
       createNamedPipe_ptr sys p0 flags pipeMode maxInstances outSize inSize defaultTimeout sa s)"

definition disconnectNamedPipe ::
  "'s windows \<Rightarrow> uintptr \<Rightarrow> 's \<Rightarrow> go_error option res \<times> 's" where
  "disconnectNamedPipe sys pipe s =
     returning (\<lambda>(r1, e1). if r1 = 0 then Some (errnoErr e1) else None)
       (syscalln sys procDisconnectNamedPipe 1 [pipe, 0, 0] s)"

definition getCurrentThread ::
  "'s windows \<Rightarrow> 's \<Rightarrow> uintptr res \<times> 's" where
  "getCurrentThread sys s =
     returning (\<lambda>(r0, _). r0)
       (syscalln sys procGetCurrentThread 0 [0, 0, 0] s)"

definition getNamedPipeHandleState ::
  "'s windows \<Rightarrow> uintptr \<Rightarrow> uintptr \<Rightarrow> uintptr \<Rightarrow> uintptr \<Rightarrow> uintptr \<Rightarrow> uintptr \<Rightarrow> u32 \<Rightarrow> 's \<Rightarrow> go_error option res \<times> 's" where
  "getNamedPipeHandleState sys pipe state curInstances maxCollectionCount collectDataTimeout userName
    maxUserNameSize s =
     returning (\<lambda>(r1, e1). if r1 = 0 then Some (errnoErr e1) else None)
       (syscalln sys procGetNamedPipeHandleStateW 7 [pipe, state, curInstances, maxCollectionCount,
         collectDataTimeout, userName, ucast maxUserNameSize, 0, 0] s)"

definition getNamedPipeInfo ::
  "'s windows \<Rightarrow> uintptr \<Rightarrow> uintptr \<Rightarrow> uintptr \<Rightarrow> uintptr \<Rightarrow> uintptr \<Rightarrow> 's \<Rightarrow> go_error option res \<times> 's" where
  "getNamedPipeInfo sys pipe flags outSize inSize maxInstances s =
     returning (\<lambda>(r1, e1). if r1 = 0 then Some (errnoErr e1) else None)
       (syscalln sys procGetNamedPipeInfo 5 [pipe, flags, outSize, inSize, maxInstances, 0] s)"

definition getQueuedCompletionStatus ::
  "'s windows \<Rightarrow> uintptr \<Rightarrow> uintptr \<Rightarrow> uintptr \<Rightarrow> uintptr \<Rightarrow> u32 \<Rightarrow> 's \<Rightarrow> go_error option res \<times> 's" where
  "getQueuedCompletionStatus sys port bytes key overlapped timeout s =
     returning (\<lambda>(r1, e1). if r1 = 0 then Some (errnoErr e1) else None)
       (syscalln sys procGetQueuedCompletionStatus 5 [port, bytes, key, overlapped, ucast timeout, 0] s)"

definition setFileCompletionNotificationModes ::
  "'s windows \<Rightarrow> uintptr \<Rightarrow> byte \<Rightarrow> 's \<Rightarrow> go_error option res \<times> 's" where
  "setFileCompletionNotificationModes sys h flags s =
     returning (\<lambda>(r1, e1). if r1 = 0 then Some (errnoErr e1) else None)
       (syscalln sys procSetFileCompletionNotificationModes 2 [h, ucast flags, 0] s)"

definition ntCreateNamedPipeFile ::
  "'s windows \<Rightarrow> uintptr \<Rightarrow> u32 \<Rightarrow> uintptr \<Rightarrow> uintptr \<Rightarrow> u32 \<Rightarrow> u32 \<Rightarrow> u32 \<Rightarrow> u32 \<Rightarrow> u32 \<Rightarrow> u32 \<Rightarrow> u32 \<Rightarrow> u32 \<Rightarrow> u32 \<Rightarrow> uintptr \<Rightarrow>
    's \<Rightarrow> u32 res \<times> 's" where
  "ntCreateNamedPipeFile sys pipe access oa iosb share disposition options ptype readMode completionMode
    maxInstances inboundQuota outputQuota timeout s =
     returning (\<lambda>(r0, _). ucast r0)
       (syscalln sys procNtCreateNamedPipeFile 14 [pipe, ucast access, oa, iosb, ucast share, ucast disposition,
         ucast options, ucast ptype, ucast readMode, ucast completionMode, ucast maxInstances, ucast inboundQuota,
         ucast outputQuota, timeout, 0] s)"

definition rtlDefaultNpAcl ::
  "'s windows \<Rightarrow> uintptr \<Rightarrow> 's \<Rightarrow> u32 res \<times> 's" where
  "rtlDefaultNpAcl sys dacl s =
     returning (\<lambda>(r0, _). ucast r0)
       (syscalln sys procRtlDefaultNpAcl 1 [dacl, 0, 0] s)"

definition rtlDosPathNameToNtPathName ::
  "'s windows \<Rightarrow> uintptr \<Rightarrow> uintptr \<Rightarrow> uintptr \<Rightarrow> uintptr \<Rightarrow> 's \<Rightarrow> u32 res \<times> 's" where
  "rtlDosPathNameToNtPathName sys name ntName filePart reserved s =
     returning (\<lambda>(r0, _). ucast r0)
       (syscalln sys procRtlDosPathNameToNtPathName_U 4 [name, ntName, filePart, reserved, 0, 0] s)"

definition rtlNtStatusToDosError ::
  "'s windows \<Rightarrow> u32 \<Rightarrow> 's \<Rightarrow> go_error option res \<times> 's" where
  "rtlNtStatusToDosError sys status s =
     returning (\<lambda>(r0, _). if r0 \<noteq> 0 then Some (errno_of r0) else None)
       (syscalln sys procRtlNtStatusToDosErrorNoTeb 1 [scast status, 0, 0] s)"

definition wsaGetOverlappedResult ::
  "'s windows \<Rightarrow> uintptr \<Rightarrow> uintptr \<Rightarrow> uintptr \<Rightarrow> bool \<Rightarrow> uintptr \<Rightarrow> 's \<Rightarrow> go_error option res \<times> 's" where
  "wsaGetOverlappedResult sys h overlapped bytes wait flags s =
     returning (\<lambda>(r1, e1). if r1 = 0 then Some (errnoErr e1) else None)
       (syscalln sys procWSAGetOverlappedResult 5 [h, overlapped, bytes, bool_arg wait, flags, 0] s)"

subsection \<open>Declarations\<close>

definition sys_adjustTokenPrivileges :: string where
  "sys_adjustTokenPrivileges =
    '' adjustTokenPrivileges(token windows.Token, releaseAll bool, input *byte, outputSize uint32, output '' @
    ''*byte, requiredSize *uint32) (success bool, err error) [true] = advapi32.AdjustTokenPrivileges''"

definition sys_convertSidToStringSid :: string where
  "sys_convertSidToStringSid =
    '' convertSidToStringSid(sid *byte, str **uint16) (err error) = advapi32.ConvertSidToStringSidW''"

definition sys_convertStringSidToSid :: string where
  "sys_convertStringSidToSid =
    '' convertStringSidToSid(str *uint16, sid **byte) (err error) = advapi32.ConvertStringSidToSidW''"

definition sys_impersonateSelf :: string where
  "sys_impersonateSelf =
    '' impersonateSelf(level uint32) (err error) = advapi32.ImpersonateSelf''"

definition sys_lookupAccountName :: string where
  "sys_lookupAccountName =
    '' lookupAccountName(systemName *uint16, accountName string, sid *byte, sidSize *uint32, refDomain '' @
    ''*uint16, refDomainSize *uint32, sidNameUse *uint32) (err error) = advapi32.LookupAccountNameW''"

definition sys_lookupAccountSid :: string where
  "sys_lookupAccountSid =
    '' lookupAccountSid(systemName *uint16, sid *byte, name *uint16, nameSize *uint32, refDomain *uint16, '' @
    ''refDomainSize *uint32, sidNameUse *uint32) (err error) = advapi32.LookupAccountSidW''"

definition sys_lookupPrivilegeDisplayName :: string where
  "sys_lookupPrivilegeDisplayName =
    '' lookupPrivilegeDisplayName(systemName string, name *uint16, buffer *uint16, size *uint32, '' @
    ''languageId *uint32) (err error) = advapi32.LookupPrivilegeDisplayNameW''"

definition sys_lookupPrivilegeName :: string where
  "sys_lookupPrivilegeName =
    '' lookupPrivilegeName(systemName string, luid *uint64, buffer *uint16, size *uint32) (err error) = '' @
    ''advapi32.LookupPrivilegeNameW''"

definition sys_lookupPrivilegeValue :: string where
  "sys_lookupPrivilegeValue =
    '' lookupPrivilegeValue(systemName string, name string, luid *uint64) (err error) = '' @
    ''advapi32.LookupPrivilegeValueW''"

definition sys_openThreadToken :: string where
  "sys_openThreadToken =
    '' openThreadToken(thread windows.Handle, accessMask uint32, openAsSelf bool, token *windows.Token) '' @
    ''(err error) = advapi32.OpenThreadToken''"

definition sys_revertToSelf :: string where
  "sys_revertToSelf =
    '' revertToSelf() (err error) = advapi32.RevertToSelf''"

definition sys_backupRead :: string where
  "sys_backupRead =
    '' backupRead(h windows.Handle, b []byte, bytesRead *uint32, abort bool, processSecurity bool, context'' @
    '' *uintptr) (err error) = BackupRead''"

definition sys_backupWrite :: string where
  "sys_backupWrite =
    '' backupWrite(h windows.Handle, b []byte, bytesWritten *uint32, abort bool, processSecurity bool, '' @
    ''context *uintptr) (err error) = BackupWrite''"

definition sys_cancelIoEx :: string where
  "sys_cancelIoEx =
    '' cancelIoEx(file windows.Handle, o *windows.Overlapped) (err error) = CancelIoEx''"

definition sys_connectNamedPipe :: string where
  "sys_connectNamedPipe =
    '' connectNamedPipe(pipe windows.Handle, o *windows.Overlapped) (err error) = ConnectNamedPipe''"

definition sys_createIoCompletionPort :: string where
  "sys_createIoCompletionPort =
    '' createIoCompletionPort(file windows.Handle, port windows.Handle, key uintptr, threadCount uint32) '' @
    ''(newport windows.Handle, err error) = CreateIoCompletionPort''"

definition sys_createNamedPipe :: string where
  "sys_createNamedPipe =
    '' createNamedPipe(name string, flags uint32, pipeMode uint32, maxInstances uint32, outSize uint32, '' @
    ''inSize uint32, defaultTimeout uint32, sa *windows.SecurityAttributes) (handle windows.Handle, err '' @
    ''error)  [failretval==windows.InvalidHandle] = CreateNamedPipeW''"

definition sys_disconnectNamedPipe :: string where
  "sys_disconnectNamedPipe =
    '' disconnectNamedPipe(pipe windows.Handle) (err error) = DisconnectNamedPipe''"

definition sys_getCurrentThread :: string where
  "sys_getCurrentThread =
    '' getCurrentThread() (h windows.Handle) = GetCurrentThread''"

definition sys_getNamedPipeHandleState :: string where
  "sys_getNamedPipeHandleState =
    '' getNamedPipeHandleState(pipe windows.Handle, state *uint32, curInstances *uint32, '' @
    ''maxCollectionCount *uint32, collectDataTimeout *uint32, userName *uint16, maxUserNameSize uint32) '' @
    ''(err error) = GetNamedPipeHandleStateW''"

definition sys_getNamedPipeInfo :: string where
  "sys_getNamedPipeInfo =
    '' getNamedPipeInfo(pipe windows.Handle, flags *uint32, outSize *uint32, inSize *uint32, maxInstances '' @
    ''*uint32) (err error) = GetNamedPipeInfo''"

definition sys_getQueuedCompletionStatus :: string where
  "sys_getQueuedCompletionStatus =
    '' getQueuedCompletionStatus(port windows.Handle, bytes *uint32, key *uintptr, o **ioOperation, '' @
    ''timeout uint32) (err error) = GetQueuedCompletionStatus''"

definition sys_setFileCompletionNotificationModes :: string where
  "sys_setFileCompletionNotificationModes =
    '' setFileCompletionNotificationModes(h windows.Handle, flags uint8) (err error) = '' @
    ''SetFileCompletionNotificationModes''"

definition sys_ntCreateNamedPipeFile :: string where
  "sys_ntCreateNamedPipeFile =
    '' ntCreateNamedPipeFile(pipe *windows.Handle, access ntAccessMask, oa *objectAttributes, iosb '' @
    ''*ioStatusBlock, share ntFileShareMode, disposition ntFileCreationDisposition, options ntFileOptions,'' @
    '' typ uint32, readMode uint32, completionMode uint32, maxInstances uint32, inboundQuota uint32, '' @
    ''outputQuota uint32, timeout *int64) (status ntStatus) = ntdll.NtCreateNamedPipeFile''"

definition sys_rtlDefaultNpAcl :: string where
  "sys_rtlDefaultNpAcl =
    '' rtlDefaultNpAcl(dacl *uintptr) (status ntStatus) = ntdll.RtlDefaultNpAcl''"

definition sys_rtlDosPathNameToNtPathName :: string where
  "sys_rtlDosPathNameToNtPathName =
    '' rtlDosPathNameToNtPathName(name *uint16, ntName *unicodeString, filePart uintptr, reserved uintptr)'' @
    '' (status ntStatus) = ntdll.RtlDosPathNameToNtPathName_U''"

definition sys_rtlNtStatusToDosError :: string where
  "sys_rtlNtStatusToDosError =
    '' rtlNtStatusToDosError(status ntStatus) (winerr error) = ntdll.RtlNtStatusToDosErrorNoTeb''"

definition sys_wsaGetOverlappedResult :: string where
  "sys_wsaGetOverlappedResult =
    '' wsaGetOverlappedResult(h windows.Handle, o *windows.Overlapped, bytes *uint32, wait bool, flags '' @
    ''*uint32) (err error) = ws2_32.WSAGetOverlappedResult''"

lemma parse_adjustTokenPrivileges:
  "newFn False sys_adjustTokenPrivileges = Inr
    \<lparr>fn_Name = ''adjustTokenPrivileges'',
     Params = [\<lparr>prm_Name = ''token'', prm_Type = ''windows.Token'', tmpVarIdx = -1\<rparr>,
       \<lparr>prm_Name = ''releaseAll'', prm_Type = ''bool'', tmpVarIdx = -1\<rparr>,
       \<lparr>prm_Name = ''input'', prm_Type = ''*byte'', tmpVarIdx = -1\<rparr>,
       \<lparr>prm_Name = ''outputSize'', prm_Type = ''uint32'', tmpVarIdx = -1\<rparr>,
       \<lparr>prm_Name = ''output'', prm_Type = ''*byte'', tmpVarIdx = -1\<rparr>,
       \<lparr>prm_Name = ''requiredSize'', prm_Type = ''*uint32'', tmpVarIdx = -1\<rparr>],
     fn_Rets = \<lparr>ret_Name = ''success'', ret_Type = ''bool'', ReturnsError = True, FailCond = ''true'', fnMaybeAbsent = False\<rparr>,
     PrintTrace = False, dllname = ''advapi32'', dllfuncname = ''AdjustTokenPrivileges'', fn_src = trim sys_adjustTokenPrivileges, curTmpVarIdx = 0\<rparr>"
  by code_simp

lemma parse_convertSidToStringSid:
  "newFn False sys_convertSidToStringSid = Inr
    \<lparr>fn_Name = ''convertSidToStringSid'',
     Params = [\<lparr>prm_Name = ''sid'', prm_Type = ''*byte'', tmpVarIdx = -1\<rparr>,
       \<lparr>prm_Name = ''str'', prm_Type = ''**uint16'', tmpVarIdx = -1\<rparr>],
     fn_Rets = \<lparr>ret_Name = [], ret_Type = [], ReturnsError = True, FailCond = [], fnMaybeAbsent = False\<rparr>,
     PrintTrace = False, dllname = ''advapi32'', dllfuncname = ''ConvertSidToStringSidW'', fn_src = trim sys_convertSidToStringSid, curTmpVarIdx = 0\<rparr>"
  by code_simp

lemma parse_convertStringSidToSid:
  "newFn False sys_convertStringSidToSid = Inr
    \<lparr>fn_Name = ''convertStringSidToSid'',
     Params = [\<lparr>prm_Name = ''str'', prm_Type = ''*uint16'', tmpVarIdx = -1\<rparr>,
       \<lparr>prm_Name = ''sid'', prm_Type = ''**byte'', tmpVarIdx = -1\<rparr>],
     fn_Rets = \<lparr>ret_Name = [], ret_Type = [], ReturnsError = True, FailCond = [], fnMaybeAbsent = False\<rparr>,
     PrintTrace = False, dllname = ''advapi32'', dllfuncname = ''ConvertStringSidToSidW'', fn_src = trim sys_convertStringSidToSid, curTmpVarIdx = 0\<rparr>"
  by code_simp

lemma parse_impersonateSelf:
  "newFn False sys_impersonateSelf = Inr
    \<lparr>fn_Name = ''impersonateSelf'',
     Params = [\<lparr>prm_Name = ''level'', prm_Type = ''uint32'', tmpVarIdx = -1\<rparr>],
     fn_Rets = \<lparr>ret_Name = [], ret_Type = [], ReturnsError = True, FailCond = [], fnMaybeAbsent = False\<rparr>,
     PrintTrace = False, dllname = ''advapi32'', dllfuncname = ''ImpersonateSelf'', fn_src = trim sys_impersonateSelf, curTmpVarIdx = 0\<rparr>"
  by code_simp

lemma parse_lookupAccountName:
  "newFn False sys_lookupAccountName = Inr
    \<lparr>fn_Name = ''lookupAccountName'',
     Params = [\<lparr>prm_Name = ''systemName'', prm_Type = ''*uint16'', tmpVarIdx = -1\<rparr>,
       \<lparr>prm_Name = ''accountName'', prm_Type = ''string'', tmpVarIdx = -1\<rparr>,
       \<lparr>prm_Name = ''sid'', prm_Type = ''*byte'', tmpVarIdx = -1\<rparr>,
       \<lparr>prm_Name = ''sidSize'', prm_Type = ''*uint32'', tmpVarIdx = -1\<rparr>,
       \<lparr>prm_Name = ''refDomain'', prm_Type = ''*uint16'', tmpVarIdx = -1\<rparr>,
       \<lparr>prm_Name = ''refDomainSize'', prm_Type = ''*uint32'', tmpVarIdx = -1\<rparr>,
       \<lparr>prm_Name = ''sidNameUse'', prm_Type = ''*uint32'', tmpVarIdx = -1\<rparr>],
     fn_Rets = \<lparr>ret_Name = [], ret_Type = [], ReturnsError = True, FailCond = [], fnMaybeAbsent = False\<rparr>,
     PrintTrace = False, dllname = ''advapi32'', dllfuncname = ''LookupAccountNameW'', fn_src = trim sys_lookupAccountName, curTmpVarIdx = 0\<rparr>"
  by code_simp

lemma parse_lookupAccountSid:
  "newFn False sys_lookupAccountSid = Inr
    \<lparr>fn_Name = ''lookupAccountSid'',
     Params = [\<lparr>prm_Name = ''systemName'', prm_Type = ''*uint16'', tmpVarIdx = -1\<rparr>,
       \<lparr>prm_Name = ''sid'', prm_Type = ''*byte'', tmpVarIdx = -1\<rparr>,
       \<lparr>prm_Name = ''name'', prm_Type = ''*uint16'', tmpVarIdx = -1\<rparr>,
       \<lparr>prm_Name = ''nameSize'', prm_Type = ''*uint32'', tmpVarIdx = -1\<rparr>,
       \<lparr>prm_Name = ''refDomain'', prm_Type = ''*uint16'', tmpVarIdx = -1\<rparr>,
       \<lparr>prm_Name = ''refDomainSize'', prm_Type = ''*uint32'', tmpVarIdx = -1\<rparr>,
       \<lparr>prm_Name = ''sidNameUse'', prm_Type = ''*uint32'', tmpVarIdx = -1\<rparr>],
     fn_Rets = \<lparr>ret_Name = [], ret_Type = [], ReturnsError = True, FailCond = [], fnMaybeAbsent = False\<rparr>,
     PrintTrace = False, dllname = ''advapi32'', dllfuncname = ''LookupAccountSidW'', fn_src = trim sys_lookupAccountSid, curTmpVarIdx = 0\<rparr>"
  by code_simp

lemma parse_lookupPrivilegeDisplayName:
  "newFn False sys_lookupPrivilegeDisplayName = Inr
    \<lparr>fn_Name = ''lookupPrivilegeDisplayName'',
     Params = [\<lparr>prm_Name = ''systemName'', prm_Type = ''string'', tmpVarIdx = -1\<rparr>,
       \<lparr>prm_Name = ''name'', prm_Type = ''*uint16'', tmpVarIdx = -1\<rparr>,
       \<lparr>prm_Name = ''buffer'', prm_Type = ''*uint16'', tmpVarIdx = -1\<rparr>,
       \<lparr>prm_Name = ''size'', prm_Type = ''*uint32'', tmpVarIdx = -1\<rparr>,
       \<lparr>prm_Name = ''languageId'', prm_Type = ''*uint32'', tmpVarIdx = -1\<rparr>],
     fn_Rets = \<lparr>ret_Name = [], ret_Type = [], ReturnsError = True, FailCond = [], fnMaybeAbsent = False\<rparr>,
     PrintTrace = False, dllname = ''advapi32'', dllfuncname = ''LookupPrivilegeDisplayNameW'', fn_src = trim sys_lookupPrivilegeDisplayName, curTmpVarIdx = 0\<rparr>"
  by code_simp

lemma parse_lookupPrivilegeName:
  "newFn False sys_lookupPrivilegeName = Inr
    \<lparr>fn_Name = ''lookupPrivilegeName'',
     Params = [\<lparr>prm_Name = ''systemName'', prm_Type = ''string'', tmpVarIdx = -1\<rparr>,
       \<lparr>prm_Name = ''luid'', prm_Type = ''*uint64'', tmpVarIdx = -1\<rparr>,
       \<lparr>prm_Name = ''buffer'', prm_Type = ''*uint16'', tmpVarIdx = -1\<rparr>,
       \<lparr>prm_Name = ''size'', prm_Type = ''*uint32'', tmpVarIdx = -1\<rparr>],
     fn_Rets = \<lparr>ret_Name = [], ret_Type = [], ReturnsError = True, FailCond = [], fnMaybeAbsent = False\<rparr>,
     PrintTrace = False, dllname = ''advapi32'', dllfuncname = ''LookupPrivilegeNameW'', fn_src = trim sys_lookupPrivilegeName, curTmpVarIdx = 0\<rparr>"
  by code_simp

lemma parse_lookupPrivilegeValue:
  "newFn False sys_lookupPrivilegeValue = Inr
    \<lparr>fn_Name = ''lookupPrivilegeValue'',
     Params = [\<lparr>prm_Name = ''systemName'', prm_Type = ''string'', tmpVarIdx = -1\<rparr>,
       \<lparr>prm_Name = ''name'', prm_Type = ''string'', tmpVarIdx = -1\<rparr>,
       \<lparr>prm_Name = ''luid'', prm_Type = ''*uint64'', tmpVarIdx = -1\<rparr>],
     fn_Rets = \<lparr>ret_Name = [], ret_Type = [], ReturnsError = True, FailCond = [], fnMaybeAbsent = False\<rparr>,
     PrintTrace = False, dllname = ''advapi32'', dllfuncname = ''LookupPrivilegeValueW'', fn_src = trim sys_lookupPrivilegeValue, curTmpVarIdx = 0\<rparr>"
  by code_simp

lemma parse_openThreadToken:
  "newFn False sys_openThreadToken = Inr
    \<lparr>fn_Name = ''openThreadToken'',
     Params = [\<lparr>prm_Name = ''thread'', prm_Type = ''windows.Handle'', tmpVarIdx = -1\<rparr>,
       \<lparr>prm_Name = ''accessMask'', prm_Type = ''uint32'', tmpVarIdx = -1\<rparr>,
       \<lparr>prm_Name = ''openAsSelf'', prm_Type = ''bool'', tmpVarIdx = -1\<rparr>,
       \<lparr>prm_Name = ''token'', prm_Type = ''*windows.Token'', tmpVarIdx = -1\<rparr>],
     fn_Rets = \<lparr>ret_Name = [], ret_Type = [], ReturnsError = True, FailCond = [], fnMaybeAbsent = False\<rparr>,
     PrintTrace = False, dllname = ''advapi32'', dllfuncname = ''OpenThreadToken'', fn_src = trim sys_openThreadToken, curTmpVarIdx = 0\<rparr>"
  by code_simp

lemma parse_revertToSelf:
  "newFn False sys_revertToSelf = Inr
    \<lparr>fn_Name = ''revertToSelf'',
     Params = [],
     fn_Rets = \<lparr>ret_Name = [], ret_Type = [], ReturnsError = True, FailCond = [], fnMaybeAbsent = False\<rparr>,
     PrintTrace = False, dllname = ''advapi32'', dllfuncname = ''RevertToSelf'', fn_src = trim sys_revertToSelf, curTmpVarIdx = 0\<rparr>"
  by code_simp

lemma parse_backupRead:
  "newFn False sys_backupRead = Inr
    \<lparr>fn_Name = ''backupRead'',
     Params = [\<lparr>prm_Name = ''h'', prm_Type = ''windows.Handle'', tmpVarIdx = -1\<rparr>,
       \<lparr>prm_Name = ''b'', prm_Type = ''[]byte'', tmpVarIdx = -1\<rparr>,
       \<lparr>prm_Name = ''bytesRead'', prm_Type = ''*uint32'', tmpVarIdx = -1\<rparr>,
       \<lparr>prm_Name = ''abort'', prm_Type = ''bool'', tmpVarIdx = -1\<rparr>,
       \<lparr>prm_Name = ''processSecurity'', prm_Type = ''bool'', tmpVarIdx = -1\<rparr>,
       \<lparr>prm_Name = ''context'', prm_Type = ''*uintptr'', tmpVarIdx = -1\<rparr>],
     fn_Rets = \<lparr>ret_Name = [], ret_Type = [], ReturnsError = True, FailCond = [], fnMaybeAbsent = False\<rparr>,
     PrintTrace = False, dllname = [], dllfuncname = ''BackupRead'', fn_src = trim sys_backupRead, curTmpVarIdx = 0\<rparr>"
  by code_simp

lemma parse_backupWrite:
  "newFn False sys_backupWrite = Inr
    \<lparr>fn_Name = ''backupWrite'',
     Params = [\<lparr>prm_Name = ''h'', prm_Type = ''windows.Handle'', tmpVarIdx = -1\<rparr>,
       \<lparr>prm_Name = ''b'', prm_Type = ''[]byte'', tmpVarIdx = -1\<rparr>,
       \<lparr>prm_Name = ''bytesWritten'', prm_Type = ''*uint32'', tmpVarIdx = -1\<rparr>,
       \<lparr>prm_Name = ''abort'', prm_Type = ''bool'', tmpVarIdx = -1\<rparr>,
       \<lparr>prm_Name = ''processSecurity'', prm_Type = ''bool'', tmpVarIdx = -1\<rparr>,
       \<lparr>prm_Name = ''context'', prm_Type = ''*uintptr'', tmpVarIdx = -1\<rparr>],
     fn_Rets = \<lparr>ret_Name = [], ret_Type = [], ReturnsError = True, FailCond = [], fnMaybeAbsent = False\<rparr>,
     PrintTrace = False, dllname = [], dllfuncname = ''BackupWrite'', fn_src = trim sys_backupWrite, curTmpVarIdx = 0\<rparr>"
  by code_simp

lemma parse_cancelIoEx:
  "newFn False sys_cancelIoEx = Inr
    \<lparr>fn_Name = ''cancelIoEx'',
     Params = [\<lparr>prm_Name = ''file'', prm_Type = ''windows.Handle'', tmpVarIdx = -1\<rparr>,
       \<lparr>prm_Name = ''o'', prm_Type = ''*windows.Overlapped'', tmpVarIdx = -1\<rparr>],
     fn_Rets = \<lparr>ret_Name = [], ret_Type = [], ReturnsError = True, FailCond = [], fnMaybeAbsent = False\<rparr>,
     PrintTrace = False, dllname = [], dllfuncname = ''CancelIoEx'', fn_src = trim sys_cancelIoEx, curTmpVarIdx = 0\<rparr>"
  by code_simp

lemma parse_connectNamedPipe:
  "newFn False sys_connectNamedPipe = Inr
    \<lparr>fn_Name = ''connectNamedPipe'',
     Params = [\<lparr>prm_Name = ''pipe'', prm_Type = ''windows.Handle'', tmpVarIdx = -1\<rparr>,
       \<lparr>prm_Name = ''o'', prm_Type = ''*windows.Overlapped'', tmpVarIdx = -1\<rparr>],
     fn_Rets = \<lparr>ret_Name = [], ret_Type = [], ReturnsError = True, FailCond = [], fnMaybeAbsent = False\<rparr>,
     PrintTrace = False, dllname = [], dllfuncname = ''ConnectNamedPipe'', fn_src = trim sys_connectNamedPipe,
       curTmpVarIdx = 0\<rparr>"
  by code_simp

lemma parse_createIoCompletionPort:
  "newFn False sys_createIoCompletionPort = Inr
    \<lparr>fn_Name = ''createIoCompletionPort'',
     Params = [\<lparr>prm_Name = ''file'', prm_Type = ''windows.Handle'', tmpVarIdx = -1\<rparr>,
       \<lparr>prm_Name = ''port'', prm_Type = ''windows.Handle'', tmpVarIdx = -1\<rparr>,
       \<lparr>prm_Name = ''key'', prm_Type = ''uintptr'', tmpVarIdx = -1\<rparr>,
       \<lparr>prm_Name = ''threadCount'', prm_Type = ''uint32'', tmpVarIdx = -1\<rparr>],
     fn_Rets = \<lparr>ret_Name = ''newport'', ret_Type = ''windows.Handle'', ReturnsError = True, FailCond = [], fnMaybeAbsent = False\<rparr>,
     PrintTrace = False, dllname = [], dllfuncname = ''CreateIoCompletionPort'', fn_src = trim
       sys_createIoCompletionPort, curTmpVarIdx = 0\<rparr>"
  by code_simp

lemma parse_createNamedPipe:
  "newFn False sys_createNamedPipe = Inr
    \<lparr>fn_Name = ''createNamedPipe'',
     Params = [\<lparr>prm_Name = ''name'', prm_Type = ''string'', tmpVarIdx = -1\<rparr>,
       \<lparr>prm_Name = ''flags'', prm_Type = ''uint32'', tmpVarIdx = -1\<rparr>,
       \<lparr>prm_Name = ''pipeMode'', prm_Type = ''uint32'', tmpVarIdx = -1\<rparr>,
       \<lparr>prm_Name = ''maxInstances'', prm_Type = ''uint32'', tmpVarIdx = -1\<rparr>,
       \<lparr>prm_Name = ''outSize'', prm_Type = ''uint32'', tmpVarIdx = -1\<rparr>,
       \<lparr>prm_Name = ''inSize'', prm_Type = ''uint32'', tmpVarIdx = -1\<rparr>,
       \<lparr>prm_Name = ''defaultTimeout'', prm_Type = ''uint32'', tmpVarIdx = -1\<rparr>,
       \<lparr>prm_Name = ''sa'', prm_Type = ''*windows.SecurityAttributes'', tmpVarIdx = -1\<rparr>],
     fn_Rets = \<lparr>ret_Name = ''handle'', ret_Type = ''windows.Handle'', ReturnsError = True, FailCond = ''failretval==windows.InvalidHandle'', fnMaybeAbsent = False\<rparr>,
     PrintTrace = False, dllname = [], dllfuncname = ''CreateNamedPipeW'', fn_src = trim sys_createNamedPipe,
       curTmpVarIdx = 0\<rparr>"
  by code_simp

lemma parse_disconnectNamedPipe:
  "newFn False sys_disconnectNamedPipe = Inr
    \<lparr>fn_Name = ''disconnectNamedPipe'',
     Params = [\<lparr>prm_Name = ''pipe'', prm_Type = ''windows.Handle'', tmpVarIdx = -1\<rparr>],
     fn_Rets = \<lparr>ret_Name = [], ret_Type = [], ReturnsError = True, FailCond = [], fnMaybeAbsent = False\<rparr>,
     PrintTrace = False, dllname = [], dllfuncname = ''DisconnectNamedPipe'', fn_src = trim sys_disconnectNamedPipe,
       curTmpVarIdx = 0\<rparr>"
  by code_simp

lemma parse_getCurrentThread:
  "newFn False sys_getCurrentThread = Inr
    \<lparr>fn_Name = ''getCurrentThread'',
     Params = [],
     fn_Rets = \<lparr>ret_Name = ''h'', ret_Type = ''windows.Handle'', ReturnsError = False, FailCond = [], fnMaybeAbsent = False\<rparr>,
     PrintTrace = False, dllname = [], dllfuncname = ''GetCurrentThread'', fn_src = trim sys_getCurrentThread,
       curTmpVarIdx = 0\<rparr>"
  by code_simp

lemma parse_getNamedPipeHandleState:
  "newFn False sys_getNamedPipeHandleState = Inr
    \<lparr>fn_Name = ''getNamedPipeHandleState'',
     Params = [\<lparr>prm_Name = ''pipe'', prm_Type = ''windows.Handle'', tmpVarIdx = -1\<rparr>,
       \<lparr>prm_Name = ''state'', prm_Type = ''*uint32'', tmpVarIdx = -1\<rparr>,
       \<lparr>prm_Name = ''curInstances'', prm_Type = ''*uint32'', tmpVarIdx = -1\<rparr>,
       \<lparr>prm_Name = ''maxCollectionCount'', prm_Type = ''*uint32'', tmpVarIdx = -1\<rparr>,
       \<lparr>prm_Name = ''collectDataTimeout'', prm_Type = ''*uint32'', tmpVarIdx = -1\<rparr>,
       \<lparr>prm_Name = ''userName'', prm_Type = ''*uint16'', tmpVarIdx = -1\<rparr>,
       \<lparr>prm_Name = ''maxUserNameSize'', prm_Type = ''uint32'', tmpVarIdx = -1\<rparr>],
     fn_Rets = \<lparr>ret_Name = [], ret_Type = [], ReturnsError = True, FailCond = [], fnMaybeAbsent = False\<rparr>,
     PrintTrace = False, dllname = [], dllfuncname = ''GetNamedPipeHandleStateW'', fn_src = trim
       sys_getNamedPipeHandleState, curTmpVarIdx = 0\<rparr>"
  by code_simp

lemma parse_getNamedPipeInfo:
  "newFn False sys_getNamedPipeInfo = Inr
    \<lparr>fn_Name = ''getNamedPipeInfo'',
     Params = [\<lparr>prm_Name = ''pipe'', prm_Type = ''windows.Handle'', tmpVarIdx = -1\<rparr>,
       \<lparr>prm_Name = ''flags'', prm_Type = ''*uint32'', tmpVarIdx = -1\<rparr>,
       \<lparr>prm_Name = ''outSize'', prm_Type = ''*uint32'', tmpVarIdx = -1\<rparr>,
       \<lparr>prm_Name = ''inSize'', prm_Type = ''*uint32'', tmpVarIdx = -1\<rparr>,
       \<lparr>prm_Name = ''maxInstances'', prm_Type = ''*uint32'', tmpVarIdx = -1\<rparr>],
     fn_Rets = \<lparr>ret_Name = [], ret_Type = [], ReturnsError = True, FailCond = [], fnMaybeAbsent = False\<rparr>,
     PrintTrace = False, dllname = [], dllfuncname = ''GetNamedPipeInfo'', fn_src = trim sys_getNamedPipeInfo,
       curTmpVarIdx = 0\<rparr>"
  by code_simp

lemma parse_getQueuedCompletionStatus:
  "newFn False sys_getQueuedCompletionStatus = Inr
    \<lparr>fn_Name = ''getQueuedCompletionStatus'',
     Params = [\<lparr>prm_Name = ''port'', prm_Type = ''windows.Handle'', tmpVarIdx = -1\<rparr>,
       \<lparr>prm_Name = ''bytes'', prm_Type = ''*uint32'', tmpVarIdx = -1\<rparr>,
       \<lparr>prm_Name = ''key'', prm_Type = ''*uintptr'', tmpVarIdx = -1\<rparr>,
       \<lparr>prm_Name = ''o'', prm_Type = ''**ioOperation'', tmpVarIdx = -1\<rparr>,
       \<lparr>prm_Name = ''timeout'', prm_Type = ''uint32'', tmpVarIdx = -1\<rparr>],
     fn_Rets = \<lparr>ret_Name = [], ret_Type = [], ReturnsError = True, FailCond = [], fnMaybeAbsent = False\<rparr>,
     PrintTrace = False, dllname = [], dllfuncname = ''GetQueuedCompletionStatus'', fn_src = trim
       sys_getQueuedCompletionStatus, curTmpVarIdx = 0\<rparr>"
  by code_simp

lemma parse_setFileCompletionNotificationModes:
  "newFn False sys_setFileCompletionNotificationModes = Inr
    \<lparr>fn_Name = ''setFileCompletionNotificationModes'',
     Params = [\<lparr>prm_Name = ''h'', prm_Type = ''windows.Handle'', tmpVarIdx = -1\<rparr>,
       \<lparr>prm_Name = ''flags'', prm_Type = ''uint8'', tmpVarIdx = -1\<rparr>],
     fn_Rets = \<lparr>ret_Name = [], ret_Type = [], ReturnsError = True, FailCond = [], fnMaybeAbsent = False\<rparr>,
     PrintTrace = False, dllname = [], dllfuncname = ''SetFileCompletionNotificationModes'', fn_src = trim
       sys_setFileCompletionNotificationModes, curTmpVarIdx = 0\<rparr>"
  by code_simp

lemma parse_ntCreateNamedPipeFile:
  "newFn False sys_ntCreateNamedPipeFile = Inr
    \<lparr>fn_Name = ''ntCreateNamedPipeFile'',
     Params = [\<lparr>prm_Name = ''pipe'', prm_Type = ''*windows.Handle'', tmpVarIdx = -1\<rparr>,
       \<lparr>prm_Name = ''access'', prm_Type = ''ntAccessMask'', tmpVarIdx = -1\<rparr>,
       \<lparr>prm_Name = ''oa'', prm_Type = ''*objectAttributes'', tmpVarIdx = -1\<rparr>,
       \<lparr>prm_Name = ''iosb'', prm_Type = ''*ioStatusBlock'', tmpVarIdx = -1\<rparr>,
       \<lparr>prm_Name = ''share'', prm_Type = ''ntFileShareMode'', tmpVarIdx = -1\<rparr>,
       \<lparr>prm_Name = ''disposition'', prm_Type = ''ntFileCreationDisposition'', tmpVarIdx = -1\<rparr>,
       \<lparr>prm_Name = ''options'', prm_Type = ''ntFileOptions'', tmpVarIdx = -1\<rparr>,
       \<lparr>prm_Name = ''typ'', prm_Type = ''uint32'', tmpVarIdx = -1\<rparr>,
       \<lparr>prm_Name = ''readMode'', prm_Type = ''uint32'', tmpVarIdx = -1\<rparr>,
       \<lparr>prm_Name = ''completionMode'', prm_Type = ''uint32'', tmpVarIdx = -1\<rparr>,
       \<lparr>prm_Name = ''maxInstances'', prm_Type = ''uint32'', tmpVarIdx = -1\<rparr>,
       \<lparr>prm_Name = ''inboundQuota'', prm_Type = ''uint32'', tmpVarIdx = -1\<rparr>,
       \<lparr>prm_Name = ''outputQuota'', prm_Type = ''uint32'', tmpVarIdx = -1\<rparr>,
       \<lparr>prm_Name = ''timeout'', prm_Type = ''*int64'', tmpVarIdx = -1\<rparr>],
     fn_Rets = \<lparr>ret_Name = ''status'', ret_Type = ''ntStatus'', ReturnsError = False, FailCond = [], fnMaybeAbsent = False\<rparr>,
     PrintTrace = False, dllname = ''ntdll'', dllfuncname = ''NtCreateNamedPipeFile'', fn_src = trim sys_ntCreateNamedPipeFile, curTmpVarIdx = 0\<rparr>"
  by code_simp

lemma parse_rtlDefaultNpAcl:
  "newFn False sys_rtlDefaultNpAcl = Inr
    \<lparr>fn_Name = ''rtlDefaultNpAcl'',
     Params = [\<lparr>prm_Name = ''dacl'', prm_Type = ''*uintptr'', tmpVarIdx = -1\<rparr>],
     fn_Rets = \<lparr>ret_Name = ''status'', ret_Type = ''ntStatus'', ReturnsError = False, FailCond = [], fnMaybeAbsent = False\<rparr>,
     PrintTrace = False, dllname = ''ntdll'', dllfuncname = ''RtlDefaultNpAcl'', fn_src = trim sys_rtlDefaultNpAcl, curTmpVarIdx = 0\<rparr>"
  by code_simp

lemma parse_rtlDosPathNameToNtPathName:
  "newFn False sys_rtlDosPathNameToNtPathName = Inr
    \<lparr>fn_Name = ''rtlDosPathNameToNtPathName'',
     Params = [\<lparr>prm_Name = ''name'', prm_Type = ''*uint16'', tmpVarIdx = -1\<rparr>,
       \<lparr>prm_Name = ''ntName'', prm_Type = ''*unicodeString'', tmpVarIdx = -1\<rparr>,
       \<lparr>prm_Name = ''filePart'', prm_Type = ''uintptr'', tmpVarIdx = -1\<rparr>,
       \<lparr>prm_Name = ''reserved'', prm_Type = ''uintptr'', tmpVarIdx = -1\<rparr>],
     fn_Rets = \<lparr>ret_Name = ''status'', ret_Type = ''ntStatus'', ReturnsError = False, FailCond = [], fnMaybeAbsent = False\<rparr>,
     PrintTrace = False, dllname = ''ntdll'', dllfuncname = ''RtlDosPathNameToNtPathName_U'', fn_src = trim sys_rtlDosPathNameToNtPathName, curTmpVarIdx = 0\<rparr>"
  by code_simp

lemma parse_rtlNtStatusToDosError:
  "newFn False sys_rtlNtStatusToDosError = Inr
    \<lparr>fn_Name = ''rtlNtStatusToDosError'',
     Params = [\<lparr>prm_Name = ''status'', prm_Type = ''ntStatus'', tmpVarIdx = -1\<rparr>],
     fn_Rets = \<lparr>ret_Name = ''winerr'', ret_Type = ''error'', ReturnsError = False, FailCond = [], fnMaybeAbsent = False\<rparr>,
     PrintTrace = False, dllname = ''ntdll'', dllfuncname = ''RtlNtStatusToDosErrorNoTeb'', fn_src = trim sys_rtlNtStatusToDosError, curTmpVarIdx = 0\<rparr>"
  by code_simp

lemma parse_wsaGetOverlappedResult:
  "newFn False sys_wsaGetOverlappedResult = Inr
    \<lparr>fn_Name = ''wsaGetOverlappedResult'',
     Params = [\<lparr>prm_Name = ''h'', prm_Type = ''windows.Handle'', tmpVarIdx = -1\<rparr>,
       \<lparr>prm_Name = ''o'', prm_Type = ''*windows.Overlapped'', tmpVarIdx = -1\<rparr>,
       \<lparr>prm_Name = ''bytes'', prm_Type = ''*uint32'', tmpVarIdx = -1\<rparr>,
       \<lparr>prm_Name = ''wait'', prm_Type = ''bool'', tmpVarIdx = -1\<rparr>,
       \<lparr>prm_Name = ''flags'', prm_Type = ''*uint32'', tmpVarIdx = -1\<rparr>],
     fn_Rets = \<lparr>ret_Name = [], ret_Type = [], ReturnsError = True, FailCond = [], fnMaybeAbsent = False\<rparr>,
     PrintTrace = False, dllname = ''ws2_32'', dllfuncname = ''WSAGetOverlappedResult'', fn_src = trim sys_wsaGetOverlappedResult, curTmpVarIdx = 0\<rparr>"
  by code_simp

lemma adjustTokenPrivileges_line:
  "adjustTokenPrivileges sys token releaseAll input outputSize output requiredSize s =
     returning (\<lambda>(v, e). (v \<noteq> 0, e)) (line_meaning (sys_consts sys) sys sys_adjustTokenPrivileges [Word token, Bool
       releaseAll, Word input, Word (ucast outputSize), Word output, Word requiredSize] s)"
  by (simp add: sys_simps sys_defs parse_adjustTokenPrivileges adjustTokenPrivileges_def sys_consts_def split del:
    if_split) (intro sys_cong; simp)

lemma convertSidToStringSid_line:
  "convertSidToStringSid sys sid str s =
     returning snd (line_meaning (sys_consts sys) sys sys_convertSidToStringSid [Word sid, Word str] s)"
  by (simp add: sys_simps sys_defs parse_convertSidToStringSid convertSidToStringSid_def sys_consts_def split del:
    if_split) (intro sys_cong; simp)

lemma convertStringSidToSid_line:
  "convertStringSidToSid sys str sid s =
     returning snd (line_meaning (sys_consts sys) sys sys_convertStringSidToSid [Word str, Word sid] s)"
  by (simp add: sys_simps sys_defs parse_convertStringSidToSid convertStringSidToSid_def sys_consts_def split del:
    if_split) (intro sys_cong; simp)

lemma impersonateSelf_line:
  "impersonateSelf sys level s =
     returning snd (line_meaning (sys_consts sys) sys sys_impersonateSelf [Word (ucast level)] s)"
  by (simp add: sys_simps sys_defs parse_impersonateSelf impersonateSelf_def sys_consts_def split del: if_split)
    (intro sys_cong; simp)

lemma lookupAccountName_line:
  "lookupAccountName sys systemName accountName sid sidSize refDomain refDomainSize sidNameUse s =
     returning snd (line_meaning (sys_consts sys) sys sys_lookupAccountName [Word systemName, Text accountName, Word
       sid, Word sidSize, Word refDomain, Word refDomainSize, Word sidNameUse] s)"
  by (simp add: sys_simps sys_defs parse_lookupAccountName lookupAccountName_def sys_consts_def split del: if_split)
    (intro sys_cong; simp)

lemma lookupAccountSid_line:
  "lookupAccountSid sys systemName sid name nameSize refDomain refDomainSize sidNameUse s =
     returning snd (line_meaning (sys_consts sys) sys sys_lookupAccountSid [Word systemName, Word sid, Word name, Word
       nameSize, Word refDomain, Word refDomainSize, Word sidNameUse] s)"
  by (simp add: sys_simps sys_defs parse_lookupAccountSid lookupAccountSid_def sys_consts_def split del: if_split)
    (intro sys_cong; simp)

lemma lookupPrivilegeDisplayName_line:
  "lookupPrivilegeDisplayName sys systemName name buffer bufsize languageId s =
     returning snd (line_meaning (sys_consts sys) sys sys_lookupPrivilegeDisplayName [Text systemName, Word name, Word
       buffer, Word bufsize, Word languageId] s)"
  by (simp add: sys_simps sys_defs parse_lookupPrivilegeDisplayName lookupPrivilegeDisplayName_def sys_consts_def
    split del: if_split) (intro sys_cong; simp)

lemma lookupPrivilegeName_line:
  "lookupPrivilegeName sys systemName luid buffer bufsize s =
     returning snd (line_meaning (sys_consts sys) sys sys_lookupPrivilegeName [Text systemName, Word luid, Word buffer,
       Word bufsize] s)"
  by (simp add: sys_simps sys_defs parse_lookupPrivilegeName lookupPrivilegeName_def sys_consts_def split del:
    if_split) (intro sys_cong; simp)

lemma lookupPrivilegeValue_line:
  "lookupPrivilegeValue sys systemName name luid s =
     returning snd (line_meaning (sys_consts sys) sys sys_lookupPrivilegeValue [Text systemName, Text name, Word luid] s)"
  by (simp add: sys_simps sys_defs parse_lookupPrivilegeValue lookupPrivilegeValue_def sys_consts_def split del:
    if_split) (intro sys_cong; simp)

lemma openThreadToken_line:
  "openThreadToken sys thread accessMask openAsSelf token s =
     returning snd (line_meaning (sys_consts sys) sys sys_openThreadToken [Word thread, Word (ucast accessMask), Bool
       openAsSelf, Word token] s)"
  by (simp add: sys_simps sys_defs parse_openThreadToken openThreadToken_def sys_consts_def split del: if_split)
    (intro sys_cong; simp)

lemma revertToSelf_line:
  "revertToSelf sys s =
     returning snd (line_meaning (sys_consts sys) sys sys_revertToSelf [] s)"
  by (simp add: sys_simps sys_defs parse_revertToSelf revertToSelf_def sys_consts_def split del: if_split) (intro
    sys_cong; simp)

lemma backupRead_line:
  "backupRead sys h b bytesRead aborts processSecurity ctx s =
     returning snd (line_meaning (sys_consts sys) sys sys_backupRead [Word h, Slice (fst b) (snd b), Word bytesRead,
       Bool aborts, Bool processSecurity, Word ctx] s)"
  by (simp add: sys_simps sys_defs parse_backupRead backupRead_def sys_consts_def split del: if_split) (intro
    sys_cong; simp)

lemma backupWrite_line:
  "backupWrite sys h b bytesWritten aborts processSecurity ctx s =
     returning snd (line_meaning (sys_consts sys) sys sys_backupWrite [Word h, Slice (fst b) (snd b), Word bytesWritten,
       Bool aborts, Bool processSecurity, Word ctx] s)"
  by (simp add: sys_simps sys_defs parse_backupWrite backupWrite_def sys_consts_def split del: if_split) (intro
    sys_cong; simp)

lemma cancelIoEx_line:
  "cancelIoEx sys hfile overlapped s =
     returning snd (line_meaning (sys_consts sys) sys sys_cancelIoEx [Word hfile, Word overlapped] s)"
  by (simp add: sys_simps sys_defs parse_cancelIoEx cancelIoEx_def sys_consts_def split del: if_split) (intro
    sys_cong; simp)

lemma connectNamedPipe_line:
  "connectNamedPipe sys pipe overlapped s =
     returning snd (line_meaning (sys_consts sys) sys sys_connectNamedPipe [Word pipe, Word overlapped] s)"
  by (simp add: sys_simps sys_defs parse_connectNamedPipe connectNamedPipe_def sys_consts_def split del: if_split)
    (intro sys_cong; simp)

lemma createIoCompletionPort_line:
  "createIoCompletionPort sys hfile port key threadCount s =
     line_meaning (sys_consts sys) sys sys_createIoCompletionPort [Word hfile, Word port, Word key, Word (ucast
       threadCount)] s"
  by (simp add: sys_simps sys_defs parse_createIoCompletionPort createIoCompletionPort_def sys_consts_def split del:
    if_split) (intro sys_cong; simp)

lemma createNamedPipe_line:
  "createNamedPipe sys name flags pipeMode maxInstances outSize inSize defaultTimeout sa s =
     line_meaning (sys_consts sys) sys sys_createNamedPipe [Text name, Word (ucast flags), Word (ucast pipeMode), Word
       (ucast maxInstances), Word (ucast outSize), Word (ucast inSize), Word (ucast defaultTimeout), Word sa] s"
  by (simp add: sys_simps sys_defs parse_createNamedPipe createNamedPipe_def sys_consts_def split del: if_split)
    (intro sys_cong; simp)

lemma disconnectNamedPipe_line:
  "disconnectNamedPipe sys pipe s =
     returning snd (line_meaning (sys_consts sys) sys sys_disconnectNamedPipe [Word pipe] s)"
  by (simp add: sys_simps sys_defs parse_disconnectNamedPipe disconnectNamedPipe_def sys_consts_def split del:
    if_split) (intro sys_cong; simp)

lemma getCurrentThread_line:
  "getCurrentThread sys s =
     returning fst (line_meaning (sys_consts sys) sys sys_getCurrentThread [] s)"
  by (simp add: sys_simps sys_defs parse_getCurrentThread getCurrentThread_def sys_consts_def split del: if_split)
    (intro sys_cong; simp)

lemma getNamedPipeHandleState_line:
  "getNamedPipeHandleState sys pipe state curInstances maxCollectionCount collectDataTimeout userName
    maxUserNameSize s =
     returning snd (line_meaning (sys_consts sys) sys sys_getNamedPipeHandleState [Word pipe, Word state, Word
       curInstances, Word maxCollectionCount, Word collectDataTimeout, Word userName, Word (ucast maxUserNameSize)]
       s)"
  by (simp add: sys_simps sys_defs parse_getNamedPipeHandleState getNamedPipeHandleState_def sys_consts_def split
    del: if_split) (intro sys_cong; simp)

lemma getNamedPipeInfo_line:
  "getNamedPipeInfo sys pipe flags outSize inSize maxInstances s =
     returning snd (line_meaning (sys_consts sys) sys sys_getNamedPipeInfo [Word pipe, Word flags, Word outSize, Word
       inSize, Word maxInstances] s)"
  by (simp add: sys_simps sys_defs parse_getNamedPipeInfo getNamedPipeInfo_def sys_consts_def split del: if_split)
    (intro sys_cong; simp)

lemma getQueuedCompletionStatus_line:
  "getQueuedCompletionStatus sys port bytes key overlapped timeout s =
     returning snd (line_meaning (sys_consts sys) sys sys_getQueuedCompletionStatus [Word port, Word bytes, Word key,
       Word overlapped, Word (ucast timeout)] s)"
  by (simp add: sys_simps sys_defs parse_getQueuedCompletionStatus getQueuedCompletionStatus_def sys_consts_def
    split del: if_split) (intro sys_cong; simp)

lemma setFileCompletionNotificationModes_line:
  "setFileCompletionNotificationModes sys h flags s =
     returning snd (line_meaning (sys_consts sys) sys sys_setFileCompletionNotificationModes [Word h, Word (ucast
       flags)] s)"
  by (simp add: sys_simps sys_defs parse_setFileCompletionNotificationModes setFileCompletionNotificationModes_def
    sys_consts_def split del: if_split) (intro sys_cong; simp)

lemma ntCreateNamedPipeFile_line:
  "ntCreateNamedPipeFile sys pipe access oa iosb share disposition options ptype readMode completionMode
    maxInstances inboundQuota outputQuota timeout s =
     returning (\<lambda>(v, e). ucast v) (line_meaning (sys_consts sys) sys sys_ntCreateNamedPipeFile [Word pipe, Word (ucast
       access), Word oa, Word iosb, Word (ucast share), Word (ucast disposition), Word (ucast options), Word (ucast
       ptype), Word (ucast readMode), Word (ucast completionMode), Word (ucast maxInstances), Word (ucast
       inboundQuota), Word (ucast outputQuota), Word timeout] s)"
  by (simp add: sys_simps sys_defs parse_ntCreateNamedPipeFile ntCreateNamedPipeFile_def sys_consts_def split del:
    if_split) (intro sys_cong; simp)

lemma rtlDefaultNpAcl_line:
  "rtlDefaultNpAcl sys dacl s =
     returning (\<lambda>(v, e). ucast v) (line_meaning (sys_consts sys) sys sys_rtlDefaultNpAcl [Word dacl] s)"
  by (simp add: sys_simps sys_defs parse_rtlDefaultNpAcl rtlDefaultNpAcl_def sys_consts_def split del: if_split)
    (intro sys_cong; simp)

lemma rtlDosPathNameToNtPathName_line:
  "rtlDosPathNameToNtPathName sys name ntName filePart reserved s =
     returning (\<lambda>(v, e). ucast v) (line_meaning (sys_consts sys) sys sys_rtlDosPathNameToNtPathName [Word name, Word
       ntName, Word filePart, Word reserved] s)"
  by (simp add: sys_simps sys_defs parse_rtlDosPathNameToNtPathName rtlDosPathNameToNtPathName_def sys_consts_def
    split del: if_split) (intro sys_cong; simp)

lemma rtlNtStatusToDosError_line:
  "rtlNtStatusToDosError sys status s =
     returning snd (line_meaning (sys_consts sys) sys sys_rtlNtStatusToDosError [Word (scast status)] s)"
  by (simp add: sys_simps sys_defs parse_rtlNtStatusToDosError rtlNtStatusToDosError_def sys_consts_def split del:
    if_split) (intro sys_cong; simp)

lemma wsaGetOverlappedResult_line:
  "wsaGetOverlappedResult sys h overlapped bytes wait flags s =
     returning snd (line_meaning (sys_consts sys) sys sys_wsaGetOverlappedResult [Word h, Word overlapped, Word bytes,
       Bool wait, Word flags] s)"
  by (simp add: sys_simps sys_defs parse_wsaGetOverlappedResult wsaGetOverlappedResult_def sys_consts_def split del:
    if_split) (intro sys_cong; simp)

lemmas winio_lines =
  adjustTokenPrivileges_line convertSidToStringSid_line convertStringSidToSid_line
  impersonateSelf_line lookupAccountName_line lookupAccountSid_line lookupPrivilegeDisplayName_line
  lookupPrivilegeName_line lookupPrivilegeValue_line openThreadToken_line revertToSelf_line
  backupRead_line backupWrite_line cancelIoEx_line connectNamedPipe_line createIoCompletionPort_line
  createNamedPipe_line disconnectNamedPipe_line getCurrentThread_line getNamedPipeHandleState_line
  getNamedPipeInfo_line getQueuedCompletionStatus_line setFileCompletionNotificationModes_line
  ntCreateNamedPipeFile_line rtlDefaultNpAcl_line rtlDosPathNameToNtPathName_line
  rtlNtStatusToDosError_line wsaGetOverlappedResult_line

text \<open>
  C18: Every function of the generated file does what the line that declares it means, for every
  behaviour of the system: the same procedure gets the same arguments in the same order, strings are
  checked and stored first, and the result and the last error become the declared values.
\<close>

theorem winio_calls:
  "adjustTokenPrivileges sys = (\<lambda>token releaseAll input outputSize output requiredSize s.
      returning (\<lambda>(v, e). (v \<noteq> 0, e)) (line_meaning (sys_consts sys) sys sys_adjustTokenPrivileges [Word token, Bool
        releaseAll, Word input, Word (ucast outputSize), Word output, Word requiredSize] s)) \<and>
   convertSidToStringSid sys = (\<lambda>sid str s.
      returning snd (line_meaning (sys_consts sys) sys sys_convertSidToStringSid [Word sid, Word str] s)) \<and>
   convertStringSidToSid sys = (\<lambda>str sid s.
      returning snd (line_meaning (sys_consts sys) sys sys_convertStringSidToSid [Word str, Word sid] s)) \<and>
   impersonateSelf sys = (\<lambda>level s.
      returning snd (line_meaning (sys_consts sys) sys sys_impersonateSelf [Word (ucast level)] s)) \<and>
   lookupAccountName sys = (\<lambda>systemName accountName sid sidSize refDomain refDomainSize sidNameUse s.
      returning snd (line_meaning (sys_consts sys) sys sys_lookupAccountName [Word systemName, Text accountName, Word
        sid, Word sidSize, Word refDomain, Word refDomainSize, Word sidNameUse] s)) \<and>
   lookupAccountSid sys = (\<lambda>systemName sid name nameSize refDomain refDomainSize sidNameUse s.
      returning snd (line_meaning (sys_consts sys) sys sys_lookupAccountSid [Word systemName, Word sid, Word name, Word
        nameSize, Word refDomain, Word refDomainSize, Word sidNameUse] s)) \<and>
   lookupPrivilegeDisplayName sys = (\<lambda>systemName name buffer bufsize languageId s.
      returning snd (line_meaning (sys_consts sys) sys sys_lookupPrivilegeDisplayName [Text systemName, Word name, Word
        buffer, Word bufsize, Word languageId] s)) \<and>
   lookupPrivilegeName sys = (\<lambda>systemName luid buffer bufsize s.
      returning snd (line_meaning (sys_consts sys) sys sys_lookupPrivilegeName [Text systemName, Word luid, Word buffer,
        Word bufsize] s)) \<and>
   lookupPrivilegeValue sys = (\<lambda>systemName name luid s.
      returning snd (line_meaning (sys_consts sys) sys sys_lookupPrivilegeValue [Text systemName, Text name, Word luid]
        s)) \<and>
   openThreadToken sys = (\<lambda>thread accessMask openAsSelf token s.
      returning snd (line_meaning (sys_consts sys) sys sys_openThreadToken [Word thread, Word (ucast accessMask), Bool
        openAsSelf, Word token] s)) \<and>
   revertToSelf sys = (\<lambda>s.
      returning snd (line_meaning (sys_consts sys) sys sys_revertToSelf [] s)) \<and>
   backupRead sys = (\<lambda>h b bytesRead aborts processSecurity ctx s.
      returning snd (line_meaning (sys_consts sys) sys sys_backupRead [Word h, Slice (fst b) (snd b), Word bytesRead,
        Bool aborts, Bool processSecurity, Word ctx] s)) \<and>
   backupWrite sys = (\<lambda>h b bytesWritten aborts processSecurity ctx s.
      returning snd (line_meaning (sys_consts sys) sys sys_backupWrite [Word h, Slice (fst b) (snd b), Word
        bytesWritten, Bool aborts, Bool processSecurity, Word ctx] s)) \<and>
   cancelIoEx sys = (\<lambda>hfile overlapped s.
      returning snd (line_meaning (sys_consts sys) sys sys_cancelIoEx [Word hfile, Word overlapped] s)) \<and>
   connectNamedPipe sys = (\<lambda>pipe overlapped s.
      returning snd (line_meaning (sys_consts sys) sys sys_connectNamedPipe [Word pipe, Word overlapped] s)) \<and>
   createIoCompletionPort sys = (\<lambda>hfile port key threadCount s.
      line_meaning (sys_consts sys) sys sys_createIoCompletionPort [Word hfile, Word port, Word key, Word (ucast
        threadCount)] s) \<and>
   createNamedPipe sys = (\<lambda>name flags pipeMode maxInstances outSize inSize defaultTimeout sa s.
      line_meaning (sys_consts sys) sys sys_createNamedPipe [Text name, Word (ucast flags), Word (ucast pipeMode), Word
        (ucast maxInstances), Word (ucast outSize), Word (ucast inSize), Word (ucast defaultTimeout), Word sa] s) \<and>
   disconnectNamedPipe sys = (\<lambda>pipe s.
      returning snd (line_meaning (sys_consts sys) sys sys_disconnectNamedPipe [Word pipe] s)) \<and>
   getCurrentThread sys = (\<lambda>s.
      returning fst (line_meaning (sys_consts sys) sys sys_getCurrentThread [] s)) \<and>
   getNamedPipeHandleState sys = (\<lambda>pipe state curInstances maxCollectionCount collectDataTimeout userName
     maxUserNameSize s.
      returning snd (line_meaning (sys_consts sys) sys sys_getNamedPipeHandleState [Word pipe, Word state, Word
        curInstances, Word maxCollectionCount, Word collectDataTimeout, Word userName, Word (ucast maxUserNameSize)]
        s)) \<and>
   getNamedPipeInfo sys = (\<lambda>pipe flags outSize inSize maxInstances s.
      returning snd (line_meaning (sys_consts sys) sys sys_getNamedPipeInfo [Word pipe, Word flags, Word outSize, Word
        inSize, Word maxInstances] s)) \<and>
   getQueuedCompletionStatus sys = (\<lambda>port bytes key overlapped timeout s.
      returning snd (line_meaning (sys_consts sys) sys sys_getQueuedCompletionStatus [Word port, Word bytes, Word key,
        Word overlapped, Word (ucast timeout)] s)) \<and>
   setFileCompletionNotificationModes sys = (\<lambda>h flags s.
      returning snd (line_meaning (sys_consts sys) sys sys_setFileCompletionNotificationModes [Word h, Word (ucast
        flags)] s)) \<and>
   ntCreateNamedPipeFile sys = (\<lambda>pipe access oa iosb share disposition options ptype readMode completionMode
     maxInstances inboundQuota outputQuota timeout s.
      returning (\<lambda>(v, e). ucast v) (line_meaning (sys_consts sys) sys sys_ntCreateNamedPipeFile [Word pipe, Word (ucast
        access), Word oa, Word iosb, Word (ucast share), Word (ucast disposition), Word (ucast options), Word (ucast
        ptype), Word (ucast readMode), Word (ucast completionMode), Word (ucast maxInstances), Word (ucast
        inboundQuota), Word (ucast outputQuota), Word timeout] s)) \<and>
   rtlDefaultNpAcl sys = (\<lambda>dacl s.
      returning (\<lambda>(v, e). ucast v) (line_meaning (sys_consts sys) sys sys_rtlDefaultNpAcl [Word dacl] s)) \<and>
   rtlDosPathNameToNtPathName sys = (\<lambda>name ntName filePart reserved s.
      returning (\<lambda>(v, e). ucast v) (line_meaning (sys_consts sys) sys sys_rtlDosPathNameToNtPathName [Word name, Word
        ntName, Word filePart, Word reserved] s)) \<and>
   rtlNtStatusToDosError sys = (\<lambda>status s.
      returning snd (line_meaning (sys_consts sys) sys sys_rtlNtStatusToDosError [Word (scast status)] s)) \<and>
   wsaGetOverlappedResult sys = (\<lambda>h overlapped bytes wait flags s.
      returning snd (line_meaning (sys_consts sys) sys sys_wsaGetOverlappedResult [Word h, Word overlapped, Word bytes,
        Bool wait, Word flags] s))"
  by (intro conjI ext; rule winio_lines)

end
