(* ===== verification/Zsyscall_Pkgs.thy ===== *)
theory Zsyscall_Pkgs
  imports Zsyscall
begin

text \<open>
  The generated files of the other packages, \<^verbatim>\<open>zsyscall_windows.go\<close> and
    \<^verbatim>\<open>vhd/zvhd_windows.go\<close>, with the
  declarations that they were generated from.
\<close>

section \<open>Package vhd\<close>

definition procAttachVirtualDisk :: procedure where [sys_defs]: "procAttachVirtualDisk = (''virtdisk.dll'', ''AttachVirtualDisk'')"
definition procCreateVirtualDisk :: procedure where [sys_defs]: "procCreateVirtualDisk = (''virtdisk.dll'', ''CreateVirtualDisk'')"
definition procDetachVirtualDisk :: procedure where [sys_defs]: "procDetachVirtualDisk = (''virtdisk.dll'', ''DetachVirtualDisk'')"
definition procGetVirtualDiskPhysicalPath :: procedure where [sys_defs]: "procGetVirtualDiskPhysicalPath = (''virtdisk.dll'', ''GetVirtualDiskPhysicalPath'')"
definition procOpenVirtualDisk :: procedure where [sys_defs]: "procOpenVirtualDisk = (''virtdisk.dll'', ''OpenVirtualDisk'')"

definition createVirtualDisk_ptr ::
  "'s windows \<Rightarrow> uintptr \<Rightarrow> uintptr \<Rightarrow> u32 \<Rightarrow> uintptr \<Rightarrow> u32 \<Rightarrow> u32 \<Rightarrow> uintptr \<Rightarrow> uintptr \<Rightarrow> uintptr \<Rightarrow> 's \<Rightarrow> go_error option
    res \<times> 's" where
  [sys_defs]: "createVirtualDisk_ptr sys virtualStorageType path virtualDiskAccessMask securityDescriptor
    createVirtualDiskFlags providerSpecificFlags parameters overlapped handle s =
     returning (\<lambda>(r0, _). if r0 \<noteq> 0 then Some (errno_of r0) else None)
       (syscalln sys procCreateVirtualDisk 9 [virtualStorageType, path, ucast virtualDiskAccessMask,
         securityDescriptor, ucast createVirtualDiskFlags, ucast providerSpecificFlags, parameters, overlapped,
         handle] s)"

definition openVirtualDisk_ptr ::
  "'s windows \<Rightarrow> uintptr \<Rightarrow> uintptr \<Rightarrow> u32 \<Rightarrow> u32 \<Rightarrow> uintptr \<Rightarrow> uintptr \<Rightarrow> 's \<Rightarrow> go_error option res \<times> 's" where
  [sys_defs]: "openVirtualDisk_ptr sys virtualStorageType path virtualDiskAccessMask openVirtualDiskFlags parameters
    handle s =
     returning (\<lambda>(r0, _). if r0 \<noteq> 0 then Some (errno_of r0) else None)
       (syscalln sys procOpenVirtualDisk 6 [virtualStorageType, path, ucast virtualDiskAccessMask, ucast
         openVirtualDiskFlags, parameters, handle] s)"

definition attachVirtualDisk ::
  "'s windows \<Rightarrow> uintptr \<Rightarrow> uintptr \<Rightarrow> u32 \<Rightarrow> u32 \<Rightarrow> uintptr \<Rightarrow> uintptr \<Rightarrow> 's \<Rightarrow> go_error option res \<times> 's" where
  "attachVirtualDisk sys handle securityDescriptor attachVirtualDiskFlag providerSpecificFlags parameters overlapped s =
     returning (\<lambda>(r0, _). if r0 \<noteq> 0 then Some (errno_of r0) else None)
       (syscalln sys procAttachVirtualDisk 6 [handle, securityDescriptor, ucast attachVirtualDiskFlag, ucast
         providerSpecificFlags, parameters, overlapped] s)"

definition createVirtualDisk ::
  "'s windows \<Rightarrow> uintptr \<Rightarrow> gostring \<Rightarrow> u32 \<Rightarrow> uintptr \<Rightarrow> u32 \<Rightarrow> u32 \<Rightarrow> uintptr \<Rightarrow> uintptr \<Rightarrow> uintptr \<Rightarrow> 's \<Rightarrow> go_error option
    res \<times> 's" where
  "createVirtualDisk sys virtualStorageType path virtualDiskAccessMask securityDescriptor createVirtualDiskFlags
    providerSpecificFlags parameters overlapped handle s =
     with_string (UTF16PtrFromString sys path s) Some (\<lambda>p0 s.
       createVirtualDisk_ptr sys virtualStorageType p0 virtualDiskAccessMask securityDescriptor
         createVirtualDiskFlags providerSpecificFlags parameters overlapped handle s)"

definition detachVirtualDisk ::
  "'s windows \<Rightarrow> uintptr \<Rightarrow> u32 \<Rightarrow> u32 \<Rightarrow> 's \<Rightarrow> go_error option res \<times> 's" where
  "detachVirtualDisk sys handle detachVirtualDiskFlags providerSpecificFlags s =
     returning (\<lambda>(r0, _). if r0 \<noteq> 0 then Some (errno_of r0) else None)
       (syscalln sys procDetachVirtualDisk 3 [handle, ucast detachVirtualDiskFlags, ucast providerSpecificFlags] s)"

definition getVirtualDiskPhysicalPath ::
  "'s windows \<Rightarrow> uintptr \<Rightarrow> uintptr \<Rightarrow> uintptr \<Rightarrow> 's \<Rightarrow> go_error option res \<times> 's" where
  "getVirtualDiskPhysicalPath sys handle diskPathSizeInBytes buffer s =
     returning (\<lambda>(r0, _). if r0 \<noteq> 0 then Some (errno_of r0) else None)
       (syscalln sys procGetVirtualDiskPhysicalPath 3 [handle, diskPathSizeInBytes, buffer] s)"

definition openVirtualDisk ::
  "'s windows \<Rightarrow> uintptr \<Rightarrow> gostring \<Rightarrow> u32 \<Rightarrow> u32 \<Rightarrow> uintptr \<Rightarrow> uintptr \<Rightarrow> 's \<Rightarrow> go_error option res \<times> 's" where
  "openVirtualDisk sys virtualStorageType path virtualDiskAccessMask openVirtualDiskFlags parameters handle s =
     with_string (UTF16PtrFromString sys path s) Some (\<lambda>p0 s.
       openVirtualDisk_ptr sys virtualStorageType p0 virtualDiskAccessMask openVirtualDiskFlags parameters handle s)"

subsection \<open>Declarations\<close>

definition sys_attachVirtualDisk :: string where
  "sys_attachVirtualDisk =
    '' attachVirtualDisk(handle syscall.Handle, securityDescriptor *uintptr, attachVirtualDiskFlag uint32,'' @
    '' providerSpecificFlags uint32, parameters *AttachVirtualDiskParameters, overlapped '' @
    ''*syscall.Overlapped) (win32err error) = virtdisk.AttachVirtualDisk''"

definition sys_createVirtualDisk :: string where
  "sys_createVirtualDisk =
    '' createVirtualDisk(virtualStorageType *VirtualStorageType, path string, virtualDiskAccessMask '' @
    ''uint32, securityDescriptor *uintptr, createVirtualDiskFlags uint32, providerSpecificFlags uint32, '' @
    ''parameters *CreateVirtualDiskParameters, overlapped *syscall.Overlapped, handle *syscall.Handle) '' @
    ''(win32err error) = virtdisk.CreateVirtualDisk''"

definition sys_detachVirtualDisk :: string where
  "sys_detachVirtualDisk =
    '' detachVirtualDisk(handle syscall.Handle, detachVirtualDiskFlags uint32, providerSpecificFlags '' @
    ''uint32) (win32err error) = virtdisk.DetachVirtualDisk''"

definition sys_getVirtualDiskPhysicalPath :: string where
  "sys_getVirtualDiskPhysicalPath =
    '' getVirtualDiskPhysicalPath(handle syscall.Handle, diskPathSizeInBytes *uint32, buffer *uint16) '' @
    ''(win32err error) = virtdisk.GetVirtualDiskPhysicalPath''"

definition sys_openVirtualDisk :: string where
  "sys_openVirtualDisk =
    '' openVirtualDisk(virtualStorageType *VirtualStorageType, path string, virtualDiskAccessMask uint32, '' @
    ''openVirtualDiskFlags uint32, parameters *openVirtualDiskParameters, handle *syscall.Handle) '' @
    ''(win32err error) = virtdisk.OpenVirtualDisk''"

lemma parse_attachVirtualDisk:
  "newFn False sys_attachVirtualDisk = Inr
    \<lparr>fn_Name = ''attachVirtualDisk'',
     Params = [\<lparr>prm_Name = ''handle'', prm_Type = ''syscall.Handle'', tmpVarIdx = -1\<rparr>,
       \<lparr>prm_Name = ''securityDescriptor'', prm_Type = ''*uintptr'', tmpVarIdx = -1\<rparr>,
       \<lparr>prm_Name = ''attachVirtualDiskFlag'', prm_Type = ''uint32'', tmpVarIdx = -1\<rparr>,
       \<lparr>prm_Name = ''providerSpecificFlags'', prm_Type = ''uint32'', tmpVarIdx = -1\<rparr>,
       \<lparr>prm_Name = ''parameters'', prm_Type = ''*AttachVirtualDiskParameters'', tmpVarIdx = -1\<rparr>,
       \<lparr>prm_Name = ''overlapped'', prm_Type = ''*syscall.Overlapped'', tmpVarIdx = -1\<rparr>],
     fn_Rets = \<lparr>ret_Name = ''win32err'', ret_Type = ''error'', ReturnsError = False, FailCond = [], fnMaybeAbsent = False\<rparr>,
     PrintTrace = False, dllname = ''virtdisk'', dllfuncname = ''AttachVirtualDisk'', fn_src = trim sys_attachVirtualDisk, curTmpVarIdx = 0\<rparr>"
  by code_simp

lemma parse_createVirtualDisk:
  "newFn False sys_createVirtualDisk = Inr
    \<lparr>fn_Name = ''createVirtualDisk'',
     Params = [\<lparr>prm_Name = ''virtualStorageType'', prm_Type = ''*VirtualStorageType'', tmpVarIdx = -1\<rparr>,
       \<lparr>prm_Name = ''path'', prm_Type = ''string'', tmpVarIdx = -1\<rparr>,
       \<lparr>prm_Name = ''virtualDiskAccessMask'', prm_Type = ''uint32'', tmpVarIdx = -1\<rparr>,
       \<lparr>prm_Name = ''securityDescriptor'', prm_Type = ''*uintptr'', tmpVarIdx = -1\<rparr>,
       \<lparr>prm_Name = ''createVirtualDiskFlags'', prm_Type = ''uint32'', tmpVarIdx = -1\<rparr>,
       \<lparr>prm_Name = ''providerSpecificFlags'', prm_Type = ''uint32'', tmpVarIdx = -1\<rparr>,
       \<lparr>prm_Name = ''parameters'', prm_Type = ''*CreateVirtualDiskParameters'', tmpVarIdx = -1\<rparr>,
       \<lparr>prm_Name = ''overlapped'', prm_Type = ''*syscall.Overlapped'', tmpVarIdx = -1\<rparr>,
       \<lparr>prm_Name = ''handle'', prm_Type = ''*syscall.Handle'', tmpVarIdx = -1\<rparr>],
     fn_Rets = \<lparr>ret_Name = ''win32err'', ret_Type = ''error'', ReturnsError = False, FailCond = [], fnMaybeAbsent = False\<rparr>,
     PrintTrace = False, dllname = ''virtdisk'', dllfuncname = ''CreateVirtualDisk'', fn_src = trim sys_createVirtualDisk, curTmpVarIdx = 0\<rparr>"
  by code_simp

lemma parse_detachVirtualDisk:
  "newFn False sys_detachVirtualDisk = Inr
    \<lparr>fn_Name = ''detachVirtualDisk'',
     Params = [\<lparr>prm_Name = ''handle'', prm_Type = ''syscall.Handle'', tmpVarIdx = -1\<rparr>,
       \<lparr>prm_Name = ''detachVirtualDiskFlags'', prm_Type = ''uint32'', tmpVarIdx = -1\<rparr>,
       \<lparr>prm_Name = ''providerSpecificFlags'', prm_Type = ''uint32'', tmpVarIdx = -1\<rparr>],
     fn_Rets = \<lparr>ret_Name = ''win32err'', ret_Type = ''error'', ReturnsError = False, FailCond = [], fnMaybeAbsent = False\<rparr>,
     PrintTrace = False, dllname = ''virtdisk'', dllfuncname = ''DetachVirtualDisk'', fn_src = trim sys_detachVirtualDisk, curTmpVarIdx = 0\<rparr>"
  by code_simp

lemma parse_getVirtualDiskPhysicalPath:
  "newFn False sys_getVirtualDiskPhysicalPath = Inr
    \<lparr>fn_Name = ''getVirtualDiskPhysicalPath'',
     Params = [\<lparr>prm_Name = ''handle'', prm_Type = ''syscall.Handle'', tmpVarIdx = -1\<rparr>,
       \<lparr>prm_Name = ''diskPathSizeInBytes'', prm_Type = ''*uint32'', tmpVarIdx = -1\<rparr>,
       \<lparr>prm_Name = ''buffer'', prm_Type = ''*uint16'', tmpVarIdx = -1\<rparr>],
     fn_Rets = \<lparr>ret_Name = ''win32err'', ret_Type = ''error'', ReturnsError = False, FailCond = [], fnMaybeAbsent = False\<rparr>,
     PrintTrace = False, dllname = ''virtdisk'', dllfuncname = ''GetVirtualDiskPhysicalPath'', fn_src = trim sys_getVirtualDiskPhysicalPath, curTmpVarIdx = 0\<rparr>"
  by code_simp

lemma parse_openVirtualDisk:
  "newFn False sys_openVirtualDisk = Inr
    \<lparr>fn_Name = ''openVirtualDisk'',
     Params = [\<lparr>prm_Name = ''virtualStorageType'', prm_Type = ''*VirtualStorageType'', tmpVarIdx = -1\<rparr>,
       \<lparr>prm_Name = ''path'', prm_Type = ''string'', tmpVarIdx = -1\<rparr>,
       \<lparr>prm_Name = ''virtualDiskAccessMask'', prm_Type = ''uint32'', tmpVarIdx = -1\<rparr>,
       \<lparr>prm_Name = ''openVirtualDiskFlags'', prm_Type = ''uint32'', tmpVarIdx = -1\<rparr>,
       \<lparr>prm_Name = ''parameters'', prm_Type = ''*openVirtualDiskParameters'', tmpVarIdx = -1\<rparr>,
       \<lparr>prm_Name = ''handle'', prm_Type = ''*syscall.Handle'', tmpVarIdx = -1\<rparr>],
     fn_Rets = \<lparr>ret_Name = ''win32err'', ret_Type = ''error'', ReturnsError = False, FailCond = [], fnMaybeAbsent = False\<rparr>,
     PrintTrace = False, dllname = ''virtdisk'', dllfuncname = ''OpenVirtualDisk'', fn_src = trim sys_openVirtualDisk, curTmpVarIdx = 0\<rparr>"
  by code_simp

lemma attachVirtualDisk_line:
  "attachVirtualDisk sys handle securityDescriptor attachVirtualDiskFlag providerSpecificFlags parameters overlapped s =
     returning snd (line_meaning (sys_consts sys) sys sys_attachVirtualDisk [Word handle, Word securityDescriptor, Word
       (ucast attachVirtualDiskFlag), Word (ucast providerSpecificFlags), Word parameters, Word overlapped] s)"
  by (simp add: sys_simps sys_defs parse_attachVirtualDisk attachVirtualDisk_def sys_consts_def split del: if_split)
    (intro sys_cong; simp)

lemma createVirtualDisk_line:
  "createVirtualDisk sys virtualStorageType path virtualDiskAccessMask securityDescriptor createVirtualDiskFlags
    providerSpecificFlags parameters overlapped handle s =
     returning snd (line_meaning (sys_consts sys) sys sys_createVirtualDisk [Word virtualStorageType, Text path, Word
       (ucast virtualDiskAccessMask), Word securityDescriptor, Word (ucast createVirtualDiskFlags), Word (ucast
       providerSpecificFlags), Word parameters, Word overlapped, Word handle] s)"
  by (simp add: sys_simps sys_defs parse_createVirtualDisk createVirtualDisk_def sys_consts_def split del: if_split)
    (intro sys_cong; simp)

lemma detachVirtualDisk_line:
  "detachVirtualDisk sys handle detachVirtualDiskFlags providerSpecificFlags s =
     returning snd (line_meaning (sys_consts sys) sys sys_detachVirtualDisk [Word handle, Word (ucast
       detachVirtualDiskFlags), Word (ucast providerSpecificFlags)] s)"
  by (simp add: sys_simps sys_defs parse_detachVirtualDisk detachVirtualDisk_def sys_consts_def split del: if_split)
    (intro sys_cong; simp)

lemma getVirtualDiskPhysicalPath_line:
  "getVirtualDiskPhysicalPath sys handle diskPathSizeInBytes buffer s =
     returning snd (line_meaning (sys_consts sys) sys sys_getVirtualDiskPhysicalPath [Word handle, Word
       diskPathSizeInBytes, Word buffer] s)"
  by (simp add: sys_simps sys_defs parse_getVirtualDiskPhysicalPath getVirtualDiskPhysicalPath_def sys_consts_def
    split del: if_split) (intro sys_cong; simp)

lemma openVirtualDisk_line:
  "openVirtualDisk sys virtualStorageType path virtualDiskAccessMask openVirtualDiskFlags parameters handle s =
     returning snd (line_meaning (sys_consts sys) sys sys_openVirtualDisk [Word virtualStorageType, Text path, Word
       (ucast virtualDiskAccessMask), Word (ucast openVirtualDiskFlags), Word parameters, Word handle] s)"
  by (simp add: sys_simps sys_defs parse_openVirtualDisk openVirtualDisk_def sys_consts_def split del: if_split)
    (intro sys_cong; simp)

section \<open>Package computestorage\<close>

definition procHcsFormatWritableLayerVhd :: procedure where [sys_defs]: "procHcsFormatWritableLayerVhd = (''computestorage.dll'', ''HcsFormatWritableLayerVhd'')"
definition procHcsGetLayerVhdMountPath :: procedure where [sys_defs]: "procHcsGetLayerVhdMountPath = (''computestorage.dll'', ''HcsGetLayerVhdMountPath'')"

definition hcsFormatWritableLayerVhd ::
  "'s windows \<Rightarrow> uintptr \<Rightarrow> 's \<Rightarrow> go_error option res \<times> 's" where
  "hcsFormatWritableLayerVhd sys handle s =
     if_found sys procHcsFormatWritableLayerVhd Some (\<lambda>s. returning (\<lambda>(r0, _). hresult r0)
       (syscalln sys procHcsFormatWritableLayerVhd 1 [handle, 0, 0] s)) s"

definition hcsGetLayerVhdMountPath ::
  "'s windows \<Rightarrow> uintptr \<Rightarrow> uintptr \<Rightarrow> 's \<Rightarrow> go_error option res \<times> 's" where
  "hcsGetLayerVhdMountPath sys vhdHandle mountPath s =
     if_found sys procHcsGetLayerVhdMountPath Some (\<lambda>s. returning (\<lambda>(r0, _). hresult r0)
       (syscalln sys procHcsGetLayerVhdMountPath 2 [vhdHandle, mountPath, 0] s)) s"

subsection \<open>Declarations\<close>

definition sys_hcsFormatWritableLayerVhd :: string where
  "sys_hcsFormatWritableLayerVhd =
    '' hcsFormatWritableLayerVhd(handle windows.Handle) (hr error) = '' @
    ''computestorage.HcsFormatWritableLayerVhd?''"

definition sys_hcsGetLayerVhdMountPath :: string where
  "sys_hcsGetLayerVhdMountPath =
    '' hcsGetLayerVhdMountPath(vhdHandle windows.Handle, mountPath **uint16) (hr error) = '' @
    ''computestorage.HcsGetLayerVhdMountPath?''"

lemma parse_hcsFormatWritableLayerVhd:
  "newFn False sys_hcsFormatWritableLayerVhd = Inr
    \<lparr>fn_Name = ''hcsFormatWritableLayerVhd'',
     Params = [\<lparr>prm_Name = ''handle'', prm_Type = ''windows.Handle'', tmpVarIdx = -1\<rparr>],
     fn_Rets = \<lparr>ret_Name = ''hr'', ret_Type = ''error'', ReturnsError = False, FailCond = [], fnMaybeAbsent = True\<rparr>,
     PrintTrace = False, dllname = ''computestorage'', dllfuncname = ''HcsFormatWritableLayerVhd'', fn_src = trim sys_hcsFormatWritableLayerVhd, curTmpVarIdx = 0\<rparr>"
  by code_simp

lemma parse_hcsGetLayerVhdMountPath:
  "newFn False sys_hcsGetLayerVhdMountPath = Inr
    \<lparr>fn_Name = ''hcsGetLayerVhdMountPath'',
     Params = [\<lparr>prm_Name = ''vhdHandle'', prm_Type = ''windows.Handle'', tmpVarIdx = -1\<rparr>,
       \<lparr>prm_Name = ''mountPath'', prm_Type = ''**uint16'', tmpVarIdx = -1\<rparr>],
     fn_Rets = \<lparr>ret_Name = ''hr'', ret_Type = ''error'', ReturnsError = False, FailCond = [], fnMaybeAbsent = True\<rparr>,
     PrintTrace = False, dllname = ''computestorage'', dllfuncname = ''HcsGetLayerVhdMountPath'', fn_src = trim sys_hcsGetLayerVhdMountPath, curTmpVarIdx = 0\<rparr>"
  by code_simp

lemma hcsFormatWritableLayerVhd_line:
  "hcsFormatWritableLayerVhd sys handle s =
     returning snd (line_meaning (sys_consts sys) sys sys_hcsFormatWritableLayerVhd [Word handle] s)"
  by (simp add: sys_simps sys_defs parse_hcsFormatWritableLayerVhd hcsFormatWritableLayerVhd_def sys_consts_def
    split del: if_split) (intro sys_cong; simp)

lemma hcsGetLayerVhdMountPath_line:
  "hcsGetLayerVhdMountPath sys vhdHandle mountPath s =
     returning snd (line_meaning (sys_consts sys) sys sys_hcsGetLayerVhdMountPath [Word vhdHandle, Word mountPath] s)"
  by (simp add: sys_simps sys_defs parse_hcsGetLayerVhdMountPath hcsGetLayerVhdMountPath_def sys_consts_def split
    del: if_split) (intro sys_cong; simp)

section \<open>Package fs\<close>

definition procCreateFileW :: procedure where [sys_defs]: "procCreateFileW = (''kernel32.dll'', ''CreateFileW'')"

definition CreateFile_ptr ::
  "'s windows \<Rightarrow> uintptr \<Rightarrow> u32 \<Rightarrow> u32 \<Rightarrow> uintptr \<Rightarrow> u32 \<Rightarrow> u32 \<Rightarrow> uintptr \<Rightarrow> 's \<Rightarrow> (uintptr \<times> go_error option) res \<times> 's" where
  [sys_defs]: "CreateFile_ptr sys name access mode sa createmode attrs templatefile s =
     returning (\<lambda>(r0, e1). (r0, if r0 = InvalidHandle sys then Some (errnoErr e1) else None))
       (syscalln sys procCreateFileW 7 [name, ucast access, ucast mode, sa, ucast createmode, ucast attrs,
         templatefile, 0, 0] s)"

definition CreateFile ::
  "'s windows \<Rightarrow> gostring \<Rightarrow> u32 \<Rightarrow> u32 \<Rightarrow> uintptr \<Rightarrow> u32 \<Rightarrow> u32 \<Rightarrow> uintptr \<Rightarrow> 's \<Rightarrow> (uintptr \<times> go_error option) res \<times> 's" where
  "CreateFile sys name access mode sa createmode attrs templatefile s =
     with_string (UTF16PtrFromString sys name s) (\<lambda>e. (0, Some e)) (\<lambda>p0 s.
       CreateFile_ptr sys p0 access mode sa createmode attrs templatefile s)"

subsection \<open>Declarations\<close>

definition sys_CreateFile :: string where
  "sys_CreateFile =
    '' CreateFile(name string, access AccessMask, mode FileShareMode, sa *windows.SecurityAttributes, '' @
    ''createmode FileCreationDisposition, attrs FileFlagOrAttribute, templatefile windows.Handle) (handle '' @
    ''windows.Handle, err error) [failretval==windows.InvalidHandle] = CreateFileW''"

lemma parse_CreateFile:
  "newFn False sys_CreateFile = Inr
    \<lparr>fn_Name = ''CreateFile'',
     Params = [\<lparr>prm_Name = ''name'', prm_Type = ''string'', tmpVarIdx = -1\<rparr>,
       \<lparr>prm_Name = ''access'', prm_Type = ''AccessMask'', tmpVarIdx = -1\<rparr>,
       \<lparr>prm_Name = ''mode'', prm_Type = ''FileShareMode'', tmpVarIdx = -1\<rparr>,
       \<lparr>prm_Name = ''sa'', prm_Type = ''*windows.SecurityAttributes'', tmpVarIdx = -1\<rparr>,
       \<lparr>prm_Name = ''createmode'', prm_Type = ''FileCreationDisposition'', tmpVarIdx = -1\<rparr>,
       \<lparr>prm_Name = ''attrs'', prm_Type = ''FileFlagOrAttribute'', tmpVarIdx = -1\<rparr>,
       \<lparr>prm_Name = ''templatefile'', prm_Type = ''windows.Handle'', tmpVarIdx = -1\<rparr>],
     fn_Rets = \<lparr>ret_Name = ''handle'', ret_Type = ''windows.Handle'', ReturnsError = True, FailCond = ''failretval==windows.InvalidHandle'', fnMaybeAbsent = False\<rparr>,
     PrintTrace = False, dllname = [], dllfuncname = ''CreateFileW'', fn_src = trim sys_CreateFile, curTmpVarIdx = 0\<rparr>"
  by code_simp

lemma CreateFile_line:
  "CreateFile sys name access mode sa createmode attrs templatefile s =
     line_meaning (sys_consts sys) sys sys_CreateFile [Text name, Word (ucast access), Word (ucast mode), Word sa, Word
       (ucast createmode), Word (ucast attrs), Word templatefile] s"
  by (simp add: sys_simps sys_defs parse_CreateFile CreateFile_def sys_consts_def split del: if_split) (intro
    sys_cong; simp)

section \<open>Package interop\<close>

definition procCoTaskMemFree :: procedure where [sys_defs]: "procCoTaskMemFree = (''api-ms-win-core-com-l1-1-0.dll'', ''CoTaskMemFree'')"

definition coTaskMemFree ::
  "'s windows \<Rightarrow> uintptr \<Rightarrow> 's \<Rightarrow> unit res \<times> 's" where
  "coTaskMemFree sys buffer s =
     returning (\<lambda>_. ())
       (syscalln sys procCoTaskMemFree 1 [buffer, 0, 0] s)"

subsection \<open>Declarations\<close>

definition sys_coTaskMemFree :: string where
  "sys_coTaskMemFree =
    '' coTaskMemFree(buffer unsafe.Pointer) = api_ms_win_core_com_l1_1_0.CoTaskMemFree''"

lemma parse_coTaskMemFree:
  "newFn False sys_coTaskMemFree = Inr
    \<lparr>fn_Name = ''coTaskMemFree'',
     Params = [\<lparr>prm_Name = ''buffer'', prm_Type = ''unsafe.Pointer'', tmpVarIdx = -1\<rparr>],
     fn_Rets = \<lparr>ret_Name = [], ret_Type = [], ReturnsError = False, FailCond = [], fnMaybeAbsent = False\<rparr>,
     PrintTrace = False, dllname = ''api_ms_win_core_com_l1_1_0'', dllfuncname = ''CoTaskMemFree'', fn_src = trim sys_coTaskMemFree, curTmpVarIdx = 0\<rparr>"
  by code_simp

lemma coTaskMemFree_line:
  "coTaskMemFree sys buffer s =
     returning (\<lambda>_. ()) (line_meaning (sys_consts sys) sys sys_coTaskMemFree [Word buffer] s)"
  by (simp add: sys_simps sys_defs parse_coTaskMemFree coTaskMemFree_def sys_consts_def split del: if_split) (intro
    sys_cong; simp)

section \<open>Package socket\<close>

definition procbind :: procedure where [sys_defs]: "procbind = (''ws2_32.dll'', ''bind'')"
definition procgetpeername :: procedure where [sys_defs]: "procgetpeername = (''ws2_32.dll'', ''getpeername'')"
definition procgetsockname :: procedure where [sys_defs]: "procgetsockname = (''ws2_32.dll'', ''getsockname'')"

definition bind ::
  "'s windows \<Rightarrow> uintptr \<Rightarrow> uintptr \<Rightarrow> u32 \<Rightarrow> 's \<Rightarrow> go_error option res \<times> 's" where
  "bind sys sock name namelen s =
     returning (\<lambda>(r1, e1). if r1 = socketError then Some (errnoErr e1) else None)
       (syscalln sys procbind 3 [sock, name, scast namelen] s)"

definition getpeername ::
  "'s windows \<Rightarrow> uintptr \<Rightarrow> uintptr \<Rightarrow> uintptr \<Rightarrow> 's \<Rightarrow> go_error option res \<times> 's" where
  "getpeername sys sock name namelen s =
     returning (\<lambda>(r1, e1). if r1 = socketError then Some (errnoErr e1) else None)
       (syscalln sys procgetpeername 3 [sock, name, namelen] s)"

definition getsockname ::
  "'s windows \<Rightarrow> uintptr \<Rightarrow> uintptr \<Rightarrow> uintptr \<Rightarrow> 's \<Rightarrow> go_error option res \<times> 's" where
  "getsockname sys sock name namelen s =
     returning (\<lambda>(r1, e1). if r1 = socketError then Some (errnoErr e1) else None)
       (syscalln sys procgetsockname 3 [sock, name, namelen] s)"

subsection \<open>Declarations\<close>

definition sys_bind :: string where
  "sys_bind =
    '' bind(s windows.Handle, name unsafe.Pointer, namelen int32) (err error) [failretval==socketError] = '' @
    ''ws2_32.bind''"

definition sys_getpeername :: string where
  "sys_getpeername =
    '' getpeername(s windows.Handle, name unsafe.Pointer, namelen *int32) (err error) '' @
    ''[failretval==socketError] = ws2_32.getpeername''"

definition sys_getsockname :: string where
  "sys_getsockname =
    '' getsockname(s windows.Handle, name unsafe.Pointer, namelen *int32) (err error) '' @
    ''[failretval==socketError] = ws2_32.getsockname''"

lemma parse_bind:
  "newFn False sys_bind = Inr
    \<lparr>fn_Name = ''bind'',
     Params = [\<lparr>prm_Name = ''s'', prm_Type = ''windows.Handle'', tmpVarIdx = -1\<rparr>,
       \<lparr>prm_Name = ''name'', prm_Type = ''unsafe.Pointer'', tmpVarIdx = -1\<rparr>,
       \<lparr>prm_Name = ''namelen'', prm_Type = ''int32'', tmpVarIdx = -1\<rparr>],
     fn_Rets = \<lparr>ret_Name = [], ret_Type = [], ReturnsError = True, FailCond = ''failretval==socketError'',
       fnMaybeAbsent = False\<rparr>,
     PrintTrace = False, dllname = ''ws2_32'', dllfuncname = ''bind'', fn_src = trim sys_bind, curTmpVarIdx = 0\<rparr>"
  by code_simp

lemma parse_getpeername:
  "newFn False sys_getpeername = Inr
    \<lparr>fn_Name = ''getpeername'',
     Params = [\<lparr>prm_Name = ''s'', prm_Type = ''windows.Handle'', tmpVarIdx = -1\<rparr>,
       \<lparr>prm_Name = ''name'', prm_Type = ''unsafe.Pointer'', tmpVarIdx = -1\<rparr>,
       \<lparr>prm_Name = ''namelen'', prm_Type = ''*int32'', tmpVarIdx = -1\<rparr>],
     fn_Rets = \<lparr>ret_Name = [], ret_Type = [], ReturnsError = True, FailCond = ''failretval==socketError'',
       fnMaybeAbsent = False\<rparr>,
     PrintTrace = False, dllname = ''ws2_32'', dllfuncname = ''getpeername'', fn_src = trim sys_getpeername, curTmpVarIdx = 0\<rparr>"
  by code_simp

lemma parse_getsockname:
  "newFn False sys_getsockname = Inr
    \<lparr>fn_Name = ''getsockname'',
     Params = [\<lparr>prm_Name = ''s'', prm_Type = ''windows.Handle'', tmpVarIdx = -1\<rparr>,
       \<lparr>prm_Name = ''name'', prm_Type = ''unsafe.Pointer'', tmpVarIdx = -1\<rparr>,
       \<lparr>prm_Name = ''namelen'', prm_Type = ''*int32'', tmpVarIdx = -1\<rparr>],
     fn_Rets = \<lparr>ret_Name = [], ret_Type = [], ReturnsError = True, FailCond = ''failretval==socketError'',
       fnMaybeAbsent = False\<rparr>,
     PrintTrace = False, dllname = ''ws2_32'', dllfuncname = ''getsockname'', fn_src = trim sys_getsockname, curTmpVarIdx = 0\<rparr>"
  by code_simp

lemma bind_line:
  "bind sys sock name namelen s =
     returning snd (line_meaning (sys_consts sys) sys sys_bind [Word sock, Word name, Word (scast namelen)] s)"
  by (simp add: sys_simps sys_defs parse_bind bind_def sys_consts_def split del: if_split) (intro sys_cong; simp)

lemma getpeername_line:
  "getpeername sys sock name namelen s =
     returning snd (line_meaning (sys_consts sys) sys sys_getpeername [Word sock, Word name, Word namelen] s)"
  by (simp add: sys_simps sys_defs parse_getpeername getpeername_def sys_consts_def split del: if_split) (intro
    sys_cong; simp)

lemma getsockname_line:
  "getsockname sys sock name namelen s =
     returning snd (line_meaning (sys_consts sys) sys sys_getsockname [Word sock, Word name, Word namelen] s)"
  by (simp add: sys_simps sys_defs parse_getsockname getsockname_def sys_consts_def split del: if_split) (intro
    sys_cong; simp)

section \<open>Package bindfilter\<close>

definition procBfGetMappings :: procedure where [sys_defs]: "procBfGetMappings = (''bindfltapi.dll'', ''BfGetMappings'')"
definition procBfRemoveMapping :: procedure where [sys_defs]: "procBfRemoveMapping = (''bindfltapi.dll'', ''BfRemoveMapping'')"
definition procBfSetupFilter :: procedure where [sys_defs]: "procBfSetupFilter = (''bindfltapi.dll'', ''BfSetupFilter'')"

definition bfRemoveMapping_ptr ::
  "'s windows \<Rightarrow> uintptr \<Rightarrow> uintptr \<Rightarrow> 's \<Rightarrow> go_error option res \<times> 's" where
  [sys_defs]: "bfRemoveMapping_ptr sys jobHandle virtRootPath s =
     if_found sys procBfRemoveMapping Some (\<lambda>s. returning (\<lambda>(r0, _). hresult r0)
       (syscalln sys procBfRemoveMapping 2 [jobHandle, virtRootPath, 0] s)) s"

definition bfSetupFilter_ptr ::
  "'s windows \<Rightarrow> uintptr \<Rightarrow> u32 \<Rightarrow> uintptr \<Rightarrow> uintptr \<Rightarrow> uintptr \<Rightarrow> u32 \<Rightarrow> 's \<Rightarrow> go_error option res \<times> 's" where
  [sys_defs]: "bfSetupFilter_ptr sys jobHandle flags virtRootPath virtTargetPath virtExceptions
    virtExceptionPathCount s =
     if_found sys procBfSetupFilter Some (\<lambda>s. returning (\<lambda>(r0, _). hresult r0)
       (syscalln sys procBfSetupFilter 6 [jobHandle, ucast flags, virtRootPath, virtTargetPath, virtExceptions,
         ucast virtExceptionPathCount] s)) s"

definition bfGetMappings ::
  "'s windows \<Rightarrow> u32 \<Rightarrow> uintptr \<Rightarrow> uintptr \<Rightarrow> uintptr \<Rightarrow> uintptr \<Rightarrow> uintptr \<Rightarrow> 's \<Rightarrow> go_error option res \<times> 's" where
  "bfGetMappings sys flags jobHandle virtRootPath sid bufferSize outBuffer s =
     if_found sys procBfGetMappings Some (\<lambda>s. returning (\<lambda>(r0, _). hresult r0)
       (syscalln sys procBfGetMappings 6 [ucast flags, jobHandle, virtRootPath, sid, bufferSize, outBuffer] s)) s"

definition bfRemoveMapping ::
  "'s windows \<Rightarrow> uintptr \<Rightarrow> gostring \<Rightarrow> 's \<Rightarrow> go_error option res \<times> 's" where
  "bfRemoveMapping sys jobHandle virtRootPath s =
     with_string (UTF16PtrFromString sys virtRootPath s) Some (\<lambda>p0 s.
       bfRemoveMapping_ptr sys jobHandle p0 s)"

definition bfSetupFilter ::
  "'s windows \<Rightarrow> uintptr \<Rightarrow> u32 \<Rightarrow> gostring \<Rightarrow> gostring \<Rightarrow> uintptr \<Rightarrow> u32 \<Rightarrow> 's \<Rightarrow> go_error option res \<times> 's" where
  "bfSetupFilter sys jobHandle flags virtRootPath virtTargetPath virtExceptions virtExceptionPathCount s =
     with_string (UTF16PtrFromString sys virtRootPath s) Some (\<lambda>p0 s.
       with_string (UTF16PtrFromString sys virtTargetPath s) Some (\<lambda>p1 s.
         bfSetupFilter_ptr sys jobHandle flags p0 p1 virtExceptions virtExceptionPathCount s))"

subsection \<open>Declarations\<close>

definition sys_bfGetMappings :: string where
  "sys_bfGetMappings =
    '' bfGetMappings(flags uint32, jobHandle windows.Handle, virtRootPath *uint16, sid *windows.SID, '' @
    ''bufferSize *uint32, outBuffer *byte)  (hr error) = bindfltapi.BfGetMappings?''"

definition sys_bfRemoveMapping :: string where
  "sys_bfRemoveMapping =
    '' bfRemoveMapping(jobHandle windows.Handle, virtRootPath string)  (hr error) = '' @
    ''bindfltapi.BfRemoveMapping?''"

definition sys_bfSetupFilter :: string where
  "sys_bfSetupFilter =
    '' bfSetupFilter(jobHandle windows.Handle, flags uint32, virtRootPath string, virtTargetPath string, '' @
    ''virtExceptions **uint16, virtExceptionPathCount uint32) (hr error) = bindfltapi.BfSetupFilter?''"

lemma parse_bfGetMappings:
  "newFn False sys_bfGetMappings = Inr
    \<lparr>fn_Name = ''bfGetMappings'',
     Params = [\<lparr>prm_Name = ''flags'', prm_Type = ''uint32'', tmpVarIdx = -1\<rparr>,
       \<lparr>prm_Name = ''jobHandle'', prm_Type = ''windows.Handle'', tmpVarIdx = -1\<rparr>,
       \<lparr>prm_Name = ''virtRootPath'', prm_Type = ''*uint16'', tmpVarIdx = -1\<rparr>,
       \<lparr>prm_Name = ''sid'', prm_Type = ''*windows.SID'', tmpVarIdx = -1\<rparr>,
       \<lparr>prm_Name = ''bufferSize'', prm_Type = ''*uint32'', tmpVarIdx = -1\<rparr>,
       \<lparr>prm_Name = ''outBuffer'', prm_Type = ''*byte'', tmpVarIdx = -1\<rparr>],
     fn_Rets = \<lparr>ret_Name = ''hr'', ret_Type = ''error'', ReturnsError = False, FailCond = [], fnMaybeAbsent = True\<rparr>,
     PrintTrace = False, dllname = ''bindfltapi'', dllfuncname = ''BfGetMappings'', fn_src = trim sys_bfGetMappings, curTmpVarIdx = 0\<rparr>"
  by code_simp

lemma parse_bfRemoveMapping:
  "newFn False sys_bfRemoveMapping = Inr
    \<lparr>fn_Name = ''bfRemoveMapping'',
     Params = [\<lparr>prm_Name = ''jobHandle'', prm_Type = ''windows.Handle'', tmpVarIdx = -1\<rparr>,
       \<lparr>prm_Name = ''virtRootPath'', prm_Type = ''string'', tmpVarIdx = -1\<rparr>],
     fn_Rets = \<lparr>ret_Name = ''hr'', ret_Type = ''error'', ReturnsError = False, FailCond = [], fnMaybeAbsent = True\<rparr>,
     PrintTrace = False, dllname = ''bindfltapi'', dllfuncname = ''BfRemoveMapping'', fn_src = trim sys_bfRemoveMapping, curTmpVarIdx = 0\<rparr>"
  by code_simp

lemma parse_bfSetupFilter:
  "newFn False sys_bfSetupFilter = Inr
    \<lparr>fn_Name = ''bfSetupFilter'',
     Params = [\<lparr>prm_Name = ''jobHandle'', prm_Type = ''windows.Handle'', tmpVarIdx = -1\<rparr>,
       \<lparr>prm_Name = ''flags'', prm_Type = ''uint32'', tmpVarIdx = -1\<rparr>,
       \<lparr>prm_Name = ''virtRootPath'', prm_Type = ''string'', tmpVarIdx = -1\<rparr>,
       \<lparr>prm_Name = ''virtTargetPath'', prm_Type = ''string'', tmpVarIdx = -1\<rparr>,
       \<lparr>prm_Name = ''virtExceptions'', prm_Type = ''**uint16'', tmpVarIdx = -1\<rparr>,
       \<lparr>prm_Name = ''virtExceptionPathCount'', prm_Type = ''uint32'', tmpVarIdx = -1\<rparr>],
     fn_Rets = \<lparr>ret_Name = ''hr'', ret_Type = ''error'', ReturnsError = False, FailCond = [], fnMaybeAbsent = True\<rparr>,
     PrintTrace = False, dllname = ''bindfltapi'', dllfuncname = ''BfSetupFilter'', fn_src = trim sys_bfSetupFilter, curTmpVarIdx = 0\<rparr>"
  by code_simp

lemma bfGetMappings_line:
  "bfGetMappings sys flags jobHandle virtRootPath sid bufferSize outBuffer s =
     returning snd (line_meaning (sys_consts sys) sys sys_bfGetMappings [Word (ucast flags), Word jobHandle, Word
       virtRootPath, Word sid, Word bufferSize, Word outBuffer] s)"
  by (simp add: sys_simps sys_defs parse_bfGetMappings bfGetMappings_def sys_consts_def split del: if_split) (intro
    sys_cong; simp)

lemma bfRemoveMapping_line:
  "bfRemoveMapping sys jobHandle virtRootPath s =
     returning snd (line_meaning (sys_consts sys) sys sys_bfRemoveMapping [Word jobHandle, Text virtRootPath] s)"
  by (simp add: sys_simps sys_defs parse_bfRemoveMapping bfRemoveMapping_def sys_consts_def split del: if_split)
    (intro sys_cong; simp)

lemma bfSetupFilter_line:
  "bfSetupFilter sys jobHandle flags virtRootPath virtTargetPath virtExceptions virtExceptionPathCount s =
     returning snd (line_meaning (sys_consts sys) sys sys_bfSetupFilter [Word jobHandle, Word (ucast flags), Text
       virtRootPath, Text virtTargetPath, Word virtExceptions, Word (ucast virtExceptionPathCount)] s)"
  by (simp add: sys_simps sys_defs parse_bfSetupFilter bfSetupFilter_def sys_consts_def split del: if_split) (intro
    sys_cong; simp)

section \<open>Package etw\<close>

definition procEventRegister :: procedure where [sys_defs]: "procEventRegister = (''advapi32.dll'', ''EventRegister'')"
definition procEventSetInformation :: procedure where [sys_defs]: "procEventSetInformation = (''advapi32.dll'', ''EventSetInformation'')"
definition procEventUnregister :: procedure where [sys_defs]: "procEventUnregister = (''advapi32.dll'', ''EventUnregister'')"
definition procEventWriteTransfer :: procedure where [sys_defs]: "procEventWriteTransfer = (''advapi32.dll'', ''EventWriteTransfer'')"

definition eventRegister ::
  "'s windows \<Rightarrow> uintptr \<Rightarrow> uintptr \<Rightarrow> uintptr \<Rightarrow> uintptr \<Rightarrow> 's \<Rightarrow> go_error option res \<times> 's" where
  "eventRegister sys providerId callback callbackContext providerHandle s =
     returning (\<lambda>(r0, _). if r0 \<noteq> 0 then Some (errno_of r0) else None)
       (syscalln sys procEventRegister 4 [providerId, callback, callbackContext, providerHandle, 0, 0] s)"

definition eventSetInformation_64 ::
  "'s windows \<Rightarrow> uintptr \<Rightarrow> u32 \<Rightarrow> uintptr \<Rightarrow> u32 \<Rightarrow> 's \<Rightarrow> go_error option res \<times> 's" where
  "eventSetInformation_64 sys providerHandle cls information len s =
     returning (\<lambda>(r0, _). if r0 \<noteq> 0 then Some (errno_of r0) else None)
       (syscalln sys procEventSetInformation 4 [providerHandle, ucast cls, information, ucast len, 0, 0] s)"

definition eventSetInformation_32 ::
  "'s windows \<Rightarrow> u32 \<Rightarrow> u32 \<Rightarrow> u32 \<Rightarrow> uintptr \<Rightarrow> u32 \<Rightarrow> 's \<Rightarrow> go_error option res \<times> 's" where
  "eventSetInformation_32 sys providerHandle_low providerHandle_high cls information len s =
     returning (\<lambda>(r0, _). if r0 \<noteq> 0 then Some (errno_of r0) else None)
       (syscalln sys procEventSetInformation 5 [ucast providerHandle_low, ucast providerHandle_high, ucast cls,
         information, ucast len, 0] s)"

definition eventUnregister_64 ::
  "'s windows \<Rightarrow> uintptr \<Rightarrow> 's \<Rightarrow> go_error option res \<times> 's" where
  "eventUnregister_64 sys providerHandle s =
     returning (\<lambda>(r0, _). if r0 \<noteq> 0 then Some (errno_of r0) else None)
       (syscalln sys procEventUnregister 1 [providerHandle, 0, 0] s)"

definition eventUnregister_32 ::
  "'s windows \<Rightarrow> u32 \<Rightarrow> u32 \<Rightarrow> 's \<Rightarrow> go_error option res \<times> 's" where
  "eventUnregister_32 sys providerHandle_low providerHandle_high s =
     returning (\<lambda>(r0, _). if r0 \<noteq> 0 then Some (errno_of r0) else None)
       (syscalln sys procEventUnregister 2 [ucast providerHandle_low, ucast providerHandle_high, 0] s)"

definition eventWriteTransfer_64 ::
  "'s windows \<Rightarrow> uintptr \<Rightarrow> uintptr \<Rightarrow> uintptr \<Rightarrow> uintptr \<Rightarrow> u32 \<Rightarrow> uintptr \<Rightarrow> 's \<Rightarrow> go_error option res \<times> 's" where
  "eventWriteTransfer_64 sys providerHandle descriptor activityID relatedActivityID dataDescriptorCount
    dataDescriptors s =
     returning (\<lambda>(r0, _). if r0 \<noteq> 0 then Some (errno_of r0) else None)
       (syscalln sys procEventWriteTransfer 6 [providerHandle, descriptor, activityID, relatedActivityID, ucast
         dataDescriptorCount, dataDescriptors] s)"

definition eventWriteTransfer_32 ::
  "'s windows \<Rightarrow> u32 \<Rightarrow> u32 \<Rightarrow> uintptr \<Rightarrow> uintptr \<Rightarrow> uintptr \<Rightarrow> u32 \<Rightarrow> uintptr \<Rightarrow> 's \<Rightarrow> go_error option res \<times> 's" where
  "eventWriteTransfer_32 sys providerHandle_low providerHandle_high descriptor activityID relatedActivityID
    dataDescriptorCount dataDescriptors s =
     returning (\<lambda>(r0, _). if r0 \<noteq> 0 then Some (errno_of r0) else None)
       (syscalln sys procEventWriteTransfer 7 [ucast providerHandle_low, ucast providerHandle_high, descriptor,
         activityID, relatedActivityID, ucast dataDescriptorCount, dataDescriptors, 0, 0] s)"

subsection \<open>Declarations\<close>

definition sys_eventRegister :: string where
  "sys_eventRegister =
    '' eventRegister(providerId *windows.GUID, callback uintptr, callbackContext uintptr, providerHandle '' @
    ''*providerHandle) (win32err error) = advapi32.EventRegister''"

definition sys_eventSetInformation_64 :: string where
  "sys_eventSetInformation_64 =
    '' eventSetInformation_64(providerHandle providerHandle, class eventInfoClass, information uintptr, '' @
    ''length uint32) (win32err error) = advapi32.EventSetInformation''"

definition sys_eventSetInformation_32 :: string where
  "sys_eventSetInformation_32 =
    '' eventSetInformation_32(providerHandle_low uint32, providerHandle_high uint32, class eventInfoClass,'' @
    '' information uintptr, length uint32) (win32err error) = advapi32.EventSetInformation''"

definition sys_eventUnregister_64 :: string where
  "sys_eventUnregister_64 =
    '' eventUnregister_64(providerHandle providerHandle) (win32err error) = advapi32.EventUnregister''"

definition sys_eventUnregister_32 :: string where
  "sys_eventUnregister_32 =
    '' eventUnregister_32(providerHandle_low uint32, providerHandle_high uint32) (win32err error) = '' @
    ''advapi32.EventUnregister''"

definition sys_eventWriteTransfer_64 :: string where
  "sys_eventWriteTransfer_64 =
    '' eventWriteTransfer_64(providerHandle providerHandle, descriptor *eventDescriptor, activityID '' @
    ''*windows.GUID, relatedActivityID *windows.GUID, dataDescriptorCount uint32, dataDescriptors '' @
    ''*eventDataDescriptor) (win32err error) = advapi32.EventWriteTransfer''"

definition sys_eventWriteTransfer_32 :: string where
  "sys_eventWriteTransfer_32 =
    '' eventWriteTransfer_32(providerHandle_low uint32, providerHandle_high uint32, descriptor '' @
    ''*eventDescriptor, activityID *windows.GUID, relatedActivityID *windows.GUID, dataDescriptorCount '' @
    ''uint32, dataDescriptors *eventDataDescriptor) (win32err error) = advapi32.EventWriteTransfer''"

lemma parse_eventRegister:
  "newFn False sys_eventRegister = Inr
    \<lparr>fn_Name = ''eventRegister'',
     Params = [\<lparr>prm_Name = ''providerId'', prm_Type = ''*windows.GUID'', tmpVarIdx = -1\<rparr>,
       \<lparr>prm_Name = ''callback'', prm_Type = ''uintptr'', tmpVarIdx = -1\<rparr>,
       \<lparr>prm_Name = ''callbackContext'', prm_Type = ''uintptr'', tmpVarIdx = -1\<rparr>,
       \<lparr>prm_Name = ''providerHandle'', prm_Type = ''*providerHandle'', tmpVarIdx = -1\<rparr>],
     fn_Rets = \<lparr>ret_Name = ''win32err'', ret_Type = ''error'', ReturnsError = False, FailCond = [], fnMaybeAbsent = False\<rparr>,
     PrintTrace = False, dllname = ''advapi32'', dllfuncname = ''EventRegister'', fn_src = trim sys_eventRegister, curTmpVarIdx = 0\<rparr>"
  by code_simp

lemma parse_eventSetInformation_64:
  "newFn False sys_eventSetInformation_64 = Inr
    \<lparr>fn_Name = ''eventSetInformation_64'',
     Params = [\<lparr>prm_Name = ''providerHandle'', prm_Type = ''providerHandle'', tmpVarIdx = -1\<rparr>,
       \<lparr>prm_Name = ''class'', prm_Type = ''eventInfoClass'', tmpVarIdx = -1\<rparr>,
       \<lparr>prm_Name = ''information'', prm_Type = ''uintptr'', tmpVarIdx = -1\<rparr>,
       \<lparr>prm_Name = ''length'', prm_Type = ''uint32'', tmpVarIdx = -1\<rparr>],
     fn_Rets = \<lparr>ret_Name = ''win32err'', ret_Type = ''error'', ReturnsError = False, FailCond = [], fnMaybeAbsent = False\<rparr>,
     PrintTrace = False, dllname = ''advapi32'', dllfuncname = ''EventSetInformation'', fn_src = trim sys_eventSetInformation_64, curTmpVarIdx = 0\<rparr>"
  by code_simp

lemma parse_eventSetInformation_32:
  "newFn False sys_eventSetInformation_32 = Inr
    \<lparr>fn_Name = ''eventSetInformation_32'',
     Params = [\<lparr>prm_Name = ''providerHandle_low'', prm_Type = ''uint32'', tmpVarIdx = -1\<rparr>,
       \<lparr>prm_Name = ''providerHandle_high'', prm_Type = ''uint32'', tmpVarIdx = -1\<rparr>,
       \<lparr>prm_Name = ''class'', prm_Type = ''eventInfoClass'', tmpVarIdx = -1\<rparr>,
       \<lparr>prm_Name = ''information'', prm_Type = ''uintptr'', tmpVarIdx = -1\<rparr>,
       \<lparr>prm_Name = ''length'', prm_Type = ''uint32'', tmpVarIdx = -1\<rparr>],
     fn_Rets = \<lparr>ret_Name = ''win32err'', ret_Type = ''error'', ReturnsError = False, FailCond = [], fnMaybeAbsent = False\<rparr>,
     PrintTrace = False, dllname = ''advapi32'', dllfuncname = ''EventSetInformation'', fn_src = trim sys_eventSetInformation_32, curTmpVarIdx = 0\<rparr>"
  by code_simp

lemma parse_eventUnregister_64:
  "newFn False sys_eventUnregister_64 = Inr
    \<lparr>fn_Name = ''eventUnregister_64'',
     Params = [\<lparr>prm_Name = ''providerHandle'', prm_Type = ''providerHandle'', tmpVarIdx = -1\<rparr>],
     fn_Rets = \<lparr>ret_Name = ''win32err'', ret_Type = ''error'', ReturnsError = False, FailCond = [], fnMaybeAbsent = False\<rparr>,
     PrintTrace = False, dllname = ''advapi32'', dllfuncname = ''EventUnregister'', fn_src = trim sys_eventUnregister_64, curTmpVarIdx = 0\<rparr>"
  by code_simp

lemma parse_eventUnregister_32:
  "newFn False sys_eventUnregister_32 = Inr
    \<lparr>fn_Name = ''eventUnregister_32'',
     Params = [\<lparr>prm_Name = ''providerHandle_low'', prm_Type = ''uint32'', tmpVarIdx = -1\<rparr>,
       \<lparr>prm_Name = ''providerHandle_high'', prm_Type = ''uint32'', tmpVarIdx = -1\<rparr>],
     fn_Rets = \<lparr>ret_Name = ''win32err'', ret_Type = ''error'', ReturnsError = False, FailCond = [], fnMaybeAbsent = False\<rparr>,
     PrintTrace = False, dllname = ''advapi32'', dllfuncname = ''EventUnregister'', fn_src = trim sys_eventUnregister_32, curTmpVarIdx = 0\<rparr>"
  by code_simp

lemma parse_eventWriteTransfer_64:
  "newFn False sys_eventWriteTransfer_64 = Inr
    \<lparr>fn_Name = ''eventWriteTransfer_64'',
     Params = [\<lparr>prm_Name = ''providerHandle'', prm_Type = ''providerHandle'', tmpVarIdx = -1\<rparr>,
       \<lparr>prm_Name = ''descriptor'', prm_Type = ''*eventDescriptor'', tmpVarIdx = -1\<rparr>,
       \<lparr>prm_Name = ''activityID'', prm_Type = ''*windows.GUID'', tmpVarIdx = -1\<rparr>,
       \<lparr>prm_Name = ''relatedActivityID'', prm_Type = ''*windows.GUID'', tmpVarIdx = -1\<rparr>,
       \<lparr>prm_Name = ''dataDescriptorCount'', prm_Type = ''uint32'', tmpVarIdx = -1\<rparr>,
       \<lparr>prm_Name = ''dataDescriptors'', prm_Type = ''*eventDataDescriptor'', tmpVarIdx = -1\<rparr>],
     fn_Rets = \<lparr>ret_Name = ''win32err'', ret_Type = ''error'', ReturnsError = False, FailCond = [], fnMaybeAbsent = False\<rparr>,
     PrintTrace = False, dllname = ''advapi32'', dllfuncname = ''EventWriteTransfer'', fn_src = trim sys_eventWriteTransfer_64, curTmpVarIdx = 0\<rparr>"
  by code_simp

lemma parse_eventWriteTransfer_32:
  "newFn False sys_eventWriteTransfer_32 = Inr
    \<lparr>fn_Name = ''eventWriteTransfer_32'',
     Params = [\<lparr>prm_Name = ''providerHandle_low'', prm_Type = ''uint32'', tmpVarIdx = -1\<rparr>,
       \<lparr>prm_Name = ''providerHandle_high'', prm_Type = ''uint32'', tmpVarIdx = -1\<rparr>,
       \<lparr>prm_Name = ''descriptor'', prm_Type = ''*eventDescriptor'', tmpVarIdx = -1\<rparr>,
       \<lparr>prm_Name = ''activityID'', prm_Type = ''*windows.GUID'', tmpVarIdx = -1\<rparr>,
       \<lparr>prm_Name = ''relatedActivityID'', prm_Type = ''*windows.GUID'', tmpVarIdx = -1\<rparr>,
       \<lparr>prm_Name = ''dataDescriptorCount'', prm_Type = ''uint32'', tmpVarIdx = -1\<rparr>,
       \<lparr>prm_Name = ''dataDescriptors'', prm_Type = ''*eventDataDescriptor'', tmpVarIdx = -1\<rparr>],
     fn_Rets = \<lparr>ret_Name = ''win32err'', ret_Type = ''error'', ReturnsError = False, FailCond = [], fnMaybeAbsent = False\<rparr>,
     PrintTrace = False, dllname = ''advapi32'', dllfuncname = ''EventWriteTransfer'', fn_src = trim sys_eventWriteTransfer_32, curTmpVarIdx = 0\<rparr>"
  by code_simp

lemma eventRegister_line:
  "eventRegister sys providerId callback callbackContext providerHandle s =
     returning snd (line_meaning (sys_consts sys) sys sys_eventRegister [Word providerId, Word callback, Word
       callbackContext, Word providerHandle] s)"
  by (simp add: sys_simps sys_defs parse_eventRegister eventRegister_def sys_consts_def split del: if_split) (intro
    sys_cong; simp)

lemma eventSetInformation_64_line:
  "eventSetInformation_64 sys providerHandle cls information len s =
     returning snd (line_meaning (sys_consts sys) sys sys_eventSetInformation_64 [Word providerHandle, Word (ucast cls),
       Word information, Word (ucast len)] s)"
  by (simp add: sys_simps sys_defs parse_eventSetInformation_64 eventSetInformation_64_def sys_consts_def split del:
    if_split) (intro sys_cong; simp)

lemma eventSetInformation_32_line:
  "eventSetInformation_32 sys providerHandle_low providerHandle_high cls information len s =
     returning snd (line_meaning (sys_consts sys) sys sys_eventSetInformation_32 [Word (ucast providerHandle_low), Word
       (ucast providerHandle_high), Word (ucast cls), Word information, Word (ucast len)] s)"
  by (simp add: sys_simps sys_defs parse_eventSetInformation_32 eventSetInformation_32_def sys_consts_def split del:
    if_split) (intro sys_cong; simp)

lemma eventUnregister_64_line:
  "eventUnregister_64 sys providerHandle s =
     returning snd (line_meaning (sys_consts sys) sys sys_eventUnregister_64 [Word providerHandle] s)"
  by (simp add: sys_simps sys_defs parse_eventUnregister_64 eventUnregister_64_def sys_consts_def split del:
    if_split) (intro sys_cong; simp)

lemma eventUnregister_32_line:
  "eventUnregister_32 sys providerHandle_low providerHandle_high s =
     returning snd (line_meaning (sys_consts sys) sys sys_eventUnregister_32 [Word (ucast providerHandle_low), Word
       (ucast providerHandle_high)] s)"
  by (simp add: sys_simps sys_defs parse_eventUnregister_32 eventUnregister_32_def sys_consts_def split del:
    if_split) (intro sys_cong; simp)

lemma eventWriteTransfer_64_line:
  "eventWriteTransfer_64 sys providerHandle descriptor activityID relatedActivityID dataDescriptorCount
    dataDescriptors s =
     returning snd (line_meaning (sys_consts sys) sys sys_eventWriteTransfer_64 [Word providerHandle, Word descriptor,
       Word activityID, Word relatedActivityID, Word (ucast dataDescriptorCount), Word dataDescriptors] s)"
  by (simp add: sys_simps sys_defs parse_eventWriteTransfer_64 eventWriteTransfer_64_def sys_consts_def split del:
    if_split) (intro sys_cong; simp)

lemma eventWriteTransfer_32_line:
  "eventWriteTransfer_32 sys providerHandle_low providerHandle_high descriptor activityID relatedActivityID
    dataDescriptorCount dataDescriptors s =
     returning snd (line_meaning (sys_consts sys) sys sys_eventWriteTransfer_32 [Word (ucast providerHandle_low), Word
       (ucast providerHandle_high), Word descriptor, Word activityID, Word relatedActivityID, Word (ucast
       dataDescriptorCount), Word dataDescriptors] s)"
  by (simp add: sys_simps sys_defs parse_eventWriteTransfer_32 eventWriteTransfer_32_def sys_consts_def split del:
    if_split) (intro sys_cong; simp)

section \<open>Package process\<close>

definition procK32EnumProcesses :: procedure where [sys_defs]: "procK32EnumProcesses = (''kernel32.dll'', ''K32EnumProcesses'')"
definition procK32GetProcessMemoryInfo :: procedure where [sys_defs]: "procK32GetProcessMemoryInfo = (''kernel32.dll'', ''K32GetProcessMemoryInfo'')"
definition procQueryFullProcessImageNameW :: procedure where [sys_defs]: "procQueryFullProcessImageNameW = (''kernel32.dll'', ''QueryFullProcessImageNameW'')"

definition enumProcesses ::
  "'s windows \<Rightarrow> uintptr \<Rightarrow> u32 \<Rightarrow> uintptr \<Rightarrow> 's \<Rightarrow> go_error option res \<times> 's" where
  "enumProcesses sys pids bufferSize retBufferSize s =
     returning (\<lambda>(r1, e1). if r1 = 0 then Some (errnoErr e1) else None)
       (syscalln sys procK32EnumProcesses 3 [pids, ucast bufferSize, retBufferSize] s)"

definition getProcessMemoryInfo ::
  "'s windows \<Rightarrow> uintptr \<Rightarrow> uintptr \<Rightarrow> u32 \<Rightarrow> 's \<Rightarrow> go_error option res \<times> 's" where
  "getProcessMemoryInfo sys process memCounters bufsize s =
     returning (\<lambda>(r1, e1). if r1 = 0 then Some (errnoErr e1) else None)
       (syscalln sys procK32GetProcessMemoryInfo 3 [process, memCounters, ucast bufsize] s)"

definition queryFullProcessImageName ::
  "'s windows \<Rightarrow> uintptr \<Rightarrow> u32 \<Rightarrow> uintptr \<Rightarrow> uintptr \<Rightarrow> 's \<Rightarrow> go_error option res \<times> 's" where
  "queryFullProcessImageName sys process flags buffer bufferSize s =
     returning (\<lambda>(r1, e1). if r1 = 0 then Some (errnoErr e1) else None)
       (syscalln sys procQueryFullProcessImageNameW 4 [process, ucast flags, buffer, bufferSize, 0, 0] s)"

subsection \<open>Declarations\<close>

definition sys_enumProcesses :: string where
  "sys_enumProcesses =
    '' enumProcesses(pids *uint32, bufferSize uint32, retBufferSize *uint32) (err error) = '' @
    ''kernel32.K32EnumProcesses''"

definition sys_getProcessMemoryInfo :: string where
  "sys_getProcessMemoryInfo =
    '' getProcessMemoryInfo(process handle, memCounters *ProcessMemoryCountersEx, size uint32) (err error)'' @
    '' = kernel32.K32GetProcessMemoryInfo''"

definition sys_queryFullProcessImageName :: string where
  "sys_queryFullProcessImageName =
    '' queryFullProcessImageName(process handle, flags uint32, buffer *uint16, bufferSize *uint32) (err '' @
    ''error) = kernel32.QueryFullProcessImageNameW''"

lemma parse_enumProcesses:
  "newFn False sys_enumProcesses = Inr
    \<lparr>fn_Name = ''enumProcesses'',
     Params = [\<lparr>prm_Name = ''pids'', prm_Type = ''*uint32'', tmpVarIdx = -1\<rparr>,
       \<lparr>prm_Name = ''bufferSize'', prm_Type = ''uint32'', tmpVarIdx = -1\<rparr>,
       \<lparr>prm_Name = ''retBufferSize'', prm_Type = ''*uint32'', tmpVarIdx = -1\<rparr>],
     fn_Rets = \<lparr>ret_Name = [], ret_Type = [], ReturnsError = True, FailCond = [], fnMaybeAbsent = False\<rparr>,
     PrintTrace = False, dllname = ''kernel32'', dllfuncname = ''K32EnumProcesses'', fn_src = trim sys_enumProcesses, curTmpVarIdx = 0\<rparr>"
  by code_simp

lemma parse_getProcessMemoryInfo:
  "newFn False sys_getProcessMemoryInfo = Inr
    \<lparr>fn_Name = ''getProcessMemoryInfo'',
     Params = [\<lparr>prm_Name = ''process'', prm_Type = ''handle'', tmpVarIdx = -1\<rparr>,
       \<lparr>prm_Name = ''memCounters'', prm_Type = ''*ProcessMemoryCountersEx'', tmpVarIdx = -1\<rparr>,
       \<lparr>prm_Name = ''size'', prm_Type = ''uint32'', tmpVarIdx = -1\<rparr>],
     fn_Rets = \<lparr>ret_Name = [], ret_Type = [], ReturnsError = True, FailCond = [], fnMaybeAbsent = False\<rparr>,
     PrintTrace = False, dllname = ''kernel32'', dllfuncname = ''K32GetProcessMemoryInfo'', fn_src = trim sys_getProcessMemoryInfo, curTmpVarIdx = 0\<rparr>"
  by code_simp

lemma parse_queryFullProcessImageName:
  "newFn False sys_queryFullProcessImageName = Inr
    \<lparr>fn_Name = ''queryFullProcessImageName'',
     Params = [\<lparr>prm_Name = ''process'', prm_Type = ''handle'', tmpVarIdx = -1\<rparr>,
       \<lparr>prm_Name = ''flags'', prm_Type = ''uint32'', tmpVarIdx = -1\<rparr>,
       \<lparr>prm_Name = ''buffer'', prm_Type = ''*uint16'', tmpVarIdx = -1\<rparr>,
       \<lparr>prm_Name = ''bufferSize'', prm_Type = ''*uint32'', tmpVarIdx = -1\<rparr>],
     fn_Rets = \<lparr>ret_Name = [], ret_Type = [], ReturnsError = True, FailCond = [], fnMaybeAbsent = False\<rparr>,
     PrintTrace = False, dllname = ''kernel32'', dllfuncname = ''QueryFullProcessImageNameW'', fn_src = trim sys_queryFullProcessImageName, curTmpVarIdx = 0\<rparr>"
  by code_simp

lemma enumProcesses_line:
  "enumProcesses sys pids bufferSize retBufferSize s =
     returning snd (line_meaning (sys_consts sys) sys sys_enumProcesses [Word pids, Word (ucast bufferSize), Word
       retBufferSize] s)"
  by (simp add: sys_simps sys_defs parse_enumProcesses enumProcesses_def sys_consts_def split del: if_split) (intro
    sys_cong; simp)

lemma getProcessMemoryInfo_line:
  "getProcessMemoryInfo sys process memCounters bufsize s =
     returning snd (line_meaning (sys_consts sys) sys sys_getProcessMemoryInfo [Word process, Word memCounters, Word
       (ucast bufsize)] s)"
  by (simp add: sys_simps sys_defs parse_getProcessMemoryInfo getProcessMemoryInfo_def sys_consts_def split del:
    if_split) (intro sys_cong; simp)

lemma queryFullProcessImageName_line:
  "queryFullProcessImageName sys process flags buffer bufferSize s =
     returning snd (line_meaning (sys_consts sys) sys sys_queryFullProcessImageName [Word process, Word (ucast flags),
       Word buffer, Word bufferSize] s)"
  by (simp add: sys_simps sys_defs parse_queryFullProcessImageName queryFullProcessImageName_def sys_consts_def
    split del: if_split) (intro sys_cong; simp)

section \<open>Package security\<close>

definition procGetSecurityInfo :: procedure where [sys_defs]: "procGetSecurityInfo = (''advapi32.dll'', ''GetSecurityInfo'')"
definition procSetEntriesInAclW :: procedure where [sys_defs]: "procSetEntriesInAclW = (''advapi32.dll'', ''SetEntriesInAclW'')"
definition procSetSecurityInfo :: procedure where [sys_defs]: "procSetSecurityInfo = (''advapi32.dll'', ''SetSecurityInfo'')"

definition getSecurityInfo ::
  "'s windows \<Rightarrow> uintptr \<Rightarrow> u32 \<Rightarrow> u32 \<Rightarrow> uintptr \<Rightarrow> uintptr \<Rightarrow> uintptr \<Rightarrow> uintptr \<Rightarrow> uintptr \<Rightarrow> 's \<Rightarrow> go_error option res \<times>
    's" where
  "getSecurityInfo sys handle objectType si ppsidOwner ppsidGroup ppDacl ppSacl ppSecurityDescriptor s =
     returning (\<lambda>(r0, _). if r0 \<noteq> 0 then Some (errno_of r0) else None)
       (syscalln sys procGetSecurityInfo 8 [handle, ucast objectType, ucast si, ppsidOwner, ppsidGroup, ppDacl,
         ppSacl, ppSecurityDescriptor, 0] s)"

definition setEntriesInAcl ::
  "'s windows \<Rightarrow> uintptr \<Rightarrow> uintptr \<Rightarrow> uintptr \<Rightarrow> uintptr \<Rightarrow> 's \<Rightarrow> go_error option res \<times> 's" where
  "setEntriesInAcl sys num pListOfEEs oldAcl newAcl s =
     returning (\<lambda>(r0, _). if r0 \<noteq> 0 then Some (errno_of r0) else None)
       (syscalln sys procSetEntriesInAclW 4 [num, pListOfEEs, oldAcl, newAcl, 0, 0] s)"

definition setSecurityInfo ::
  "'s windows \<Rightarrow> uintptr \<Rightarrow> u32 \<Rightarrow> u32 \<Rightarrow> uintptr \<Rightarrow> uintptr \<Rightarrow> uintptr \<Rightarrow> uintptr \<Rightarrow> 's \<Rightarrow> go_error option res \<times> 's" where
  "setSecurityInfo sys handle objectType si psidOwner psidGroup pDacl pSacl s =
     returning (\<lambda>(r0, _). if r0 \<noteq> 0 then Some (errno_of r0) else None)
       (syscalln sys procSetSecurityInfo 7 [handle, ucast objectType, ucast si, psidOwner, psidGroup, pDacl, pSacl,
         0, 0] s)"

subsection \<open>Declarations\<close>

definition sys_getSecurityInfo :: string where
  "sys_getSecurityInfo =
    '' getSecurityInfo(handle windows.Handle, objectType uint32, si uint32, ppsidOwner **uintptr, '' @
    ''ppsidGroup **uintptr, ppDacl *uintptr, ppSacl *uintptr, ppSecurityDescriptor *uintptr) (win32err '' @
    ''error) = advapi32.GetSecurityInfo''"

definition sys_setEntriesInAcl :: string where
  "sys_setEntriesInAcl =
    '' setEntriesInAcl(count uintptr, pListOfEEs uintptr, oldAcl uintptr, newAcl *uintptr) (win32err '' @
    ''error) = advapi32.SetEntriesInAclW''"

definition sys_setSecurityInfo :: string where
  "sys_setSecurityInfo =
    '' setSecurityInfo(handle windows.Handle, objectType uint32, si uint32, psidOwner uintptr, psidGroup '' @
    ''uintptr, pDacl uintptr, pSacl uintptr) (win32err error) = advapi32.SetSecurityInfo''"

lemma parse_getSecurityInfo:
  "newFn False sys_getSecurityInfo = Inr
    \<lparr>fn_Name = ''getSecurityInfo'',
     Params = [\<lparr>prm_Name = ''handle'', prm_Type = ''windows.Handle'', tmpVarIdx = -1\<rparr>,
       \<lparr>prm_Name = ''objectType'', prm_Type = ''uint32'', tmpVarIdx = -1\<rparr>,
       \<lparr>prm_Name = ''si'', prm_Type = ''uint32'', tmpVarIdx = -1\<rparr>,
       \<lparr>prm_Name = ''ppsidOwner'', prm_Type = ''**uintptr'', tmpVarIdx = -1\<rparr>,
       \<lparr>prm_Name = ''ppsidGroup'', prm_Type = ''**uintptr'', tmpVarIdx = -1\<rparr>,
       \<lparr>prm_Name = ''ppDacl'', prm_Type = ''*uintptr'', tmpVarIdx = -1\<rparr>,
       \<lparr>prm_Name = ''ppSacl'', prm_Type = ''*uintptr'', tmpVarIdx = -1\<rparr>,
       \<lparr>prm_Name = ''ppSecurityDescriptor'', prm_Type = ''*uintptr'', tmpVarIdx = -1\<rparr>],
     fn_Rets = \<lparr>ret_Name = ''win32err'', ret_Type = ''error'', ReturnsError = False, FailCond = [], fnMaybeAbsent = False\<rparr>,
     PrintTrace = False, dllname = ''advapi32'', dllfuncname = ''GetSecurityInfo'', fn_src = trim sys_getSecurityInfo, curTmpVarIdx = 0\<rparr>"
  by code_simp

lemma parse_setEntriesInAcl:
  "newFn False sys_setEntriesInAcl = Inr
    \<lparr>fn_Name = ''setEntriesInAcl'',
     Params = [\<lparr>prm_Name = ''count'', prm_Type = ''uintptr'', tmpVarIdx = -1\<rparr>,
       \<lparr>prm_Name = ''pListOfEEs'', prm_Type = ''uintptr'', tmpVarIdx = -1\<rparr>,
       \<lparr>prm_Name = ''oldAcl'', prm_Type = ''uintptr'', tmpVarIdx = -1\<rparr>,
       \<lparr>prm_Name = ''newAcl'', prm_Type = ''*uintptr'', tmpVarIdx = -1\<rparr>],
     fn_Rets = \<lparr>ret_Name = ''win32err'', ret_Type = ''error'', ReturnsError = False, FailCond = [], fnMaybeAbsent = False\<rparr>,
     PrintTrace = False, dllname = ''advapi32'', dllfuncname = ''SetEntriesInAclW'', fn_src = trim sys_setEntriesInAcl, curTmpVarIdx = 0\<rparr>"
  by code_simp

lemma parse_setSecurityInfo:
  "newFn False sys_setSecurityInfo = Inr
    \<lparr>fn_Name = ''setSecurityInfo'',
     Params = [\<lparr>prm_Name = ''handle'', prm_Type = ''windows.Handle'', tmpVarIdx = -1\<rparr>,
       \<lparr>prm_Name = ''objectType'', prm_Type = ''uint32'', tmpVarIdx = -1\<rparr>,
       \<lparr>prm_Name = ''si'', prm_Type = ''uint32'', tmpVarIdx = -1\<rparr>,
       \<lparr>prm_Name = ''psidOwner'', prm_Type = ''uintptr'', tmpVarIdx = -1\<rparr>,
       \<lparr>prm_Name = ''psidGroup'', prm_Type = ''uintptr'', tmpVarIdx = -1\<rparr>,
       \<lparr>prm_Name = ''pDacl'', prm_Type = ''uintptr'', tmpVarIdx = -1\<rparr>,
       \<lparr>prm_Name = ''pSacl'', prm_Type = ''uintptr'', tmpVarIdx = -1\<rparr>],
     fn_Rets = \<lparr>ret_Name = ''win32err'', ret_Type = ''error'', ReturnsError = False, FailCond = [], fnMaybeAbsent = False\<rparr>,
     PrintTrace = False, dllname = ''advapi32'', dllfuncname = ''SetSecurityInfo'', fn_src = trim sys_setSecurityInfo, curTmpVarIdx = 0\<rparr>"
  by code_simp

lemma getSecurityInfo_line:
  "getSecurityInfo sys handle objectType si ppsidOwner ppsidGroup ppDacl ppSacl ppSecurityDescriptor s =
     returning snd (line_meaning (sys_consts sys) sys sys_getSecurityInfo [Word handle, Word (ucast objectType), Word
       (ucast si), Word ppsidOwner, Word ppsidGroup, Word ppDacl, Word ppSacl, Word ppSecurityDescriptor] s)"
  by (simp add: sys_simps sys_defs parse_getSecurityInfo getSecurityInfo_def sys_consts_def split del: if_split)
    (intro sys_cong; simp)

lemma setEntriesInAcl_line:
  "setEntriesInAcl sys num pListOfEEs oldAcl newAcl s =
     returning snd (line_meaning (sys_consts sys) sys sys_setEntriesInAcl [Word num, Word pListOfEEs, Word oldAcl, Word
       newAcl] s)"
  by (simp add: sys_simps sys_defs parse_setEntriesInAcl setEntriesInAcl_def sys_consts_def split del: if_split)
    (intro sys_cong; simp)

lemma setSecurityInfo_line:
  "setSecurityInfo sys handle objectType si psidOwner psidGroup pDacl pSacl s =
     returning snd (line_meaning (sys_consts sys) sys sys_setSecurityInfo [Word handle, Word (ucast objectType), Word
       (ucast si), Word psidOwner, Word psidGroup, Word pDacl, Word pSacl] s)"
  by (simp add: sys_simps sys_defs parse_setSecurityInfo setSecurityInfo_def sys_consts_def split del: if_split)
    (intro sys_cong; simp)

lemmas package_lines =
  attachVirtualDisk_line createVirtualDisk_line detachVirtualDisk_line getVirtualDiskPhysicalPath_line
  openVirtualDisk_line hcsFormatWritableLayerVhd_line hcsGetLayerVhdMountPath_line CreateFile_line
  coTaskMemFree_line bind_line getpeername_line getsockname_line bfGetMappings_line
  bfRemoveMapping_line bfSetupFilter_line eventRegister_line eventSetInformation_64_line
  eventSetInformation_32_line eventUnregister_64_line eventUnregister_32_line
  eventWriteTransfer_64_line eventWriteTransfer_32_line enumProcesses_line getProcessMemoryInfo_line
  queryFullProcessImageName_line getSecurityInfo_line setEntriesInAcl_line setSecurityInfo_line

text \<open>
  C19: The generated functions of all other packages do what their declarations mean; those of
  procedures that may be absent return the error of looking for them and make no call.
\<close>

theorem package_calls:
  "attachVirtualDisk sys = (\<lambda>handle securityDescriptor attachVirtualDiskFlag providerSpecificFlags parameters
    overlapped s.
      returning snd (line_meaning (sys_consts sys) sys sys_attachVirtualDisk [Word handle, Word securityDescriptor, Word
        (ucast attachVirtualDiskFlag), Word (ucast providerSpecificFlags), Word parameters, Word overlapped] s)) \<and>
   createVirtualDisk sys = (\<lambda>virtualStorageType path virtualDiskAccessMask securityDescriptor createVirtualDiskFlags
     providerSpecificFlags parameters overlapped handle s.
      returning snd (line_meaning (sys_consts sys) sys sys_createVirtualDisk [Word virtualStorageType, Text path, Word
        (ucast virtualDiskAccessMask), Word securityDescriptor, Word (ucast createVirtualDiskFlags), Word (ucast
        providerSpecificFlags), Word parameters, Word overlapped, Word handle] s)) \<and>
   detachVirtualDisk sys = (\<lambda>handle detachVirtualDiskFlags providerSpecificFlags s.
      returning snd (line_meaning (sys_consts sys) sys sys_detachVirtualDisk [Word handle, Word (ucast
        detachVirtualDiskFlags), Word (ucast providerSpecificFlags)] s)) \<and>
   getVirtualDiskPhysicalPath sys = (\<lambda>handle diskPathSizeInBytes buffer s.
      returning snd (line_meaning (sys_consts sys) sys sys_getVirtualDiskPhysicalPath [Word handle, Word
        diskPathSizeInBytes, Word buffer] s)) \<and>
   openVirtualDisk sys = (\<lambda>virtualStorageType path virtualDiskAccessMask openVirtualDiskFlags parameters handle s.
      returning snd (line_meaning (sys_consts sys) sys sys_openVirtualDisk [Word virtualStorageType, Text path, Word
        (ucast virtualDiskAccessMask), Word (ucast openVirtualDiskFlags), Word parameters, Word handle] s)) \<and>
   hcsFormatWritableLayerVhd sys = (\<lambda>handle s.
      returning snd (line_meaning (sys_consts sys) sys sys_hcsFormatWritableLayerVhd [Word handle] s)) \<and>
   hcsGetLayerVhdMountPath sys = (\<lambda>vhdHandle mountPath s.
      returning snd (line_meaning (sys_consts sys) sys sys_hcsGetLayerVhdMountPath [Word vhdHandle, Word mountPath] s)) \<and>
   CreateFile sys = (\<lambda>name access mode sa createmode attrs templatefile s.
      line_meaning (sys_consts sys) sys sys_CreateFile [Text name, Word (ucast access), Word (ucast mode), Word sa, Word
        (ucast createmode), Word (ucast attrs), Word templatefile] s) \<and>
   coTaskMemFree sys = (\<lambda>buffer s.
      returning (\<lambda>_. ()) (line_meaning (sys_consts sys) sys sys_coTaskMemFree [Word buffer] s)) \<and>
   bind sys = (\<lambda>sock name namelen s.
      returning snd (line_meaning (sys_consts sys) sys sys_bind [Word sock, Word name, Word (scast namelen)] s)) \<and>
   getpeername sys = (\<lambda>sock name namelen s.
      returning snd (line_meaning (sys_consts sys) sys sys_getpeername [Word sock, Word name, Word namelen] s)) \<and>
   getsockname sys = (\<lambda>sock name namelen s.
      returning snd (line_meaning (sys_consts sys) sys sys_getsockname [Word sock, Word name, Word namelen] s)) \<and>
   bfGetMappings sys = (\<lambda>flags jobHandle virtRootPath sid bufferSize outBuffer s.
      returning snd (line_meaning (sys_consts sys) sys sys_bfGetMappings [Word (ucast flags), Word jobHandle, Word
        virtRootPath, Word sid, Word bufferSize, Word outBuffer] s)) \<and>
   bfRemoveMapping sys = (\<lambda>jobHandle virtRootPath s.
      returning snd (line_meaning (sys_consts sys) sys sys_bfRemoveMapping [Word jobHandle, Text virtRootPath] s)) \<and>
   bfSetupFilter sys = (\<lambda>jobHandle flags virtRootPath virtTargetPath virtExceptions virtExceptionPathCount s.
      returning snd (line_meaning (sys_consts sys) sys sys_bfSetupFilter [Word jobHandle, Word (ucast flags), Text
        virtRootPath, Text virtTargetPath, Word virtExceptions, Word (ucast virtExceptionPathCount)] s)) \<and>
   eventRegister sys = (\<lambda>providerId callback callbackContext providerHandle s.
      returning snd (line_meaning (sys_consts sys) sys sys_eventRegister [Word providerId, Word callback, Word
        callbackContext, Word providerHandle] s)) \<and>
   eventSetInformation_64 sys = (\<lambda>providerHandle cls information len s.
      returning snd (line_meaning (sys_consts sys) sys sys_eventSetInformation_64 [Word providerHandle, Word (ucast
        cls), Word information, Word (ucast len)] s)) \<and>
   eventSetInformation_32 sys = (\<lambda>providerHandle_low providerHandle_high cls information len s.
      returning snd (line_meaning (sys_consts sys) sys sys_eventSetInformation_32 [Word (ucast providerHandle_low), Word
        (ucast providerHandle_high), Word (ucast cls), Word information, Word (ucast len)] s)) \<and>
   eventUnregister_64 sys = (\<lambda>providerHandle s.
      returning snd (line_meaning (sys_consts sys) sys sys_eventUnregister_64 [Word providerHandle] s)) \<and>
   eventUnregister_32 sys = (\<lambda>providerHandle_low providerHandle_high s.
      returning snd (line_meaning (sys_consts sys) sys sys_eventUnregister_32 [Word (ucast providerHandle_low), Word
        (ucast providerHandle_high)] s)) \<and>
   eventWriteTransfer_64 sys = (\<lambda>providerHandle descriptor activityID relatedActivityID dataDescriptorCount
     dataDescriptors s.
      returning snd (line_meaning (sys_consts sys) sys sys_eventWriteTransfer_64 [Word providerHandle, Word descriptor,
        Word activityID, Word relatedActivityID, Word (ucast dataDescriptorCount), Word dataDescriptors] s)) \<and>
   eventWriteTransfer_32 sys = (\<lambda>providerHandle_low providerHandle_high descriptor activityID relatedActivityID
     dataDescriptorCount dataDescriptors s.
      returning snd (line_meaning (sys_consts sys) sys sys_eventWriteTransfer_32 [Word (ucast providerHandle_low), Word
        (ucast providerHandle_high), Word descriptor, Word activityID, Word relatedActivityID, Word (ucast
        dataDescriptorCount), Word dataDescriptors] s)) \<and>
   enumProcesses sys = (\<lambda>pids bufferSize retBufferSize s.
      returning snd (line_meaning (sys_consts sys) sys sys_enumProcesses [Word pids, Word (ucast bufferSize), Word
        retBufferSize] s)) \<and>
   getProcessMemoryInfo sys = (\<lambda>process memCounters bufsize s.
      returning snd (line_meaning (sys_consts sys) sys sys_getProcessMemoryInfo [Word process, Word memCounters, Word
        (ucast bufsize)] s)) \<and>
   queryFullProcessImageName sys = (\<lambda>process flags buffer bufferSize s.
      returning snd (line_meaning (sys_consts sys) sys sys_queryFullProcessImageName [Word process, Word (ucast flags),
        Word buffer, Word bufferSize] s)) \<and>
   getSecurityInfo sys = (\<lambda>handle objectType si ppsidOwner ppsidGroup ppDacl ppSacl ppSecurityDescriptor s.
      returning snd (line_meaning (sys_consts sys) sys sys_getSecurityInfo [Word handle, Word (ucast objectType), Word
        (ucast si), Word ppsidOwner, Word ppsidGroup, Word ppDacl, Word ppSacl, Word ppSecurityDescriptor] s)) \<and>
   setEntriesInAcl sys = (\<lambda>num pListOfEEs oldAcl newAcl s.
      returning snd (line_meaning (sys_consts sys) sys sys_setEntriesInAcl [Word num, Word pListOfEEs, Word oldAcl, Word
        newAcl] s)) \<and>
   setSecurityInfo sys = (\<lambda>handle objectType si psidOwner psidGroup pDacl pSacl s.
      returning snd (line_meaning (sys_consts sys) sys sys_setSecurityInfo [Word handle, Word (ucast objectType), Word
        (ucast si), Word psidOwner, Word psidGroup, Word pDacl, Word pSacl] s))"
  by (intro conjI ext; rule package_lines)

end
