(* ===== verification/File_Port.thy ===== *)
theory File_Port
  imports File
begin

text \<open>
  The completion port (\<^verbatim>\<open>src/file.go\<close>): how a file is made and tied to the one port of the program
  (\<^verbatim>\<open>initIO\<close>, \<^verbatim>\<open>makeWin32File\<close>, \<^verbatim>\<open>NewOpenFile\<close>), and the goroutine that hands every completion to
  the operation it belongs to (\<^verbatim>\<open>ioCompletionProcessor\<close>), as a step relation with the operations of all
  files. It is the reason why an operation that was started gets its own result, once.
\<close>

section \<open>Making files\<close>

text \<open>
  \<^verbatim>\<open>createIoCompletionPort\<close> gets a file, or none for a new port, and the port to use;
  \<open>modes\<close> is \<^verbatim>\<open>setFileCompletionNotificationModes\<close> with the two flags that skip the port and the
  event when an operation succeeds at once.
\<close>

record port_system =
  createIoCompletionPort :: "nat option \<Rightarrow> nat \<Rightarrow> nat res"
  skip_modes :: "nat \<Rightarrow> go_error option"

text \<open>\<open>processors\<close> are the ports that goroutines run \<^verbatim>\<open>ioCompletionProcessor\<close> on; the program does not have it.\<close>

record io_globals =
  ioInitOnce :: bool
  ioCompletionPort :: nat
  processors :: "nat list"

definition initIO :: "port_system \<Rightarrow> io_globals \<Rightarrow> unit res \<times> io_globals" where
  "initIO sys g =
     (case createIoCompletionPort sys None 0 of
        Ok h \<Rightarrow> (Ok (), g\<lparr>ioCompletionPort := h, processors := processors g @ [h]\<rparr>)
      | Err e \<Rightarrow> (Panic ''createIoCompletionPort'', g)
      | Panic p \<Rightarrow> (Panic p, g))"

text \<open>\<^verbatim>\<open>sync.Once\<close> counts a call that panics as done.\<close>

definition once_initIO :: "port_system \<Rightarrow> io_globals \<Rightarrow> unit res \<times> io_globals" where
  "once_initIO sys g = (if ioInitOnce g then (Ok (), g) else initIO sys (g\<lparr>ioInitOnce := True\<rparr>))"

definition makeWin32File :: "port_system \<Rightarrow> nat \<Rightarrow> io_globals \<Rightarrow> win32File res \<times> io_globals" where
  "makeWin32File sys h g =
     (case once_initIO sys g of
        (Panic p, g) \<Rightarrow> (Panic p, g)
      | (Err e, g) \<Rightarrow> (Err e, g)
      | (Ok _, g) \<Rightarrow>
          (case createIoCompletionPort sys (Some h) (ioCompletionPort g) of
             Err e \<Rightarrow> (Err e, g)
           | Panic p \<Rightarrow> (Panic p, g)
           | Ok _ \<Rightarrow>
               (case skip_modes sys h of
                  Some e \<Rightarrow> (Err e, g)
                | None \<Rightarrow> (Ok (new_win32File h), g))))"

definition NewOpenFile :: "port_system \<Rightarrow> nat \<Rightarrow> io_globals \<Rightarrow> win32File res \<times> io_globals" where
  "NewOpenFile sys h g =
     (case makeWin32File sys h g of (Ok f, g) \<Rightarrow> (Ok f, g) | (Err e, g) \<Rightarrow> (Err e, g) | (Panic p, g) \<Rightarrow> (Panic p, g))"

definition MakeOpenFile :: "port_system \<Rightarrow> nat \<Rightarrow> io_globals \<Rightarrow> win32File res \<times> io_globals" where
  "MakeOpenFile sys h g = NewOpenFile sys h g"

text \<open>The methods that pass the handle on, and those that ask for the state.\<close>

definition IsClosed :: "win32File \<Rightarrow> bool" where "IsClosed f = closing f"
definition Fd :: "win32File \<Rightarrow> nat" where "Fd f = handle f"
definition Flush :: "(nat \<Rightarrow> go_error option) \<Rightarrow> win32File \<Rightarrow> go_error option" where
  "Flush FlushFileBuffers f = FlushFileBuffers (handle f)"

text \<open>The flags of a file are integers that are only loaded, stored and swapped atomically.\<close>

definition atomicBool :: "bool \<Rightarrow> u32" where "atomicBool v = (if v then 1 else 0)"
definition isSet :: "u32 \<Rightarrow> bool" where "isSet b \<longleftrightarrow> b \<noteq> 0"
definition setFalse :: "u32 \<Rightarrow> u32" where "setFalse b = 0"
definition setTrue :: "u32 \<Rightarrow> u32" where "setTrue b = 1"
definition swap :: "bool \<Rightarrow> u32 \<Rightarrow> bool \<times> u32" where
  "swap new_flag b = (let newInt = (if new_flag then 1 else 0) in (b = 1, newInt))"

lemma atomicBool_refines:
  "isSet (atomicBool v) = v" "setFalse b = atomicBool False" "setTrue b = atomicBool True"
  "swap n (atomicBool v) = (v, atomicBool n)"
  by (simp_all add: isSet_def setFalse_def setTrue_def swap_def atomicBool_def)

text \<open>Files made one after another, each by a system that may answer differently.\<close>

definition make_files :: "(port_system \<times> nat) list \<Rightarrow> io_globals \<Rightarrow> io_globals" where
  "make_files = fold (\<lambda>(sys, h) g. snd (makeWin32File sys h g))"

definition no_io :: io_globals where
  "no_io = \<lparr>ioInitOnce = False, ioCompletionPort = 0, processors = []\<rparr>"

definition globals_ok :: "io_globals \<Rightarrow> bool" where
  "globals_ok g \<longleftrightarrow>
     (if ioInitOnce g \<and> processors g \<noteq> [] then processors g = [ioCompletionPort g]
      else processors g = [] \<and> ioCompletionPort g = 0)"

lemma once_initIO_ok: "globals_ok g \<Longrightarrow> globals_ok (snd (once_initIO sys g)) \<and> ioInitOnce (snd (once_initIO sys g))"
  by (auto simp: once_initIO_def initIO_def globals_ok_def split: res.splits)

lemma makeWin32File_globals: "snd (makeWin32File sys h g) = snd (once_initIO sys g)"
  by (auto simp: makeWin32File_def split: prod.splits res.splits option.splits)

lemma make_files_ok: "globals_ok g \<Longrightarrow> globals_ok (make_files calls g)"
  unfolding make_files_def
  by (induction calls arbitrary: g) (auto simp: makeWin32File_globals once_initIO_ok split: prod.splits)

section \<open>The completion port\<close>

text \<open>
  An operation: not started, its system call running after the system took it, receiving from its
  channel, or finished. The processor waits for a packet, sends the result of an operation, or has
  panicked because there was none.
\<close>

datatype op_state = Unused | Calling | Receiving | Completed io_result

datatype processor = Dequeue | Send nat io_result | Dead

text \<open>
  \<open>pending\<close> are the operations that the system works on and \<open>queue\<close> holds its packets in order.
  \<open>outcome\<close> is what the system made of an operation; the program does not have it. \<open>skips\<close>: files skip
  the port when an operation succeeds at once.
\<close>

record port =
  skips :: bool
  ops :: "nat \<Rightarrow> op_state"
  pending :: "nat set"
  queue :: "(nat \<times> io_result) list"
  proc :: processor
  outcome :: "nat \<Rightarrow> io_result option"

definition new_port :: "bool \<Rightarrow> port" where
  "new_port b = \<lparr>skips = b, ops = (\<lambda>_. Unused), pending = {}, queue = [], proc = Dequeue, outcome = (\<lambda>_. None)\<rparr>"

text \<open>
  The label is \<open>True\<close> for the steps of the program. A packet may be taken while the call that
  started its operation has not returned yet; the send then waits for the receiver.
\<close>

inductive port_step :: "bool \<Rightarrow> port \<Rightarrow> port \<Rightarrow> bool" where
  done_at_once: "ops s i = Unused \<Longrightarrow> snd r \<noteq> Some ERROR_IO_PENDING \<Longrightarrow>
    port_step False s (s\<lparr>ops := (ops s)(i := Completed r), outcome := (outcome s)(i \<mapsto> r),
      queue := (if skips s \<or> snd r \<noteq> None then queue s else queue s @ [(i, r)])\<rparr>)"
| started: "ops s i = Unused \<Longrightarrow>
    port_step False s (s\<lparr>ops := (ops s)(i := Calling), pending := insert i (pending s)\<rparr>)"
| returned: "ops s i = Calling \<Longrightarrow>
    port_step True s (s\<lparr>ops := (ops s)(i := Receiving)\<rparr>)"
| completed: "i \<in> pending s \<Longrightarrow>
    port_step False s (s\<lparr>pending := pending s - {i}, queue := queue s @ [(i, r)], outcome := (outcome s)(i \<mapsto> r)\<rparr>)"
| dequeue: "proc s = Dequeue \<Longrightarrow> queue s = (i, r) # q \<Longrightarrow>
    port_step True s (s\<lparr>proc := Send i r, queue := q\<rparr>)"
| no_packet: "proc s = Dequeue \<Longrightarrow> port_step False s (s\<lparr>proc := Dead\<rparr>)"
| send: "proc s = Send i r \<Longrightarrow> ops s i = Receiving \<Longrightarrow>
    port_step True s (s\<lparr>proc := Dequeue, ops := (ops s)(i := Completed r)\<rparr>)"

inductive_cases port_stepE: "port_step b s s'"

inductive port_reach :: "bool \<Rightarrow> port \<Rightarrow> bool" for b :: bool where
  port_init: "port_reach b (new_port b)"
| port_next: "port_reach b s \<Longrightarrow> port_step c s s' \<Longrightarrow> port_reach b s'"

section \<open>Invariant\<close>

text \<open>The packets under way, the one that the processor holds first.\<close>

definition packets :: "port \<Rightarrow> (nat \<times> io_result) list" where
  "packets s = (case proc s of Send i r \<Rightarrow> (i, r) # queue s | _ \<Rightarrow> queue s)"

definition waiting :: "port \<Rightarrow> nat \<Rightarrow> bool" where
  "waiting s i \<longleftrightarrow> ops s i = Calling \<or> ops s i = Receiving"

definition port_inv :: "port \<Rightarrow> bool" where
  "port_inv s \<longleftrightarrow> skips s \<and>
     distinct (map fst (packets s)) \<and>
     (\<forall>p\<in>set (packets s). waiting s (fst p) \<and> fst p \<notin> pending s \<and> outcome s (fst p) = Some (snd p)) \<and>
     (\<forall>i. waiting s i \<longrightarrow> i \<in> pending s \<or> i \<in> fst ` set (packets s)) \<and>
     (\<forall>i\<in>pending s. waiting s i) \<and>
     (\<forall>i r. ops s i = Completed r \<longrightarrow> outcome s i = Some r)"

lemma packets_simps [simp]:
  "packets (s\<lparr>ops := a\<rparr>) = packets s" "packets (s\<lparr>pending := b\<rparr>) = packets s"
  "packets (s\<lparr>outcome := c\<rparr>) = packets s"
  "packets (s\<lparr>queue := queue s @ q\<rparr>) = packets s @ q"
  "packets (s\<lparr>queue := queue s\<rparr>) = packets s"
  by (simp_all add: packets_def split: processor.splits)

lemma port_step_inv: "port_step b s s' \<Longrightarrow> port_inv s \<Longrightarrow> port_inv s'"
proof (induction rule: port_step.induct)
  case (done_at_once s i r)
  then have "\<not> waiting s i" "skips s" by (auto simp: waiting_def port_inv_def)
  then have "i \<notin> fst ` set (packets s)" "i \<notin> pending s" using done_at_once(3) by (auto simp: port_inv_def)
  moreover from this have "(i, x) \<notin> set (packets s)" for x by force
  ultimately show ?case using done_at_once \<open>skips s\<close> by (auto simp: port_inv_def waiting_def)
next
  case (started s i)
  then have "\<not> waiting s i" by (simp add: waiting_def)
  then have "(i, x) \<notin> set (packets s)" for x using started(2) unfolding port_inv_def by fastforce
  then show ?case using started unfolding port_inv_def waiting_def by (auto; fastforce)
next
  case (returned s i)
  then show ?case by (auto simp: port_inv_def waiting_def)
next
  case (completed i s r)
  then have "i \<notin> fst ` set (packets s)" "waiting s i" by (auto simp: port_inv_def)
  moreover from this have "(i, x) \<notin> set (packets s)" for x by force
  moreover have "packets (s\<lparr>pending := pending s - {i}, queue := queue s @ [(i, r)], outcome := (outcome s)(i \<mapsto> r)\<rparr>) = packets s @ [(i, r)]"
    by (simp add: packets_def split: processor.splits)
  ultimately show ?case using completed by (auto simp: port_inv_def waiting_def)
next
  case (dequeue s i r q)
  then have "packets (s\<lparr>proc := Send i r, queue := q\<rparr>) = packets s" by (simp add: packets_def)
  then show ?case using dequeue by (simp add: port_inv_def waiting_def)
next
  case (no_packet s)
  then have "packets (s\<lparr>proc := Dead\<rparr>) = packets s" by (simp add: packets_def)
  then show ?case using no_packet by (simp add: port_inv_def waiting_def)
next
  case (send s i r)
  let ?s = "s\<lparr>proc := Dequeue, ops := (ops s)(i := Completed r)\<rparr>"
  have p: "packets s = (i, r) # packets ?s" using send by (simp add: packets_def)
  then have d: "i \<notin> fst ` set (packets ?s)" "outcome s i = Some r" "i \<notin> pending s" using send(3) by (simp_all add: port_inv_def)
  have "distinct (map fst (packets ?s))" using send(3) p by (auto simp: port_inv_def)
  moreover have "waiting ?s (fst x) \<and> fst x \<notin> pending ?s \<and> outcome ?s (fst x) = Some (snd x)" if "x \<in> set (packets ?s)" for x
  proof -
    have "fst x \<noteq> i" using d(1) that by force
    then show ?thesis using send(3) p that by (auto simp: port_inv_def waiting_def)
  qed
  ultimately show ?case using send p d by (auto simp: port_inv_def waiting_def)
qed

lemma port_reach_inv: "port_reach True s \<Longrightarrow> port_inv s"
proof (induction rule: port_reach.induct)
  case port_init
  show ?case by (simp add: port_inv_def new_port_def packets_def waiting_def)
next
  case (port_next s c s')
  then show ?case using port_step_inv by blast
qed

section \<open>Delivery\<close>

text \<open>The processor serves the first packet in at most three steps of the program.\<close>

lemma one_step: "port_step b s s' \<Longrightarrow> (port_step b ^^ 1) s s'"
  by auto

lemma serve_first:
  assumes "port_inv s" and "proc s \<noteq> Dead" and "packets s = (j, r) # ps"
  shows "\<exists>n\<le>3. \<exists>s'. (port_step True ^^ n) s s' \<and> packets s' = ps \<and> proc s' = Dequeue \<and> ops s' j = Completed r"
proof -
  obtain s1 n1 where s1: "(port_step True ^^ n1) s s1" "n1 \<le> 1" "proc s1 = Send j r" "queue s1 = ps" "ops s1 = ops s"
  proof (cases "proc s")
    case Dequeue
    then have "queue s = (j, r) # ps" using assms(3) by (simp add: packets_def)
    with Dequeue have "port_step True s (s\<lparr>proc := Send j r, queue := ps\<rparr>)" by (rule dequeue)
    from one_step [OF this] show ?thesis by (intro that [of 1 "s\<lparr>proc := Send j r, queue := ps\<rparr>"]) simp_all
  next
    case (Send i x)
    then show ?thesis using assms(3) by (intro that [of 0 s]) (simp_all add: packets_def)
  qed (use assms(2) in simp)
  have "(j, r) \<in> set (packets s)" using assms(3) by simp
  then have "waiting s j" using assms(1) by (fastforce simp: port_inv_def)
  then obtain s2 n2 where s2: "(port_step True ^^ n2) s1 s2" "n2 \<le> 1" "proc s2 = Send j r" "queue s2 = ps" "ops s2 j = Receiving"
  proof (cases "ops s j = Receiving")
    case True
    then show ?thesis using s1 by (intro that [of 0 s1]) simp_all
  next
    case False
    then have "ops s1 j = Calling" using \<open>waiting s j\<close> s1(5) by (simp add: waiting_def)
    then have "port_step True s1 (s1\<lparr>ops := (ops s1)(j := Receiving)\<rparr>)" by (rule returned)
    from one_step [OF this] show ?thesis using s1 by (intro that [of 1 "s1\<lparr>ops := (ops s1)(j := Receiving)\<rparr>"]) simp_all
  qed
  let ?s3 = "s2\<lparr>proc := Dequeue, ops := (ops s2)(j := Completed r)\<rparr>"
  have "port_step True s2 ?s3" by (rule send) (use s2 in simp_all)
  then have "(port_step True ^^ (n1 + n2 + 1)) s ?s3"
    using s1(1) s2(1) by (auto simp: relpowp_add)
  moreover have "packets ?s3 = ps" using s2 by (simp add: packets_def)
  ultimately show ?thesis using s1(2) s2(2) by (intro exI [of _ "n1 + n2 + 1"]) auto
qed

lemma port_steps_inv: "(port_step b ^^ n) s s' \<Longrightarrow> port_inv s \<Longrightarrow> port_inv s'"
  by (induction n arbitrary: s') (auto intro: port_step_inv)

lemma serve_packet:
  assumes "port_inv s" and "proc s \<noteq> Dead" and "(i, r) \<in> set (packets s)"
  shows "\<exists>n\<le>3 * length (packets s). \<exists>s'. (port_step True ^^ n) s s' \<and> ops s' i = Completed r"
  using assms
proof (induction "packets s" arbitrary: s)
  case (Cons p ps)
  obtain j x where p: "p = (j, x)" by (cases p)
  obtain n s' where s': "n \<le> 3" "(port_step True ^^ n) s s'" "packets s' = ps" "proc s' = Dequeue" "ops s' j = Completed x"
    using serve_first [OF Cons.prems(1,2)] Cons.hyps(2) p by metis
  show ?case
  proof (cases "(i, r) = p")
    case True
    then show ?thesis using s' p Cons.hyps(2) [symmetric] by (intro exI [of _ n]) auto
  next
    case False
    have "(i, r) \<in> set (packets s')" using False Cons.prems(3) Cons.hyps(2) [symmetric] s'(3) by auto
    moreover have "port_inv s'" by (rule port_steps_inv [OF s'(2) Cons.prems(1)])
    ultimately obtain m s'' where "m \<le> 3 * length ps" "(port_step True ^^ m) s' s''" "ops s'' i = Completed r"
      using Cons.hyps(1) [of s'] s'(3,4) by auto
    then show ?thesis using s' Cons.hyps(2) [symmetric]
      by (intro exI [of _ "n + m"]) (auto simp: relpowp_add)
  qed
qed simp

lemma completed_packet:
  assumes "port_inv s" and "waiting s i" and "i \<notin> pending s"
  shows "\<exists>r. outcome s i = Some r \<and> (i, r) \<in> set (packets s)"
proof -
  obtain p where "p \<in> set (packets s)" "i = fst p" using assms unfolding port_inv_def by blast
  then show ?thesis using assms(1) by (intro exI [of _ "snd p"]) (auto simp: port_inv_def)
qed

text \<open>
  C9: However operations start, return and complete: an operation never gets a result other than
  the one the system has for it; the processor only sends to an operation that is going to receive;
  and as soon as the system has completed an operation, at most three steps of the program for every
  packet under way hand the operation its result.
\<close>

theorem port_delivers:
  assumes "port_reach True s"
  shows "(\<forall>i r. ops s i = Completed r \<longrightarrow> outcome s i = Some r) \<and>
    (\<forall>i r. proc s = Send i r \<longrightarrow> waiting s i \<and> outcome s i = Some r) \<and>
    (\<forall>i. waiting s i \<longrightarrow> i \<notin> pending s \<longrightarrow> proc s \<noteq> Dead \<longrightarrow>
      (\<exists>n\<le>3 * length (packets s). \<exists>s' r. (port_step True ^^ n) s s' \<and> outcome s i = Some r \<and> ops s' i = Completed r))"
proof -
  have inv: "port_inv s" by (rule port_reach_inv [OF assms])
  have "waiting s i \<and> outcome s i = Some r" if "proc s = Send i r" for i r
    using inv that by (simp add: port_inv_def packets_def)
  moreover have "\<exists>n\<le>3 * length (packets s). \<exists>s' r. (port_step True ^^ n) s s' \<and> outcome s i = Some r \<and> ops s' i = Completed r"
    if "waiting s i" "i \<notin> pending s" "proc s \<noteq> Dead" for i
    using completed_packet [OF inv that(1,2)] serve_packet [OF inv that(3)] by blast
  ultimately show ?thesis using inv unfolding port_inv_def by blast
qed

text \<open>A packet that arrives while the call that started its operation has not returned.\<close>

definition sample_port :: port where
  "sample_port = (new_port True)\<lparr>ops := (\<lambda>_. Unused)(4 := Calling), pending := {}, queue := [(4, (8, None))], outcome := [4 \<mapsto> (8, None)]\<rparr>"

lemma sample_port_reach: "port_reach True sample_port"
proof -
  let ?s = "(new_port True)\<lparr>ops := (ops (new_port True))(4 := Calling), pending := insert 4 (pending (new_port True))\<rparr>"
  let ?t = "?s\<lparr>pending := pending ?s - {4}, queue := queue ?s @ [(4, (8, None))], outcome := (outcome ?s)(4 \<mapsto> (8, None))\<rparr>"
  have "port_reach True ?s" by (rule port_next [OF port_init started]) (simp add: new_port_def)
  moreover have "port_step False ?s ?t" by (rule completed) simp
  ultimately have "port_reach True ?t" by (rule port_next)
  then show ?thesis by (simp add: sample_port_def new_port_def)
qed

theorem port_delivers_witness:
  "\<exists>n\<le>3. \<exists>s'. (port_step True ^^ n) sample_port s' \<and> ops s' 4 = Completed (8, None)"
proof -
  have "waiting sample_port 4" "4 \<notin> pending sample_port" "proc sample_port \<noteq> Dead" "length (packets sample_port) = 1"
    "outcome sample_port 4 = Some (8, None)"
    by (simp_all add: sample_port_def waiting_def new_port_def packets_def)
  moreover from this obtain n s' r where "n \<le> 3 * length (packets sample_port)" "(port_step True ^^ n) sample_port s'"
    "outcome sample_port 4 = Some r" "ops s' 4 = Completed r"
    using port_delivers [OF sample_port_reach] by blast
  ultimately show ?thesis by auto
qed

text \<open>
  Why making a file fails when the system does not skip the port: an operation that succeeded at
  once would leave a packet that nobody receives, and the processor would never take another one.
\<close>

lemma completed_stays: "port_step c s s' \<Longrightarrow> ops s i = Completed r \<Longrightarrow> ops s' i = Completed r"
  by (induction rule: port_step.induct) auto

lemma stuck_step:
  "port_step c s s' \<Longrightarrow> proc s = Send i x \<Longrightarrow> ops s i = Completed r \<Longrightarrow> proc s' = Send i x"
  by (induction rule: port_step.induct) auto

theorem processor_stuck:
  "\<exists>s. port_reach False s \<and> proc s = Send 0 (8, None) \<and>
     (\<forall>s'. (\<lambda>a b. \<exists>c. port_step c a b)\<^sup>*\<^sup>* s s' \<longrightarrow> proc s' = Send 0 (8, None))"
proof -
  let ?s0 = "new_port False" and ?r = "(8 :: nat, None :: go_error option)"
  let ?s1 = "?s0\<lparr>ops := (ops ?s0)(0 := Completed ?r), outcome := (outcome ?s0)(0 \<mapsto> ?r),
    queue := (if skips ?s0 \<or> snd ?r \<noteq> None then queue ?s0 else queue ?s0 @ [(0, ?r)])\<rparr>"
  let ?s2 = "?s1\<lparr>proc := Send 0 ?r, queue := []\<rparr>"
  have "port_step False ?s0 ?s1" by (rule done_at_once) (simp_all add: new_port_def)
  moreover have "port_step True ?s1 ?s2" by (rule dequeue) (simp_all add: new_port_def)
  ultimately have reach: "port_reach False ?s2" using port_init port_next by blast
  have "proc s' = Send 0 ?r \<and> ops s' 0 = Completed ?r" if "(\<lambda>a b. \<exists>c. port_step c a b)\<^sup>*\<^sup>* ?s2 s'" for s'
    using that
  proof (induction rule: rtranclp_induct)
    case base
    show ?case by (simp add: new_port_def)
  next
    case (step a b)
    then show ?case using stuck_step completed_stays by blast
  qed
  then show ?thesis using reach by (intro exI [of _ ?s2]) (auto simp: new_port_def)
qed

text \<open>
  Whatever files are made, and whatever the system answers, the program has one completion port and
  one processor on it at most; a file is only made after it was tied to that port and told to skip it.
\<close>

theorem one_completion_port:
  "length (processors (make_files calls no_io)) \<le> 1 \<and>
   (processors (make_files calls no_io) \<noteq> [] \<longrightarrow> processors (make_files calls no_io) = [ioCompletionPort (make_files calls no_io)]) \<and>
   (\<forall>sys h f g. makeWin32File sys h (make_files calls no_io) = (Ok f, g) \<longrightarrow>
      f = new_win32File h \<and> skip_modes sys h = None \<and> (\<exists>p. createIoCompletionPort sys (Some h) (ioCompletionPort g) = Ok p))"
proof -
  have "globals_ok (make_files calls no_io)" by (rule make_files_ok) (simp add: globals_ok_def no_io_def)
  then show ?thesis
    by (auto simp: globals_ok_def makeWin32File_def split: if_splits prod.splits res.splits option.splits)
qed

end
