(* ===== verification/Wim_Info.thy ===== *)
theory Wim_Info
  imports Wim Guid
begin

text \<open>
  The rest of \<^verbatim>\<open>src/wim/wim.go\<close>: constants, the information on images that is decoded from XML, with
  the numbers of a \<^verbatim>\<open>Filetime\<close>, and the text forms; and the walk of \<^verbatim>\<open>src/wim/validate/main_windows.go\<close>
  over all directories of an image.
\<close>

section \<open>Constants\<close>

definition FILE_ATTRIBUTE_READONLY :: u32 where "FILE_ATTRIBUTE_READONLY = 0x1"
definition FILE_ATTRIBUTE_HIDDEN :: u32 where "FILE_ATTRIBUTE_HIDDEN = 0x2"
definition FILE_ATTRIBUTE_SYSTEM :: u32 where "FILE_ATTRIBUTE_SYSTEM = 0x4"
definition FILE_ATTRIBUTE_ARCHIVE :: u32 where "FILE_ATTRIBUTE_ARCHIVE = 0x20"
definition FILE_ATTRIBUTE_DEVICE :: u32 where "FILE_ATTRIBUTE_DEVICE = 0x40"
definition FILE_ATTRIBUTE_NORMAL :: u32 where "FILE_ATTRIBUTE_NORMAL = 0x80"
definition FILE_ATTRIBUTE_TEMPORARY :: u32 where "FILE_ATTRIBUTE_TEMPORARY = 0x100"
definition FILE_ATTRIBUTE_SPARSE_FILE :: u32 where "FILE_ATTRIBUTE_SPARSE_FILE = 0x200"
definition FILE_ATTRIBUTE_COMPRESSED :: u32 where "FILE_ATTRIBUTE_COMPRESSED = 0x800"
definition FILE_ATTRIBUTE_OFFLINE :: u32 where "FILE_ATTRIBUTE_OFFLINE = 0x1000"
definition FILE_ATTRIBUTE_NOT_CONTENT_INDEXED :: u32 where "FILE_ATTRIBUTE_NOT_CONTENT_INDEXED = 0x2000"
definition FILE_ATTRIBUTE_ENCRYPTED :: u32 where "FILE_ATTRIBUTE_ENCRYPTED = 0x4000"
definition FILE_ATTRIBUTE_INTEGRITY_STREAM :: u32 where "FILE_ATTRIBUTE_INTEGRITY_STREAM = 0x8000"
definition FILE_ATTRIBUTE_VIRTUAL :: u32 where "FILE_ATTRIBUTE_VIRTUAL = 0x10000"
definition FILE_ATTRIBUTE_NO_SCRUB_DATA :: u32 where "FILE_ATTRIBUTE_NO_SCRUB_DATA = 0x20000"
definition FILE_ATTRIBUTE_EA :: u32 where "FILE_ATTRIBUTE_EA = 0x40000"

definition hdrFlagReserved :: u32 where "hdrFlagReserved = 1"
definition hdrFlagSpanned :: u32 where "hdrFlagSpanned = 8"
definition hdrFlagResourceOnly :: u32 where "hdrFlagResourceOnly = 16"
definition hdrFlagMetadataOnly :: u32 where "hdrFlagMetadataOnly = 32"
definition hdrFlagWriteInProgress :: u32 where "hdrFlagWriteInProgress = 64"
definition hdrFlagCompressReserved :: u32 where "hdrFlagCompressReserved = 0x10000"
definition hdrFlagCompressXpress :: u32 where "hdrFlagCompressXpress = 0x20000"

text \<open>A file that cannot be read is not taken for one that can.\<close>

lemma unsupported_flags:
  "f \<in> {hdrFlagSpanned, hdrFlagResourceOnly, hdrFlagMetadataOnly, hdrFlagWriteInProgress, hdrFlagCompressXpress, hdrFlagReserved} \<Longrightarrow>
   hdr_Flags h AND f \<noteq> 0 \<Longrightarrow> ImageTag h = wimImageTag \<Longrightarrow> \<exists>e. check_header h = Err e"
proof -
  assume f: "f \<in> {hdrFlagSpanned, hdrFlagResourceOnly, hdrFlagMetadataOnly, hdrFlagWriteInProgress, hdrFlagCompressXpress, hdrFlagReserved}"
    and h: "hdr_Flags h AND f \<noteq> 0" and t: "ImageTag h = wimImageTag"
  have "f AND NOT supportedHdrFlags = f"
    using f by (auto simp: hdrFlagSpanned_def hdrFlagResourceOnly_def hdrFlagMetadataOnly_def hdrFlagWriteInProgress_def
      hdrFlagCompressXpress_def hdrFlagReserved_def supportedHdrFlags_def hdrFlagRpFix_def hdrFlagReadOnly_def
      hdrFlagCompressed_def hdrFlagCompressLzx_def)
  then have "(hdr_Flags h AND NOT supportedHdrFlags) AND f = hdr_Flags h AND f" by (metis and.assoc and.commute)
  then have "hdr_Flags h AND NOT supportedHdrFlags \<noteq> 0" using h by auto
  then show ?thesis using t by (simp add: check_header_def)
qed

section \<open>Text forms\<close>

text \<open>The identifier of a file, which \<^verbatim>\<open>wim.go\<close> declares again.\<close>

definition wim_guid_String :: "GUID \<Rightarrow> gostring" where
  "wim_guid_String g =
     hexn 8 (unat (Data1 g)) @ [45] @ hexn 4 (unat (Data2 g)) @ [45] @ hexn 4 (unat (Data3 g)) @ [45] @
     hexn 2 (unat (Data4 g ! 0)) @ hexn 2 (unat (Data4 g ! 1)) @ [45] @
     hexn 2 (unat (Data4 g ! 2)) @ hexn 2 (unat (Data4 g ! 3)) @ hexn 2 (unat (Data4 g ! 4)) @
     hexn 2 (unat (Data4 g ! 5)) @ hexn 2 (unat (Data4 g ! 6)) @ hexn 2 (unat (Data4 g ! 7))"

definition resourceDescriptor_String :: "resourceDescriptor \<Rightarrow> gostring" where
  "resourceDescriptor_String r =
     FormatInt (CompressedSize r) @ bs_of '' bytes at '' @ FormatInt (rd_Offset r) @
     (if Flags r AND 4 \<noteq> 0 then bs_of '' (uncompresses to '' @ FormatInt (OriginalSize r) @ bs_of '')'' else [])"

text \<open>The text of a \<^verbatim>\<open>ParseError\<close>, from the text of the error it wraps.\<close>

definition ParseError_Error :: "gostring \<Rightarrow> gostring \<Rightarrow> gostring \<Rightarrow> gostring" where
  "ParseError_Error Oper Path err =
     (if Path = [] then bs_of ''WIM parse error at '' @ Oper @ bs_of '': '' @ err
      else bs_of ''WIM parse error: '' @ Oper @ bs_of '' '' @ Path @ bs_of '': '' @ err)"

text \<open>The type could be replaced by that of \<^verbatim>\<open>pkg/guid\<close>: it prints the same text.\<close>

lemma wim_guid_same_text:
  assumes "guid_ok g"
  shows "wim_guid_String g = GUID_String g"
proof -
  obtain a b c d e f u v where "Data4 g = [a, b, c, d, e, f, u, v]"
    using assms by (auto simp: guid_ok_def length_Suc_conv numeral_eq_Suc)
  then show ?thesis by (simp add: wim_guid_String_def GUID_String_def hex_bytes_def)
qed

section \<open>Numbers in XML\<close>

text \<open>\<^verbatim>\<open>strconv.ParseUint(s, 0, bits)\<close>: the base is that of the prefix, and underscores may separate digits.\<close>

datatype num_error = ErrSyntax | ErrRange

definition base_prefix :: "gostring \<Rightarrow> nat \<times> gostring" where
  "base_prefix s =
     (if s = [] \<or> hd s \<noteq> 48 then (10, s)
      else if 3 \<le> length s \<and> ascii_lower (s ! 1) = 98 then (2, drop 2 s)
      else if 3 \<le> length s \<and> ascii_lower (s ! 1) = 111 then (8, drop 2 s)
      else if 3 \<le> length s \<and> ascii_lower (s ! 1) = 120 then (16, drop 2 s)
      else (8, drop 1 s))"

definition digit_value :: "byte \<Rightarrow> nat option" where
  "digit_value c =
     (if 48 \<le> c \<and> c \<le> 57 then Some (unat c - 48)
      else if 97 \<le> ascii_lower c \<and> ascii_lower c \<le> 122 then Some (unat (ascii_lower c) - 97 + 10)
      else None)"

fun digits_loop :: "nat \<Rightarrow> nat \<Rightarrow> nat \<Rightarrow> bool \<Rightarrow> gostring \<Rightarrow> num_error + nat \<times> bool" where
  "digits_loop bits base n us [] = Inr (n, us)"
| "digits_loop bits base n us (c # cs) =
     (if c = 95 then digits_loop bits base n True cs
      else case digit_value c of
             None \<Rightarrow> Inl ErrSyntax
           | Some d \<Rightarrow>
               if base \<le> d then Inl ErrSyntax
               else if 2 ^ bits \<le> base * n + d then Inl ErrRange
               else digits_loop bits base (base * n + d) us cs)"

datatype last_seen = Start | Digit | Underscore | Other

fun underscore_loop :: "bool \<Rightarrow> last_seen \<Rightarrow> gostring \<Rightarrow> bool" where
  "underscore_loop hex i [] \<longleftrightarrow> i \<noteq> Underscore"
| "underscore_loop hex i (c # cs) \<longleftrightarrow>
     (if 48 \<le> c \<and> c \<le> 57 \<or> hex \<and> 97 \<le> ascii_lower c \<and> ascii_lower c \<le> 102 then underscore_loop hex Digit cs
      else if c = 95 then i = Digit \<and> underscore_loop hex Underscore cs
      else i \<noteq> Underscore \<and> underscore_loop hex Other cs)"

definition underscoreOK :: "gostring \<Rightarrow> bool" where
  "underscoreOK s =
     (let s = (if s \<noteq> [] \<and> (hd s = 45 \<or> hd s = 43) then tl s else s) in
      if 2 \<le> length s \<and> hd s = 48 \<and> ascii_lower (s ! 1) \<in> {98, 111, 120}
      then underscore_loop (ascii_lower (s ! 1) = 120) Digit (drop 2 s)
      else underscore_loop False Start s)"

definition ParseUint0 :: "nat \<Rightarrow> gostring \<Rightarrow> num_error + nat" where
  "ParseUint0 bits s =
     (if s = [] then Inl ErrSyntax
      else case base_prefix s of (base, t) \<Rightarrow>
           case digits_loop bits base 0 False t of
             Inl e \<Rightarrow> Inl e
           | Inr (n, us) \<Rightarrow> if us \<and> \<not> underscoreOK s then Inl ErrSyntax else Inr n)"

definition num_err :: "num_error \<Rightarrow> go_error" where
  "num_err e = (case e of ErrSyntax \<Rightarrow> ErrNew ''invalid syntax'' | ErrRange \<Rightarrow> ErrNew ''value out of range'')"

text \<open>\<open>decode\<close> is \<^verbatim>\<open>DecodeElement\<close> with the texts of the elements \<^verbatim>\<open>LOWPART\<close> and \<^verbatim>\<open>HIGHPART\<close>.\<close>

definition Filetime_UnmarshalXML :: "(gostring \<times> gostring) res \<Rightarrow> Filetime \<Rightarrow> go_error option res \<times> Filetime" where
  "Filetime_UnmarshalXML decode ft =
     (case decode of
        Err e \<Rightarrow> (Ok (Some e), ft)
      | Panic p \<Rightarrow> (Panic p, ft)
      | Ok (tLow, tHigh) \<Rightarrow>
          (case ParseUint0 32 tLow of
             Inl e \<Rightarrow> (Ok (Some (num_err e)), ft)
           | Inr low \<Rightarrow>
               (case ParseUint0 32 tHigh of
                  Inl e \<Rightarrow> (Ok (Some (num_err e)), ft)
                | Inr high \<Rightarrow> (Ok None, \<lparr>LowDateTime = of_nat low, HighDateTime = of_nat high\<rparr>))))"

record wim_Version =
  ver_Major :: int
  ver_Minor :: int
  ver_Build :: int
  SPBuild :: int
  SPLevel :: int

record WindowsInfo =
  Arch :: byte
  ProductName :: gostring
  EditionID :: gostring
  InstallationType :: gostring
  ProductType :: gostring
  Languages :: "gostring list"
  DefaultLanguage :: gostring
  win_Version :: wim_Version
  SystemRoot :: gostring

record ImageInfo =
  img_Name :: gostring
  img_Index :: int
  img_CreationTime :: Filetime
  ModTime :: Filetime
  img_Windows :: "WindowsInfo option"

text \<open>The information on an image is that with its number, counted from one.\<close>

lemma image_info_number:
  assumes "image_info img_Index infos i = Some x"
  shows "x \<in> set infos \<and> img_Index x = int i + 1"
  using assms by (auto simp: image_info_def find_Some_iff)

lemma digit_value_hex: "d < 16 \<Longrightarrow> digit_value (hex_digit d) = Some d"
  by (auto simp: digit_value_def word_le_nat_alt unat_hex_digit unat_ascii_lower)

lemma hex_digit_no_underscore: "d < 16 \<Longrightarrow> hex_digit d \<noteq> 95"
  by (auto simp: word_unat_eq_iff unat_hex_digit)

lemma digits_loop_hex:
  "u * 16 ^ n + v mod 16 ^ n < 2 ^ bits \<Longrightarrow>
   digits_loop bits 16 u us (hexn n v @ s) = digits_loop bits 16 (u * 16 ^ n + v mod 16 ^ n) us s"
proof (induction n arbitrary: v s)
  case (Suc n)
  have e: "u * 16 ^ Suc n + v mod 16 ^ Suc n = 16 * (u * 16 ^ n + v div 16 mod 16 ^ n) + v mod 16"
    by (simp add: mod_mult2_eq algebra_simps)
  have "u * 16 ^ n + v div 16 mod 16 ^ n \<le> 16 * (u * 16 ^ n + v div 16 mod 16 ^ n) + v mod 16" by simp
  also have "\<dots> < 2 ^ bits" using Suc.prems e by (simp only:)
  finally have "u * 16 ^ n + v div 16 mod 16 ^ n < 2 ^ bits" .
  note ih = Suc.IH [OF this, of "hex_digit (v mod 16) # s"]
  have "\<not> 16 \<le> v mod 16" "\<not> 2 ^ bits \<le> 16 * (u * 16 ^ n + v div 16 mod 16 ^ n) + v mod 16"
    using Suc.prems e by (simp, simp only: not_le)
  then show ?case using ih by (simp add: digit_value_hex hex_digit_no_underscore e del: power_Suc mult_Suc_right)
qed simp

lemma ParseUint0_hex: "v < 2 ^ 32 \<Longrightarrow> ParseUint0 32 (bs_of ''0x'' @ hexn 8 v) = Inr v"
proof -
  assume v: "v < 2 ^ 32"
  have p: "bs_of ''0x'' @ hexn 8 v = 48 # 120 # hexn 8 v" by (simp add: bs_of_def)
  have "base_prefix (48 # 120 # hexn 8 v) = (16, hexn 8 v)" by (simp add: base_prefix_def ascii_lower_def)
  moreover have "digits_loop 32 16 0 False (hexn 8 v @ []) = Inr (v, False)"
    using v by (subst digits_loop_hex) simp_all
  ultimately show ?thesis unfolding p ParseUint0_def by simp
qed

text \<open>
  A time that is written as two numbers of eight hexadecimal digits, the way images carry it,
  is read back; on a bad number the time is left as it was and the error says what is wrong.
\<close>

theorem filetime_xml:
  "Filetime_UnmarshalXML (Ok (bs_of ''0x'' @ hexn 8 (unat (LowDateTime ft)), bs_of ''0x'' @ hexn 8 (unat (HighDateTime ft)))) ft0 =
     (Ok None, ft) \<and>
   (\<forall>d ft' e. Filetime_UnmarshalXML d ft0 = (Ok (Some e), ft') \<longrightarrow> ft' = ft0)"
proof -
  have "unat (LowDateTime ft) < 2 ^ 32" "unat (HighDateTime ft) < 2 ^ 32"
    using unsigned_less [of "LowDateTime ft", where 'a = nat] unsigned_less [of "HighDateTime ft", where 'a = nat] by simp_all
  then have "ParseUint0 32 (bs_of ''0x'' @ hexn 8 (unat (LowDateTime ft))) = Inr (unat (LowDateTime ft))"
    "ParseUint0 32 (bs_of ''0x'' @ hexn 8 (unat (HighDateTime ft))) = Inr (unat (HighDateTime ft))"
    by (simp_all only: ParseUint0_hex)
  then show ?thesis
    by (auto simp: Filetime_UnmarshalXML_def split: res.splits sum.splits prod.splits)
qed

section \<open>Visiting all directories\<close>

text \<open>
  \<^verbatim>\<open>recur\<close> on the entries of a directory and on a directory. \<open>rdir\<close> is \<^verbatim>\<open>File.Readdir\<close>, which moves the
  reader of the image. Nothing keeps an image from having a directory that contains itself.
\<close>

definition named_err :: "wim_file \<Rightarrow> go_error \<Rightarrow> go_error" where
  "named_err f e = ErrWrap (text_of (f_Name f)) e"

partial_function (option) recur_files ::
  "(wim_file \<Rightarrow> 'i \<Rightarrow> (wim_file list res \<times> 'i) option) \<Rightarrow> wim_file list \<Rightarrow> 'i \<Rightarrow> (unit res \<times> 'i) option" where
  "recur_files rdir fs img =
     (case fs of
        [] \<Rightarrow> Some (Ok (), img)
      | f # rest \<Rightarrow>
          if \<not> IsDir f then recur_files rdir rest img
          else Option.bind (rdir f img) (\<lambda>(r, img).
            case r of
              Err e \<Rightarrow> Some (Err (named_err f (named_err f e)), img)
            | Panic p \<Rightarrow> Some (Panic p, img)
            | Ok files \<Rightarrow> Option.bind (recur_files rdir files img) (\<lambda>(r, img).
                case r of
                  Err e \<Rightarrow> Some (Err (named_err f e), img)
                | Panic p \<Rightarrow> Some (Panic p, img)
                | Ok _ \<Rightarrow> recur_files rdir rest img)))"

definition recur :: "(wim_file \<Rightarrow> 'i \<Rightarrow> (wim_file list res \<times> 'i) option) \<Rightarrow> wim_file \<Rightarrow> 'i \<Rightarrow> (unit res \<times> 'i) option" where
  "recur rdir d img =
     Option.bind (rdir d img) (\<lambda>(r, img).
       case r of
         Err e \<Rightarrow> Some (Err (named_err d e), img)
       | Panic p \<Rightarrow> Some (Panic p, img)
       | Ok files \<Rightarrow> recur_files rdir files img)"

text \<open>The program: every error is a panic, and so is a file without an image.\<close>

definition validate_main :: "(gostring \<Rightarrow> ImageInfo list res) \<Rightarrow> readerAt res \<Rightarrow> unit res option" where
  "validate_main xml_Unmarshal opened =
     (case opened of
        Err e \<Rightarrow> Some (Panic ''open'')
      | Panic p \<Rightarrow> Some (Panic p)
      | Ok f \<Rightarrow> Option.bind (wim_NewReader xml_Unmarshal img_Index f) (\<lambda>m.
          case m of
            Err e \<Rightarrow> Some (Panic ''NewReader'')
          | Panic p \<Rightarrow> Some (Panic p)
          | Ok w \<Rightarrow>
              (case Image w of
                 [] \<Rightarrow> Some (Panic ''index out of range'')
               | (img, info) # _ \<Rightarrow> Option.bind (open_image (w_r w) (fileData w) img) (\<lambda>(r, img).
                   case r of
                     Err e \<Rightarrow> Some (Panic ''Open'')
                   | Panic p \<Rightarrow> Some (Panic p)
                   | Ok dir \<Rightarrow>
                       map_option (\<lambda>(r, _). case r of Ok _ \<Rightarrow> Ok () | Err e \<Rightarrow> Panic ''recur'' | Panic p \<Rightarrow> Panic p)
                         (recur (\<lambda>f img. file_Readdir (w_r w) (fileData w) img f) dir img)))))"

lemma recur_files_returns:
  assumes "\<And>f img. good f \<Longrightarrow> IsDir f \<Longrightarrow> ok img \<Longrightarrow>
      \<exists>fs img'. rdir f img = Some (Ok fs, img') \<and> ok img' \<and> (\<forall>g\<in>set fs. good g \<and> depth g < depth f)"
    and "\<forall>f\<in>set fs. good f \<and> depth f < (n :: nat)" and "ok img"
  shows "\<exists>img'. recur_files rdir fs img = Some (Ok (), img') \<and> ok img'"
  using assms(2,3)
proof (induction n arbitrary: fs img)
  case 0
  then have "fs = []" by (cases fs) auto
  then show ?case using 0 by (simp add: recur_files.simps)
next
  case (Suc n)
  then show ?case
  proof (induction fs arbitrary: img)
    case Nil
    then show ?case by (simp add: recur_files.simps)
  next
    case (Cons f fs)
    note rest = Cons.IH [OF Cons.prems(1), simplified]
    show ?case
    proof (cases "IsDir f")
      case False
      then show ?thesis using rest [of img] Cons.prems by (subst recur_files.simps) simp
    next
      case True
      have "good f" "depth f \<le> n" using Cons.prems(2) by auto
      then obtain gs img1 where r: "rdir f img = Some (Ok gs, img1)" "ok img1" "\<forall>g\<in>set gs. good g \<and> depth g < depth f"
        using assms(1) [OF \<open>good f\<close> True Cons.prems(3)] by blast
      then have "\<forall>g\<in>set gs. good g \<and> depth g < n" using \<open>depth f \<le> n\<close> by fastforce
      from Cons.prems(1) [OF this r(2)] obtain img2 where "recur_files rdir gs img1 = Some (Ok (), img2)" "ok img2"
        by blast
      then show ?thesis using True r(1) rest [of img2] Cons.prems by (subst recur_files.simps) simp
    qed
  qed
qed

text \<open>A directory that contains itself is visited for ever.\<close>

lemma recur_cycle_diverges:
  assumes "\<And>img. \<exists>img' fs. rdir d img = Some (Ok (d # fs), img')" and "IsDir d"
  shows "recur rdir d img = None"
proof -
  have "r = rdir \<longrightarrow> take 1 fs \<noteq> [d]" if h: "recur_files r fs img = Some x" for r fs img x
  proof (rule recur_files.raw_induct [where P = "\<lambda>r fs img x. r = rdir \<longrightarrow> take 1 fs \<noteq> [d]", OF _ h])
    fix recf r fs img x
    assume 1: "\<And>r fs img y. recf r fs img = Some y \<Longrightarrow> r = rdir \<longrightarrow> take 1 fs \<noteq> [d]"
      "(case fs of [] \<Rightarrow> Some (Ok (), img)
        | f # rest \<Rightarrow>
            if \<not> IsDir f then recf r rest img
            else Option.bind (r f img) (\<lambda>(m, img). case m of
                Ok files \<Rightarrow> Option.bind (recf r files img) (\<lambda>(m, img). case m of
                    Ok x \<Rightarrow> recf r rest img
                  | Err e \<Rightarrow> Some (Err (named_err f e), img)
                  | Panic p \<Rightarrow> Some (Panic p, img))
              | Err e \<Rightarrow> Some (Err (named_err f (named_err f e)), img)
              | Panic p \<Rightarrow> Some (Panic p, img))) = Some x"
    show "r = rdir \<longrightarrow> take 1 fs \<noteq> [d]"
    proof (intro impI notI)
      assume r: "r = rdir" and "take 1 fs = [d]"
      then obtain gs where "fs = d # gs" by (cases fs) auto
      moreover obtain img' hs where "rdir d img = Some (Ok (d # hs), img')" using assms(1) by blast
      ultimately have "\<exists>y. recf rdir (d # hs) img' = Some y" using 1(2) r assms(2) by (auto split: Option.bind_splits)
      with 1(1) show False by fastforce
    qed
  qed
  then have "recur_files rdir (d # fs) img \<noteq> Some x" for fs img x by fastforce
  then have "recur_files rdir (d # fs) img = None" for fs img by (metis not_None_eq)
  then show ?thesis using assms(1) [of img] by (auto simp: recur_def)
qed

end
