(* ===== verification/Etw_Platform.thy ===== *)
theory Etw_Platform
  imports Etw_Provider Zsyscall_Pkgs
begin

text \<open>
  What of \<^verbatim>\<open>src/pkg/etw\<close> depends on the processor (\<^verbatim>\<open>wrapper_32.go\<close>, \<^verbatim>\<open>wrapper_64.go\<close>, \<^verbatim>\<open>ptr64_32.go\<close>,
  \<^verbatim>\<open>ptr64_64.go\<close>), the generated names of levels and opcodes (\<^verbatim>\<open>level_string.go\<close>, \<^verbatim>\<open>opcode_string.go\<close>),
  and the program \<^verbatim>\<open>src/tools/etw-provider-gen\<close> that prints the identifier of a provider's name.
\<close>

section \<open>Names\<close>

definition Level_name :: gostring where
  "Level_name = bs_of ''AlwaysCriticalErrorWarningInfoVerbose''"

definition Level_index :: "nat list" where
  "Level_index = [0, 6, 14, 19, 26, 30, 37]"

definition Level_String :: "byte \<Rightarrow> gostring" where
  "Level_String i =
     (if of_nat (length Level_index - 1) \<le> i then bs_of ''Level('' @ FormatInt (uint i) @ bs_of '')''
      else take (Level_index ! (unat i + 1) - Level_index ! unat i) (drop (Level_index ! unat i) Level_name))"

definition Opcode_name :: gostring where
  "Opcode_name = bs_of ''InfoStartStopDCStartDCStop''"

definition Opcode_index :: "nat list" where
  "Opcode_index = [0, 4, 9, 13, 20, 26]"

definition Opcode_String :: "byte \<Rightarrow> gostring" where
  "Opcode_String i =
     (if of_nat (length Opcode_index - 1) \<le> i then bs_of ''Opcode('' @ FormatInt (uint i) @ bs_of '')''
      else take (Opcode_index ! (unat i + 1) - Opcode_index ! unat i) (drop (Opcode_index ! unat i) Opcode_name))"

lemmas etw_constants = LevelAlways_def LevelCritical_def LevelError_def LevelWarning_def LevelInfo_def LevelVerbose_def
  OpcodeInfo_def OpcodeStart_def OpcodeStop_def OpcodeDCStart_def OpcodeDCStop_def

lemma level_names:
  "map Level_String [LevelAlways, LevelCritical, LevelError, LevelWarning, LevelInfo, LevelVerbose] =
     map bs_of [''Always'', ''Critical'', ''Error'', ''Warning'', ''Info'', ''Verbose'']"
  by (simp add: etw_constants Level_String_def Level_index_def Level_name_def bs_of_def word_le_nat_alt)

lemma opcode_names:
  "map Opcode_String [OpcodeInfo, OpcodeStart, OpcodeStop, OpcodeDCStart, OpcodeDCStop] =
     map bs_of [''Info'', ''Start'', ''Stop'', ''DCStart'', ''DCStop'']"
  by (simp add: etw_constants Opcode_String_def Opcode_index_def Opcode_name_def bs_of_def word_le_nat_alt)

lemma other_names:
  "LevelVerbose < l \<Longrightarrow> Level_String l = bs_of ''Level('' @ FormatInt (uint l) @ bs_of '')''"
  "OpcodeDCStop < c \<Longrightarrow> Opcode_String c = bs_of ''Opcode('' @ FormatInt (uint c) @ bs_of '')''"
  by (auto simp: etw_constants Level_String_def Level_index_def Opcode_String_def Opcode_index_def word_less_nat_alt word_le_nat_alt)

section \<open>Pointers in structures\<close>

text \<open>The bytes of a pointer in a data descriptor; the 32-bit variant pads it.\<close>

definition ptr64_on32 :: "u32 \<Rightarrow> bytes" where
  "ptr64_on32 p = le_enc 4 p @ le_enc 4 (0 :: u32)"

definition ptr64_on64 :: "u64 \<Rightarrow> bytes" where
  "ptr64_on64 p = le_enc 8 p"

lemma ptr64_same: "ptr64_on32 p = ptr64_on64 (ucast p)"
proof (rule nth_equalityI)
  fix i
  assume "i < length (ptr64_on32 p)"
  then have "i < 8" by (simp add: ptr64_on32_def)
  moreover have "\<not> bit p (8 * i + n)" if "\<not> i < 4" for n using bit_imp_le_length [of p "8 * i + n"] that by auto
  ultimately show "ptr64_on32 p ! i = ptr64_on64 (ucast p) ! i"
    by (auto simp: ptr64_on32_def ptr64_on64_def nth_append nth_le_enc bit_simps intro!: bit_word_eqI)
qed (simp add: ptr64_on32_def ptr64_on64_def)

definition eventDataDescriptor_bytes :: "bytes \<Rightarrow> u32 \<Rightarrow> byte \<Rightarrow> bytes" where
  "eventDataDescriptor_bytes ptr sz ty = ptr @ le_enc 4 sz @ [ty, 0] @ le_enc 2 (0 :: u16)"

section \<open>Handles and keywords on 32-bit processors\<close>

definition low :: "u64 \<Rightarrow> u32" where "low v = ucast (v AND 0xffffffff)"
definition high :: "u64 \<Rightarrow> u32" where "high v = low (drop_bit 32 v)"

definition eventUnregister_on32 :: "'s windows \<Rightarrow> u64 \<Rightarrow> 's \<Rightarrow> go_error option res \<times> 's" where
  "eventUnregister_on32 sys h s = eventUnregister_32 sys (low h) (high h) s"

definition eventWriteTransfer_on32 ::
  "'s windows \<Rightarrow> u64 \<Rightarrow> uintptr \<Rightarrow> uintptr \<Rightarrow> uintptr \<Rightarrow> u32 \<Rightarrow> uintptr \<Rightarrow> 's \<Rightarrow> go_error option res \<times> 's" where
  "eventWriteTransfer_on32 sys h d act rel count ds s = eventWriteTransfer_32 sys (low h) (high h) d act rel count ds s"

definition eventSetInformation_on32 ::
  "'s windows \<Rightarrow> u64 \<Rightarrow> u32 \<Rightarrow> uintptr \<Rightarrow> u32 \<Rightarrow> 's \<Rightarrow> go_error option res \<times> 's" where
  "eventSetInformation_on32 sys h cls information len s = eventSetInformation_32 sys (low h) (high h) cls information len s"

definition eventUnregister_on64 :: "'s windows \<Rightarrow> u64 \<Rightarrow> 's \<Rightarrow> go_error option res \<times> 's" where
  "eventUnregister_on64 sys h s = eventUnregister_64 sys h s"

definition eventWriteTransfer_on64 ::
  "'s windows \<Rightarrow> u64 \<Rightarrow> uintptr \<Rightarrow> uintptr \<Rightarrow> uintptr \<Rightarrow> u32 \<Rightarrow> uintptr \<Rightarrow> 's \<Rightarrow> go_error option res \<times> 's" where
  "eventWriteTransfer_on64 sys h d act rel count ds s = eventWriteTransfer_64 sys h d act rel count ds s"

definition eventSetInformation_on64 ::
  "'s windows \<Rightarrow> u64 \<Rightarrow> u32 \<Rightarrow> uintptr \<Rightarrow> u32 \<Rightarrow> 's \<Rightarrow> go_error option res \<times> 's" where
  "eventSetInformation_on64 sys h cls information len s = eventSetInformation_64 sys h cls information len s"

definition join_words :: "u32 \<Rightarrow> u32 \<Rightarrow> u64" where
  "join_words hi lo = push_bit 32 (ucast hi) OR ucast lo"

definition providerCallbackAdapter_on32 ::
  "'c providers \<Rightarrow> u32 \<Rightarrow> u32 \<Rightarrow> u32 \<Rightarrow> u32 \<Rightarrow> u32 \<Rightarrow> u32 \<Rightarrow> u32 \<Rightarrow> ('c providers \<times> 'c option) res" where
  "providerCallbackAdapter_on32 p st lvl any_low any_high all_low all_high i =
     providerCallback p st (ucast lvl) (join_words any_high any_low) (join_words all_high all_low) (ucast i)"

lemma low_ucast: "low v = ucast v"
proof -
  have m: "(0xffffffff :: u64) = mask 32" by (simp add: mask_eq_exp_minus_1)
  show ?thesis unfolding low_def m by (rule bit_word_eqI) (auto simp: bit_simps)
qed

lemma word_through_u64: "ucast (ucast w :: u64) = (w :: u32)"
  by (rule bit_word_eqI) (simp add: bit_simps)

lemma byte_through_u64: "ucast (ucast (w :: u32) :: u64) = (ucast w :: byte)"
  by (rule bit_word_eqI) (simp add: bit_simps)

lemma join_high_low: "join_words (high v) (low v) = v"
  by (rule bit_word_eqI) (auto simp: join_words_def high_def low_ucast bit_simps)

lemma low_join: "low (join_words hi lo) = lo"
  by (rule bit_word_eqI) (auto simp: join_words_def low_ucast bit_simps)

lemma high_join: "high (join_words hi lo) = hi"
  by (rule bit_word_eqI) (auto simp: join_words_def high_def low_ucast bit_simps dest: bit_imp_le_length)

text \<open>
  What the system sees of a 64-bit handle on a 32-bit processor: two arguments, the low word first.
  \<open>joined\<close> is how it reads the arguments of a procedure whose first parameter has 64 bits.
\<close>

definition joined :: "uintptr list \<Rightarrow> uintptr list" where
  "joined args = (case args of a # b # rest \<Rightarrow> join_words (ucast b) (ucast a) # rest | _ \<Rightarrow> args)"

definition reads_joined :: "'s windows \<Rightarrow> 's windows" where
  "reads_joined sys = sys\<lparr>trap := (\<lambda>p args. trap sys p (joined args))\<rparr>"

lemma joined_words: "joined (ucast (low h) # ucast (high h) # rest) = h # rest"
  by (simp add: joined_def join_high_low word_through_u64)

lemma syscalln_joined:
  assumes "joined (take n a) = take m b"
  shows "syscalln (reads_joined sys) p n a s = syscalln sys p m b s"
  using assms by (simp add: syscalln_def reads_joined_def split: option.split)

text \<open>
  C35: The processor makes no difference: a 32-bit process that passes a handle in two words makes
  the system see the same call as a 64-bit process, and a callback that gets its keywords in two words
  notifies the provider as one that gets them whole; a data descriptor
  has the same bytes either way.
\<close>

theorem etw_platforms:
  "eventUnregister_on32 (reads_joined sys) h = eventUnregister_on64 sys h \<and>
   eventSetInformation_on32 (reads_joined sys) h = eventSetInformation_on64 sys h \<and>
   eventWriteTransfer_on32 (reads_joined sys) h = eventWriteTransfer_on64 sys h \<and>
   providerCallbackAdapter_on32 p st lvl (low anyk) (high anyk) (low allk) (high allk) i =
     providerCallbackAdapter p (ucast st) (ucast lvl) anyk allk (ucast i) \<and>
   eventDataDescriptor_bytes (ptr64_on32 a) sz ty = eventDataDescriptor_bytes (ptr64_on64 (ucast a)) sz ty"
proof (intro conjI ext)
  note defs = eventUnregister_on32_def eventSetInformation_on32_def eventWriteTransfer_on32_def
    eventUnregister_on64_def eventSetInformation_on64_def eventWriteTransfer_on64_def
    eventUnregister_32_def eventSetInformation_32_def eventWriteTransfer_32_def
    eventUnregister_64_def eventSetInformation_64_def eventWriteTransfer_64_def
  show "eventUnregister_on32 (reads_joined sys) h s = eventUnregister_on64 sys h s" for s
    unfolding defs by (intro arg_cong [where f = "returning _"] syscalln_joined) (simp add: joined_words)
  show "eventSetInformation_on32 (reads_joined sys) h c d l s = eventSetInformation_on64 sys h c d l s" for c d l s
    unfolding defs by (intro arg_cong [where f = "returning _"] syscalln_joined) (simp add: joined_words)
  show "eventWriteTransfer_on32 (reads_joined sys) h d a r c ds s = eventWriteTransfer_on64 sys h d a r c ds s" for d a r c ds s
    unfolding defs by (intro arg_cong [where f = "returning _"] syscalln_joined) (simp add: joined_words)
  show "providerCallbackAdapter_on32 p st lvl (low anyk) (high anyk) (low allk) (high allk) i =
     providerCallbackAdapter p (ucast st) (ucast lvl) anyk allk (ucast i)"
    by (simp add: providerCallbackAdapter_on32_def providerCallbackAdapter_def join_high_low word_through_u64 byte_through_u64)
  show "eventDataDescriptor_bytes (ptr64_on32 a) sz ty = eventDataDescriptor_bytes (ptr64_on64 (ucast a)) sz ty"
    by (simp add: ptr64_same)
qed

section \<open>Printing the identifier of a name\<close>

text \<open>The program's exit code and output; \<open>close\<close> is the deferred \<^verbatim>\<open>Close\<close>, whose error is dropped.\<close>

definition provider_gen ::
  "(bytes \<Rightarrow> bytes) \<Rightarrow> (gostring \<Rightarrow> gostring) \<Rightarrow> 'o event_register \<Rightarrow> 'o event_set_information \<Rightarrow>
   ('o \<Rightarrow> u64 \<Rightarrow> go_error option \<times> 'o) \<Rightarrow> gostring \<Rightarrow> 'o \<times> unit providers \<Rightarrow> (nat \<times> gostring) res \<times> 'o \<times> unit providers" where
  "provider_gen sha1 ToUpper er esi eu pn s =
     (if pn = [] then (Ok (1, []), s)
      else case NewProvider sha1 ToUpper er esi s pn None of
             (Err e, s) \<Rightarrow> (Ok (1, []), s)
           | (Panic p, s) \<Rightarrow> (Panic p, s)
           | (Ok a, s) \<Rightarrow>
               (Ok (0, Provider_String (Some (heap (snd s) a))), snd (Close eu s (Some a))))"

text \<open>The program prints the identifier made from the name and forgets the provider again.\<close>

lemma provider_gen_prints:
  assumes "pn \<noteq> []" and "providerIDFromName sha1 ToUpper pn = Ok gid"
    and "provider_gen sha1 ToUpper er esi eu pn s = (Ok (0, out), s')"
  shows "out = GUID_String gid"
  using assms
  by (auto simp: provider_gen_def NewProvider_def NewProviderWithOptions_def WithCallback_def Let_def Provider_String_def
      upd_provider_def newProvider_def split: prod.splits res.splits option.splits if_splits)

end
