(* ===== verification/Fs_Flags.thy ===== *)
theory Fs_Flags
  imports Pipe Backup Resolve_Path
begin

text \<open>
  The flags of \<^verbatim>\<open>src/internal/fs/fs.go\<close> and \<^verbatim>\<open>security.go\<close> that the library passes to the system, as
  32-bit words, and how they fit together: which access rights contain which, which flags can be
  combined without being confused, and which options of the two ways to open a file agree.
\<close>

named_theorems fs_consts \<open>the values of the flags\<close>

lemmas [fs_consts] = GENERIC_READ_def GENERIC_WRITE_def SYNCHRONIZE_def FILE_SHARE_READ_def FILE_SHARE_WRITE_def
  FILE_OPEN_def FILE_CREATE_def FILE_FLAG_OPEN_REPARSE_POINT_def FILE_FLAG_BACKUP_SEMANTICS_def

section \<open>Access rights\<close>

definition FILE_ANY_ACCESS :: u32 where [fs_consts]: "FILE_ANY_ACCESS = 0"
definition GENERIC_EXECUTE :: u32 where [fs_consts]: "GENERIC_EXECUTE = 0x20000000"
definition GENERIC_ALL :: u32 where [fs_consts]: "GENERIC_ALL = 0x10000000"
definition ACCESS_SYSTEM_SECURITY :: u32 where [fs_consts]: "ACCESS_SYSTEM_SECURITY = 0x1000000"
definition FILE_READ_DATA :: u32 where [fs_consts]: "FILE_READ_DATA = 1"
definition FILE_LIST_DIRECTORY :: u32 where [fs_consts]: "FILE_LIST_DIRECTORY = 1"
definition FILE_WRITE_DATA :: u32 where [fs_consts]: "FILE_WRITE_DATA = 2"
definition FILE_ADD_FILE :: u32 where [fs_consts]: "FILE_ADD_FILE = 2"
definition FILE_APPEND_DATA :: u32 where [fs_consts]: "FILE_APPEND_DATA = 4"
definition FILE_ADD_SUBDIRECTORY :: u32 where [fs_consts]: "FILE_ADD_SUBDIRECTORY = 4"
definition FILE_CREATE_PIPE_INSTANCE :: u32 where [fs_consts]: "FILE_CREATE_PIPE_INSTANCE = 4"
definition FILE_READ_EA :: u32 where [fs_consts]: "FILE_READ_EA = 8"
definition FILE_READ_PROPERTIES :: u32 where [fs_consts]: "FILE_READ_PROPERTIES = FILE_READ_EA"
definition FILE_WRITE_EA :: u32 where [fs_consts]: "FILE_WRITE_EA = 0x10"
definition FILE_WRITE_PROPERTIES :: u32 where [fs_consts]: "FILE_WRITE_PROPERTIES = FILE_WRITE_EA"
definition FILE_EXECUTE :: u32 where [fs_consts]: "FILE_EXECUTE = 0x20"
definition FILE_TRAVERSE :: u32 where [fs_consts]: "FILE_TRAVERSE = 0x20"
definition FILE_DELETE_CHILD :: u32 where [fs_consts]: "FILE_DELETE_CHILD = 0x40"
definition FILE_READ_ATTRIBUTES :: u32 where [fs_consts]: "FILE_READ_ATTRIBUTES = 0x80"
definition FILE_WRITE_ATTRIBUTES :: u32 where [fs_consts]: "FILE_WRITE_ATTRIBUTES = 0x100"
definition STANDARD_RIGHTS_REQUIRED :: u32 where [fs_consts]: "STANDARD_RIGHTS_REQUIRED = 0xf0000"
definition FILE_ALL_ACCESS :: u32 where [fs_consts]: "FILE_ALL_ACCESS = STANDARD_RIGHTS_REQUIRED OR SYNCHRONIZE OR 0x1ff"
definition READ_CONTROL :: u32 where [fs_consts]: "READ_CONTROL = 0x20000"
definition STANDARD_RIGHTS_READ :: u32 where [fs_consts]: "STANDARD_RIGHTS_READ = READ_CONTROL"
definition FILE_GENERIC_READ :: u32 where [fs_consts]:
  "FILE_GENERIC_READ = STANDARD_RIGHTS_READ OR FILE_READ_DATA OR FILE_READ_ATTRIBUTES OR FILE_READ_EA OR SYNCHRONIZE"
definition STANDARD_RIGHTS_WRITE :: u32 where [fs_consts]: "STANDARD_RIGHTS_WRITE = READ_CONTROL"
definition FILE_GENERIC_WRITE :: u32 where [fs_consts]:
  "FILE_GENERIC_WRITE = STANDARD_RIGHTS_WRITE OR FILE_WRITE_DATA OR FILE_WRITE_ATTRIBUTES OR FILE_WRITE_EA OR FILE_APPEND_DATA OR SYNCHRONIZE"
definition STANDARD_RIGHTS_EXECUTE :: u32 where [fs_consts]: "STANDARD_RIGHTS_EXECUTE = READ_CONTROL"
definition FILE_GENERIC_EXECUTE :: u32 where [fs_consts]:
  "FILE_GENERIC_EXECUTE = STANDARD_RIGHTS_EXECUTE OR FILE_READ_ATTRIBUTES OR FILE_EXECUTE OR SYNCHRONIZE"
definition SPECIFIC_RIGHTS_ALL :: u32 where [fs_consts]: "SPECIFIC_RIGHTS_ALL = 0xffff"
definition DELETE :: u32 where [fs_consts]: "DELETE = 0x10000"
definition WRITE_DAC :: u32 where [fs_consts]: "WRITE_DAC = 0x40000"
definition WRITE_OWNER :: u32 where [fs_consts]: "WRITE_OWNER = 0x80000"
definition STANDARD_RIGHTS_ALL :: u32 where [fs_consts]: "STANDARD_RIGHTS_ALL = 0x1f0000"

section \<open>Sharing\<close>

definition FILE_SHARE_NONE :: u32 where [fs_consts]: "FILE_SHARE_NONE = 0"
definition FILE_SHARE_DELETE :: u32 where [fs_consts]: "FILE_SHARE_DELETE = 4"
definition FILE_SHARE_VALID_FLAGS :: u32 where [fs_consts]: "FILE_SHARE_VALID_FLAGS = 7"

section \<open>Dispositions\<close>

definition CREATE_NEW :: u32 where [fs_consts]: "CREATE_NEW = 1"
definition CREATE_ALWAYS :: u32 where [fs_consts]: "CREATE_ALWAYS = 2"
definition OPEN_EXISTING :: u32 where [fs_consts]: "OPEN_EXISTING = 3"
definition OPEN_ALWAYS :: u32 where [fs_consts]: "OPEN_ALWAYS = 4"
definition TRUNCATE_EXISTING :: u32 where [fs_consts]: "TRUNCATE_EXISTING = 5"
definition FILE_SUPERSEDE :: u32 where [fs_consts]: "FILE_SUPERSEDE = 0"
definition FILE_OPEN_IF :: u32 where [fs_consts]: "FILE_OPEN_IF = 3"
definition FILE_OVERWRITE :: u32 where [fs_consts]: "FILE_OVERWRITE = 4"
definition FILE_OVERWRITE_IF :: u32 where [fs_consts]: "FILE_OVERWRITE_IF = 5"
definition FILE_MAXIMUM_DISPOSITION :: u32 where [fs_consts]: "FILE_MAXIMUM_DISPOSITION = 5"

section \<open>Flags and options\<close>

definition FILE_FLAG_WRITE_THROUGH :: u32 where [fs_consts]: "FILE_FLAG_WRITE_THROUGH = 0x80000000"
definition FILE_FLAG_OVERLAPPED :: u32 where [fs_consts]: "FILE_FLAG_OVERLAPPED = 0x40000000"
definition FILE_FLAG_NO_BUFFERING :: u32 where [fs_consts]: "FILE_FLAG_NO_BUFFERING = 0x20000000"
definition FILE_FLAG_RANDOM_ACCESS :: u32 where [fs_consts]: "FILE_FLAG_RANDOM_ACCESS = 0x10000000"
definition FILE_FLAG_SEQUENTIAL_SCAN :: u32 where [fs_consts]: "FILE_FLAG_SEQUENTIAL_SCAN = 0x8000000"
definition FILE_FLAG_DELETE_ON_CLOSE :: u32 where [fs_consts]: "FILE_FLAG_DELETE_ON_CLOSE = 0x4000000"
definition FILE_FLAG_POSIX_SEMANTICS :: u32 where [fs_consts]: "FILE_FLAG_POSIX_SEMANTICS = 0x1000000"
definition FILE_FLAG_OPEN_NO_RECALL :: u32 where [fs_consts]: "FILE_FLAG_OPEN_NO_RECALL = 0x100000"
definition FILE_FLAG_FIRST_PIPE_INSTANCE :: u32 where [fs_consts]: "FILE_FLAG_FIRST_PIPE_INSTANCE = 0x80000"

definition FILE_DIRECTORY_FILE :: u32 where [fs_consts]: "FILE_DIRECTORY_FILE = 1"
definition FILE_WRITE_THROUGH :: u32 where [fs_consts]: "FILE_WRITE_THROUGH = 2"
definition FILE_SEQUENTIAL_ONLY :: u32 where [fs_consts]: "FILE_SEQUENTIAL_ONLY = 4"
definition FILE_NO_INTERMEDIATE_BUFFERING :: u32 where [fs_consts]: "FILE_NO_INTERMEDIATE_BUFFERING = 8"
definition FILE_SYNCHRONOUS_IO_ALERT :: u32 where [fs_consts]: "FILE_SYNCHRONOUS_IO_ALERT = 0x10"
definition FILE_SYNCHRONOUS_IO_NONALERT :: u32 where [fs_consts]: "FILE_SYNCHRONOUS_IO_NONALERT = 0x20"
definition FILE_NON_DIRECTORY_FILE :: u32 where [fs_consts]: "FILE_NON_DIRECTORY_FILE = 0x40"
definition FILE_CREATE_TREE_CONNECTION :: u32 where [fs_consts]: "FILE_CREATE_TREE_CONNECTION = 0x80"
definition FILE_COMPLETE_IF_OPLOCKED :: u32 where [fs_consts]: "FILE_COMPLETE_IF_OPLOCKED = 0x100"
definition FILE_NO_EA_KNOWLEDGE :: u32 where [fs_consts]: "FILE_NO_EA_KNOWLEDGE = 0x200"
definition FILE_DISABLE_TUNNELING :: u32 where [fs_consts]: "FILE_DISABLE_TUNNELING = 0x400"
definition FILE_RANDOM_ACCESS :: u32 where [fs_consts]: "FILE_RANDOM_ACCESS = 0x800"
definition FILE_DELETE_ON_CLOSE :: u32 where [fs_consts]: "FILE_DELETE_ON_CLOSE = 0x1000"
definition FILE_OPEN_BY_FILE_ID :: u32 where [fs_consts]: "FILE_OPEN_BY_FILE_ID = 0x2000"
definition FILE_OPEN_FOR_BACKUP_INTENT :: u32 where [fs_consts]: "FILE_OPEN_FOR_BACKUP_INTENT = 0x4000"
definition FILE_NO_COMPRESSION :: u32 where [fs_consts]: "FILE_NO_COMPRESSION = 0x8000"

section \<open>Impersonation\<close>

definition SecurityAnonymous :: u32 where [fs_consts]: "SecurityAnonymous = 0"
definition SecurityIdentification :: u32 where [fs_consts]: "SecurityIdentification = 1"
definition SecurityImpersonation :: u32 where [fs_consts]: "SecurityImpersonation = 2"
definition SecurityDelegation :: u32 where [fs_consts]: "SecurityDelegation = 3"

definition SECURITY_ANONYMOUS :: u32 where [fs_consts]: "SECURITY_ANONYMOUS = push_bit 16 SecurityAnonymous"
definition SECURITY_IDENTIFICATION :: u32 where [fs_consts]: "SECURITY_IDENTIFICATION = push_bit 16 SecurityIdentification"
definition SECURITY_IMPERSONATION :: u32 where [fs_consts]: "SECURITY_IMPERSONATION = push_bit 16 SecurityImpersonation"
definition SECURITY_DELEGATION :: u32 where [fs_consts]: "SECURITY_DELEGATION = push_bit 16 SecurityDelegation"
definition SECURITY_SQOS_PRESENT :: u32 where [fs_consts]: "SECURITY_SQOS_PRESENT = 0x100000"
definition SECURITY_VALID_SQOS_FLAGS :: u32 where [fs_consts]: "SECURITY_VALID_SQOS_FLAGS = 0x1f0000"

section \<open>Final paths\<close>

definition GetFinalPathDefaultFlag :: u32 where [fs_consts]: "GetFinalPathDefaultFlag = 0"
definition VOLUME_NAME_NT :: u32 where [fs_consts]: "VOLUME_NAME_NT = 2"
definition VOLUME_NAME_NONE :: u32 where [fs_consts]: "VOLUME_NAME_NONE = 4"

section \<open>How the flags fit together\<close>

text \<open>All bits of a word are bits of another one.\<close>

definition within :: "u32 \<Rightarrow> u32 \<Rightarrow> bool" where
  "within a b \<longleftrightarrow> a AND b = a"

text \<open>A list of flags no two of which share a bit.\<close>

fun separate :: "u32 list \<Rightarrow> bool" where
  "separate [] \<longleftrightarrow> True"
| "separate (f # fs) \<longleftrightarrow> f \<noteq> 0 \<and> list_all (\<lambda>g. f AND g = 0) fs \<and> separate fs"

lemma file_rights_within:
  "list_all (\<lambda>r. within r FILE_ALL_ACCESS) [FILE_GENERIC_READ, FILE_GENERIC_WRITE, FILE_GENERIC_EXECUTE, DELETE,
     WRITE_DAC, WRITE_OWNER, FILE_DELETE_CHILD]"
  "FILE_ALL_ACCESS AND (GENERIC_READ OR GENERIC_WRITE OR GENERIC_EXECUTE OR GENERIC_ALL OR ACCESS_SYSTEM_SECURITY) = 0"
  "within FILE_ALL_ACCESS (STANDARD_RIGHTS_ALL OR SPECIFIC_RIGHTS_ALL)"
  by (simp_all add: within_def fs_consts)

lemma flags_separate:
  "separate [FILE_FLAG_WRITE_THROUGH, FILE_FLAG_OVERLAPPED, FILE_FLAG_NO_BUFFERING, FILE_FLAG_RANDOM_ACCESS,
     FILE_FLAG_SEQUENTIAL_SCAN, FILE_FLAG_DELETE_ON_CLOSE, FILE_FLAG_BACKUP_SEMANTICS, FILE_FLAG_POSIX_SEMANTICS,
     FILE_FLAG_OPEN_REPARSE_POINT, FILE_FLAG_OPEN_NO_RECALL, FILE_FLAG_FIRST_PIPE_INSTANCE]"
  "separate [FILE_DIRECTORY_FILE, FILE_WRITE_THROUGH, FILE_SEQUENTIAL_ONLY, FILE_NO_INTERMEDIATE_BUFFERING,
     FILE_SYNCHRONOUS_IO_ALERT, FILE_SYNCHRONOUS_IO_NONALERT, FILE_NON_DIRECTORY_FILE, FILE_CREATE_TREE_CONNECTION,
     FILE_COMPLETE_IF_OPLOCKED, FILE_NO_EA_KNOWLEDGE, FILE_DISABLE_TUNNELING, FILE_RANDOM_ACCESS,
     FILE_DELETE_ON_CLOSE, FILE_OPEN_BY_FILE_ID, FILE_OPEN_FOR_BACKUP_INTENT, FILE_NO_COMPRESSION]"
  "separate [FILE_SHARE_READ, FILE_SHARE_WRITE, FILE_SHARE_DELETE]"
  "FILE_SHARE_READ OR FILE_SHARE_WRITE OR FILE_SHARE_DELETE = FILE_SHARE_VALID_FLAGS"
  by (simp_all add: fs_consts)

text \<open>
  The flag that says that a level of impersonation is given has the bit of a flag that files use, so
  that the two kinds of flags cannot be given together.
\<close>

lemma sqos_is_no_recall: "SECURITY_SQOS_PRESENT = FILE_FLAG_OPEN_NO_RECALL"
  by (simp add: fs_consts)

end
