(* ===== verification/Pipe_Api.thy ===== *)
theory Pipe_Api
  imports Pipe_Listener Fs_Flags
begin

text \<open>
  The functions of \<^verbatim>\<open>src/pipe.go\<close> around the connections: what is asked of the system when a pipe is
  dialed, with the rights and the level of impersonation, how long dialing can take, NT status codes,
  addresses and deadlines of a connection.
\<close>

section \<open>Status codes\<close>

definition ntStatus_Err :: "(u32 \<Rightarrow> go_error option) \<Rightarrow> u32 \<Rightarrow> go_error option" where
  "ntStatus_Err rtlNtStatusToDosError status = (if 0 \<le> sint status then None else rtlNtStatusToDosError status)"

section \<open>What dialing asks for\<close>

definition PipeImpLevelAnonymous :: u32 where "PipeImpLevelAnonymous = SECURITY_ANONYMOUS"
definition PipeImpLevelIdentification :: u32 where "PipeImpLevelIdentification = SECURITY_IDENTIFICATION"
definition PipeImpLevelImpersonation :: u32 where "PipeImpLevelImpersonation = SECURITY_IMPERSONATION"
definition PipeImpLevelDelegation :: u32 where "PipeImpLevelDelegation = SECURITY_DELEGATION"

text \<open>The arguments of \<^verbatim>\<open>CreateFile\<close>; those that are always zero or nil are left out.\<close>

record create_args =
  ca_path :: gostring
  ca_access :: u32
  ca_createmode :: u32
  ca_attrs :: u32

definition dial_args :: "gostring \<Rightarrow> u32 \<Rightarrow> u32 \<Rightarrow> create_args" where
  "dial_args path rights impLevel =
     \<lparr>ca_path = path, ca_access = rights, ca_createmode = OPEN_EXISTING,
      ca_attrs = FILE_FLAG_OVERLAPPED OR SECURITY_SQOS_PRESENT OR impLevel\<rparr>"

text \<open>
  \<open>create i\<close> is \<^verbatim>\<open>CreateFile\<close> at the \<open>i\<close>-th attempt. The connections have the path as their address.
\<close>

record dialer =
  dl_create :: "nat \<Rightarrow> create_args \<Rightarrow> nat res"
  dl_info :: "nat \<Rightarrow> u32 res"
  dl_mkfile :: "nat \<Rightarrow> go_error option"

definition DialPipeAccessImpLevel_at ::
  "dialer \<Rightarrow> (nat \<Rightarrow> go_error option) \<Rightarrow> gostring \<Rightarrow> u32 \<Rightarrow> u32 \<Rightarrow> nat set \<Rightarrow> (pipe_conn res \<times> nat set) option" where
  "DialPipeAccessImpLevel_at d ctx path rights impLevel =
     DialPipeAccessImpLevel ctx (\<lambda>i. dl_create d i (dial_args path rights impLevel)) (dl_info d) (dl_mkfile d)"

definition DialPipeAccess ::
  "dialer \<Rightarrow> (nat \<Rightarrow> go_error option) \<Rightarrow> gostring \<Rightarrow> u32 \<Rightarrow> nat set \<Rightarrow> (pipe_conn res \<times> nat set) option" where
  "DialPipeAccess d ctx path rights = DialPipeAccessImpLevel_at d ctx path rights PipeImpLevelAnonymous"

definition DialPipeContext ::
  "dialer \<Rightarrow> (nat \<Rightarrow> go_error option) \<Rightarrow> gostring \<Rightarrow> nat set \<Rightarrow> (pipe_conn res \<times> nat set) option" where
  "DialPipeContext d ctx path = DialPipeAccess d ctx path (GENERIC_READ OR GENERIC_WRITE)"

text \<open>
  \<^verbatim>\<open>DialPipe\<close>, with times in nanoseconds: \<open>clock i\<close> is the time at the \<open>i\<close>-th attempt. The context of a
  deadline that has passed is done from the start.
\<close>

definition default_timeout :: int where "default_timeout = 2 * 10 ^ 9"

definition deadline_ctx :: "(nat \<Rightarrow> int) \<Rightarrow> int \<Rightarrow> nat \<Rightarrow> go_error option" where
  "deadline_ctx clock absTimeout i = (if absTimeout \<le> clock i then Some DeadlineExceeded else None)"

definition DialPipe_at ::
  "dialer \<Rightarrow> (nat \<Rightarrow> int) \<Rightarrow> gostring \<Rightarrow> int option \<Rightarrow> nat set \<Rightarrow> (pipe_conn res \<times> nat set) option" where
  "DialPipe_at d clock path timeout handles =
     (let absTimeout = clock 0 + (case timeout of Some t \<Rightarrow> t | None \<Rightarrow> default_timeout);
          ctx = deadline_ctx clock absTimeout
      in map_option (\<lambda>(r, hs). (case r of Err e \<Rightarrow> if errors_Is e DeadlineExceeded then Err ErrTimeout else r | _ \<Rightarrow> r, hs))
           (DialPipeContext d ctx path handles))"

section \<open>Addresses and deadlines\<close>

record win32Pipe =
  pipe_file :: nat
  pipe_path :: gostring

definition pipeAddress_Network :: "gostring \<Rightarrow> gostring" where "pipeAddress_Network a = bs_of ''pipe''"
definition pipeAddress_String :: "gostring \<Rightarrow> gostring" where "pipeAddress_String a = a"
definition LocalAddr :: "win32Pipe \<Rightarrow> gostring" where "LocalAddr p = pipe_path p"
definition RemoteAddr :: "win32Pipe \<Rightarrow> gostring" where "RemoteAddr p = pipe_path p"

definition Disconnect :: "(nat \<Rightarrow> go_error option) \<Rightarrow> win32Pipe \<Rightarrow> go_error option" where
  "Disconnect disconnectNamedPipe p = disconnectNamedPipe (pipe_file p)"

text \<open>The two deadlines are set one after the other; \<open>'d\<close> is the state of the file.\<close>

definition SetDeadline ::
  "('t \<Rightarrow> 'd \<Rightarrow> go_error option \<times> 'd) \<Rightarrow> ('t \<Rightarrow> 'd \<Rightarrow> go_error option \<times> 'd) \<Rightarrow> 't \<Rightarrow> 'd \<Rightarrow> go_error option \<times> 'd" where
  "SetDeadline SetReadDeadline SetWriteDeadline t d =
     (case SetReadDeadline t d of (Some e, d) \<Rightarrow> (Some e, d) | (None, d) \<Rightarrow> SetWriteDeadline t d)"

section \<open>Dialing ends\<close>

text \<open>The number of attempts that fit into a time, ten milliseconds apart.\<close>

definition attempts :: "int \<Rightarrow> nat" where
  "attempts timeout = nat (timeout div 10000000) + 1"

lemma clock_advances:
  assumes "\<And>i. clock i + 10000000 \<le> clock (Suc i)"
  shows "clock 0 + 10000000 * int n \<le> (clock n :: int)"
  using assms by (induction n) (simp, smt (verit) of_nat_Suc)

lemma deadline_reached:
  assumes "\<And>i. clock i + 10000000 \<le> clock (Suc i)"
  shows "deadline_ctx clock (clock 0 + timeout) (attempts timeout) = Some DeadlineExceeded"
proof -
  have "timeout \<le> 10000000 * int (attempts timeout)" unfolding attempts_def
    using div_mult_mod_eq [of timeout 10000000] pos_mod_bound [of 10000000 timeout] by (simp; linarith)
  then show ?thesis using clock_advances [of clock "attempts timeout"] assms by (simp add: deadline_ctx_def)
qed

lemma tryDialPipe_ends:
  assumes "ctx k = Some e" and "i \<le> k"
  shows "\<exists>x. tryDialPipe ctx create i = Some x \<and> (\<forall>h. x = Ok h \<longrightarrow> (\<exists>j<k. create j = Ok h))"
  using assms(2)
proof (induction "k - i" arbitrary: i)
  case 0
  then show ?case using assms(1) by (subst tryDialPipe.simps) simp
next
  case (Suc n)
  show ?case
  proof (cases "ctx i = None \<and> create i = Err ERROR_PIPE_BUSY")
    case True
    then show ?thesis using Suc.hyps(1) [of "Suc i"] Suc.hyps(2) by (subst tryDialPipe.simps) simp
  next
    case False
    moreover have "i < k" using Suc.hyps(2) by simp
    ultimately show ?thesis by (subst tryDialPipe.simps) (auto split: option.splits res.splits)
  qed
qed

lemma dialed_connection:
  assumes "tryDialPipe ctx create 0 = Some x"
  shows "\<exists>r hs. DialPipeAccessImpLevel ctx create info mkfile handles = Some (r, hs) \<and>
    (\<forall>c. r = Ok c \<longrightarrow> (\<exists>h. x = Ok h \<and> c \<in> {BytePipe h, MessagePipe h}))"
proof (cases x)
  case (Ok h)
  then show ?thesis using assms by (cases "info h"; cases "mkfile h") (simp_all add: DialPipeAccessImpLevel_def Let_def)
qed (use assms in \<open>simp_all add: DialPipeAccessImpLevel_def\<close>)

text \<open>
  C15: Dialing with a timeout always returns, whatever the system answers: as the attempts are at least
  ten milliseconds apart, there are no more of them than fit into the timeout. Every attempt asks for
  reading and writing, as an overlapped file, and lets the server know the client anonymously only.
\<close>

theorem dial_returns:
  assumes "\<And>i. clock i + 10000000 \<le> clock (Suc i)"
  shows "\<exists>r hs. DialPipe_at d clock path timeout handles = Some (r, hs) \<and>
    (\<forall>c. r = Ok c \<longrightarrow> (\<exists>j < attempts (case timeout of Some t \<Rightarrow> t | None \<Rightarrow> default_timeout). \<exists>h.
       dl_create d j \<lparr>ca_path = path, ca_access = 0xC0000000, ca_createmode = 3, ca_attrs = 0x40100000\<rparr> = Ok h \<and>
       c \<in> {BytePipe h, MessagePipe h}))"
proof -
  let ?t = "case timeout of Some t \<Rightarrow> t | None \<Rightarrow> default_timeout"
  let ?args = "\<lparr>ca_path = path, ca_access = 0xC0000000, ca_createmode = 3, ca_attrs = 0x40100000\<rparr>"
  have args: "dial_args path (GENERIC_READ OR GENERIC_WRITE) PipeImpLevelAnonymous = ?args"
    by (simp add: dial_args_def PipeImpLevelAnonymous_def fs_consts)
  obtain x where x: "tryDialPipe (deadline_ctx clock (clock 0 + ?t)) (\<lambda>i. dl_create d i ?args) 0 = Some x"
    "\<forall>h. x = Ok h \<longrightarrow> (\<exists>j < attempts ?t. dl_create d j ?args = Ok h)"
    using tryDialPipe_ends [where create = "\<lambda>i. dl_create d i ?args" and i = 0 and
      ctx = "deadline_ctx clock (clock 0 + ?t)" and k = "attempts ?t", OF deadline_reached [where clock = clock and timeout = ?t, OF assms]] by blast
  obtain r hs where r: "DialPipeAccessImpLevel (deadline_ctx clock (clock 0 + ?t)) (\<lambda>i. dl_create d i ?args) (dl_info d) (dl_mkfile d) handles = Some (r, hs)"
    "\<forall>c. r = Ok c \<longrightarrow> (\<exists>h. x = Ok h \<and> c \<in> {BytePipe h, MessagePipe h})"
    using dialed_connection [OF x(1)] by blast
  have "DialPipe_at d clock path timeout handles =
      Some (case r of Err e \<Rightarrow> if errors_Is e DeadlineExceeded then Err ErrTimeout else r | _ \<Rightarrow> r, hs)"
    by (simp add: DialPipe_at_def DialPipeContext_def DialPipeAccess_def DialPipeAccessImpLevel_at_def Let_def args r(1))
  then show ?thesis using r(2) x(2) by (cases r) auto
qed

theorem dial_returns_witness:
  "\<exists>r hs. DialPipe_at \<lparr>dl_create = (\<lambda>_ _. Err ERROR_PIPE_BUSY), dl_info = (\<lambda>_. Ok 0), dl_mkfile = (\<lambda>_. None)\<rparr>
     (\<lambda>i. 20000000 * int i) [112] None {} = Some (r, hs)"
  using dial_returns [of "\<lambda>i. 20000000 * int i"
      "\<lparr>dl_create = (\<lambda>_ _. Err ERROR_PIPE_BUSY), dl_info = (\<lambda>_. Ok 0), dl_mkfile = (\<lambda>_. None)\<rparr>" "[112]" None "{}"]
  by auto

text \<open>
  The level of impersonation is not checked: a caller can set any other flag of \<^verbatim>\<open>CreateFile\<close> with it,
  and a level with no flag is taken as it is.
\<close>

lemma impersonation_level_unchecked:
  "ca_attrs (dial_args path rights impLevel) = ca_attrs (dial_args path rights 0) OR impLevel"
  "ca_attrs (dial_args path rights FILE_FLAG_DELETE_ON_CLOSE) AND FILE_FLAG_DELETE_ON_CLOSE \<noteq> 0"
  by (simp_all add: dial_args_def fs_consts flip: or.assoc)

end
