(* ===== verification/Hvsock_Api.thy ===== *)
theory Hvsock_Api
  imports Hvsock File_Port Pipe_Api
begin

text \<open>
  The rest of \<^verbatim>\<open>hvsock.go\<close>: names and errors of listeners and connections, sockets on the
  completion port, the dialer with its deadline, closing and the deadlines of a connection. A
  connection's socket is the \<open>win32File\<close> of \<open>File\<close>, with its goroutines.
\<close>

section \<open>Names and errors\<close>

definition HvsockAddr_Network :: "HvsockAddr \<Rightarrow> gostring" where
  "HvsockAddr_Network addr = bs_of ''hvsock''"

record HvsockListener =
  listener_sock :: nat
  listener_addr :: HvsockAddr

definition listener_Addr :: "HvsockListener \<Rightarrow> HvsockAddr" where "listener_Addr l = listener_addr l"
definition conn_LocalAddr :: "HvsockConn \<Rightarrow> HvsockAddr" where "conn_LocalAddr c = local_addr c"
definition conn_RemoteAddr :: "HvsockConn \<Rightarrow> HvsockAddr" where "conn_RemoteAddr c = remote_addr c"

text \<open>\<^verbatim>\<open>net.OpError\<close> and what it prints.\<close>

record OpError =
  op_Op :: gostring
  op_Net :: gostring
  op_Source :: "HvsockAddr option"
  op_Addr :: "HvsockAddr option"
  op_Err :: go_error

definition opt_text :: "gostring \<Rightarrow> HvsockAddr option \<Rightarrow> gostring" where
  "opt_text before a = (case a of None \<Rightarrow> [] | Some a \<Rightarrow> before @ HvsockAddr_String a)"

definition OpError_Error :: "(go_error \<Rightarrow> gostring) \<Rightarrow> OpError \<Rightarrow> gostring" where
  "OpError_Error err_string e =
     op_Op e @ (if op_Net e = [] then [] else bs_of '' '' @ op_Net e) @ opt_text (bs_of '' '') (op_Source e) @
     opt_text (if op_Source e = None then bs_of '' '' else bs_of ''->'') (op_Addr e) @ bs_of '': '' @ err_string (op_Err e)"

definition listener_opErr :: "HvsockListener \<Rightarrow> gostring \<Rightarrow> go_error \<Rightarrow> OpError" where
  "listener_opErr l op err =
     \<lparr>op_Op = op, op_Net = bs_of ''hvsock'', op_Source = None, op_Addr = Some (listener_addr l), op_Err = err\<rparr>"

definition HvsockConn_opErr :: "HvsockConn \<Rightarrow> gostring \<Rightarrow> go_error \<Rightarrow> OpError" where
  "HvsockConn_opErr c op err =
     \<lparr>op_Op = op, op_Net = bs_of ''hvsock'', op_Source = Some (local_addr c), op_Addr = Some (remote_addr c),
      op_Err = (if errors_Is err ErrFileClosed then ErrSocketClosed else err)\<rparr>"

text \<open>The chain of errors that the model of the operations has.\<close>

definition op_chain :: "string \<Rightarrow> OpError \<Rightarrow> go_error" where
  "op_chain op e = ErrWrap op (op_Err e)"

lemma op_chain_eq:
  "op_chain op (HvsockConn_opErr c (bs_of op) err) = conn_opErr op err"
  "op_chain op (listener_opErr l (bs_of op) err) = ErrWrap op err"
  by (simp_all add: op_chain_def HvsockConn_opErr_def listener_opErr_def conn_opErr_def)

section \<open>Sockets on the completion port\<close>

definition port_newHVSocket ::
  "nat res \<Rightarrow> port_system \<Rightarrow> io_globals \<Rightarrow> nat set \<Rightarrow> win32File res \<times> io_globals \<times> nat set" where
  "port_newHVSocket opened sys g handles =
     (case map_err (ErrWrap ''socket'') opened of
        Err e \<Rightarrow> (Err e, g, handles)
      | Panic p \<Rightarrow> (Panic p, g, handles)
      | Ok fd \<Rightarrow>
          (case makeWin32File sys fd g of
             (Ok f, g) \<Rightarrow> (Ok (f\<lparr>socket := True\<rparr>), g, insert fd handles)
           | (Err e, g) \<Rightarrow> (Err e, g, insert fd handles - {fd})
           | (Panic p, g) \<Rightarrow> (Panic p, g, insert fd handles)))"

section \<open>The dialer\<close>

record HvsockDialer =
  Deadline :: "int option"
  Retries :: nat
  RetryWait :: int

text \<open>
  The context of a dial with the deadline of the dialer, if it has one; \<open>clock\<close> is the time of the
  first check and of the last one.
\<close>

definition dialer_ctx :: "HvsockDialer \<Rightarrow> (bool \<Rightarrow> int) \<Rightarrow> (bool \<Rightarrow> go_error option) \<Rightarrow> bool \<Rightarrow> go_error option" where
  "dialer_ctx d clock ctx late =
     (case ctx late of
        Some e \<Rightarrow> Some e
      | None \<Rightarrow>
          (case Deadline d of
             None \<Rightarrow> None
           | Some t \<Rightarrow> if t \<le> clock late then Some DeadlineExceeded else None))"

definition HvsockDialer_Dial where
  "HvsockDialer_Dial d sys clock ctx connect wait addr handles =
     hv_Dial sys (dialer_ctx d clock ctx) connect wait (Retries d) addr handles"

definition zero_dialer :: HvsockDialer where
  "zero_dialer = \<lparr>Deadline = None, Retries = 0, RetryWait = 0\<rparr>"

definition hvsock_Dial where
  "hvsock_Dial sys clock ctx connect wait addr handles =
     HvsockDialer_Dial zero_dialer sys clock ctx connect wait addr handles"

text \<open>Without retries the redial timer is never used, and the result does not depend on the time.\<close>

lemma hvsock_Dial_once:
  "hvsock_Dial sys clock ctx connect wait addr handles = hv_Dial sys ctx connect wait' 0 addr handles"
proof -
  have "dialer_ctx zero_dialer clock ctx = ctx"
    by (rule ext) (simp add: dialer_ctx_def zero_dialer_def split: option.split)
  moreover have "Retries zero_dialer = 0" by (simp add: zero_dialer_def)
  ultimately show ?thesis unfolding hvsock_Dial_def HvsockDialer_Dial_def hv_Dial_def by (simp only: dial_loop.simps(1))
qed

section \<open>Closing and deadlines\<close>

definition conn_IsClosed :: "win32File \<Rightarrow> bool" where "conn_IsClosed sock = IsClosed sock"

text \<open>
  What \<^verbatim>\<open>prepareIO\<close> says on a file; the calls of the connection on that state. \<^verbatim>\<open>Close\<close> of
  a connection or a listener is the first closing step of its file, or the one that finds it closed.
\<close>

definition prepareIO :: "win32File \<Rightarrow> go_error option" where
  "prepareIO f = (if closing f then Some ErrFileClosed else None)"

inductive hv_Close :: "nat \<Rightarrow> win32File \<Rightarrow> win32File \<Rightarrow> bool" where
  close_open: "pcs f t = Idle \<Longrightarrow> \<not> closing f \<Longrightarrow> hv_Close t f (goto (f\<lparr>closing := True\<rparr>) t CCancel)"
| close_closed: "pcs f t = Idle \<Longrightarrow> closing f \<Longrightarrow> hv_Close t f (goto f t (Finished (0, None)))"

text \<open>The two deadlines are set one after the other, each error with its own text.\<close>

definition conn_SetDeadline ::
  "('t \<Rightarrow> 'd \<Rightarrow> go_error option \<times> 'd) \<Rightarrow> ('t \<Rightarrow> 'd \<Rightarrow> go_error option \<times> 'd) \<Rightarrow> 't \<Rightarrow> 'd \<Rightarrow> go_error option \<times> 'd" where
  "conn_SetDeadline setRead setWrite t d =
     (case setRead t d of
        (Some e, d) \<Rightarrow> (Some (ErrWrap ''set read deadline'' e), d)
      | (None, d) \<Rightarrow> (case setWrite t d of (Some e, d) \<Rightarrow> (Some (ErrWrap ''set write deadline'' e), d) | r \<Rightarrow> r))"

lemma same_deadlines:
  "snd (conn_SetDeadline r w t d) = snd (SetDeadline r w t d)"
  "fst (conn_SetDeadline r w t d) = None \<longleftrightarrow> fst (SetDeadline r w t d) = None"
  by (auto simp: conn_SetDeadline_def SetDeadline_def split: prod.split option.split)

section \<open>Properties\<close>

lemma hv_Close_step: "hv_Close t f f' \<Longrightarrow> file_step False f f' \<and> closing f'"
  by (induction rule: hv_Close.induct) (auto intro: file_step.close_first file_step.close_again)

lemma closing_steps: "(\<lambda>f f'. \<exists>c. file_step c f f')\<^sup>*\<^sup>* f f' \<Longrightarrow> closing f \<Longrightarrow> closing f'"
  by (induction rule: rtranclp_induct) (auto elim!: file_stepE simp: goto_def use_handle_def)

definition net_ErrClosed :: go_error where "net_ErrClosed = ErrNew ''use of closed network connection''"

lemma closed_is_net_closed:
  "errors_Is (conn_opErr op ErrFileClosed) net_ErrClosed" "errors_Is (conn_opErr op ErrSocketClosed) net_ErrClosed"
  by (simp_all add: conn_opErr_def ErrSocketClosed_def net_ErrClosed_def ErrFileClosed_def)

lemma accept_closed:
  "prepare sys l = Some ErrFileClosed \<Longrightarrow> newHVSocket sys hs = (Ok s, hs') \<Longrightarrow> hv_Accept sys l hs = (Err (ErrWrap ''accept'' ErrFileClosed), hs' - {s})"
  by (simp add: hv_Accept_def)

text \<open>
  After \<^verbatim>\<open>Close\<close> of a connection, and whatever its goroutines do from then on, \<^verbatim>\<open>Read\<close>,
  \<^verbatim>\<open>Write\<close>, \<^verbatim>\<open>CloseRead\<close> and \<^verbatim>\<open>CloseWrite\<close> fail with an error that is
  \<^verbatim>\<open>net.ErrClosed\<close>, without a call to the system. The error of \<^verbatim>\<open>Accept\<close> on a closed listener is
  not: its form is that of a file.
\<close>

theorem hvsock_closed:
  assumes "hv_Close t f0 f1" and "(\<lambda>f f'. \<exists>c. file_step c f f')\<^sup>*\<^sup>* f1 f"
  shows "conn_IsClosed f \<and>
    (\<exists>e. \<forall>recv n. hv_Read prepareIO recv f n = Ok ([], Some e, f) \<and> errors_Is e net_ErrClosed) \<and>
    (\<exists>e. \<forall>send b. b \<noteq> [] \<longrightarrow> hv_Write prepareIO send f b = Some (0, Some e, f) \<and> errors_Is e net_ErrClosed) \<and>
    (\<exists>e. \<forall>sys. hv_CloseRead (conn_IsClosed f) sys = Some e \<and> errors_Is e net_ErrClosed) \<and>
    (\<exists>e. \<forall>sys. hv_CloseWrite (conn_IsClosed f) sys = Some e \<and> errors_Is e net_ErrClosed) \<and>
    (\<forall>sys l hs s hs'. prepare sys l = prepareIO f \<longrightarrow> newHVSocket sys hs = (Ok s, hs') \<longrightarrow>
       (\<exists>e. hv_Accept sys l hs = (Err e, hs' - {s}) \<and> errors_Is e ErrFileClosed \<and> \<not> errors_Is e net_ErrClosed))"
proof -
  have c: "closing f" using closing_steps [OF assms(2)] hv_Close_step [OF assms(1)] by blast
  then have p: "prepareIO f = Some ErrFileClosed" and i: "conn_IsClosed f"
    by (simp_all add: prepareIO_def conn_IsClosed_def IsClosed_def)
  have r: "hv_Read prepareIO recv f n = Ok ([], Some (conn_opErr ''read'' ErrFileClosed), f)" for recv n
    by (simp add: hv_Read_def p)
  have w: "hv_Write prepareIO send f b = Some (0, Some (conn_opErr ''write'' ErrFileClosed), f)" if "b \<noteq> []" for send b
    using that by (simp add: hv_Write_def write_loop.simps hv_write_def p)
  have s: "hv_CloseRead (conn_IsClosed f) sys = Some (conn_opErr ''closeread'' ErrSocketClosed)"
    "hv_CloseWrite (conn_IsClosed f) sys = Some (conn_opErr ''closewrite'' ErrSocketClosed)" for sys
    by (simp_all add: hv_CloseRead_def hv_CloseWrite_def shutdown_def i)
  have a: "\<exists>e. hv_Accept sys l hs = (Err e, hs' - {s}) \<and> errors_Is e ErrFileClosed \<and> \<not> errors_Is e net_ErrClosed"
    if "prepare sys l = prepareIO f" "newHVSocket sys hs = (Ok s, hs')" for sys l hs s hs'
    using accept_closed [of sys l hs s hs'] that p by (simp add: ErrFileClosed_def net_ErrClosed_def)
  show ?thesis
  proof (intro conjI)
    show "\<exists>e. \<forall>recv n. hv_Read prepareIO recv f n = Ok ([], Some e, f) \<and> errors_Is e net_ErrClosed"
      using r closed_is_net_closed(1) by blast
    show "\<exists>e. \<forall>send b. b \<noteq> [] \<longrightarrow> hv_Write prepareIO send f b = Some (0, Some e, f) \<and> errors_Is e net_ErrClosed"
      using w closed_is_net_closed(1) by blast
    show "\<exists>e. \<forall>sys. hv_CloseRead (conn_IsClosed f) sys = Some e \<and> errors_Is e net_ErrClosed"
      "\<exists>e. \<forall>sys. hv_CloseWrite (conn_IsClosed f) sys = Some e \<and> errors_Is e net_ErrClosed"
      using s closed_is_net_closed(2) by blast+
  qed (use i a in auto)
qed

definition sample_socket :: win32File where
  "sample_socket = (new_win32File 7)\<lparr>socket := True\<rparr>"

theorem hvsock_closed_witness:
  "\<exists>f. hv_Close 0 sample_socket f \<and>
     (\<exists>e. hv_Write prepareIO (\<lambda>f b. (length b, None, f)) f [1, 2] = Some (0, Some e, f) \<and> errors_Is e net_ErrClosed)"
proof -
  have c: "hv_Close 0 sample_socket (goto (sample_socket\<lparr>closing := True\<rparr>) 0 CCancel)" (is "hv_Close 0 _ ?f")
    by (rule close_open) (simp_all add: sample_socket_def new_win32File_def)
  have "\<exists>e. \<forall>send b. b \<noteq> [] \<longrightarrow> hv_Write prepareIO send ?f b = Some (0, Some e, ?f) \<and> errors_Is e net_ErrClosed"
    using hvsock_closed [OF c rtranclp.rtrancl_refl] by blast
  then show ?thesis using c by blast
qed

text \<open>
  Sockets on the completion port behave as the sockets of \<open>Hvsock\<close>, whose \<^verbatim>\<open>makeWin32File\<close> is a
  parameter: no handle is left open on an error, and a new socket starts out idle.
\<close>

definition port_mkfile :: "port_system \<Rightarrow> io_globals \<Rightarrow> nat \<Rightarrow> go_error option" where
  "port_mkfile sys g h = (case fst (makeWin32File sys h g) of Err e \<Rightarrow> Some e | _ \<Rightarrow> None)"

lemma makeWin32File_new: "fst (makeWin32File sys h g) = Ok f \<Longrightarrow> f = new_win32File h"
  by (auto simp: makeWin32File_def split: prod.splits res.splits option.splits)

lemma port_sockets:
  assumes "mkfile hv = port_mkfile sys g" and "port_newHVSocket (Socket hv) sys g handles = (r, g', hs)" and "\<not> panics r"
  shows "newHVSocket hv handles = (case r of Ok f \<Rightarrow> Ok (handle f) | Err e \<Rightarrow> Err e | Panic p \<Rightarrow> Panic p, hs) \<and>
    (\<forall>f. r = Ok f \<longrightarrow> f = (new_win32File (handle f))\<lparr>socket := True\<rparr> \<and> file_reach (handle f) f)"
proof (cases "Socket hv")
  case (Ok fd)
  obtain m g1 where m: "makeWin32File sys fd g = (m, g1)" by fastforce
  show ?thesis
  proof (cases m)
    case (Ok f)
    then have "f = new_win32File fd" using makeWin32File_new [of sys fd g f] m by simp
    then show ?thesis using assms Ok m \<open>Socket hv = res.Ok fd\<close> file_init [of fd True]
      by (auto simp: port_newHVSocket_def newHVSocket_def port_mkfile_def map_err_def new_win32File_def)
  qed (use assms m Ok in \<open>auto simp: port_newHVSocket_def newHVSocket_def port_mkfile_def map_err_def\<close>)
qed (use assms in \<open>auto simp: port_newHVSocket_def newHVSocket_def map_err_def\<close>)

end
