(* ===== verification/Mk_Main.thy ===== *)
theory Mk_Main
  imports Mk_Source
begin

text \<open>
  The command line of \<^verbatim>\<open>tools/mkwinsyscall\<close>: the flags, \<^verbatim>\<open>writeTempSourceFile\<close>,
  \<^verbatim>\<open>usage\<close> and \<^verbatim>\<open>main\<close>. Its state is the disk and what was printed; a run ends
  with an exit code. \<^verbatim>\<open>format.Source\<close> and the answers of the file system are parameters.
\<close>

section \<open>The flags\<close>

record command =
  cmd_flags :: flags
  out_name :: string
  cmd_args :: "string list"

datatype flag_error =
    Bad_Syntax string
  | Not_Defined string
  | Invalid_Boolean string
  | Needs_Argument string
  | Help

text \<open>\<^verbatim>\<open>strconv.ParseBool\<close>.\<close>

definition ParseBool :: "string \<Rightarrow> bool option" where
  "ParseBool s =
     (if s \<in> {''1'', ''t'', ''T'', ''TRUE'', ''true'', ''True''} then Some True
      else if s \<in> {''0'', ''f'', ''F'', ''FALSE'', ''false'', ''False''} then Some False
      else None)"

text \<open>The Boolean flags that \<^verbatim>\<open>main\<close>'s package declares, with the function that sets them.\<close>

definition bool_flag :: "string \<Rightarrow> (bool \<Rightarrow> flags \<Rightarrow> flags) option" where
  "bool_flag name =
     (if name = ''trace'' then Some (\<lambda>b fl. fl\<lparr>printTraceFlag := b\<rparr>)
      else if name = ''systemdll'' then Some (\<lambda>b fl. fl\<lparr>systemDLL := b\<rparr>)
      else if name = ''winio'' then Some (\<lambda>b fl. fl\<lparr>winio_flag := b\<rparr>)
      else if name = ''utf16'' then Some (\<lambda>b fl. fl\<lparr>utf16_flag := b\<rparr>)
      else if name = ''sort'' then Some (\<lambda>b fl. fl\<lparr>sortdecls := b\<rparr>)
      else None)"

text \<open>The name of a flag and the value after the first equals sign that is not the first character.\<close>

definition split_flag :: "string \<Rightarrow> string \<times> string option" where
  "split_flag s =
     (let n = takeWhile (\<lambda>c. c \<noteq> CHR ''='') (tl s); r = drop (length n) (tl s)
      in (take 1 s @ n, if r = [] then None else Some (tl r)))"

definition dash :: char where "dash = CHR ''-''"

text \<open>The text of an argument that is a flag, without its one or two dashes.\<close>

definition flag_text :: "string \<Rightarrow> string" where
  "flag_text s = (if s ! 1 = dash then drop 2 s else drop 1 s)"

definition is_flag :: "string \<Rightarrow> bool" where
  "is_flag s \<longleftrightarrow> 2 \<le> length s \<and> hd s = dash"

text \<open>\<^verbatim>\<open>flag.Parse\<close> on the flags of the program; the rest of the arguments are paths.\<close>

fun parse_flags :: "command \<Rightarrow> string list \<Rightarrow> flag_error + command" where
  "parse_flags c [] = Inr (c\<lparr>cmd_args := []\<rparr>)"
| "parse_flags c (s # ss) =
     (if \<not> is_flag s then Inr (c\<lparr>cmd_args := s # ss\<rparr>)
      else if s = [dash, dash] then Inr (c\<lparr>cmd_args := ss\<rparr>)
      else
        let t = flag_text s; (name, v) = split_flag t in
        if t = [] \<or> hd t = dash \<or> hd t = CHR ''='' then Inl (Bad_Syntax s)
        else case bool_flag name of
            Some set_flag \<Rightarrow>
              (case v of
                 None \<Rightarrow> parse_flags (c\<lparr>cmd_flags := set_flag True (cmd_flags c)\<rparr>) ss
               | Some v \<Rightarrow>
                   (case ParseBool v of
                      None \<Rightarrow> Inl (Invalid_Boolean v)
                    | Some b \<Rightarrow> parse_flags (c\<lparr>cmd_flags := set_flag b (cmd_flags c)\<rparr>) ss))
          | None \<Rightarrow>
              if name = ''output'' then
                (case v of
                   Some v \<Rightarrow> parse_flags (c\<lparr>out_name := v\<rparr>) ss
                 | None \<Rightarrow>
                     (case ss of
                        [] \<Rightarrow> Inl (Needs_Argument name)
                      | v # rest \<Rightarrow> parse_flags (c\<lparr>out_name := v\<rparr>) rest))
              else if name \<in> {''help'', ''h''} then Inl Help
              else Inl (Not_Defined name))"

definition default_command :: command where
  "default_command = \<lparr>cmd_flags = default_flags, out_name = [], cmd_args = []\<rparr>"

section \<open>The files\<close>

record world =
  disk :: "string \<rightharpoonup> string"
  stdout :: string
  stderr :: string

text \<open>
  How the file system answers: the name of a temporary file, the bytes that a write leaves in a file
  with its error, the error of closing, and whether a file can be removed. \<open>store\<close> is
  \<^verbatim>\<open>os.WriteFile\<close>, which may fail before it has touched the file (\<open>None\<close>) or after a part.
\<close>

record file_system =
  create_temp :: "(string \<rightharpoonup> string) \<Rightarrow> go_error + string"
  write_temp :: "string \<Rightarrow> string \<times> go_error option"
  close_temp :: "go_error option"
  removable :: "string \<Rightarrow> bool"
  store :: "string \<Rightarrow> string \<Rightarrow> string option \<times> go_error option"
  print_out :: "string \<Rightarrow> string \<times> go_error option"

definition writeTempSourceFile :: "file_system \<Rightarrow> string \<Rightarrow> world \<Rightarrow> (go_error + string) \<times> world" where
  "writeTempSourceFile fs data w =
     (case create_temp fs (disk w) of
        Inl e \<Rightarrow> (Inl e, w)
      | Inr name \<Rightarrow>
          let (kept, werr) = write_temp fs data;
              w' = w\<lparr>disk := (disk w)(name \<mapsto> kept)\<rparr>;
              err = (if werr = None then close_temp fs else werr)
          in case err of
               None \<Rightarrow> (Inr name, w')
             | Some e \<Rightarrow> (Inl e, if removable fs name then w'\<lparr>disk := (disk w')(name := None)\<rparr> else w'))"

text \<open>An end of the program: its exit code and the world it leaves.\<close>

type_synonym exit = "nat \<times> world"

definition log_line :: "string \<Rightarrow> world \<Rightarrow> world" where
  "log_line s w = w\<lparr>stderr := stderr w @ s @ [nl]\<rparr>"

definition Fatal :: "string \<Rightarrow> world \<Rightarrow> exit" where
  "Fatal s w = (1, log_line s w)"

text \<open>\<open>help\<close> is what \<^verbatim>\<open>flag.PrintDefaults\<close> prints.\<close>

definition usage :: "string \<Rightarrow> world \<Rightarrow> exit" where
  "usage help w = (1, w\<lparr>stderr := stderr w @ ''usage: mkwinsyscall [flags] [path ...]'' @ [nl] @ help\<rparr>)"

definition write_output :: "file_system \<Rightarrow> string \<Rightarrow> string \<Rightarrow> world \<Rightarrow> go_error option \<times> world" where
  "write_output fs name data w =
     (if name = [] then
        (case print_out fs data of (s, e) \<Rightarrow> (e, w\<lparr>stdout := stdout w @ s\<rparr>))
      else
        (case store fs name data of
           (None, e) \<Rightarrow> (e, w)
         | (Some s, e) \<Rightarrow> (e, w\<lparr>disk := (disk w)(name \<mapsto> s)\<rparr>)))"

text \<open>
  What the program asks of its surroundings: \<^verbatim>\<open>sort.Slice\<close>, the files with their package
  clauses, the answers about paths, \<^verbatim>\<open>go/token\<close>, \<^verbatim>\<open>go/format\<close>, the text of the
  errors and of the flags' defaults. The time stamps of \<^verbatim>\<open>log\<close> are left out.
\<close>

record surroundings =
  sort_funcs :: "Fn list \<Rightarrow> Fn list"
  open_path :: "string \<Rightarrow> go_error + go_file"
  glob_path :: "string \<Rightarrow> go_error + string list"
  is_identifier :: "string \<Rightarrow> bool"
  absolute :: "string \<Rightarrow> go_error + string"
  to_lower :: "string \<Rightarrow> string"
  goroot_path :: string
  format_source :: "string \<Rightarrow> go_error + string"
  src_text :: "src_error \<Rightarrow> string"
  err_text :: "go_error \<Rightarrow> string"
  flag_text_of :: "flag_error \<Rightarrow> string"
  flag_defaults :: string

definition parse_command :: "surroundings \<Rightarrow> command \<Rightarrow> src_error + Source \<times> string" where
  "parse_command env c = ParseFiles (cmd_flags c) (sort_funcs env) (open_path env) (glob_path env) (cmd_args c)"

definition generate_command :: "surroundings \<Rightarrow> command \<Rightarrow> Source \<times> string \<Rightarrow> src_error + string" where
  "generate_command env c = Generate (cmd_flags c) (is_identifier env) (absolute env) (to_lower env) (goroot_path env)"

text \<open>\<^verbatim>\<open>main\<close> after its flags were read, and as a whole.\<close>

definition run_command :: "surroundings \<Rightarrow> file_system \<Rightarrow> command \<Rightarrow> world \<Rightarrow> exit" where
  "run_command env fs c w =
     (if cmd_args c = [] then usage (flag_defaults env) (log_line ''no files to parse provided'' w)
      else case parse_command env c of
          Inl e \<Rightarrow> Fatal (src_text env e) w
        | Inr src \<Rightarrow>
            (case generate_command env c src of
               Inl e \<Rightarrow> Fatal (src_text env e) w
             | Inr code \<Rightarrow>
                 (case format_source env code of
                    Inl e \<Rightarrow>
                      (case writeTempSourceFile fs code (log_line (''failed to format source: '' @ err_text env e) w) of
                         (Inl e, w) \<Rightarrow> Fatal (''failed to write unformatted source to file: '' @ err_text env e) w
                       | (Inr f, w) \<Rightarrow> Fatal (''for diagnosis, wrote unformatted source to '' @ f) w)
                  | Inr data \<Rightarrow>
                      (case write_output fs (out_name c) data w of
                         (Some e, w) \<Rightarrow> Fatal (err_text env e) w
                       | (None, w) \<Rightarrow> (0, w)))))"

definition mk_main :: "surroundings \<Rightarrow> file_system \<Rightarrow> string list \<Rightarrow> world \<Rightarrow> exit" where
  "mk_main env fs args w =
     (case parse_flags default_command args of
        Inl Help \<Rightarrow> usage (flag_defaults env) w
      | Inl e \<Rightarrow> usage (flag_defaults env) (log_line (flag_text_of env e) w)
      | Inr c \<Rightarrow> run_command env fs c w)"

section \<open>The flags are read back\<close>

definition bool_text :: "bool \<Rightarrow> string" where
  "bool_text b = (if b then ''true'' else ''false'')"

definition command_line :: "command \<Rightarrow> string list" where
  "command_line c =
     (let fl = cmd_flags c in
      [''-trace='' @ bool_text (printTraceFlag fl), ''--systemdll='' @ bool_text (systemDLL fl),
       ''-winio='' @ bool_text (winio_flag fl), ''-utf16='' @ bool_text (utf16_flag fl),
       ''-sort='' @ bool_text (sortdecls fl), ''-output='' @ out_name c, ''--''] @ cmd_args c)"

lemma ParseBool_text: "ParseBool (bool_text b) = Some b"
  by (simp add: ParseBool_def bool_text_def)

lemmas flag_simps = is_flag_def dash_def flag_text_def split_flag_def bool_flag_def ParseBool_text

lemma command_line_read:
  "parse_flags c0 (command_line c) = Inr c"
  by (simp add: command_line_def Let_def flag_simps)

section \<open>What a run leaves behind\<close>

text \<open>
  What the documentation of \<^verbatim>\<open>os\<close> promises: a temporary file is new, and a write without an error
  has written everything.
\<close>

definition files_ok :: "file_system \<Rightarrow> bool" where
  "files_ok fs \<longleftrightarrow>
     (\<forall>d n. create_temp fs d = Inr n \<longrightarrow> d n = None) \<and>
     (\<forall>t k. write_temp fs t = (k, None) \<longrightarrow> k = t) \<and>
     (\<forall>n t k. store fs n t = (k, None) \<longrightarrow> k = Some t) \<and>
     (\<forall>t k. print_out fs t = (k, None) \<longrightarrow> k = t)"

text \<open>The formatted code that a command makes.\<close>

definition command_code :: "surroundings \<Rightarrow> command \<Rightarrow> string option" where
  "command_code env c =
     (if cmd_args c = [] then None
      else case parse_command env c of
          Inl _ \<Rightarrow> None
        | Inr src \<Rightarrow>
            (case generate_command env c src of
               Inl _ \<Rightarrow> None
             | Inr code \<Rightarrow> (case format_source env code of Inl _ \<Rightarrow> None | Inr text \<Rightarrow> Some text)))"

definition with_output :: "string \<Rightarrow> string \<Rightarrow> world \<Rightarrow> world" where
  "with_output name text w =
     (if name = [] then w\<lparr>stdout := stdout w @ text\<rparr> else w\<lparr>disk := (disk w)(name \<mapsto> text)\<rparr>)"

text \<open>Every file of a disk is as it was.\<close>

definition keeps :: "world \<Rightarrow> world \<Rightarrow> bool" where
  "keeps w w' \<longleftrightarrow> disk w \<subseteq>\<^sub>m disk w' \<and> stdout w' = stdout w"

lemma keeps_simps [simp]: "keeps w (log_line s w') = keeps w w'" "keeps (log_line s w) w' = keeps w w'" "keeps w w"
  by (simp_all add: keeps_def log_line_def)

lemma fails_keeping [simp]:
  "fst (Fatal s w) = 1" "snd (Fatal s w) = log_line s w" "fst (usage h w) = 1" "keeps w0 (snd (usage h w)) = keeps w0 w"
  by (simp_all add: Fatal_def usage_def keeps_def)

lemma files_okD:
  assumes "files_ok fs"
  shows "create_temp fs d = Inr n \<Longrightarrow> d n = None" and "store fs n t = (k, None) \<Longrightarrow> k = Some t"
    and "print_out fs t = (k2, None) \<Longrightarrow> k2 = t"
  using assms by (auto simp: files_ok_def)

lemma temp_file_keeps:
  assumes "files_ok fs"
  shows "keeps w (snd (writeTempSourceFile fs t w))"
proof (cases "create_temp fs (disk w)")
  case (Inr name)
  then show ?thesis using files_okD(1) [OF assms Inr]
    by (auto simp: writeTempSourceFile_def keeps_def map_le_def Let_def split: prod.split option.split)
qed (simp add: writeTempSourceFile_def)

lemma write_output_done:
  assumes "files_ok fs" and "write_output fs n t w = (None, w')"
  shows "w' = with_output n t w"
proof (cases "n = []")
  case True
  obtain k e where "print_out fs t = (k, e)" by fastforce
  then show ?thesis using assms(2) True files_okD(3) [OF assms(1)] by (auto simp: write_output_def with_output_def)
next
  case False
  obtain k e where "store fs n t = (k, e)" by fastforce
  then show ?thesis using assms(2) False files_okD(2) [OF assms(1)]
    by (cases k) (auto simp: write_output_def with_output_def)
qed

lemma write_output_other:
  "x \<noteq> n \<or> n = [] \<Longrightarrow> disk (snd (write_output fs n t w)) x = disk w x"
  by (auto simp: write_output_def split: prod.split option.split)

lemma run_command_fails:
  assumes "files_ok fs" and "command_code env c = None"
  shows "fst (run_command env fs c w) = 1 \<and> keeps w (snd (run_command env fs c w))"
proof -
  have "keeps w w'" if "writeTempSourceFile fs code (log_line s w) = (r, w')" for code s r w'
    using temp_file_keeps [OF assms(1), of "log_line s w" code] that by simp
  then show ?thesis using assms(2)
    by (auto simp: run_command_def command_code_def split: if_split_asm sum.split sum.split_asm prod.split)
qed

lemma run_command_writes:
  assumes "command_code env c = Some text"
  shows "run_command env fs c w =
    (case write_output fs (out_name c) text w of (Some e, w) \<Rightarrow> Fatal (err_text env e) w | (None, w) \<Rightarrow> (0, w))"
proof -
  obtain src code where "cmd_args c \<noteq> []" "parse_command env c = Inr src" "generate_command env c src = Inr code"
    "format_source env code = Inr text"
    using assms by (auto simp: command_code_def split: if_split_asm sum.split_asm)
  then show ?thesis by (simp add: run_command_def)
qed

lemma generator_run:
  assumes "files_ok fs" and "mk_main env fs args w = (code, w')"
  shows "(code = 0 \<longrightarrow> (\<exists>c text. parse_flags default_command args = Inr c \<and> command_code env c = Some text \<and>
            w' = with_output (out_name c) text w)) \<and>
         (code \<noteq> 0 \<longrightarrow> code = 1 \<and> (keeps w w' \<or> (\<exists>c text e. parse_flags default_command args = Inr c \<and> command_code env c = Some text \<and>
            fst (write_output fs (out_name c) text w) = Some e \<and>
            (\<forall>x. x \<noteq> out_name c \<or> out_name c = [] \<longrightarrow> disk w' x = disk w x))))"
proof (cases "parse_flags default_command args")
  case (Inl e)
  have "code = 1 \<and> keeps w w'"
  proof (cases e)
    case Help
    have "fst (mk_main env fs args w) = 1 \<and> keeps w (snd (mk_main env fs args w))" by (simp add: mk_main_def Inl Help)
    then show ?thesis using assms(2) by simp
  qed (use assms(2) Inl in \<open>auto simp: mk_main_def usage_def keeps_def log_line_def\<close>)
  then show ?thesis by simp
next
  case (Inr c)
  then have r: "run_command env fs c w = (code, w')" using assms(2) by (simp add: mk_main_def)
  show ?thesis
  proof (cases "command_code env c")
    case None
    then show ?thesis using run_command_fails [OF assms(1) None, of w] r by simp
  next
    case (Some t)
    obtain e w1 where wo: "write_output fs (out_name c) t w = (e, w1)" by fastforce
    show ?thesis
    proof (cases e)
      case None
      then show ?thesis using run_command_writes [OF Some, of fs w] r wo Inr Some write_output_done [OF assms(1)] by simp
    next
      case (Some x)
      then show ?thesis using run_command_writes [OF \<open>command_code env c = Some t\<close>, of fs w] r wo Inr
          \<open>command_code env c = Some t\<close> write_output_other [of _ "out_name c" fs t w]
        by (auto simp: Fatal_def log_line_def)
    qed
  qed
qed


definition sample_fs :: file_system where
  "sample_fs = \<lparr>create_temp = (\<lambda>_. Inl (ErrNew ''disk full'')), write_temp = (\<lambda>t. (t, None)), close_temp = None,
     removable = (\<lambda>_. True), store = (\<lambda>_ t. (Some t, None)), print_out = (\<lambda>t. (t, None))\<rparr>"

definition sample_env :: surroundings where
  "sample_env = \<lparr>sort_funcs = stable_sort, open_path = (\<lambda>_. Inr sample_file), glob_path = (\<lambda>_. Inr []),
     is_identifier = (\<lambda>_. True), absolute = Inr, to_lower = (\<lambda>s. s), goroot_path = ''C:/Go'',
     format_source = Inr, src_text = (\<lambda>_. []), err_text = (\<lambda>_. []), flag_text_of = (\<lambda>_. []), flag_defaults = []\<rparr>"

definition empty_world :: world where
  "empty_world = \<lparr>disk = (\<lambda>_. None), stdout = [], stderr = []\<rparr>"


end
