(* ===== verification/Etw_Sample.thy ===== *)
theory Etw_Sample
  imports Etw_Provider Go_Decimal
begin

text \<open>
  The sample program \<^verbatim>\<open>pkg/etw/sample\<close>: two providers, one in a group, that write an event each
  after the user pressed enter. The program is run on the models of the package; the notifications that
  arrive while it waits are a list.
\<close>

section \<open>The program\<close>

definition sample_callback :: "u32 \<Rightarrow> byte \<Rightarrow> u64 \<Rightarrow> gostring" where
  "sample_callback st lvl any =
     bs_of ''Callback: isEnabled='' @ FormatInt (uint st) @ bs_of '', level='' @ FormatInt (uint lvl) @
     bs_of '', matchAnyKeyword='' @ FormatInt (uint any) @ [10]"

definition group_text :: gostring where
  "group_text = bs_of ''12341234-abcd-abcd-abcd-123412341234''"

definition sample_opts :: "EventOpt list" where
  "sample_opts = [WithLevel LevelInfo, WithKeyword 0x140]"

definition sample_event :: "FieldOpt list" where
  "sample_event =
     [StringField (bs_of ''TestField'') (bs_of ''Foo''),
      StringField (bs_of ''TestField2'') (bs_of ''Bar''),
      Struct (bs_of ''TestStruct'')
        [StringField (bs_of ''Field1'') (bs_of ''Value1''),
         StringField (bs_of ''Field2'') (bs_of ''Value2'')],
      StringArray (bs_of ''TestArray'') (map bs_of [''Item1'', ''Item2'', ''Item3'', ''Item4'', ''Item5''])]"

text \<open>The calls of the system and the functions of the standard library that are parameters.\<close>

record 'o etw_system =
  es_sha1 :: "bytes \<Rightarrow> bytes"
  es_upper :: "gostring \<Rightarrow> gostring"
  es_register :: "'o event_register"
  es_set :: "'o event_set_information"
  es_unregister :: "'o \<Rightarrow> u64 \<Rightarrow> go_error option \<times> 'o"
  es_write :: "'o event_write"

text \<open>A notification: state, level, keywords and the context that tells the provider.\<close>

type_synonym notification = "u32 \<times> byte \<times> u64 \<times> u64 \<times> u64"

fun notified :: "notification list \<Rightarrow> gostring \<Rightarrow> unit providers \<Rightarrow> (gostring \<times> unit providers) res" where
  "notified [] out p = Ok (out, p)"
| "notified ((st, lvl, any, all, i) # ns) out p =
     bind_res (providerCallback p st lvl any all i) (\<lambda>(p, cb).
       notified ns (case cb of None \<Rightarrow> out | Some _ \<Rightarrow> out @ sample_callback st lvl any) p)"

text \<open>
  The deferred functions close the second provider, then the first. An error in one of them ends
  the program with 1, also when it is panicking.
\<close>

fun deferred :: "'o etw_system \<Rightarrow> nat list \<Rightarrow> (nat \<times> gostring) res \<Rightarrow> 'o \<times> unit providers \<Rightarrow> gostring \<Rightarrow>
    (nat \<times> gostring) res \<times> 'o \<times> unit providers" where
  "deferred sys [] r s out = (r, s)"
| "deferred sys (a # as) r s out =
     (case Close (es_unregister sys) s (Some a) of
        (None, s) \<Rightarrow> deferred sys as r s out
      | (Some e, s) \<Rightarrow> (Ok (1, out), s))"

text \<open>Writing the events one after the other; the first error is fatal, which runs no deferred function.\<close>

fun write_events :: "'o etw_system \<Rightarrow> nat list \<Rightarrow> gostring \<Rightarrow> (nat \<times> gostring) list \<Rightarrow> 'o \<times> unit providers \<Rightarrow>
    (nat \<times> gostring) res \<times> 'o \<times> unit providers" where
  "write_events sys ds out [] s = deferred sys ds (Ok (0, out)) s out"
| "write_events sys ds out ((a, name) # evs) (os, p) =
     (case WriteEvent (es_write sys) os (Some (heap p a)) name sample_opts sample_event of
        Ok (None, os) \<Rightarrow> write_events sys ds out evs (os, p)
      | Ok (Some e, os) \<Rightarrow> (Ok (1, out), os, p)
      | Err e \<Rightarrow> (Err e, os, p)
      | Panic x \<Rightarrow> deferred sys ds (Panic x) (os, p) out)"

definition running_text :: "gostring \<Rightarrow> gostring" where
  "running_text platform = bs_of ''Running on '' @ platform @ [10]"

definition intro_text :: "gostring \<Rightarrow> unit Provider \<Rightarrow> unit Provider \<Rightarrow> gostring" where
  "intro_text platform pr prg =
     running_text platform @
     bs_of ''Provider ID: '' @ Provider_String (Some pr) @ [10] @
     bs_of ''Provider w/ Group ID: '' @ Provider_String (Some prg) @ [10] @
     bs_of ''Press enter to log events'' @ [10]"

definition sample_main :: "'o etw_system \<Rightarrow> gostring \<Rightarrow> notification list \<Rightarrow> 'o \<times> unit providers \<Rightarrow>
    (nat \<times> gostring) res \<times> 'o \<times> unit providers" where
  "sample_main sys platform notes s =
     (case FromString group_text of
        Err e \<Rightarrow> (Ok (1, running_text platform), s) | Panic x \<Rightarrow> (Panic x, s)
      | Ok g \<Rightarrow>
     (case NewProvider (es_sha1 sys) (es_upper sys) (es_register sys) (es_set sys) s (bs_of ''TestProvider'') (Some ()) of
        (Err e, s) \<Rightarrow> (Ok (1, running_text platform), s) | (Panic x, s) \<Rightarrow> (Panic x, s)
      | (Ok a, s) \<Rightarrow>
     (case NewProviderWithOptions (es_sha1 sys) (es_upper sys) (es_register sys) (es_set sys) s
             (bs_of ''TestProviderWithGroup'') [WithGroup g, WithCallback (Some ())] of
        (Err e, s) \<Rightarrow> (Ok (1, running_text platform), s)
      | (Panic x, s) \<Rightarrow> deferred sys [a] (Panic x) s (running_text platform)
      | (Ok b, os, p) \<Rightarrow>
          (let out = intro_text platform (heap p a) (heap p b) in
           case notified notes out p of
             Ok (out, p) \<Rightarrow> write_events sys [b, a] out [(a, bs_of ''TestEvent''), (b, bs_of ''TestEventWithGroup'')] (os, p)
           | Err e \<Rightarrow> (Err e, os, p)
           | Panic x \<Rightarrow> (Panic x, os, p)))))"

section \<open>Its event\<close>

definition str_fld :: "string \<Rightarrow> string \<Rightarrow> fld" where
  "str_fld n v = Scalar (bs_of n) inTypeANSIString outTypeUTF8 (Str (bs_of v))"

definition sample_flds :: "fld list" where
  "sample_flds =
     [str_fld ''TestField'' ''Foo'', str_fld ''TestField2'' ''Bar'',
      Struc (bs_of ''TestStruct'') [str_fld ''Field1'' ''Value1'', str_fld ''Field2'' ''Value2''],
      Arr (bs_of ''TestArray'') inTypeANSIString outTypeUTF8
        (map (\<lambda>s. Str (bs_of s)) [''Item1'', ''Item2'', ''Item3'', ''Item4'', ''Item5''])]"

lemma StringField_emits: "emits (StringField (bs_of n) (bs_of v)) (str_fld n v)"
  unfolding str_fld_def by (rule emits_scalar) (simp add: StringField_def writeString_def)

lemma StringArray_emits: "emits (StringArray n vs) (Arr n inTypeANSIString outTypeUTF8 (map Str vs))"
  by (rule emits_array [where w = writeString]) (simp_all add: StringArray_def writeString_def)

lemma sample_event_emits: "list_all2 emits sample_event sample_flds"
proof -
  have a: "map (\<lambda>s. Str (bs_of s)) xs = map Str (map bs_of xs)" for xs by simp
  show ?thesis unfolding sample_event_def sample_flds_def a
    by (intro list_all2_Cons [THEN iffD2] conjI StringField_emits emits_struct StringArray_emits list.rel_intros(1))
      
qed

lemma sample_flds_ok: "list_all fld_ok sample_flds"
  by (simp add: sample_flds_def str_fld_def bs_of_def inTypeANSIString_def outTypeUTF8_def item_ok_def)

text \<open>A consumer reads from the event the fields that the program names, with the struct and the array.\<close>

lemma sample_event_read:
  "\<exists>m d fuel. fold (\<lambda>opt s. opt s) sample_event (em, ed) = (em @ m, ed @ d) \<and>
     parse_fields fuel (length sample_flds) m d = Some (sample_flds, [], [])"
  using fold_emits [OF sample_event_emits, of em ed] parse_fields_correct [OF sample_flds_ok order_refl, of "[]" "[]"] by force

section \<open>Both providers are closed\<close>

text \<open>What a change of a provider keeps of the table: where the providers are and their numbers.\<close>

definition same_table :: "unit providers \<Rightarrow> unit providers \<Rightarrow> bool" where
  "same_table p q \<longleftrightarrow> pm_m q = pm_m p \<and> (\<forall>a. index (heap q a) = index (heap p a))"

lemma notified_keeps: "notified ns out p = Ok (out', q) \<Longrightarrow> same_table p q"
proof (induction ns out p rule: notified.induct)
  case (2 st lvl any all i ns out p)
  then obtain p1 cb where c: "providerCallback p st lvl any all i = Ok (p1, cb)"
    and n: "notified ns (case cb of None \<Rightarrow> out | Some _ \<Rightarrow> out @ sample_callback st lvl any) p1 = Ok (out', q)"
    by (auto simp: bind_res_Ok_iff)
  have "same_table p p1"
    using c by (auto simp: providerCallback_def same_table_def upd_provider_def notify_provider_def split: option.splits)
  moreover have "same_table p1 q" using "2.IH" [of "(p1, cb)" p1 cb] c n by simp
  ultimately show ?case by (simp add: same_table_def)
qed (simp add: same_table_def)

lemma new_provider_table:
  assumes "NewProviderWithOptions sha1 up er esi (os, p) name opts = (Ok a, os', p')"
  shows "a = allocated p \<and> pm_m p' = (pm_m p)(pm_i p \<mapsto> a) \<and> index (heap p' a) = pm_i p \<and> pm_i p' = pm_i p + 1 \<and>
    allocated p' = allocated p + 1 \<and> (\<forall>b. b \<noteq> a \<longrightarrow> heap p' b = heap p b)"
  using assms by (auto simp: NewProviderWithOptions_def newProvider_def upd_provider_def removeProvider_def Let_def
      split: res.splits prod.splits option.splits)

lemma deferred_table:
  "deferred sys as r (os, p) out = (Ok (0, t), os', p') \<Longrightarrow> pm_m p' = (pm_m p)|` (- (\<lambda>a. index (heap p a)) ` set as)"
proof (induction as arbitrary: os p)
  case (Cons a as)
  obtain e os1 where u: "es_unregister sys os (Etw_Provider.handle (heap p a)) = (e, os1)" by fastforce
  then show ?case using Cons by (cases e) (auto simp: Close_def removeProvider_def restrict_map_def fun_eq_iff)
qed (simp add: restrict_map_def)

lemma deferred_exit: "deferred sys as (Panic x) s out = (Ok (n, t), s') \<Longrightarrow> n = 1"
  by (induction sys as "Panic x :: (nat \<times> gostring) res" s out rule: deferred.induct) (auto split: prod.splits option.splits)

lemma write_events_table:
  "write_events sys ds out evs (os, p) = (Ok (0, t), os', p') \<Longrightarrow> pm_m p' = (pm_m p)|` (- (\<lambda>a. index (heap p a)) ` set ds)"
proof (induction evs arbitrary: os)
  case Nil
  then show ?case using deferred_table by simp
next
  case (Cons ev evs)
  then show ?case using deferred_table
    by (cases ev) (auto split: res.splits prod.splits option.splits)
qed

text \<open>
  When the sample program exits with 0, it has unregistered both of its providers and the table of providers is
  as it was before, whatever notifications came in; and the fields of its events are read back.
\<close>

declare write_events.simps [simp del] deferred.simps [simp del] notified.simps [simp del]

theorem sample_program:
  assumes "pm_m p (pm_i p) = None" and "pm_m p (pm_i p + 1) = None"
    and "sample_main sys platform notes (os, p) = (Ok (0, out), os', p')"
  shows "pm_m p' = pm_m p \<and>
    (\<exists>m d fuel. fold (\<lambda>opt s. opt s) sample_event (em, ed) = (em @ m, ed @ d) \<and>
       parse_fields fuel (length sample_flds) m d = Some (sample_flds, [], []))"
proof -
  obtain g where g: "FromString group_text = Ok g"
    using assms(3) by (cases "FromString group_text") (simp_all add: sample_main_def)
  obtain r1 os1 p1 where n1: "NewProviderWithOptions (es_sha1 sys) (es_upper sys) (es_register sys) (es_set sys) (os, p)
      (bs_of ''TestProvider'') [WithCallback (Some ())] = (r1, os1, p1)"
    by (cases "NewProviderWithOptions (es_sha1 sys) (es_upper sys) (es_register sys) (es_set sys) (os, p)
      (bs_of ''TestProvider'') [WithCallback (Some ())]") fastforce
  note m1 = assms(3) [unfolded sample_main_def NewProvider_def g n1, simplified]
  obtain a where a: "r1 = Ok a" using m1 by (cases r1) simp_all
  obtain r2 os2 p2 where n2: "NewProviderWithOptions (es_sha1 sys) (es_upper sys) (es_register sys) (es_set sys) (os1, p1)
      (bs_of ''TestProviderWithGroup'') [WithGroup g, WithCallback (Some ())] = (r2, os2, p2)"
    by (cases "NewProviderWithOptions (es_sha1 sys) (es_upper sys) (es_register sys) (es_set sys) (os1, p1)
      (bs_of ''TestProviderWithGroup'') [WithGroup g, WithCallback (Some ())]") fastforce
  note m2 = m1 [unfolded a n2, simplified]
  obtain b where b: "r2 = Ok b" using m2 by (cases r2) (auto dest: deferred_exit)
  have m3: "(case notified notes (intro_text platform (heap p2 a) (heap p2 b)) p2 of
       Ok (out, p) \<Rightarrow> write_events sys [b, a] out [(a, bs_of ''TestEvent''), (b, bs_of ''TestEventWithGroup'')] (os2, p)
     | Err e \<Rightarrow> (Err e, os2, p2) | Panic x \<Rightarrow> (Panic x, os2, p2)) = (Ok (0, out), os', p')"
    using assms(3) by (simp only: sample_main_def NewProvider_def g n1 a n2 b Let_def res.case prod.case)
  obtain out1 p3 where n: "notified notes (intro_text platform (heap p2 a) (heap p2 b)) p2 = Ok (out1, p3)"
    using m3 by (cases "notified notes (intro_text platform (heap p2 a) (heap p2 b)) p2") auto
  have w: "write_events sys [b, a] out1 [(a, bs_of ''TestEvent''), (b, bs_of ''TestEventWithGroup'')] (os2, p3) = (Ok (0, out), os', p')"
    using m3 by (simp only: n res.case prod.case)
  note t = new_provider_table [OF n1 [unfolded a]] new_provider_table [OF n2 [unfolded b]]
  have "a \<noteq> b" using t by simp
  then have i: "index (heap p3 a) = pm_i p" "index (heap p3 b) = pm_i p + 1"
    using t notified_keeps [OF n, unfolded same_table_def] by metis+
  have "pm_m p3 = (pm_m p)(pm_i p \<mapsto> a, pm_i p + 1 \<mapsto> b)"
    using t notified_keeps [OF n] by (simp add: same_table_def)
  then have "pm_m p' = ((pm_m p)(pm_i p \<mapsto> a, pm_i p + 1 \<mapsto> b)) |` (- {pm_i p + 1, pm_i p})"
    using write_events_table [OF w] i by simp
  then have "pm_m p' = pm_m p" using assms(1,2) by (simp add: restrict_map_def fun_eq_iff)
  then show ?thesis using sample_event_read by blast
qed

end
