(* ===== verification/Spec2Isabelle.thy ===== *)
theory Spec2Isabelle
  imports Guid Ea Reparse Backup Etw_Provider File Deadline Lzx_Huffman Lzx_Terminates Wim Backuptar_Restore Pipe_Listener
    Bind_Filter Privilege Vhd Hvsock Etw_Logrus Mk_Source Win_Info Win_Socket
    Zsyscall_Pkgs File_Port Wim_Info Etw_Platform Pipe_Api Hvsock_Api Mk_Main Etw_Sample
begin

text \<open>
  Verification of go-winio, the Go library for Windows facilities that the standard library does not
  have: asynchronous handles, named pipes, Hyper-V sockets, backup streams and their tar archives,
  extended attributes, reparse points, WIM images, ETW events, virtual disks, bind mappings,
  privileges, and the generator of its system call wrappers. File names below are relative to
  \<^verbatim>\<open>src/\<close>.

  How Go is modelled.
  \<^item> \<open>Go_Prelude\<close>: \<^verbatim>\<open>uint8\<close> to \<^verbatim>\<open>uint64\<close> are words and wrap; \<^verbatim>\<open>int\<close> and \<^verbatim>\<open>int64\<close> are \<open>int\<close> with \<open>wrap64\<close>
    where the code can overflow. A Go string is a list of bytes. A call returns a \<open>res\<close>: \<open>Ok\<close>, \<open>Err\<close>
    with a \<open>go_error\<close>, or \<open>Panic\<close>, so that a slice or index out of range is a value of the model. The
    locales \<open>fixed_codec\<close> and \<open>exact_codec\<close> state what \<^verbatim>\<open>binary.Read\<close> and \<^verbatim>\<open>binary.Write\<close> promise for a
    structure of fixed size; they are interpreted on the little- and big-endian integers and on the
    structures that the library reads or writes as bytes.
  \<^item> \<open>Go_IO\<close>, \<open>Go_Tar\<close>: readers and writers are functions on a state. The locale \<open>io_reader\<close> says that a
    reader delivers a given content in pieces of any size and then its final result; \<open>clean_reader\<close>
    adds that the end is reported with no bytes; \<open>io_writer\<close> is the dual, and \<open>io_copying\<close> joins them
    for \<^verbatim>\<open>io.Copy\<close>. They are interpreted on the model's own readers: the backup stream reader, the
    section reader (through the locale \<open>file_at\<close>), the tar reader and writer, the backup stream
    writer. \<^verbatim>\<open>archive/tar\<close> is modelled at the level of entries, headers and PAX records.
  \<^item> \<open>Go_Strconv\<close>, \<open>Go_Decimal\<close>, \<open>Go_Utf\<close>, \<open>Go_Base64\<close>, \<open>Go_Text\<close>: the functions of the standard library that
    the code calls, from number syntax to UTF-16 and the functions of package \<^verbatim>\<open>strings\<close>.
  \<^item> A loop that the system or a reader drives is a \<^verbatim>\<open>partial_function\<close> on \<open>option\<close>, where None is not
    returning; each has a lemma that it returns, under a named condition on its parameters if it
    needs one. No definition of the program uses fuel; the decoder of ETW fields, which is a
    specification, has a bound on the number of fields, and enough is proved to be their number.
  \<^item> Goroutines, timers and the system interleave as inductive step relations, with reachability and
    invariants by rule induction.
  \<^item> The system calls, SHA-1, the random source, \<^verbatim>\<open>xml.Unmarshal\<close> and \<^verbatim>\<open>go/parser\<close> are parameters.

  The parts and their theories.
  \<^item> \<open>Guid\<close> (\<^verbatim>\<open>pkg/guid\<close>): parsing and printing are inverse on exactly the printed forms, the two byte
    orders are exact codecs, versions and variants are set as RFC 4122 asks.
  \<^item> \<open>Ea\<close> (\<^verbatim>\<open>ea.go\<close>) and \<open>Reparse\<close> (\<^verbatim>\<open>reparse.go\<close>): encoders and decoders. Round trips with their exact
    conditions, errors, and that decoding ends on every buffer.
  \<^item> \<open>Backup\<close> (\<^verbatim>\<open>backup.go\<close>): reading, seeking and writing of backup streams. What was written is read
    back by any well-behaved reader.
  \<^item> \<open>Pax_Time\<close>, \<open>Backuptar\<close>, \<open>Backuptar_Archive\<close>, \<open>Backuptar_Restore\<close> (\<^verbatim>\<open>backuptar\<close>): a backup stream
    becomes tar entries and entries become a stream. The archive holds the contents and metadata of
    the file; restoring an archived file gives its stream back.
  \<^item> \<open>File\<close> and \<open>Deadline\<close> (\<^verbatim>\<open>file.go\<close>): any number of goroutines read, write, close and wait on one
    handle; no call gets a closed handle, the handle is closed once, and closing completes. Deadline
    channels are never closed twice. \<open>File_Port\<close> has the completion port: one port for all files, and a
    processor that hands every operation its own result.
  \<^item> \<open>Pipe\<close> and \<open>Pipe_Listener\<close> (\<^verbatim>\<open>pipe.go\<close>): dialing, creation of server pipes, message pipes with their
    end mark, and the listener with its goroutine. The locale \<open>message_file\<close> is what a message pipe
    needs of the file below. Every pipe has one owner; closing completes unless a close request is
    lost, and a run is shown in which it is. \<open>Fs_Flags\<close> (\<^verbatim>\<open>internal/fs\<close>) has the rights and flags as words
    and \<open>Pipe_Api\<close> the entry points for dialing, which returns before its timeout is over, the addresses
    and the deadlines.
  \<^item> \<open>Win_Socket\<close> and \<open>Hvsock\<close> (\<^verbatim>\<open>internal/socket\<close>, \<^verbatim>\<open>hvsock.go\<close>): addresses, dialing with its retries and
    timer, listening, accepting, reading and writing. \<open>Hvsock_Api\<close> joins them with \<open>File\<close> and \<open>File_Port\<close>:
    sockets on the completion port, and that a closed connection answers every call with
    \<^verbatim>\<open>net.ErrClosed\<close> and no system call.
  \<^item> \<open>Wstring\<close> and \<open>Resolve_Path\<close> (\<^verbatim>\<open>internal/stringbuffer\<close>, \<^verbatim>\<open>internal/fs\<close>, \<^verbatim>\<open>pkg/fs\<close>): pooled buffers with
    explicit addresses, the growing buffer of the final path name, and path resolution against the
    documented order of fallbacks.
  \<^item> \<open>Bind_Filter\<close>, \<open>Vhd\<close>, \<open>Privilege\<close>, \<open>Win_Security\<close>, \<open>Win_Info\<close> (\<^verbatim>\<open>pkg/bindfilter\<close>, \<^verbatim>\<open>vhd\<close>, \<^verbatim>\<open>privilege.go\<close>,
    \<^verbatim>\<open>sd.go\<close>, \<^verbatim>\<open>pkg/security\<close>, \<^verbatim>\<open>fileinfo.go\<close>, \<^verbatim>\<open>pkg/process\<close>, \<^verbatim>\<open>internal/interop\<close>,
    \<^verbatim>\<open>internal/computestorage\<close>): what is asked of the system, what becomes of its answers, that handles,
    tokens and allocations are given back on every path, and that buffers grow until the answer fits.
  \<^item> \<open>Etw_Event\<close>, \<open>Etw_Provider\<close>, \<open>Etw_Logrus\<close> (\<^verbatim>\<open>pkg/etw\<close>, \<^verbatim>\<open>pkg/etwlogrus\<close>): the TraceLogging encoding with
    a decoder written from the format, the table of providers, event writing and the Logrus hook.
    \<open>Etw_Platform\<close> has the names of levels and opcodes, the agreement of the wrappers and layouts for 32 and 64
    bits, and \<^verbatim>\<open>tools/etw-provider-gen\<close>; \<open>Etw_Sample\<close> runs \<^verbatim>\<open>pkg/etw/sample\<close> on these models.
  \<^item> \<open>Lzx\<close>, \<open>Lzx_Huffman\<close>, \<open>Lzx_Terminates\<close>, \<open>Wim_Resource\<close>, \<open>Wim\<close> (\<^verbatim>\<open>wim\<close>): the LZX decompressor, which
    returns on every input and whose tables decode the canonical Huffman code, chunked resources, and
    the parser of images and directories. \<open>Wim_Info\<close> has the constants, printing methods and times in XML,
    and \<^verbatim>\<open>wim/validate\<close>, which returns on every directory tree of finite depth, but not on a
    directory that contains itself.
  \<^item> \<open>Mk_Decl\<close>, \<open>Mk_Code\<close>, \<open>Mk_Render\<close>, \<open>Mk_Source\<close> (\<^verbatim>\<open>tools/mkwinsyscall\<close>): the parser of \<^verbatim>\<open>//sys\<close> lines, the
    code of one function with its numbered temporary variables, a reference rendering that needs no
    state, and whole files. On the lines of \<^verbatim>\<open>vhd/vhd.go\<close> the model writes the text of
    \<^verbatim>\<open>vhd/zvhd_windows.go\<close>, up to white space. \<open>Mk_Main\<close> has the flags and \<^verbatim>\<open>main\<close>: what a run leaves on
    the disk for each way it can end.
  \<^item> \<open>Sys_Call\<close>, \<open>Zsyscall\<close>, \<open>Zsyscall_Pkgs\<close> (\<^verbatim>\<open>zsyscall_windows.go\<close> of every package and \<^verbatim>\<open>zvhd_windows.go\<close>):
    the generated wrappers. Windows is a parameter that gets a procedure and its arguments. The meaning
    of a \<^verbatim>\<open>//sys\<close> line is defined on what \<open>Mk_Decl\<close> reads from it, and every wrapper equals the meaning of
    the line that declares it.

  Shape of the properties. Codecs have round trips; loops have termination; step relations have
  invariants and, where something must happen, a bounded number of steps to it; operations on the
  system have their result and the resources held on every branch. Hypotheses on parameters are
  documented behaviour of the system (a call says how large a buffer must be and accepts that size,
  a call that fails holds no handle) and each such property has a witness with concrete functions.

  Bounds. Lengths are unbounded lists except where the code narrows them; there the conditions are
  in the statements (16-bit lengths of reparse buffers, 255 and 65535 bytes of extended attributes,
  32-bit capacities of string buffers).

  Not modelled: \<^verbatim>\<open>xml.Unmarshal\<close>, \<^verbatim>\<open>go/parser\<close>, \<^verbatim>\<open>go/format\<close> and SHA-1, which are parameters; the hash check of
  WIM resources, which the code has switched off; constants that no code of the library uses (processor
  architectures, further flags of virtual disks); the raw memory layout of arguments passed to the
  system, where no code of the library reads it; the lazy loading of DLLs, beyond a procedure that is
  missing; and the tests.
\<close>

end
